(* ===== verification/Prelude.thy ===== *)
theory Prelude
  imports Main "HOL-Library.Word"
begin

text \<open>
  Shared vocabulary of the development: the machine integer types of the kernel sources, the
  error numbers their functions return, the \<^verbatim>\<open>BIT\<close> macro and \<^verbatim>\<open>find_last_bit\<close>, and the
  generic lemmas on words, lists and modular indices the components use.

  The C code is sequentialised: every function takes the state it works on and returns the new
  state, together with its result. A C function that returns \<^verbatim>\<open>0\<close> or a negative error number
  returns a value of type \<open>errno + 'a\<close>, with \<open>Inl\<close> for the error.
\<close>

unbundle bit_operations_syntax

named_theorems mhi_consts \<open>values of the numeric constants of the headers\<close>
named_theorems mhi_defs \<open>unfoldings of the one-step operations\<close>

type_synonym u8 = "8 word"
type_synonym u16 = "16 word"
type_synonym u32 = "32 word"
type_synonym u64 = "64 word"

datatype errno = EIO | ENOMEM | EINVAL | ENXIO | ETIMEDOUT | EBUSY | ENOTCONN | EOVERFLOW
  | ENODEV | EFAULT | EAGAIN | ERESTARTSYS | ENOENT | EINTR | EPERM
  | EOPNOTSUPP | EADDRNOTAVAIL | ENOBUFS | ENETDOWN | ENOSPC

type_synonym 'a res = "errno + 'a"

definition BIT :: "nat \<Rightarrow> u32" where
  "BIT n = push_bit n 1"

text \<open>
  The kernel's \<^verbatim>\<open>find_last_bit(addr, sz)\<close>: the index of the last set bit below \<open>sz\<close>, and
  \<open>sz\<close> itself when there is none.
\<close>

fun last_bit_below :: "u32 \<Rightarrow> nat \<Rightarrow> nat \<Rightarrow> nat" where
  "last_bit_below w sz 0 = sz"
| "last_bit_below w sz (Suc n) = (if bit w n then n else last_bit_below w sz n)"

definition find_last_bit :: "u32 \<Rightarrow> nat \<Rightarrow> nat" where
  "find_last_bit w sz = last_bit_below w sz sz"

definition lower_32_bits :: "u64 \<Rightarrow> u32" where
  "lower_32_bits w = ucast w"

definition upper_32_bits :: "u64 \<Rightarrow> u32" where
  "upper_32_bits w = ucast (drop_bit 32 w)"

text \<open>
  A loop over an array of structures that updates each of them and the state around it.
\<close>

fun thread :: "('a \<Rightarrow> 's \<Rightarrow> 'a \<times> 's) \<Rightarrow> 'a list \<Rightarrow> 's \<Rightarrow> 'a list \<times> 's" where
  "thread f [] s = ([], s)"
| "thread f (x # xs) s =
     (let (x', s') = f x s; (xs', s'') = thread f xs s' in (x' # xs', s''))"

text \<open>
  The kernel's \<^verbatim>\<open>wait_event_timeout\<close>: the condition is evaluated, with its side effects on the
  local variables \<open>l\<close>, once before sleeping and again after each wake-up; the last evaluation is the
  one at the timeout. The list holds what other threads and the device do to the state during each
  sleep. The flag is the result compared with 0.
\<close>

fun wait_event :: "('l \<Rightarrow> 's \<Rightarrow> bool \<times> 'l) \<Rightarrow> ('s \<Rightarrow> 's) list \<Rightarrow> 'l \<Rightarrow> 's \<Rightarrow> bool \<times> 'l \<times> 's" where
  "wait_event cond [] l s = (let (b, l') = cond l s in (b, l', s))"
| "wait_event cond (e # es) l s =
     (let (b, l') = cond l s in if b then (True, l', s) else wait_event cond es l' (e s))"

definition wait_event_timeout :: "('s \<Rightarrow> bool) \<Rightarrow> ('s \<Rightarrow> 's) list \<Rightarrow> 's \<Rightarrow> bool \<times> 's" where
  "wait_event_timeout P es s =
     (let (b, _, s') = wait_event (\<lambda>_ s. (P s, ())) es () s in (b, s'))"

subsection \<open>Loops and waiting\<close>

lemma thread_invariant:
  assumes "Q s" and "\<And>x s. x \<in> set xs \<Longrightarrow> Q s \<Longrightarrow> Q (snd (f x s))"
  shows "Q (snd (thread f xs s))"
  using assms by (induction xs arbitrary: s) (simp_all add: Let_def case_prod_beta)

lemma thread_fst_length [simp]: "length (fst (thread f xs s)) = length xs"
  by (induction xs arbitrary: s) (simp_all add: Let_def case_prod_beta)

lemma thread_each:
  assumes "\<And>x s. x \<in> set xs \<Longrightarrow> R x (fst (f x s))"
  shows "list_all2 R xs (fst (thread f xs s))"
  using assms
proof (induction xs arbitrary: s)
  case Nil
  then show ?case by simp
next
  case (Cons x xs)
  have "R x (fst (f x s))" and "list_all2 R xs (fst (thread f xs (snd (f x s))))"
    using Cons by simp_all
  then show ?case by (simp add: Let_def case_prod_beta)
qed

lemma wait_event_inv:
  assumes "Q s" and "\<And>e s. e \<in> set es \<Longrightarrow> Q s \<Longrightarrow> Q (e s)"
  shows "Q (snd (snd (wait_event cond es l s)))"
  using assms
proof (induction es arbitrary: l s)
  case Nil
  then show ?case by (simp add: Let_def case_prod_beta)
next
  case (Cons e es)
  then have "Q (e s)" by simp
  with Cons show ?case by (simp add: Let_def case_prod_beta)
qed

lemma wait_event_timeout_inv:
  assumes "Q s" and "\<And>e s. e \<in> set es \<Longrightarrow> Q s \<Longrightarrow> Q (e s)"
  shows "Q (snd (wait_event_timeout P es s))"
proof -
  have "Q (snd (snd (wait_event (\<lambda>_ s. (P s, ())) es () s)))"
    by (rule wait_event_inv) (use assms in auto)
  then show ?thesis by (simp add: wait_event_timeout_def case_prod_beta Let_def)
qed

lemma wait_event_timeout_result: "fst (wait_event_timeout P es s) = P (snd (wait_event_timeout P es s))"
proof -
  have "fst (wait_event (\<lambda>_ s. (P s, ())) es l s) =
      P (snd (snd (wait_event (\<lambda>_ s. (P s, ())) es l s)))" for l
    by (induction es arbitrary: s l) auto
  then show ?thesis by (simp add: wait_event_timeout_def case_prod_beta Let_def)
qed

lemma wait_event_timeout_done: "P s \<Longrightarrow> wait_event_timeout P es s = (True, s)"
  by (cases es) (simp_all add: wait_event_timeout_def)

lemma wait_event_timeout_Nil [simp]: "wait_event_timeout P [] s = (P s, s)"
  by (simp add: wait_event_timeout_def)

lemma wait_event_timeout_Cons [simp]:
  "wait_event_timeout P (e # es) s =
     (if P s then (True, s) else wait_event_timeout P es (e s))"
  by (simp add: wait_event_timeout_def)

subsection \<open>Words\<close>

lemma upper_lower_32_bits:
  "push_bit 32 (ucast (upper_32_bits w)) OR ucast (lower_32_bits w) = (w :: u64)"
  by (rule bit_word_eqI)
    (auto simp: upper_32_bits_def lower_32_bits_def bit_or_iff bit_push_bit_iff bit_unsigned_iff
      bit_drop_bit_eq less_diff_conv2)

lemma unat_add_no_wrap:
  "unat (a :: 'a::len word) + unat b < 2 ^ LENGTH('a) \<Longrightarrow> unat (a + b) = unat a + unat b"
  by (simp add: unat_word_ariths)

lemma unat_diff_le: "(b :: 'a::len word) \<le> a \<Longrightarrow> unat (a - b) = unat a - unat b"
  by (rule unat_sub)

lemma word_and_low_mask_less: "unat (w AND mask n :: 'a::len word) < 2 ^ n"
proof -
  have "w AND mask n = take_bit n w" by (simp add: take_bit_eq_mask)
  then show ?thesis by (simp add: unsigned_take_bit_eq take_bit_nat_less_exp)
qed

subsection \<open>Modular indices\<close>

lemma Suc_mod_eq: "i < n \<Longrightarrow> Suc i mod n = (if Suc i = n then 0 else Suc i)" for i n :: nat
  by auto

lemma mod_add_self_diff:
  "i < n \<Longrightarrow> j < n \<Longrightarrow> (i + (j + n - i) mod n) mod n = j" for i j n :: nat
  by (metis (no_types, lifting) add.commute add_diff_inverse_nat less_or_eq_imp_le
      linorder_not_less mod_add_right_eq mod_add_self2 mod_less trans_less_add2)

lemma mod_dist_le: "p \<le> w \<Longrightarrow> w < n \<Longrightarrow> (w + n - p) mod n = w - p" for p w n :: nat
  by (simp add: mod_if)

lemma mod_dist_less: "0 < n \<Longrightarrow> (j + n - i) mod n < n" for i j n :: nat
  by simp

lemma mod_dist_Suc:
  fixes i j n :: nat
  assumes "i < n" and "j < n" and "i \<noteq> j"
  shows "(j + n - Suc i mod n) mod n = (j + n - i) mod n - 1"
proof (cases "i < j")
  case True
  with assms have "(j + n - i) mod n = j - i"
    by (simp add: mod_if)
  moreover from True assms have "(j + n - Suc i mod n) mod n = j - Suc i"
    by (simp add: mod_if)
  ultimately show ?thesis by simp
next
  case False
  with assms have "(j + n - i) mod n = j + n - i" by simp
  moreover from False assms have "(j + n - Suc i mod n) mod n = j + n - Suc i"
    by (cases "Suc i = n") (auto simp: mod_if)
  ultimately show ?thesis by simp
qed

lemma mod_dist_zero_iff:
  "i < n \<Longrightarrow> j < n \<Longrightarrow> (j + n - i) mod n = 0 \<longleftrightarrow> i = j" for i j n :: nat
  by (auto simp: mod_if split: if_splits)

lemma mod_dist_Suc_right:
  fixes i j n :: nat
  assumes "i < n" and "j < n" and "Suc j mod n \<noteq> i"
  shows "(Suc j mod n + n - i) mod n = Suc ((j + n - i) mod n)"
proof (cases "i \<le> j")
  case True
  with assms have "(j + n - i) mod n = j - i" by (simp add: mod_if)
  moreover from True assms have "(Suc j mod n + n - i) mod n = Suc j - i"
    by (cases "Suc j = n") (auto simp: mod_if)
  ultimately show ?thesis using True by simp
next
  case False
  with assms have "(j + n - i) mod n = j + n - i" by simp
  moreover from False assms have "Suc j < i" by (auto simp: mod_if split: if_splits)
  with assms have "(Suc j mod n + n - i) mod n = Suc (j + n - i)" by simp
  ultimately show ?thesis by simp
qed

lemma mod_add_left_inj:
  fixes p k l n :: nat
  assumes eq: "(p + k) mod n = (p + l) mod n" and "k < n" and "l < n"
  shows "k = l"
proof -
  have le: "l = k" if "k \<le> l" and "(p + l) mod n = (p + k) mod n" and "l < n" for k l :: nat
  proof -
    have "n dvd (p + l) - (p + k)"
      using that(1,2) by (subst mod_eq_dvd_iff_nat [symmetric]) simp_all
    then have "n dvd l - k" by simp
    then have "l - k = 0 \<or> n \<le> l - k" using dvd_imp_le by blast
    with that(1,3) show ?thesis by linarith
  qed
  show ?thesis
  proof (cases "k \<le> l")
    case True
    with le [of k l] eq assms(3) show ?thesis by simp
  next
    case False
    with le [of l k] eq assms(2) show ?thesis by simp
  qed
qed

lemma unat_of_nat_small: "n < 2 ^ LENGTH('a) \<Longrightarrow> unat (of_nat n :: 'a::len word) = n"
  by (simp add: unsigned_of_nat take_bit_nat_eq_self)

subsection \<open>Lists\<close>

lemma map_upt_shift: "map f [Suc 0..<Suc n] = map (\<lambda>k. f (Suc k)) [0..<n]"
  by (simp add: map_Suc_upt [symmetric] del: upt_Suc)

lemma upt_conv_Cons0: "0 < n \<Longrightarrow> [0..<n] = 0 # [Suc 0..<n]"
  by (simp add: upt_conv_Cons)

end
