(* ===== verification/MHI_Defs.thy ===== *)
theory MHI_Defs
  imports Prelude
begin

text \<open>
  The data model of the MHI core (\<^verbatim>\<open>core/mhi_internal.h\<close>, \<^verbatim>\<open>core/mhi.h\<close>): the register map and
  the numeric codes shared with the device, the enumerations of the host, and the structures
  (\<^verbatim>\<open>struct mhi_ring\<close>, \<^verbatim>\<open>mhi_chan\<close>, \<^verbatim>\<open>mhi_event\<close>, \<^verbatim>\<open>mhi_timesync\<close>, \<^verbatim>\<open>mhi_controller\<close>) as records.

  Values that the device supplies (execution environment, MHI state, event types and codes) stay
  raw 32-bit words, as in the code, where any value can come out of a register. Enumerations only
  the host writes are datatypes.

  A ring keeps, beside its pointers, the words of the context structure it is bound to
  (\<^verbatim>\<open>er_ctxt\<close>, \<^verbatim>\<open>chan_ctxt\<close>, \<^verbatim>\<open>cmd_ctxt\<close>; the other words of the channel and event contexts are the
  fields \<open>cc_*\<close> and \<open>ec_*\<close>): the cell \<^verbatim>\<open>ctxt_wp\<close> points to is the context's \<open>wp\<close>, so the
  model keeps it once, as \<open>ring_ctxt_wp\<close>. The ring's memory is a function from addresses to
  elements. Everything the code does to its surroundings (register writes, callbacks, scheduled
  work) is appended to \<open>trace\<close>, so that theorems can speak about its order.

  Locks are not modelled, the tsync list lock apart: a function is one sequential execution. What
  the device and other threads do while the code sleeps is an argument of the function that
  sleeps.
\<close>

subsection \<open>MMIO register map (mhi\_internal.h)\<close>

definition MHICFG :: u32 where [mhi_consts]: "MHICFG = 0x10"
definition MHICFG_NHWER_MASK :: u32 where [mhi_consts]: "MHICFG_NHWER_MASK = 0xFF000000"
definition MHICFG_NHWER_SHIFT :: nat where [mhi_consts]: "MHICFG_NHWER_SHIFT = 24"
definition MHICFG_NER_MASK :: u32 where [mhi_consts]: "MHICFG_NER_MASK = 0xFF0000"
definition MHICFG_NER_SHIFT :: nat where [mhi_consts]: "MHICFG_NER_SHIFT = 16"
definition CHDBOFF :: u32 where [mhi_consts]: "CHDBOFF = 0x18"
definition CHDBOFF_CHDBOFF_MASK :: u32 where [mhi_consts]: "CHDBOFF_CHDBOFF_MASK = 0xFFFFFFFF"
definition CHDBOFF_CHDBOFF_SHIFT :: nat where [mhi_consts]: "CHDBOFF_CHDBOFF_SHIFT = 0"
definition ERDBOFF :: u32 where [mhi_consts]: "ERDBOFF = 0x20"
definition ERDBOFF_ERDBOFF_MASK :: u32 where [mhi_consts]: "ERDBOFF_ERDBOFF_MASK = 0xFFFFFFFF"
definition ERDBOFF_ERDBOFF_SHIFT :: nat where [mhi_consts]: "ERDBOFF_ERDBOFF_SHIFT = 0"
definition MHICTRL :: u32 where [mhi_consts]: "MHICTRL = 0x38"
definition MHICTRL_MHISTATE_MASK :: u32 where [mhi_consts]: "MHICTRL_MHISTATE_MASK = 0x0000FF00"
definition MHICTRL_MHISTATE_SHIFT :: nat where [mhi_consts]: "MHICTRL_MHISTATE_SHIFT = 8"
definition MHICTRL_RESET_MASK :: u32 where [mhi_consts]: "MHICTRL_RESET_MASK = 0x2"
definition MHICTRL_RESET_SHIFT :: nat where [mhi_consts]: "MHICTRL_RESET_SHIFT = 1"
definition MHISTATUS :: u32 where [mhi_consts]: "MHISTATUS = 0x48"
definition MHISTATUS_MHISTATE_MASK :: u32 where [mhi_consts]: "MHISTATUS_MHISTATE_MASK = 0x0000FF00"
definition MHISTATUS_MHISTATE_SHIFT :: nat where [mhi_consts]: "MHISTATUS_MHISTATE_SHIFT = 8"
definition MHISTATUS_READY_MASK :: u32 where [mhi_consts]: "MHISTATUS_READY_MASK = 0x1"
definition MHISTATUS_READY_SHIFT :: nat where [mhi_consts]: "MHISTATUS_READY_SHIFT = 0"
definition CCABAP_LOWER :: u32 where [mhi_consts]: "CCABAP_LOWER = 0x58"
definition CCABAP_HIGHER :: u32 where [mhi_consts]: "CCABAP_HIGHER = 0x5C"
definition ECABAP_LOWER :: u32 where [mhi_consts]: "ECABAP_LOWER = 0x60"
definition ECABAP_HIGHER :: u32 where [mhi_consts]: "ECABAP_HIGHER = 0x64"
definition CRCBAP_LOWER :: u32 where [mhi_consts]: "CRCBAP_LOWER = 0x68"
definition CRCBAP_HIGHER :: u32 where [mhi_consts]: "CRCBAP_HIGHER = 0x6C"
definition CRDB_LOWER :: u32 where [mhi_consts]: "CRDB_LOWER = 0x70"
definition MHICTRLBASE_LOWER :: u32 where [mhi_consts]: "MHICTRLBASE_LOWER = 0x80"
definition MHICTRLBASE_HIGHER :: u32 where [mhi_consts]: "MHICTRLBASE_HIGHER = 0x84"
definition MHICTRLLIMIT_LOWER :: u32 where [mhi_consts]: "MHICTRLLIMIT_LOWER = 0x88"
definition MHICTRLLIMIT_HIGHER :: u32 where [mhi_consts]: "MHICTRLLIMIT_HIGHER = 0x8C"
definition MHIDATABASE_LOWER :: u32 where [mhi_consts]: "MHIDATABASE_LOWER = 0x98"
definition MHIDATABASE_HIGHER :: u32 where [mhi_consts]: "MHIDATABASE_HIGHER = 0x9C"
definition MHIDATALIMIT_LOWER :: u32 where [mhi_consts]: "MHIDATALIMIT_LOWER = 0xA0"
definition MHIDATALIMIT_HIGHER :: u32 where [mhi_consts]: "MHIDATALIMIT_HIGHER = 0xA4"
definition MISC_OFFSET :: u32 where [mhi_consts]: "MISC_OFFSET = 0x24"
definition MISC_CAP_MASK :: u32 where [mhi_consts]: "MISC_CAP_MASK = 0xFFFFFFFF"
definition MISC_CAP_SHIFT :: nat where [mhi_consts]: "MISC_CAP_SHIFT = 0"
definition CAP_CAPID_MASK :: u32 where [mhi_consts]: "CAP_CAPID_MASK = 0xFF000000"
definition CAP_CAPID_SHIFT :: nat where [mhi_consts]: "CAP_CAPID_SHIFT = 24"
definition CAP_NEXT_CAP_MASK :: u32 where [mhi_consts]: "CAP_NEXT_CAP_MASK = 0x00FFF000"
definition CAP_NEXT_CAP_SHIFT :: nat where [mhi_consts]: "CAP_NEXT_CAP_SHIFT = 12"
definition TIMESYNC_DB_OFFSET :: u32 where [mhi_consts]: "TIMESYNC_DB_OFFSET = 0x4"
definition TIMESYNC_TIME_LOW_OFFSET :: u32 where [mhi_consts]: "TIMESYNC_TIME_LOW_OFFSET = 0x8"
definition TIMESYNC_CAP_ID :: u32 where [mhi_consts]: "TIMESYNC_CAP_ID = 2"
definition BHI_INTVEC :: u32 where [mhi_consts]: "BHI_INTVEC = 0x20"
definition BHI_EXECENV :: u32 where [mhi_consts]: "BHI_EXECENV = 0x28"

subsection \<open>Device execution environment and MHI states (mhi.h)\<close>

definition MHI_EE_PBL :: u32 where [mhi_consts]: "MHI_EE_PBL = 0"
definition MHI_EE_SBL :: u32 where [mhi_consts]: "MHI_EE_SBL = 1"
definition MHI_EE_AMSS :: u32 where [mhi_consts]: "MHI_EE_AMSS = 2"
definition MHI_EE_RDDM :: u32 where [mhi_consts]: "MHI_EE_RDDM = 3"
definition MHI_EE_WFW :: u32 where [mhi_consts]: "MHI_EE_WFW = 4"
definition MHI_EE_PTHRU :: u32 where [mhi_consts]: "MHI_EE_PTHRU = 5"
definition MHI_EE_EDL :: u32 where [mhi_consts]: "MHI_EE_EDL = 6"
definition MHI_EE_FP :: u32 where [mhi_consts]: "MHI_EE_FP = 7"
definition MHI_EE_DISABLE_TRANSITION :: u32 where [mhi_consts]: "MHI_EE_DISABLE_TRANSITION = 8"
definition MHI_EE_MAX :: u32 where [mhi_consts]: "MHI_EE_MAX = 9"
definition MHI_STATE_RESET :: u32 where [mhi_consts]: "MHI_STATE_RESET = 0"
definition MHI_STATE_READY :: u32 where [mhi_consts]: "MHI_STATE_READY = 1"
definition MHI_STATE_M0 :: u32 where [mhi_consts]: "MHI_STATE_M0 = 2"
definition MHI_STATE_M1 :: u32 where [mhi_consts]: "MHI_STATE_M1 = 3"
definition MHI_STATE_M2 :: u32 where [mhi_consts]: "MHI_STATE_M2 = 4"
definition MHI_STATE_M3 :: u32 where [mhi_consts]: "MHI_STATE_M3 = 5"
definition MHI_STATE_SYS_ERR :: u32 where [mhi_consts]: "MHI_STATE_SYS_ERR = 0xFF"
definition MHI_STATE_MAX :: u32 where [mhi_consts]: "MHI_STATE_MAX = 0x100"

subsection \<open>Power management states (mhi\_internal.h)\<close>

definition MHI_PM_DISABLE :: u32 where [mhi_consts]: "MHI_PM_DISABLE = 0x1"
definition MHI_PM_POR :: u32 where [mhi_consts]: "MHI_PM_POR = 0x2"
definition MHI_PM_M0 :: u32 where [mhi_consts]: "MHI_PM_M0 = 0x4"
definition MHI_PM_M2 :: u32 where [mhi_consts]: "MHI_PM_M2 = 0x8"
definition MHI_PM_M3_ENTER :: u32 where [mhi_consts]: "MHI_PM_M3_ENTER = 0x10"
definition MHI_PM_M3 :: u32 where [mhi_consts]: "MHI_PM_M3 = 0x20"
definition MHI_PM_M3_EXIT :: u32 where [mhi_consts]: "MHI_PM_M3_EXIT = 0x40"
definition MHI_PM_FW_DL_ERR :: u32 where [mhi_consts]: "MHI_PM_FW_DL_ERR = 0x80"
definition MHI_PM_SYS_ERR_DETECT :: u32 where [mhi_consts]: "MHI_PM_SYS_ERR_DETECT = 0x100"
definition MHI_PM_SYS_ERR_PROCESS :: u32 where [mhi_consts]: "MHI_PM_SYS_ERR_PROCESS = 0x200"
definition MHI_PM_SHUTDOWN_PROCESS :: u32 where [mhi_consts]: "MHI_PM_SHUTDOWN_PROCESS = 0x400"
definition MHI_PM_LD_ERR_FATAL_DETECT :: u32 where [mhi_consts]: "MHI_PM_LD_ERR_FATAL_DETECT = 0x800"

subsection \<open>Ring element and completion codes (mhi\_internal.h)\<close>

definition MHI_CMD_TYPE_RESET :: u32 where [mhi_consts]: "MHI_CMD_TYPE_RESET = 16"
definition MHI_CMD_TYPE_STOP :: u32 where [mhi_consts]: "MHI_CMD_TYPE_STOP = 17"
definition MHI_CMD_TYPE_START :: u32 where [mhi_consts]: "MHI_CMD_TYPE_START = 18"
definition MHI_CMD_TYPE_TSYNC :: u32 where [mhi_consts]: "MHI_CMD_TYPE_TSYNC = 24"
definition MHI_PKT_TYPE_TRANSFER :: u32 where [mhi_consts]: "MHI_PKT_TYPE_TRANSFER = 0x2"
definition MHI_PKT_TYPE_COALESCING :: u32 where [mhi_consts]: "MHI_PKT_TYPE_COALESCING = 0x8"
definition MHI_PKT_TYPE_STATE_CHANGE_EVENT :: u32 where [mhi_consts]: "MHI_PKT_TYPE_STATE_CHANGE_EVENT = 0x20"
definition MHI_PKT_TYPE_CMD_COMPLETION_EVENT :: u32 where [mhi_consts]: "MHI_PKT_TYPE_CMD_COMPLETION_EVENT = 0x21"
definition MHI_PKT_TYPE_TX_EVENT :: u32 where [mhi_consts]: "MHI_PKT_TYPE_TX_EVENT = 0x22"
definition MHI_PKT_TYPE_RSC_TX_EVENT :: u32 where [mhi_consts]: "MHI_PKT_TYPE_RSC_TX_EVENT = 0x28"
definition MHI_PKT_TYPE_EE_EVENT :: u32 where [mhi_consts]: "MHI_PKT_TYPE_EE_EVENT = 0x40"
definition MHI_PKT_TYPE_TSYNC_EVENT :: u32 where [mhi_consts]: "MHI_PKT_TYPE_TSYNC_EVENT = 0x48"
definition MHI_PKT_TYPE_STALE_EVENT :: u32 where [mhi_consts]: "MHI_PKT_TYPE_STALE_EVENT = 0x49"
definition MHI_EV_CC_INVALID :: u32 where [mhi_consts]: "MHI_EV_CC_INVALID = 0x0"
definition MHI_EV_CC_SUCCESS :: u32 where [mhi_consts]: "MHI_EV_CC_SUCCESS = 0x1"
definition MHI_EV_CC_EOT :: u32 where [mhi_consts]: "MHI_EV_CC_EOT = 0x2"
definition MHI_EV_CC_OVERFLOW :: u32 where [mhi_consts]: "MHI_EV_CC_OVERFLOW = 0x3"
definition MHI_EV_CC_EOB :: u32 where [mhi_consts]: "MHI_EV_CC_EOB = 0x4"
definition MHI_EV_CC_OOB :: u32 where [mhi_consts]: "MHI_EV_CC_OOB = 0x5"
definition MHI_EV_CC_DB_MODE :: u32 where [mhi_consts]: "MHI_EV_CC_DB_MODE = 0x6"
definition MHI_EV_CC_BAD_TRE :: u32 where [mhi_consts]: "MHI_EV_CC_BAD_TRE = 0x11"
definition MHI_MAX_MTU :: u32 where [mhi_consts]: "MHI_MAX_MTU = 0xffff"
definition CMD_EL_PER_RING :: u64 where [mhi_consts]: "CMD_EL_PER_RING = 128"
definition MHI_DEV_WAKE_DB :: u32 where [mhi_consts]: "MHI_DEV_WAKE_DB = 127"
definition NUM_MHI_EVT_RINGS :: u32 where [mhi_consts]: "NUM_MHI_EVT_RINGS = 3"
definition NUM_MHI_HW_EVT_RINGS :: u32 where [mhi_consts]: "NUM_MHI_HW_EVT_RINGS = 4"

subsection \<open>Transfer flags (enum MHI\_FLAGS, mhi.h)\<close>

definition MHI_EOB :: u32 where [mhi_consts]: "MHI_EOB = 0"
definition MHI_EOT :: u32 where [mhi_consts]: "MHI_EOT = 1"
definition MHI_CHAIN :: u32 where [mhi_consts]: "MHI_CHAIN = 2"

definition U32_MAX :: u32 where [mhi_consts]: "U32_MAX = 0xFFFFFFFF"

lemmas pm_consts = MHI_PM_DISABLE_def MHI_PM_POR_def MHI_PM_M0_def MHI_PM_M2_def
  MHI_PM_M3_ENTER_def MHI_PM_M3_def MHI_PM_M3_EXIT_def MHI_PM_FW_DL_ERR_def
  MHI_PM_SYS_ERR_DETECT_def MHI_PM_SYS_ERR_PROCESS_def MHI_PM_SHUTDOWN_PROCESS_def
  MHI_PM_LD_ERR_FATAL_DETECT_def

subsection \<open>Enumerations of the host\<close>

datatype MHI_CB = MHI_CB_IDLE | MHI_CB_PENDING_DATA | MHI_CB_LPM_ENTER | MHI_CB_LPM_EXIT
  | MHI_CB_EE_RDDM | MHI_CB_EE_MISSION_MODE | MHI_CB_SYS_ERROR | MHI_CB_FATAL_ERROR

datatype MHI_ST_TRANSITION = MHI_ST_TRANSITION_PBL | MHI_ST_TRANSITION_READY
  | MHI_ST_TRANSITION_SBL | MHI_ST_TRANSITION_MISSION_MODE | MHI_ST_TRANSITION_FP
  | MHI_ST_TRANSITION_MAX

datatype MHI_CMD = MHI_CMD_RESET_CHAN | MHI_CMD_START_CHAN | MHI_CMD_TIMSYNC_CFG

datatype MHI_CH_STATE = MHI_CH_STATE_DISABLED | MHI_CH_STATE_ENABLED | MHI_CH_STATE_RUNNING
  | MHI_CH_STATE_SUSPENDED | MHI_CH_STATE_STOP | MHI_CH_STATE_ERROR

datatype MHI_BRSTMODE = MHI_BRSTMODE_DISABLE | MHI_BRSTMODE_ENABLE

datatype MHI_XFER_TYPE = MHI_XFER_BUFFER | MHI_XFER_SKB | MHI_XFER_SCLIST | MHI_XFER_NOP
  | MHI_XFER_DMA | MHI_XFER_RSC_DMA

datatype mhi_er_data_type = MHI_ER_DATA_ELEMENT_TYPE | MHI_ER_CTRL_ELEMENT_TYPE
  | MHI_ER_TSYNC_ELEMENT_TYPE

datatype dma_data_direction = DMA_BIDIRECTIONAL | DMA_TO_DEVICE | DMA_FROM_DEVICE | DMA_NONE

datatype queue_xfer_fn = Mhi_queue_buf | Mhi_queue_skb | Mhi_queue_sclist | Mhi_queue_nop
  | Mhi_queue_dma

datatype er_process = Process_data_event_ring | Process_ctrl_ev_ring | Process_tsync_event_ring

datatype db_process = Mhi_db_brstmode | Mhi_db_brstmode_disable

datatype mhi_work = St_worker | Fw_worker | Syserr_worker | Ready_worker

subsection \<open>Structures\<close>

record mhi_tre =
  tre_ptr :: u64
  tre_dword0 :: u32
  tre_dword1 :: u32

record mhi_buf_info =
  p_addr :: u64
  v_addr :: u64
  bb_addr :: u64
  bi_wp :: u64
  bi_len :: u64
  cb_buf :: u64
  bi_used :: bool
  pre_mapped :: bool
  bi_dir :: dma_data_direction

record db_cfg =
  reset_req :: bool
  db_mode :: bool
  pollcfg :: u32
  brstmode :: MHI_BRSTMODE
  db_val :: u64
  process_db :: db_process

record 'e mhi_ring =
  ring_iommu_base :: u64
  ring_base :: u64
  ring_rp :: u64
  ring_wp :: u64
  ring_el_size :: u64
  ring_len :: u64
  ring_elements :: u64
  ring_db_addr :: u64
  ring_ctxt_rbase :: u64
  ring_ctxt_rlen :: u64
  ring_ctxt_rp :: u64
  ring_ctxt_wp :: u64
  ring_mem :: "u64 \<Rightarrow> 'e"

record mhi_result =
  res_buf_addr :: u64
  res_bytes_xferd :: u16
  res_dir :: dma_data_direction
  res_transaction_status :: "errno option"

record mhi_chan =
  chan :: u32
  chan_name :: string
  buf_ring :: "mhi_buf_info mhi_ring"
  tre_ring :: "mhi_tre mhi_ring"
  ch_used_elements :: u32
  used_events :: "u32 \<Rightarrow> u32"
  ch_er_index :: u32
  ch_intmod :: u32
  ch_type :: u32
  ch_dir :: dma_data_direction
  ch_db_cfg :: db_cfg
  ee_mask :: u32
  xfer_type :: MHI_XFER_TYPE
  ch_state :: MHI_CH_STATE
  ch_ccs :: u32
  lpm_notify :: bool
  configured :: bool
  offload_ch :: bool
  pre_alloc :: bool
  auto_start :: bool
  wake_capable :: bool
  queue_xfer :: queue_xfer_fn
  has_mhi_dev :: bool
  ch_completion :: nat
  ch_ring :: u32
  tiocm :: u32
  cc_chstate :: MHI_CH_STATE
  cc_brstmode :: MHI_BRSTMODE
  cc_pollcfg :: u32
  cc_chtype :: u32
  cc_erindex :: u32

record mhi_event =
  er_index :: u32
  ev_intmod :: u32
  ev_msi :: u32
  ev_priority :: u32
  ev_ring :: "mhi_tre mhi_ring"
  ev_db_cfg :: db_cfg
  ev_used_elements :: u32
  ev_data_type :: mhi_er_data_type
  hw_ring :: bool
  cl_manage :: bool
  offload_ev :: bool
  ev_chan :: u32
  process_event :: er_process
  ec_intmodc :: u32
  ec_intmodt :: u32
  ec_ertype :: u32
  ec_msivec :: u32

record tsync_node =
  ts_sequence :: u32
  ts_local_time :: u64

record mhi_timesync =
  ts_er_index :: u32
  ts_db :: u64
  ts_time_reg :: u64
  ts_ccs :: u32
  ts_head :: "tsync_node list"
  ts_locked :: bool
  ts_completion :: nat

datatype effect =
    Writel u64 u32
  | StatusCb MHI_CB
  | RuntimeGet
  | RuntimePut
  | RuntimeMarkLastBusy
  | WakeUpAll
  | ScheduleWork mhi_work
  | XferCb u32 mhi_result
  | UnmapSingle mhi_buf_info
  | Kfree u64
  | TaskletSchedule u32
  | TaskletKill u32
  | PendingDataCb u32
  | NotifyChan u32 MHI_CB
  | CreateDevices u32
  | DestroyDevices
  | WarnOn string
  | TsyncCb u32 u64 u64
  | RequestIrq u32
  | FreeIrq u32
  | FreeCoherent u64
  | Msleep nat
  | LpmDisable
  | LpmEnable

record mhi_controller =
  mmio :: "u64 \<Rightarrow> u32"
  trace :: "effect list"
  link_down :: bool
  regs :: u64
  bhi :: u64
  bhie :: u64
  wake_db :: u64
  iova_start :: u64
  iova_stop :: u64
  chan_ctxt_addr :: u64
  er_ctxt_addr :: u64
  cmd_ctxt_addr :: u64
  ctrl_seg_addr :: u64
  ctrl_seg :: u64
  has_ctxt :: bool
  mhi_chans :: "mhi_chan list"
  mhi_events :: "mhi_event list"
  mhi_cmd :: "mhi_tre mhi_ring"
  lpm_chans :: "nat list"
  msi_allocated :: u32
  msi_irq_base :: u32
  msi_required :: u32
  hw_ev_rings :: u32
  sw_ev_rings :: u32
  has_time_ops :: bool
  pre_init :: bool
  pm_state :: u32
  ee :: u32
  dev_state :: u32
  dev_wake :: int
  pending_pkts :: int
  transition_list :: "MHI_ST_TRANSITION list"
  cnt_M0 :: u32
  cnt_M2 :: u32
  cnt_M3 :: u32
  buffer_len :: u64
  mhi_tsync :: "mhi_timesync option"

definition emit :: "effect \<Rightarrow> mhi_controller \<Rightarrow> mhi_controller" where
  "emit e c = c\<lparr>trace := trace c @ [e]\<rparr>"

text \<open>
  \<open>emit\<close> only appends to the trace: every other field is as before.
\<close>

lemma emit_sel [simp]:
  "mmio (emit e c) = mmio c" "trace (emit e c) = trace c @ [e]" "link_down (emit e c) = link_down c"
  "regs (emit e c) = regs c" "bhi (emit e c) = bhi c" "bhie (emit e c) = bhie c"
  "wake_db (emit e c) = wake_db c" "mhi_chans (emit e c) = mhi_chans c"
  "mhi_events (emit e c) = mhi_events c" "mhi_cmd (emit e c) = mhi_cmd c"
  "pm_state (emit e c) = pm_state c" "ee (emit e c) = ee c" "dev_state (emit e c) = dev_state c"
  "dev_wake (emit e c) = dev_wake c" "pending_pkts (emit e c) = pending_pkts c"
  "transition_list (emit e c) = transition_list c" "mhi_tsync (emit e c) = mhi_tsync c"
  "lpm_chans (emit e c) = lpm_chans c" "buffer_len (emit e c) = buffer_len c"
  "cnt_M0 (emit e c) = cnt_M0 c" "cnt_M2 (emit e c) = cnt_M2 c" "cnt_M3 (emit e c) = cnt_M3 c"
  by (simp_all add: emit_def)

end
