(* ===== verification/MHI_Reg.thy ===== *)
theory MHI_Reg
  imports MHI_Defs
begin

text \<open>
  Register access of the MHI core (\<^verbatim>\<open>core/mhi_main.c\<close>): reads with the link check, field access,
  the capability walk, 64-bit doorbell writes, and the execution environment and state queries.

  The register file is the map \<open>mmio\<close> from bus addresses to words. The bus master's
  \<^verbatim>\<open>link_status\<close> callback is the flag \<open>link_down\<close>: it is asked only after a read of all ones.
\<close>

subsection \<open>Operations\<close>

definition mhi_read_reg :: "mhi_controller \<Rightarrow> u64 \<Rightarrow> u32 \<Rightarrow> u32 res" where
  "mhi_read_reg c b off =
     (let tmp = mmio c (b + ucast off)
      in if tmp = U32_MAX \<and> link_down c then Inl EIO else Inr tmp)"

definition mhi_read_reg_field :: "mhi_controller \<Rightarrow> u64 \<Rightarrow> u32 \<Rightarrow> u32 \<Rightarrow> nat \<Rightarrow> u32 res" where
  "mhi_read_reg_field c b off msk shift =
     (case mhi_read_reg c b off of Inl e \<Rightarrow> Inl e
      | Inr tmp \<Rightarrow> Inr (drop_bit shift (tmp AND msk)))"

text \<open>
  The \<^verbatim>\<open>do ... while (next_offset)\<close> loop of \<^verbatim>\<open>mhi_get_capability_offset\<close>. The offset is a 32-bit sum
  and wraps, and the device supplies every link, so the walk need not end: \<open>None\<close> is a walk that
  does not return.
\<close>

partial_function (option) mhi_capability_walk ::
  "mhi_controller \<Rightarrow> u32 \<Rightarrow> u32 \<Rightarrow> u32 res option" where
  "mhi_capability_walk c capability off =
     (case mhi_read_reg_field c (regs c) off CAP_CAPID_MASK CAP_CAPID_SHIFT of
        Inl e \<Rightarrow> Some (Inl e)
      | Inr cur_cap \<Rightarrow>
          if cur_cap = capability then Some (Inr off)
          else (case mhi_read_reg_field c (regs c) off CAP_NEXT_CAP_MASK CAP_NEXT_CAP_SHIFT of
                  Inl e \<Rightarrow> Some (Inl e)
                | Inr next_offset \<Rightarrow>
                    if next_offset = 0 then Some (Inl ENXIO)
                    else mhi_capability_walk c capability (off + next_offset)))"

definition mhi_get_capability_offset :: "mhi_controller \<Rightarrow> u32 \<Rightarrow> u32 res option" where
  "mhi_get_capability_offset c capability =
     (case mhi_read_reg_field c (regs c) MISC_OFFSET MISC_CAP_MASK MISC_CAP_SHIFT of
        Inl e \<Rightarrow> Some (Inl e)
      | Inr off \<Rightarrow> if 0x1000 \<le> off then Some (Inl ENXIO) else mhi_capability_walk c capability off)"

definition mhi_write_reg :: "u64 \<Rightarrow> u32 \<Rightarrow> u32 \<Rightarrow> mhi_controller \<Rightarrow> mhi_controller" where
  "mhi_write_reg b off val c =
     emit (Writel (b + ucast off) val) (c\<lparr>mmio := (mmio c)(b + ucast off := val)\<rparr>)"

definition mhi_write_reg_field ::
  "u64 \<Rightarrow> u32 \<Rightarrow> u32 \<Rightarrow> nat \<Rightarrow> u32 \<Rightarrow> mhi_controller \<Rightarrow> mhi_controller" where
  "mhi_write_reg_field b off msk shift val c =
     (case mhi_read_reg c b off of Inl e \<Rightarrow> c
      | Inr tmp \<Rightarrow> mhi_write_reg b off ((tmp AND NOT msk) OR push_bit shift val) c)"

definition mhi_write_db :: "u64 \<Rightarrow> u64 \<Rightarrow> mhi_controller \<Rightarrow> mhi_controller" where
  "mhi_write_db db_addr wp c =
     mhi_write_reg db_addr 0 (lower_32_bits wp) (mhi_write_reg db_addr 4 (upper_32_bits wp) c)"

definition mhi_get_exec_env :: "mhi_controller \<Rightarrow> u32" where
  "mhi_get_exec_env c =
     (case mhi_read_reg c (bhi c) BHI_EXECENV of Inl _ \<Rightarrow> MHI_EE_MAX | Inr exec \<Rightarrow> exec)"

definition mhi_get_mhi_state :: "mhi_controller \<Rightarrow> u32" where
  "mhi_get_mhi_state c =
     (case mhi_read_reg_field c (regs c) MHISTATUS MHISTATUS_MHISTATE_MASK MHISTATUS_MHISTATE_SHIFT of
        Inl _ \<Rightarrow> MHI_STATE_MAX | Inr st \<Rightarrow> st)"

text \<open>
  The macros \<^verbatim>\<open>MHI_READ_REG_FIELD\<close> and \<^verbatim>\<open>MHI_WRITE_REG_FIELD\<close> work on a variable rather than on a
  register.
\<close>

definition MHI_READ_REG_FIELD :: "u32 \<Rightarrow> u32 \<Rightarrow> nat \<Rightarrow> u32" where
  "MHI_READ_REG_FIELD var msk shift = drop_bit shift (var AND msk)"

definition MHI_WRITE_REG_FIELD :: "u32 \<Rightarrow> u32 \<Rightarrow> nat \<Rightarrow> u32 \<Rightarrow> u32" where
  "MHI_WRITE_REG_FIELD var msk shift val = (var AND NOT msk) OR push_bit shift val"

subsection \<open>What the operations leave alone\<close>

lemma mhi_write_reg_sel [simp]:
  "mmio (mhi_write_reg b off val c) = (mmio c)(b + ucast off := val)"
  "trace (mhi_write_reg b off val c) = trace c @ [Writel (b + ucast off) val]"
  "pm_state (mhi_write_reg b off val c) = pm_state c" "ee (mhi_write_reg b off val c) = ee c"
  "dev_state (mhi_write_reg b off val c) = dev_state c" "regs (mhi_write_reg b off val c) = regs c"
  "bhi (mhi_write_reg b off val c) = bhi c" "link_down (mhi_write_reg b off val c) = link_down c"
  "mhi_chans (mhi_write_reg b off val c) = mhi_chans c"
  "mhi_events (mhi_write_reg b off val c) = mhi_events c"
  "mhi_cmd (mhi_write_reg b off val c) = mhi_cmd c"
  "dev_wake (mhi_write_reg b off val c) = dev_wake c"
  "pending_pkts (mhi_write_reg b off val c) = pending_pkts c"
  "transition_list (mhi_write_reg b off val c) = transition_list c"
  "mhi_tsync (mhi_write_reg b off val c) = mhi_tsync c"
  "wake_db (mhi_write_reg b off val c) = wake_db c"
  "lpm_chans (mhi_write_reg b off val c) = lpm_chans c"
  "buffer_len (mhi_write_reg b off val c) = buffer_len c"
  by (simp_all add: mhi_write_reg_def)

lemma mhi_write_reg_field_sel [simp]:
  "pm_state (mhi_write_reg_field b off m s val c) = pm_state c"
  "ee (mhi_write_reg_field b off m s val c) = ee c"
  "dev_state (mhi_write_reg_field b off m s val c) = dev_state c"
  "regs (mhi_write_reg_field b off m s val c) = regs c"
  "bhi (mhi_write_reg_field b off m s val c) = bhi c"
  "link_down (mhi_write_reg_field b off m s val c) = link_down c"
  "mhi_chans (mhi_write_reg_field b off m s val c) = mhi_chans c"
  "mhi_events (mhi_write_reg_field b off m s val c) = mhi_events c"
  "mhi_cmd (mhi_write_reg_field b off m s val c) = mhi_cmd c"
  "dev_wake (mhi_write_reg_field b off m s val c) = dev_wake c"
  "pending_pkts (mhi_write_reg_field b off m s val c) = pending_pkts c"
  "transition_list (mhi_write_reg_field b off m s val c) = transition_list c"
  "mhi_tsync (mhi_write_reg_field b off m s val c) = mhi_tsync c"
  "wake_db (mhi_write_reg_field b off m s val c) = wake_db c"
  "lpm_chans (mhi_write_reg_field b off m s val c) = lpm_chans c"
  by (simp_all add: mhi_write_reg_field_def split: sum.splits)

lemma mhi_write_db_sel [simp]:
  "pm_state (mhi_write_db a w c) = pm_state c" "ee (mhi_write_db a w c) = ee c"
  "dev_state (mhi_write_db a w c) = dev_state c" "regs (mhi_write_db a w c) = regs c"
  "bhi (mhi_write_db a w c) = bhi c" "link_down (mhi_write_db a w c) = link_down c"
  "mhi_chans (mhi_write_db a w c) = mhi_chans c" "mhi_events (mhi_write_db a w c) = mhi_events c"
  "mhi_cmd (mhi_write_db a w c) = mhi_cmd c" "dev_wake (mhi_write_db a w c) = dev_wake c"
  "pending_pkts (mhi_write_db a w c) = pending_pkts c"
  "transition_list (mhi_write_db a w c) = transition_list c"
  "mhi_tsync (mhi_write_db a w c) = mhi_tsync c" "wake_db (mhi_write_db a w c) = wake_db c"
  "lpm_chans (mhi_write_db a w c) = lpm_chans c" "buffer_len (mhi_write_db a w c) = buffer_len c"
  "trace (mhi_write_db a w c) =
     trace c @ [Writel (a + 4) (upper_32_bits w), Writel a (lower_32_bits w)]"
  by (simp_all add: mhi_write_db_def)

subsection \<open>Properties\<close>

text \<open>
  A field write is well formed when the shifted value lies inside the mask and loses no bits.
\<close>

definition field_fits :: "u32 \<Rightarrow> nat \<Rightarrow> u32 \<Rightarrow> bool" where
  "field_fits msk shift val \<longleftrightarrow>
     push_bit shift val AND msk = push_bit shift val \<and> drop_bit shift (push_bit shift val) = val"

lemma field_update_read:
  assumes "field_fits msk shift val"
  shows "drop_bit shift (((w AND NOT msk) OR push_bit shift val) AND msk) = val"
proof -
  have "((w AND NOT msk) OR push_bit shift val) AND msk = push_bit shift val AND msk"
    by (rule bit_word_eqI) (auto simp: bit_and_iff bit_or_iff bit_not_iff)
  with assms show ?thesis by (simp add: field_fits_def)
qed

lemma field_update_other:
  assumes "field_fits msk shift val"
  shows "((w AND NOT msk) OR push_bit shift val) AND NOT msk = w AND NOT msk"
proof (rule bit_word_eqI)
  fix n
  assume n: "n < LENGTH(32)"
  have "bit (push_bit shift val AND msk) n = bit (push_bit shift val) n"
    using assms by (simp add: field_fits_def)
  then show "bit (((w AND NOT msk) OR push_bit shift val) AND NOT msk) n = bit (w AND NOT msk) n"
    using n by (auto simp: bit_and_iff bit_or_iff bit_not_iff)
qed

text \<open>
  The capabilities the device exposes from an offset on: the first word of each entry holds its
  identifier and the distance to the next one, and a distance of 0 ends the list.
\<close>

fun cap_chain :: "mhi_controller \<Rightarrow> u32 \<Rightarrow> (u32 \<times> u32) list \<Rightarrow> bool" where
  "cap_chain c off [] = False"
| "cap_chain c off ((o', i) # xs) =
     (o' = off \<and> mhi_read_reg_field c (regs c) off CAP_CAPID_MASK CAP_CAPID_SHIFT = Inr i \<and>
      (\<exists>nxt \<in> {n. mhi_read_reg_field c (regs c) off CAP_NEXT_CAP_MASK CAP_NEXT_CAP_SHIFT = Inr n}.
         if xs = [] then nxt = 0 else nxt \<noteq> 0 \<and> cap_chain c (off + nxt) xs))"

lemma mhi_capability_walk_chain:
  "cap_chain c off xs \<Longrightarrow>
   mhi_capability_walk c capability off =
     Some (case find (\<lambda>(_, i). i = capability) xs of None \<Rightarrow> Inl ENXIO | Some (o', _) \<Rightarrow> Inr o')"
proof (induction xs arbitrary: off)
  case Nil
  then show ?case by simp
next
  case (Cons x xs)
  obtain o' i where x: "x = (o', i)" by (cases x)
  from Cons.prems x obtain nxt where
      cap: "mhi_read_reg_field c (regs c) off CAP_CAPID_MASK CAP_CAPID_SHIFT = Inr i"
    and nxt: "mhi_read_reg_field c (regs c) off CAP_NEXT_CAP_MASK CAP_NEXT_CAP_SHIFT = Inr nxt"
    and rest: "if xs = [] then nxt = 0 else nxt \<noteq> 0 \<and> cap_chain c (off + nxt) xs"
    and o': "o' = off"
    by auto
  show ?case
  proof (cases "xs = []")
    case True
    with rest cap nxt o' x show ?thesis
      by (subst mhi_capability_walk.simps) simp
  next
    case False
    with rest have nz: "nxt \<noteq> 0" and ch: "cap_chain c (off + nxt) xs" by auto
    with cap nxt o' x Cons.IH [OF ch] show ?thesis
      by (subst mhi_capability_walk.simps) simp
  qed
qed

lemma mhi_read_reg_ok:
  "\<not> link_down c \<Longrightarrow> mhi_read_reg c b off = Inr (mmio c (b + ucast off))"
  by (simp add: mhi_read_reg_def Let_def)

lemma mhi_read_reg_error_iff:
  "mhi_read_reg c b off = Inl e \<longleftrightarrow> e = EIO \<and> link_down c \<and> mmio c (b + ucast off) = U32_MAX"
  by (auto simp: mhi_read_reg_def Let_def)

text \<open>
  While the link is up, writing a register field is read back as the value written, keeps the other
  bits of the register, and leaves every other register alone.
\<close>

theorem mhi_write_reg_field_readback:
  assumes "\<not> link_down c" and "field_fits msk shift val"
    and "c' = mhi_write_reg_field b off msk shift val c"
  shows "mhi_read_reg_field c' b off msk shift = Inr val \<and>
    mmio c' (b + ucast off) AND NOT msk = mmio c (b + ucast off) AND NOT msk \<and>
    (\<forall>a. a \<noteq> b + ucast off \<longrightarrow> mmio c' a = mmio c a)"
  using assms(1) field_update_read [OF assms(2)] field_update_other [OF assms(2)]
  by (auto simp: assms(3) mhi_read_reg_field_def mhi_write_reg_field_def mhi_write_reg_def mhi_read_reg_def Let_def)

end
