(* ===== verification/MHI_Ring.thy ===== *)
theory MHI_Ring
  imports MHI_Defs
begin

text \<open>
  The transfer, event and command rings (\<^verbatim>\<open>struct mhi_ring\<close> and its helpers in
  \<^verbatim>\<open>core/mhi_main.c\<close>): a block of memory of \<open>elements\<close> slots, a read and a write pointer that
  wrap at its end, one slot kept free. Pointers and sizes are 64-bit words, as in the code.

  The locale \<open>bounded_fifo\<close> states what the users of a ring rely on: a first-in first-out queue
  of limited capacity. The ring operations are proved to implement it.
\<close>

subsection \<open>Operations\<close>

text \<open>
  The pointer step that \<^verbatim>\<open>mhi_add_ring_element\<close>, \<^verbatim>\<open>mhi_del_ring_element\<close>,
  \<^verbatim>\<open>mhi_recycle_ev_ring_element\<close> and \<^verbatim>\<open>mhi_is_ring_full\<close> share: one element on, back to the base at the
  end.
\<close>

definition ring_advance :: "'e mhi_ring \<Rightarrow> u64 \<Rightarrow> u64" where
  "ring_advance r p =
     (let p' = p + ring_el_size r
      in if ring_base r + ring_len r \<le> p' then ring_base r else p')"

definition mhi_add_ring_element :: "'e mhi_ring \<Rightarrow> 'e mhi_ring" where
  "mhi_add_ring_element r = r\<lparr>ring_wp := ring_advance r (ring_wp r)\<rparr>"

definition mhi_del_ring_element :: "'e mhi_ring \<Rightarrow> 'e mhi_ring" where
  "mhi_del_ring_element r = r\<lparr>ring_rp := ring_advance r (ring_rp r)\<rparr>"

text \<open>A \<^verbatim>\<open>size_t\<close> value assigned to an \<^verbatim>\<open>int\<close>.\<close>

definition to_int32 :: "u64 \<Rightarrow> int" where
  "to_int32 w = sint (ucast w :: u32)"

definition get_nr_avail_ring_elements :: "'e mhi_ring \<Rightarrow> int" where
  "get_nr_avail_ring_elements r =
     (if ring_wp r < ring_rp r
      then to_int32 ((ring_rp r - ring_wp r) div ring_el_size r - 1)
      else to_int32 ((ring_rp r - ring_base r) div ring_el_size r +
             ((ring_base r + ring_len r - ring_wp r) div ring_el_size r - 1)))"

definition get_used_ring_elements :: "u64 \<Rightarrow> u64 \<Rightarrow> u32 \<Rightarrow> u32" where
  "get_used_ring_elements rp wp el_num =
     (if rp \<le> wp then ucast ((wp - rp) div 16)
      else el_num - ucast ((rp - wp) div 16))"

definition mhi_to_virtual :: "'e mhi_ring \<Rightarrow> u64 \<Rightarrow> u64" where
  "mhi_to_virtual r addr = (addr - ring_iommu_base r) + ring_base r"

definition mhi_to_physical :: "'e mhi_ring \<Rightarrow> u64 \<Rightarrow> u64" where
  "mhi_to_physical r addr = (addr - ring_base r) + ring_iommu_base r"

definition mhi_recycle_ev_ring_element :: "'e mhi_ring \<Rightarrow> 'e mhi_ring" where
  "mhi_recycle_ev_ring_element r =
     (let wp = ring_advance r (ring_wp r);
          r1 = r\<lparr>ring_wp := wp\<rparr>;
          r2 = r1\<lparr>ring_ctxt_wp := ring_iommu_base r + (wp - ring_base r)\<rparr>
      in r2\<lparr>ring_rp := ring_advance r2 (ring_rp r2)\<rparr>)"

definition mhi_is_ring_full :: "'e mhi_ring \<Rightarrow> bool" where
  "mhi_is_ring_full r \<longleftrightarrow> ring_advance r (ring_wp r) = ring_rp r"

text \<open>Writing the element the write pointer points to, which the queueing code does in place.\<close>

definition ring_store :: "'e \<Rightarrow> 'e mhi_ring \<Rightarrow> 'e mhi_ring" where
  "ring_store e r = r\<lparr>ring_mem := (ring_mem r)(ring_wp r := e)\<rparr>"

definition ring_put :: "'e \<Rightarrow> 'e mhi_ring \<Rightarrow> 'e mhi_ring" where
  "ring_put e r = mhi_add_ring_element (ring_store e r)"

definition ring_front :: "'e mhi_ring \<Rightarrow> 'e" where
  "ring_front r = ring_mem r (ring_rp r)"

definition ring_is_empty :: "'e mhi_ring \<Rightarrow> bool" where
  "ring_is_empty r \<longleftrightarrow> ring_rp r = ring_wp r"

subsection \<open>Geometry\<close>

abbreviation slots :: "'e mhi_ring \<Rightarrow> nat" where
  "slots r \<equiv> unat (ring_elements r)"

definition ring_geom :: "'e mhi_ring \<Rightarrow> bool" where
  "ring_geom r \<longleftrightarrow> 0 < unat (ring_el_size r) \<and> 0 < slots r \<and>
     unat (ring_len r) = slots r * unat (ring_el_size r) \<and>
     unat (ring_base r) + unat (ring_len r) < 2 ^ 64"

definition valid_ptr :: "'e mhi_ring \<Rightarrow> u64 \<Rightarrow> bool" where
  "valid_ptr r p \<longleftrightarrow> ring_base r \<le> p \<and> unat p < unat (ring_base r) + unat (ring_len r) \<and>
     (unat p - unat (ring_base r)) mod unat (ring_el_size r) = 0"

definition ring_idx :: "'e mhi_ring \<Rightarrow> u64 \<Rightarrow> nat" where
  "ring_idx r p = (unat p - unat (ring_base r)) div unat (ring_el_size r)"

definition ring_slot :: "'e mhi_ring \<Rightarrow> nat \<Rightarrow> u64" where
  "ring_slot r i = ring_base r + word_of_nat (i * unat (ring_el_size r))"

definition ring_wf :: "'e mhi_ring \<Rightarrow> bool" where
  "ring_wf r \<longleftrightarrow> ring_geom r \<and> valid_ptr r (ring_rp r) \<and> valid_ptr r (ring_wp r)"

definition ring_used :: "'e mhi_ring \<Rightarrow> nat" where
  "ring_used r = (ring_idx r (ring_wp r) + slots r - ring_idx r (ring_rp r)) mod slots r"

definition ring_list :: "'e mhi_ring \<Rightarrow> 'e list" where
  "ring_list r =
     map (\<lambda>k. ring_mem r (ring_slot r ((ring_idx r (ring_rp r) + k) mod slots r))) [0..<ring_used r]"

lemma valid_ptr_unat:
  assumes "ring_geom r" and "valid_ptr r p"
  shows "unat p = unat (ring_base r) + ring_idx r p * unat (ring_el_size r)"
    and "ring_idx r p < slots r"
proof -
  let ?e = "unat (ring_el_size r)"
  have le: "unat (ring_base r) \<le> unat p"
    using assms(2) by (simp add: valid_ptr_def word_le_nat_alt)
  have m: "(unat p - unat (ring_base r)) mod ?e = 0"
    using assms(2) by (simp add: valid_ptr_def)
  then have eq: "ring_idx r p * ?e = unat p - unat (ring_base r)"
    by (auto simp: ring_idx_def)
  with le show u: "unat p = unat (ring_base r) + ring_idx r p * ?e" by simp
  have "ring_idx r p * ?e < slots r * ?e"
    using assms le eq by (auto simp: valid_ptr_def ring_geom_def)
  then show "ring_idx r p < slots r" by simp
qed

lemma slot_bound:
  assumes "ring_geom r" and "i < slots r"
  shows "i * unat (ring_el_size r) < unat (ring_len r)"
  using assms by (simp add: ring_geom_def)

lemma unat_ring_slot:
  assumes "ring_geom r" and "i < slots r"
  shows "unat (ring_slot r i) = unat (ring_base r) + i * unat (ring_el_size r)"
proof -
  have b: "unat (ring_base r) + i * unat (ring_el_size r) < 2 ^ 64"
    using add_strict_left_mono [OF slot_bound [OF assms], of "unat (ring_base r)"] assms(1)
    unfolding ring_geom_def by linarith
  then have "unat (word_of_nat (i * unat (ring_el_size r)) :: u64) = i * unat (ring_el_size r)"
    by (simp add: unsigned_of_nat take_bit_nat_eq_self del: of_nat_mult)
  with b show ?thesis by (simp add: ring_slot_def unat_add_no_wrap)
qed

lemma ring_slot_valid:
  assumes "ring_geom r" and "i < slots r"
  shows "valid_ptr r (ring_slot r i)" and "ring_idx r (ring_slot r i) = i"
  using unat_ring_slot [OF assms] slot_bound [OF assms] assms(1)
  by (auto simp: valid_ptr_def ring_idx_def word_le_nat_alt ring_geom_def)

lemma ring_slot_idx:
  assumes "ring_geom r" and "valid_ptr r p"
  shows "ring_slot r (ring_idx r p) = p"
proof -
  have "unat (ring_slot r (ring_idx r p)) = unat p"
    using valid_ptr_unat [OF assms] unat_ring_slot [OF assms(1)] by simp
  then show ?thesis by (simp add: word_unat_eq_iff)
qed

lemma ring_idx_inj:
  "ring_geom r \<Longrightarrow> valid_ptr r p \<Longrightarrow> valid_ptr r q \<Longrightarrow> ring_idx r p = ring_idx r q \<longleftrightarrow> p = q"
  by (metis ring_slot_idx)

lemma unat_ring_end:
  "ring_geom r \<Longrightarrow> unat (ring_base r + ring_len r) = unat (ring_base r) + unat (ring_len r)"
  by (simp add: ring_geom_def unat_add_no_wrap)

lemma ring_advance_valid:
  assumes g: "ring_geom r" and p: "valid_ptr r p"
  shows "valid_ptr r (ring_advance r p)"
    and "ring_idx r (ring_advance r p) = Suc (ring_idx r p) mod slots r"
proof -
  let ?e = "unat (ring_el_size r)" and ?i = "ring_idx r p"
  note up = valid_ptr_unat [OF g p]
  have e: "0 < ?e" and len: "unat (ring_len r) = slots r * ?e"
    and nw: "unat (ring_base r) + unat (ring_len r) < 2 ^ 64"
    using g by (auto simp: ring_geom_def)
  have le: "Suc ?i * ?e \<le> slots r * ?e"
    using up(2) by (intro mult_le_mono1) simp
  have un: "unat (p + ring_el_size r) = unat (ring_base r) + Suc ?i * ?e"
    using up(1) le len nw by (simp add: unat_add_no_wrap)
  have "slots r * ?e \<le> Suc ?i * ?e \<longleftrightarrow> slots r \<le> Suc ?i"
    using e by (simp only: mult_le_cancel2) simp
  then have wrap: "ring_base r + ring_len r \<le> p + ring_el_size r \<longleftrightarrow> Suc ?i = slots r"
    using un len up(2) by (auto simp: word_le_nat_alt unat_ring_end [OF g] simp del: mult_Suc)
  have nxt: "p + ring_el_size r = ring_slot r (Suc ?i)" if "Suc ?i < slots r"
    using un unat_ring_slot [OF g that] by (simp add: word_unat_eq_iff)
  have base: "ring_base r = ring_slot r 0" by (simp add: ring_slot_def)
  have eq: "ring_advance r p = ring_slot r (Suc ?i mod slots r)"
    using wrap nxt base up(2) by (auto simp: ring_advance_def Let_def Suc_mod_eq)
  have lt: "Suc ?i mod slots r < slots r" using up(2) by simp
  show "valid_ptr r (ring_advance r p)" "ring_idx r (ring_advance r p) = Suc ?i mod slots r"
    using ring_slot_valid [OF g lt] eq by simp_all
qed

text \<open>Geometry and addresses do not depend on the pointers, the memory or the shared context.\<close>

lemma ring_update_geom [simp]:
  "ring_geom (r\<lparr>ring_rp := x\<rparr>) = ring_geom r" "ring_geom (r\<lparr>ring_wp := x\<rparr>) = ring_geom r"
  "ring_geom (r\<lparr>ring_mem := m\<rparr>) = ring_geom r" "ring_geom (r\<lparr>ring_ctxt_wp := x\<rparr>) = ring_geom r"
  "valid_ptr (r\<lparr>ring_rp := x\<rparr>) = valid_ptr r" "valid_ptr (r\<lparr>ring_wp := x\<rparr>) = valid_ptr r"
  "valid_ptr (r\<lparr>ring_mem := m\<rparr>) = valid_ptr r" "valid_ptr (r\<lparr>ring_ctxt_wp := x\<rparr>) = valid_ptr r"
  "ring_idx (r\<lparr>ring_rp := x\<rparr>) = ring_idx r" "ring_idx (r\<lparr>ring_wp := x\<rparr>) = ring_idx r"
  "ring_idx (r\<lparr>ring_mem := m\<rparr>) = ring_idx r" "ring_idx (r\<lparr>ring_ctxt_wp := x\<rparr>) = ring_idx r"
  "ring_slot (r\<lparr>ring_rp := x\<rparr>) = ring_slot r" "ring_slot (r\<lparr>ring_wp := x\<rparr>) = ring_slot r"
  "ring_slot (r\<lparr>ring_mem := m\<rparr>) = ring_slot r" "ring_slot (r\<lparr>ring_ctxt_wp := x\<rparr>) = ring_slot r"
  "ring_advance (r\<lparr>ring_rp := x\<rparr>) = ring_advance r"
  "ring_advance (r\<lparr>ring_wp := x\<rparr>) = ring_advance r"
  "ring_advance (r\<lparr>ring_mem := m\<rparr>) = ring_advance r"
  "ring_advance (r\<lparr>ring_ctxt_wp := x\<rparr>) = ring_advance r"
  by (auto simp: ring_geom_def valid_ptr_def ring_idx_def ring_slot_def ring_advance_def fun_eq_iff
      Let_def)

lemma ring_wfD:
  assumes "ring_wf r"
  shows "ring_geom r" "valid_ptr r (ring_rp r)" "valid_ptr r (ring_wp r)" "0 < slots r"
    "ring_idx r (ring_rp r) < slots r" "ring_idx r (ring_wp r) < slots r"
  using assms valid_ptr_unat(2) by (auto simp: ring_wf_def ring_geom_def)

lemma mhi_add_ring_element_wf [intro]: "ring_wf r \<Longrightarrow> ring_wf (mhi_add_ring_element r)"
  by (simp add: mhi_add_ring_element_def ring_wf_def ring_advance_valid)

lemma mhi_del_ring_element_wf [intro]: "ring_wf r \<Longrightarrow> ring_wf (mhi_del_ring_element r)"
  by (simp add: mhi_del_ring_element_def ring_wf_def ring_advance_valid)

lemma ring_store_wf [simp]: "ring_wf (ring_store e r) = ring_wf r"
  by (simp add: ring_store_def ring_wf_def)

lemma ring_put_wf [intro]: "ring_wf r \<Longrightarrow> ring_wf (ring_put e r)"
  by (simp add: ring_put_def mhi_add_ring_element_wf)

subsection \<open>The ring as a queue\<close>

lemma ring_used_less: "ring_wf r \<Longrightarrow> ring_used r < slots r"
  by (simp add: ring_used_def ring_wfD)

lemma ring_used_zero_iff: "ring_wf r \<Longrightarrow> ring_used r = 0 \<longleftrightarrow> ring_rp r = ring_wp r"
  using ring_wfD [of r] by (auto simp: ring_used_def mod_dist_zero_iff ring_idx_inj)

lemma mhi_is_ring_full_iff: "ring_wf r \<Longrightarrow> mhi_is_ring_full r \<longleftrightarrow> ring_used r = slots r - 1"
proof -
  assume wf: "ring_wf r"
  note w = ring_wfD [OF wf]
  let ?w = "ring_idx r (ring_wp r)" and ?p = "ring_idx r (ring_rp r)" and ?n = "slots r"
  have adv: "valid_ptr r (ring_advance r (ring_wp r))"
    "ring_idx r (ring_advance r (ring_wp r)) = Suc ?w mod ?n"
    using ring_advance_valid [OF w(1,3)] .
  have full: "mhi_is_ring_full r \<longleftrightarrow> Suc ?w mod ?n = ?p"
    using ring_idx_inj [OF w(1) adv(1) w(2)] adv(2) by (simp add: mhi_is_ring_full_def)
  show ?thesis
  proof (cases "Suc ?w mod ?n = ?p")
    case True
    then have "ring_used r = (?w + ?n - Suc ?w mod ?n) mod ?n" by (simp add: ring_used_def)
    also have "\<dots> = ?n - 1" using w(4,6) by (auto simp: Suc_mod_eq)
    finally show ?thesis using True full by simp
  next
    case False
    then have "(Suc ?w mod ?n + ?n - ?p) mod ?n = Suc (ring_used r)"
      using mod_dist_Suc_right [OF w(5,6)] by (simp add: ring_used_def)
    moreover have "(Suc ?w mod ?n + ?n - ?p) mod ?n < ?n" using w(4) by simp
    ultimately show ?thesis using False full by simp
  qed
qed

lemma ring_used_put:
  assumes wf: "ring_wf r" and room: "\<not> mhi_is_ring_full r"
  shows "ring_used (ring_put e r) = Suc (ring_used r)"
proof -
  note w = ring_wfD [OF wf]
  note adv = ring_advance_valid [OF w(1,3)]
  have "Suc (ring_idx r (ring_wp r)) mod slots r \<noteq> ring_idx r (ring_rp r)"
    using room ring_idx_inj [OF w(1) adv(1) w(2)] adv(2) by (simp add: mhi_is_ring_full_def)
  from mod_dist_Suc_right [OF w(5,6) this] adv(2) show ?thesis
    by (simp add: ring_used_def ring_put_def mhi_add_ring_element_def ring_store_def)
qed

text \<open>The slot at the write pointer holds no queued element.\<close>

lemma ring_wp_free:
  assumes wf: "ring_wf r"
  shows "ring_slot r ((ring_idx r (ring_rp r) + ring_used r) mod slots r) = ring_wp r"
    and "k < ring_used r \<Longrightarrow> ring_slot r ((ring_idx r (ring_rp r) + k) mod slots r) \<noteq> ring_wp r"
proof -
  note w = ring_wfD [OF wf]
  let ?p = "ring_idx r (ring_rp r)" and ?n = "slots r"
  show last: "ring_slot r ((?p + ring_used r) mod ?n) = ring_wp r"
    using mod_add_self_diff [OF w(5,6)] ring_slot_idx [OF w(1,3)] by (simp add: ring_used_def)
  assume k: "k < ring_used r"
  show "ring_slot r ((?p + k) mod ?n) \<noteq> ring_wp r"
  proof
    assume "ring_slot r ((?p + k) mod ?n) = ring_wp r"
    then have "(?p + k) mod ?n = (?p + ring_used r) mod ?n"
      using last ring_slot_valid(2) [OF w(1)] w(4) by (metis mod_less_divisor)
    then have "k = ring_used r"
      using k ring_used_less [OF wf] by (intro mod_add_left_inj [of ?p k ?n "ring_used r"]) auto
    with k show False by simp
  qed
qed

lemma ring_used_frame [simp]:
  "ring_used (r\<lparr>ring_mem := m\<rparr>) = ring_used r" "ring_used (r\<lparr>ring_ctxt_wp := x\<rparr>) = ring_used r"
  "ring_used (ring_store e r) = ring_used r"
  by (simp_all add: ring_used_def ring_store_def)

lemma ring_ctxt_frame [simp]:
  "ring_wf (r\<lparr>ring_ctxt_wp := x\<rparr>) = ring_wf r" "ring_list (r\<lparr>ring_ctxt_wp := x\<rparr>) = ring_list r"
  "ring_wf (r\<lparr>ring_mem := m\<rparr>) = ring_wf r"
  by (simp_all add: ring_wf_def ring_list_def)

lemma ring_list_store [simp]: "ring_wf r \<Longrightarrow> ring_list (ring_store e r) = ring_list r"
  by (auto simp: ring_list_def ring_store_def ring_wp_free)

lemma ring_list_put:
  assumes wf: "ring_wf r" and room: "\<not> mhi_is_ring_full r"
  shows "ring_list (ring_put e r) = ring_list r @ [e]"
  using ring_wp_free [OF wf] ring_used_put [OF wf room, of e]
  by (simp add: ring_list_def ring_put_def mhi_add_ring_element_def ring_store_def)

lemma ring_front_list:
  assumes wf: "ring_wf r" and "ring_rp r \<noteq> ring_wp r"
  shows "ring_list r \<noteq> []" and "hd (ring_list r) = ring_front r"
proof -
  note w = ring_wfD [OF wf]
  have pos: "0 < ring_used r" using assms ring_used_zero_iff [OF wf] by simp
  then show "ring_list r \<noteq> []" by (simp add: ring_list_def)
  show "hd (ring_list r) = ring_front r"
    using pos w(5) ring_slot_idx [OF w(1,2)]
    by (simp add: ring_list_def ring_front_def upt_conv_Cons0)
qed

lemma ring_used_del:
  assumes wf: "ring_wf r" and "ring_rp r \<noteq> ring_wp r"
  shows "ring_used (mhi_del_ring_element r) = ring_used r - 1"
proof -
  note w = ring_wfD [OF wf]
  note adv = ring_advance_valid [OF w(1,2)]
  have "ring_idx r (ring_rp r) \<noteq> ring_idx r (ring_wp r)"
    using assms(2) ring_idx_inj [OF w(1,2,3)] by simp
  from mod_dist_Suc [OF w(5,6) this] adv(2) show ?thesis
    by (simp add: ring_used_def mhi_del_ring_element_def)
qed

lemma ring_list_del:
  assumes wf: "ring_wf r" and ne: "ring_rp r \<noteq> ring_wp r"
  shows "ring_list (mhi_del_ring_element r) = tl (ring_list r)"
proof -
  note w = ring_wfD [OF wf]
  let ?p = "ring_idx r (ring_rp r)" and ?n = "slots r"
  note adv = ring_advance_valid [OF w(1,2)]
  obtain u where u: "ring_used r = Suc u"
    using ne ring_used_zero_iff [OF wf] not0_implies_Suc by blast
  have "(Suc ?p mod ?n + k) mod ?n = (?p + Suc k) mod ?n" for k
    by (simp add: mod_add_left_eq)
  then show ?thesis
    using u ring_used_del [OF wf ne] adv(2)
    by (simp add: ring_list_def mhi_del_ring_element_def upt_conv_Cons0 map_upt_shift
        del: upt_Suc)
qed

lemma length_ring_list [simp]: "length (ring_list r) = ring_used r"
  by (simp add: ring_list_def)

lemma ring_list_cell:
  assumes wf: "ring_wf r" and k: "k < ring_used r"
  shows "ring_list r ! k = ring_mem r (ring_slot r ((ring_idx r (ring_rp r) + k) mod slots r))"
  using k by (simp add: ring_list_def)

subsection \<open>The contract of a bounded queue\<close>

locale bounded_fifo =
  fixes enq :: "'e \<Rightarrow> 'q \<Rightarrow> 'q"
    and deq :: "'q \<Rightarrow> 'q"
    and front :: "'q \<Rightarrow> 'e"
    and full :: "'q \<Rightarrow> bool"
    and empty :: "'q \<Rightarrow> bool"
    and abs :: "'q \<Rightarrow> 'e list"
    and cap :: "'q \<Rightarrow> nat"
    and inv :: "'q \<Rightarrow> bool"
  assumes inv_enq: "inv q \<Longrightarrow> inv (enq e q)"
    and inv_deq: "inv q \<Longrightarrow> inv (deq q)"
    and cap_enq: "cap (enq e q) = cap q"
    and cap_deq: "cap (deq q) = cap q"
    and abs_enq: "inv q \<Longrightarrow> \<not> full q \<Longrightarrow> abs (enq e q) = abs q @ [e]"
    and abs_deq: "inv q \<Longrightarrow> \<not> empty q \<Longrightarrow> abs (deq q) = tl (abs q)"
    and abs_front: "inv q \<Longrightarrow> \<not> empty q \<Longrightarrow> front q = hd (abs q)"
    and empty_iff: "inv q \<Longrightarrow> empty q \<longleftrightarrow> abs q = []"
    and full_iff: "inv q \<Longrightarrow> full q \<longleftrightarrow> length (abs q) = cap q"
    and abs_bound: "inv q \<Longrightarrow> length (abs q) \<le> cap q"
begin

text \<open>Filling a queue: as many elements as there is room for go in, in order.\<close>

lemma enq_all:
  "inv q \<Longrightarrow> length (abs q) + length es \<le> cap q \<Longrightarrow>
   inv (fold enq es q) \<and> abs (fold enq es q) = abs q @ es \<and> cap (fold enq es q) = cap q"
proof (induction es arbitrary: q)
  case Nil
  then show ?case by simp
next
  case (Cons e es)
  then have "\<not> full q" by (simp add: full_iff)
  with Cons.prems have "abs (enq e q) = abs q @ [e]" and "inv (enq e q)"
    by (simp_all add: abs_enq inv_enq)
  with Cons.IH [of "enq e q"] Cons.prems show ?case by (simp add: cap_enq)
qed

text \<open>Draining a queue: the first \<open>n\<close> elements leave.\<close>

lemma deq_many:
  "inv q \<Longrightarrow> n \<le> length (abs q) \<Longrightarrow>
   inv ((deq ^^ n) q) \<and> abs ((deq ^^ n) q) = drop n (abs q) \<and> cap ((deq ^^ n) q) = cap q"
proof (induction n)
  case 0
  then show ?case by simp
next
  case (Suc n)
  then have IH: "inv ((deq ^^ n) q)" "abs ((deq ^^ n) q) = drop n (abs q)"
    "cap ((deq ^^ n) q) = cap q" by auto
  with Suc.prems have "\<not> empty ((deq ^^ n) q)" by (simp add: empty_iff)
  with IH show ?case by (simp add: abs_deq inv_deq cap_deq drop_Suc drop_tl)
qed

text \<open>Elements leave in the order they came.\<close>

lemma fifo_order:
  assumes "inv q" and "length (abs q) + length es \<le> cap q" and "i < length es"
  shows "front ((deq ^^ (length (abs q) + i)) (fold enq es q)) = es ! i"
proof -
  let ?q = "fold enq es q" and ?n = "length (abs q) + i"
  have q: "inv ?q" "abs ?q = abs q @ es" using enq_all assms by auto
  with assms(3) have d: "inv ((deq ^^ ?n) ?q)" "abs ((deq ^^ ?n) ?q) = drop i es"
    using deq_many [of ?q ?n] by auto
  with assms(3) have "\<not> empty ((deq ^^ ?n) ?q)" by (simp add: empty_iff)
  with d assms(3) show ?thesis by (simp add: abs_front hd_drop_conv_nth)
qed

end

lemma slots_ops [simp]:
  "ring_elements (mhi_add_ring_element r) = ring_elements r"
  "ring_elements (mhi_del_ring_element r) = ring_elements r"
  "ring_elements (ring_store e r) = ring_elements r"
  "ring_elements (ring_put e r) = ring_elements r"
  by (simp_all add: mhi_add_ring_element_def mhi_del_ring_element_def ring_store_def ring_put_def)

interpretation ring_queue: bounded_fifo ring_put mhi_del_ring_element ring_front mhi_is_ring_full
  ring_is_empty ring_list "\<lambda>r. slots r - 1" ring_wf
proof unfold_locales
  fix e :: 'a and r :: "'a mhi_ring"
  show "ring_wf r \<Longrightarrow> ring_wf (ring_put e r)" by (rule ring_put_wf)
  show "ring_wf r \<Longrightarrow> ring_wf (mhi_del_ring_element r)" by (rule mhi_del_ring_element_wf)
  show "slots (ring_put e r) - 1 = slots r - 1" by simp
  show "slots (mhi_del_ring_element r) - 1 = slots r - 1" by simp
  show "ring_wf r \<Longrightarrow> \<not> mhi_is_ring_full r \<Longrightarrow> ring_list (ring_put e r) = ring_list r @ [e]"
    by (rule ring_list_put)
  show "ring_wf r \<Longrightarrow> \<not> ring_is_empty r \<Longrightarrow> ring_list (mhi_del_ring_element r) = tl (ring_list r)"
    by (simp add: ring_is_empty_def ring_list_del)
  show "ring_wf r \<Longrightarrow> \<not> ring_is_empty r \<Longrightarrow> ring_front r = hd (ring_list r)"
    by (simp add: ring_is_empty_def ring_front_list)
  show "ring_wf r \<Longrightarrow> ring_is_empty r \<longleftrightarrow> ring_list r = []"
    by (metis length_0_conv length_ring_list ring_is_empty_def ring_used_zero_iff)
  show "ring_wf r \<Longrightarrow> mhi_is_ring_full r \<longleftrightarrow> length (ring_list r) = slots r - 1"
    by (simp add: mhi_is_ring_full_iff)
  show "ring_wf r \<Longrightarrow> length (ring_list r) \<le> slots r - 1"
    using ring_used_less [of r] by simp
qed

subsection \<open>Free and used slots, event rings\<close>

lemma to_int32_small: "unat w < 2 ^ 31 \<Longrightarrow> to_int32 w = int (unat w)"
proof -
  assume a: "unat w < 2 ^ 31"
  have "int (unat w) < 2 ^ 31" using a by (metis of_nat_less_iff of_nat_numeral of_nat_power)
  then have lt: "uint w < 2 ^ 31" by (simp only: uint_nat)
  have "to_int32 w = signed_take_bit 31 (uint (ucast w :: u32))"
    by (simp add: to_int32_def sint_uint)
  also have "uint (ucast w :: u32) = uint w"
    using lt by (simp add: unsigned_ucast_eq take_bit_int_eq_self)
  also have "signed_take_bit 31 (uint w) = uint w"
    using lt by (intro signed_take_bit_int_eq_self order_trans [OF _ unsigned_greater_eq]) auto
  finally show ?thesis by simp
qed
lemma get_nr_avail_ring_elements_eq:
  assumes wf: "ring_wf r" and sm: "slots r < 2 ^ 31"
  shows "get_nr_avail_ring_elements r = int (slots r - 1 - ring_used r)"
proof -
  note w = ring_wfD [OF wf]
  let ?e = "unat (ring_el_size r)" and ?n = "slots r"
  let ?p = "ring_idx r (ring_rp r)" and ?w = "ring_idx r (ring_wp r)"
  note up = valid_ptr_unat(1) [OF w(1,2)] and uw = valid_ptr_unat(1) [OF w(1,3)]
  have e: "0 < ?e" and len: "unat (ring_len r) = ?n * ?e"
    using w(1) by (auto simp: ring_geom_def)
  have one: "unat (x - 1) = unat x - 1" if "0 < unat x" for x :: u64
    using that by (metis unat_minus_one unat_gt_0)
  show ?thesis
  proof (cases "ring_wp r < ring_rp r")
    case True
    then have lt: "?w < ?p"
      using up uw e by (simp add: word_less_nat_alt)
    have "unat (ring_rp r - ring_wp r) = (?p - ?w) * ?e"
      using True up uw by (simp add: unat_diff_le diff_mult_distrib)
    then have "unat ((ring_rp r - ring_wp r) div ring_el_size r) = ?p - ?w"
      using e by (simp add: unat_div)
    moreover have "ring_used r = ?w + ?n - ?p"
      using lt w(5) by (simp add: ring_used_def)
    ultimately show ?thesis
      using True lt w(5,6) sm
      by (simp add: get_nr_avail_ring_elements_def to_int32_small one)
  next
    case False
    then have le: "?p \<le> ?w" 
      using up uw e by (simp add: word_less_nat_alt not_less)
    have b: "unat (ring_rp r - ring_base r) = ?p * ?e"
      using w(2) up by (simp add: unat_diff_le valid_ptr_def)
    have "ring_wp r \<le> ring_base r + ring_len r"
      using w(3) by (simp add: word_le_nat_alt unat_ring_end [OF w(1)] valid_ptr_def)
    then have "unat (ring_base r + ring_len r - ring_wp r) = (?n - ?w) * ?e"
      using uw len by (simp add: unat_diff_le unat_ring_end [OF w(1)] diff_mult_distrib)
    then have d: "unat ((ring_base r + ring_len r - ring_wp r) div ring_el_size r - 1) = ?n - ?w - 1"
      using e w(6) by (simp add: unat_div one)
    have d2: "unat ((ring_rp r - ring_base r) div ring_el_size r) = ?p"
      using b e by (simp add: unat_div)
    have u: "unat ((ring_rp r - ring_base r) div ring_el_size r + 
       ((ring_base r + ring_len r - ring_wp r) div ring_el_size r - 1)) = ?p + (?n - ?w - 1)"
      using d d2 w(5,6) sm by (subst unat_add_no_wrap) auto
    have "ring_used r = ?w - ?p" using mod_dist_le [OF le w(6)] by (simp add: ring_used_def)
    then show ?thesis
      using False le w(5,6) sm u
      by (simp add: get_nr_avail_ring_elements_def to_int32_small)
  qed
qed

lemma mhi_to_virtual_physical [simp]: "mhi_to_virtual r (mhi_to_physical r p) = p"
  "mhi_to_physical r (mhi_to_virtual r a) = a"
  by (simp_all add: mhi_to_virtual_def mhi_to_physical_def)

lemma mhi_recycle_ev_ring_element_wf [intro]:
  "ring_wf r \<Longrightarrow> ring_wf (mhi_recycle_ev_ring_element r)"
  by (simp add: mhi_recycle_ev_ring_element_def Let_def ring_wf_def ring_advance_valid)

lemma mhi_recycle_ev_ring_element_sel [simp]:
  "ring_rp (mhi_recycle_ev_ring_element r) = ring_advance r (ring_rp r)"
  "ring_wp (mhi_recycle_ev_ring_element r) = ring_advance r (ring_wp r)"
  "ring_ctxt_wp (mhi_recycle_ev_ring_element r) =
     mhi_to_physical r (ring_advance r (ring_wp r))"
  "ring_ctxt_rp (mhi_recycle_ev_ring_element r) = ring_ctxt_rp r"
  "ring_mem (mhi_recycle_ev_ring_element r) = ring_mem r"
  "ring_elements (mhi_recycle_ev_ring_element r) = ring_elements r"
  "ring_db_addr (mhi_recycle_ev_ring_element r) = ring_db_addr r"
  "mhi_to_virtual (mhi_recycle_ev_ring_element r) = mhi_to_virtual r"
  "ring_advance (mhi_recycle_ev_ring_element r) = ring_advance r"
  "valid_ptr (mhi_recycle_ev_ring_element r) = valid_ptr r"
  "ring_idx (mhi_recycle_ev_ring_element r) = ring_idx r"
  "ring_geom (mhi_recycle_ev_ring_element r) = ring_geom r"
  by (simp_all add: mhi_recycle_ev_ring_element_def Let_def mhi_to_physical_def
      mhi_to_virtual_def fun_eq_iff)

lemma mhi_recycle_ev_ring_element_used:
  assumes wf: "ring_wf r"
  shows "ring_used (mhi_recycle_ev_ring_element r) = ring_used r"
proof -
  note w = ring_wfD [OF wf]
  note ap = ring_advance_valid [OF w(1,2)] and aw = ring_advance_valid [OF w(1,3)]
  let ?n = "slots r" and ?p = "ring_idx r (ring_rp r)" and ?w = "ring_idx r (ring_wp r)"
  have "(Suc ?w mod ?n + ?n - Suc ?p mod ?n) mod ?n = (?w + ?n - ?p) mod ?n"
    using w(5,6) by (auto simp: Suc_mod_eq mod_if)
  then show ?thesis using ap(2) aw(2) by (simp add: ring_used_def)
qed

lemma get_used_ring_elements_eq:
  assumes g: "ring_geom r" and sz: "ring_el_size r = 16" and sm: "slots r < 2 ^ 32"
    and p: "valid_ptr r p" and q: "valid_ptr r q"
  shows "unat (get_used_ring_elements p q (ucast (ring_elements r))) =
    (ring_idx r q + slots r - ring_idx r p) mod slots r"
proof -
  note up = valid_ptr_unat [OF g p] and uq = valid_ptr_unat [OF g q]
  let ?n = "slots r" and ?p = "ring_idx r p" and ?q = "ring_idx r q"
  have small: "unat (ucast x :: u32) = unat x" if "unat x < 2 ^ 32" for x :: u64
    using that by (simp add: unsigned_ucast_eq take_bit_nat_eq_self)
  show ?thesis
  proof (cases "p \<le> q")
    case True
    then have le: "?p \<le> ?q" using up uq sz by (simp add: word_le_nat_alt)
    have "unat ((q - p) div 16) = ?q - ?p"
      using True up uq sz by (simp add: unat_div unat_diff_le diff_mult_distrib [symmetric])
    then show ?thesis
      using True mod_dist_le [OF le uq(2)] uq(2) sm by (simp add: get_used_ring_elements_def small)
  next
    case False
    then have lt: "?q < ?p" using up uq sz by (simp add: word_le_nat_alt)
    have d: "unat ((p - q) div 16) = ?p - ?q"
      using False up uq sz by (simp add: unat_div unat_diff_le diff_mult_distrib [symmetric])
    have "unat (ucast (ring_elements r) - ucast ((p - q) div 16) :: u32) = ?n - (?p - ?q)"
      using d up(2) uq(2) sm by (subst unat_diff_le) (simp_all add: small word_le_nat_alt)
    then show ?thesis
      using False lt up(2) by (simp add: get_used_ring_elements_def)
  qed
qed

subsection \<open>Properties\<close>

text \<open>
  (C2) A ring is a first-in first-out queue: with room for all of them, elements put in one after the
  other follow the ones already there, in order, and the \<open>i\<close>-th of them is at the front after the old
  ones and the \<open>i\<close> before it have been deleted, however often the pointers wrap around.
\<close>

theorem ring_fifo:
  assumes "ring_wf r" and "ring_used r + length es \<le> slots r - 1" and "i < length es"
  shows "ring_list (fold ring_put es r) = ring_list r @ es \<and>
    ring_front ((mhi_del_ring_element ^^ (ring_used r + i)) (fold ring_put es r)) = es ! i"
  using ring_queue.enq_all [of r es] ring_queue.fifo_order [of r es i] assms by simp

text \<open>
  The free space the code computes from the two pointers, on either side of the wrap-around, is the
  number of slots less the queued elements less one, and it is zero exactly when the ring counts as full.
\<close>

theorem get_nr_avail_ring_elements_exact:
  assumes "ring_wf r" and "slots r < 2 ^ 31"
  shows "get_nr_avail_ring_elements r = int (slots r - 1 - length (ring_list r)) \<and>
    (mhi_is_ring_full r \<longleftrightarrow> get_nr_avail_ring_elements r = 0)"
proof -
  have "int (slots r - 1 - ring_used r) = 0 \<longleftrightarrow> ring_used r = slots r - 1"
    using ring_used_less [OF assms(1)] by (simp only: of_nat_eq_0_iff) linarith
  then show ?thesis
    by (simp only: get_nr_avail_ring_elements_eq [OF assms] mhi_is_ring_full_iff [OF assms(1)] length_ring_list)
qed

end
