(* ===== verification/MHI_Doorbell.thy ===== *)
theory MHI_Doorbell
  imports MHI_Reg MHI_Ring
begin

text \<open>
  Doorbells (\<^verbatim>\<open>core/mhi_main.c\<close>): the two modes of a doorbell register and the functions that ring
  the event, command and channel doorbells. In burst mode a doorbell is written only while
  \<^verbatim>\<open>db_mode\<close> is set, and ringing it clears the flag.
\<close>

subsection \<open>Operations\<close>

definition mhi_db_brstmode :: "db_cfg \<Rightarrow> u64 \<Rightarrow> u64 \<Rightarrow> mhi_controller \<Rightarrow> db_cfg \<times> mhi_controller" where
  "mhi_db_brstmode cfg db_addr wp c =
     (if db_mode cfg
      then (cfg\<lparr>db_val := wp, db_mode := False\<rparr>, mhi_write_db db_addr wp c)
      else (cfg, c))"

definition mhi_db_brstmode_disable ::
  "db_cfg \<Rightarrow> u64 \<Rightarrow> u64 \<Rightarrow> mhi_controller \<Rightarrow> db_cfg \<times> mhi_controller" where
  "mhi_db_brstmode_disable cfg db_addr wp c = (cfg\<lparr>db_val := wp\<rparr>, mhi_write_db db_addr wp c)"

text \<open>The call through the function pointer \<^verbatim>\<open>db_cfg.process_db\<close>.\<close>

definition call_process_db ::
  "db_cfg \<Rightarrow> u64 \<Rightarrow> u64 \<Rightarrow> mhi_controller \<Rightarrow> db_cfg \<times> mhi_controller" where
  "call_process_db cfg db_addr wp c =
     (case process_db cfg of
        Mhi_db_brstmode \<Rightarrow> mhi_db_brstmode cfg db_addr wp c
      | Mhi_db_brstmode_disable \<Rightarrow> mhi_db_brstmode_disable cfg db_addr wp c)"

definition mhi_ring_er_db :: "mhi_event \<Rightarrow> mhi_controller \<Rightarrow> mhi_event \<times> mhi_controller" where
  "mhi_ring_er_db ev c =
     (let ring = ev_ring ev;
          (cfg, c') = call_process_db (ev_db_cfg ev) (ring_db_addr ring) (ring_ctxt_wp ring) c
      in (ev\<lparr>ev_db_cfg := cfg\<rparr>, c'))"

definition mhi_ring_cmd_db ::
  "mhi_tre mhi_ring \<Rightarrow> mhi_controller \<Rightarrow> mhi_tre mhi_ring \<times> mhi_controller" where
  "mhi_ring_cmd_db ring c =
     (let db = ring_iommu_base ring + (ring_wp ring - ring_base ring)
      in (ring\<lparr>ring_ctxt_wp := db\<rparr>, mhi_write_db (ring_db_addr ring) db c))"

definition mhi_ring_chan_db :: "mhi_chan \<Rightarrow> mhi_controller \<Rightarrow> mhi_chan \<times> mhi_controller" where
  "mhi_ring_chan_db ch c =
     (let ring = tre_ring ch;
          db = ring_iommu_base ring + (ring_wp ring - ring_base ring);
          ch1 = ch\<lparr>tre_ring := ring\<lparr>ring_ctxt_wp := db\<rparr>\<rparr>;
          (cfg, c') = call_process_db (ch_db_cfg ch1) (ring_db_addr ring) db c
      in (ch1\<lparr>ch_db_cfg := cfg\<rparr>, c'))"

lemmas doorbell_defs = mhi_db_brstmode_def mhi_db_brstmode_disable_def call_process_db_def
  mhi_ring_er_db_def mhi_ring_cmd_db_def mhi_ring_chan_db_def

subsection \<open>What ringing a doorbell changes\<close>

text \<open>The rings are only read, the trace grows by at most one doorbell write.\<close>

definition db_writes :: "u64 \<Rightarrow> u64 \<Rightarrow> effect list" where
  "db_writes a wp = [Writel (a + 4) (upper_32_bits wp), Writel a (lower_32_bits wp)]"

definition db_rings :: "db_cfg \<Rightarrow> bool" where
  "db_rings cfg \<longleftrightarrow> process_db cfg = Mhi_db_brstmode_disable \<or> db_mode cfg"

lemma call_process_db_trace:
  "trace (snd (call_process_db cfg a wp c)) =
     trace c @ (if db_rings cfg then db_writes a wp else [])"
  by (auto simp: doorbell_defs db_rings_def db_writes_def split: db_process.splits)

lemma call_process_db_sel [simp]:
  "pm_state (snd (call_process_db cfg a wp c)) = pm_state c"
  "ee (snd (call_process_db cfg a wp c)) = ee c"
  "dev_state (snd (call_process_db cfg a wp c)) = dev_state c"
  "regs (snd (call_process_db cfg a wp c)) = regs c"
  "bhi (snd (call_process_db cfg a wp c)) = bhi c"
  "link_down (snd (call_process_db cfg a wp c)) = link_down c"
  "mhi_chans (snd (call_process_db cfg a wp c)) = mhi_chans c"
  "mhi_events (snd (call_process_db cfg a wp c)) = mhi_events c"
  "mhi_cmd (snd (call_process_db cfg a wp c)) = mhi_cmd c"
  "dev_wake (snd (call_process_db cfg a wp c)) = dev_wake c"
  "pending_pkts (snd (call_process_db cfg a wp c)) = pending_pkts c"
  "transition_list (snd (call_process_db cfg a wp c)) = transition_list c"
  "mhi_tsync (snd (call_process_db cfg a wp c)) = mhi_tsync c"
  "lpm_chans (snd (call_process_db cfg a wp c)) = lpm_chans c"
  "wake_db (snd (call_process_db cfg a wp c)) = wake_db c"
  "buffer_len (snd (call_process_db cfg a wp c)) = buffer_len c"
  by (auto simp: doorbell_defs split: db_process.splits)

lemma mhi_ring_er_db_sel [simp]:
  "pm_state (snd (mhi_ring_er_db ev c)) = pm_state c" "ee (snd (mhi_ring_er_db ev c)) = ee c"
  "dev_state (snd (mhi_ring_er_db ev c)) = dev_state c"
  "mhi_chans (snd (mhi_ring_er_db ev c)) = mhi_chans c"
  "mhi_events (snd (mhi_ring_er_db ev c)) = mhi_events c"
  "mhi_cmd (snd (mhi_ring_er_db ev c)) = mhi_cmd c"
  "pending_pkts (snd (mhi_ring_er_db ev c)) = pending_pkts c"
  "dev_wake (snd (mhi_ring_er_db ev c)) = dev_wake c"
  "transition_list (snd (mhi_ring_er_db ev c)) = transition_list c"
  "mhi_tsync (snd (mhi_ring_er_db ev c)) = mhi_tsync c"
  "lpm_chans (snd (mhi_ring_er_db ev c)) = lpm_chans c"
  "regs (snd (mhi_ring_er_db ev c)) = regs c"
  "ev_ring (fst (mhi_ring_er_db ev c)) = ev_ring ev"
  "hw_ring (fst (mhi_ring_er_db ev c)) = hw_ring ev"
  "offload_ev (fst (mhi_ring_er_db ev c)) = offload_ev ev"
  by (simp_all add: mhi_ring_er_db_def Let_def case_prod_beta)

lemma mhi_ring_chan_db_sel [simp]:
  "pm_state (snd (mhi_ring_chan_db ch c)) = pm_state c" "ee (snd (mhi_ring_chan_db ch c)) = ee c"
  "dev_state (snd (mhi_ring_chan_db ch c)) = dev_state c"
  "mhi_chans (snd (mhi_ring_chan_db ch c)) = mhi_chans c"
  "mhi_events (snd (mhi_ring_chan_db ch c)) = mhi_events c"
  "mhi_cmd (snd (mhi_ring_chan_db ch c)) = mhi_cmd c"
  "pending_pkts (snd (mhi_ring_chan_db ch c)) = pending_pkts c"
  "dev_wake (snd (mhi_ring_chan_db ch c)) = dev_wake c"
  "transition_list (snd (mhi_ring_chan_db ch c)) = transition_list c"
  "mhi_tsync (snd (mhi_ring_chan_db ch c)) = mhi_tsync c"
  "lpm_chans (snd (mhi_ring_chan_db ch c)) = lpm_chans c"
  "regs (snd (mhi_ring_chan_db ch c)) = regs c"
  "buf_ring (fst (mhi_ring_chan_db ch c)) = buf_ring ch"
  "tre_ring (fst (mhi_ring_chan_db ch c)) =
     (tre_ring ch)\<lparr>ring_ctxt_wp := ring_iommu_base (tre_ring ch) + (ring_wp (tre_ring ch) - ring_base (tre_ring ch))\<rparr>"
  "ch_state (fst (mhi_ring_chan_db ch c)) = ch_state ch"
  "chan (fst (mhi_ring_chan_db ch c)) = chan ch"
  by (simp_all add: mhi_ring_chan_db_def Let_def case_prod_beta)

lemma mhi_ring_chan_db_trace:
  "trace (snd (mhi_ring_chan_db ch c)) =
     trace c @ (if db_rings (ch_db_cfg ch)
       then db_writes (ring_db_addr (tre_ring ch)) (mhi_to_physical (tre_ring ch) (ring_wp (tre_ring ch)))
       else [])"
  by (simp add: mhi_ring_chan_db_def Let_def case_prod_beta call_process_db_trace mhi_to_physical_def
      add.commute)

lemma mhi_ring_er_db_trace:
  "trace (snd (mhi_ring_er_db ev c)) =
     trace c @ (if db_rings (ev_db_cfg ev)
       then db_writes (ring_db_addr (ev_ring ev)) (ring_ctxt_wp (ev_ring ev)) else [])"
  by (simp add: mhi_ring_er_db_def Let_def case_prod_beta call_process_db_trace)

text \<open>
  A burst-mode doorbell is silent after it has been rung, until the device asks for it again by
  setting \<^verbatim>\<open>db_mode\<close>.
\<close>

lemma brstmode_rings_once:
  assumes "process_db (ch_db_cfg ch) = Mhi_db_brstmode"
    and "mhi_ring_chan_db ch c = (ch', c')"
  shows "\<not> db_rings (ch_db_cfg ch')"
  using assms
  by (cases "db_mode (ch_db_cfg ch)") (auto simp: doorbell_defs db_rings_def Let_def)

end
