(* ===== verification/MHI_Config.thy ===== *)
theory MHI_Config
  imports MHI_Doorbell
begin

text \<open>
  The fixed configuration of the driver (\<^verbatim>\<open>core/mhi_init.c\<close>, the branch without device tree): the
  channel table, the event rings, and the layout of the control segment that holds all rings
  (\<^verbatim>\<open>struct mhi_ctrl_seg\<close>). Built as the repository builds it: without \<^verbatim>\<open>ENABLE_IP_SW0\<close>,
  \<^verbatim>\<open>ENABLE_ADPL\<close> and \<^verbatim>\<open>ENABLE_QDSS\<close>.

  The two switches the network driver supplies (\<^verbatim>\<open>mhi_netdev_mbin_enabled\<close> and
  \<^verbatim>\<open>mhi_netdev_use_xfer_type_dma\<close>) are the arguments \<open>mbim\<close> and \<open>use_dma\<close>.
\<close>

subsection \<open>Sizes\<close>

definition NUM_MHI_XFER_RINGS :: int where [mhi_consts]: "NUM_MHI_XFER_RINGS = 128"
definition NUM_MHI_IPA_IN_RING_ELEMENTS :: int where [mhi_consts]: "NUM_MHI_IPA_IN_RING_ELEMENTS = 512"
definition NUM_MHI_IPA_OUT_RING_ELEMENTS :: int where [mhi_consts]: "NUM_MHI_IPA_OUT_RING_ELEMENTS = 512"
definition NUM_MHI_EVT_RING_ELEMENTS :: int where [mhi_consts]:
  "NUM_MHI_EVT_RING_ELEMENTS = NUM_MHI_IPA_IN_RING_ELEMENTS * 2"
definition NUM_MHI_DIAG_IN_RING_ELEMENTS :: int where [mhi_consts]: "NUM_MHI_DIAG_IN_RING_ELEMENTS = 128"
definition NUM_MHI_CHAN_RING_ELEMENTS :: int where [mhi_consts]: "NUM_MHI_CHAN_RING_ELEMENTS = 32"
definition MHI_MAX_CHANNELS :: nat where [mhi_consts]: "MHI_MAX_CHANNELS = 128"

definition MHI_CLIENT_DIAG_IN :: u32 where [mhi_consts]: "MHI_CLIENT_DIAG_IN = 5"
definition MHI_CLIENT_IP_SW_0_OUT :: u32 where [mhi_consts]: "MHI_CLIENT_IP_SW_0_OUT = 46"
definition MHI_CLIENT_IP_SW_0_IN :: u32 where [mhi_consts]: "MHI_CLIENT_IP_SW_0_IN = 47"
definition MHI_CLIENT_IP_HW_0_OUT :: u32 where [mhi_consts]: "MHI_CLIENT_IP_HW_0_OUT = 100"
definition MHI_CLIENT_IP_HW_0_IN :: u32 where [mhi_consts]: "MHI_CLIENT_IP_HW_0_IN = 101"

definition PRIMARY_EVENT_RING :: nat where [mhi_consts]: "PRIMARY_EVENT_RING = 0"
definition IPA_OUT_EVENT_RING :: nat where [mhi_consts]: "IPA_OUT_EVENT_RING = 1"
definition IPA_IN_EVENT_RING :: nat where [mhi_consts]: "IPA_IN_EVENT_RING = 2"
definition MAX_EVT_RING_IDX :: nat where [mhi_consts]: "MAX_EVT_RING_IDX = 3"

definition CHAN_INBOUND :: "u32 \<Rightarrow> bool" where "CHAN_INBOUND x \<longleftrightarrow> x mod 2 \<noteq> 0"
definition CHAN_SBL :: "u32 \<Rightarrow> bool" where "CHAN_SBL x \<longleftrightarrow> x = 2 \<or> x = 3 \<or> x = 25"
definition CHAN_EDL :: "u32 \<Rightarrow> bool" where "CHAN_EDL x \<longleftrightarrow> x = 34 \<or> x = 35"

subsection \<open>The control segment\<close>

text \<open>The C layout: each member at the next multiple of its alignment. A ring element has 16 bytes,
  a context 44.\<close>

definition align_up :: "int \<Rightarrow> int \<Rightarrow> int" where
  "align_up x a = (x + a - 1) div a * a"

definition off_hw_in_chan_ring :: int where "off_hw_in_chan_ring = 0"
definition off_hw_out_chan_ring :: int where
  "off_hw_out_chan_ring =
     align_up (off_hw_in_chan_ring + NUM_MHI_IPA_IN_RING_ELEMENTS * 16) (NUM_MHI_IPA_OUT_RING_ELEMENTS * 16)"
definition off_diag_in_chan_ring :: int where
  "off_diag_in_chan_ring =
     align_up (off_hw_out_chan_ring + NUM_MHI_IPA_OUT_RING_ELEMENTS * 16) (NUM_MHI_IPA_OUT_RING_ELEMENTS * 16)"
definition off_chan_ring :: int where
  "off_chan_ring =
     align_up (off_diag_in_chan_ring + NUM_MHI_DIAG_IN_RING_ELEMENTS * 16) (NUM_MHI_CHAN_RING_ELEMENTS * 16)"
definition off_event_ring :: int where
  "off_event_ring =
     align_up (off_chan_ring + NUM_MHI_CHAN_RING_ELEMENTS * 2 * 12 * 16) (NUM_MHI_EVT_RING_ELEMENTS * 16)"
definition off_cmd_ring :: int where
  "off_cmd_ring = align_up (off_event_ring + int MAX_EVT_RING_IDX * NUM_MHI_EVT_RING_ELEMENTS * 16) (128 * 16)"
definition off_chan_ctxt :: int where
  "off_chan_ctxt = align_up (off_cmd_ring + 128 * 16) 128"
definition off_er_ctxt :: int where
  "off_er_ctxt = align_up (off_chan_ctxt + NUM_MHI_XFER_RINGS * 44) 128"
definition off_cmd_ctxt :: int where
  "off_cmd_ctxt = align_up (off_er_ctxt + int MAX_EVT_RING_IDX * 44) 128"
definition sizeof_mhi_ctrl_seg :: int where
  "sizeof_mhi_ctrl_seg = align_up (off_cmd_ctxt + 44) (NUM_MHI_EVT_RING_ELEMENTS * 16)"

lemmas ctrl_seg_offsets = off_hw_in_chan_ring_def off_hw_out_chan_ring_def
  off_diag_in_chan_ring_def off_chan_ring_def off_event_ring_def off_cmd_ring_def off_chan_ctxt_def
  off_er_ctxt_def off_cmd_ctxt_def sizeof_mhi_ctrl_seg_def align_up_def

subsection \<open>Zeroed structures (kcalloc)\<close>

definition zero_tre :: mhi_tre where
  "zero_tre = \<lparr>tre_ptr = 0, tre_dword0 = 0, tre_dword1 = 0\<rparr>"

definition zero_buf_info :: mhi_buf_info where
  "zero_buf_info = \<lparr>p_addr = 0, v_addr = 0, bb_addr = 0, bi_wp = 0, bi_len = 0, cb_buf = 0,
     bi_used = False, pre_mapped = False, bi_dir = DMA_BIDIRECTIONAL\<rparr>"

definition zero_db_cfg :: db_cfg where
  "zero_db_cfg = \<lparr>reset_req = False, db_mode = False, pollcfg = 0, brstmode = MHI_BRSTMODE_DISABLE,
     db_val = 0, process_db = Mhi_db_brstmode_disable\<rparr>"

definition zero_ring :: "'e \<Rightarrow> 'e mhi_ring" where
  "zero_ring e = \<lparr>ring_iommu_base = 0, ring_base = 0, ring_rp = 0, ring_wp = 0, ring_el_size = 0,
     ring_len = 0, ring_elements = 0, ring_db_addr = 0, ring_ctxt_rbase = 0, ring_ctxt_rlen = 0,
     ring_ctxt_rp = 0, ring_ctxt_wp = 0, ring_mem = (\<lambda>_. e)\<rparr>"

definition zero_chan :: mhi_chan where
  "zero_chan = \<lparr>chan = 0, chan_name = [], buf_ring = zero_ring zero_buf_info,
     tre_ring = zero_ring zero_tre, ch_used_elements = 0, used_events = (\<lambda>_. 0), ch_er_index = 0,
     ch_intmod = 0, ch_type = 0, ch_dir = DMA_BIDIRECTIONAL, ch_db_cfg = zero_db_cfg, ee_mask = 0,
     xfer_type = MHI_XFER_BUFFER, ch_state = MHI_CH_STATE_DISABLED, ch_ccs = 0, lpm_notify = False,
     configured = False, offload_ch = False, pre_alloc = False, auto_start = False,
     wake_capable = False, queue_xfer = Mhi_queue_nop, has_mhi_dev = False, ch_completion = 0,
     ch_ring = 0, tiocm = 0, cc_chstate = MHI_CH_STATE_DISABLED, cc_brstmode = MHI_BRSTMODE_DISABLE,
     cc_pollcfg = 0, cc_chtype = 0, cc_erindex = 0\<rparr>"

definition zero_event :: mhi_event where
  "zero_event = \<lparr>er_index = 0, ev_intmod = 0, ev_msi = 0, ev_priority = 0,
     ev_ring = zero_ring zero_tre, ev_db_cfg = zero_db_cfg, ev_used_elements = 0,
     ev_data_type = MHI_ER_DATA_ELEMENT_TYPE, hw_ring = False, cl_manage = False, offload_ev = False,
     ev_chan = 0, process_event = Process_data_event_ring, ec_intmodc = 0, ec_intmodt = 0,
     ec_ertype = 0, ec_msivec = 0\<rparr>"

text \<open>What \<^verbatim>\<open>mhi_alloc_controller\<close> returns: all fields zero. The device's registers are in \<open>io\<close>.\<close>

definition zero_controller :: "(u64 \<Rightarrow> u32) \<Rightarrow> mhi_controller" where
  "zero_controller io = \<lparr>mmio = io, trace = [], link_down = False, regs = 0, bhi = 0, bhie = 0, wake_db = 0,
     iova_start = 0, iova_stop = 0, chan_ctxt_addr = 0, er_ctxt_addr = 0, cmd_ctxt_addr = 0,
     ctrl_seg_addr = 0, ctrl_seg = 0, has_ctxt = False, mhi_chans = [], mhi_events = [],
     mhi_cmd = zero_ring zero_tre, lpm_chans = [], msi_allocated = 0, msi_irq_base = 0, msi_required = 0,
     hw_ev_rings = 0, sw_ev_rings = 0, has_time_ops = False, pre_init = False, pm_state = 0, ee = 0,
     dev_state = 0, dev_wake = 0, pending_pkts = 0, transition_list = [], cnt_M0 = 0, cnt_M2 = 0, cnt_M3 = 0,
     buffer_len = 0, mhi_tsync = None\<rparr>"

subsection \<open>The channel table\<close>

record chan_cfg_t =
  cfg_name :: string
  cfg_chan_id :: u32
  cfg_elements :: int

definition cfg :: "string \<Rightarrow> u32 \<Rightarrow> int \<Rightarrow> chan_cfg_t" where
  "cfg nm i n = \<lparr>cfg_name = nm, cfg_chan_id = i, cfg_elements = n\<rparr>"

definition chan_cfg :: "chan_cfg_t list" where
  "chan_cfg =
    [cfg ''LOOPBACK'' 0 NUM_MHI_CHAN_RING_ELEMENTS, cfg ''LOOPBACK'' 1 NUM_MHI_CHAN_RING_ELEMENTS,
     cfg ''SAHARA'' 2 NUM_MHI_CHAN_RING_ELEMENTS, cfg ''SAHARA'' 3 NUM_MHI_CHAN_RING_ELEMENTS,
     cfg ''DIAG'' 4 NUM_MHI_CHAN_RING_ELEMENTS, cfg ''DIAG'' 5 NUM_MHI_DIAG_IN_RING_ELEMENTS,
     cfg ''EFS'' 10 NUM_MHI_CHAN_RING_ELEMENTS, cfg ''EFS'' 11 NUM_MHI_CHAN_RING_ELEMENTS,
     cfg ''MBIM'' 12 NUM_MHI_CHAN_RING_ELEMENTS, cfg ''MBIM'' 13 NUM_MHI_CHAN_RING_ELEMENTS,
     cfg ''QMI0'' 14 NUM_MHI_CHAN_RING_ELEMENTS, cfg ''QMI0'' 15 NUM_MHI_CHAN_RING_ELEMENTS,
     cfg ''IP_CTRL'' 18 NUM_MHI_CHAN_RING_ELEMENTS, cfg ''IP_CTRL'' 19 NUM_MHI_CHAN_RING_ELEMENTS,
     cfg ''DUN'' 32 NUM_MHI_CHAN_RING_ELEMENTS, cfg ''DUN'' 33 NUM_MHI_CHAN_RING_ELEMENTS,
     cfg ''EDL'' 34 NUM_MHI_CHAN_RING_ELEMENTS, cfg ''EDL'' 35 NUM_MHI_CHAN_RING_ELEMENTS,
     cfg ''IP_HW0'' 100 NUM_MHI_IPA_OUT_RING_ELEMENTS,
     cfg ''IP_HW0'' 101 NUM_MHI_IPA_IN_RING_ELEMENTS]"

text \<open>\<^verbatim>\<open>(enum mhi_ch_type)mhi_chan->dir\<close>\<close>

definition dir_code :: "dma_data_direction \<Rightarrow> u32" where
  "dir_code d = (case d of DMA_BIDIRECTIONAL \<Rightarrow> 0 | DMA_TO_DEVICE \<Rightarrow> 1 | DMA_FROM_DEVICE \<Rightarrow> 2
     | DMA_NONE \<Rightarrow> 3)"

definition xfer_queue_fn :: "MHI_XFER_TYPE \<Rightarrow> queue_xfer_fn" where
  "xfer_queue_fn t = (case t of MHI_XFER_BUFFER \<Rightarrow> Mhi_queue_buf | MHI_XFER_SKB \<Rightarrow> Mhi_queue_skb
     | MHI_XFER_SCLIST \<Rightarrow> Mhi_queue_sclist | MHI_XFER_NOP \<Rightarrow> Mhi_queue_nop
     | MHI_XFER_DMA \<Rightarrow> Mhi_queue_dma | MHI_XFER_RSC_DMA \<Rightarrow> Mhi_queue_dma)"

text \<open>
  The body of the loop of \<^verbatim>\<open>of_parse_ch_cfg\<close>: identity, ring and direction of a channel, then its
  transfer type, flags and doorbell. \<open>ring\<close> counts the slots of \<^verbatim>\<open>chan_ring\<close> given out so far.
\<close>

definition ch_cfg_ring :: "chan_cfg_t \<Rightarrow> u32 \<Rightarrow> mhi_chan \<Rightarrow> mhi_chan \<times> u32" where
  "ch_cfg_ring cf ring ch =
     (let n = cfg_chan_id cf; els = word_of_int (cfg_elements cf);
          ch1 = ch\<lparr>chan_name := cfg_name cf, chan := n,
                   tre_ring := (tre_ring ch)\<lparr>ring_elements := els\<rparr>,
                   buf_ring := (buf_ring ch)\<lparr>ring_elements := els\<rparr>\<rparr>;
          own = n \<in> {MHI_CLIENT_IP_HW_0_OUT, MHI_CLIENT_IP_HW_0_IN, MHI_CLIENT_DIAG_IN,
                     MHI_CLIENT_IP_SW_0_OUT, MHI_CLIENT_IP_SW_0_IN};
          ch2 = ch1\<lparr>ch_ring := if own then 0 else ring,
                    ch_er_index := word_of_nat
                      (if n = MHI_CLIENT_IP_HW_0_OUT then IPA_OUT_EVENT_RING
                       else if n = MHI_CLIENT_IP_HW_0_IN then IPA_IN_EVENT_RING
                       else PRIMARY_EVENT_RING)\<rparr>;
          d = if CHAN_INBOUND n then DMA_FROM_DEVICE else DMA_TO_DEVICE
      in (ch2\<lparr>ch_dir := d, ch_type := dir_code d\<rparr>,
          if own then ring else ring + word_of_int (cfg_elements cf)))"

definition ch_cfg_xfer :: "bool \<Rightarrow> chan_cfg_t \<Rightarrow> mhi_chan \<Rightarrow> mhi_chan res" where
  "ch_cfg_xfer use_dma cf ch =
     (let n = cfg_chan_id cf;
          mask = if CHAN_SBL n then BIT (unat MHI_EE_SBL)
                 else if CHAN_EDL n then BIT (unat MHI_EE_FP) else BIT (unat MHI_EE_AMSS);
          xt = if n = MHI_CLIENT_IP_HW_0_OUT \<or> n = MHI_CLIENT_IP_SW_0_OUT then MHI_XFER_SKB
               else if n = MHI_CLIENT_IP_HW_0_IN then (if use_dma then MHI_XFER_DMA else MHI_XFER_SKB)
               else if n = MHI_CLIENT_IP_SW_0_IN then MHI_XFER_SKB
               else MHI_XFER_BUFFER;
          ch1 = ch\<lparr>ee_mask := mask, ch_db_cfg := (ch_db_cfg ch)\<lparr>pollcfg := 0\<rparr>, xfer_type := xt\<rparr>;
          ch2 = if cfg_elements cf = 0 then ch1\<lparr>ch_dir := DMA_BIDIRECTIONAL, xfer_type := MHI_XFER_NOP\<rparr>
                else ch1;
          ch3 = ch2\<lparr>queue_xfer := xfer_queue_fn (xfer_type ch2), lpm_notify := False,
                    offload_ch := (cfg_elements cf = 0),
                    ch_db_cfg := (ch_db_cfg ch2)\<lparr>reset_req := False\<rparr>,
                    pre_alloc := False, auto_start := False, wake_capable := False\<rparr>
      in if pre_alloc ch3 \<and> (ch_dir ch3 \<noteq> DMA_FROM_DEVICE \<or> xfer_type ch3 \<noteq> MHI_XFER_BUFFER) then Inl EINVAL
         else if (ch_dir ch3 = DMA_BIDIRECTIONAL \<or> ch_dir ch3 = DMA_NONE) \<and> \<not> offload_ch ch3 then Inl EINVAL
         else (let ch4 = if pre_alloc ch3 then ch3\<lparr>queue_xfer := Mhi_queue_nop\<rparr> else ch3;
                   ch5 = if offload_ch ch4 then ch4
                         else (let bm = if n = MHI_CLIENT_IP_HW_0_OUT \<or> n = MHI_CLIENT_IP_HW_0_IN
                                        then MHI_BRSTMODE_ENABLE else MHI_BRSTMODE_DISABLE
                               in ch4\<lparr>ch_db_cfg := (ch_db_cfg ch4)
                                      \<lparr>brstmode := bm,
                                       process_db := if bm = MHI_BRSTMODE_ENABLE then Mhi_db_brstmode
                                                     else Mhi_db_brstmode_disable\<rparr>\<rparr>)
               in Inr (ch5\<lparr>configured := True\<rparr>)))"

definition cfg_skipped :: "bool \<Rightarrow> chan_cfg_t \<Rightarrow> bool" where
  "cfg_skipped mbim cf \<longleftrightarrow>
     (if take 4 (cfg_name cf) = ''MBIM'' then \<not> mbim
      else if take 3 (cfg_name cf) = ''QMI'' then mbim else False)"

fun ch_cfg_loop ::
  "bool \<Rightarrow> bool \<Rightarrow> chan_cfg_t list \<Rightarrow> u32 \<Rightarrow> mhi_chan list \<Rightarrow> mhi_chan list res" where
  "ch_cfg_loop mbim use_dma [] ring chs = Inr chs"
| "ch_cfg_loop mbim use_dma (cf # cfs) ring chs =
     (if cfg_skipped mbim cf then ch_cfg_loop mbim use_dma cfs ring chs
      else (let i = unat (cfg_chan_id cf);
                (ch, ring') = ch_cfg_ring cf ring (chs ! i)
            in case ch_cfg_xfer use_dma cf ch of
                 Inl e \<Rightarrow> Inl e
               | Inr ch' \<Rightarrow> ch_cfg_loop mbim use_dma cfs ring' (chs[i := ch'])))"

text \<open>\<open>alloc\<close>: whether \<^verbatim>\<open>kcalloc\<close> succeeds.\<close>

definition of_parse_ch_cfg ::
  "bool \<Rightarrow> bool \<Rightarrow> bool \<Rightarrow> mhi_controller \<Rightarrow> unit res \<times> mhi_controller" where
  "of_parse_ch_cfg alloc mbim use_dma c =
     (if \<not> alloc then (Inl ENOMEM, c)
      else (let c1 = c\<lparr>mhi_chans := replicate MHI_MAX_CHANNELS zero_chan, lpm_chans := []\<rparr>
            in case ch_cfg_loop mbim use_dma chan_cfg 0 (mhi_chans c1) of
                 Inl e \<Rightarrow> (Inl e, c1\<lparr>mhi_chans := []\<rparr>)
               | Inr chs \<Rightarrow> (Inr (), c1\<lparr>mhi_chans := chs\<rparr>)))"

subsection \<open>Event rings\<close>

definition ev_cfg_entry :: "mhi_chan list \<Rightarrow> u32 \<Rightarrow> nat \<Rightarrow> mhi_event" where
  "ev_cfg_entry chs irq_base i =
     (let dedicated = i = IPA_OUT_EVENT_RING \<or> i = IPA_IN_EVENT_RING;
          els = if i = PRIMARY_EVENT_RING then 256 else word_of_int NUM_MHI_EVT_RING_ELEMENTS;
          n = if i = IPA_OUT_EVENT_RING then MHI_CLIENT_IP_HW_0_OUT
              else if i = IPA_IN_EVENT_RING then MHI_CLIENT_IP_HW_0_IN else 0;
          bm = if n \<noteq> 0 \<and> brstmode (ch_db_cfg (chs ! unat n)) = MHI_BRSTMODE_ENABLE
               then MHI_BRSTMODE_ENABLE else MHI_BRSTMODE_DISABLE;
          dt = if dedicated then MHI_ER_DATA_ELEMENT_TYPE else MHI_ER_CTRL_ELEMENT_TYPE
      in zero_event\<lparr>er_index := word_of_nat i,
           ev_ring := (ev_ring zero_event)\<lparr>ring_elements := els\<rparr>,
           ev_intmod := if dedicated then 5 else 1,
           ev_msi := 1 + word_of_nat i + irq_base,
           ev_chan := n,
           ev_priority := 1,
           ev_db_cfg := (ev_db_cfg zero_event)
             \<lparr>brstmode := bm,
              process_db := if bm = MHI_BRSTMODE_ENABLE then Mhi_db_brstmode else Mhi_db_brstmode_disable\<rparr>,
           ev_data_type := dt,
           process_event := (case dt of MHI_ER_DATA_ELEMENT_TYPE \<Rightarrow> Process_data_event_ring
             | MHI_ER_CTRL_ELEMENT_TYPE \<Rightarrow> Process_ctrl_ev_ring
             | MHI_ER_TSYNC_ELEMENT_TYPE \<Rightarrow> Process_tsync_event_ring),
           hw_ring := dedicated,
           cl_manage := (n = MHI_CLIENT_IP_HW_0_IN \<or> n = MHI_CLIENT_IP_SW_0_IN),
           offload_ev := False\<rparr>)"

definition of_parse_ev_cfg :: "bool \<Rightarrow> mhi_controller \<Rightarrow> unit res \<times> mhi_controller" where
  "of_parse_ev_cfg alloc c =
     (if \<not> alloc then (Inl ENOMEM, c)
      else (let evs = map (ev_cfg_entry (mhi_chans c) 0) [0..<MAX_EVT_RING_IDX]
            in (Inr (),
                c\<lparr>mhi_events := evs, msi_irq_base := 0,
                  hw_ev_rings := hw_ev_rings c + word_of_nat (length (filter hw_ring evs)),
                  sw_ev_rings := sw_ev_rings c + word_of_nat (length (filter (\<lambda>e. \<not> hw_ring e) evs)),
                  msi_required := word_of_nat MAX_EVT_RING_IDX + 1 + 0\<rparr>)))"

definition of_parse_dt ::
  "bool \<Rightarrow> bool \<Rightarrow> bool \<Rightarrow> bool \<Rightarrow> mhi_controller \<Rightarrow> unit res \<times> mhi_controller" where
  "of_parse_dt alloc_ch alloc_ev mbim use_dma c =
     (case of_parse_ch_cfg alloc_ch mbim use_dma c of
        (Inl e, c1) \<Rightarrow> (Inl e, c1)
      | (Inr _, c1) \<Rightarrow>
          (case of_parse_ev_cfg alloc_ev c1 of
             (Inl e, c2) \<Rightarrow> (Inl e, c2\<lparr>mhi_chans := []\<rparr>)
           | (Inr _, c2) \<Rightarrow> (Inr (), c2\<lparr>buffer_len := ucast MHI_MAX_MTU\<rparr>)))"

end
