(* ===== verification/MHI_PMState.thy ===== *)
theory MHI_PMState
  imports MHI_Reg
begin

text \<open>
  The power management state machine of the host (\<^verbatim>\<open>core/mhi_pm.c\<close>, \<^verbatim>\<open>core/mhi_internal.h\<close>): the
  state classes, the transition table with its guarded update, the requests to the device
  (\<^verbatim>\<open>mhi_set_mhi_state\<close>, the wake doorbell) and the queue of state transitions.

  The comment above the table describes the intended machine by levels. It is stated here as the
  relation \<open>pm_documented\<close>, and the table with the lookup by \<^verbatim>\<open>find_last_bit\<close> is proved to implement
  exactly that relation.
\<close>

subsection \<open>Classes of states\<close>

definition MHI_IN_PBL :: "u32 \<Rightarrow> bool" where
  "MHI_IN_PBL e \<longleftrightarrow> e = MHI_EE_PBL \<or> e = MHI_EE_PTHRU \<or> e = MHI_EE_EDL"

definition MHI_IN_MISSION_MODE :: "u32 \<Rightarrow> bool" where
  "MHI_IN_MISSION_MODE e \<longleftrightarrow> e = MHI_EE_AMSS \<or> e = MHI_EE_WFW"

definition MHI_REG_ACCESS_VALID :: "u32 \<Rightarrow> bool" where
  "MHI_REG_ACCESS_VALID s \<longleftrightarrow>
     s AND (MHI_PM_POR OR MHI_PM_M0 OR MHI_PM_M2 OR MHI_PM_M3_ENTER OR MHI_PM_M3_EXIT OR
       MHI_PM_SYS_ERR_DETECT OR MHI_PM_SYS_ERR_PROCESS OR MHI_PM_SHUTDOWN_PROCESS OR
       MHI_PM_FW_DL_ERR) \<noteq> 0"

definition MHI_PM_IN_ERROR_STATE :: "u32 \<Rightarrow> bool" where
  "MHI_PM_IN_ERROR_STATE s \<longleftrightarrow> MHI_PM_FW_DL_ERR \<le> s"

definition MHI_PM_IN_FATAL_STATE :: "u32 \<Rightarrow> bool" where
  "MHI_PM_IN_FATAL_STATE s \<longleftrightarrow> s = MHI_PM_LD_ERR_FATAL_DETECT"

definition MHI_DB_ACCESS_VALID :: "u32 \<Rightarrow> bool" where
  "MHI_DB_ACCESS_VALID s \<longleftrightarrow> s AND MHI_PM_M0 \<noteq> 0"

definition MHI_EVENT_ACCESS_INVALID :: "u32 \<Rightarrow> bool" where
  "MHI_EVENT_ACCESS_INVALID s \<longleftrightarrow> s = MHI_PM_DISABLE \<or> MHI_PM_IN_ERROR_STATE s"

definition MHI_PM_IN_SUSPEND_STATE :: "u32 \<Rightarrow> bool" where
  "MHI_PM_IN_SUSPEND_STATE s \<longleftrightarrow> s AND (MHI_PM_M3_ENTER OR MHI_PM_M3) \<noteq> 0"

lemmas pm_classes = MHI_REG_ACCESS_VALID_def MHI_PM_IN_ERROR_STATE_def MHI_PM_IN_FATAL_STATE_def
  MHI_DB_ACCESS_VALID_def MHI_EVENT_ACCESS_INVALID_def MHI_PM_IN_SUSPEND_STATE_def

subsection \<open>The transition table\<close>

definition mhi_state_transitions :: "(u32 \<times> u32) list" where
  "mhi_state_transitions =
    [(MHI_PM_DISABLE, MHI_PM_POR),
     (MHI_PM_POR, MHI_PM_POR OR MHI_PM_DISABLE OR MHI_PM_M0 OR MHI_PM_SYS_ERR_DETECT OR
        MHI_PM_SHUTDOWN_PROCESS OR MHI_PM_LD_ERR_FATAL_DETECT OR MHI_PM_FW_DL_ERR),
     (MHI_PM_M0, MHI_PM_M2 OR MHI_PM_M3_ENTER OR MHI_PM_SYS_ERR_DETECT OR
        MHI_PM_SHUTDOWN_PROCESS OR MHI_PM_LD_ERR_FATAL_DETECT OR MHI_PM_FW_DL_ERR),
     (MHI_PM_M2, MHI_PM_M0 OR MHI_PM_SYS_ERR_DETECT OR MHI_PM_SHUTDOWN_PROCESS OR
        MHI_PM_LD_ERR_FATAL_DETECT),
     (MHI_PM_M3_ENTER, MHI_PM_M3 OR MHI_PM_SYS_ERR_DETECT OR MHI_PM_SHUTDOWN_PROCESS OR
        MHI_PM_LD_ERR_FATAL_DETECT),
     (MHI_PM_M3, MHI_PM_M3_EXIT OR MHI_PM_SYS_ERR_DETECT OR MHI_PM_SHUTDOWN_PROCESS OR
        MHI_PM_LD_ERR_FATAL_DETECT),
     (MHI_PM_M3_EXIT, MHI_PM_M0 OR MHI_PM_SYS_ERR_DETECT OR MHI_PM_SHUTDOWN_PROCESS OR
        MHI_PM_LD_ERR_FATAL_DETECT),
     (MHI_PM_FW_DL_ERR, MHI_PM_FW_DL_ERR OR MHI_PM_SYS_ERR_DETECT OR MHI_PM_SHUTDOWN_PROCESS OR
        MHI_PM_LD_ERR_FATAL_DETECT),
     (MHI_PM_SYS_ERR_DETECT, MHI_PM_SYS_ERR_PROCESS OR MHI_PM_SHUTDOWN_PROCESS OR
        MHI_PM_LD_ERR_FATAL_DETECT),
     (MHI_PM_SYS_ERR_PROCESS, MHI_PM_POR OR MHI_PM_SHUTDOWN_PROCESS OR MHI_PM_LD_ERR_FATAL_DETECT),
     (MHI_PM_SHUTDOWN_PROCESS, MHI_PM_DISABLE OR MHI_PM_LD_ERR_FATAL_DETECT),
     (MHI_PM_LD_ERR_FATAL_DETECT, MHI_PM_LD_ERR_FATAL_DETECT OR MHI_PM_SHUTDOWN_PROCESS)]"

text \<open>The decision of \<^verbatim>\<open>mhi_tryset_pm_state\<close>: the state after the request.\<close>

definition pm_next :: "u32 \<Rightarrow> u32 \<Rightarrow> u32" where
  "pm_next cur_state state =
     (let index = find_last_bit cur_state 32
      in if length mhi_state_transitions \<le> index then cur_state
         else if fst (mhi_state_transitions ! index) \<noteq> cur_state then cur_state
         else if snd (mhi_state_transitions ! index) AND state = 0 then cur_state
         else state)"

definition mhi_tryset_pm_state :: "u32 \<Rightarrow> mhi_controller \<Rightarrow> u32 \<times> mhi_controller" where
  "mhi_tryset_pm_state state c =
     (let s = pm_next (pm_state c) state in (s, c\<lparr>pm_state := s\<rparr>))"

definition mhi_set_mhi_state :: "u32 \<Rightarrow> mhi_controller \<Rightarrow> mhi_controller" where
  "mhi_set_mhi_state state c =
     (if state = MHI_STATE_RESET
      then mhi_write_reg_field (regs c) MHICTRL MHICTRL_RESET_MASK MHICTRL_RESET_SHIFT 1 c
      else mhi_write_reg_field (regs c) MHICTRL MHICTRL_MHISTATE_MASK MHICTRL_MHISTATE_SHIFT state c)"

text \<open>
  \<^verbatim>\<open>mhi_assert_dev_wake\<close> rings the wake doorbell in M2 and returns: the counting code after it is
  dead, and so is the whole of \<^verbatim>\<open>mhi_deassert_dev_wake\<close>. They are what \<^verbatim>\<open>wake_get\<close> and
  \<^verbatim>\<open>wake_put\<close> point to.
\<close>

definition mhi_assert_dev_wake :: "mhi_controller \<Rightarrow> mhi_controller" where
  "mhi_assert_dev_wake c =
     (if dev_state c = MHI_STATE_M2 then mhi_write_db (wake_db c) 1 c else c)"

definition mhi_deassert_dev_wake :: "mhi_controller \<Rightarrow> mhi_controller" where
  "mhi_deassert_dev_wake c = c"

text \<open>
  \<^verbatim>\<open>mhi_queue_state_transition\<close>: \<open>alloc\<close> is whether \<^verbatim>\<open>kmalloc\<close> succeeds.
\<close>

definition mhi_queue_state_transition ::
  "bool \<Rightarrow> MHI_ST_TRANSITION \<Rightarrow> mhi_controller \<Rightarrow> unit res \<times> mhi_controller" where
  "mhi_queue_state_transition alloc st c =
     (if \<not> alloc then (Inl ENOMEM, c)
      else (Inr (), emit (ScheduleWork St_worker)
              (c\<lparr>transition_list := transition_list c @ [st]\<rparr>)))"

subsection \<open>The documented machine\<close>

definition pm_states :: "u32 list" where
  "pm_states = [MHI_PM_DISABLE, MHI_PM_POR, MHI_PM_M0, MHI_PM_M2, MHI_PM_M3_ENTER, MHI_PM_M3,
     MHI_PM_M3_EXIT, MHI_PM_FW_DL_ERR, MHI_PM_SYS_ERR_DETECT, MHI_PM_SYS_ERR_PROCESS,
     MHI_PM_SHUTDOWN_PROCESS, MHI_PM_LD_ERR_FATAL_DETECT]"

definition pm_level :: "u32 \<Rightarrow> nat" where
  "pm_level s =
     (if s = MHI_PM_LD_ERR_FATAL_DETECT then 3
      else if s = MHI_PM_SHUTDOWN_PROCESS then 2
      else if s = MHI_PM_SYS_ERR_DETECT \<or> s = MHI_PM_SYS_ERR_PROCESS then 1
      else 0)"

text \<open>The first state of each level above 0.\<close>

definition pm_level_entry :: "u32 \<Rightarrow> bool" where
  "pm_level_entry s \<longleftrightarrow>
     s = MHI_PM_SYS_ERR_DETECT \<or> s = MHI_PM_SHUTDOWN_PROCESS \<or> s = MHI_PM_LD_ERR_FATAL_DETECT"

text \<open>The transitions the comment lists one by one.\<close>

definition pm_listed :: "(u32 \<times> u32) list" where
  "pm_listed =
    [(MHI_PM_DISABLE, MHI_PM_POR), (MHI_PM_POR, MHI_PM_DISABLE), (MHI_PM_POR, MHI_PM_POR),
     (MHI_PM_POR, MHI_PM_M0), (MHI_PM_M0, MHI_PM_M2), (MHI_PM_M2, MHI_PM_M0),
     (MHI_PM_POR, MHI_PM_FW_DL_ERR), (MHI_PM_FW_DL_ERR, MHI_PM_FW_DL_ERR),
     (MHI_PM_M0, MHI_PM_FW_DL_ERR), (MHI_PM_M0, MHI_PM_M3_ENTER), (MHI_PM_M3_ENTER, MHI_PM_M3),
     (MHI_PM_M3, MHI_PM_M3_EXIT), (MHI_PM_M3_EXIT, MHI_PM_M0),
     (MHI_PM_SYS_ERR_DETECT, MHI_PM_SYS_ERR_PROCESS), (MHI_PM_SYS_ERR_PROCESS, MHI_PM_POR),
     (MHI_PM_SHUTDOWN_PROCESS, MHI_PM_DISABLE),
     (MHI_PM_LD_ERR_FATAL_DETECT, MHI_PM_LD_ERR_FATAL_DETECT),
     (MHI_PM_LD_ERR_FATAL_DETECT, MHI_PM_SHUTDOWN_PROCESS)]"

inductive pm_documented :: "u32 \<Rightarrow> u32 \<Rightarrow> bool" where
  listed: "(s, t) \<in> set pm_listed \<Longrightarrow> pm_documented s t"
| escalate: "s \<noteq> MHI_PM_DISABLE \<Longrightarrow> pm_level s < pm_level t \<Longrightarrow> pm_level_entry t \<Longrightarrow>
    pm_documented s t"

inductive_simps pm_documented_iff: "pm_documented s t"

subsection \<open>Properties\<close>

lemma find_last_bit_pm [simp]:
  "find_last_bit 0x1 32 = 0" "find_last_bit 0x2 32 = 1" "find_last_bit 0x4 32 = 2"
  "find_last_bit 0x8 32 = 3" "find_last_bit 0x10 32 = 4" "find_last_bit 0x20 32 = 5"
  "find_last_bit 0x40 32 = 6" "find_last_bit 0x80 32 = 7" "find_last_bit 0x100 32 = 8"
  "find_last_bit 0x200 32 = 9" "find_last_bit 0x400 32 = 10" "find_last_bit 0x800 32 = 11"
  by code_simp+

lemma pm_next_all:
  "\<forall>s \<in> set pm_states. \<forall>t \<in> set pm_states. pm_next s t = (if pm_documented s t then t else s)"
  by (simp add: pm_states_def pm_next_def mhi_state_transitions_def pm_consts pm_documented_iff
      pm_listed_def pm_level_def pm_level_entry_def)

lemma pm_next_cases: "pm_next s t = t \<or> pm_next s t = s"
  by (simp add: pm_next_def Let_def)

lemma pm_next_states: "s \<in> set pm_states \<Longrightarrow> t \<in> set pm_states \<Longrightarrow> pm_next s t \<in> set pm_states"
  using pm_next_cases [of s t] by auto

lemma pm_states_mem [simp]:
  "MHI_PM_DISABLE \<in> set pm_states" "MHI_PM_POR \<in> set pm_states" "MHI_PM_M0 \<in> set pm_states"
  "MHI_PM_M2 \<in> set pm_states" "MHI_PM_M3_ENTER \<in> set pm_states" "MHI_PM_M3 \<in> set pm_states"
  "MHI_PM_M3_EXIT \<in> set pm_states" "MHI_PM_FW_DL_ERR \<in> set pm_states"
  "MHI_PM_SYS_ERR_DETECT \<in> set pm_states" "MHI_PM_SYS_ERR_PROCESS \<in> set pm_states"
  "MHI_PM_SHUTDOWN_PROCESS \<in> set pm_states" "MHI_PM_LD_ERR_FATAL_DETECT \<in> set pm_states"
  by (simp_all add: pm_states_def)

lemma mhi_tryset_fst [simp]: "fst (mhi_tryset_pm_state t c) = pm_next (pm_state c) t"
  and mhi_tryset_snd [simp]: "snd (mhi_tryset_pm_state t c) = c\<lparr>pm_state := pm_next (pm_state c) t\<rparr>"
  by (simp_all add: mhi_tryset_pm_state_def Let_def)

text \<open>
  (C1) The transition table with its lookup by \<^verbatim>\<open>find_last_bit\<close> implements the machine the comment
  describes: a request for a state from a state moves there exactly when the description allows the
  move, and leaves everything as it was otherwise.
\<close>

theorem mhi_tryset_refines_documented:
  assumes "pm_state c \<in> set pm_states" and "t \<in> set pm_states"
  shows "mhi_tryset_pm_state t c =
    (if pm_documented (pm_state c) t then (t, c\<lparr>pm_state := t\<rparr>) else (pm_state c, c))"
  using assms pm_next_all by (simp add: mhi_tryset_pm_state_def Let_def)

text \<open>A run of the machine: requests in sequence, from whichever thread.\<close>

inductive pm_run :: "u32 \<Rightarrow> u32 list \<Rightarrow> u32 \<Rightarrow> bool" where
  stop: "pm_run s [] s"
| request: "t \<in> set pm_states \<Longrightarrow> pm_run (pm_next s t) ts u \<Longrightarrow> pm_run s (t # ts) u"

inductive_cases pm_run_ConsE: "pm_run s (t # ts) u"

lemma pm_next_dead:
  "s \<in> {MHI_PM_SHUTDOWN_PROCESS, MHI_PM_LD_ERR_FATAL_DETECT} \<Longrightarrow> t \<in> set pm_states \<Longrightarrow> t \<noteq> MHI_PM_DISABLE \<Longrightarrow>
   pm_next s t \<in> {MHI_PM_SHUTDOWN_PROCESS, MHI_PM_LD_ERR_FATAL_DETECT}"
  by (auto simp: pm_states_def pm_next_def mhi_state_transitions_def pm_consts)

text \<open>
  (C30) Whatever sequence of requests arrives, the host's power state stays one of the machine's states;
  and once it is shutting down or the link is lost for good, no sequence of requests brings it back to
  any working, suspended or error-handling state without going through DISABLE first.
\<close>

theorem pm_run_safe:
  assumes "pm_run s ts u" and "s \<in> set pm_states"
  shows "u \<in> set pm_states \<and>
    (s \<in> {MHI_PM_SHUTDOWN_PROCESS, MHI_PM_LD_ERR_FATAL_DETECT} \<and> MHI_PM_DISABLE \<notin> set ts \<longrightarrow>
       u \<in> {MHI_PM_SHUTDOWN_PROCESS, MHI_PM_LD_ERR_FATAL_DETECT})"
  using assms
proof (induction rule: pm_run.induct)
  case (stop s)
  then show ?case by simp
next
  case (request t s ts u)
  then show ?case using pm_next_states [of s t] pm_next_dead [of s t] by auto
qed

theorem pm_run_safe_witness:
  "MHI_PM_LD_ERR_FATAL_DETECT \<in> set pm_states \<and> pm_run MHI_PM_LD_ERR_FATAL_DETECT [MHI_PM_M0] MHI_PM_LD_ERR_FATAL_DETECT"
proof -
  have "pm_next MHI_PM_LD_ERR_FATAL_DETECT MHI_PM_M0 = MHI_PM_LD_ERR_FATAL_DETECT"
    by (simp add: pm_next_def mhi_state_transitions_def pm_consts)
  then have "pm_run MHI_PM_LD_ERR_FATAL_DETECT [MHI_PM_M0] MHI_PM_LD_ERR_FATAL_DETECT"
    using pm_run.request [OF pm_states_mem(3) pm_run.stop] by metis
  from pm_run_safe [OF this] this show ?thesis by simp
qed

end
