(* ===== verification/MHI_Init.thy ===== *)
theory MHI_Init
  imports MHI_Config MHI_PMState
begin

text \<open>
  Setting up and tearing down the structures shared with the device (\<^verbatim>\<open>core/mhi_init.c\<close>): the
  device context in the control segment, the interrupt lines, the context of one channel, and the
  programming of the MMIO registers. What an allocation or \<^verbatim>\<open>request_irq\<close> returns is an argument.
\<close>

subsection \<open>Ring alignment check\<close>

text \<open>The kernel's \<^verbatim>\<open>roundup_pow_of_two\<close>, by doubling from 1; 64 doublings cover every 64-bit length.\<close>

fun roundup_pow2_from :: "nat \<Rightarrow> int \<Rightarrow> int \<Rightarrow> int" where
  "roundup_pow2_from 0 n k = k"
| "roundup_pow2_from (Suc i) n k = (if n \<le> k then k else roundup_pow2_from i n (2 * k))"

definition roundup_pow_of_two :: "int \<Rightarrow> int" where
  "roundup_pow_of_two n = roundup_pow2_from 64 n 1"

definition mhi_ring_aligned_check :: "u64 \<Rightarrow> u64 \<Rightarrow> bool" where
  "mhi_ring_aligned_check rbase rlen \<longleftrightarrow>
     (let p = roundup_pow_of_two (uint rlen); ra = uint rbase div p in uint rbase = ra * p)"

subsection \<open>Device context\<close>

text \<open>\<^verbatim>\<open>memset(ring->base, 0xCC, ring->len)\<close>\<close>

definition tre_cc :: mhi_tre where
  "tre_cc = \<lparr>tre_ptr = 0xCCCCCCCCCCCCCCCC, tre_dword0 = 0xCCCCCCCC, tre_dword1 = 0xCCCCCCCC\<rparr>"

definition ring_memset :: "mhi_tre \<Rightarrow> mhi_tre mhi_ring \<Rightarrow> mhi_tre mhi_ring" where
  "ring_memset e r =
     r\<lparr>ring_mem := (\<lambda>a. if ring_base r \<le> a \<and> a < ring_base r + ring_len r then e else ring_mem r a)\<rparr>"

text \<open>Binding a ring to the slice of the control segment at byte offset \<open>off\<close>.\<close>

definition ring_bind :: "u64 \<Rightarrow> u64 \<Rightarrow> int \<Rightarrow> mhi_tre mhi_ring \<Rightarrow> mhi_tre mhi_ring" where
  "ring_bind seg seg_addr off r =
     (let len = 16 * ring_elements r; iommu = seg_addr + word_of_int off; b = seg + word_of_int off
      in r\<lparr>ring_el_size := 16, ring_len := len, ring_iommu_base := iommu, ring_base := b,
           ring_rp := b, ring_wp := b, ring_ctxt_rbase := iommu, ring_ctxt_rp := iommu,
           ring_ctxt_wp := iommu, ring_ctxt_rlen := len\<rparr>)"

definition init_chan_entry :: "u64 \<Rightarrow> nat \<Rightarrow> mhi_chan \<Rightarrow> mhi_chan" where
  "init_chan_entry seg i ch =
     (if offload_ch ch then ch
      else ch\<lparr>cc_chstate := MHI_CH_STATE_DISABLED, cc_brstmode := brstmode (ch_db_cfg ch),
              cc_pollcfg := pollcfg (ch_db_cfg ch) AND 0x3F, cc_chtype := ch_type ch,
              cc_erindex := ch_er_index ch, ch_state := MHI_CH_STATE_DISABLED,
              tre_ring := (tre_ring ch)\<lparr>ring_db_addr := seg + word_of_int (off_chan_ctxt + 44 * int i + 36)\<rparr>\<rparr>)"

definition init_event_entry :: "u32 \<Rightarrow> u64 \<Rightarrow> u64 \<Rightarrow> nat \<Rightarrow> mhi_event \<Rightarrow> mhi_event" where
  "init_event_entry msi_alloc seg seg_addr i ev =
     (if offload_ev ev then ev
      else (let msi = if msi_alloc = 1 then 0 else ev_msi ev
            in ev\<lparr>ec_intmodc := 0, ec_intmodt := ev_intmod ev AND 0xFFFF, ec_ertype := 1,
                  ev_msi := msi, ec_msivec := msi,
                  ev_db_cfg := (ev_db_cfg ev)\<lparr>db_mode := True\<rparr>,
                  ev_ring := ring_memset tre_cc
                    (ring_bind seg seg_addr (off_event_ring + int i * NUM_MHI_EVT_RING_ELEMENTS * 16) (ev_ring ev))\<rparr>))"

definition mhi_init_dev_ctxt ::
  "bool \<Rightarrow> (u64 \<times> u64) option \<Rightarrow> mhi_controller \<Rightarrow> unit res \<times> mhi_controller" where
  "mhi_init_dev_ctxt alloc_ctxt alloc_seg c =
     (let c0 = c\<lparr>dev_wake := 0, pending_pkts := 0\<rparr>
      in if \<not> alloc_ctxt then (Inl ENOMEM, c0)
         else case alloc_seg of
           None \<Rightarrow> (Inl ENOMEM, emit (Kfree 0) c0)
         | Some (seg, seg_addr) \<Rightarrow>
             if seg AND 0xFFF \<noteq> 0 then (Inl ENOMEM, emit (Kfree 0) (emit (FreeCoherent seg) c0))
             else (Inr (),
               c0\<lparr>ctrl_seg := seg, ctrl_seg_addr := seg_addr,
                  chan_ctxt_addr := seg_addr + word_of_int off_chan_ctxt,
                  er_ctxt_addr := seg_addr + word_of_int off_er_ctxt,
                  cmd_ctxt_addr := seg_addr + word_of_int off_cmd_ctxt,
                  mhi_chans := map (\<lambda>(i, ch). init_chan_entry seg i ch) (enumerate 0 (mhi_chans c0)),
                  mhi_events := map (\<lambda>(i, ev). init_event_entry (msi_allocated c0) seg seg_addr i ev)
                    (enumerate 0 (mhi_events c0)),
                  mhi_cmd := ring_bind seg seg_addr off_cmd_ring
                    ((mhi_cmd c0)\<lparr>ring_elements := CMD_EL_PER_RING\<rparr>),
                  has_ctxt := True\<rparr>))"

definition mhi_deinit_dev_ctxt :: "mhi_controller \<Rightarrow> mhi_controller" where
  "mhi_deinit_dev_ctxt c =
     (let c1 = c\<lparr>mhi_cmd := (mhi_cmd c)\<lparr>ring_base := 0, ring_iommu_base := 0\<rparr>,
                 mhi_events := map (\<lambda>ev. if offload_ev ev then ev
                   else ev\<lparr>ev_ring := (ev_ring ev)\<lparr>ring_base := 0, ring_iommu_base := 0\<rparr>\<rparr>) (mhi_events c)\<rparr>
      in (emit (Kfree 0) (emit (FreeCoherent (ctrl_seg c)) c1))\<lparr>has_ctxt := False\<rparr>)"

subsection \<open>Interrupt lines\<close>

definition mhi_deinit_free_irq :: "mhi_controller \<Rightarrow> mhi_controller" where
  "mhi_deinit_free_irq c =
     (if msi_allocated c = 1 then emit (FreeIrq (msi_irq_base c)) c
      else emit (FreeIrq (msi_irq_base c))
             (fold (\<lambda>ev c. if offload_ev ev then c else emit (FreeIrq (ev_msi ev)) c) (mhi_events c) c))"

text \<open>
  The loop of \<^verbatim>\<open>mhi_init_irq_setup\<close>: \<open>req\<close> says for each vector whether the request succeeds; on a
  failure the vectors obtained so far are freed, last one first, then vector 0.
\<close>

fun request_ev_irqs ::
  "(u32 \<Rightarrow> errno option) \<Rightarrow> mhi_event list \<Rightarrow> mhi_event list \<Rightarrow> mhi_controller \<Rightarrow> unit res \<times> mhi_controller" where
  "request_ev_irqs req got [] c = (Inr (), c)"
| "request_ev_irqs req got (ev # evs) c =
     (if offload_ev ev then request_ev_irqs req (ev # got) evs c
      else case req (ev_msi ev) of
        None \<Rightarrow> request_ev_irqs req (ev # got) evs (emit (RequestIrq (ev_msi ev)) c)
      | Some e \<Rightarrow> (Inl e, emit (FreeIrq 0)
          (fold (\<lambda>ev c. if offload_ev ev then c else emit (FreeIrq (ev_msi ev)) c) got c)))"

definition mhi_init_irq_setup ::
  "(u32 \<Rightarrow> errno option) \<Rightarrow> (u32 \<Rightarrow> errno option) \<Rightarrow> mhi_controller \<Rightarrow> unit res \<times> mhi_controller" where
  "mhi_init_irq_setup req_threaded req c =
     (if msi_allocated c = 1
      then (let c1 = c\<lparr>mhi_events := map (\<lambda>ev. ev\<lparr>ev_msi := 0\<rparr>) (mhi_events c)\<rparr>
            in case req_threaded 0 of None \<Rightarrow> (Inr (), emit (RequestIrq 0) c1) | Some e \<Rightarrow> (Inl e, c1))
      else case req_threaded (msi_irq_base c) of
             Some e \<Rightarrow> (Inl e, c)
           | None \<Rightarrow> request_ev_irqs req [] (mhi_events c) (emit (RequestIrq (msi_irq_base c)) c))"

subsection \<open>Channel context\<close>

definition chan_ring_offset :: "mhi_chan \<Rightarrow> int" where
  "chan_ring_offset ch =
     (if chan ch = MHI_CLIENT_IP_HW_0_IN then off_hw_in_chan_ring + 16 * uint (ch_ring ch)
      else if chan ch = MHI_CLIENT_IP_HW_0_OUT then off_hw_out_chan_ring + 16 * uint (ch_ring ch)
      else if chan ch = MHI_CLIENT_DIAG_IN then off_diag_in_chan_ring + 16 * uint (ch_ring ch)
      else off_chan_ring + 16 * uint (ch_ring ch))"

text \<open>\<open>buf\<close>: what \<^verbatim>\<open>kzalloc\<close> returns for the local buffer ring, \<^verbatim>\<open>NULL\<close> as \<open>None\<close>. A
  \<^verbatim>\<open>struct mhi_buf_info\<close> has 56 bytes.\<close>

definition mhi_init_chan_ctxt ::
  "u64 option \<Rightarrow> mhi_controller \<Rightarrow> mhi_chan \<Rightarrow> unit res \<times> mhi_chan" where
  "mhi_init_chan_ctxt buf c ch =
     (let off = chan_ring_offset ch; tr = tre_ring ch; br = buf_ring ch;
          iommu = ctrl_seg_addr c + word_of_int off; b = ctrl_seg c + word_of_int off;
          len = 16 * ring_elements tr;
          ch1 = ch\<lparr>tre_ring := tr\<lparr>ring_el_size := 16, ring_len := len, ring_iommu_base := iommu, ring_base := b\<rparr>,
                   buf_ring := br\<lparr>ring_el_size := 56, ring_len := 56 * ring_elements br,
                     ring_base := (case buf of None \<Rightarrow> 0 | Some a \<Rightarrow> a)\<rparr>\<rparr>
      in case buf of
           None \<Rightarrow> (Inl ENOMEM, ch1)
         | Some a \<Rightarrow>
             (Inr (),
              ch1\<lparr>cc_chstate := MHI_CH_STATE_ENABLED,
                  tre_ring := (tre_ring ch1)\<lparr>ring_ctxt_rbase := iommu, ring_ctxt_rp := iommu,
                    ring_ctxt_wp := iommu, ring_ctxt_rlen := len, ring_rp := b, ring_wp := b\<rparr>,
                  buf_ring := (buf_ring ch1)\<lparr>ring_rp := a, ring_wp := a, ring_mem := (\<lambda>_. zero_buf_info)\<rparr>,
                  ch_db_cfg := (ch_db_cfg ch1)\<lparr>db_mode := True\<rparr>\<rparr>))"

definition mhi_deinit_chan_ctxt :: "mhi_chan \<Rightarrow> mhi_controller \<Rightarrow> mhi_chan \<times> mhi_controller" where
  "mhi_deinit_chan_ctxt ch c =
     (ch\<lparr>buf_ring := (buf_ring ch)\<lparr>ring_base := 0\<rparr>,
         tre_ring := (tre_ring ch)\<lparr>ring_base := 0, ring_ctxt_rbase := 0\<rparr>\<rparr>,
      emit (Kfree (ring_base (buf_ring ch))) c)"

subsection \<open>MMIO programming\<close>

definition reg_info :: "mhi_controller \<Rightarrow> (u32 \<times> u32) list" where
  "reg_info c =
    [(CCABAP_HIGHER, upper_32_bits (chan_ctxt_addr c)), (CCABAP_LOWER, lower_32_bits (chan_ctxt_addr c)),
     (ECABAP_HIGHER, upper_32_bits (er_ctxt_addr c)), (ECABAP_LOWER, lower_32_bits (er_ctxt_addr c)),
     (CRCBAP_HIGHER, upper_32_bits (cmd_ctxt_addr c)), (CRCBAP_LOWER, lower_32_bits (cmd_ctxt_addr c)),
     (MHICTRLBASE_HIGHER, upper_32_bits (ctrl_seg_addr c)),
     (MHICTRLBASE_LOWER, lower_32_bits (ctrl_seg_addr c)),
     (MHIDATABASE_HIGHER, upper_32_bits (iova_start c)), (MHIDATABASE_LOWER, lower_32_bits (iova_start c)),
     (MHICTRLLIMIT_HIGHER, upper_32_bits (ctrl_seg_addr c + word_of_int sizeof_mhi_ctrl_seg)),
     (MHICTRLLIMIT_LOWER, lower_32_bits (ctrl_seg_addr c + word_of_int sizeof_mhi_ctrl_seg)),
     (MHIDATALIMIT_HIGHER, upper_32_bits (iova_stop c)), (MHIDATALIMIT_LOWER, lower_32_bits (iova_stop c))]"

definition set_chan_dbs :: "u64 \<Rightarrow> u32 \<Rightarrow> mhi_chan list \<Rightarrow> mhi_chan list" where
  "set_chan_dbs b val chs =
     map (\<lambda>(i, ch). ch\<lparr>tre_ring := (tre_ring ch)\<lparr>ring_db_addr := b + ucast (val + 8 * word_of_nat i)\<rparr>\<rparr>)
       (enumerate 0 chs)"

definition set_ev_dbs :: "u64 \<Rightarrow> u32 \<Rightarrow> mhi_event list \<Rightarrow> mhi_event list" where
  "set_ev_dbs b val evs =
     map (\<lambda>(i, ev). if offload_ev ev then ev
        else ev\<lparr>ev_ring := (ev_ring ev)\<lparr>ring_db_addr := b + ucast (val + 8 * word_of_nat i)\<rparr>\<rparr>)
       (enumerate 0 evs)"

definition mhi_init_mmio :: "mhi_controller \<Rightarrow> unit res \<times> mhi_controller" where
  "mhi_init_mmio c =
     (let b = regs c; info = reg_info c
      in case mhi_read_reg_field c b CHDBOFF CHDBOFF_CHDBOFF_MASK CHDBOFF_CHDBOFF_SHIFT of
           Inl _ \<Rightarrow> (Inl EIO, c)
         | Inr val \<Rightarrow>
             (let c1 = c\<lparr>wake_db := b + ucast val + 8 * ucast MHI_DEV_WAKE_DB,
                         mhi_chans := set_chan_dbs b val (mhi_chans c)\<rparr>
              in case mhi_read_reg_field c1 b ERDBOFF ERDBOFF_ERDBOFF_MASK ERDBOFF_ERDBOFF_SHIFT of
                   Inl _ \<Rightarrow> (Inl EIO, c1)
                 | Inr val' \<Rightarrow>
                     (let c2 = c1\<lparr>mhi_events := set_ev_dbs b val' (mhi_events c1),
                                  mhi_cmd := (mhi_cmd c1)\<lparr>ring_db_addr := b + ucast CRDB_LOWER\<rparr>\<rparr>
                      in (Inr (), fold (\<lambda>(off, v) c. mhi_write_reg_field b off U32_MAX 0 v c) info c2))))"

subsection \<open>Layout of the control segment\<close>

text \<open>Offset and length in bytes of the slices the configuration hands out.\<close>

definition chan_span :: "mhi_chan \<Rightarrow> int \<times> int" where
  "chan_span ch = (chan_ring_offset ch, 16 * uint (ring_elements (tre_ring ch)))"

definition ev_span :: "nat \<Rightarrow> mhi_event \<Rightarrow> int \<times> int" where
  "ev_span i ev =
     (off_event_ring + int i * NUM_MHI_EVT_RING_ELEMENTS * 16, 16 * uint (ring_elements (ev_ring ev)))"

definition ring_spans :: "mhi_chan list \<Rightarrow> mhi_event list \<Rightarrow> (int \<times> int) list" where
  "ring_spans chs evs =
     map chan_span (filter configured chs) @
     map (\<lambda>(i, ev). ev_span i ev) (enumerate 0 evs) @
     [(off_cmd_ring, 16 * uint CMD_EL_PER_RING), (off_chan_ctxt, 44 * NUM_MHI_XFER_RINGS),
      (off_er_ctxt, 44 * int MAX_EVT_RING_IDX), (off_cmd_ctxt, 44)]"

fun spans_disjoint :: "(int \<times> int) list \<Rightarrow> bool" where
  "spans_disjoint [] = True"
| "spans_disjoint ((o1, l1) # xs) =
     (list_all (\<lambda>(o2, l2). o1 + l1 \<le> o2 \<or> o2 + l2 \<le> o1) xs \<and> spans_disjoint xs)"

definition spans_inside :: "int \<Rightarrow> (int \<times> int) list \<Rightarrow> bool" where
  "spans_inside n = list_all (\<lambda>(off, len). off + len \<le> n)"

text \<open>The rings, not the contexts, must lie on a multiple of their length rounded up.\<close>

definition rings_aligned :: "mhi_chan list \<Rightarrow> mhi_event list \<Rightarrow> bool" where
  "rings_aligned chs evs \<longleftrightarrow>
     list_all (\<lambda>ch. let (off, len) = chan_span ch in off mod roundup_pow_of_two len = 0) (filter configured chs) \<and>
     list_all (\<lambda>(i, ev). let (off, len) = ev_span i ev in off mod roundup_pow_of_two len = 0) (enumerate 0 evs)"

definition layout_ok :: "mhi_chan list \<Rightarrow> mhi_event list \<Rightarrow> bool" where
  "layout_ok chs evs \<longleftrightarrow>
     spans_disjoint (ring_spans chs evs) \<and> spans_inside sizeof_mhi_ctrl_seg (ring_spans chs evs) \<and>
     rings_aligned chs evs"

definition parsed_layout_ok :: "bool \<Rightarrow> bool \<Rightarrow> bool" where
  "parsed_layout_ok mbim use_dma \<longleftrightarrow>
     (case ch_cfg_loop mbim use_dma chan_cfg 0 (replicate MHI_MAX_CHANNELS zero_chan) of
        Inl _ \<Rightarrow> False
      | Inr chs \<Rightarrow> layout_ok chs (map (ev_cfg_entry chs 0) [0..<MAX_EVT_RING_IDX]))"

lemma parsed_layout_ok_cases:
  "parsed_layout_ok False False" "parsed_layout_ok False True"
  "parsed_layout_ok True False" "parsed_layout_ok True True"
  by code_simp+

text \<open>
  (C31) The built-in configuration always parses, and it lays the control segment out correctly: the
  transfer rings of all configured channels, the event rings, the command ring and the three
  context arrays lie inside the segment, no two of them overlap, and every transfer and event ring
  starts at a multiple of its length rounded up to a power of two.
\<close>

theorem of_parse_dt_layout:
  "\<exists>c'. of_parse_dt True True mbim use_dma c = (Inr (), c') \<and>
        layout_ok (mhi_chans c') (mhi_events c')"
proof -
  have ok: "parsed_layout_ok mbim use_dma"
    using parsed_layout_ok_cases by (cases mbim; cases use_dma) simp_all
  then obtain chs where
      "ch_cfg_loop mbim use_dma chan_cfg 0 (replicate MHI_MAX_CHANNELS zero_chan) = Inr chs"
    and "layout_ok chs (map (ev_cfg_entry chs 0) [0..<MAX_EVT_RING_IDX])"
    by (auto simp: parsed_layout_ok_def split: sum.splits)
  then show ?thesis
    by (simp add: of_parse_dt_def of_parse_ch_cfg_def of_parse_ev_cfg_def Let_def)
qed

subsection \<open>Fresh rings\<close>

lemma ring_geomI:
  assumes "unat b + n * e < 2 ^ 64" and "0 < e" and "0 < n"
    and "ring_base r = b" and "ring_el_size r = word_of_nat e" and "ring_elements r = word_of_nat n"
    and "ring_len r = word_of_nat (n * e)"
  shows "ring_geom r"
proof -
  have "n \<le> n * e" and "e \<le> n * e" using assms(2,3) by simp_all
  then have "n < 2 ^ 64" "e < 2 ^ 64" "n * e < 2 ^ 64" using assms(1) by linarith+
  then have "unat (word_of_nat n :: u64) = n" "unat (word_of_nat e :: u64) = e"
    "unat (word_of_nat (n * e) :: u64) = n * e"
    by (simp_all add: unat_of_nat del: of_nat_mult)
  with assms show ?thesis by (simp add: ring_geom_def)
qed

lemma fresh_ring_wf:
  "ring_geom r \<Longrightarrow> ring_rp r = ring_base r \<Longrightarrow> ring_wp r = ring_base r \<Longrightarrow> ring_wf r \<and> ring_list r = []"
proof -
  assume g: "ring_geom r" and p: "ring_rp r = ring_base r" "ring_wp r = ring_base r"
  have "valid_ptr r (ring_base r)"
    using g ring_slot_valid(1) [of r 0] by (simp add: ring_slot_def ring_geom_def)
  then have "ring_wf r" using g p by (simp add: ring_wf_def)
  then show ?thesis using p ring_used_zero_iff [of r] by (simp add: ring_list_def)
qed

lemma mhi_init_chan_ctxt_fresh:
  assumes "mhi_init_chan_ctxt (Some a) c ch = (r, ch')"
    and "ring_elements (tre_ring ch) = word_of_nat n" and "ring_elements (buf_ring ch) = word_of_nat n"
    and "0 < n"
    and "unat (ctrl_seg c + word_of_int (chan_ring_offset ch)) + n * 16 < 2 ^ 64"
    and "unat a + n * 56 < 2 ^ 64"
  shows "r = Inr () \<and> ring_wf (tre_ring ch') \<and> ring_list (tre_ring ch') = [] \<and>
    ring_wf (buf_ring ch') \<and> ring_list (buf_ring ch') = [] \<and>
    slots (tre_ring ch') = n \<and> slots (buf_ring ch') = n \<and> cc_chstate ch' = MHI_CH_STATE_ENABLED \<and>
    ring_ctxt_rp (tre_ring ch') = mhi_to_physical (tre_ring ch') (ring_rp (tre_ring ch')) \<and>
    ring_ctxt_wp (tre_ring ch') = mhi_to_physical (tre_ring ch') (ring_wp (tre_ring ch'))"
proof -
  have n: "n < 2 ^ 64" using assms(4,6) by simp
  have r: "r = Inr ()" and
    t: "ring_base (tre_ring ch') = ctrl_seg c + word_of_int (chan_ring_offset ch)"
       "ring_el_size (tre_ring ch') = word_of_nat 16" "ring_elements (tre_ring ch') = word_of_nat n"
       "ring_len (tre_ring ch') = word_of_nat (n * 16)"
       "ring_rp (tre_ring ch') = ring_base (tre_ring ch')" "ring_wp (tre_ring ch') = ring_base (tre_ring ch')"
       "ring_ctxt_rp (tre_ring ch') = ring_iommu_base (tre_ring ch')"
       "ring_ctxt_wp (tre_ring ch') = ring_iommu_base (tre_ring ch')"
    and b: "ring_base (buf_ring ch') = a"
       "ring_el_size (buf_ring ch') = word_of_nat 56" "ring_elements (buf_ring ch') = word_of_nat n"
       "ring_len (buf_ring ch') = word_of_nat (n * 56)"
       "ring_rp (buf_ring ch') = ring_base (buf_ring ch')" "ring_wp (buf_ring ch') = ring_base (buf_ring ch')"
    and st: "cc_chstate ch' = MHI_CH_STATE_ENABLED"
    using assms(1-3) by (auto simp: mhi_init_chan_ctxt_def Let_def)
  have "ring_geom (tre_ring ch')" by (rule ring_geomI [where n = n and e = 16]) (use assms(4,5) t in auto)
  moreover have "ring_geom (buf_ring ch')" by (rule ring_geomI [where n = n and e = 56]) (use assms(4,6) b in auto)
  ultimately show ?thesis
    using r st fresh_ring_wf [of "tre_ring ch'"] fresh_ring_wf [of "buf_ring ch'"] t b n
    by (simp add: mhi_to_physical_def unat_of_nat)
qed

text \<open>
  (C33) Initialising a channel context with enough address space behind both rings makes them
  well-formed and empty, of the configured size, and enables the channel context; the shared read
  and write pointers agree with the local ones.
\<close>

theorem mhi_init_chan_ctxt_wf:
  assumes "mhi_init_chan_ctxt (Some a) c ch = (r, ch')"
    and "ring_elements (tre_ring ch) = word_of_nat n" and "ring_elements (buf_ring ch) = word_of_nat n"
    and "0 < n"
    and "unat (ctrl_seg c + word_of_int (chan_ring_offset ch)) + n * 16 < 2 ^ 64"
    and "unat a + n * 56 < 2 ^ 64"
  shows "r = Inr () \<and> ring_wf (tre_ring ch') \<and> ring_list (tre_ring ch') = [] \<and>
    ring_wf (buf_ring ch') \<and> ring_list (buf_ring ch') = [] \<and>
    slots (tre_ring ch') = n \<and> slots (buf_ring ch') = n \<and> cc_chstate ch' = MHI_CH_STATE_ENABLED \<and>
    ring_ctxt_rp (tre_ring ch') = mhi_to_physical (tre_ring ch') (ring_rp (tre_ring ch')) \<and>
    ring_ctxt_wp (tre_ring ch') = mhi_to_physical (tre_ring ch') (ring_wp (tre_ring ch'))"
  using assms by (rule mhi_init_chan_ctxt_fresh)

subsection \<open>Registers\<close>

lemma U32_MAX_minus_1: "U32_MAX = - 1"
  by code_simp

lemma mhi_write_reg_field_full:
  "\<not> link_down c \<Longrightarrow> mhi_write_reg_field b off U32_MAX 0 v c = mhi_write_reg b off v c"
  by (simp add: mhi_write_reg_field_def mhi_read_reg_ok U32_MAX_minus_1)

lemma write_regs_fold:
  assumes "\<not> link_down c"
  shows "fold (\<lambda>(off, v) c. mhi_write_reg_field b off U32_MAX 0 v c) rs c =
      fold (\<lambda>(off, v) c. mhi_write_reg b off v c) rs c"
  using assms
  by (induction rs arbitrary: c) (auto simp: mhi_write_reg_field_full)

lemma write_regs_mmio:
  "mmio (fold (\<lambda>(off, v) c. mhi_write_reg b off v c) rs c) =
     fold (\<lambda>(off, v) m. m(b + ucast off := v)) rs (mmio c)"
  by (induction rs arbitrary: c) auto

text \<open>
  While the link is up, programming the MMIO registers succeeds and leaves in the device
  registers exactly the addresses of the channel, event and command context arrays and the bounds
  of the control and data segments: the two halves of each register pair put together give the
  64-bit address back.
\<close>

theorem mhi_init_mmio_registers:
  assumes up: "\<not> link_down c" and run: "mhi_init_mmio c = (r, c')"
  shows "r = Inr () \<and>
    push_bit 32 (ucast (mmio c' (regs c + ucast CCABAP_HIGHER))) OR ucast (mmio c' (regs c + ucast CCABAP_LOWER))
      = chan_ctxt_addr c \<and>
    push_bit 32 (ucast (mmio c' (regs c + ucast ECABAP_HIGHER))) OR ucast (mmio c' (regs c + ucast ECABAP_LOWER))
      = er_ctxt_addr c \<and>
    push_bit 32 (ucast (mmio c' (regs c + ucast CRCBAP_HIGHER))) OR ucast (mmio c' (regs c + ucast CRCBAP_LOWER))
      = cmd_ctxt_addr c \<and>
    push_bit 32 (ucast (mmio c' (regs c + ucast MHICTRLBASE_HIGHER))) OR ucast (mmio c' (regs c + ucast MHICTRLBASE_LOWER))
      = ctrl_seg_addr c \<and>
    push_bit 32 (ucast (mmio c' (regs c + ucast MHICTRLLIMIT_HIGHER))) OR ucast (mmio c' (regs c + ucast MHICTRLLIMIT_LOWER))
      = ctrl_seg_addr c + word_of_int sizeof_mhi_ctrl_seg"
proof -
  have fin: "r = Inr ()" "mmio c' = fold (\<lambda>(off, v) m. m(regs c + ucast off := v)) (reg_info c) (mmio c)"
    using run up
    by (auto simp: mhi_init_mmio_def Let_def mhi_read_reg_field_def mhi_read_reg_ok write_regs_fold
        write_regs_mmio)
  show ?thesis
    by (simp add: fin reg_info_def mhi_consts upper_lower_32_bits)
qed

subsection \<open>Interrupt lines\<close>

definition irqs_held :: "effect list \<Rightarrow> u32 list" where
  "irqs_held es = fold (\<lambda>e held. case e of RequestIrq v \<Rightarrow> v # held | FreeIrq v \<Rightarrow> remove1 v held | _ \<Rightarrow> held) es []"

lemma irqs_held_snoc [simp]:
  "irqs_held (es @ [RequestIrq v]) = v # irqs_held es"
  "irqs_held (es @ [FreeIrq v]) = remove1 v (irqs_held es)"
  by (simp_all add: irqs_held_def)

abbreviation free_ev_irq :: "mhi_event \<Rightarrow> mhi_controller \<Rightarrow> mhi_controller" where
  "free_ev_irq ev c \<equiv> if offload_ev ev then c else emit (FreeIrq (ev_msi ev)) c"

lemma free_ev_irqs:
  "irqs_held (trace c) = map ev_msi (filter (\<lambda>e. \<not> offload_ev e) got) @ rest \<Longrightarrow>
   irqs_held (trace (fold free_ev_irq got c)) = rest"
  by (induction got arbitrary: c) auto

lemma request_ev_irqs_error:
  "request_ev_irqs req got evs c = (Inl e, c') \<Longrightarrow>
   irqs_held (trace c) = map ev_msi (filter (\<lambda>e. \<not> offload_ev e) got) @ [0] \<Longrightarrow>
   irqs_held (trace c') = []"
proof (induction req got evs c rule: request_ev_irqs.induct)
  case (1 req got c)
  then show ?case by simp
next
  case (2 req got ev evs c)
  show ?case
  proof (cases "offload_ev ev")
    case True
    with 2 show ?thesis by simp
  next
    case False
    with 2 show ?thesis by (auto split: option.splits simp: free_ev_irqs)
  qed
qed

text \<open>
  When setting up the interrupt lines fails, no line stays requested: every vector obtained
  before the failure is freed again (the configuration puts the BHI vector at 0).
\<close>

theorem mhi_init_irq_setup_error:
  assumes "mhi_init_irq_setup req_threaded req c = (Inl e, c')"
    and "msi_irq_base c = 0" and "irqs_held (trace c) = []"
  shows "irqs_held (trace c') = []"
  using assms request_ev_irqs_error [of req "[]" "mhi_events c" "emit (RequestIrq 0) c" e c']
  by (auto simp: mhi_init_irq_setup_def Let_def split: if_splits option.splits)

end
