(* ===== verification/MHI_Xfer.thy ===== *)
theory MHI_Xfer
  imports MHI_Init MHI_TRE
begin

text \<open>
  The data path of a channel (\<^verbatim>\<open>core/mhi_main.c\<close>): queueing buffers, sending commands, completing
  transfers from device events, and resetting a channel.

  A channel keeps two rings in step: the transfer ring the device reads and the local ring of
  \<^verbatim>\<open>struct mhi_buf_info\<close>. \<open>dma_map\<close> stands for \<^verbatim>\<open>dma_map_single\<close> together with
  \<^verbatim>\<open>dma_mapping_error\<close>: it gives the bus address and whether the mapping failed. The client's
  callback is the effect \<open>XferCb\<close>; what the client does in it is not part of this step. The debug
  monitor (\<^verbatim>\<open>mon_bus_*\<close>) only copies elements and is left out.

  A loop that follows a pointer the device supplied may never meet it, so those loops are partial
  functions: \<open>None\<close> is a loop that does not end.
\<close>

type_synonym dma_map_fn = "u64 \<Rightarrow> u64 \<Rightarrow> dma_data_direction \<Rightarrow> u64 \<times> bool"

subsection \<open>Queueing\<close>

definition mhi_map_single_no_bb :: "dma_map_fn \<Rightarrow> mhi_buf_info \<Rightarrow> mhi_buf_info \<times> bool" where
  "mhi_map_single_no_bb dma_map bi =
     (let (a, err) = dma_map (v_addr bi) (bi_len bi) (bi_dir bi) in (bi\<lparr>p_addr := a\<rparr>, err))"

text \<open>Leaving M3 through the runtime PM framework, the wake doorbell, and the count of packets on
  their way to the device: the three steps all queueing functions share.\<close>

definition queue_runtime :: "mhi_controller \<Rightarrow> mhi_controller" where
  "queue_runtime c =
     (if MHI_PM_IN_SUSPEND_STATE (pm_state c) then emit RuntimePut (emit RuntimeGet c) else c)"

definition assert_wake :: "mhi_chan \<Rightarrow> mhi_controller \<Rightarrow> bool" where
  "assert_wake ch c \<longleftrightarrow>
     ch_dir ch = DMA_TO_DEVICE \<or> (ch_dir ch = DMA_FROM_DEVICE \<and> pm_state c \<noteq> MHI_PM_M0)"

definition queue_wake :: "mhi_chan \<Rightarrow> mhi_controller \<Rightarrow> mhi_controller" where
  "queue_wake ch c = (if assert_wake ch c then mhi_assert_dev_wake c else c)"

definition queue_unwake :: "mhi_chan \<Rightarrow> bool \<Rightarrow> mhi_controller \<Rightarrow> mhi_controller" where
  "queue_unwake ch asserted c =
     (if ch_dir ch = DMA_FROM_DEVICE \<and> asserted then mhi_deassert_dev_wake c else c)"

definition pending_inc :: "mhi_chan \<Rightarrow> mhi_controller \<Rightarrow> mhi_controller" where
  "pending_inc ch c =
     (if ch_dir ch = DMA_TO_DEVICE
      then (let c' = c\<lparr>pending_pkts := pending_pkts c + 1\<rparr>
            in if pending_pkts c' = 1 then emit RuntimeGet c' else c')
      else c)"

definition pending_dec :: "mhi_chan \<Rightarrow> mhi_controller \<Rightarrow> mhi_controller" where
  "pending_dec ch c =
     (if ch_dir ch = DMA_TO_DEVICE
      then (let c' = c\<lparr>pending_pkts := pending_pkts c - 1\<rparr>
            in if pending_pkts c' = 0 then emit RuntimePut c' else c')
      else c)"

text \<open>Filling the slot at the write pointers, and moving both pointers on.\<close>

definition chan_store :: "mhi_buf_info \<Rightarrow> mhi_tre \<Rightarrow> mhi_chan \<Rightarrow> mhi_chan" where
  "chan_store bi tre ch =
     ch\<lparr>buf_ring := ring_store bi (buf_ring ch), tre_ring := ring_store tre (tre_ring ch)\<rparr>"

definition chan_advance :: "mhi_chan \<Rightarrow> mhi_chan" where
  "chan_advance ch =
     ch\<lparr>tre_ring := mhi_add_ring_element (tre_ring ch), buf_ring := mhi_add_ring_element (buf_ring ch)\<rparr>"

definition queue_ring_db :: "mhi_chan \<Rightarrow> mhi_controller \<Rightarrow> mhi_chan \<times> mhi_controller" where
  "queue_ring_db ch c =
     (if MHI_DB_ACCESS_VALID (pm_state c) then mhi_ring_chan_db ch c else (ch, c))"

definition mhi_queue_skb ::
  "dma_map_fn \<Rightarrow> u64 \<Rightarrow> u64 \<Rightarrow> u64 \<Rightarrow> mhi_chan \<Rightarrow> mhi_controller \<Rightarrow> unit res \<times> mhi_chan \<times> mhi_controller" where
  "mhi_queue_skb dma_map skb skb_data len ch c =
     (if mhi_is_ring_full (tre_ring ch) then (Inl ENOMEM, ch, c)
      else if MHI_PM_IN_ERROR_STATE (pm_state c) then (Inl EIO, ch, c)
      else (let c1 = queue_wake ch (queue_runtime c);
                bi0 = (ring_mem (buf_ring ch) (ring_wp (buf_ring ch)))
                  \<lparr>v_addr := skb_data, cb_buf := skb, bi_wp := ring_wp (tre_ring ch),
                   bi_dir := ch_dir ch, bi_len := len\<rparr>;
                (bi, err) = mhi_map_single_no_bb dma_map bi0
            in if err then (Inl ENOMEM, ch\<lparr>buf_ring := ring_store bi (buf_ring ch)\<rparr>,
                 if assert_wake ch c then mhi_deassert_dev_wake c1 else c1)
               else (let tre = \<lparr>tre_ptr = p_addr bi, tre_dword0 = MHI_TRE_DATA_DWORD0 (ucast (bi_len bi)),
                                tre_dword1 = MHI_TRE_DATA_DWORD1 1 1 0 0\<rparr>;
                         (ch', c') = queue_ring_db (chan_advance (chan_store bi tre ch)) (pending_inc ch c1)
                     in (Inr (), ch', queue_unwake ch (assert_wake ch c) c'))))"

text \<open>\<^verbatim>\<open>mhi_queue_dma\<close>: the client passes a \<^verbatim>\<open>struct mhi_buf\<close> at \<open>mhi_buf\<close> with its bus address \<open>dma_addr\<close>.\<close>

definition mhi_queue_dma ::
  "u64 \<Rightarrow> u64 \<Rightarrow> u64 \<Rightarrow> mhi_chan \<Rightarrow> mhi_controller \<Rightarrow> unit res \<times> mhi_chan \<times> mhi_controller" where
  "mhi_queue_dma mhi_buf dma_addr len ch c =
     (if mhi_is_ring_full (tre_ring ch) then (Inl ENOMEM, ch, c)
      else if MHI_PM_IN_ERROR_STATE (pm_state c) then (Inl EIO, ch, c)
      else (let c1 = queue_wake ch (queue_runtime c);
                old = ring_mem (buf_ring ch) (ring_wp (buf_ring ch));
                c2 = if bi_used old then emit (WarnOn ''TRE Not Freed'') c1 else c1;
                bi0 = old\<lparr>p_addr := dma_addr, pre_mapped := True, cb_buf := mhi_buf,
                          bi_wp := ring_wp (tre_ring ch), bi_dir := ch_dir ch, bi_len := len\<rparr>;
                rsc = xfer_type ch = MHI_XFER_RSC_DMA;
                bi = if rsc then bi0\<lparr>bi_used := True\<rparr> else bi0;
                tre = if rsc
                  then \<lparr>tre_ptr = MHI_RSCTRE_DATA_PTR (p_addr bi) (bi_len bi),
                        tre_dword0 = ucast (ring_wp (buf_ring ch) - ring_base (buf_ring ch)),
                        tre_dword1 = MHI_RSCTRE_DATA_DWORD1\<rparr>
                  else \<lparr>tre_ptr = p_addr bi, tre_dword0 = MHI_TRE_DATA_DWORD0 (ucast (bi_len bi)),
                        tre_dword1 = MHI_TRE_DATA_DWORD1 1 1 0 0\<rparr>;
                (ch', c') = queue_ring_db (chan_advance (chan_store bi tre ch)) (pending_inc ch c2)
            in (Inr (), ch', queue_unwake ch (assert_wake ch c) c')))"

definition flag_bit :: "u32 \<Rightarrow> u32 \<Rightarrow> u32" where
  "flag_bit flags m = (if flags AND m \<noteq> 0 then 1 else 0)"

definition mhi_gen_tre ::
  "dma_map_fn \<Rightarrow> u64 \<Rightarrow> u64 \<Rightarrow> u64 \<Rightarrow> u32 \<Rightarrow> mhi_chan \<Rightarrow> unit res \<times> mhi_chan" where
  "mhi_gen_tre dma_map buf cb buf_len flags ch =
     (let bi0 = (ring_mem (buf_ring ch) (ring_wp (buf_ring ch)))
            \<lparr>v_addr := buf, cb_buf := cb, bi_wp := ring_wp (tre_ring ch), bi_dir := ch_dir ch,
             bi_len := buf_len\<rparr>;
          (bi, err) = mhi_map_single_no_bb dma_map bi0
      in if err then (Inl ENOMEM, ch\<lparr>buf_ring := ring_store bi (buf_ring ch)\<rparr>)
         else (let eob = flag_bit flags MHI_EOB; eot = flag_bit flags MHI_EOT;
                   chain = flag_bit flags MHI_CHAIN; bei = if ch_intmod ch \<noteq> 0 then 1 else 0;
                   tre = \<lparr>tre_ptr = p_addr bi, tre_dword0 = MHI_TRE_DATA_DWORD0 (ucast buf_len),
                          tre_dword1 = MHI_TRE_DATA_DWORD1 bei eot eob chain\<rparr>
               in (Inr (), chan_advance (chan_store bi tre ch))))"

definition mhi_queue_buf ::
  "dma_map_fn \<Rightarrow> u64 \<Rightarrow> u64 \<Rightarrow> u32 \<Rightarrow> mhi_chan \<Rightarrow> mhi_controller \<Rightarrow> unit res \<times> mhi_chan \<times> mhi_controller" where
  "mhi_queue_buf dma_map buf len mflags ch c =
     (if MHI_PM_IN_ERROR_STATE (pm_state c) then (Inl EIO, ch, c)
      else if mhi_is_ring_full (tre_ring ch) then (Inl ENOMEM, ch, c)
      else (case mhi_gen_tre dma_map buf buf len mflags ch of
              (Inl e, ch1) \<Rightarrow> (Inl e, ch1, c)
            | (Inr _, ch1) \<Rightarrow>
                (let c1 = pending_inc ch1 (queue_wake ch1 (queue_runtime c));
                     (ch', c') = queue_ring_db ch1 c1
                 in (Inr (), ch', queue_unwake ch (assert_wake ch c) c'))))"

text \<open>\<^verbatim>\<open>mhi_queue_sclist\<close> and \<^verbatim>\<open>mhi_queue_nop\<close> refuse every transfer.\<close>

definition mhi_queue_sclist :: "mhi_chan \<Rightarrow> mhi_controller \<Rightarrow> unit res \<times> mhi_chan \<times> mhi_controller" where
  "mhi_queue_sclist ch c = (Inl EINVAL, ch, c)"

definition mhi_queue_nop :: "mhi_chan \<Rightarrow> mhi_controller \<Rightarrow> unit res \<times> mhi_chan \<times> mhi_controller" where
  "mhi_queue_nop ch c = (Inl EINVAL, ch, c)"

subsection \<open>Commands\<close>

definition cmd_tre :: "MHI_CMD \<Rightarrow> u32 \<Rightarrow> u32 \<Rightarrow> mhi_tre" where
  "cmd_tre cmd chn tsync_er =
     (case cmd of
        MHI_CMD_RESET_CHAN \<Rightarrow> \<lparr>tre_ptr = 0, tre_dword0 = 0, tre_dword1 = MHI_TRE_CMD_RESET_DWORD1 chn\<rparr>
      | MHI_CMD_START_CHAN \<Rightarrow> \<lparr>tre_ptr = 0, tre_dword0 = 0, tre_dword1 = MHI_TRE_CMD_START_DWORD1 chn\<rparr>
      | MHI_CMD_TIMSYNC_CFG \<Rightarrow> \<lparr>tre_ptr = 0, tre_dword0 = 0, tre_dword1 = MHI_TRE_CMD_TSYNC_CFG_DWORD1 tsync_er\<rparr>)"

text \<open>\<open>chn\<close> is \<^verbatim>\<open>mhi_chan->chan\<close>, and 0 for a call without a channel.\<close>

definition mhi_send_cmd :: "u32 \<Rightarrow> MHI_CMD \<Rightarrow> mhi_controller \<Rightarrow> unit res \<times> mhi_controller" where
  "mhi_send_cmd chn cmd c =
     (let ring = mhi_cmd c
      in if get_nr_avail_ring_elements ring = 0 then (Inl ENOMEM, c)
         else (let er = (case mhi_tsync c of None \<Rightarrow> 0 | Some t \<Rightarrow> ts_er_index t);
                   ring1 = ring_put (cmd_tre cmd chn er) ring
               in if MHI_DB_ACCESS_VALID (pm_state c)
                  then (let (ring2, c2) = mhi_ring_cmd_db ring1 c in (Inr (), c2\<lparr>mhi_cmd := ring2\<rparr>))
                  else (Inr (), c\<lparr>mhi_cmd := ring1\<rparr>)))"

subsection \<open>Completing transfers\<close>

text \<open>One turn of the loop of \<^verbatim>\<open>parse_xfer_event\<close>.\<close>

definition xfer_complete_one ::
  "dma_map_fn \<Rightarrow> mhi_tre \<Rightarrow> errno option \<Rightarrow> mhi_chan \<times> mhi_controller \<Rightarrow> mhi_chan \<times> mhi_controller" where
  "xfer_complete_one dma_map event status = (\<lambda>(ch, c).
     let bi = ring_front (buf_ring ch);
         xfer_len = ucast (MHI_TRE_GET_EV_LEN event);
         c1 = if pre_mapped bi then c else emit (UnmapSingle bi) c;
         result = \<lparr>res_buf_addr = cb_buf bi, res_bytes_xferd = xfer_len, res_dir = ch_dir ch,
                   res_transaction_status = status\<rparr>;
         ch1 = ch\<lparr>buf_ring := mhi_del_ring_element (buf_ring ch),
                  tre_ring := mhi_del_ring_element (tre_ring ch)\<rparr>;
         c2 = emit (XferCb (chan ch) result) c1;
         c3 = pending_dec ch c2;
         c4 = if ch_dir ch = DMA_TO_DEVICE then mhi_deassert_dev_wake c3 else c3
     in if pre_alloc ch
        then (case mhi_queue_buf dma_map (cb_buf bi) (bi_len bi) MHI_EOT ch1 c4 of
                (Inl _, ch2, c5) \<Rightarrow> (ch2, emit (Kfree (cb_buf bi)) c5)
              | (Inr _, ch2, c5) \<Rightarrow> (ch2, c5))
        else (ch1, c4))"

partial_function (option) xfer_complete_loop ::
  "dma_map_fn \<Rightarrow> mhi_tre \<Rightarrow> errno option \<Rightarrow> u64 \<Rightarrow> mhi_chan \<times> mhi_controller \<Rightarrow> (mhi_chan \<times> mhi_controller) option"
  where
  "xfer_complete_loop dma_map event status dev_rp s =
     (if ring_rp (tre_ring (fst s)) = dev_rp then Some s
      else xfer_complete_loop dma_map event status dev_rp (xfer_complete_one dma_map event status s))"

definition used_event_inc :: "u32 \<Rightarrow> mhi_chan \<Rightarrow> mhi_chan" where
  "used_event_inc code ch = ch\<lparr>used_events := (used_events ch)(code := used_events ch code + 1)\<rparr>"

definition parse_xfer_event ::
  "dma_map_fn \<Rightarrow> mhi_tre \<Rightarrow> mhi_chan \<Rightarrow> mhi_controller \<Rightarrow> (mhi_chan \<times> mhi_controller) option" where
  "parse_xfer_event dma_map event ch c =
     (let ev_code = MHI_TRE_GET_EV_CODE event;
          status = if ev_code = MHI_EV_CC_OVERFLOW then Some EOVERFLOW else None
      in if ch_state ch \<noteq> MHI_CH_STATE_ENABLED then Some (ch, c)
         else if ev_code = MHI_EV_CC_OVERFLOW \<or> ev_code = MHI_EV_CC_EOB \<or> ev_code = MHI_EV_CC_EOT
         then (let ring = tre_ring ch;
                   ev_tre = mhi_to_virtual ring (MHI_TRE_GET_EV_PTR event);
                   nxt = ev_tre + 16;
                   dev_rp = if ring_base ring + ring_len ring \<le> nxt then ring_base ring else nxt
               in xfer_complete_loop dma_map event status dev_rp (used_event_inc ev_code ch, c))
         else if ev_code = MHI_EV_CC_OOB \<or> ev_code = MHI_EV_CC_DB_MODE
         then (let ch1 = used_event_inc ev_code ch;
                   ch2 = ch1\<lparr>ch_db_cfg := (ch_db_cfg ch1)\<lparr>db_mode := True\<rparr>\<rparr>
               in if ring_wp (tre_ring ch2) \<noteq> ring_rp (tre_ring ch2) \<and> MHI_DB_ACCESS_VALID (pm_state c)
                  then Some (mhi_ring_chan_db ch2 c) else Some (ch2, c))
         else if ev_code = MHI_EV_CC_BAD_TRE
         then Some (ch, emit (WarnOn ''Received BAD TRE event for ring'') c)
         else Some (ch, c))"

text \<open>
  \<^verbatim>\<open>parse_rsc_event\<close> takes the descriptor at the offset the device names.
\<close>

definition parse_rsc_event :: "mhi_tre \<Rightarrow> mhi_chan \<Rightarrow> mhi_controller \<Rightarrow> mhi_chan \<times> mhi_controller" where
  "parse_rsc_event event ch c =
     (let ev_code = MHI_TRE_GET_EV_CODE event;
          cookie = MHI_TRE_GET_EV_COOKIE event;
          br = buf_ring ch;
          c1 = if ring_len br \<le> ucast cookie then emit (WarnOn ''Invalid Cookie'') c else c;
          a = ring_base br + ucast cookie;
          bi = ring_mem br a;
          result = \<lparr>res_buf_addr = cb_buf bi, res_bytes_xferd = ucast (MHI_TRE_GET_EV_LEN event),
                    res_dir = ch_dir ch,
                    res_transaction_status = (if ev_code = MHI_EV_CC_OVERFLOW then Some EOVERFLOW else None)\<rparr>
      in if ch_state ch \<noteq> MHI_CH_STATE_ENABLED then (ch, c1)
         else (let c2 = if \<not> bi_used bi then emit (WarnOn ''TRE already Freed'') c1 else c1
               in (ch\<lparr>tre_ring := mhi_del_ring_element (tre_ring ch),
                      buf_ring := br\<lparr>ring_mem := (ring_mem br)(a := bi\<lparr>bi_used := False\<rparr>)\<rparr>\<rparr>,
                   emit (XferCb (chan ch) result) c2)))"

subsection \<open>Resetting a channel\<close>

definition mark_stale_one :: "u32 \<Rightarrow> u64 \<Rightarrow> mhi_tre mhi_ring \<Rightarrow> mhi_tre mhi_ring" where
  "mark_stale_one chn p r =
     (let e = ring_mem r p
      in if MHI_TRE_GET_EV_TYPE e = MHI_PKT_TYPE_TX_EVENT \<and> chn = MHI_TRE_GET_EV_CHID e
         then r\<lparr>ring_mem := (ring_mem r)(p := e\<lparr>tre_dword1 := MHI_TRE_EV_DWORD1 chn MHI_PKT_TYPE_STALE_EVENT\<rparr>)\<rparr>
         else r)"

partial_function (option) mark_stale_loop ::
  "u32 \<Rightarrow> u64 \<Rightarrow> u64 \<Rightarrow> mhi_tre mhi_ring \<Rightarrow> mhi_tre mhi_ring option" where
  "mark_stale_loop chn dev_rp local_rp r =
     (if dev_rp = local_rp then Some r
      else (let r' = mark_stale_one chn local_rp r; nxt = local_rp + 16
            in mark_stale_loop chn dev_rp (if nxt = ring_base r + ring_len r then ring_base r else nxt) r'))"

definition mhi_mark_stale_events :: "u32 \<Rightarrow> mhi_event \<Rightarrow> mhi_event option" where
  "mhi_mark_stale_events chn ev =
     (let r = ev_ring ev
      in case mark_stale_loop chn (mhi_to_virtual r (ring_ctxt_rp r)) (ring_rp r) r of
           None \<Rightarrow> None | Some r' \<Rightarrow> Some (ev\<lparr>ev_ring := r'\<rparr>))"

text \<open>
  The result handed to the client on a reset. The code leaves \<^verbatim>\<open>result.dir\<close> uninitialised; the model
  fixes the value 0.
\<close>

definition reset_result :: "mhi_buf_info \<Rightarrow> mhi_result" where
  "reset_result bi = \<lparr>res_buf_addr = cb_buf bi, res_bytes_xferd = 0, res_dir = DMA_BIDIRECTIONAL,
     res_transaction_status = Some ENOTCONN\<rparr>"

definition reset_data_one :: "mhi_chan \<times> mhi_controller \<Rightarrow> mhi_chan \<times> mhi_controller" where
  "reset_data_one = (\<lambda>(ch, c).
     let bi = ring_front (buf_ring ch);
         c1 = pending_dec ch c;
         c2 = if ch_dir ch = DMA_TO_DEVICE then mhi_deassert_dev_wake c1 else c1;
         c3 = if pre_mapped bi then c2 else emit (UnmapSingle bi) c2;
         ch1 = ch\<lparr>buf_ring := mhi_del_ring_element (buf_ring ch),
                  tre_ring := mhi_del_ring_element (tre_ring ch)\<rparr>;
         result = reset_result bi
     in (ch1, if pre_alloc ch then emit (Kfree (cb_buf bi)) c3 else emit (XferCb (chan ch) result) c3))"

partial_function (option) mhi_reset_data_chan ::
  "mhi_chan \<times> mhi_controller \<Rightarrow> (mhi_chan \<times> mhi_controller) option" where
  "mhi_reset_data_chan s =
     (if ring_rp (tre_ring (fst s)) = ring_wp (tre_ring (fst s)) then Some s
      else mhi_reset_data_chan (reset_data_one s))"

text \<open>
  \<^verbatim>\<open>mhi_reset_rsc_chan\<close> walks the local ring from its base, element by element.
\<close>

definition reset_rsc_one :: "mhi_chan \<times> mhi_controller \<Rightarrow> nat \<Rightarrow> mhi_chan \<times> mhi_controller" where
  "reset_rsc_one = (\<lambda>(ch, c) i.
     let br = buf_ring ch; a = ring_slot br i; bi = ring_mem br a
     in if \<not> bi_used bi then (ch, c)
        else (ch\<lparr>buf_ring := br\<lparr>ring_mem := (ring_mem br)(a := bi\<lparr>bi_used := False\<rparr>)\<rparr>\<rparr>,
              emit (XferCb (chan ch) (reset_result bi)) c))"

definition mhi_reset_rsc_chan :: "mhi_chan \<times> mhi_controller \<Rightarrow> mhi_chan \<times> mhi_controller" where
  "mhi_reset_rsc_chan s = foldl reset_rsc_one s [0..<slots (buf_ring (fst s))]"

definition mhi_reset_chan :: "mhi_chan \<Rightarrow> mhi_controller \<Rightarrow> (mhi_chan \<times> mhi_controller) option" where
  "mhi_reset_chan ch c =
     (if offload_ch ch then Some (ch, c)
      else (let i = unat (ch_er_index ch)
            in case mhi_mark_stale_events (chan ch) (mhi_events c ! i) of
                 None \<Rightarrow> None
               | Some ev \<Rightarrow>
                   (let c1 = c\<lparr>mhi_events := (mhi_events c)[i := ev]\<rparr>
                    in if xfer_type ch = MHI_XFER_RSC_DMA then Some (mhi_reset_rsc_chan (ch, c1))
                       else mhi_reset_data_chan (ch, c1))))"

subsection \<open>The two rings of a channel stay in step\<close>

text \<open>
  The comment in \<^verbatim>\<open>struct mhi_chan\<close>: if the transfer ring has space, so has the local ring, and only
  one of them is ever checked.
\<close>

definition chan_sync :: "mhi_chan \<Rightarrow> bool" where
  "chan_sync ch \<longleftrightarrow> ring_wf (tre_ring ch) \<and> ring_wf (buf_ring ch) \<and>
     slots (tre_ring ch) = slots (buf_ring ch) \<and> ring_used (tre_ring ch) = ring_used (buf_ring ch)"

lemma chan_syncD:
  "chan_sync ch \<Longrightarrow> ring_wf (tre_ring ch)" "chan_sync ch \<Longrightarrow> ring_wf (buf_ring ch)"
  by (simp_all add: chan_sync_def)

lemma chan_sync_full:
  "chan_sync ch \<Longrightarrow> mhi_is_ring_full (buf_ring ch) \<longleftrightarrow> mhi_is_ring_full (tre_ring ch)"
  by (simp add: chan_sync_def mhi_is_ring_full_iff)

lemma chan_push:
  fixes bi :: mhi_buf_info and tre :: mhi_tre and ch :: mhi_chan
  assumes s: "chan_sync ch" and room: "\<not> mhi_is_ring_full (tre_ring ch)"
  defines "ch' \<equiv> chan_advance (chan_store bi tre ch)"
  shows "chan_sync ch'" and "ring_list (tre_ring ch') = ring_list (tre_ring ch) @ [tre]"
    and "ring_list (buf_ring ch') = ring_list (buf_ring ch) @ [bi]"
proof -
  have eq: "tre_ring ch' = ring_put tre (tre_ring ch)" "buf_ring ch' = ring_put bi (buf_ring ch)"
    by (simp_all add: ch'_def chan_advance_def chan_store_def ring_put_def)
  have room': "\<not> mhi_is_ring_full (buf_ring ch)" using chan_sync_full [OF s] room by simp
  show "chan_sync ch'"
    using s room room' by (auto simp: chan_sync_def eq ring_used_put)
  show "ring_list (tre_ring ch') = ring_list (tre_ring ch) @ [tre]"
    and "ring_list (buf_ring ch') = ring_list (buf_ring ch) @ [bi]"
    using s room room' by (auto simp: chan_sync_def eq ring_list_put)
qed

lemma chan_pop:
  assumes s: "chan_sync ch" and ne: "ring_rp (tre_ring ch) \<noteq> ring_wp (tre_ring ch)"
  defines "ch' \<equiv> ch\<lparr>buf_ring := mhi_del_ring_element (buf_ring ch), tre_ring := mhi_del_ring_element (tre_ring ch)\<rparr>"
  shows "chan_sync ch'" and "ring_list (tre_ring ch') = tl (ring_list (tre_ring ch))"
    and "ring_list (buf_ring ch) = ring_front (buf_ring ch) # ring_list (buf_ring ch')"
proof -
  have ne': "ring_rp (buf_ring ch) \<noteq> ring_wp (buf_ring ch)"
    using s ne by (metis chan_sync_def ring_used_zero_iff)
  show "chan_sync ch'"
    using s ne ne' by (auto simp: chan_sync_def ch'_def ring_used_del)
  show "ring_list (tre_ring ch') = tl (ring_list (tre_ring ch))"
    using s ne by (simp add: chan_sync_def ch'_def ring_list_del)
  show "ring_list (buf_ring ch) = ring_front (buf_ring ch) # ring_list (buf_ring ch')"
    using s ne' ring_front_list [of "buf_ring ch"] list.collapse [of "ring_list (buf_ring ch)"]
    by (simp add: chan_sync_def ch'_def ring_list_del)
qed

lemma queue_ring_db_chan [simp]:
  "chan_sync (fst (queue_ring_db ch c)) = chan_sync ch"
  "ring_list (tre_ring (fst (queue_ring_db ch c))) = ring_list (tre_ring ch)"
  "ring_list (buf_ring (fst (queue_ring_db ch c))) = ring_list (buf_ring ch)"
  by (simp_all add: queue_ring_db_def chan_sync_def)

lemma chan_store_buf [simp]:
  "chan_sync (ch\<lparr>buf_ring := ring_store bi (buf_ring ch)\<rparr>) = chan_sync ch"
  by (simp add: chan_sync_def)

text \<open>What a queueing function did, by its result.\<close>

definition queue_outcome ::
  "mhi_chan \<Rightarrow> mhi_controller \<Rightarrow> u64 \<Rightarrow> u64 \<Rightarrow> unit res \<Rightarrow> mhi_chan \<Rightarrow> bool" where
  "queue_outcome ch c cb len r ch' \<longleftrightarrow>
     (case r of
        Inr _ \<Rightarrow> (\<exists>tre bi. ring_list (tre_ring ch') = ring_list (tre_ring ch) @ [tre] \<and>
            ring_list (buf_ring ch') = ring_list (buf_ring ch) @ [bi] \<and>
            cb_buf bi = cb \<and> bi_len bi = len \<and> bi_wp bi = ring_wp (tre_ring ch) \<and>
            tre_ptr tre = p_addr bi \<and> tre_dword0 tre = ucast len AND 0xFFFF)
      | Inl e \<Rightarrow> ring_list (tre_ring ch') = ring_list (tre_ring ch) \<and>
            ring_list (buf_ring ch') = ring_list (buf_ring ch))"

lemma mhi_queue_skb_outcome:
  assumes s: "chan_sync ch" and run: "mhi_queue_skb dma_map skb skb_data len ch c = (r, ch', c')"
  shows "chan_sync ch' \<and> queue_outcome ch c skb len r ch' \<and>
    r = (if mhi_is_ring_full (tre_ring ch) then Inl ENOMEM
         else if MHI_PM_IN_ERROR_STATE (pm_state c) then Inl EIO
         else if snd (dma_map skb_data len (ch_dir ch)) then Inl ENOMEM else Inr ())"
proof (cases "mhi_is_ring_full (tre_ring ch)")
  case True
  with s run show ?thesis by (auto simp: mhi_queue_skb_def queue_outcome_def)
next
  case False
  with chan_push [OF s False] s run show ?thesis
    by (auto simp: mhi_queue_skb_def queue_outcome_def mhi_map_single_no_bb_def Let_def
        case_prod_beta MHI_TRE_DATA_DWORD0_def MHI_MAX_MTU_def chan_syncD split: if_splits)
qed

lemma queue_frame [simp]:
  "mhi_chans (queue_runtime c) = mhi_chans c" "mhi_chans (queue_wake ch c) = mhi_chans c"
  "mhi_chans (queue_unwake ch b c) = mhi_chans c" "mhi_chans (pending_inc ch c) = mhi_chans c"
  "mhi_chans (snd (queue_ring_db ch c)) = mhi_chans c" "pm_state (queue_runtime c) = pm_state c"
  "pm_state (queue_wake ch c) = pm_state c" "pm_state (queue_unwake ch b c) = pm_state c"
  "pm_state (pending_inc ch c) = pm_state c" "pm_state (snd (queue_ring_db ch c)) = pm_state c"
  by (simp_all add: queue_runtime_def queue_wake_def queue_unwake_def pending_inc_def queue_ring_db_def Let_def
      mhi_assert_dev_wake_def mhi_deassert_dev_wake_def)

lemma queue_ring_db_conf [simp]:
  "slots (tre_ring (fst (queue_ring_db ch c))) = slots (tre_ring ch)" "offload_ch (fst (queue_ring_db ch c)) = offload_ch ch"
  "chan (fst (queue_ring_db ch c)) = chan ch"
  by (simp_all add: queue_ring_db_def mhi_ring_chan_db_def Let_def case_prod_beta)

lemma chan_advance_conf [simp]:
  "slots (tre_ring (chan_advance (chan_store bi tre ch))) = slots (tre_ring ch)"
  "offload_ch (chan_advance (chan_store bi tre ch)) = offload_ch ch" "chan (chan_advance (chan_store bi tre ch)) = chan ch"
  by (simp_all add: chan_advance_def chan_store_def mhi_add_ring_element_def ring_store_def)

lemma mhi_queue_skb_keeps:
  assumes "mhi_queue_skb dma_map skb skb_data len ch c = (r, ch', c')"
  shows "slots (tre_ring ch') = slots (tre_ring ch) \<and> offload_ch ch' = offload_ch ch \<and> chan ch' = chan ch \<and> mhi_chans c' = mhi_chans c \<and>
    pm_state c' = pm_state c"
  using assms unfolding mhi_queue_skb_def
  by (auto simp: Let_def case_prod_beta mhi_deassert_dev_wake_def split: if_splits)


text \<open>
  Queueing a buffer on a buffer channel: refused with EIO in an error state, then with ENOMEM
  when the ring is full or the buffer cannot be mapped, without queueing anything; otherwise one
  descriptor is appended to each ring, and the rings stay in step.
\<close>

theorem mhi_queue_buf_spec:
  assumes s: "chan_sync ch" and run: "mhi_queue_buf dma_map buf len mflags ch c = (r, ch', c')"
  shows "chan_sync ch' \<and> queue_outcome ch c buf len r ch' \<and>
    r = (if MHI_PM_IN_ERROR_STATE (pm_state c) then Inl EIO
         else if mhi_is_ring_full (tre_ring ch) then Inl ENOMEM
         else if snd (dma_map buf len (ch_dir ch)) then Inl ENOMEM else Inr ())"
proof (cases "mhi_is_ring_full (tre_ring ch)")
  case True
  with s run show ?thesis by (auto simp: mhi_queue_buf_def queue_outcome_def)
next
  case False
  with chan_push [OF s False] s run show ?thesis
    by (auto simp: mhi_queue_buf_def mhi_gen_tre_def queue_outcome_def mhi_map_single_no_bb_def Let_def
        case_prod_beta MHI_TRE_DATA_DWORD0_def MHI_MAX_MTU_def chan_syncD split: if_splits)
qed

lemma mhi_queue_buf_keeps:
  assumes "mhi_queue_buf dma_map buf len fl ch c = (r, ch', c')"
  shows "mhi_chans c' = mhi_chans c \<and> ch_completion ch' = ch_completion ch \<and> pm_state c' = pm_state c \<and>
    slots (tre_ring ch') = slots (tre_ring ch) \<and> offload_ch ch' = offload_ch ch"
  using assms unfolding mhi_queue_buf_def mhi_gen_tre_def
  by (auto simp: Let_def case_prod_beta queue_ring_db_def mhi_ring_chan_db_def chan_advance_def chan_store_def
      mhi_deassert_dev_wake_def split: if_splits)

subsection \<open>Completion events\<close>

text \<open>The client callbacks of a trace, in order.\<close>

definition xfer_cbs :: "effect list \<Rightarrow> (u32 \<times> mhi_result) list" where
  "xfer_cbs es = List.map_filter (\<lambda>e. case e of XferCb n r \<Rightarrow> Some (n, r) | _ \<Rightarrow> None) es"

lemma xfer_cbs_simps [simp]:
  "xfer_cbs [] = []" "xfer_cbs (es @ fs) = xfer_cbs es @ xfer_cbs fs"
  "xfer_cbs (XferCb n r # es) = (n, r) # xfer_cbs es" "xfer_cbs (UnmapSingle b # es) = xfer_cbs es"
  "xfer_cbs (RuntimeGet # es) = xfer_cbs es" "xfer_cbs (RuntimePut # es) = xfer_cbs es"
  "xfer_cbs (Kfree a # es) = xfer_cbs es" "xfer_cbs (WarnOn m # es) = xfer_cbs es"
  "xfer_cbs (Writel a w # es) = xfer_cbs es"
  by (simp_all add: xfer_cbs_def List.map_filter_def)

definition xfer_result :: "mhi_tre \<Rightarrow> errno option \<Rightarrow> mhi_chan \<Rightarrow> mhi_buf_info \<Rightarrow> mhi_result" where
  "xfer_result event status ch bi =
     \<lparr>res_buf_addr = cb_buf bi, res_bytes_xferd = ucast (MHI_TRE_GET_EV_LEN event),
      res_dir = ch_dir ch, res_transaction_status = status\<rparr>"

lemma pending_dec_sel [simp]:
  "pm_state (pending_dec ch c) = pm_state c"
  "pending_pkts (pending_dec ch c) = pending_pkts c - (if ch_dir ch = DMA_TO_DEVICE then 1 else 0)"
  "xfer_cbs (trace (pending_dec ch c)) = xfer_cbs (trace c)"
  "mhi_events (pending_dec ch c) = mhi_events c"
  by (simp_all add: pending_dec_def Let_def)

lemma xfer_complete_one_spec:
  assumes "\<not> pre_alloc ch" and "xfer_complete_one dma_map event status (ch, c) = (ch', c')"
  shows "ch' = ch\<lparr>buf_ring := mhi_del_ring_element (buf_ring ch), tre_ring := mhi_del_ring_element (tre_ring ch)\<rparr>"
    and "xfer_cbs (trace c') =
      xfer_cbs (trace c) @ [(chan ch, xfer_result event status ch (ring_front (buf_ring ch)))]"
    and "pending_pkts c' = pending_pkts c - (if ch_dir ch = DMA_TO_DEVICE then 1 else 0)"
  using assms
  by (auto simp: xfer_complete_one_def Let_def mhi_deassert_dev_wake_def xfer_result_def)

lemma ring_rp_slot: "ring_wf r \<Longrightarrow> ring_slot r (ring_idx r (ring_rp r) mod slots r) = ring_rp r"
  using ring_wfD [of r] by (simp add: ring_slot_idx)

lemma ring_slot_rp_ne:
  assumes wf: "ring_wf r" and "0 < m" and "m \<le> ring_used r"
  shows "ring_slot r ((ring_idx r (ring_rp r) + m) mod slots r) \<noteq> ring_rp r"
proof
  note w = ring_wfD [OF wf]
  assume "ring_slot r ((ring_idx r (ring_rp r) + m) mod slots r) = ring_rp r"
  then have "(ring_idx r (ring_rp r) + m) mod slots r = (ring_idx r (ring_rp r) + 0) mod slots r"
    using ring_slot_valid(2) [OF w(1)] w(4,5) by (metis add.right_neutral mod_less mod_less_divisor)
  then have "m = 0"
    by (rule mod_add_left_inj) (use assms ring_used_less [OF wf] w(4) in auto)
  with assms show False by simp
qed

lemma ring_slot_del:
  assumes wf: "ring_wf r"
  shows "ring_slot (mhi_del_ring_element r)
      ((ring_idx (mhi_del_ring_element r) (ring_rp (mhi_del_ring_element r)) + m) mod slots r) =
    ring_slot r ((ring_idx r (ring_rp r) + Suc m) mod slots r)"
proof -
  note adv = ring_advance_valid [OF ring_wfD(1) [OF wf] ring_wfD(2) [OF wf]]
  have "(Suc (ring_idx r (ring_rp r)) mod slots r + m) mod slots r =
      (ring_idx r (ring_rp r) + Suc m) mod slots r"
    by (simp add: mod_add_left_eq)
  then show ?thesis using adv(2) by (simp add: mhi_del_ring_element_def)
qed

lemma xfer_complete_loop_spec:
  assumes "chan_sync ch" and "\<not> pre_alloc ch" and "m \<le> ring_used (tre_ring ch)"
    and "dev_rp = ring_slot (tre_ring ch) ((ring_idx (tre_ring ch) (ring_rp (tre_ring ch)) + m) mod slots (tre_ring ch))"
  shows "\<exists>ch' c'. xfer_complete_loop dma_map event status dev_rp (ch, c) = Some (ch', c') \<and>
    chan_sync ch' \<and> ring_list (tre_ring ch') = drop m (ring_list (tre_ring ch)) \<and>
    ring_list (buf_ring ch') = drop m (ring_list (buf_ring ch)) \<and>
    xfer_cbs (trace c') = xfer_cbs (trace c) @
      map (\<lambda>bi. (chan ch, xfer_result event status ch bi)) (take m (ring_list (buf_ring ch))) \<and>
    pending_pkts c' = pending_pkts c - (if ch_dir ch = DMA_TO_DEVICE then int m else 0)"
  using assms
proof (induction m arbitrary: ch c)
  case 0
  then show ?case
    by (subst xfer_complete_loop.simps) (simp add: chan_syncD ring_rp_slot)
next
  case (Suc m)
  note wf = chan_syncD(1) [OF Suc.prems(1)]
  have ne: "ring_rp (tre_ring ch) \<noteq> dev_rp"
    using ring_slot_rp_ne [OF wf _ Suc.prems(3)] Suc.prems(4) by auto
  have out: "ring_rp (tre_ring ch) \<noteq> ring_wp (tre_ring ch)"
    using Suc.prems(3) ring_used_zero_iff [OF wf] by auto
  obtain ch1 c1 where one: "xfer_complete_one dma_map event status (ch, c) = (ch1, c1)"
    by fastforce
  note st = xfer_complete_one_spec [OF Suc.prems(2) one]
  note pop = chan_pop [OF Suc.prems(1) out]
  have pos: "m \<le> ring_used (tre_ring ch1)"
    using Suc.prems(3) wf out by (simp add: st(1) ring_used_del)
  have dev: "dev_rp = ring_slot (tre_ring ch1)
      ((ring_idx (tre_ring ch1) (ring_rp (tre_ring ch1)) + m) mod slots (tre_ring ch1))"
    using Suc.prems(4) ring_slot_del [OF wf, of m] by (simp add: st(1))
  have keep: "chan ch1 = chan ch" "ch_dir ch1 = ch_dir ch" "pre_alloc ch1 = pre_alloc ch"
    "xfer_result event status ch1 = xfer_result event status ch"
    by (simp_all add: st(1) xfer_result_def fun_eq_iff)
  have lists: "ring_list (tre_ring ch1) = tl (ring_list (tre_ring ch))"
    "ring_list (buf_ring ch) = ring_front (buf_ring ch) # ring_list (buf_ring ch1)"
    using pop(2,3) by (simp_all add: st(1))
  have loop: "xfer_complete_loop dma_map event status dev_rp (ch, c) =
      xfer_complete_loop dma_map event status dev_rp (ch1, c1)"
    using ne one by (subst xfer_complete_loop.simps) simp
  show ?case
    using Suc.IH [of ch1 c1, OF _ _ pos dev] pop(1) Suc.prems(2) st(2,3) lists
    by (auto simp: loop keep st(1) [symmetric] drop_Suc)
qed

lemma chan_sync_used_event [simp]: "chan_sync (used_event_inc code ch) = chan_sync ch"
  and used_event_inc_sel [simp]: "tre_ring (used_event_inc code ch) = tre_ring ch"
  "buf_ring (used_event_inc code ch) = buf_ring ch" "pre_alloc (used_event_inc code ch) = pre_alloc ch"
  "chan (used_event_inc code ch) = chan ch" "ch_dir (used_event_inc code ch) = ch_dir ch"
  "xfer_result event status (used_event_inc code ch) = xfer_result event status ch"
  by (simp_all add: used_event_inc_def chan_sync_def xfer_result_def fun_eq_iff)

definition completion_code :: "u32 \<Rightarrow> bool" where
  "completion_code code \<longleftrightarrow> code = MHI_EV_CC_OVERFLOW \<or> code = MHI_EV_CC_EOB \<or> code = MHI_EV_CC_EOT"

text \<open>
  (C4) A completion event that names the \<open>k\<close>-th outstanding descriptor of an enabled channel is
  processed in finitely many steps: exactly the first \<open>k + 1\<close> outstanding buffers are handed back to
  the client, in the order they were queued, each with the length of the event and the overflow
  status when the code says so; the later ones stay queued, both rings stay in step, and each
  outbound packet leaves the count of pending packets.
\<close>

theorem parse_xfer_event_completes:
  assumes s: "chan_sync ch" and pa: "\<not> pre_alloc ch" and en: "ch_state ch = MHI_CH_STATE_ENABLED"
    and code: "completion_code (MHI_TRE_GET_EV_CODE event)"
    and el: "ring_el_size (tre_ring ch) = 16" and k: "k < ring_used (tre_ring ch)"
    and ptr: "MHI_TRE_GET_EV_PTR event = mhi_to_physical (tre_ring ch)
      (ring_slot (tre_ring ch) ((ring_idx (tre_ring ch) (ring_rp (tre_ring ch)) + k) mod slots (tre_ring ch)))"
  shows "\<exists>ch' c'. parse_xfer_event dma_map event ch c = Some (ch', c') \<and> chan_sync ch' \<and>
    ring_list (tre_ring ch') = drop (Suc k) (ring_list (tre_ring ch)) \<and>
    ring_list (buf_ring ch') = drop (Suc k) (ring_list (buf_ring ch)) \<and>
    xfer_cbs (trace c') = xfer_cbs (trace c) @
      map (\<lambda>bi. (chan ch, xfer_result event
          (if MHI_TRE_GET_EV_CODE event = MHI_EV_CC_OVERFLOW then Some EOVERFLOW else None) ch bi))
        (take (Suc k) (ring_list (buf_ring ch))) \<and>
    pending_pkts c' = pending_pkts c - (if ch_dir ch = DMA_TO_DEVICE then int (Suc k) else 0)"
proof -
  let ?r = "tre_ring ch" and ?code = "MHI_TRE_GET_EV_CODE event"
  let ?i = "(ring_idx ?r (ring_rp ?r) + k) mod slots ?r"
  let ?status = "if ?code = MHI_EV_CC_OVERFLOW then Some EOVERFLOW else None"
  note wf = chan_syncD(1) [OF s]
  note w = ring_wfD [OF wf]
  have i: "?i < slots ?r" using w(4) by simp
  note sl = ring_slot_valid [OF w(1) i]
  have adv: "ring_advance ?r (ring_slot ?r ?i) = ring_slot ?r ((ring_idx ?r (ring_rp ?r) + Suc k) mod slots ?r)"
    using ring_advance_valid [OF w(1) sl(1)] ring_slot_idx [OF w(1)] sl(2)
    by (metis add_Suc_right mod_Suc_eq)
  have run: "parse_xfer_event dma_map event ch c =
      xfer_complete_loop dma_map event ?status (ring_advance ?r (ring_slot ?r ?i)) (used_event_inc ?code ch, c)"
    using en code ptr el
    by (simp add: parse_xfer_event_def completion_code_def ring_advance_def Let_def)
  show ?thesis
    using xfer_complete_loop_spec [of "used_event_inc ?code ch" "Suc k", OF _ _ _ adv [THEN trans]] s pa k
    by (simp add: run)
qed

text \<open>
  An event for a channel that is not enabled changes nothing: no buffer is completed and no
  callback runs.
\<close>

theorem parse_xfer_event_disabled:
  "ch_state ch \<noteq> MHI_CH_STATE_ENABLED \<Longrightarrow> parse_xfer_event dma_map event ch c = Some (ch, c)"
  by (simp add: parse_xfer_event_def Let_def)

subsection \<open>Resetting\<close>

lemma reset_data_one_spec:
  assumes "reset_data_one (ch, c) = (ch', c')"
  shows "ch' = ch\<lparr>buf_ring := mhi_del_ring_element (buf_ring ch), tre_ring := mhi_del_ring_element (tre_ring ch)\<rparr>"
    and "\<not> pre_alloc ch \<Longrightarrow> xfer_cbs (trace c') =
      xfer_cbs (trace c) @ [(chan ch, reset_result (ring_front (buf_ring ch)))]"
    and "pending_pkts c' = pending_pkts c - (if ch_dir ch = DMA_TO_DEVICE then 1 else 0)"
  using assms by (auto simp: reset_data_one_def Let_def mhi_deassert_dev_wake_def split: if_splits)

lemma mhi_reset_data_chan_all:
  assumes "chan_sync ch" and "\<not> pre_alloc ch"
  shows "\<exists>ch' c'. mhi_reset_data_chan (ch, c) = Some (ch', c') \<and> chan_sync ch' \<and>
    ring_list (tre_ring ch') = [] \<and> ring_list (buf_ring ch') = [] \<and>
    xfer_cbs (trace c') = xfer_cbs (trace c) @ map (\<lambda>bi. (chan ch, reset_result bi)) (ring_list (buf_ring ch)) \<and>
    pending_pkts c' = pending_pkts c - (if ch_dir ch = DMA_TO_DEVICE then int (ring_used (tre_ring ch)) else 0)"
  using assms
proof (induction n \<equiv> "ring_used (tre_ring ch)" arbitrary: ch c)
  case 0
  then have "ring_rp (tre_ring ch) = ring_wp (tre_ring ch)" and "ring_used (buf_ring ch) = 0"
    using ring_used_zero_iff [OF chan_syncD(1) [OF 0(2)]] by (auto simp: chan_sync_def)
  with 0 show ?case
    by (subst mhi_reset_data_chan.simps) (simp add: ring_list_def)
next
  case (Suc n)
  note wf = chan_syncD(1) [OF Suc.prems(1)]
  have out: "ring_rp (tre_ring ch) \<noteq> ring_wp (tre_ring ch)"
    using Suc.hyps(2) ring_used_zero_iff [OF wf] by auto
  obtain ch1 c1 where one: "reset_data_one (ch, c) = (ch1, c1)" by fastforce
  note st = reset_data_one_spec [OF one] and pop = chan_pop [OF Suc.prems(1) out]
  have n: "n = ring_used (tre_ring ch1)"
    using Suc.hyps(2) wf out by (simp add: st(1) ring_used_del)
  have keep: "chan ch1 = chan ch" "ch_dir ch1 = ch_dir ch" "pre_alloc ch1 = pre_alloc ch"
    by (simp_all add: st(1))
  have lists: "ring_list (buf_ring ch) = ring_front (buf_ring ch) # ring_list (buf_ring ch1)"
    using pop(3) by (simp add: st(1))
  have loop: "mhi_reset_data_chan (ch, c) = mhi_reset_data_chan (ch1, c1)"
    using out one by (subst mhi_reset_data_chan.simps) simp
  show ?case
    using Suc.hyps(1) [OF n, of c1] pop(1) Suc.prems(2) st(2,3) lists Suc.hyps(2)
    by (auto simp: loop keep st(1) [symmetric] n)
qed

text \<open>
  Resetting a data channel ends, empties both rings, and hands every outstanding buffer back to
  the client exactly once, oldest first, with status ENOTCONN; the count of pending packets drops by
  the number of outbound buffers returned.
\<close>

theorem mhi_reset_data_chan_spec:
  assumes "chan_sync ch" and "\<not> pre_alloc ch"
  shows "\<exists>ch' c'. mhi_reset_data_chan (ch, c) = Some (ch', c') \<and> chan_sync ch' \<and>
    ring_list (tre_ring ch') = [] \<and> ring_list (buf_ring ch') = [] \<and>
    xfer_cbs (trace c') = xfer_cbs (trace c) @ map (\<lambda>bi. (chan ch, reset_result bi)) (ring_list (buf_ring ch)) \<and>
    pending_pkts c' = pending_pkts c - (if ch_dir ch = DMA_TO_DEVICE then int (ring_used (tre_ring ch)) else 0)"
  using assms by (rule mhi_reset_data_chan_all)

subsection \<open>Commands\<close>

text \<open>
  Sending a command fails exactly when the command ring is full, and then changes nothing.
  Otherwise the command is appended to the ring, and while doorbells may be rung (state M0) the last
  thing written to the device is the bus address of the new write pointer, to the command doorbell.
\<close>

theorem mhi_send_cmd_spec:
  assumes wf: "ring_wf (mhi_cmd c)" and sm: "slots (mhi_cmd c) < 2 ^ 31"
    and run: "mhi_send_cmd chn cmd c = (r, c')"
  shows "(r = Inl ENOMEM \<and> mhi_is_ring_full (mhi_cmd c) \<and> c' = c) \<or>
    (r = Inr () \<and> \<not> mhi_is_ring_full (mhi_cmd c) \<and> ring_wf (mhi_cmd c') \<and>
     (\<exists>er. ring_list (mhi_cmd c') = ring_list (mhi_cmd c) @ [cmd_tre cmd chn er]) \<and>
     trace c' = trace c @ (if MHI_DB_ACCESS_VALID (pm_state c)
       then db_writes (ring_db_addr (mhi_cmd c)) (mhi_to_physical (mhi_cmd c') (ring_wp (mhi_cmd c'))) else []))"
proof -
  have "get_nr_avail_ring_elements (mhi_cmd c) = 0 \<longleftrightarrow> slots (mhi_cmd c) - 1 - ring_used (mhi_cmd c) = 0"
    by (simp only: get_nr_avail_ring_elements_eq [OF wf sm] of_nat_eq_0_iff)
  also have "\<dots> \<longleftrightarrow> ring_used (mhi_cmd c) = slots (mhi_cmd c) - 1"
    using ring_used_less [OF wf] by linarith
  finally have full: "get_nr_avail_ring_elements (mhi_cmd c) = 0 \<longleftrightarrow> mhi_is_ring_full (mhi_cmd c)"
    by (simp only: mhi_is_ring_full_iff [OF wf])
  show ?thesis
  proof (cases "mhi_is_ring_full (mhi_cmd c)")
    case True
    with full run show ?thesis by (simp add: mhi_send_cmd_def Let_def)
  next
    case False
    with full run ring_list_put [OF wf False] ring_put_wf [OF wf] show ?thesis
      by (auto simp: mhi_send_cmd_def Let_def mhi_ring_cmd_db_def mhi_to_physical_def db_writes_def
          ring_put_def mhi_add_ring_element_def ring_store_def add.commute split: if_splits)
  qed
qed

subsection \<open>Stale events\<close>

definition tx_event_for :: "u32 \<Rightarrow> mhi_tre \<Rightarrow> bool" where
  "tx_event_for chn e \<longleftrightarrow> MHI_TRE_GET_EV_TYPE e = MHI_PKT_TYPE_TX_EVENT \<and> chn = MHI_TRE_GET_EV_CHID e"

definition stale_event :: "u32 \<Rightarrow> mhi_tre \<Rightarrow> mhi_tre" where
  "stale_event chn e =
     (if tx_event_for chn e then e\<lparr>tre_dword1 := MHI_TRE_EV_DWORD1 chn MHI_PKT_TYPE_STALE_EVENT\<rparr> else e)"

lemma stale_event_not_tx: "\<not> tx_event_for chn (stale_event chn e)"
proof (cases "tx_event_for chn e")
  case True
  then have "chn AND 0xFF = chn"
    by (auto simp: tx_event_for_def tre_macros and.assoc)
  moreover have "MHI_PKT_TYPE_STALE_EVENT AND 0xFF = MHI_PKT_TYPE_STALE_EVENT"
    by (simp add: MHI_PKT_TYPE_STALE_EVENT_def)
  ultimately have "MHI_TRE_GET_EV_TYPE (stale_event chn e) = MHI_PKT_TYPE_STALE_EVENT"
    using True two_byte_fields(2) by (simp add: stale_event_def tre_macros)
  then show ?thesis by (simp add: tx_event_for_def MHI_PKT_TYPE_STALE_EVENT_def MHI_PKT_TYPE_TX_EVENT_def)
next
  case False
  then show ?thesis by (simp add: stale_event_def)
qed

lemma mark_stale_one_eq:
  "mark_stale_one chn p r = r\<lparr>ring_mem := (ring_mem r)(p := stale_event chn (ring_mem r p))\<rparr>"
  by (simp add: mark_stale_one_def stale_event_def tx_event_for_def Let_def)

text \<open>The addresses of \<open>m\<close> elements from \<open>p\<close> on.\<close>

definition ring_range :: "'e mhi_ring \<Rightarrow> u64 \<Rightarrow> nat \<Rightarrow> u64 set" where
  "ring_range r p m = (\<lambda>j. ring_slot r ((ring_idx r p + j) mod slots r)) ` {..<m}"

lemma ring_step_eq_advance:
  assumes g: "ring_geom r" and el: "ring_el_size r = 16" and p: "valid_ptr r p"
  shows "(if p + 16 = ring_base r + ring_len r then ring_base r else p + 16) = ring_advance r p"
proof -
  note up = valid_ptr_unat [OF g p]
  have len: "unat (ring_len r) = slots r * 16" and nw: "unat (ring_base r) + unat (ring_len r) < 2 ^ 64"
    using g el by (auto simp: ring_geom_def)
  have un: "unat (p + 16) = unat (ring_base r) + Suc (ring_idx r p) * 16"
    using up len nw el by (subst unat_add_no_wrap) auto
  then have "p + 16 \<le> ring_base r + ring_len r"
    using up(2) len by (simp add: word_le_nat_alt unat_ring_end [OF g])
  then show ?thesis using el by (auto simp: ring_advance_def Let_def)
qed

lemma ring_range_Suc:
  assumes g: "ring_geom r" and p: "valid_ptr r p" and m: "Suc m < slots r"
  shows "ring_range r p (Suc m) = insert p (ring_range r (ring_advance r p) m)"
    and "p \<notin> ring_range r (ring_advance r p) m"
    and "ring_slot r ((ring_idx r (ring_advance r p) + m) mod slots r) = ring_slot r ((ring_idx r p + Suc m) mod slots r)"
proof -
  note up = valid_ptr_unat [OF g p] and adv = ring_advance_valid [OF g p]
  have sh: "(ring_idx r (ring_advance r p) + j) mod slots r = (ring_idx r p + Suc j) mod slots r" for j
    by (simp add: adv(2) mod_add_left_eq)
  then show "ring_slot r ((ring_idx r (ring_advance r p) + m) mod slots r) =
      ring_slot r ((ring_idx r p + Suc m) mod slots r)" by simp
  show "ring_range r p (Suc m) = insert p (ring_range r (ring_advance r p) m)"
    using up(2) ring_slot_idx [OF g p]
    by (auto simp: ring_range_def sh lessThan_Suc_eq_insert_0 image_image simp del: add_Suc_right)
  show "p \<notin> ring_range r (ring_advance r p) m"
  proof
    assume "p \<in> ring_range r (ring_advance r p) m"
    then obtain j where j: "j < m" and eq: "p = ring_slot r ((ring_idx r p + Suc j) mod slots r)"
      by (auto simp: ring_range_def sh simp del: add_Suc_right)
    have "(ring_idx r p + Suc j) mod slots r = (ring_idx r p + 0) mod slots r"
      using ring_slot_valid(2) [OF g, of "(ring_idx r p + Suc j) mod slots r"] eq up(2) by simp
    then have "Suc j = 0" by (rule mod_add_left_inj) (use j m in auto)
    then show False by simp
  qed
qed

lemma mark_stale_loop_spec:
  assumes "ring_geom r" and "ring_el_size r = 16" and "valid_ptr r p" and "m < slots r"
    and "dev_rp = ring_slot r ((ring_idx r p + m) mod slots r)"
  shows "mark_stale_loop chn dev_rp p r =
    Some (r\<lparr>ring_mem := (\<lambda>a. if a \<in> ring_range r p m then stale_event chn (ring_mem r a) else ring_mem r a)\<rparr>)"
  using assms
proof (induction m arbitrary: p r)
  case 0
  then show ?case
    using valid_ptr_unat(2) [of r p]
    by (subst mark_stale_loop.simps) (simp add: ring_slot_idx ring_range_def)
next
  case (Suc m)
  note g = Suc.prems(1) and p = Suc.prems(3)
  note adv = ring_advance_valid [OF g p] and rg = ring_range_Suc [OF g p Suc.prems(4)]
  have ne: "dev_rp \<noteq> p"
  proof
    assume "dev_rp = p"
    then have "(ring_idx r p + Suc m) mod slots r = (ring_idx r p + 0) mod slots r"
      using ring_slot_valid(2) [OF g, of "(ring_idx r p + Suc m) mod slots r"] Suc.prems(5)
        valid_ptr_unat(2) [OF g p] by simp
    then have "Suc m = 0" by (rule mod_add_left_inj) (use Suc.prems(4) in auto)
    then show False by simp
  qed
  let ?r = "mark_stale_one chn p r"
  have rr: "ring_range ?r = ring_range r" by (simp add: mark_stale_one_eq ring_range_def fun_eq_iff)
  have "mark_stale_loop chn dev_rp p r = mark_stale_loop chn dev_rp (ring_advance r p) ?r"
    using ne ring_step_eq_advance [OF g Suc.prems(2) p]
    by (subst mark_stale_loop.simps) (simp add: Let_def)
  also have "\<dots> = Some (?r\<lparr>ring_mem := (\<lambda>a. if a \<in> ring_range ?r (ring_advance r p) m
      then stale_event chn (ring_mem ?r a) else ring_mem ?r a)\<rparr>)"
    using Suc.prems adv rg(3) by (intro Suc.IH) (simp_all add: mark_stale_one_eq)
  also have "\<dots> = Some (r\<lparr>ring_mem := (\<lambda>a. if a \<in> ring_range r p (Suc m)
      then stale_event chn (ring_mem r a) else ring_mem r a)\<rparr>)"
    using rg(1,2) by (auto simp: rr) (auto simp: mark_stale_one_eq fun_eq_iff)
  finally show ?case .
qed

text \<open>
  Marking stale events ends when the device's read pointer lies in the ring, and afterwards no
  pending event reports a transfer on the channel, while the events of other channels, and every
  element that is not pending, are as before.
\<close>

theorem mhi_mark_stale_events_spec:
  assumes wf: "ring_wf (ev_ring ev)" and el: "ring_el_size (ev_ring ev) = 16" and m: "m < slots (ev_ring ev)"
    and dev: "mhi_to_virtual (ev_ring ev) (ring_ctxt_rp (ev_ring ev)) =
      ring_slot (ev_ring ev) ((ring_idx (ev_ring ev) (ring_rp (ev_ring ev)) + m) mod slots (ev_ring ev))"
  shows "\<exists>ev'. mhi_mark_stale_events chn ev = Some ev' \<and>
    (\<forall>a \<in> ring_range (ev_ring ev) (ring_rp (ev_ring ev)) m. \<not> tx_event_for chn (ring_mem (ev_ring ev') a)) \<and>
    (\<forall>a. \<not> tx_event_for chn (ring_mem (ev_ring ev) a) \<or> a \<notin> ring_range (ev_ring ev) (ring_rp (ev_ring ev)) m \<longrightarrow>
       ring_mem (ev_ring ev') a = ring_mem (ev_ring ev) a)"
  using mark_stale_loop_spec [OF ring_wfD(1) [OF wf] el ring_wfD(2) [OF wf] m dev, of chn]
  by (auto simp: mhi_mark_stale_events_def Let_def stale_event_not_tx) (simp add: stale_event_def)

end
