(* ===== verification/MHI_Chan.thy ===== *)
theory MHI_Chan
  imports MHI_Xfer
begin

text \<open>
  Opening and closing channels (\<^verbatim>\<open>core/mhi_main.c\<close>, \<^verbatim>\<open>core/mhi_init.c\<close>): the start and reset
  handshakes with the device, the transfers of a client device with its two channels, and the removal
  of a client driver.

  A function names a channel by its index in \<open>mhi_chans\<close>. While it sleeps for a command completion,
  other threads and the device act: each sleep is a list of state changes, as \<open>wait_event\<close> describes.
  A result \<open>None\<close> is a loop on the event ring that does not end.
\<close>

subsection \<open>Access and completions\<close>

definition chan_at :: "mhi_controller \<Rightarrow> nat \<Rightarrow> mhi_chan" where
  "chan_at c i = mhi_chans c ! i"

definition chan_put :: "nat \<Rightarrow> mhi_chan \<Rightarrow> mhi_controller \<Rightarrow> mhi_controller" where
  "chan_put i ch c = c\<lparr>mhi_chans := (mhi_chans c)[i := ch]\<rparr>"

text \<open>\<^verbatim>\<open>complete_all\<close> stores the largest count, which waiting does not consume.\<close>

definition COMPLETE_ALL :: nat where "COMPLETE_ALL = 4294967295"

definition wait_chan_completion ::
  "nat \<Rightarrow> (mhi_controller \<Rightarrow> mhi_controller) list \<Rightarrow> mhi_controller \<Rightarrow> bool \<times> mhi_controller" where
  "wait_chan_completion i es c =
     (let (ok, c') = wait_event_timeout (\<lambda>c. 0 < ch_completion (chan_at c i)) es c; ch = chan_at c' i
      in (ok, if ok \<and> ch_completion ch \<noteq> COMPLETE_ALL
              then chan_put i (ch\<lparr>ch_completion := ch_completion ch - 1\<rparr>) c' else c'))"

subsection \<open>Closing a channel\<close>

text \<open>The reset command of \<^verbatim>\<open>__mhi_unprepare_channel\<close> and the wait for its completion.\<close>

definition unprep_reset_cmd ::
  "(mhi_controller \<Rightarrow> mhi_controller) list \<Rightarrow> nat \<Rightarrow> u32 \<Rightarrow> mhi_controller \<Rightarrow> mhi_controller" where
  "unprep_reset_cmd es i chn c =
     (if MHI_PM_IN_ERROR_STATE (pm_state c) then c
      else (let c2 = emit RuntimeGet (mhi_assert_dev_wake c);
                (r, c3) = mhi_send_cmd chn MHI_CMD_RESET_CHAN c2;
                c4 = (case r of Inl _ \<Rightarrow> c3 | Inr _ \<Rightarrow> snd (wait_chan_completion i es c3))
            in mhi_deassert_dev_wake (emit RuntimePut c4)))"

text \<open>\<^verbatim>\<open>__mhi_unprepare_channel\<close>\<close>

definition mhi_unprepare_channel ::
  "(mhi_controller \<Rightarrow> mhi_controller) list \<Rightarrow> nat \<Rightarrow> mhi_controller \<Rightarrow> mhi_controller option" where
  "mhi_unprepare_channel es i c =
     (let ch = chan_at c i
      in if ch_state ch \<noteq> MHI_CH_STATE_ENABLED then Some c
         else (let c1 = chan_put i (ch\<lparr>ch_state := MHI_CH_STATE_DISABLED, ch_completion := 0\<rparr>) c;
                   c2 = unprep_reset_cmd es i (chan ch) c1
               in if offload_ch (chan_at c2 i) then Some c2
                  else (case mhi_reset_chan (chan_at c2 i) c2 of
                          None \<Rightarrow> None
                        | Some (ch1, c3) \<Rightarrow>
                            (let (ch2, c4) = mhi_deinit_chan_ctxt ch1 c3 in Some (chan_put i ch2 c4)))))"

subsection \<open>Opening a channel\<close>

text \<open>
  What the surroundings supply: the memory for the local ring, the changes during the wait for the
  start command, the buffers \<^verbatim>\<open>kmalloc\<close> returns for preallocation, the DMA mapping, and the changes
  during the wait of the clean-up.
\<close>

record prep_env =
  pe_buf :: "u64 option"
  pe_wait :: "(mhi_controller \<Rightarrow> mhi_controller) list"
  pe_kmalloc :: "nat \<Rightarrow> u64 option"
  pe_dma :: dma_map_fn
  pe_wait_cleanup :: "(mhi_controller \<Rightarrow> mhi_controller) list"

fun prealloc_loop ::
  "dma_map_fn \<Rightarrow> (nat \<Rightarrow> u64 option) \<Rightarrow> u64 \<Rightarrow> nat \<Rightarrow> mhi_chan \<Rightarrow> mhi_controller \<Rightarrow>
   unit res \<times> mhi_chan \<times> mhi_controller" where
  "prealloc_loop dma_map alloc len 0 ch c = (Inr (), ch, c)"
| "prealloc_loop dma_map alloc len (Suc n) ch c =
     (case alloc n of
        None \<Rightarrow> (Inl ENOMEM, ch, c)
      | Some buf \<Rightarrow>
          (case mhi_gen_tre dma_map buf buf len MHI_EOT ch of
             (Inl e, ch') \<Rightarrow> (Inl e, ch', emit (Kfree buf) c)
           | (Inr _, ch') \<Rightarrow> prealloc_loop dma_map alloc len n ch' c))"

definition prep_error_pm_state :: "nat \<Rightarrow> mhi_controller \<Rightarrow> mhi_controller" where
  "prep_error_pm_state i c =
     (if offload_ch (chan_at c i) then c
      else (let (ch, c') = mhi_deinit_chan_ctxt (chan_at c i) c in chan_put i ch c'))"

definition prep_error_send_cmd :: "nat \<Rightarrow> mhi_controller \<Rightarrow> mhi_controller" where
  "prep_error_send_cmd i c = prep_error_pm_state i (mhi_deassert_dev_wake (emit RuntimePut c))"

text \<open>The part of \<^verbatim>\<open>__mhi_prepare_channel\<close> after the device has started the channel.\<close>

definition prep_finish ::
  "prep_env \<Rightarrow> nat \<Rightarrow> mhi_controller \<Rightarrow> (unit res \<times> mhi_controller) option" where
  "prep_finish env i c =
     (let ch = (chan_at c i)\<lparr>ch_state := MHI_CH_STATE_ENABLED\<rparr>; c1 = chan_put i ch (emit RuntimePut c)
      in if pre_alloc ch
         then (case prealloc_loop (pe_dma env) (pe_kmalloc env) (buffer_len c1)
                     (nat (get_nr_avail_ring_elements (tre_ring ch))) ch c1 of
                 (Inl e, ch2, c2) \<Rightarrow>
                   (case mhi_unprepare_channel (pe_wait_cleanup env) i (mhi_deassert_dev_wake (chan_put i ch2 c2)) of
                      None \<Rightarrow> None | Some c3 \<Rightarrow> Some (Inl e, c3))
               | (Inr _, ch2, c2) \<Rightarrow>
                   (let (ch3, c3) = queue_ring_db ch2 c2
                    in Some (Inr (), mhi_deassert_dev_wake (chan_put i ch3 c3))))
         else Some (Inr (), mhi_deassert_dev_wake c1))"

text \<open>\<^verbatim>\<open>__mhi_prepare_channel\<close>\<close>

definition mhi_prepare_channel ::
  "prep_env \<Rightarrow> nat \<Rightarrow> mhi_controller \<Rightarrow> (unit res \<times> mhi_controller) option" where
  "mhi_prepare_channel env i c =
     (let ch = chan_at c i
      in if BIT (unat (ee c)) AND ee_mask ch = 0 then Some (Inl ENOTCONN, c)
         else if ch_state ch \<noteq> MHI_CH_STATE_DISABLED then Some (Inl EIO, c)
         else (case (if offload_ch ch then (Inr (), ch) else mhi_init_chan_ctxt (pe_buf env) c ch) of
                 (Inl e, ch0) \<Rightarrow> Some (Inl e, chan_put i ch0 c)
               | (Inr _, ch0) \<Rightarrow>
                   (let c1 = chan_put i (ch0\<lparr>ch_completion := 0\<rparr>) c
                    in if MHI_PM_IN_ERROR_STATE (pm_state c1) then Some (Inl EIO, prep_error_pm_state i c1)
                       else (case mhi_send_cmd (chan ch) MHI_CMD_START_CHAN
                                    (emit RuntimeGet (mhi_assert_dev_wake c1)) of
                               (Inl e, c2) \<Rightarrow> Some (Inl e, prep_error_send_cmd i c2)
                             | (Inr _, c2) \<Rightarrow>
                                 (let (ok, c3) = wait_chan_completion i (pe_wait env) c2
                                  in if \<not> ok \<or> ch_ccs (chan_at c3 i) \<noteq> MHI_EV_CC_SUCCESS
                                     then Some (Inl EIO, prep_error_send_cmd i c3)
                                     else prep_finish env i c3)))))"

subsection \<open>The channels of a client device\<close>

record mhi_device =
  ul_chan :: "nat option"
  dl_chan :: "nat option"
  md_dev_wake :: nat

definition mhi_prepare_for_transfer ::
  "prep_env \<Rightarrow> prep_env \<Rightarrow> (mhi_controller \<Rightarrow> mhi_controller) list \<Rightarrow> mhi_device \<Rightarrow> mhi_controller \<Rightarrow>
   (unit res \<times> mhi_controller) option" where
  "mhi_prepare_for_transfer env_ul env_dl es dev c =
     (case (case ul_chan dev of None \<Rightarrow> Some (Inr (), c) | Some i \<Rightarrow> mhi_prepare_channel env_ul i c) of
        None \<Rightarrow> None
      | Some (Inl e, c1) \<Rightarrow> Some (Inl e, c1)
      | Some (Inr _, c1) \<Rightarrow>
          if ul_chan dev \<noteq> None \<and> dl_chan dev = ul_chan dev then Some (Inr (), c1)
          else (case dl_chan dev of
                  None \<Rightarrow> Some (Inr (), c1)
                | Some j \<Rightarrow>
                    (case mhi_prepare_channel env_dl j c1 of
                       None \<Rightarrow> None
                     | Some (Inr _, c2) \<Rightarrow> Some (Inr (), c2)
                     | Some (Inl e, c2) \<Rightarrow>
                         (case ul_chan dev of
                            None \<Rightarrow> Some (Inl e, c2)
                          | Some i \<Rightarrow> (case mhi_unprepare_channel es i c2 of
                                         None \<Rightarrow> None | Some c3 \<Rightarrow> Some (Inl e, c3))))))"

definition mhi_unprepare_from_transfer ::
  "(mhi_controller \<Rightarrow> mhi_controller) list \<Rightarrow> (mhi_controller \<Rightarrow> mhi_controller) list \<Rightarrow> mhi_device \<Rightarrow>
   mhi_controller \<Rightarrow> mhi_controller option" where
  "mhi_unprepare_from_transfer es_dl es_ul dev c =
     (case (case dl_chan dev of None \<Rightarrow> Some c | Some j \<Rightarrow> mhi_unprepare_channel es_dl j c) of
        None \<Rightarrow> None
      | Some c1 \<Rightarrow>
          if dl_chan dev \<noteq> None \<and> dl_chan dev = ul_chan dev then Some c1
          else (case ul_chan dev of None \<Rightarrow> Some c1 | Some i \<Rightarrow> mhi_unprepare_channel es_ul i c1))"

definition mhi_get_no_free_descriptors :: "mhi_chan \<Rightarrow> int" where
  "mhi_get_no_free_descriptors ch =
     (if offload_ch ch then 0 else get_nr_avail_ring_elements (tre_ring ch))"

subsection \<open>Removing a client driver\<close>

text \<open>
  The two loops of \<^verbatim>\<open>mhi_driver_remove\<close>, for one channel each; \<open>remove\<close> is the client's own remove
  function. The downlink channel comes first.
\<close>

definition remove_reset :: "nat \<Rightarrow> mhi_controller \<Rightarrow> (MHI_CH_STATE \<times> mhi_controller) option" where
  "remove_reset i c =
     (let ch = (chan_at c i)\<lparr>ch_ccs := MHI_EV_CC_INVALID, ch_completion := COMPLETE_ALL\<rparr>;
          old = ch_state ch; ch1 = ch\<lparr>ch_state := MHI_CH_STATE_SUSPENDED\<rparr>
      in if offload_ch ch1 then Some (old, chan_put i ch1 c)
         else (case mhi_reset_chan ch1 c of
                 None \<Rightarrow> None | Some (ch2, c2) \<Rightarrow> Some (old, chan_put i ch2 c2)))"

definition remove_deinit :: "MHI_CH_STATE \<Rightarrow> nat \<Rightarrow> mhi_controller \<Rightarrow> mhi_controller" where
  "remove_deinit old i c =
     (let ch = chan_at c i;
          (ch1, c1) = if old = MHI_CH_STATE_ENABLED \<and> \<not> offload_ch ch then mhi_deinit_chan_ctxt ch c else (ch, c)
      in chan_put i (ch1\<lparr>ch_state := MHI_CH_STATE_DISABLED\<rparr>) c1)"

definition opt_chan ::
  "(nat \<Rightarrow> mhi_controller \<Rightarrow> ('a \<times> mhi_controller) option) \<Rightarrow> 'a \<Rightarrow> nat option \<Rightarrow> mhi_controller \<Rightarrow>
   ('a \<times> mhi_controller) option" where
  "opt_chan f d i c = (case i of None \<Rightarrow> Some (d, c) | Some i \<Rightarrow> f i c)"

definition mhi_driver_remove ::
  "(mhi_controller \<Rightarrow> mhi_controller) \<Rightarrow> mhi_device \<Rightarrow> mhi_controller \<Rightarrow> (mhi_device \<times> mhi_controller) option" where
  "mhi_driver_remove remove dev c =
     (case opt_chan remove_reset MHI_CH_STATE_DISABLED (dl_chan dev) c of
        None \<Rightarrow> None
      | Some (st_dl, c1) \<Rightarrow>
          (case opt_chan remove_reset MHI_CH_STATE_DISABLED (ul_chan dev) c1 of
             None \<Rightarrow> None
           | Some (st_ul, c2) \<Rightarrow>
               (let c3 = remove c2;
                    c4 = (case dl_chan dev of None \<Rightarrow> c3 | Some j \<Rightarrow> remove_deinit st_dl j c3);
                    c5 = (case ul_chan dev of None \<Rightarrow> c4 | Some i \<Rightarrow> remove_deinit st_ul i c4);
                    c6 = (mhi_deassert_dev_wake ^^ md_dev_wake dev) c5
                in Some (dev\<lparr>md_dev_wake := 0\<rparr>, c6))))"

subsection \<open>What the surroundings may do meanwhile\<close>

text \<open>
  A channel that is not enabled is touched by the others only through a command completion: it stores
  the completion code and completes.
\<close>

definition chan_same :: "mhi_chan \<Rightarrow> mhi_chan \<Rightarrow> bool" where
  "chan_same ch ch' \<longleftrightarrow> (\<exists>n v. ch' = ch\<lparr>ch_completion := n, ch_ccs := v\<rparr>)"

definition env_keeps :: "nat \<Rightarrow> (mhi_controller \<Rightarrow> mhi_controller) list \<Rightarrow> bool" where
  "env_keeps i es \<longleftrightarrow> (\<forall>e \<in> set es. \<forall>c. length (mhi_chans (e c)) = length (mhi_chans c) \<and>
     chan_same (chan_at c i) (chan_at (e c) i))"

lemma chan_sameI: "ch' = ch\<lparr>ch_completion := n, ch_ccs := v\<rparr> \<Longrightarrow> chan_same ch ch'"
  by (auto simp: chan_same_def)

lemma chan_same_refl [simp]: "chan_same ch ch"
  by (rule chan_sameI [where n = "ch_completion ch" and v = "ch_ccs ch"]) simp

lemma chan_same_completion [simp]: "chan_same ch (ch\<lparr>ch_completion := n\<rparr>)"
  by (rule chan_sameI [where n = n and v = "ch_ccs ch"]) simp

lemma chan_same_trans: "chan_same a b \<Longrightarrow> chan_same b d \<Longrightarrow> chan_same a d"
  by (auto simp: chan_same_def) blast

lemma chan_same_sel:
  assumes "chan_same ch ch'"
  shows "ch_state ch' = ch_state ch" "tre_ring ch' = tre_ring ch" "buf_ring ch' = buf_ring ch"
    "offload_ch ch' = offload_ch ch" "pre_alloc ch' = pre_alloc ch" "chan ch' = chan ch"
    "ch_dir ch' = ch_dir ch" "xfer_type ch' = xfer_type ch" "ch_er_index ch' = ch_er_index ch"
  using assms by (auto simp: chan_same_def)

lemma chan_at_put [simp]: "i < length (mhi_chans c) \<Longrightarrow> chan_at (chan_put i ch c) i = ch"
  by (simp add: chan_at_def chan_put_def)

lemma chan_put_sel [simp]:
  "length (mhi_chans (chan_put i ch c)) = length (mhi_chans c)" "pm_state (chan_put i ch c) = pm_state c"
  "trace (chan_put i ch c) = trace c" "mhi_events (chan_put i ch c) = mhi_events c" "ee (chan_put i ch c) = ee c"
  by (simp_all add: chan_put_def)

lemma chan_at_cong: "mhi_chans c' = mhi_chans c \<Longrightarrow> chan_at c' i = chan_at c i"
  by (simp add: chan_at_def)

lemma mhi_send_cmd_frame [simp]:
  "mhi_chans (snd (mhi_send_cmd n cmd c)) = mhi_chans c" "mhi_events (snd (mhi_send_cmd n cmd c)) = mhi_events c"
  "pm_state (snd (mhi_send_cmd n cmd c)) = pm_state c"
  by (simp_all add: mhi_send_cmd_def Let_def mhi_ring_cmd_db_def)

lemma mhi_assert_dev_wake_frame [simp]:
  "mhi_chans (mhi_assert_dev_wake c) = mhi_chans c" "mhi_events (mhi_assert_dev_wake c) = mhi_events c"
  "pm_state (mhi_assert_dev_wake c) = pm_state c"
  by (simp_all add: mhi_assert_dev_wake_def)

lemma wait_chan_completion_keeps:
  assumes env: "env_keeps i es" and i: "i < length (mhi_chans c)"
    and run: "wait_chan_completion i es c = (ok, c')"
  shows "length (mhi_chans c') = length (mhi_chans c)" and "chan_same (chan_at c i) (chan_at c' i)"
proof -
  let ?Q = "\<lambda>d. length (mhi_chans d) = length (mhi_chans c) \<and> chan_same (chan_at c i) (chan_at d i)"
  obtain d where d: "wait_event_timeout (\<lambda>c. 0 < ch_completion (chan_at c i)) es c = (ok, d)"
    using run by (auto simp: wait_chan_completion_def Let_def split: prod.splits)
  have "?Q (snd (wait_event_timeout (\<lambda>c. 0 < ch_completion (chan_at c i)) es c))"
    by (rule wait_event_timeout_inv) (use env in \<open>auto simp: env_keeps_def intro: chan_same_trans\<close>)
  then have Q: "?Q d" using d by simp
  then have "?Q c'" using run d i
    by (auto simp: wait_chan_completion_def Let_def split: if_splits intro: chan_same_trans)
  then show "length (mhi_chans c') = length (mhi_chans c)" "chan_same (chan_at c i) (chan_at c' i)"
    by simp_all
qed

subsection \<open>Free descriptors\<close>

text \<open>A channel whose ring is small enough for the count of free descriptors to be exact, and how queueing changes the count.\<close>

definition chan_fit :: "mhi_chan \<Rightarrow> bool" where
  "chan_fit ch \<longleftrightarrow> chan_sync ch \<and> slots (tre_ring ch) < 2 ^ 31 \<and> \<not> offload_ch ch"

lemma free_descriptors:
  "chan_fit ch \<Longrightarrow> mhi_get_no_free_descriptors ch = int (slots (tre_ring ch) - 1 - ring_used (tre_ring ch))"
  by (simp add: chan_fit_def mhi_get_no_free_descriptors_def get_nr_avail_ring_elements_eq chan_syncD)

lemma free_full: "chan_fit ch \<Longrightarrow> mhi_is_ring_full (tre_ring ch) \<longleftrightarrow> mhi_get_no_free_descriptors ch = 0"
proof -
  assume f: "chan_fit ch"
  then have w: "ring_wf (tre_ring ch)" by (simp add: chan_fit_def chan_syncD)
  have "mhi_is_ring_full (tre_ring ch) \<longleftrightarrow> slots (tre_ring ch) - 1 - ring_used (tre_ring ch) = 0"
    using mhi_is_ring_full_iff [OF w] ring_used_less [OF w] by linarith
  then show ?thesis by (simp only: free_descriptors [OF f] of_nat_eq_0_iff)
qed

lemma free_nonneg: "chan_fit ch \<Longrightarrow> 0 \<le> mhi_get_no_free_descriptors ch"
  by (simp add: free_descriptors)

lemma queue_fit:
  assumes f: "chan_fit ch" and s: "chan_sync ch'" and o: "queue_outcome ch c cb len r ch'"
    and k: "slots (tre_ring ch') = slots (tre_ring ch)" "offload_ch ch' = offload_ch ch"
  shows "chan_fit ch'" "mhi_get_no_free_descriptors ch' = mhi_get_no_free_descriptors ch - (if isl r then 0 else 1)"
proof -
  show f': "chan_fit ch'" using s k f by (simp add: chan_fit_def)
  have "length (ring_list (tre_ring ch')) = length (ring_list (tre_ring ch)) + (if isl r then 0 else 1)"
    using o by (cases r) (auto simp: queue_outcome_def simp del: length_ring_list)
  then have u: "ring_used (tre_ring ch') = ring_used (tre_ring ch) + (if isl r then 0 else 1)" by simp
  have "ring_used (tre_ring ch') < slots (tre_ring ch')" using f' by (simp add: chan_fit_def chan_syncD ring_used_less)
  then show "mhi_get_no_free_descriptors ch' = mhi_get_no_free_descriptors ch - (if isl r then 0 else 1)"
    using u k free_descriptors [OF f'] free_descriptors [OF f] by (auto simp: of_nat_diff)
qed

subsection \<open>Properties\<close>

lemma prep_error_chan:
  assumes "i < length (mhi_chans c)"
  shows "ch_state (chan_at (prep_error_pm_state i c) i) = ch_state (chan_at c i)"
    and "\<not> offload_ch (chan_at c i) \<Longrightarrow> ring_base (buf_ring (chan_at (prep_error_pm_state i c) i)) = 0"
  using assms
  by (auto simp: prep_error_pm_state_def mhi_deinit_chan_ctxt_def Let_def chan_at_def chan_put_def)

lemma mhi_init_chan_ctxt_keeps:
  "mhi_init_chan_ctxt b c ch = (r, ch') \<Longrightarrow>
   ch_state ch' = ch_state ch \<and> offload_ch ch' = offload_ch ch \<and> pre_alloc ch' = pre_alloc ch \<and> chan ch' = chan ch"
  "mhi_init_chan_ctxt b c ch = (Inl e, ch') \<Longrightarrow> ring_base (buf_ring ch') = 0"
  by (auto simp: mhi_init_chan_ctxt_def Let_def split: option.splits)

lemma prep_error_send_cmd_eq:
  "prep_error_send_cmd i c = prep_error_pm_state i (emit RuntimePut c)"
  by (simp add: prep_error_send_cmd_def mhi_deassert_dev_wake_def)

text \<open>The two stages of opening, as one case distinction the properties below share.\<close>

lemma mhi_prepare_channel_cases:
  assumes run: "mhi_prepare_channel env i c = Some (r, c')" and i: "i < length (mhi_chans c)"
    and env: "env_keeps i (pe_wait env)" and off: "\<not> offload_ch (chan_at c i)"
  obtains (refused) e where "r = Inl e" "c' = c"
  | (no_memory) e ch0 where "r = Inl e" "mhi_init_chan_ctxt (pe_buf env) c (chan_at c i) = (Inl e, ch0)"
      "c' = chan_put i ch0 c"
  | (failed) e d ch0 where "r = Inl e" "c' = prep_error_pm_state i d" "length (mhi_chans d) = length (mhi_chans c)"
      "mhi_init_chan_ctxt (pe_buf env) c (chan_at c i) = (Inr (), ch0)" "chan_same ch0 (chan_at d i)"
  | (started) d ch0 where "ch_state (chan_at c i) = MHI_CH_STATE_DISABLED"
      "BIT (unat (ee c)) AND ee_mask (chan_at c i) \<noteq> 0" "\<not> MHI_PM_IN_ERROR_STATE (pm_state c)"
      "length (mhi_chans d) = length (mhi_chans c)"
      "mhi_init_chan_ctxt (pe_buf env) c (chan_at c i) = (Inr (), ch0)" "chan_same ch0 (chan_at d i)"
      "ch_ccs (chan_at d i) = MHI_EV_CC_SUCCESS" "prep_finish env i d = Some (r, c')"
proof -
  consider (a) "BIT (unat (ee c)) AND ee_mask (chan_at c i) = 0 \<or> ch_state (chan_at c i) \<noteq> MHI_CH_STATE_DISABLED"
    | (b) "BIT (unat (ee c)) AND ee_mask (chan_at c i) \<noteq> 0" "ch_state (chan_at c i) = MHI_CH_STATE_DISABLED"
    by blast
  then show ?thesis
  proof cases
    case a
    with run show ?thesis by (auto simp: mhi_prepare_channel_def Let_def split: if_splits intro: refused)
  next
    case b
    obtain r0 ch0 where ini: "mhi_init_chan_ctxt (pe_buf env) c (chan_at c i) = (r0, ch0)" by fastforce
    show ?thesis
    proof (cases r0)
      case (Inl e)
      with b run off ini show ?thesis by (intro no_memory) (auto simp: mhi_prepare_channel_def Let_def)
    next
      case (Inr u)
      define c1 where "c1 = chan_put i (ch0\<lparr>ch_completion := 0\<rparr>) c"
      have c1: "chan_same ch0 (chan_at c1 i)" "length (mhi_chans c1) = length (mhi_chans c)"
        "pm_state c1 = pm_state c"
        using i by (simp_all add: c1_def)
      let ?cmd = "mhi_send_cmd (chan (chan_at c i)) MHI_CMD_START_CHAN (emit RuntimeGet (mhi_assert_dev_wake c1))"
      obtain r2 c2 where cmd: "?cmd = (r2, c2)" by fastforce
      have c2: "mhi_chans c2 = mhi_chans c1" using arg_cong [OF cmd, of snd] by auto
      obtain ok c3 where wt: "wait_chan_completion i (pe_wait env) c2 = (ok, c3)" by fastforce
      note keep = wait_chan_completion_keeps [OF env _ wt]
      have c3: "length (mhi_chans c3) = length (mhi_chans c)" "chan_same ch0 (chan_at c3 i)"
        using keep c1 c2 i chan_same_trans by (auto simp: chan_at_def)
      have step: "mhi_prepare_channel env i c =
          (if MHI_PM_IN_ERROR_STATE (pm_state c) then Some (Inl EIO, prep_error_pm_state i c1)
           else case r2 of Inl e \<Rightarrow> Some (Inl e, prep_error_pm_state i (emit RuntimePut c2))
             | Inr _ \<Rightarrow> if \<not> ok \<or> ch_ccs (chan_at c3 i) \<noteq> MHI_EV_CC_SUCCESS
                 then Some (Inl EIO, prep_error_pm_state i (emit RuntimePut c3)) else prep_finish env i c3)"
        using b off ini Inr cmd wt
        by (simp add: mhi_prepare_channel_def Let_def c1_def [symmetric] prep_error_send_cmd_eq split: sum.splits)
      show ?thesis
        using run step Inr ini c1 c2 c3 b
        by (auto simp: chan_at_def split: if_splits sum.splits
            intro: failed [of _ c1 ch0] failed [of _ "emit RuntimePut c2" ch0]
              failed [of _ "emit RuntimePut c3" ch0] started [of c3 ch0])
    qed
  qed
qed

text \<open>
  A channel that could not be opened is not enabled: its state is as before the call, and it
  is either untouched or its local ring has been released.
\<close>

theorem mhi_prepare_channel_error:
  assumes run: "mhi_prepare_channel env i c = Some (Inl e, c')" and i: "i < length (mhi_chans c)"
    and env: "env_keeps i (pe_wait env)" and off: "\<not> offload_ch (chan_at c i)" and pa: "\<not> pre_alloc (chan_at c i)"
  shows "ch_state (chan_at c' i) = ch_state (chan_at c i) \<and>
    (chan_at c' i = chan_at c i \<or> ring_base (buf_ring (chan_at c' i)) = 0)"
  using run i env off
proof (cases rule: mhi_prepare_channel_cases)
  case (no_memory e ch0)
  with i mhi_init_chan_ctxt_keeps show ?thesis by fastforce
next
  case (failed e d ch0)
  have "offload_ch (chan_at d i) = offload_ch ch0" "ch_state (chan_at d i) = ch_state ch0"
    using chan_same_sel [OF failed(5)] by simp_all
  moreover have "offload_ch ch0 = offload_ch (chan_at c i)" "ch_state ch0 = ch_state (chan_at c i)"
    using mhi_init_chan_ctxt_keeps(1) [OF failed(4)] by simp_all
  ultimately show ?thesis using prep_error_chan [of i d] failed(2,3) i off by simp
next
  case (started d ch0)
  have "pre_alloc (chan_at d i) = pre_alloc (chan_at c i)"
    using chan_same_sel(5) [OF started(6)] mhi_init_chan_ctxt_keeps(1) [OF started(5)] by simp
  with started(8) pa show ?thesis by (simp add: prep_finish_def Let_def)
qed simp

text \<open>
  (C27) A channel that was opened is enabled, it had been disabled and usable in the current
  execution environment, the device reported success for its start command, and both rings are
  empty, well-formed and in step.
\<close>

theorem mhi_prepare_channel_ok:
  assumes run: "mhi_prepare_channel env i c = Some (Inr u, c')" and i: "i < length (mhi_chans c)"
    and env: "env_keeps i (pe_wait env)" and off: "\<not> offload_ch (chan_at c i)" and pa: "\<not> pre_alloc (chan_at c i)"
    and buf: "pe_buf env = Some a" and n: "0 < n"
    and els: "ring_elements (tre_ring (chan_at c i)) = word_of_nat n" "ring_elements (buf_ring (chan_at c i)) = word_of_nat n"
    and sp: "unat (ctrl_seg c + word_of_int (chan_ring_offset (chan_at c i))) + n * 16 < 2 ^ 64"
      "unat a + n * 56 < 2 ^ 64"
  shows "ch_state (chan_at c i) = MHI_CH_STATE_DISABLED \<and> BIT (unat (ee c)) AND ee_mask (chan_at c i) \<noteq> 0 \<and>
    ch_state (chan_at c' i) = MHI_CH_STATE_ENABLED \<and> ch_ccs (chan_at c' i) = MHI_EV_CC_SUCCESS \<and>
    chan_sync (chan_at c' i) \<and> ring_list (tre_ring (chan_at c' i)) = [] \<and> ring_list (buf_ring (chan_at c' i)) = []"
  using run i env off
proof (cases rule: mhi_prepare_channel_cases)
  case (started d ch0)
  have pd: "\<not> pre_alloc (chan_at d i)"
    using chan_same_sel(5) [OF started(6)] mhi_init_chan_ctxt_keeps(1) [OF started(5)] pa by simp
  have c': "c' = chan_put i ((chan_at d i)\<lparr>ch_state := MHI_CH_STATE_ENABLED\<rparr>) (emit RuntimePut d)"
    using started(8) pd by (simp add: prep_finish_def Let_def mhi_deassert_dev_wake_def)
  note ch0 = mhi_init_chan_ctxt_fresh [OF started(5) [unfolded buf] els n sp]
  have "chan_sync ch0" "ring_list (tre_ring ch0) = []" "ring_list (buf_ring ch0) = []"
    using ch0 length_ring_list [of "tre_ring ch0"] length_ring_list [of "buf_ring ch0"]
    by (auto simp: chan_sync_def simp del: length_ring_list)
  then show ?thesis
    using c' started(1,2,4,7) i chan_same_sel(2,3) [OF started(6)]
    by (simp add: chan_at_def chan_put_def chan_sync_def)
qed simp_all

text \<open>
  The event ring of a channel is sound: a proper ring of 16-byte elements whose shared read pointer
  lies inside it, \<open>m\<close> elements ahead.
\<close>

definition er_sound :: "mhi_event \<Rightarrow> bool" where
  "er_sound ev \<longleftrightarrow> ring_wf (ev_ring ev) \<and> ring_el_size (ev_ring ev) = 16 \<and>
     valid_ptr (ev_ring ev) (mhi_to_virtual (ev_ring ev) (ring_ctxt_rp (ev_ring ev)))"

lemma er_sound_stale: "er_sound ev \<Longrightarrow> \<exists>ev'. mhi_mark_stale_events chn ev = Some ev'"
proof -
  assume s: "er_sound ev"
  let ?r = "ev_ring ev" and ?d = "mhi_to_virtual (ev_ring ev) (ring_ctxt_rp (ev_ring ev))"
  note w = ring_wfD [of ?r]
  have wf: "ring_wf ?r" and el: "ring_el_size ?r = 16" and d: "valid_ptr ?r ?d"
    using s by (auto simp: er_sound_def)
  let ?m = "(ring_idx ?r ?d + slots ?r - ring_idx ?r (ring_rp ?r)) mod slots ?r"
  have "?d = ring_slot ?r ((ring_idx ?r (ring_rp ?r) + ?m) mod slots ?r)"
    using mod_add_self_diff [OF w(5) [OF wf] valid_ptr_unat(2) [OF w(1) [OF wf] d]]
      ring_slot_idx [OF w(1) [OF wf] d] by simp
  moreover have "?m < slots ?r" using w(4) [OF wf] by simp
  ultimately show ?thesis
    using mark_stale_loop_spec [OF w(1) [OF wf] el w(2) [OF wf], of ?m ?d chn]
    by (simp add: mhi_mark_stale_events_def Let_def)
qed

lemma mhi_reset_chan_data:
  assumes s: "chan_sync ch" and pa: "\<not> pre_alloc ch" and off: "\<not> offload_ch ch"
    and xt: "xfer_type ch \<noteq> MHI_XFER_RSC_DMA" and er: "er_sound (mhi_events c ! unat (ch_er_index ch))"
  shows "\<exists>ch' c'. mhi_reset_chan ch c = Some (ch', c') \<and>
    ring_list (tre_ring ch') = [] \<and> ring_list (buf_ring ch') = [] \<and>
    xfer_cbs (trace c') = xfer_cbs (trace c) @ map (\<lambda>bi. (chan ch, reset_result bi)) (ring_list (buf_ring ch))"
proof -
  obtain ev where ev: "mhi_mark_stale_events (chan ch) (mhi_events c ! unat (ch_er_index ch)) = Some ev"
    using er_sound_stale [OF er] by blast
  from mhi_reset_data_chan_all [OF s pa, of "c\<lparr>mhi_events := (mhi_events c)[unat (ch_er_index ch) := ev]\<rparr>"]
  show ?thesis using off xt ev by (auto simp: mhi_reset_chan_def Let_def)
qed

lemma mhi_reset_data_chan_frame:
  "mhi_reset_data_chan s = Some s' \<Longrightarrow> chan_sync (fst s) \<Longrightarrow>
   mhi_chans (snd s') = mhi_chans (snd s) \<and> ch_state (fst s') = ch_state (fst s)"
proof (induction n \<equiv> "ring_used (tre_ring (fst s))" arbitrary: s)
  case 0
  then have "ring_rp (tre_ring (fst s)) = ring_wp (tre_ring (fst s))"
    using ring_used_zero_iff [OF chan_syncD(1) [OF 0(3)]] by simp
  with 0 show ?case by (subst (asm) mhi_reset_data_chan.simps) simp
next
  case (Suc n)
  obtain ch c where sc: "s = (ch, c)" by (cases s)
  note wf = chan_syncD(1) [OF Suc.prems(2)]
  have out: "ring_rp (tre_ring ch) \<noteq> ring_wp (tre_ring ch)"
    using Suc.hyps(2) ring_used_zero_iff [OF wf] sc by auto
  obtain ch1 c1 where one: "reset_data_one (ch, c) = (ch1, c1)" by fastforce
  note st = reset_data_one_spec(1) [OF one]
  have fr: "mhi_chans c1 = mhi_chans c" "ch_state ch1 = ch_state ch"
    using one by (auto simp: reset_data_one_def Let_def pending_dec_def mhi_deassert_dev_wake_def split: if_splits)
  have "n = ring_used (tre_ring ch1)"
    using Suc.hyps(2) wf out sc by (simp add: st ring_used_del)
  moreover have "mhi_reset_data_chan (ch1, c1) = Some s'"
    using Suc.prems(1) out one sc by (subst (asm) mhi_reset_data_chan.simps) simp
  moreover have "chan_sync ch1" using chan_pop(1) [of ch] Suc.prems(2) out sc by (simp add: st)
  ultimately show ?case using Suc.hyps(1) [of "(ch1, c1)"] fr sc by simp
qed

definition er_env :: "nat \<Rightarrow> (mhi_controller \<Rightarrow> mhi_controller) list \<Rightarrow> bool" where
  "er_env k es \<longleftrightarrow> (\<forall>e \<in> set es. \<forall>c. er_sound (mhi_events c ! k) \<longrightarrow> er_sound (mhi_events (e c) ! k))"

lemma wait_chan_completion_er:
  assumes "er_env k es" and "er_sound (mhi_events c ! k)" and "wait_chan_completion i es c = (ok, c')"
  shows "er_sound (mhi_events c' ! k)"
proof -
  let ?P = "\<lambda>c. 0 < ch_completion (chan_at c i)"
  have "er_sound (mhi_events (snd (wait_event_timeout ?P es c)) ! k)"
    by (rule wait_event_timeout_inv) (use assms in \<open>auto simp: er_env_def\<close>)
  with assms(3) show ?thesis
    by (auto simp: wait_chan_completion_def Let_def split: prod.splits if_splits)
qed

text \<open>
  (C28) Closing an open data channel always ends: the channel is disabled, its local ring is
  released, and every buffer still queued is returned to the client once, in order, with status
  ENOTCONN, whether or not the device answers the reset command.
\<close>

theorem mhi_unprepare_channel_closes:
  assumes i: "i < length (mhi_chans c)" and en: "ch_state (chan_at c i) = MHI_CH_STATE_ENABLED"
    and s: "chan_sync (chan_at c i)" and pa: "\<not> pre_alloc (chan_at c i)" and off: "\<not> offload_ch (chan_at c i)"
    and xt: "xfer_type (chan_at c i) \<noteq> MHI_XFER_RSC_DMA"
    and er: "er_sound (mhi_events c ! unat (ch_er_index (chan_at c i)))"
    and env: "env_keeps i es" "er_env (unat (ch_er_index (chan_at c i))) es"
  shows "\<exists>c' pre. mhi_unprepare_channel es i c = Some c' \<and> ch_state (chan_at c' i) = MHI_CH_STATE_DISABLED \<and>
    ring_base (buf_ring (chan_at c' i)) = 0 \<and>
    xfer_cbs (trace c') = pre @ map (\<lambda>bi. (chan (chan_at c i), reset_result bi)) (ring_list (buf_ring (chan_at c i)))"
proof -
  let ?ch = "chan_at c i" and ?k = "unat (ch_er_index (chan_at c i))"
  define ch1 where "ch1 = ?ch\<lparr>ch_state := MHI_CH_STATE_DISABLED, ch_completion := 0\<rparr>"
  define c1 where "c1 = chan_put i ch1 c"
  let ?b = "emit RuntimeGet (mhi_assert_dev_wake c1)"
  obtain r2 c2 where cmd: "mhi_send_cmd (chan ?ch) MHI_CMD_RESET_CHAN ?b = (r2, c2)" by fastforce
  have c2: "mhi_chans c2 = mhi_chans c1" "mhi_events c2 = mhi_events c"
    using arg_cong [OF cmd, of snd] by (auto simp: c1_def)
  obtain ok c3 where wt: "wait_chan_completion i es c2 = (ok, c3)" by fastforce
  define d where "d = (if MHI_PM_IN_ERROR_STATE (pm_state c1) then c1
    else emit RuntimePut (case r2 of Inl _ \<Rightarrow> c2 | Inr _ \<Rightarrow> c3))"
  have ic1: "chan_at c1 i = ch1" "i < length (mhi_chans c1)" using i by (simp_all add: c1_def)
  have same3: "chan_same ch1 (chan_at c3 i)" "length (mhi_chans c3) = length (mhi_chans c1)"
    using wait_chan_completion_keeps [OF env(1) _ wt] ic1 c2 by (simp_all add: chan_at_def)
  have er3: "er_sound (mhi_events c3 ! ?k)"
    using wait_chan_completion_er [OF env(2) _ wt] er c2 by simp
  have d: "chan_same ch1 (chan_at d i)" "i < length (mhi_chans d)" "er_sound (mhi_events d ! ?k)"
    using same3 er3 ic1 c2 er
    by (auto simp: d_def chan_at_def c1_def split: sum.splits)
  note sel = chan_same_sel [OF d(1)]
  have sd: "chan_sync (chan_at d i)" using s sel(2,3) by (simp add: chan_sync_def ch1_def)
  obtain ch4 c4 where rs: "mhi_reset_chan (chan_at d i) d = Some (ch4, c4)"
    "xfer_cbs (trace c4) = xfer_cbs (trace d) @ map (\<lambda>bi. (chan (chan_at d i), reset_result bi)) (ring_list (buf_ring (chan_at d i)))"
    using mhi_reset_chan_data [OF sd, of d] pa off xt d(3) sel by (auto simp: ch1_def)
  have fr: "mhi_chans c4 = mhi_chans d" "ch_state ch4 = ch_state (chan_at d i)"
  proof -
    obtain ev where "mhi_reset_data_chan (chan_at d i, d\<lparr>mhi_events := ev\<rparr>) = Some (ch4, c4)"
      using rs(1) off xt sel by (auto simp: mhi_reset_chan_def Let_def ch1_def split: option.splits)
    from mhi_reset_data_chan_frame [OF this] sd
    show "mhi_chans c4 = mhi_chans d" "ch_state ch4 = ch_state (chan_at d i)" by auto
  qed
  have hs: "unprep_reset_cmd es i (chan ?ch) c1 = d"
    using cmd wt by (simp add: unprep_reset_cmd_def d_def mhi_deassert_dev_wake_def split: sum.splits)
  have "mhi_unprepare_channel es i c =
      Some (chan_put i (fst (mhi_deinit_chan_ctxt ch4 c4)) (snd (mhi_deinit_chan_ctxt ch4 c4)))"
    using en off rs(1) sel(4)
    by (simp add: mhi_unprepare_channel_def Let_def case_prod_beta ch1_def [symmetric] c1_def [symmetric] hs)
      (simp add: ch1_def)
  then show ?thesis
    using rs(2) fr d(2) sel(1,3,6)
    by (auto simp: mhi_deinit_chan_ctxt_def chan_at_def chan_put_def ch1_def)
qed

end
