(* ===== verification/MHI_PM.thy ===== *)
theory MHI_PM
  imports MHI_Chan
begin

text \<open>
  Power management (\<^verbatim>\<open>core/mhi_pm.c\<close>) and the handlers it works with: the transitions the device asks
  for (ready, M0, M1, M3, mission mode), the disable transition of shutdown and system errors, the
  workers, powering up and down, suspend, resume and the wake-up of the device.

  Every \<^verbatim>\<open>wait_event_timeout\<close> takes the list of what happens during its sleeps. The removal of the
  client devices (\<^verbatim>\<open>device_for_each_child(..., mhi_destroy_device)\<close>, which goes through the kernel's
  driver core to the clients) is the argument \<open>destroy\<close>.
\<close>

type_synonym env = "(mhi_controller \<Rightarrow> mhi_controller) list"

subsection \<open>Doorbells of all rings\<close>

definition for_events ::
  "(mhi_event \<Rightarrow> mhi_controller \<Rightarrow> mhi_event \<times> mhi_controller) \<Rightarrow> mhi_controller \<Rightarrow> mhi_controller" where
  "for_events f c = (let (evs, c') = thread f (mhi_events c) c in c'\<lparr>mhi_events := evs\<rparr>)"

definition for_chans ::
  "(mhi_chan \<Rightarrow> mhi_controller \<Rightarrow> mhi_chan \<times> mhi_controller) \<Rightarrow> mhi_controller \<Rightarrow> mhi_controller" where
  "for_chans f c = (let (chs, c') = thread f (mhi_chans c) c in c'\<lparr>mhi_chans := chs\<rparr>)"

text \<open>Handing all elements of an event ring to the device.\<close>

definition ev_ring_fill :: "mhi_tre mhi_ring \<Rightarrow> mhi_tre mhi_ring" where
  "ev_ring_fill r =
     r\<lparr>ring_wp := ring_base r + ring_len r - ring_el_size r,
       ring_ctxt_wp := ring_iommu_base r + ring_len r - ring_el_size r\<rparr>"

subsection \<open>Ready\<close>

text \<open>The wait condition of \<^verbatim>\<open>mhi_ready_state_transition\<close>, with its assignments to \<open>reset\<close> and \<open>ready\<close>.\<close>

definition ready_cond :: "u32 \<times> u32 \<Rightarrow> mhi_controller \<Rightarrow> bool \<times> u32 \<times> u32" where
  "ready_cond = (\<lambda>(reset, ready) c.
     if MHI_PM_IN_FATAL_STATE (pm_state c) then (True, reset, ready)
     else case mhi_read_reg_field c (regs c) MHICTRL MHICTRL_RESET_MASK MHICTRL_RESET_SHIFT of
       Inl _ \<Rightarrow> (True, reset, ready)
     | Inr reset' \<Rightarrow>
         (case mhi_read_reg_field c (regs c) MHISTATUS MHISTATUS_READY_MASK MHISTATUS_READY_SHIFT of
            Inl _ \<Rightarrow> (True, reset', ready)
          | Inr ready' \<Rightarrow> (reset' = 0 \<and> ready' \<noteq> 0, reset', ready')))"

definition ready_event :: "mhi_event \<Rightarrow> mhi_controller \<Rightarrow> mhi_event \<times> mhi_controller" where
  "ready_event ev c =
     (if offload_ev ev \<or> hw_ring ev then (ev, c)
      else mhi_ring_er_db (ev\<lparr>ev_ring := ev_ring_fill (ev_ring ev)\<rparr>) c)"

definition mhi_ready_state_transition :: "env \<Rightarrow> mhi_controller \<Rightarrow> unit res \<times> mhi_controller" where
  "mhi_ready_state_transition es c =
     (let (_, (reset, ready), c1) = wait_event ready_cond es (1, 0) c
      in if MHI_PM_IN_FATAL_STATE (pm_state c1) then (Inl EIO, c1)
         else if reset \<noteq> 0 \<or> ready = 0 then (Inl ETIMEDOUT, c1)
         else (let (cur_state, c2) = mhi_tryset_pm_state MHI_PM_POR c1;
                   c3 = c2\<lparr>dev_state := MHI_STATE_READY\<rparr>
               in if cur_state \<noteq> MHI_PM_POR then (Inl EIO, c3)
                  else if \<not> MHI_REG_ACCESS_VALID (pm_state c3) then (Inl EIO, c3)
                  else (case mhi_init_mmio c3 of
                          (Inl _, c4) \<Rightarrow> (Inl EIO, c4)
                        | (Inr _, c4) \<Rightarrow>
                            (Inr (), mhi_set_mhi_state MHI_STATE_M0 (for_events ready_event c4)))))"

subsection \<open>M0, M1 and M3\<close>

definition m0_event :: "mhi_event \<Rightarrow> mhi_controller \<Rightarrow> mhi_event \<times> mhi_controller" where
  "m0_event ev c = (if offload_ev ev then (ev, c) else mhi_ring_er_db ev c)"

definition m0_chan :: "mhi_chan \<Rightarrow> mhi_controller \<Rightarrow> mhi_chan \<times> mhi_controller" where
  "m0_chan ch c =
     (let ch1 = if reset_req (ch_db_cfg ch) then ch\<lparr>ch_db_cfg := (ch_db_cfg ch)\<lparr>db_mode := True\<rparr>\<rparr> else ch;
          r = tre_ring ch1
      in if ring_base r \<noteq> 0 \<and> ring_wp r \<noteq> ring_rp r then mhi_ring_chan_db ch1 c else (ch1, c))"

definition m0_mission_rings :: "mhi_controller \<Rightarrow> mhi_controller" where
  "m0_mission_rings c =
     (let c1 = for_events m0_event c
      in if ring_rp (mhi_cmd c1) \<noteq> ring_wp (mhi_cmd c1)
         then (let (r, c2) = mhi_ring_cmd_db (mhi_cmd c1) c1 in c2\<lparr>mhi_cmd := r\<rparr>) else c1)"

definition mhi_pm_m0_transition :: "mhi_controller \<Rightarrow> unit res \<times> mhi_controller" where
  "mhi_pm_m0_transition c =
     (let (cur_state, c1) = mhi_tryset_pm_state MHI_PM_M0 (c\<lparr>dev_state := MHI_STATE_M0\<rparr>)
      in if cur_state \<noteq> MHI_PM_M0 then (Inl EIO, c1)
         else (let c2 = mhi_assert_dev_wake (c1\<lparr>cnt_M0 := cnt_M0 c1 + 1\<rparr>);
                   c3 = if MHI_IN_MISSION_MODE (ee c2) then m0_mission_rings c2 else c2;
                   c4 = for_chans m0_chan c3
               in (Inr (), emit WakeUpAll (mhi_deassert_dev_wake c4))))"

definition mhi_pm_m1_transition :: "mhi_controller \<Rightarrow> mhi_controller" where
  "mhi_pm_m1_transition c =
     (let (state, c1) = mhi_tryset_pm_state MHI_PM_M2 c
      in if state = MHI_PM_M2
         then (let c2 = mhi_set_mhi_state MHI_STATE_M2 c1;
                   c3 = emit WakeUpAll (c2\<lparr>dev_state := MHI_STATE_M2, cnt_M2 := cnt_M2 c2 + 1\<rparr>)
               in if dev_wake c3 \<noteq> 0 then mhi_deassert_dev_wake (mhi_assert_dev_wake c3)
                  else emit (StatusCb MHI_CB_IDLE) c3)
         else c1)"

definition mhi_pm_m3_transition :: "mhi_controller \<Rightarrow> unit res \<times> mhi_controller" where
  "mhi_pm_m3_transition c =
     (let (state, c1) = mhi_tryset_pm_state MHI_PM_M3 (c\<lparr>dev_state := MHI_STATE_M3\<rparr>)
      in if state \<noteq> MHI_PM_M3 then (Inl EIO, c1)
         else (let c2 = emit WakeUpAll c1 in (Inr (), c2\<lparr>cnt_M3 := cnt_M3 c2 + 1\<rparr>)))"

subsection \<open>Waking the device\<close>

text \<open>\<^verbatim>\<open>__mhi_device_get_sync\<close>\<close>

definition mhi_device_get_sync_ctrl :: "env \<Rightarrow> mhi_controller \<Rightarrow> unit res \<times> mhi_controller" where
  "mhi_device_get_sync_ctrl es c =
     (let c1 = mhi_assert_dev_wake c;
          c2 = if MHI_PM_IN_SUSPEND_STATE (pm_state c1) then emit RuntimePut (emit RuntimeGet c1) else c1;
          (ret, c3) = wait_event_timeout
            (\<lambda>c. pm_state c = MHI_PM_M0 \<or> MHI_PM_IN_ERROR_STATE (pm_state c)) es c2
      in if \<not> ret \<or> MHI_PM_IN_ERROR_STATE (pm_state c3) then (Inl EIO, mhi_deassert_dev_wake c3)
         else (Inr (), c3))"

definition mhi_device_get :: "mhi_device \<Rightarrow> mhi_controller \<Rightarrow> mhi_device \<times> mhi_controller" where
  "mhi_device_get dev c = (dev\<lparr>md_dev_wake := md_dev_wake dev + 1\<rparr>, mhi_assert_dev_wake c)"

definition mhi_device_get_sync ::
  "env \<Rightarrow> mhi_device \<Rightarrow> mhi_controller \<Rightarrow> unit res \<times> mhi_device \<times> mhi_controller" where
  "mhi_device_get_sync es dev c =
     (case mhi_device_get_sync_ctrl es c of
        (Inl e, c') \<Rightarrow> (Inl e, dev, c')
      | (Inr _, c') \<Rightarrow> (Inr (), dev\<lparr>md_dev_wake := md_dev_wake dev + 1\<rparr>, c'))"

definition mhi_device_put :: "mhi_device \<Rightarrow> mhi_controller \<Rightarrow> mhi_device \<times> mhi_controller" where
  "mhi_device_put dev c = (dev\<lparr>md_dev_wake := md_dev_wake dev - 1\<rparr>, mhi_deassert_dev_wake c)"

subsection \<open>Time synchronisation\<close>

definition mhi_get_tsync_er_cfg :: "mhi_controller \<Rightarrow> u32 option" where
  "mhi_get_tsync_er_cfg c =
     (case find (\<lambda>ev. ev_data_type ev = MHI_ER_TSYNC_ELEMENT_TYPE) (mhi_events c) of
        None \<Rightarrow> None | Some ev \<Rightarrow> Some (er_index ev))"

definition wait_tsync_completion :: "env \<Rightarrow> mhi_controller \<Rightarrow> bool \<times> mhi_controller" where
  "wait_tsync_completion es c =
     (let done = (\<lambda>c. case mhi_tsync c of None \<Rightarrow> False | Some t \<Rightarrow> 0 < ts_completion t);
          (ok, c') = wait_event_timeout done es c
      in (ok, if ok then c'\<lparr>mhi_tsync := map_option (\<lambda>t. t\<lparr>ts_completion := ts_completion t - 1\<rparr>) (mhi_tsync c')\<rparr>
              else c'))"

text \<open>The second half of \<^verbatim>\<open>mhi_init_timesync\<close>: the doorbell, the event ring and the command.\<close>

definition timesync_setup_db ::
  "env \<Rightarrow> u32 \<Rightarrow> mhi_timesync \<Rightarrow> mhi_controller \<Rightarrow> unit res \<times> mhi_controller" where
  "timesync_setup_db es time_offset t c =
     (if \<not> MHI_REG_ACCESS_VALID (pm_state c) then (Inl EIO, c)
      else (case mhi_read_reg c (regs c) (time_offset + TIMESYNC_DB_OFFSET) of
              Inl _ \<Rightarrow> (Inr (), c)
            | Inr db_offset \<Rightarrow>
                if db_offset = 0 then (Inr (), c)
                else (let t1 = t\<lparr>ts_db := regs c + ucast db_offset\<rparr>; c1 = c\<lparr>mhi_tsync := Some t1\<rparr>
                      in case mhi_get_tsync_er_cfg c1 of
                           None \<Rightarrow> (Inl ENOENT, c1)
                         | Some er \<Rightarrow>
                             (case mhi_send_cmd 0 MHI_CMD_TIMSYNC_CFG (c1\<lparr>mhi_tsync := Some (t1\<lparr>ts_er_index := er\<rparr>)\<rparr>) of
                                (Inl e, c2) \<Rightarrow> (Inl e, c2)
                              | (Inr _, c2) \<Rightarrow>
                                  (let (ok, c3) = wait_tsync_completion es c2
                                   in if \<not> ok \<or> (case mhi_tsync c3 of None \<Rightarrow> True | Some t \<Rightarrow> ts_ccs t \<noteq> MHI_EV_CC_SUCCESS)
                                      then (Inl EIO, c3) else (Inr (), c3))))))"

definition mhi_init_timesync ::
  "env \<Rightarrow> bool \<Rightarrow> mhi_controller \<Rightarrow> (unit res \<times> mhi_controller) option" where
  "mhi_init_timesync es alloc c =
     (if \<not> MHI_REG_ACCESS_VALID (pm_state c) then Some (Inl EIO, c)
      else (case mhi_get_capability_offset c TIMESYNC_CAP_ID of
              None \<Rightarrow> None
            | Some (Inl e) \<Rightarrow> Some (Inl e, c)
            | Some (Inr time_offset) \<Rightarrow>
                if \<not> has_time_ops c then Some (Inl EINVAL, c)
                else if \<not> alloc then Some (Inl ENOMEM, c)
                else (let t = \<lparr>ts_er_index = 0, ts_db = 0,
                               ts_time_reg = regs c + ucast time_offset + ucast TIMESYNC_TIME_LOW_OFFSET,
                               ts_ccs = 0, ts_head = [], ts_locked = False, ts_completion = 0\<rparr>
                      in Some (timesync_setup_db es time_offset t (c\<lparr>mhi_tsync := Some t\<rparr>)))))"

definition mhi_destroy_timesync :: "mhi_controller \<Rightarrow> mhi_controller" where
  "mhi_destroy_timesync c =
     (case mhi_tsync c of None \<Rightarrow> c | Some _ \<Rightarrow> (emit (Kfree 0) c)\<lparr>mhi_tsync := None\<rparr>)"

subsection \<open>Client devices\<close>

text \<open>
  The loop of \<^verbatim>\<open>mhi_create_devices\<close>: a configured channel of the current environment without a device
  gets one, together with the next channel when it has the same name. \<open>alloc\<close> says whether
  \<^verbatim>\<open>mhi_alloc_device\<close> succeeds; a failure ends the loop.
\<close>

fun create_devices_loop ::
  "(u32 \<Rightarrow> bool) \<Rightarrow> u32 \<Rightarrow> mhi_chan list \<Rightarrow> mhi_chan list \<times> effect list" where
  "create_devices_loop alloc e [] = ([], [])"
| "create_devices_loop alloc e (ch # chs) =
     (if \<not> configured ch \<or> has_mhi_dev ch \<or> ee_mask ch AND BIT (unat e) = 0
      then (let (chs', es) = create_devices_loop alloc e chs in (ch # chs', es))
      else if \<not> alloc (chan ch) then (ch # chs, [])
      else (let ch' = ch\<lparr>has_mhi_dev := True\<rparr>
            in case chs of
                 [] \<Rightarrow> ([ch'], [CreateDevices (chan ch)])
               | nxt # rest \<Rightarrow>
                   if configured nxt \<and> chan_name nxt = chan_name ch
                   then (let (chs', es) = create_devices_loop alloc e rest
                         in (ch' # nxt\<lparr>has_mhi_dev := True\<rparr> # chs', CreateDevices (chan ch) # es))
                   else (let (chs', es) = create_devices_loop alloc e chs
                         in (ch' # chs', CreateDevices (chan ch) # es))))"

definition mhi_create_devices :: "(u32 \<Rightarrow> bool) \<Rightarrow> mhi_controller \<Rightarrow> mhi_controller" where
  "mhi_create_devices alloc c =
     (let (chs, es) = create_devices_loop alloc (ee c) (mhi_chans c)
      in c\<lparr>mhi_chans := chs, trace := trace c @ es\<rparr>)"

subsection \<open>Mission mode\<close>

definition mission_event :: "mhi_event \<Rightarrow> mhi_controller \<Rightarrow> mhi_event \<times> mhi_controller" where
  "mission_event ev c =
     (if offload_ev ev \<or> \<not> hw_ring ev then (ev, c)
      else (let ev1 = ev\<lparr>ev_ring := ev_ring_fill (ev_ring ev)\<rparr>
            in if MHI_DB_ACCESS_VALID (pm_state c) then mhi_ring_er_db ev1 c else (ev1, c)))"

record mission_env =
  me_wait :: env
  me_wait_tsync :: env
  me_alloc_tsync :: bool
  me_alloc_dev :: "u32 \<Rightarrow> bool"

definition mhi_pm_mission_mode_transition ::
  "mission_env \<Rightarrow> mhi_controller \<Rightarrow> (unit res \<times> mhi_controller) option" where
  "mhi_pm_mission_mode_transition env c =
     (case mhi_device_get_sync_ctrl (me_wait env) (emit (StatusCb MHI_CB_EE_MISSION_MODE) c) of
        (Inl e, c1) \<Rightarrow> Some (Inl e, c1)
      | (Inr _, c1) \<Rightarrow>
          (let c2 = if MHI_REG_ACCESS_VALID (pm_state c1) then c1\<lparr>ee := mhi_get_exec_env c1\<rparr> else c1
           in if \<not> MHI_IN_MISSION_MODE (ee c2) then Some (Inl EIO, mhi_deassert_dev_wake c2)
              else (let c3 = emit WakeUpAll c2
                    in if MHI_PM_IN_ERROR_STATE (pm_state c3) then Some (Inl EIO, mhi_deassert_dev_wake c3)
                       else (case mhi_init_timesync (me_wait_tsync env) (me_alloc_tsync env) (for_events mission_event c3) of
                               None \<Rightarrow> None
                             | Some (_, c4) \<Rightarrow>
                                 Some (Inr (), mhi_deassert_dev_wake (mhi_create_devices (me_alloc_dev env) c4))))))"

subsection \<open>Disable\<close>

text \<open>The wait for the end of the device reset, with its assignment to \<open>in_reset\<close>.\<close>

definition reset_cond :: "u32 \<Rightarrow> mhi_controller \<Rightarrow> bool \<times> u32" where
  "reset_cond in_reset c =
     (case mhi_read_reg_field c (regs c) MHICTRL MHICTRL_RESET_MASK MHICTRL_RESET_SHIFT of
        Inl _ \<Rightarrow> (True, in_reset) | Inr v \<Rightarrow> (v = 0, v))"

text \<open>The flag is \<open>False\<close> when the device failed to leave the reset state while a system error was
  processed, and the transition stops.\<close>

definition disable_reset_device :: "env \<Rightarrow> u32 \<Rightarrow> u32 \<Rightarrow> mhi_controller \<Rightarrow> mhi_controller \<times> bool" where
  "disable_reset_device es prev_state cur_state c =
     (if MHI_REG_ACCESS_VALID prev_state
      then (let c1 = mhi_set_mhi_state MHI_STATE_RESET c;
                (ret, in_reset, c2) = wait_event reset_cond es (- 1) c1
            in if (\<not> ret \<or> in_reset \<noteq> 0) \<and> cur_state = MHI_PM_SYS_ERR_PROCESS then (c2, False)
               else (let c3 = mhi_write_reg_field (regs c2) MHICFG MHICFG_NER_MASK MHICFG_NER_SHIFT NUM_MHI_EVT_RINGS c2;
                         c4 = mhi_write_reg_field (regs c3) MHICFG MHICFG_NHWER_MASK MHICFG_NHWER_SHIFT NUM_MHI_HW_EVT_RINGS c3
                     in (mhi_write_reg (bhi c4) BHI_INTVEC (msi_irq_base c4) c4, True)))
      else (c, True))"

definition ring_rewind :: "mhi_tre mhi_ring \<Rightarrow> mhi_tre mhi_ring" where
  "ring_rewind r =
     r\<lparr>ring_rp := ring_base r, ring_wp := ring_base r, ring_ctxt_rp := ring_ctxt_rbase r,
       ring_ctxt_wp := ring_ctxt_rbase r\<rparr>"

definition disable_reset_rings :: "mhi_controller \<Rightarrow> mhi_controller" where
  "disable_reset_rings c =
     c\<lparr>mhi_cmd := ring_rewind (mhi_cmd c),
       mhi_events := map (\<lambda>ev. if offload_ev ev then ev else ev\<lparr>ev_ring := ring_rewind (ev_ring ev)\<rparr>) (mhi_events c)\<rparr>"

definition kill_tasklets :: "mhi_controller \<Rightarrow> mhi_controller" where
  "kill_tasklets c =
     fold (\<lambda>ev c. if offload_ev ev then c else emit (TaskletKill (er_index ev)) c) (mhi_events c) c"

record disable_env =
  de_wait_reset :: env
  de_destroy :: "mhi_controller \<Rightarrow> mhi_controller"
  de_wait_ready :: env

definition disable_finish :: "disable_env \<Rightarrow> u32 \<Rightarrow> mhi_controller \<Rightarrow> mhi_controller" where
  "disable_finish env cur_state c =
     (if cur_state = MHI_PM_SYS_ERR_PROCESS
      then (if mhi_get_exec_env c = MHI_EE_EDL \<and> mhi_get_mhi_state c = MHI_STATE_RESET
            then snd (mhi_tryset_pm_state MHI_PM_POR (c\<lparr>ee := MHI_EE_EDL\<rparr>))
            else snd (mhi_ready_state_transition (de_wait_ready env) c))
      else snd (mhi_tryset_pm_state MHI_PM_DISABLE c))"

definition mhi_pm_disable_transition :: "disable_env \<Rightarrow> u32 \<Rightarrow> mhi_controller \<Rightarrow> mhi_controller" where
  "mhi_pm_disable_transition env transition_state c =
     (let c0 = if transition_state = MHI_PM_SYS_ERR_PROCESS then emit (StatusCb MHI_CB_SYS_ERROR) c else c;
          prev_state = pm_state c0;
          (cur_state, c1) = mhi_tryset_pm_state transition_state c0;
          c2 = if cur_state = transition_state
               then c1\<lparr>ee := MHI_EE_DISABLE_TRANSITION, dev_state := MHI_STATE_RESET\<rparr> else c1;
          c3 = emit WakeUpAll c2
      in if cur_state \<noteq> transition_state then c3
         else (let (c4, ok) = disable_reset_device (de_wait_reset env) prev_state cur_state c3
               in if \<not> ok then c4
                  else (let c5 = de_destroy env (kill_tasklets c4);
                            c6 = emit WakeUpAll c5;
                            c7 = if dev_wake c6 \<noteq> 0 then emit (WarnOn ''dev_wake != 0'') c6 else c6
                        in disable_finish env cur_state (mhi_destroy_timesync (disable_reset_rings c7)))))"

subsection \<open>Workers\<close>

definition mhi_debugfs_trigger_reset :: "env \<Rightarrow> mhi_controller \<Rightarrow> unit res \<times> mhi_controller" where
  "mhi_debugfs_trigger_reset es c =
     (let c1 = emit RuntimePut (emit RuntimeGet c);
          (ret, c2) = wait_event_timeout
            (\<lambda>c. dev_state c = MHI_STATE_M0 \<or> MHI_PM_IN_ERROR_STATE (pm_state c)) es c1
      in if \<not> ret \<or> MHI_PM_IN_ERROR_STATE (pm_state c2) then (Inl EIO, c2)
         else (let (cur_state, c3) = mhi_tryset_pm_state MHI_PM_SYS_ERR_DETECT c2
               in (Inr (), if cur_state = MHI_PM_SYS_ERR_DETECT then emit (ScheduleWork Syserr_worker) c3 else c3)))"

definition mhi_pm_sys_err_worker :: "disable_env \<Rightarrow> mhi_controller \<Rightarrow> mhi_controller" where
  "mhi_pm_sys_err_worker env c = mhi_pm_disable_transition env MHI_PM_SYS_ERR_PROCESS c"

definition mhi_pm_ready_worker :: "bool \<Rightarrow> mhi_controller \<Rightarrow> mhi_controller" where
  "mhi_pm_ready_worker alloc c =
     (if dev_state c \<noteq> MHI_STATE_RESET then c
      else (let e = if MHI_REG_ACCESS_VALID (pm_state c) then mhi_get_exec_env c else MHI_EE_MAX
            in if e = MHI_EE_PTHRU then emit (ScheduleWork Ready_worker) c
               else if e = MHI_EE_AMSS \<or> e = MHI_EE_SBL
               then snd (mhi_queue_state_transition alloc MHI_ST_TRANSITION_READY c)
               else if e = MHI_EE_EDL then snd (mhi_queue_state_transition alloc MHI_ST_TRANSITION_PBL c)
               else c))"

record worker_env =
  we_mission :: mission_env
  we_ready :: env

definition st_transition :: "worker_env \<Rightarrow> MHI_ST_TRANSITION \<Rightarrow> mhi_controller \<Rightarrow> mhi_controller option" where
  "st_transition env st c =
     (case st of
        MHI_ST_TRANSITION_PBL \<Rightarrow>
          (let c1 = if MHI_REG_ACCESS_VALID (pm_state c) then c\<lparr>ee := mhi_get_exec_env c\<rparr> else c
           in Some (if MHI_IN_PBL (ee c1) then emit WakeUpAll c1 else c1))
      | MHI_ST_TRANSITION_SBL \<Rightarrow>
          Some (mhi_create_devices (me_alloc_dev (we_mission env)) (emit WakeUpAll (c\<lparr>ee := MHI_EE_SBL\<rparr>)))
      | MHI_ST_TRANSITION_MISSION_MODE \<Rightarrow> map_option snd (mhi_pm_mission_mode_transition (we_mission env) c)
      | MHI_ST_TRANSITION_READY \<Rightarrow> Some (snd (mhi_ready_state_transition (we_ready env) c))
      | MHI_ST_TRANSITION_FP \<Rightarrow>
          Some (mhi_create_devices (me_alloc_dev (we_mission env)) (emit WakeUpAll (c\<lparr>ee := MHI_EE_FP\<rparr>)))
      | MHI_ST_TRANSITION_MAX \<Rightarrow> Some c)"

fun run_transitions ::
  "worker_env \<Rightarrow> MHI_ST_TRANSITION list \<Rightarrow> mhi_controller \<Rightarrow> mhi_controller option" where
  "run_transitions env [] c = Some c"
| "run_transitions env (st # sts) c =
     (case st_transition env st c of None \<Rightarrow> None | Some c' \<Rightarrow> run_transitions env sts c')"

definition mhi_pm_st_worker :: "worker_env \<Rightarrow> mhi_controller \<Rightarrow> mhi_controller option" where
  "mhi_pm_st_worker env c =
     run_transitions env (transition_list c) (c\<lparr>transition_list := []\<rparr>)"

subsection \<open>Interrupt vector\<close>

definition mhi_intvec_threaded_handlr :: "mhi_controller \<Rightarrow> mhi_controller" where
  "mhi_intvec_threaded_handlr c =
     (let valid = MHI_REG_ACCESS_VALID (pm_state c);
          state = if valid then mhi_get_mhi_state c else MHI_STATE_MAX;
          e = if valid then mhi_get_exec_env c else MHI_EE_MAX;
          (new_pm, c1) = if state = MHI_STATE_SYS_ERR \<and> pm_state c \<noteq> MHI_PM_SYS_ERR_DETECT
                         then mhi_tryset_pm_state MHI_PM_SYS_ERR_DETECT c else (0, c);
          c2 = if new_pm = MHI_PM_SYS_ERR_DETECT
               then (let c2 = emit WakeUpAll c1
                     in if ee c2 \<noteq> e then emit (ScheduleWork Syserr_worker) c2
                        else if MHI_IN_PBL e then emit (StatusCb MHI_CB_FATAL_ERROR) c2
                        else emit (ScheduleWork Syserr_worker) c2)
               else c1
      in if new_pm = MHI_PM_POR then emit WakeUpAll c2 else c2)"

definition mhi_intvec_handlr :: "mhi_controller \<Rightarrow> mhi_controller" where
  "mhi_intvec_handlr c = emit WakeUpAll c"

subsection \<open>Powering up and down\<close>

text \<open>
  \<open>pu_junk\<close> is what the uninitialised \<^verbatim>\<open>regVal\<close> holds when MHICFG cannot be read, \<open>pu_sleep\<close> what happens
  during the 50 ms after the reset request.
\<close>

record power_env =
  pu_sleep :: "mhi_controller \<Rightarrow> mhi_controller"
  pu_junk :: u32
  pu_alloc_ctxt :: bool
  pu_alloc_seg :: "(u64 \<times> u64) option"
  pu_req_threaded :: "u32 \<Rightarrow> errno option"
  pu_req :: "u32 \<Rightarrow> errno option"
  pu_alloc_item :: bool

definition power_up_device :: "power_env \<Rightarrow> mhi_controller \<Rightarrow> mhi_controller" where
  "power_up_device env c =
     (let c1 = if MHI_STATE_M0 \<le> mhi_get_mhi_state c
               then pu_sleep env (emit (Msleep 50) (mhi_set_mhi_state MHI_STATE_RESET c)) else c;
          regVal = (case mhi_read_reg c1 (regs c1) MHICFG of Inl _ \<Rightarrow> pu_junk env | Inr v \<Rightarrow> v);
          regVal1 = MHI_WRITE_REG_FIELD regVal MHICFG_NER_MASK MHICFG_NER_SHIFT NUM_MHI_EVT_RINGS;
          regVal2 = MHI_WRITE_REG_FIELD regVal1 MHICFG_NHWER_MASK MHICFG_NHWER_SHIFT NUM_MHI_HW_EVT_RINGS
      in mhi_write_reg (regs c1) MHICFG regVal2 c1)"

definition power_up_start :: "power_env \<Rightarrow> mhi_controller \<Rightarrow> mhi_controller" where
  "power_up_start env c =
     (let c1 = c\<lparr>pm_state := MHI_PM_POR, ee := MHI_EE_MAX\<rparr>; current_ee = mhi_get_exec_env c1
      in if MHI_IN_PBL current_ee then emit (ScheduleWork Ready_worker) c1
         else snd (mhi_queue_state_transition (pu_alloc_item env) MHI_ST_TRANSITION_READY c1))"

definition mhi_async_power_up :: "power_env \<Rightarrow> mhi_controller \<Rightarrow> unit res \<times> mhi_controller" where
  "mhi_async_power_up env c =
     (let c2 = (power_up_device env c)\<lparr>pm_state := MHI_PM_DISABLE, dev_state := MHI_STATE_RESET\<rparr>
      in if pre_init c2 then (Inr (), power_up_start env c2)
         else (case mhi_init_dev_ctxt (pu_alloc_ctxt env) (pu_alloc_seg env) c2 of
                 (Inl e, c3) \<Rightarrow> (Inl e, c3)
               | (Inr _, c3) \<Rightarrow>
                   (case mhi_init_irq_setup (pu_req_threaded env) (pu_req env) c3 of
                      (Inl e, c4) \<Rightarrow> (Inl e, if pre_init c4 then c4 else mhi_deinit_dev_ctxt c4)
                    | (Inr _, c4) \<Rightarrow> (Inr (), power_up_start env c4))))"

definition mhi_power_down :: "disable_env \<Rightarrow> bool \<Rightarrow> mhi_controller \<Rightarrow> mhi_controller" where
  "mhi_power_down env graceful c =
     (let c1 = if graceful then c else snd (mhi_tryset_pm_state MHI_PM_LD_ERR_FATAL_DETECT c);
          c2 = mhi_pm_disable_transition env MHI_PM_SHUTDOWN_PROCESS c1
      in if pre_init c2 then c2 else mhi_deinit_dev_ctxt (mhi_deinit_free_irq c2))"

definition mhi_sync_power_up :: "power_env \<Rightarrow> env \<Rightarrow> mhi_controller \<Rightarrow> unit res \<times> mhi_controller" where
  "mhi_sync_power_up env es c =
     (case mhi_async_power_up env c of
        (Inl e, c1) \<Rightarrow> (Inl e, c1)
      | (Inr _, c1) \<Rightarrow>
          (let (_, c2) = wait_event_timeout
                 (\<lambda>c. MHI_IN_MISSION_MODE (ee c) \<or> MHI_PM_IN_ERROR_STATE (pm_state c)) es c1
           in (if MHI_IN_MISSION_MODE (ee c2) then Inr () else Inl EIO, c2)))"

subsection \<open>Suspend and resume\<close>

definition notify_lpm :: "MHI_CB \<Rightarrow> mhi_controller \<Rightarrow> mhi_controller" where
  "notify_lpm cb c =
     fold (\<lambda>i c. if has_mhi_dev (mhi_chans c ! i) then emit (NotifyChan (chan (mhi_chans c ! i)) cb) c else c)
       (lpm_chans c) c"

definition mhi_pm_suspend :: "env \<Rightarrow> env \<Rightarrow> mhi_controller \<Rightarrow> unit res \<times> mhi_controller" where
  "mhi_pm_suspend es1 es2 c =
     (if pm_state c = MHI_PM_DISABLE then (Inl EINVAL, c)
      else if MHI_PM_IN_ERROR_STATE (pm_state c) then (Inl EIO, c)
      else if dev_wake c \<noteq> 0 then (Inl EBUSY, c)
      else (let (ret, c1) = wait_event_timeout
                  (\<lambda>c. dev_state c = MHI_STATE_M0 \<or> dev_state c = MHI_STATE_M1 \<or> MHI_PM_IN_ERROR_STATE (pm_state c))
                  es1 (mhi_assert_dev_wake c)
            in if \<not> ret \<or> MHI_PM_IN_ERROR_STATE (pm_state c1) then (Inl EIO, mhi_deassert_dev_wake c1)
               else if 1 < dev_wake c1 then (Inl EBUSY, mhi_deassert_dev_wake c1)
               else (let (new_state, c2) = mhi_tryset_pm_state MHI_PM_M3_ENTER c1
                     in if new_state \<noteq> MHI_PM_M3_ENTER then (Inl EIO, mhi_deassert_dev_wake c2)
                        else (let c3 = mhi_deassert_dev_wake (mhi_set_mhi_state MHI_STATE_M3 c2);
                                  (ret2, c4) = wait_event_timeout
                                    (\<lambda>c. dev_state c = MHI_STATE_M3 \<or> MHI_PM_IN_ERROR_STATE (pm_state c)) es2 c3
                              in if \<not> ret2 \<or> MHI_PM_IN_ERROR_STATE (pm_state c4) then (Inl EIO, c4)
                                 else (Inr (), notify_lpm MHI_CB_LPM_ENTER c4)))))"

definition mhi_pm_resume :: "env \<Rightarrow> mhi_controller \<Rightarrow> unit res \<times> mhi_controller" where
  "mhi_pm_resume es c =
     (if pm_state c = MHI_PM_DISABLE then (Inr (), c)
      else if MHI_PM_IN_ERROR_STATE (pm_state c) then (Inl EIO, c)
      else (let c1 = if pm_state c \<noteq> MHI_PM_M3 then emit (WarnOn ''mhi_pm_state != M3'') c else c;
                c2 = notify_lpm MHI_CB_LPM_EXIT c1;
                (cur_state, c3) = mhi_tryset_pm_state MHI_PM_M3_EXIT c2
            in if cur_state \<noteq> MHI_PM_M3_EXIT then (Inl EIO, c3)
               else (let (ret, c4) = wait_event_timeout
                           (\<lambda>c. dev_state c = MHI_STATE_M0 \<or> MHI_PM_IN_ERROR_STATE (pm_state c)) es
                           (mhi_set_mhi_state MHI_STATE_M0 (mhi_assert_dev_wake c3));
                         c5 = mhi_deassert_dev_wake c4
                     in if \<not> ret \<or> MHI_PM_IN_ERROR_STATE (pm_state c5)
                        then (Inl EIO, mhi_intvec_threaded_handlr c5) else (Inr (), c5))))"

definition mhi_force_rddm_mode :: "env \<Rightarrow> mhi_controller \<Rightarrow> unit res \<times> mhi_controller" where
  "mhi_force_rddm_mode es c =
     (let (ret, c1) = wait_event_timeout (\<lambda>c. ee c = MHI_EE_RDDM) es (mhi_set_mhi_state MHI_STATE_SYS_ERR c)
      in (if ret then Inr () else Inl EIO, c1))"

subsection \<open>What the transitions leave alone\<close>

lemma mhi_set_mhi_state_frame [simp]:
  "pm_state (mhi_set_mhi_state s c) = pm_state c" "ee (mhi_set_mhi_state s c) = ee c"
  "dev_state (mhi_set_mhi_state s c) = dev_state c" "mhi_chans (mhi_set_mhi_state s c) = mhi_chans c"
  "mhi_events (mhi_set_mhi_state s c) = mhi_events c" "mhi_cmd (mhi_set_mhi_state s c) = mhi_cmd c"
  "dev_wake (mhi_set_mhi_state s c) = dev_wake c" "mhi_tsync (mhi_set_mhi_state s c) = mhi_tsync c"
  by (simp_all add: mhi_set_mhi_state_def)

lemma mhi_deassert_dev_wake_id [simp]: "mhi_deassert_dev_wake c = c"
  by (simp add: mhi_deassert_dev_wake_def)

lemma mhi_assert_dev_wake_frame2 [simp]:
  "dev_state (mhi_assert_dev_wake c) = dev_state c" "ee (mhi_assert_dev_wake c) = ee c"
  "dev_wake (mhi_assert_dev_wake c) = dev_wake c" "mhi_cmd (mhi_assert_dev_wake c) = mhi_cmd c"
  by (simp_all add: mhi_assert_dev_wake_def)

lemma for_events_inv:
  assumes "Q c" and "\<And>ev c. Q c \<Longrightarrow> Q (snd (f ev c))" and "\<And>c evs. Q c \<Longrightarrow> Q (c\<lparr>mhi_events := evs\<rparr>)"
  shows "Q (for_events f c)"
  using thread_invariant [of Q c "mhi_events c" f] assms
  by (simp add: for_events_def Let_def case_prod_beta)

lemma for_chans_inv:
  assumes "Q c" and "\<And>ch c. Q c \<Longrightarrow> Q (snd (f ch c))" and "\<And>c chs. Q c \<Longrightarrow> Q (c\<lparr>mhi_chans := chs\<rparr>)"
  shows "Q (for_chans f c)"
  using thread_invariant [of Q c "mhi_chans c" f] assms
  by (simp add: for_chans_def Let_def case_prod_beta)

lemma for_events_pm [simp]:
  "pm_state (for_events ready_event c) = pm_state c" "dev_state (for_events ready_event c) = dev_state c"
  "pm_state (for_events m0_event c) = pm_state c" "dev_state (for_events m0_event c) = dev_state c"
  "pm_state (for_events mission_event c) = pm_state c" "dev_state (for_events mission_event c) = dev_state c"
  "mhi_chans (for_events m0_event c) = mhi_chans c" "mhi_cmd (for_events m0_event c) = mhi_cmd c"
  by (rule for_events_inv; simp add: ready_event_def m0_event_def mission_event_def Let_def)+

lemma for_chans_pm [simp]:
  "pm_state (for_chans m0_chan c) = pm_state c" "dev_state (for_chans m0_chan c) = dev_state c"
  by (rule for_chans_inv; simp add: m0_chan_def Let_def)+

lemma m0_mission_rings_frame [simp]:
  "pm_state (m0_mission_rings c) = pm_state c" "dev_state (m0_mission_rings c) = dev_state c"
  "mhi_chans (m0_mission_rings c) = mhi_chans c"
  by (simp_all add: m0_mission_rings_def Let_def mhi_ring_cmd_db_def)

lemma mhi_init_mmio_frame:
  "mhi_init_mmio c = (r, c') \<Longrightarrow> pm_state c' = pm_state c \<and> dev_state c' = dev_state c"
proof -
  have fold: "pm_state (fold (\<lambda>(off, v) c. mhi_write_reg_field b off U32_MAX 0 v c) rs c) = pm_state c \<and>
      dev_state (fold (\<lambda>(off, v) c. mhi_write_reg_field b off U32_MAX 0 v c) rs c) = dev_state c" for b rs c
    by (induction rs arbitrary: c) (auto simp: case_prod_beta)
  show "mhi_init_mmio c = (r, c') \<Longrightarrow> ?thesis"
    by (auto simp: mhi_init_mmio_def Let_def fold split: sum.splits)
qed

subsection \<open>The state machine is respected\<close>

text \<open>A step of the documented machine, or none.\<close>

definition pm_move :: "u32 \<Rightarrow> u32 \<Rightarrow> bool" where
  "pm_move s t \<longleftrightarrow> t = s \<or> pm_documented s t"

lemma pm_next_move: "s \<in> set pm_states \<Longrightarrow> t \<in> set pm_states \<Longrightarrow> pm_move s (pm_next s t)"
  using pm_next_all by (auto simp: pm_move_def)

lemma pm_move_refl [simp]: "pm_move s s"
  by (simp add: pm_move_def)

text \<open>What each handler makes of the power state.\<close>

lemma m0_pm_state: "pm_state (snd (mhi_pm_m0_transition c)) = pm_next (pm_state c) MHI_PM_M0"
  by (simp add: mhi_pm_m0_transition_def mhi_tryset_pm_state_def Let_def)

lemma m1_pm_state: "pm_state (mhi_pm_m1_transition c) = pm_next (pm_state c) MHI_PM_M2"
  by (simp add: mhi_pm_m1_transition_def mhi_tryset_pm_state_def Let_def)

lemma m3_pm_state: "pm_state (snd (mhi_pm_m3_transition c)) = pm_next (pm_state c) MHI_PM_M3"
  by (simp add: mhi_pm_m3_transition_def mhi_tryset_pm_state_def Let_def)

lemma intvec_pm_state:
  "pm_state (mhi_intvec_threaded_handlr c) = pm_state c \<or>
   pm_state (mhi_intvec_threaded_handlr c) = pm_next (pm_state c) MHI_PM_SYS_ERR_DETECT"
  by (simp add: mhi_intvec_threaded_handlr_def mhi_tryset_pm_state_def Let_def case_prod_beta)

text \<open>
  From a proper power state, every handler of a device event moves the host's power state by at
  most one step of the documented machine, and never to anything that is not one of its states: the
  M0, M1 and M3 events and the interrupt vector.
\<close>

theorem handlers_pm_move:
  assumes "pm_state c \<in> set pm_states"
  shows "pm_move (pm_state c) (pm_state (snd (mhi_pm_m0_transition c))) \<and>
    pm_move (pm_state c) (pm_state (mhi_pm_m1_transition c)) \<and>
    pm_move (pm_state c) (pm_state (snd (mhi_pm_m3_transition c))) \<and>
    pm_move (pm_state c) (pm_state (mhi_intvec_threaded_handlr c))"
  using pm_next_move [OF assms] intvec_pm_state [of c]
  by (auto simp: m0_pm_state m1_pm_state m3_pm_state pm_move_refl)

text \<open>
  A device event can only take the host to the state it stands for: after a successful M0
  transition the power state is M0 and the recorded device state is M0; after a successful M3
  transition both are M3; and a failed transition leaves the power state as it was.
\<close>

theorem m0_m3_transition_result:
  "(fst (mhi_pm_m0_transition c) = Inr () \<longrightarrow>
      pm_state (snd (mhi_pm_m0_transition c)) = MHI_PM_M0 \<and> dev_state (snd (mhi_pm_m0_transition c)) = MHI_STATE_M0) \<and>
   (fst (mhi_pm_m0_transition c) \<noteq> Inr () \<longrightarrow> pm_state (snd (mhi_pm_m0_transition c)) = pm_state c) \<and>
   (fst (mhi_pm_m3_transition c) = Inr () \<longrightarrow>
      pm_state (snd (mhi_pm_m3_transition c)) = MHI_PM_M3 \<and> dev_state (snd (mhi_pm_m3_transition c)) = MHI_STATE_M3) \<and>
   (fst (mhi_pm_m3_transition c) \<noteq> Inr () \<longrightarrow> pm_state (snd (mhi_pm_m3_transition c)) = pm_state c)"
  using pm_next_cases [of "pm_state c" MHI_PM_M0] pm_next_cases [of "pm_state c" MHI_PM_M3]
  by (auto simp: mhi_pm_m0_transition_def mhi_pm_m3_transition_def mhi_tryset_pm_state_def Let_def)

subsection \<open>Waking, suspending and resuming\<close>

text \<open>
  Whatever happens while it waits, a successful wake-up of the device leaves the host in M0, and
  a failed one reports EIO.
\<close>

theorem mhi_device_get_sync_m0:
  "mhi_device_get_sync_ctrl es c = (r, c') \<Longrightarrow>
   (r = Inr () \<and> pm_state c' = MHI_PM_M0) \<or> (r = Inl EIO \<and> (pm_state c' \<noteq> MHI_PM_M0 \<or> MHI_PM_IN_ERROR_STATE (pm_state c')))"
proof -
  let ?P = "\<lambda>c. pm_state c = MHI_PM_M0 \<or> MHI_PM_IN_ERROR_STATE (pm_state c)"
  have res: "fst (wait_event_timeout ?P es d) = ?P (snd (wait_event_timeout ?P es d))" for d
    by (rule wait_event_timeout_result)
  assume "mhi_device_get_sync_ctrl es c = (r, c')"
  then show ?thesis
    using res by (auto simp: mhi_device_get_sync_ctrl_def Let_def case_prod_beta split: if_splits)
qed

lemma notify_lpm_frame [simp]:
  "pm_state (notify_lpm cb c) = pm_state c" "dev_state (notify_lpm cb c) = dev_state c"
  "mhi_chans (notify_lpm cb c) = mhi_chans c"
proof -
  have "pm_state (fold f is c) = pm_state c \<and> dev_state (fold f is c) = dev_state c \<and> mhi_chans (fold f is c) = mhi_chans c"
    if "\<And>i c. pm_state (f i c) = pm_state c \<and> dev_state (f i c) = dev_state c \<and> mhi_chans (f i c) = mhi_chans c"
    for f :: "nat \<Rightarrow> mhi_controller \<Rightarrow> mhi_controller" and "is" c
    using that by (induction "is" arbitrary: c) auto
  then show "pm_state (notify_lpm cb c) = pm_state c" "dev_state (notify_lpm cb c) = dev_state c"
    "mhi_chans (notify_lpm cb c) = mhi_chans c"
    by (auto simp: notify_lpm_def)
qed


text \<open>
  Resuming: a disabled host needs nothing and reports success unchanged; an error state is
  refused with EIO unchanged; otherwise success means that the device has confirmed M0 and the host
  is not in an error state.
\<close>

theorem mhi_pm_resume_result:
  assumes "mhi_pm_resume es c = (r, c')"
  shows "(pm_state c = MHI_PM_DISABLE \<longrightarrow> r = Inr () \<and> c' = c) \<and>
    (pm_state c \<noteq> MHI_PM_DISABLE \<and> MHI_PM_IN_ERROR_STATE (pm_state c) \<longrightarrow> r = Inl EIO \<and> c' = c) \<and>
    (pm_state c \<noteq> MHI_PM_DISABLE \<and> r = Inr () \<longrightarrow>
       dev_state c' = MHI_STATE_M0 \<and> \<not> MHI_PM_IN_ERROR_STATE (pm_state c'))"
proof -
  let ?P = "\<lambda>c. dev_state c = MHI_STATE_M0 \<or> MHI_PM_IN_ERROR_STATE (pm_state c)"
  have res: "fst (wait_event_timeout ?P es d) = ?P (snd (wait_event_timeout ?P es d))" for d
    by (rule wait_event_timeout_result)
  show ?thesis
    using assms res by (auto simp: mhi_pm_resume_def Let_def case_prod_beta split: if_splits)
qed

subsection \<open>Shutting down\<close>

text \<open>
  What the shutdown relies on: nothing that runs while it waits for the device, and no client that is
  removed, changes the power state. The transition table lets a client-triggered change leave the
  shutdown state only for \<open>LD_ERR_FATAL_DETECT\<close>.
\<close>

definition env_keeps_pm :: "disable_env \<Rightarrow> bool" where
  "env_keeps_pm env \<longleftrightarrow> (\<forall>e \<in> set (de_wait_reset env). \<forall>c. pm_state (e c) = pm_state c) \<and>
     (\<forall>c. pm_state (de_destroy env c) = pm_state c)"

lemma pm_next_shutdown:
  "s \<in> set pm_states \<Longrightarrow> s \<noteq> MHI_PM_DISABLE \<Longrightarrow> pm_next s MHI_PM_SHUTDOWN_PROCESS = MHI_PM_SHUTDOWN_PROCESS"
  by (auto simp: pm_states_def pm_next_def mhi_state_transitions_def pm_consts)

lemma pm_next_disabled: "pm_next MHI_PM_SHUTDOWN_PROCESS MHI_PM_DISABLE = MHI_PM_DISABLE"
  "pm_next MHI_PM_DISABLE MHI_PM_SHUTDOWN_PROCESS = MHI_PM_DISABLE"
  "pm_next MHI_PM_DISABLE MHI_PM_LD_ERR_FATAL_DETECT = MHI_PM_DISABLE"
  by (simp_all add: pm_next_def mhi_state_transitions_def pm_consts)

lemma pm_next_fatal:
  "s \<in> set pm_states \<Longrightarrow> s \<noteq> MHI_PM_DISABLE \<Longrightarrow> pm_next s MHI_PM_LD_ERR_FATAL_DETECT = MHI_PM_LD_ERR_FATAL_DETECT"
  by (auto simp: pm_states_def pm_next_def mhi_state_transitions_def pm_consts)

lemma pm_distinct_shutdown [simp]:
  "MHI_PM_SHUTDOWN_PROCESS \<noteq> MHI_PM_SYS_ERR_PROCESS" "MHI_PM_DISABLE \<noteq> MHI_PM_SHUTDOWN_PROCESS"
  "MHI_PM_LD_ERR_FATAL_DETECT \<noteq> MHI_PM_DISABLE"
  by (simp_all add: pm_consts)

lemma kill_tasklets_pm [simp]: "pm_state (kill_tasklets c) = pm_state c"
proof -
  have "pm_state (fold (\<lambda>ev c. if offload_ev ev then c else emit (TaskletKill (er_index ev)) c) evs c) = pm_state c"
    for evs :: "mhi_event list" and c by (induction evs arbitrary: c) auto
  then show ?thesis by (simp add: kill_tasklets_def)
qed

lemma mhi_destroy_timesync_sel [simp]:
  "pm_state (mhi_destroy_timesync c) = pm_state c" "mhi_tsync (mhi_destroy_timesync c) = None"
  "mhi_cmd (mhi_destroy_timesync c) = mhi_cmd c" "mhi_events (mhi_destroy_timesync c) = mhi_events c"
  by (simp_all add: mhi_destroy_timesync_def split: option.splits)

lemma disable_reset_rings_sel [simp]:
  "pm_state (disable_reset_rings c) = pm_state c"
  "mhi_cmd (disable_reset_rings c) = ring_rewind (mhi_cmd c)"
  by (simp_all add: disable_reset_rings_def)

lemma disable_reset_device_shutdown:
  assumes "\<forall>e \<in> set es. \<forall>c. pm_state (e c) = pm_state c"
  shows "snd (disable_reset_device es prev MHI_PM_SHUTDOWN_PROCESS c)"
    and "pm_state (fst (disable_reset_device es prev MHI_PM_SHUTDOWN_PROCESS c)) = pm_state c"
proof -
  have "pm_state (snd (snd (wait_event reset_cond es l d))) = pm_state d" for l d
    by (rule wait_event_inv [where Q = "\<lambda>x. pm_state x = pm_state d"]) (use assms in auto)
  then show "snd (disable_reset_device es prev MHI_PM_SHUTDOWN_PROCESS c)"
    and "pm_state (fst (disable_reset_device es prev MHI_PM_SHUTDOWN_PROCESS c)) = pm_state c"
    by (simp_all add: disable_reset_device_def Let_def case_prod_beta)
qed

text \<open>All rings the host works with are empty and start at their bases.\<close>

definition ring_at_base :: "'e mhi_ring \<Rightarrow> bool" where
  "ring_at_base r \<longleftrightarrow> ring_rp r = ring_base r \<and> ring_wp r = ring_base r \<and>
     ring_ctxt_rp r = ring_ctxt_rbase r \<and> ring_ctxt_wp r = ring_ctxt_rbase r"

lemma ring_at_base_rewind [simp]: "ring_at_base (ring_rewind r)"
  by (simp add: ring_at_base_def ring_rewind_def)

definition quiesced :: "mhi_controller \<Rightarrow> bool" where
  "quiesced c \<longleftrightarrow> pm_state c = MHI_PM_DISABLE \<and> mhi_tsync c = None \<and> ring_at_base (mhi_cmd c) \<and>
     (\<forall>ev \<in> set (mhi_events c). \<not> offload_ev ev \<longrightarrow> ring_at_base (ev_ring ev))"

lemma mhi_pm_disable_shutdown:
  assumes "env_keeps_pm env" and "pm_state c \<in> set pm_states" and "pm_state c \<noteq> MHI_PM_DISABLE"
  shows "quiesced (mhi_pm_disable_transition env MHI_PM_SHUTDOWN_PROCESS c)"
proof -
  have keep: "\<forall>e \<in> set (de_wait_reset env). \<forall>c. pm_state (e c) = pm_state c"
    and dest: "pm_state (de_destroy env d) = pm_state d" for d
    using assms(1) by (simp_all add: env_keeps_pm_def)
  have fin: "quiesced (disable_finish env MHI_PM_SHUTDOWN_PROCESS (mhi_destroy_timesync (disable_reset_rings d)))"
    if "pm_state d = MHI_PM_SHUTDOWN_PROCESS" for d
    using that
    by (auto simp: disable_finish_def quiesced_def pm_next_disabled disable_reset_rings_def)
  show ?thesis
    using pm_next_shutdown [OF assms(2,3)] disable_reset_device_shutdown [OF keep]
    by (simp add: mhi_pm_disable_transition_def Let_def case_prod_beta fin dest)
qed

lemma mhi_deinit_pm [simp]:
  "pm_state (mhi_deinit_dev_ctxt c) = pm_state c" "pm_state (mhi_deinit_free_irq c) = pm_state c"
proof -
  have "pm_state (fold (\<lambda>ev c. if offload_ev ev then c else emit (FreeIrq (ev_msi ev)) c) evs c) = pm_state c"
    for evs :: "mhi_event list" and c by (induction evs arbitrary: c) auto
  then show "pm_state (mhi_deinit_dev_ctxt c) = pm_state c" "pm_state (mhi_deinit_free_irq c) = pm_state c"
    by (simp_all add: mhi_deinit_dev_ctxt_def mhi_deinit_free_irq_def Let_def)
qed

lemma mhi_pm_disable_disabled:
  "pm_state c = MHI_PM_DISABLE \<Longrightarrow> pm_state (mhi_pm_disable_transition env MHI_PM_SHUTDOWN_PROCESS c) = MHI_PM_DISABLE"
  by (simp add: mhi_pm_disable_transition_def Let_def case_prod_beta pm_next_disabled)

lemma mhi_pm_disable_power_down:
  assumes "env_keeps_pm env" and "pm_state c \<in> set pm_states"
  shows "pm_state (mhi_pm_disable_transition env MHI_PM_SHUTDOWN_PROCESS c) = MHI_PM_DISABLE"
  using mhi_pm_disable_shutdown [OF assms] mhi_pm_disable_disabled [of c env]
  by (cases "pm_state c = MHI_PM_DISABLE") (simp_all add: quiesced_def)


text \<open>A concrete run: nothing happens during the wait and the clients only disappear.\<close>

definition quiet_env :: disable_env where
  "quiet_env = \<lparr>de_wait_reset = [], de_destroy = emit DestroyDevices, de_wait_ready = []\<rparr>"

lemma power_up_start_sel [simp]:
  "pm_state (power_up_start env c) = MHI_PM_POR" "dev_state (power_up_start env c) = dev_state c"
  by (simp_all add: power_up_start_def Let_def mhi_queue_state_transition_def)

lemma mhi_init_dev_ctxt_pm:
  "mhi_init_dev_ctxt a s c = (r, c') \<Longrightarrow> pm_state c' = pm_state c \<and> dev_state c' = dev_state c"
  by (auto simp: mhi_init_dev_ctxt_def Let_def split: if_splits option.splits prod.splits)

lemma request_ev_irqs_pm:
  "request_ev_irqs req got evs c = (r, c') \<Longrightarrow> pm_state c' = pm_state c \<and> dev_state c' = dev_state c"
proof (induction req got evs c rule: request_ev_irqs.induct)
  case (1 req got c)
  then show ?case by simp
next
  case (2 req got ev evs c)
  have "pm_state (fold free_ev_irq got d) = pm_state d \<and> dev_state (fold free_ev_irq got d) = dev_state d" for d
    by (induction got arbitrary: d) auto
  with 2 show ?case by (auto split: if_splits option.splits)
qed

lemma mhi_init_irq_setup_pm:
  "mhi_init_irq_setup rt rq c = (r, c') \<Longrightarrow> pm_state c' = pm_state c \<and> dev_state c' = dev_state c"
  using request_ev_irqs_pm [of rq "[]" "mhi_events c" "emit (RequestIrq (msi_irq_base c)) c" r c']
  by (auto simp: mhi_init_irq_setup_def Let_def split: if_splits option.splits)

lemma mhi_deinit_dev_state [simp]: "dev_state (mhi_deinit_dev_ctxt c) = dev_state c"
  by (simp add: mhi_deinit_dev_ctxt_def Let_def)

text \<open>
  Powering up: whatever the state before, whatever the registers hold and whatever the allocations
  and interrupt requests give, success leaves the host in POR and a failure leaves it DISABLE, in both
  cases with the recorded device state RESET.
\<close>

theorem mhi_async_power_up_result:
  "fst (mhi_async_power_up env c) = Inr () \<and> pm_state (snd (mhi_async_power_up env c)) = MHI_PM_POR \<and>
     dev_state (snd (mhi_async_power_up env c)) = MHI_STATE_RESET \<or>
   (\<exists>e. fst (mhi_async_power_up env c) = Inl e) \<and> pm_state (snd (mhi_async_power_up env c)) = MHI_PM_DISABLE \<and>
     dev_state (snd (mhi_async_power_up env c)) = MHI_STATE_RESET"
proof -
  let ?c = "(power_up_device env c)\<lparr>pm_state := MHI_PM_DISABLE, dev_state := MHI_STATE_RESET\<rparr>"
  show ?thesis
  proof (cases "pre_init ?c")
    case True
    then show ?thesis by (simp add: mhi_async_power_up_def Let_def)
  next
    case False
    obtain r1 c1 where 1: "mhi_init_dev_ctxt (pu_alloc_ctxt env) (pu_alloc_seg env) ?c = (r1, c1)" by fastforce
    obtain r2 c2 where 2: "mhi_init_irq_setup (pu_req_threaded env) (pu_req env) c1 = (r2, c2)" by fastforce
    show ?thesis
      using False 1 2 mhi_init_dev_ctxt_pm [OF 1] mhi_init_irq_setup_pm [OF 2]
      by (cases r1; cases r2) (auto simp: mhi_async_power_up_def Let_def)
  qed
qed

end
