(* ===== verification/MHI_Event.thy ===== *)
theory MHI_Event
  imports MHI_PM
begin

text \<open>
  Event processing (\<^verbatim>\<open>core/mhi_main.c\<close>): the three event ring processors, the tasklets and interrupt
  handlers that call them, polling, and the time requests whose answers arrive as events.

  An event ring is named by its index \<open>i\<close>, which is its \<^verbatim>\<open>er_index\<close>: the transitions a control event
  causes ring the doorbells of all event rings, the one in work included. \<open>devs\<close> holds what the
  device does to the shared memory while one element after the other is processed. The result is
  \<open>None\<close> when the code does not come back from the call: a loop that never meets its end pointer, an
  access outside the channel array, a null pointer, or a lock taken twice.

  The lemmas show that a processor consumes exactly the elements between the host's and the
  device's pointers, in order and once each; they are proved once, in the locale \<open>ev_consumer\<close>, for
  every handler that leaves the ring it is called from alone.
\<close>

subsection \<open>The event ring in work\<close>

definition ev_at :: "mhi_controller \<Rightarrow> nat \<Rightarrow> mhi_event" where
  "ev_at c i = mhi_events c ! i"

definition ev_put :: "nat \<Rightarrow> mhi_event \<Rightarrow> mhi_controller \<Rightarrow> mhi_controller" where
  "ev_put i ev c = c\<lparr>mhi_events := (mhi_events c)[i := ev]\<rparr>"

definition ev_dev_rp :: "mhi_controller \<Rightarrow> nat \<Rightarrow> u64" where
  "ev_dev_rp c i = mhi_to_virtual (ev_ring (ev_at c i)) (ring_ctxt_rp (ev_ring (ev_at c i)))"

definition ev_front :: "mhi_controller \<Rightarrow> nat \<Rightarrow> mhi_tre" where
  "ev_front c i = ring_front (ev_ring (ev_at c i))"

definition ev_recycle :: "nat \<Rightarrow> mhi_controller \<Rightarrow> mhi_controller" where
  "ev_recycle i c = ev_put i ((ev_at c i)\<lparr>ev_ring := mhi_recycle_ev_ring_element (ev_ring (ev_at c i))\<rparr>) c"

definition dev_step :: "env \<Rightarrow> mhi_controller \<Rightarrow> mhi_controller" where
  "dev_step devs c = (case devs of [] \<Rightarrow> c | d # _ \<Rightarrow> d c)"

text \<open>The doorbell at the end of every processor.\<close>

definition ev_ring_db :: "nat \<Rightarrow> mhi_controller \<Rightarrow> mhi_controller" where
  "ev_ring_db i c =
     (if MHI_DB_ACCESS_VALID (pm_state c)
      then (let (ev, c') = mhi_ring_er_db (ev_at c i) c in ev_put i ev c') else c)"

text \<open>The largest number of elements a run processed.\<close>

definition ev_count_used :: "nat \<Rightarrow> int \<Rightarrow> mhi_controller \<Rightarrow> mhi_controller" where
  "ev_count_used i count c =
     (if ev_used_elements (ev_at c i) < word_of_int count
      then ev_put i ((ev_at c i)\<lparr>ev_used_elements := word_of_int count\<rparr>) c else c)"

subsection \<open>Handlers of one event\<close>

definition mhi_process_cmd_completion :: "mhi_tre \<Rightarrow> mhi_controller \<Rightarrow> mhi_controller option" where
  "mhi_process_cmd_completion tre c =
     (let ring = mhi_cmd c;
          cmd_pkt = mhi_to_virtual ring (MHI_TRE_GET_EV_PTR tre);
          c0 = if cmd_pkt \<noteq> ring_rp ring then emit (WarnOn ''Out of order cmd completion'') c else c;
          pkt = ring_mem ring cmd_pkt;
          del = (\<lambda>c. c\<lparr>mhi_cmd := mhi_del_ring_element (mhi_cmd c)\<rparr>)
      in if MHI_TRE_GET_CMD_TYPE pkt = MHI_CMD_TYPE_TSYNC
         then (case mhi_tsync c0 of
                 None \<Rightarrow> None
               | Some t \<Rightarrow> Some (del (c0\<lparr>mhi_tsync := Some (t\<lparr>ts_ccs := MHI_TRE_GET_EV_CODE tre,
                                                       ts_completion := ts_completion t + 1\<rparr>)\<rparr>)))
         else (let n = unat (MHI_TRE_GET_CMD_CHID pkt); ch = chan_at c0 n
               in if length (mhi_chans c0) \<le> n then None
                  else Some (del (chan_put n (ch\<lparr>ch_ccs := MHI_TRE_GET_EV_CODE tre,
                                                 ch_completion := ch_completion ch + 1\<rparr>) c0))))"

definition xfer_event ::
  "dma_map_fn \<Rightarrow> mhi_tre \<Rightarrow> mhi_controller \<Rightarrow> mhi_controller option" where
  "xfer_event dma_map tre c =
     (let n = unat (MHI_TRE_GET_EV_CHID tre); type = MHI_TRE_GET_EV_TYPE tre
      in if length (mhi_chans c) \<le> n then None
         else if type = MHI_PKT_TYPE_TX_EVENT
         then (case parse_xfer_event dma_map tre (chan_at c n) c of
                 None \<Rightarrow> None | Some (ch, c') \<Rightarrow> Some (chan_put n ch c'))
         else if type = MHI_PKT_TYPE_RSC_TX_EVENT
         then (let (ch, c') = parse_rsc_event tre (chan_at c n) c in Some (chan_put n ch c'))
         else Some c)"

definition state_change_event :: "mhi_tre \<Rightarrow> mhi_controller \<Rightarrow> mhi_controller" where
  "state_change_event tre c =
     (let new_state = MHI_TRE_GET_EV_STATE tre
      in if new_state = MHI_STATE_M0 then snd (mhi_pm_m0_transition c)
         else if new_state = MHI_STATE_M1 then mhi_pm_m1_transition c
         else if new_state = MHI_STATE_M3 then snd (mhi_pm_m3_transition c)
         else if new_state = MHI_STATE_SYS_ERR
         then (let (s, c1) = mhi_tryset_pm_state MHI_PM_SYS_ERR_DETECT c
               in if s = MHI_PM_SYS_ERR_DETECT then emit (ScheduleWork Syserr_worker) c1 else c1)
         else c)"

text \<open>\<open>alloc\<close>: whether the item of \<^verbatim>\<open>mhi_queue_state_transition\<close> can be allocated.\<close>

definition ee_event :: "bool \<Rightarrow> mhi_tre \<Rightarrow> mhi_controller \<Rightarrow> mhi_controller" where
  "ee_event alloc tre c =
     (let event = MHI_TRE_GET_EV_EXECENV tre
      in if event = MHI_EE_SBL then snd (mhi_queue_state_transition alloc MHI_ST_TRANSITION_SBL c)
         else if event = MHI_EE_FP then snd (mhi_queue_state_transition alloc MHI_ST_TRANSITION_FP c)
         else if event = MHI_EE_WFW \<or> event = MHI_EE_AMSS
         then snd (mhi_queue_state_transition alloc MHI_ST_TRANSITION_MISSION_MODE c)
         else if event = MHI_EE_RDDM
         then emit WakeUpAll ((emit (StatusCb MHI_CB_EE_RDDM) c)\<lparr>ee := event\<rparr>)
         else c)"

text \<open>The body of the loop of \<^verbatim>\<open>mhi_process_ctrl_ev_ring\<close>.\<close>

definition ctrl_event :: "dma_map_fn \<Rightarrow> bool \<Rightarrow> mhi_tre \<Rightarrow> mhi_controller \<Rightarrow> mhi_controller option" where
  "ctrl_event dma_map alloc tre c =
     (let type = MHI_TRE_GET_EV_TYPE tre
      in if type = MHI_PKT_TYPE_STATE_CHANGE_EVENT then Some (state_change_event tre c)
         else if type = MHI_PKT_TYPE_CMD_COMPLETION_EVENT then mhi_process_cmd_completion tre c
         else if type = MHI_PKT_TYPE_EE_EVENT then Some (ee_event alloc tre c)
         else if type = MHI_PKT_TYPE_TX_EVENT \<or> type = MHI_PKT_TYPE_RSC_TX_EVENT then xfer_event dma_map tre c
         else Some (emit (WarnOn ''Unsupported ev type'') c))"

subsection \<open>The control event ring\<close>

partial_function (option) ctrl_ev_loop ::
  "dma_map_fn \<Rightarrow> bool \<Rightarrow> env \<Rightarrow> nat \<Rightarrow> int \<Rightarrow> mhi_controller \<Rightarrow> (int \<times> mhi_controller) option" where
  "ctrl_ev_loop dma_map alloc devs i count c =
     (if ev_dev_rp c i = ring_rp (ev_ring (ev_at c i)) then Some (count, c)
      else case ctrl_event dma_map alloc (ev_front c i) c of
             None \<Rightarrow> None
           | Some c1 \<Rightarrow> ctrl_ev_loop dma_map alloc (tl devs) i (count + 1) (dev_step devs (ev_recycle i c1)))"

definition mhi_process_ctrl_ev_ring ::
  "dma_map_fn \<Rightarrow> bool \<Rightarrow> env \<Rightarrow> nat \<Rightarrow> mhi_controller \<Rightarrow> (int res \<times> mhi_controller) option" where
  "mhi_process_ctrl_ev_ring dma_map alloc devs i c =
     (if MHI_EVENT_ACCESS_INVALID (pm_state c) then Some (Inl EIO, c)
      else case ctrl_ev_loop dma_map alloc devs i 0 c of
             None \<Rightarrow> None
           | Some (count, c1) \<Rightarrow> Some (Inr count, ev_ring_db i (ev_count_used i count c1)))"

subsection \<open>Data event rings\<close>

record data_loop =
  dl_dev_rp :: u64
  dl_quota :: u32
  dl_chan_count :: u32
  dl_count :: int

text \<open>
  One element of a data ring: the quota is charged for transfer events only, and the statistics of the
  channel are brought up to date when the known elements or the quota are used up.
\<close>

definition data_event :: "dma_map_fn \<Rightarrow> mhi_tre \<Rightarrow> mhi_controller \<Rightarrow> (u32 \<times> mhi_controller) option" where
  "data_event dma_map tre c =
     (case xfer_event dma_map tre c of
        None \<Rightarrow> None
      | Some c1 \<Rightarrow>
          (let n = unat (MHI_TRE_GET_EV_CHID tre); r = tre_ring (chan_at c1 n)
           in Some (get_used_ring_elements (ring_rp (tre_ring (chan_at c n))) (ring_rp r) (ucast (ring_elements r)), c1)))"

definition quota_charge :: "mhi_tre \<Rightarrow> u32" where
  "quota_charge tre =
     (if MHI_TRE_GET_EV_TYPE tre = MHI_PKT_TYPE_TX_EVENT \<or> MHI_TRE_GET_EV_TYPE tre = MHI_PKT_TYPE_RSC_TX_EVENT then 1 else 0)"

definition chan_count_used :: "nat \<Rightarrow> u32 \<Rightarrow> mhi_controller \<Rightarrow> mhi_controller" where
  "chan_count_used n count c =
     (if ch_used_elements (chan_at c n) < count
      then chan_put n ((chan_at c n)\<lparr>ch_used_elements := count\<rparr>) c else c)"

partial_function (option) data_ev_loop ::
  "dma_map_fn \<Rightarrow> env \<Rightarrow> nat \<Rightarrow> data_loop \<Rightarrow> mhi_controller \<Rightarrow> (int \<times> mhi_controller) option" where
  "data_ev_loop dma_map devs i l c =
     (if dl_dev_rp l = ring_rp (ev_ring (ev_at c i)) \<or> dl_quota l = 0 then Some (dl_count l, c)
      else case data_event dma_map (ev_front c i) c of
             None \<Rightarrow> None
           | Some (used, c1) \<Rightarrow>
               (let quota = dl_quota l - quota_charge (ev_front c i);
                    chan_count = dl_chan_count l + used;
                    c2 = dev_step devs (ev_recycle i c1)
                in if ring_rp (ev_ring (ev_at c2 i)) = dl_dev_rp l \<or> quota = 0
                   then (let c3 = chan_count_used (unat (MHI_TRE_GET_EV_CHID (ev_front c i))) chan_count c2
                         in data_ev_loop dma_map (tl devs) i
                              (l\<lparr>dl_dev_rp := ev_dev_rp c3 i, dl_quota := quota, dl_chan_count := 0,
                                 dl_count := dl_count l + 1\<rparr>) c3)
                   else data_ev_loop dma_map (tl devs) i
                          (l\<lparr>dl_quota := quota, dl_chan_count := chan_count, dl_count := dl_count l + 1\<rparr>) c2))"

definition mhi_process_data_event_ring ::
  "dma_map_fn \<Rightarrow> env \<Rightarrow> nat \<Rightarrow> u32 \<Rightarrow> mhi_controller \<Rightarrow> (int res \<times> mhi_controller) option" where
  "mhi_process_data_event_ring dma_map devs i event_quota c =
     (if MHI_EVENT_ACCESS_INVALID (pm_state c) then Some (Inl EIO, c)
      else case data_ev_loop dma_map devs i
                  \<lparr>dl_dev_rp = ev_dev_rp c i, dl_quota = event_quota, dl_chan_count = 0, dl_count = 0\<rparr> c of
             None \<Rightarrow> None
           | Some (count, c1) \<Rightarrow> Some (Inr count, ev_ring_db i (ev_count_used i count c1)))"

subsection \<open>The time synchronisation event ring\<close>

text \<open>
  The inner loop: every waiting request is taken off the list, the one with the event's sequence number
  is answered, all are freed. The loop is left through the \<^verbatim>\<open>break\<close> taken with the lock held.
\<close>

definition tsync_answer :: "u32 \<Rightarrow> u64 \<Rightarrow> tsync_node \<Rightarrow> mhi_controller \<Rightarrow> mhi_controller" where
  "tsync_answer sequence remote_time node c =
     emit (Kfree 0) (if ts_sequence node = sequence
                     then emit (TsyncCb sequence (ts_local_time node) remote_time) c else c)"

definition tsync_event :: "mhi_tre \<Rightarrow> mhi_controller \<Rightarrow> mhi_controller option" where
  "tsync_event tre c =
     (case mhi_tsync c of
        None \<Rightarrow> None
      | Some t \<Rightarrow>
          if ts_locked t then None
          else (let c0 = if MHI_TRE_GET_EV_TYPE tre \<noteq> MHI_PKT_TYPE_TSYNC_EVENT
                         then emit (WarnOn ''!TSYNC event'') c else c;
                    c1 = fold (tsync_answer (MHI_TRE_GET_EV_SEQ tre) (MHI_TRE_GET_EV_TIME tre)) (ts_head t) c0
                in Some ((emit (WarnOn ''Unexpected Event'') c1)
                     \<lparr>mhi_tsync := Some (t\<lparr>ts_head := [], ts_locked := True\<rparr>)\<rparr>)))"

partial_function (option) tsync_ev_loop ::
  "env \<Rightarrow> nat \<Rightarrow> int \<Rightarrow> mhi_controller \<Rightarrow> (int \<times> mhi_controller) option" where
  "tsync_ev_loop devs i count c =
     (if ev_dev_rp c i = ring_rp (ev_ring (ev_at c i)) then Some (count, c)
      else case tsync_event (ev_front c i) c of
             None \<Rightarrow> None
           | Some c1 \<Rightarrow> tsync_ev_loop (tl devs) i (count + 1) (dev_step devs (ev_recycle i c1)))"

definition mhi_process_tsync_event_ring ::
  "env \<Rightarrow> nat \<Rightarrow> mhi_controller \<Rightarrow> (int res \<times> mhi_controller) option" where
  "mhi_process_tsync_event_ring devs i c =
     (if MHI_EVENT_ACCESS_INVALID (pm_state c) then Some (Inl EIO, c)
      else case tsync_ev_loop devs i 0 c of
             None \<Rightarrow> None
           | Some (count, c1) \<Rightarrow> Some (Inr count, ev_ring_db i c1))"

subsection \<open>Tasklets, interrupts and polling\<close>

definition call_process_event ::
  "dma_map_fn \<Rightarrow> bool \<Rightarrow> env \<Rightarrow> nat \<Rightarrow> u32 \<Rightarrow> mhi_controller \<Rightarrow> (int res \<times> mhi_controller) option" where
  "call_process_event dma_map alloc devs i quota c =
     (case process_event (ev_at c i) of
        Process_data_event_ring \<Rightarrow> mhi_process_data_event_ring dma_map devs i quota c
      | Process_ctrl_ev_ring \<Rightarrow> mhi_process_ctrl_ev_ring dma_map alloc devs i c
      | Process_tsync_event_ring \<Rightarrow> mhi_process_tsync_event_ring devs i c)"

definition mhi_ev_task :: "dma_map_fn \<Rightarrow> bool \<Rightarrow> env \<Rightarrow> nat \<Rightarrow> mhi_controller \<Rightarrow> mhi_controller option" where
  "mhi_ev_task dma_map alloc devs i c =
     map_option snd (call_process_event dma_map alloc devs i U32_MAX (emit RuntimeMarkLastBusy c))"

definition mhi_ctrl_ev_task :: "dma_map_fn \<Rightarrow> bool \<Rightarrow> env \<Rightarrow> nat \<Rightarrow> mhi_controller \<Rightarrow> mhi_controller option" where
  "mhi_ctrl_ev_task dma_map alloc devs i c =
     (if \<not> MHI_REG_ACCESS_VALID (pm_state c) then Some c
      else case call_process_event dma_map alloc devs i U32_MAX (emit RuntimeMarkLastBusy c) of
             None \<Rightarrow> None
           | Some (ret, c1) \<Rightarrow>
               if ret = Inr 0 \<and> mhi_get_mhi_state c1 = MHI_STATE_SYS_ERR
               then (let (s, c2) = mhi_tryset_pm_state MHI_PM_SYS_ERR_DETECT c1
                     in Some (if s = MHI_PM_SYS_ERR_DETECT then emit (ScheduleWork Syserr_worker) c2 else c2))
               else Some c1)"

definition mhi_msi_handlr :: "nat \<Rightarrow> mhi_controller \<Rightarrow> mhi_controller" where
  "mhi_msi_handlr i c =
     (let ev = ev_at c i
      in if ring_rp (ev_ring ev) = ev_dev_rp c i then c
         else if cl_manage ev
         then (if has_mhi_dev (chan_at c (unat (ev_chan ev)))
               then emit (PendingDataCb (chan (chan_at c (unat (ev_chan ev))))) c else c)
         else emit (TaskletSchedule (er_index ev)) c)"

definition one_msi_ring :: "nat \<Rightarrow> u32 \<times> mhi_controller \<Rightarrow> u32 \<times> mhi_controller" where
  "one_msi_ring i = (\<lambda>(handle, c).
     if ring_rp (ev_ring (ev_at c i)) \<noteq> ev_dev_rp c i then (handle + 1, mhi_msi_handlr i c) else (handle, c))"

definition mhi_one_msi_handlr :: "mhi_controller \<Rightarrow> mhi_controller" where
  "mhi_one_msi_handlr c =
     (let (handle, c1) = fold one_msi_ring [0..<unat NUM_MHI_EVT_RINGS] (0, c)
      in if handle = 0 then mhi_intvec_threaded_handlr c1 else c1)"

definition mhi_poll ::
  "dma_map_fn \<Rightarrow> bool \<Rightarrow> env \<Rightarrow> mhi_device \<Rightarrow> u32 \<Rightarrow> mhi_controller \<Rightarrow> (int res \<times> mhi_controller) option" where
  "mhi_poll dma_map alloc devs dev budget c =
     (case dl_chan dev of
        None \<Rightarrow> None
      | Some n \<Rightarrow> call_process_event dma_map alloc devs (unat (ch_er_index (chan_at c n))) budget c)"

subsection \<open>Asking for the time of the device\<close>

text \<open>
  \<open>lpm\<close> is the error \<^verbatim>\<open>lpm_disable\<close> returns, if any, \<open>now\<close> what \<^verbatim>\<open>time_get\<close> returns and \<open>time_reg\<close> what
  reading the 64-bit time register returns.
\<close>

definition mhi_get_remote_time_sync ::
  "env \<Rightarrow> errno option \<Rightarrow> u64 \<Rightarrow> u64 \<Rightarrow> mhi_controller \<Rightarrow> (u64 \<times> u64) res \<times> mhi_controller" where
  "mhi_get_remote_time_sync es lpm now time_reg c =
     (if mhi_tsync c = None then (Inl EIO, c)
      else (case mhi_device_get_sync_ctrl es c of
              (Inl e, c1) \<Rightarrow> (Inl e, c1)
            | (Inr _, c1) \<Rightarrow>
                if MHI_PM_IN_ERROR_STATE (pm_state c1) then (Inl EIO, mhi_deassert_dev_wake c1)
                else (case lpm of
                        Some e \<Rightarrow> (Inl e, mhi_deassert_dev_wake (emit LpmDisable c1))
                      | None \<Rightarrow> (Inr (now, time_reg),
                                 mhi_deassert_dev_wake (emit LpmEnable (emit LpmDisable c1))))))"

definition mhi_get_remote_time ::
  "env \<Rightarrow> bool \<Rightarrow> u64 \<Rightarrow> u32 \<Rightarrow> mhi_controller \<Rightarrow> (unit res \<times> mhi_controller) option" where
  "mhi_get_remote_time es alloc now sequence c =
     (if mhi_tsync c = None then Some (Inl EIO, c)
      else (case mhi_device_get_sync_ctrl es c of
              (Inl e, c1) \<Rightarrow> Some (Inl e, c1)
            | (Inr _, c1) \<Rightarrow>
                if \<not> alloc then Some (Inl ENOMEM, mhi_deassert_dev_wake c1)
                else (let c2 = emit LpmDisable c1
                      in if MHI_PM_IN_ERROR_STATE (pm_state c2)
                         then Some (Inl EIO, mhi_deassert_dev_wake (emit LpmEnable (emit (Kfree 0) c2)))
                         else (case mhi_tsync c2 of
                                 None \<Rightarrow> None
                               | Some t \<Rightarrow>
                                   if ts_locked t then None
                                   else (let t' = t\<lparr>ts_head := ts_head t @ [\<lparr>ts_sequence = sequence, ts_local_time = now\<rparr>]\<rparr>;
                                             c3 = mhi_write_reg (ts_db t) 0 sequence (c2\<lparr>mhi_tsync := Some t'\<rparr>)
                                         in Some (Inr (), mhi_deassert_dev_wake (emit LpmEnable c3)))))))"

subsection \<open>What the handlers leave alone\<close>

text \<open>The event rings, without their doorbell state and statistics.\<close>

definition ev_rings :: "mhi_controller \<Rightarrow> mhi_tre mhi_ring list" where
  "ev_rings c = map ev_ring (mhi_events c)"

lemma ev_ring_at: "i < length (ev_rings c) \<Longrightarrow> ev_ring (ev_at c i) = ev_rings c ! i"
  by (simp add: ev_rings_def ev_at_def)

lemma ev_rings_frame [simp]:
  "ev_rings (emit e c) = ev_rings c" "ev_rings (chan_put n ch c) = ev_rings c"
  "ev_rings (mhi_set_mhi_state s c) = ev_rings c" "ev_rings (mhi_assert_dev_wake c) = ev_rings c"
  "ev_rings (c\<lparr>pm_state := p\<rparr>) = ev_rings c" "ev_rings (c\<lparr>dev_state := d\<rparr>) = ev_rings c"
  "ev_rings (c\<lparr>ee := e1\<rparr>) = ev_rings c" "ev_rings (c\<lparr>mhi_cmd := q\<rparr>) = ev_rings c"
  "ev_rings (c\<lparr>mhi_tsync := ts\<rparr>) = ev_rings c" "ev_rings (c\<lparr>transition_list := sts\<rparr>) = ev_rings c"
  "ev_rings (c\<lparr>cnt_M0 := n0\<rparr>) = ev_rings c" "ev_rings (c\<lparr>cnt_M2 := n0\<rparr>) = ev_rings c"
  "ev_rings (c\<lparr>cnt_M3 := n0\<rparr>) = ev_rings c" "ev_rings (c\<lparr>mhi_chans := chs\<rparr>) = ev_rings c"
  "ev_rings (c\<lparr>pending_pkts := k\<rparr>) = ev_rings c" "ev_rings (mhi_write_db a v c) = ev_rings c"
  by (simp_all add: ev_rings_def)

lemma thread_m0_event_rings: "map ev_ring (fst (thread m0_event evs c)) = map ev_ring evs"
  by (induction evs arbitrary: c) (simp_all add: Let_def case_prod_beta m0_event_def)

lemma m0_events_rings [simp]: "ev_rings (for_events m0_event c) = ev_rings c"
  by (simp add: ev_rings_def for_events_def Let_def case_prod_beta thread_m0_event_rings)

lemma m0_chans_rings [simp]: "ev_rings (for_chans m0_chan c) = ev_rings c"
  by (rule for_chans_inv [where Q = "\<lambda>d. ev_rings d = ev_rings c"])
    (simp_all add: m0_chan_def Let_def ev_rings_def)

lemma state_change_event_rings [simp]: "ev_rings (state_change_event tre c) = ev_rings c"
proof -
  have mission: "ev_rings (m0_mission_rings d) = ev_rings d" for d
    by (simp add: m0_mission_rings_def Let_def mhi_ring_cmd_db_def case_prod_beta)
  have m0: "ev_rings (snd (mhi_pm_m0_transition c)) = ev_rings c"
    by (simp add: mhi_pm_m0_transition_def Let_def case_prod_beta mission)
  have m1: "ev_rings (mhi_pm_m1_transition c) = ev_rings c"
    by (simp add: mhi_pm_m1_transition_def Let_def case_prod_beta)
  have m3: "ev_rings (snd (mhi_pm_m3_transition c)) = ev_rings c"
    by (simp add: mhi_pm_m3_transition_def Let_def case_prod_beta)
  show ?thesis
    by (simp add: state_change_event_def m0 m1 m3 Let_def case_prod_beta)
qed

lemma ee_event_rings [simp]: "ev_rings (ee_event alloc tre c) = ev_rings c"
  by (simp add: ee_event_def mhi_queue_state_transition_def Let_def)

lemma cmd_completion_rings: "mhi_process_cmd_completion tre c = Some c' \<Longrightarrow> ev_rings c' = ev_rings c"
  by (auto simp: mhi_process_cmd_completion_def Let_def split: if_splits option.splits)

lemma queue_ring_db_rings: "queue_ring_db ch c = (ch', c') \<Longrightarrow> mhi_events c' = mhi_events c"
  by (auto simp: queue_ring_db_def split: if_splits dest: arg_cong [of _ _ "\<lambda>p. mhi_events (snd p)"])

lemma queue_pre_events [simp]:
  "mhi_events (pending_inc ch c) = mhi_events c" "mhi_events (pending_dec ch c) = mhi_events c"
  "mhi_events (queue_wake ch c) = mhi_events c" "mhi_events (queue_runtime c) = mhi_events c"
  "mhi_events (queue_unwake ch b c) = mhi_events c"
  by (simp_all add: pending_inc_def pending_dec_def queue_wake_def queue_runtime_def queue_unwake_def Let_def)

lemma mhi_queue_buf_events: "mhi_queue_buf dma_map buf len fl ch c = (r, ch', c') \<Longrightarrow> mhi_events c' = mhi_events c"
  by (auto simp: mhi_queue_buf_def Let_def split: if_splits prod.splits sum.splits dest: queue_ring_db_rings)

lemma xfer_complete_one_events: "mhi_events (snd (xfer_complete_one dma_map event status s)) = mhi_events (snd s)"
  by (cases s) (auto simp: xfer_complete_one_def Let_def split: prod.splits sum.splits dest: mhi_queue_buf_events)

lemma xfer_complete_loop_events:
  "xfer_complete_loop dma_map event status dev_rp s = Some s' \<Longrightarrow> mhi_events (snd s') = mhi_events (snd s)"
  by (erule xfer_complete_loop.raw_induct [where P = "\<lambda>d e st p s s'. mhi_events (snd s') = mhi_events (snd s)", rotated])
    (fastforce simp: xfer_complete_one_events split: if_splits)

lemma parse_xfer_event_events:
  "parse_xfer_event dma_map tre ch c = Some (ch', c') \<Longrightarrow> mhi_events c' = mhi_events c"
  by (auto simp: parse_xfer_event_def Let_def split: if_splits dest: xfer_complete_loop_events
      dest: arg_cong [of _ _ "\<lambda>p. mhi_events (snd p)"])

lemma xfer_event_rings: "xfer_event dma_map tre c = Some c' \<Longrightarrow> ev_rings c' = ev_rings c"
  by (auto simp: xfer_event_def ev_rings_def parse_rsc_event_def Let_def split: if_splits option.splits
      dest: parse_xfer_event_events)

lemma ctrl_event_rings: "ctrl_event dma_map alloc tre c = Some c' \<Longrightarrow> ev_rings c' = ev_rings c"
  by (auto simp: ctrl_event_def Let_def split: if_splits dest: cmd_completion_rings xfer_event_rings)

lemma tsync_event_rings: "tsync_event tre c = Some c' \<Longrightarrow> ev_rings c' = ev_rings c"
proof -
  have "ev_rings (fold (tsync_answer sq tm) nodes d) = ev_rings d" for sq tm nodes d
    by (induction nodes arbitrary: d) (simp_all add: tsync_answer_def)
  then show "tsync_event tre c = Some c' \<Longrightarrow> ?thesis"
    by (auto simp: tsync_event_def Let_def split: option.splits if_splits)
qed

subsection \<open>Consuming the pending elements\<close>

text \<open>The \<open>m\<close> elements from the host's read pointer on.\<close>

definition pending_elements :: "'e mhi_ring \<Rightarrow> nat \<Rightarrow> 'e list" where
  "pending_elements r m =
     map (\<lambda>k. ring_mem r (ring_slot r ((ring_idx r (ring_rp r) + k) mod slots r))) [0..<m]"

text \<open>The device's pointer lies \<open>m\<close> elements ahead in a well-formed ring.\<close>

definition ev_pending :: "mhi_controller \<Rightarrow> nat \<Rightarrow> nat \<Rightarrow> bool" where
  "ev_pending c i m \<longleftrightarrow> i < length (ev_rings c) \<and>
     (let r = ev_ring (ev_at c i)
      in ring_wf r \<and> m < slots r \<and>
         ev_dev_rp c i = ring_slot r ((ring_idx r (ring_rp r) + m) mod slots r))"

lemma ev_recycle_rings:
  "i < length (ev_rings c) \<Longrightarrow> ev_rings (ev_recycle i c) = (ev_rings c)[i := mhi_recycle_ev_ring_element (ev_ring (ev_at c i))]"
  by (simp add: ev_rings_def ev_recycle_def ev_put_def map_update)

lemma ev_recycle_at [simp]:
  "i < length (ev_rings c) \<Longrightarrow> ev_ring (ev_at (ev_recycle i c) i) = mhi_recycle_ev_ring_element (ev_ring (ev_at c i))"
  by (simp add: ev_rings_def ev_recycle_def ev_put_def ev_at_def)

lemma ev_dev_rp_cong: "ev_ring (ev_at c i) = ev_ring (ev_at d i) \<Longrightarrow> ev_dev_rp c i = ev_dev_rp d i"
  by (simp add: ev_dev_rp_def)

lemma ev_dev_rp_recycle [simp]: "i < length (ev_rings c) \<Longrightarrow> ev_dev_rp (ev_recycle i c) i = ev_dev_rp c i"
  by (simp add: ev_dev_rp_def)

lemma slots_recycle [simp]: "slots (mhi_recycle_ev_ring_element r) = slots r"
  "ring_slot (mhi_recycle_ev_ring_element r) = ring_slot r"
  by (simp_all add: ring_slot_def mhi_recycle_ev_ring_element_def Let_def fun_eq_iff)

lemma ev_pending_zero: "ev_pending c i m \<Longrightarrow> ev_dev_rp c i = ring_rp (ev_ring (ev_at c i)) \<longleftrightarrow> m = 0"
proof -
  assume p: "ev_pending c i m"
  let ?r = "ev_ring (ev_at c i)"
  have wf: "ring_wf ?r" and m: "m < slots ?r"
    and d: "ev_dev_rp c i = ring_slot ?r ((ring_idx ?r (ring_rp ?r) + m) mod slots ?r)"
    using p by (auto simp: ev_pending_def Let_def)
  note w = ring_wfD [OF wf]
  have "ev_dev_rp c i = ring_rp ?r \<longleftrightarrow>
      ring_slot ?r ((ring_idx ?r (ring_rp ?r) + m) mod slots ?r) = ring_slot ?r (ring_idx ?r (ring_rp ?r))"
    using d ring_slot_idx [OF w(1,2)] by simp
  also have "\<dots> \<longleftrightarrow> (ring_idx ?r (ring_rp ?r) + m) mod slots ?r = ring_idx ?r (ring_rp ?r)"
    using ring_slot_valid [OF w(1), of "(ring_idx ?r (ring_rp ?r) + m) mod slots ?r"]
      ring_slot_valid [OF w(1), of "ring_idx ?r (ring_rp ?r)"] w(4,5) by (metis mod_less_divisor)
  also have "\<dots> \<longleftrightarrow> m = 0"
    using mod_add_left_inj [of "ring_idx ?r (ring_rp ?r)" m "slots ?r" 0] m w(5) by (auto simp: mod_less)
  finally show ?thesis .
qed

lemma pending_elements_Suc:
  assumes wf: "ring_wf r"
  shows "pending_elements r (Suc m) = ring_front r # pending_elements (mhi_recycle_ev_ring_element r) m"
proof -
  note w = ring_wfD [OF wf]
  have shift: "(Suc (ring_idx r (ring_rp r)) mod slots r + k) mod slots r = (ring_idx r (ring_rp r) + Suc k) mod slots r" for k
    by (simp add: mod_simps)
  have "pending_elements r (Suc m) =
      ring_mem r (ring_slot r (ring_idx r (ring_rp r) mod slots r)) #
      map (\<lambda>k. ring_mem r (ring_slot r ((ring_idx r (ring_rp r) + Suc k) mod slots r))) [0..<m]"
    by (simp add: pending_elements_def upt_conv_Cons0 map_upt_shift del: upt_Suc)
  then show ?thesis
    using ring_slot_idx [OF w(1,2)] ring_advance_valid(2) [OF w(1,2)] w(5)
    by (simp add: pending_elements_def ring_front_def shift del: add_Suc_right)
qed

lemma ev_pending_step:
  assumes p: "ev_pending c i (Suc m)" and r: "ev_rings c1 = ev_rings c"
  shows "ev_pending (ev_recycle i c1) i m"
proof -
  let ?r = "ev_ring (ev_at c i)"
  have i: "i < length (ev_rings c1)" and same: "ev_ring (ev_at c1 i) = ?r"
    using p r by (simp_all add: ev_pending_def ev_ring_at)
  have wf: "ring_wf ?r" and m: "Suc m < slots ?r"
    and d: "ev_dev_rp c i = ring_slot ?r ((ring_idx ?r (ring_rp ?r) + Suc m) mod slots ?r)"
    using p by (auto simp: ev_pending_def Let_def)
  note w = ring_wfD [OF wf]
  have "ring_idx ?r (ring_advance ?r (ring_rp ?r)) = Suc (ring_idx ?r (ring_rp ?r)) mod slots ?r"
    by (rule ring_advance_valid(2) [OF w(1,2)])
  moreover have "(Suc (ring_idx ?r (ring_rp ?r)) mod slots ?r + m) mod slots ?r = (ring_idx ?r (ring_rp ?r) + Suc m) mod slots ?r"
    by (simp add: mod_simps)
  moreover have "i < length (ev_rings (ev_recycle i c1))" using i by (simp add: ev_recycle_rings)
  ultimately show ?thesis
    using i same d m wf ev_dev_rp_cong [OF same] by (auto simp: ev_pending_def Let_def)
qed

locale ev_consumer =
  fixes handle :: "mhi_tre \<Rightarrow> mhi_controller \<Rightarrow> mhi_controller option"
    and loop :: "nat \<Rightarrow> int \<Rightarrow> mhi_controller \<Rightarrow> (int \<times> mhi_controller) option"
    and consume :: "nat \<Rightarrow> mhi_tre list \<Rightarrow> mhi_controller \<Rightarrow> mhi_controller option"
  assumes handle_rings: "handle e c = Some c' \<Longrightarrow> ev_rings c' = ev_rings c"
    and loop_step: "loop i count c =
      (if ev_dev_rp c i = ring_rp (ev_ring (ev_at c i)) then Some (count, c)
       else case handle (ev_front c i) c of None \<Rightarrow> None | Some c1 \<Rightarrow> loop i (count + 1) (ev_recycle i c1))"
    and consume_Nil: "consume i [] c = Some c"
    and consume_Cons: "consume i (e # es) c =
      (case handle e c of None \<Rightarrow> None | Some c1 \<Rightarrow> consume i es (ev_recycle i c1))"
begin

lemma consumes:
  assumes "ev_pending c i m"
  shows "loop i count c =
    map_option (\<lambda>c'. (count + int m, c')) (consume i (pending_elements (ev_ring (ev_at c i)) m) c)"
  using assms
proof (induction m arbitrary: c count)
  case 0
  then show ?case
    by (subst loop_step) (simp add: ev_pending_zero pending_elements_def consume_Nil)
next
  case (Suc m)
  let ?r = "ev_ring (ev_at c i)"
  have wf: "ring_wf ?r" and i: "i < length (ev_rings c)"
    using Suc.prems by (auto simp: ev_pending_def Let_def)
  show ?case
  proof (cases "handle (ring_front ?r) c")
    case None
    then show ?thesis using ev_pending_zero [OF Suc.prems]
      by (subst loop_step) (simp add: pending_elements_Suc [OF wf] consume_Cons ev_front_def)
  next
    case (Some c1)
    have r: "ev_rings c1 = ev_rings c" by (rule handle_rings [OF Some])
    then have same: "ev_ring (ev_at c1 i) = ?r" "i < length (ev_rings c1)" using i by (simp_all add: ev_ring_at)
    have "loop i (count + 1) (ev_recycle i c1) =
        map_option (\<lambda>c'. (count + 1 + int m, c')) (consume i (pending_elements (ev_ring (ev_at (ev_recycle i c1) i)) m) (ev_recycle i c1))"
      by (rule Suc.IH [OF ev_pending_step [OF Suc.prems r]])
    moreover have "ev_ring (ev_at (ev_recycle i c1) i) = mhi_recycle_ev_ring_element ?r" using same by simp
    ultimately show ?thesis using Some ev_pending_zero [OF Suc.prems]
      by (subst loop_step) (simp add: pending_elements_Suc [OF wf] consume_Cons ev_front_def add_ac)
  qed
qed

lemma consume_all:
  assumes "ev_pending c i m" and "consume i (pending_elements (ev_ring (ev_at c i)) m) c = Some c'"
  shows "ev_pending c' i 0" and "length (ev_rings c') = length (ev_rings c)"
proof -
  have "ev_pending c' i 0 \<and> length (ev_rings c') = length (ev_rings c)" using assms
  proof (induction m arbitrary: c)
    case 0
    then show ?case by (simp add: pending_elements_def consume_Nil)
  next
    case (Suc m)
    let ?r = "ev_ring (ev_at c i)"
    have wf: "ring_wf ?r" and i: "i < length (ev_rings c)"
      using Suc.prems by (auto simp: ev_pending_def Let_def)
    obtain c1 where c1: "handle (ring_front ?r) c = Some c1"
      and rest: "consume i (pending_elements (mhi_recycle_ev_ring_element ?r) m) (ev_recycle i c1) = Some c'"
      using Suc.prems(2) by (auto simp: pending_elements_Suc [OF wf] consume_Cons split: option.splits)
    have r: "ev_rings c1 = ev_rings c" by (rule handle_rings [OF c1])
    then have same: "ev_ring (ev_at c1 i) = ?r" "i < length (ev_rings c1)" using i by (simp_all add: ev_ring_at)
    from Suc.IH [OF ev_pending_step [OF Suc.prems(1) r]] rest same r i
    show ?case by (simp add: ev_recycle_rings)
  qed
  then show "ev_pending c' i 0" and "length (ev_rings c') = length (ev_rings c)" by simp_all
qed

end

text \<open>Handling a list of events one after the other, recycling the ring element after each.\<close>

fun consume_events ::
  "(mhi_tre \<Rightarrow> mhi_controller \<Rightarrow> mhi_controller option) \<Rightarrow> nat \<Rightarrow> mhi_tre list \<Rightarrow> mhi_controller \<Rightarrow> mhi_controller option" where
  "consume_events h i [] c = Some c"
| "consume_events h i (e # es) c =
     (case h e c of None \<Rightarrow> None | Some c1 \<Rightarrow> consume_events h i es (ev_recycle i c1))"

interpretation ctrl_ring: ev_consumer "ctrl_event dma_map alloc" "ctrl_ev_loop dma_map alloc []"
    "consume_events (ctrl_event dma_map alloc)" for dma_map alloc
proof unfold_locales
  fix i count c
  show "ctrl_ev_loop dma_map alloc [] i count c =
    (if ev_dev_rp c i = ring_rp (ev_ring (ev_at c i)) then Some (count, c)
     else case ctrl_event dma_map alloc (ev_front c i) c of None \<Rightarrow> None
          | Some c1 \<Rightarrow> ctrl_ev_loop dma_map alloc [] i (count + 1) (ev_recycle i c1))"
    by (subst ctrl_ev_loop.simps) (simp add: dev_step_def split: option.splits)
qed (auto dest: ctrl_event_rings)

interpretation tsync_ring: ev_consumer tsync_event "tsync_ev_loop []" "consume_events tsync_event"
proof unfold_locales
  fix i count c
  show "tsync_ev_loop [] i count c =
    (if ev_dev_rp c i = ring_rp (ev_ring (ev_at c i)) then Some (count, c)
     else case tsync_event (ev_front c i) c of None \<Rightarrow> None
          | Some c1 \<Rightarrow> tsync_ev_loop [] i (count + 1) (ev_recycle i c1))"
    by (subst tsync_ev_loop.simps) (simp add: dev_step_def split: option.splits)
qed (auto dest: tsync_event_rings)

subsection \<open>Properties\<close>

lemma ev_pending_done: "ev_pending c i 0 \<Longrightarrow> ring_rp (ev_ring (ev_at c i)) = ev_dev_rp c i"
  using ev_pending_zero [of c i 0] by simp

text \<open>
  (C5) The control ring processor handles exactly the events the device has published, in ring order and
  once each: with \<open>m\<close> elements pending, a run that comes back reports \<open>m\<close>, is the handling of those
  \<open>m\<close> elements one after the other, and leaves nothing pending. In an error state it
  refuses with EIO and touches nothing.
\<close>

theorem mhi_process_ctrl_ev_ring_consumes:
  assumes "ev_pending c i m"
  shows "mhi_process_ctrl_ev_ring dma_map alloc [] i c =
    (if MHI_EVENT_ACCESS_INVALID (pm_state c) then Some (Inl EIO, c)
     else map_option (\<lambda>c'. (Inr (int m), ev_ring_db i (ev_count_used i (int m) c')))
       (consume_events (ctrl_event dma_map alloc) i (pending_elements (ev_ring (ev_at c i)) m) c)) \<and>
    (\<forall>c'. consume_events (ctrl_event dma_map alloc) i (pending_elements (ev_ring (ev_at c i)) m) c = Some c' \<longrightarrow>
       ring_rp (ev_ring (ev_at c' i)) = ev_dev_rp c' i)"
  using ctrl_ring.consumes [OF assms, of dma_map alloc 0] ctrl_ring.consume_all(1) [OF assms, of dma_map alloc]
  by (auto simp: mhi_process_ctrl_ev_ring_def ev_pending_done split: option.splits)

text \<open>
  A completion event for the oldest command delivers its code to the channel the command names,
  counts one completion there, leaves every other channel alone, and takes the command off the
  command ring.
\<close>

theorem mhi_process_cmd_completion_delivers:
  assumes wf: "ring_wf (mhi_cmd c)" and ne: "ring_list (mhi_cmd c) = cmd_tre cmd n er # rest"
    and cmd: "cmd = MHI_CMD_RESET_CHAN \<or> cmd = MHI_CMD_START_CHAN"
    and n: "n AND 0xFF = n" "unat n < length (mhi_chans c)"
    and ptr: "MHI_TRE_GET_EV_PTR tre = mhi_to_physical (mhi_cmd c) (ring_rp (mhi_cmd c))"
  shows "\<exists>c'. mhi_process_cmd_completion tre c = Some c' \<and>
    ch_ccs (chan_at c' (unat n)) = MHI_TRE_GET_EV_CODE tre \<and>
    ch_completion (chan_at c' (unat n)) = ch_completion (chan_at c (unat n)) + 1 \<and>
    (\<forall>k. k \<noteq> unat n \<longrightarrow> chan_at c' k = chan_at c k) \<and>
    ring_wf (mhi_cmd c') \<and> ring_list (mhi_cmd c') = rest \<and> trace c' = trace c"
proof -
  have "ring_used (mhi_cmd c) \<noteq> 0" using ne length_ring_list [of "mhi_cmd c"] by auto
  then have used: "ring_rp (mhi_cmd c) \<noteq> ring_wp (mhi_cmd c)" using ring_used_zero_iff [OF wf] by simp
  have front: "ring_mem (mhi_cmd c) (ring_rp (mhi_cmd c)) = cmd_tre cmd n er"
    using ring_front_list(2) [OF wf used] ne by (simp add: ring_front_def)
  have chid: "MHI_TRE_GET_CMD_CHID (cmd_tre cmd n er) = n"
    and type: "MHI_TRE_GET_CMD_TYPE (cmd_tre cmd n er) \<noteq> MHI_CMD_TYPE_TSYNC"
    using cmd two_byte_fields [OF n(1), of MHI_CMD_TYPE_RESET] two_byte_fields [OF n(1), of MHI_CMD_TYPE_START]
    by (auto simp: cmd_tre_def tre_macros mhi_consts)
  show ?thesis
    using wf n ne used ptr chid type front ring_list_del [OF wf used]
    by (auto simp: mhi_process_cmd_completion_def Let_def chan_put_def chan_at_def)
qed

lemma tsync_event_locks: "tsync_event e c = Some c1 \<Longrightarrow> \<exists>t. mhi_tsync c1 = Some t \<and> ts_locked t"
  by (auto simp: tsync_event_def Let_def split: option.splits if_splits)

lemma tsync_event_locked: "mhi_tsync c = Some t \<Longrightarrow> ts_locked t \<Longrightarrow> tsync_event e c = None"
  by (simp add: tsync_event_def)

lemma ev_recycle_tsync [simp]: "mhi_tsync (ev_recycle i c) = mhi_tsync c" "pm_state (ev_recycle i c) = pm_state c"
  by (simp_all add: ev_recycle_def ev_put_def)

text \<open>
  The lock of the time synchronisation list is never released: after the first event the list's
  lock stays held, so a second event on the ring, or the next request for the device's time, never
  comes back.
\<close>

theorem tsync_lock_leak:
  assumes "ev_pending c i (Suc (Suc m))" and "\<not> MHI_EVENT_ACCESS_INVALID (pm_state c)"
    and "tsync_event e d = Some d'" and "mhi_device_get_sync_ctrl es d' = (Inr (), d')"
    and "\<not> MHI_PM_IN_ERROR_STATE (pm_state d')"
  shows "mhi_process_tsync_event_ring [] i c = None \<and> mhi_get_remote_time es True now sq d' = None"
proof -
  let ?r = "ev_ring (ev_at c i)"
  have wf: "ring_wf ?r" using assms(1) by (simp add: ev_pending_def Let_def)
  have "pending_elements ?r (Suc (Suc m)) = ring_front ?r #
      ring_front (mhi_recycle_ev_ring_element ?r) # pending_elements (mhi_recycle_ev_ring_element (mhi_recycle_ev_ring_element ?r)) m"
    using wf by (simp add: pending_elements_Suc mhi_recycle_ev_ring_element_wf)
  then have "consume_events tsync_event i (pending_elements ?r (Suc (Suc m))) c = None"
    by (auto split: option.splits simp: tsync_event_locked dest: tsync_event_locks)
  then have "mhi_process_tsync_event_ring [] i c = None"
    using tsync_ring.consumes [OF assms(1), of 0] assms(2) by (simp add: mhi_process_tsync_event_ring_def)
  moreover have "mhi_get_remote_time es True now sq d' = None"
    using tsync_event_locks [OF assms(3)] assms(4,5) by (auto simp: mhi_get_remote_time_def Let_def)
  ultimately show ?thesis by simp
qed

text \<open>The elements a data ring processor takes with a given quota.\<close>

fun data_take :: "u32 \<Rightarrow> mhi_tre list \<Rightarrow> mhi_tre list" where
  "data_take q [] = []"
| "data_take q (e # es) = (if q = 0 then [] else e # data_take (q - quota_charge e) es)"

lemma data_take_prefix: "\<exists>rest. es = data_take q es @ rest"
  by (induction q es rule: data_take.induct) auto

lemma data_take_charge: "(\<Sum>e\<leftarrow>data_take q es. unat (quota_charge e)) \<le> unat q"
proof (induction q es rule: data_take.induct)
  case (2 q e es)
  show ?case
  proof (cases "q = 0")
    case False
    then have "1 \<le> unat q" by (simp add: unat_gt_0 Suc_le_eq)
    then have "unat (q - quota_charge e) = unat q - unat (quota_charge e)" and "unat (quota_charge e) \<le> unat q"
      by (auto simp: quota_charge_def unat_sub word_le_nat_alt)
    with 2 False show ?thesis by simp
  qed simp
qed simp

lemma data_event_rings: "data_event dma_map tre c = Some (u, c') \<Longrightarrow> ev_rings c' = ev_rings c"
  by (auto simp: data_event_def Let_def split: option.splits dest: xfer_event_rings)

lemma chan_count_used_rings [simp]: "ev_rings (chan_count_used n k c) = ev_rings c"
  by (simp add: chan_count_used_def)

lemma ev_pending_cong: "ev_rings c = ev_rings d \<Longrightarrow> ev_pending c i m = ev_pending d i m"
  by (metis (no_types, lifting) ev_pending_def ev_ring_at ev_dev_rp_def)

text \<open>What a data ring processor needs to come back: a condition on the state under which every pending
  element is handled, and which handling, recycling and the statistics keep.\<close>

definition data_ring_inv :: "dma_map_fn \<Rightarrow> nat \<Rightarrow> mhi_tre list \<Rightarrow> (mhi_controller \<Rightarrow> bool) \<Rightarrow> bool" where
  "data_ring_inv dma_map i es J \<longleftrightarrow>
     (\<forall>c. J c \<longrightarrow> (\<forall>e \<in> set es. \<exists>u c1. data_event dma_map e c = Some (u, c1) \<and> J c1) \<and>
        J (ev_recycle i c) \<and> (\<forall>n k. J (chan_count_used n k c)))"

lemma data_ring_inv_Cons: "data_ring_inv d i (e # es) J \<Longrightarrow> data_ring_inv d i es J"
  by (simp add: data_ring_inv_def)

lemma data_loop_consumes:
  assumes "ev_pending c i m" and "dl_dev_rp l = ev_dev_rp c i" and "J c"
    and "data_ring_inv dma_map i (pending_elements (ev_ring (ev_at c i)) m) J"
  shows "\<exists>c'. data_ev_loop dma_map [] i l c =
      Some (dl_count l + int (length (data_take (dl_quota l) (pending_elements (ev_ring (ev_at c i)) m))), c') \<and>
    ev_pending c' i (m - length (data_take (dl_quota l) (pending_elements (ev_ring (ev_at c i)) m))) \<and> J c'"
  using assms
proof (induction m arbitrary: c l)
  case 0
  then show ?case
    by (subst data_ev_loop.simps) (simp add: ev_pending_done pending_elements_def)
next
  case (Suc m)
  let ?r = "ev_ring (ev_at c i)" and ?q = "dl_quota l" and ?e = "ring_front (ev_ring (ev_at c i))"
  let ?q' = "?q - quota_charge ?e" and ?es = "pending_elements (mhi_recycle_ev_ring_element ?r) m"
  have wf: "ring_wf ?r" and i: "i < length (ev_rings c)"
    using Suc.prems by (auto simp: ev_pending_def Let_def)
  note els = pending_elements_Suc [OF wf, of m]
  have ne: "ev_dev_rp c i \<noteq> ring_rp ?r" using ev_pending_zero [OF Suc.prems(1)] by simp
  show ?case
  proof (cases "?q = 0")
    case True
    then show ?thesis using Suc.prems els by (subst data_ev_loop.simps) simp
  next
    case False
    obtain u c1 where h: "data_event dma_map ?e c = Some (u, c1)" and J1: "J c1"
      using Suc.prems(3,4) els by (auto simp: data_ring_inv_def)
    have inv: "data_ring_inv dma_map i ?es J"
      using Suc.prems(4) els by (simp add: data_ring_inv_Cons)
    let ?c2 = "ev_recycle i c1"
    let ?c3 = "chan_count_used (unat (MHI_TRE_GET_EV_CHID ?e)) (dl_chan_count l + u) ?c2"
    have r: "ev_rings c1 = ev_rings c" by (rule data_event_rings [OF h])
    then have same: "ev_ring (ev_at c1 i) = ?r" "i < length (ev_rings c1)" using i by (simp_all add: ev_ring_at)
    have p2: "ev_pending ?c2 i m" by (rule ev_pending_step [OF Suc.prems(1) r])
    have r2: "ev_ring (ev_at ?c2 i) = mhi_recycle_ev_ring_element ?r" and d2: "ev_dev_rp ?c2 i = ev_dev_rp c i"
      using same ev_dev_rp_cong [OF same(1)] by simp_all
    have p3: "ev_pending ?c3 i m" using p2 ev_pending_cong [of ?c3 ?c2] by simp
    have r3: "ev_ring (ev_at ?c3 i) = mhi_recycle_ev_ring_element ?r"
      using r2 same ev_ring_at [of i ?c3] ev_ring_at [of i ?c2] by (simp add: ev_recycle_rings)
    have J2: "J ?c2" and J3: "J ?c3" using J1 Suc.prems(4) by (auto simp: data_ring_inv_def)
    note IH2 = Suc.IH [OF p2, of "l\<lparr>dl_quota := ?q', dl_chan_count := dl_chan_count l + u, dl_count := dl_count l + 1\<rparr>"]
    note IH3 = Suc.IH [OF p3, of "l\<lparr>dl_dev_rp := ev_dev_rp ?c3 i, dl_quota := ?q', dl_chan_count := 0, dl_count := dl_count l + 1\<rparr>"]
    show ?thesis
      using False ne h els inv r2 r3 d2 Suc.prems(2) IH2 IH3 J2 J3
      by (subst data_ev_loop.simps) (auto simp: ev_front_def dev_step_def Let_def add_ac)
  qed
qed


end
