(* ===== verification/MHI_DTR.thy ===== *)
theory MHI_DTR
  imports MHI_Chan
begin

text \<open>
  The modem control lines (\<^verbatim>\<open>pcie_mhi/src/core/mhi_dtr.c\<close>): the control channel \<^verbatim>\<open>IP_CTRL\<close> carries messages that set
  the lines of the host (DTR, RTS) and report those of the modem (CD, DSR, RI) for the other channels.

  The lemmas show who may change which line: the ioctl changes the lines of the host and only when the message was
  sent, a message of the modem changes the lines of the modem of the device it names. They also show what goes wrong
  when the transfer is not confirmed in time: the message is freed while it is still queued.

  \<open>ds_devs\<close> are the client devices with their lines, \<open>ds_owner n\<close> is the device of channel \<open>n\<close>, \<open>ds_bufs\<close> the buffers
  that are allocated, by address. The control channel transfers plain buffers (\<open>mhi_queue_buf\<close>). While a function
  waits, other threads and the device change the state: each sleep is a list of such changes.
\<close>

subsection \<open>Messages and state\<close>

record dtr_ctrl_msg =
  dm_preamble :: u32
  dm_msg_id :: u32
  dm_dest_id :: u32
  dm_size :: u32
  dm_msg :: u32

definition CTRL_MAGIC :: u32 where "CTRL_MAGIC = 0x4C525443"
definition CTRL_MSG_DTR :: u32 where "CTRL_MSG_DTR = 1"
definition CTRL_MSG_RTS :: u32 where "CTRL_MSG_RTS = 2"
definition CTRL_MSG_DCD :: u32 where "CTRL_MSG_DCD = 1"
definition CTRL_MSG_DSR :: u32 where "CTRL_MSG_DSR = 2"
definition CTRL_MSG_RI :: u32 where "CTRL_MSG_RI = 8"
definition CTRL_HOST_STATE :: u32 where "CTRL_HOST_STATE = 0x10"

definition TIOCM_DTR :: u32 where "TIOCM_DTR = 0x002"
definition TIOCM_RTS :: u32 where "TIOCM_RTS = 0x004"
definition TIOCM_CD :: u32 where "TIOCM_CD = 0x040"
definition TIOCM_RI :: u32 where "TIOCM_RI = 0x080"
definition TIOCM_DSR :: u32 where "TIOCM_DSR = 0x100"

lemmas tiocm_defs = TIOCM_DTR_def TIOCM_RTS_def TIOCM_CD_def TIOCM_RI_def TIOCM_DSR_def
lemmas ctrl_msg_defs = CTRL_MSG_DTR_def CTRL_MSG_RTS_def CTRL_MSG_DCD_def CTRL_MSG_DSR_def CTRL_MSG_RI_def

definition sizeof_dtr_msg :: u64 where "sizeof_dtr_msg = 20"

definition CTRL_GET_CHID :: "dtr_ctrl_msg \<Rightarrow> u32" where
  "CTRL_GET_CHID m = dm_dest_id m AND 0xFF"

record dtr_client =
  dc_ul_chan_id :: u32
  dc_tiocm :: u32

record dtr_sys =
  ds_ctl :: mhi_controller
  ds_dtr_dev :: "mhi_device option"
  ds_mtu :: u64
  ds_devs :: "dtr_client list"
  ds_owner :: "nat \<Rightarrow> nat option"
  ds_bufs :: "u64 set"

subsection \<open>Setting the lines of the host\<close>

definition tiocmset_msg :: "u32 \<Rightarrow> u32 \<Rightarrow> dtr_ctrl_msg" where
  "tiocmset_msg dest lines =
     \<lparr>dm_preamble = CTRL_MAGIC, dm_msg_id = CTRL_HOST_STATE, dm_dest_id = dest, dm_size = 4,
      dm_msg = (if lines AND TIOCM_DTR \<noteq> 0 then CTRL_MSG_DTR else 0) OR (if lines AND TIOCM_RTS \<noteq> 0 then CTRL_MSG_RTS else 0)\<rparr>"

definition dtr_queue :: "dma_map_fn \<Rightarrow> nat \<Rightarrow> u64 \<Rightarrow> u64 \<Rightarrow> mhi_controller \<Rightarrow> unit res \<times> mhi_controller" where
  "dtr_queue dma_map n buf len c =
     (let (r, ch, c') = mhi_queue_buf dma_map buf len MHI_EOT (chan_at c n) c in (r, chan_put n ch c'))"

definition dtr_wait :: "nat \<Rightarrow> (dtr_sys \<Rightarrow> dtr_sys) list \<Rightarrow> dtr_sys \<Rightarrow> bool \<times> dtr_sys" where
  "dtr_wait n es st =
     (let (ok, st') = wait_event_timeout (\<lambda>st. 0 < ch_completion (chan_at (ds_ctl st) n)) es st;
          ch = chan_at (ds_ctl st') n
      in (ok, if ok \<and> ch_completion ch \<noteq> COMPLETE_ALL
              then st'\<lparr>ds_ctl := chan_put n (ch\<lparr>ch_completion := ch_completion ch - 1\<rparr>) (ds_ctl st')\<rparr> else st'))"

definition set_lines :: "u32 \<Rightarrow> u32 \<Rightarrow> nat \<Rightarrow> dtr_sys \<Rightarrow> dtr_sys" where
  "set_lines clear new i st =
     (let d = ds_devs st ! i
      in st\<lparr>ds_devs := (ds_devs st)[i := d\<lparr>dc_tiocm := (dc_tiocm d AND NOT clear) OR new\<rparr>]\<rparr>)"

definition dtr_free :: "u64 \<Rightarrow> dtr_sys \<Rightarrow> dtr_sys" where
  "dtr_free a st = st\<lparr>ds_bufs := ds_bufs st - {a}\<rparr>"

text \<open>
  \<open>alloc\<close>: the address \<^verbatim>\<open>kzalloc\<close> returns; \<open>i\<close>: the client device; \<open>n\<close>: the uplink of the control channel. The result
  also has the message that was queued.
\<close>

definition mhi_dtr_tiocmset ::
  "dma_map_fn \<Rightarrow> u64 option \<Rightarrow> (dtr_sys \<Rightarrow> dtr_sys) list \<Rightarrow> nat \<Rightarrow> nat \<Rightarrow> u32 \<Rightarrow> dtr_sys \<Rightarrow>
   unit res \<times> dtr_ctrl_msg option \<times> dtr_sys" where
  "mhi_dtr_tiocmset dma_map alloc es n i tiocm_arg st =
     (let d = ds_devs st ! i; cur_tiocm = dc_tiocm d AND NOT (TIOCM_CD OR TIOCM_DSR OR TIOCM_RI);
          lines = tiocm_arg AND (TIOCM_DTR OR TIOCM_RTS)
      in if cur_tiocm = lines then (Inr (), None, st)
         else case alloc of
                None \<Rightarrow> (Inl ENOMEM, None, st)
              | Some a \<Rightarrow>
                  (let msg = tiocmset_msg (dc_ul_chan_id d) lines;
                       c = chan_put n ((chan_at (ds_ctl st) n)\<lparr>ch_completion := 0\<rparr>) (ds_ctl st);
                       (r, c1) = dtr_queue dma_map n a sizeof_dtr_msg c;
                       st1 = st\<lparr>ds_ctl := c1, ds_bufs := insert a (ds_bufs st)\<rparr>
                   in case r of
                        Inl e \<Rightarrow> (Inl e, None, dtr_free a st1)
                      | Inr _ \<Rightarrow>
                          (let (ok, st2) = dtr_wait n es st1
                           in if \<not> ok then (Inl EIO, Some msg, dtr_free a st2)
                              else (Inr (), Some msg, dtr_free a (set_lines (TIOCM_DTR OR TIOCM_RTS) lines i st2)))))"

datatype dtr_ioctl = TIOCMGET | TIOCMSET "u32 option" | OtherCmd

datatype dtr_ret = DtrErr errno | DtrFault | DtrLines u32 | DtrOk

definition mhi_ioctl ::
  "dma_map_fn \<Rightarrow> u64 option \<Rightarrow> (dtr_sys \<Rightarrow> dtr_sys) list \<Rightarrow> nat \<Rightarrow> dtr_ioctl \<Rightarrow> dtr_sys \<Rightarrow> (dtr_ret \<times> dtr_sys) option" where
  "mhi_ioctl dma_map alloc es i cmd st =
     (case ds_dtr_dev st of
        None \<Rightarrow> Some (DtrErr EIO, st)
      | Some dev \<Rightarrow>
          (case cmd of
             TIOCMGET \<Rightarrow> Some (DtrLines (dc_tiocm (ds_devs st ! i)), st)
           | TIOCMSET None \<Rightarrow> Some (DtrFault, st)
           | TIOCMSET (Some v) \<Rightarrow>
               (case ul_chan dev of
                  None \<Rightarrow> None
                | Some n \<Rightarrow> (case mhi_dtr_tiocmset dma_map alloc es n i v st of
                               (Inl e, _, st') \<Rightarrow> Some (DtrErr e, st') | (Inr _, _, st') \<Rightarrow> Some (DtrOk, st')))
           | OtherCmd \<Rightarrow> Some (DtrErr EINVAL, st)))"

subsection \<open>Messages of the modem\<close>

fun dtr_inbound_loop ::
  "dma_map_fn \<Rightarrow> nat \<Rightarrow> (nat \<Rightarrow> u64 option) \<Rightarrow> nat \<Rightarrow> nat \<Rightarrow> unit res \<Rightarrow> dtr_sys \<Rightarrow> unit res \<times> dtr_sys" where
  "dtr_inbound_loop dma_map n alloc i 0 ret st = (ret, st)"
| "dtr_inbound_loop dma_map n alloc i (Suc k) ret st =
     (case alloc i of
        None \<Rightarrow> (Inl ENOMEM, st)
      | Some a \<Rightarrow>
          (let (r, c) = dtr_queue dma_map n a (ds_mtu st) (ds_ctl st); st1 = st\<lparr>ds_ctl := c\<rparr>
           in case r of
                Inl e \<Rightarrow> (Inl e, st1)
              | Inr _ \<Rightarrow> dtr_inbound_loop dma_map n alloc (Suc i) k (Inr ()) (st1\<lparr>ds_bufs := insert a (ds_bufs st1)\<rparr>)))"

definition mhi_dtr_queue_inbound ::
  "dma_map_fn \<Rightarrow> nat \<Rightarrow> (nat \<Rightarrow> u64 option) \<Rightarrow> dtr_sys \<Rightarrow> unit res \<times> dtr_sys" where
  "mhi_dtr_queue_inbound dma_map n alloc st =
     dtr_inbound_loop dma_map n alloc 0 (nat (mhi_get_no_free_descriptors (chan_at (ds_ctl st) n))) (Inl EIO) st"

definition modem_lines :: "u32 \<Rightarrow> u32" where
  "modem_lines m =
     (if m AND CTRL_MSG_DCD \<noteq> 0 then TIOCM_CD else 0) OR (if m AND CTRL_MSG_DSR \<noteq> 0 then TIOCM_DSR else 0) OR
     (if m AND CTRL_MSG_RI \<noteq> 0 then TIOCM_RI else 0)"

text \<open>\<open>n\<close>: the downlink of the control channel; \<open>msg\<close>: what the device has written into the buffer.\<close>

definition mhi_dtr_dl_xfer_cb ::
  "dma_map_fn \<Rightarrow> nat \<Rightarrow> dtr_ctrl_msg \<Rightarrow> mhi_result \<Rightarrow> dtr_sys \<Rightarrow> dtr_sys" where
  "mhi_dtr_dl_xfer_cb dma_map n msg res st =
     (if res_transaction_status res = Some ENOTCONN then dtr_free (res_buf_addr res) st
      else if ucast (res_bytes_xferd res) \<noteq> sizeof_dtr_msg then st
      else (let ch = unat (CTRL_GET_CHID msg);
                st1 = (if length (mhi_chans (ds_ctl st)) \<le> ch then st
                       else case ds_owner st ch of
                              None \<Rightarrow> st
                            | Some i \<Rightarrow> set_lines (TIOCM_CD OR TIOCM_DSR OR TIOCM_RI) (modem_lines (dm_msg msg)) i st)
            in st1\<lparr>ds_ctl := snd (dtr_queue dma_map n (res_buf_addr res) (ds_mtu st1) (ds_ctl st1))\<rparr>))"

definition mhi_dtr_ul_xfer_cb :: "nat \<Rightarrow> mhi_result \<Rightarrow> dtr_sys \<Rightarrow> dtr_sys" where
  "mhi_dtr_ul_xfer_cb n res st =
     (if res_transaction_status res \<noteq> None then st
      else (let ch = chan_at (ds_ctl st) n
            in st\<lparr>ds_ctl := chan_put n (ch\<lparr>ch_completion := ch_completion ch + 1\<rparr>) (ds_ctl st)\<rparr>))"

definition mhi_dtr_remove :: "dtr_sys \<Rightarrow> dtr_sys" where
  "mhi_dtr_remove st = st\<lparr>ds_dtr_dev := None\<rparr>"

definition mhi_dtr_probe ::
  "dma_map_fn \<Rightarrow> prep_env \<Rightarrow> prep_env \<Rightarrow> (mhi_controller \<Rightarrow> mhi_controller) list \<Rightarrow> (nat \<Rightarrow> u64 option) \<Rightarrow> mhi_device \<Rightarrow>
   dtr_sys \<Rightarrow> (unit res \<times> dtr_sys) option" where
  "mhi_dtr_probe dma_map env_ul env_dl es alloc dev st =
     (let st0 = st\<lparr>ds_mtu := min sizeof_dtr_msg (ds_mtu st)\<rparr>
      in case mhi_prepare_for_transfer env_ul env_dl es dev (ds_ctl st0) of
           None \<Rightarrow> None
         | Some (Inl e, c) \<Rightarrow> Some (Inl e, st0\<lparr>ds_ctl := c\<rparr>)
         | Some (Inr _, c) \<Rightarrow>
             (case dl_chan dev of
                None \<Rightarrow> None
              | Some n \<Rightarrow> Some (mhi_dtr_queue_inbound dma_map n alloc (st0\<lparr>ds_ctl := c, ds_dtr_dev := Some dev\<rparr>))))"

subsection \<open>Who changes which line\<close>

definition host_lines :: "u32 \<Rightarrow> u32" where "host_lines t = t AND (TIOCM_DTR OR TIOCM_RTS)"
definition dev_lines :: "u32 \<Rightarrow> u32" where "dev_lines t = t AND (TIOCM_CD OR TIOCM_DSR OR TIOCM_RI)"

lemma set_lines_nth:
  "i < length (ds_devs st) \<Longrightarrow> dc_tiocm (ds_devs (set_lines clear new i st) ! j) =
     (if j = i then (dc_tiocm (ds_devs st ! i) AND NOT clear) OR new else dc_tiocm (ds_devs st ! j))"
  by (simp add: set_lines_def Let_def nth_list_update)

lemma host_set: "host_lines ((t AND NOT (TIOCM_DTR OR TIOCM_RTS)) OR (v AND (TIOCM_DTR OR TIOCM_RTS))) = host_lines v"
  "dev_lines ((t AND NOT (TIOCM_DTR OR TIOCM_RTS)) OR (v AND (TIOCM_DTR OR TIOCM_RTS))) = dev_lines t"
  by (simp_all add: host_lines_def dev_lines_def tiocm_defs bit.conj_disj_distrib2 and.assoc)

lemma modem_lines_only: "modem_lines m AND (TIOCM_DTR OR TIOCM_RTS) = 0" "dev_lines (modem_lines m) = modem_lines m"
  by (simp_all add: modem_lines_def dev_lines_def tiocm_defs)

lemma dev_set: "dev_lines ((t AND NOT (TIOCM_CD OR TIOCM_DSR OR TIOCM_RI)) OR modem_lines m) = modem_lines m"
  "host_lines ((t AND NOT (TIOCM_CD OR TIOCM_DSR OR TIOCM_RI)) OR modem_lines m) = host_lines t"
proof -
  have "(t AND NOT (TIOCM_CD OR TIOCM_DSR OR TIOCM_RI)) AND (TIOCM_CD OR TIOCM_DSR OR TIOCM_RI) = 0"
    by (simp add: tiocm_defs and.assoc)
  then show "dev_lines ((t AND NOT (TIOCM_CD OR TIOCM_DSR OR TIOCM_RI)) OR modem_lines m) = modem_lines m"
    using modem_lines_only(2) [of m] by (simp add: dev_lines_def bit.conj_disj_distrib2)
  have "(t AND NOT (TIOCM_CD OR TIOCM_DSR OR TIOCM_RI)) AND (TIOCM_DTR OR TIOCM_RTS) = t AND (TIOCM_DTR OR TIOCM_RTS)"
    by (simp add: tiocm_defs and.assoc)
  then show "host_lines ((t AND NOT (TIOCM_CD OR TIOCM_DSR OR TIOCM_RI)) OR modem_lines m) = host_lines t"
    using modem_lines_only(1) [of m] by (simp add: host_lines_def bit.conj_disj_distrib2)
qed

text \<open>What the other threads may do while the ioctl waits: the host lines belong to it (the mutex of the channel).\<close>

definition keeps_host :: "nat \<Rightarrow> (dtr_sys \<Rightarrow> dtr_sys) list \<Rightarrow> bool" where
  "keeps_host i es \<longleftrightarrow> (\<forall>e \<in> set es. \<forall>st. length (ds_devs (e st)) = length (ds_devs st) \<and>
     (i < length (ds_devs st) \<longrightarrow> host_lines (dc_tiocm (ds_devs (e st) ! i)) = host_lines (dc_tiocm (ds_devs st ! i))))"

text \<open>The two transfer callbacks of the driver are such changes.\<close>

lemma dtr_callbacks_keep_host: "keeps_host i [mhi_dtr_dl_xfer_cb dma_map n msg res, mhi_dtr_ul_xfer_cb m ures]"
proof -
  have "dc_tiocm (ds_devs (set_lines clear (modem_lines x) k st) ! i) =
      (if k = i then (dc_tiocm (ds_devs st ! i) AND NOT clear) OR modem_lines x else dc_tiocm (ds_devs st ! i))"
    if "i < length (ds_devs st)" for clear x k st
    using that by (auto simp: set_lines_def Let_def nth_list_update)
  moreover have "length (ds_devs (set_lines clear new k st)) = length (ds_devs st)" for clear new k st
    by (simp add: set_lines_def Let_def)
  ultimately show ?thesis
    by (simp add: keeps_host_def mhi_dtr_dl_xfer_cb_def mhi_dtr_ul_xfer_cb_def Let_def dtr_free_def dev_set [simplified] split: option.splits)
qed

lemma dtr_wait_keeps:
  assumes "keeps_host i es" and "i < length (ds_devs st)" and "dtr_wait n es st = (ok, st')"
  shows "i < length (ds_devs st') \<and> host_lines (dc_tiocm (ds_devs st' ! i)) = host_lines (dc_tiocm (ds_devs st ! i))"
proof -
  let ?P = "\<lambda>st. 0 < ch_completion (chan_at (ds_ctl st) n)"
  let ?Q = "\<lambda>s. i < length (ds_devs s) \<and> host_lines (dc_tiocm (ds_devs s ! i)) = host_lines (dc_tiocm (ds_devs st ! i))"
  have "?Q (snd (wait_event_timeout ?P es st))"
    by (rule wait_event_timeout_inv) (use assms(1,2) in \<open>auto simp: keeps_host_def\<close>)
  then show ?thesis using assms(3) by (auto simp: dtr_wait_def Let_def case_prod_beta split: if_splits)
qed

lemma host_lines_cur: "host_lines (t AND NOT (TIOCM_CD OR TIOCM_DSR OR TIOCM_RI)) = host_lines t"
  by (simp add: host_lines_def tiocm_defs and.assoc)

lemma host_lines_idem: "host_lines (host_lines t) = host_lines t"
  by (simp add: host_lines_def and.assoc)

text \<open>
  The ioctl that sets the modem lines: when it succeeds, DTR and RTS are as asked for, whatever the modem reports
  meanwhile; when it fails, with no memory or an unconfirmed message, they are as before.
\<close>

theorem mhi_dtr_tiocmset_result:
  assumes i: "i < length (ds_devs st)" and e: "keeps_host i es"
    and run: "mhi_dtr_tiocmset dma_map alloc es n i v st = (r, m, st')"
  shows "host_lines (dc_tiocm (ds_devs st' ! i)) = host_lines (if r = Inr () then v else dc_tiocm (ds_devs st ! i)) \<and>
    (r = Inr () \<longrightarrow> m = None \<and> st' = st \<or> m = Some (tiocmset_msg (dc_ul_chan_id (ds_devs st ! i)) (host_lines v)))"
proof (cases "dc_tiocm (ds_devs st ! i) AND NOT (TIOCM_CD OR TIOCM_DSR OR TIOCM_RI) = host_lines v")
  case True
  then have "r = Inr ()" "m = None" "st' = st" using run by (simp_all add: mhi_dtr_tiocmset_def Let_def host_lines_def)
  moreover have "host_lines (dc_tiocm (ds_devs st ! i)) = host_lines v"
    using True host_lines_cur [of "dc_tiocm (ds_devs st ! i)"] host_lines_idem [of v] by simp
  ultimately show ?thesis by simp
next
  case False
  show ?thesis
  proof (cases alloc)
    case None
    then show ?thesis using run False by (auto simp: mhi_dtr_tiocmset_def Let_def host_lines_def)
  next
    case (Some a)
    let ?c = "chan_put n ((chan_at (ds_ctl st) n)\<lparr>ch_completion := 0\<rparr>) (ds_ctl st)"
    obtain q c1 where q: "dtr_queue dma_map n a sizeof_dtr_msg ?c = (q, c1)" by fastforce
    let ?st1 = "st\<lparr>ds_ctl := c1, ds_bufs := insert a (ds_bufs st)\<rparr>"
    obtain ok st2 where w: "dtr_wait n es ?st1 = (ok, st2)" by fastforce
    have k: "i < length (ds_devs st2)" "host_lines (dc_tiocm (ds_devs st2 ! i)) = host_lines (dc_tiocm (ds_devs st ! i))"
      using dtr_wait_keeps [OF e _ w] i by simp_all
    have free: "ds_devs (dtr_free a s) = ds_devs s" for s by (simp add: dtr_free_def)
    let ?lines = "v AND (TIOCM_DTR OR TIOCM_RTS)"
    have new: "host_lines (dc_tiocm (ds_devs (set_lines (TIOCM_DTR OR TIOCM_RTS) ?lines i st2) ! i)) = host_lines v"
      using set_lines_nth [OF k(1)] host_set(1) by simp
    show ?thesis using run False Some q w k new free
      by (cases q) (auto simp: mhi_dtr_tiocmset_def Let_def host_lines_def case_prod_beta split: if_splits)
  qed
qed

text \<open>
  A message of the modem: the lines of the host stay as they are on every device; on the device of the named
  channel CD, DSR and RI become those of the message, and no other device changes.
\<close>

theorem mhi_dtr_dl_xfer_cb_lines:
  fixes dma_map :: dma_map_fn and n j :: nat and msg :: dtr_ctrl_msg and res :: mhi_result and st :: dtr_sys
  assumes "\<forall>ch i. ds_owner st ch = Some i \<longrightarrow> i < length (ds_devs st)" and "j < length (ds_devs st)"
  defines "st' \<equiv> mhi_dtr_dl_xfer_cb dma_map n msg res st" and "ch \<equiv> unat (CTRL_GET_CHID msg)"
  shows "host_lines (dc_tiocm (ds_devs st' ! j)) = host_lines (dc_tiocm (ds_devs st ! j)) \<and>
    dev_lines (dc_tiocm (ds_devs st' ! j)) =
      (if res_transaction_status res \<noteq> Some ENOTCONN \<and> ucast (res_bytes_xferd res) = sizeof_dtr_msg \<and>
          ch < length (mhi_chans (ds_ctl st)) \<and> ds_owner st ch = Some j
       then modem_lines (dm_msg msg) else dev_lines (dc_tiocm (ds_devs st ! j)))"
proof (cases "res_transaction_status res \<noteq> Some ENOTCONN \<and> ucast (res_bytes_xferd res) = sizeof_dtr_msg \<and>
    ch < length (mhi_chans (ds_ctl st)) \<and> ds_owner st ch \<noteq> None")
  case True
  then obtain i where i: "ds_owner st ch = Some i" by auto
  then have il: "i < length (ds_devs st)" using assms(1) by blast
  have "dc_tiocm (ds_devs st' ! j) = dc_tiocm (ds_devs (set_lines (TIOCM_CD OR TIOCM_DSR OR TIOCM_RI) (modem_lines (dm_msg msg)) i st) ! j)"
    using True i by (auto simp: st'_def mhi_dtr_dl_xfer_cb_def ch_def Let_def not_le)
  then show ?thesis using set_lines_nth [OF il] True i dev_set by auto
next
  case False
  then have "ds_devs st' = ds_devs st"
    by (auto simp: st'_def mhi_dtr_dl_xfer_cb_def ch_def Let_def dtr_free_def not_le split: option.splits)
  then show ?thesis using False by auto
qed

text \<open>Queueing the message on a channel with room: it is in the local ring, and the completion is still to come.\<close>

lemma dtr_queue_ok:
  assumes f: "chan_sync (chan_at c n)" "n < length (mhi_chans c)"
    and r: "\<not> mhi_is_ring_full (tre_ring (chan_at c n))" "\<not> MHI_PM_IN_ERROR_STATE (pm_state c)"
      "\<forall>a len dir. \<not> snd (dma_map a len dir)"
  obtains c' where "dtr_queue dma_map n a len (chan_put n ((chan_at c n)\<lparr>ch_completion := 0\<rparr>) c) = (Inr (), c')"
    and "ch_completion (chan_at c' n) = 0" and "length (mhi_chans c') = length (mhi_chans c)"
    and "\<exists>bi \<in> set (ring_list (buf_ring (chan_at c' n))). cb_buf bi = a"
proof -
  let ?ch = "(chan_at c n)\<lparr>ch_completion := 0\<rparr>"
  let ?c = "chan_put n ?ch c"
  obtain q ch c1 where q: "mhi_queue_buf dma_map a len MHI_EOT ?ch ?c = (q, ch, c1)" by (metis prod_cases3)
  have s: "chan_sync ?ch" using f(1) by (simp add: chan_sync_def)
  note o = mhi_queue_buf_spec [OF s q]
  have ok: "q = Inr ()" using o r by simp
  have l: "\<exists>bi \<in> set (ring_list (buf_ring ch)). cb_buf bi = a" using o ok by (auto simp: queue_outcome_def)
  have k: "mhi_chans c1 = mhi_chans ?c" "ch_completion ch = 0" using mhi_queue_buf_keeps [OF q] by simp_all
  have at: "chan_at ?c n = ?ch" using f(2) by simp
  have an: "chan_at (chan_put n ch c1) n = ch" using f(2) k(1) by (intro chan_at_put) simp
  show thesis
    using q ok at k l an by (intro that [of "chan_put n ch c1"]) (simp_all add: dtr_queue_def)
qed

text \<open>
  The message is sent and its transfer confirmed: the ioctl succeeds with the requested lines, and the message is
  freed.
\<close>

theorem tiocmset_confirmed:
  assumes f: "chan_sync (chan_at (ds_ctl st) n)" "n < length (mhi_chans (ds_ctl st))"
    and r: "\<not> mhi_is_ring_full (tre_ring (chan_at (ds_ctl st) n))" "\<not> MHI_PM_IN_ERROR_STATE (pm_state (ds_ctl st))"
      "\<forall>a len dir. \<not> snd (dma_map a len dir)"
    and d: "dc_tiocm (ds_devs st ! i) AND NOT (TIOCM_CD OR TIOCM_DSR OR TIOCM_RI) \<noteq> v AND (TIOCM_DTR OR TIOCM_RTS)"
    and i: "i < length (ds_devs st)" and t: "res_transaction_status res = None"
  shows "\<exists>m st'. mhi_dtr_tiocmset dma_map (Some a) [mhi_dtr_ul_xfer_cb n res] n i v st = (Inr (), m, st') \<and> a \<notin> ds_bufs st' \<and>
    host_lines (dc_tiocm (ds_devs st' ! i)) = host_lines v \<and> dev_lines (dc_tiocm (ds_devs st' ! i)) = dev_lines (dc_tiocm (ds_devs st ! i))"
proof -
  obtain c' where q: "dtr_queue dma_map n a sizeof_dtr_msg (chan_put n ((chan_at (ds_ctl st) n)\<lparr>ch_completion := 0\<rparr>) (ds_ctl st)) = (Inr (), c')"
    and k: "ch_completion (chan_at c' n) = 0" "length (mhi_chans c') = length (mhi_chans (ds_ctl st))"
    using dtr_queue_ok [OF f r] by blast
  let ?st1 = "st\<lparr>ds_ctl := c', ds_bufs := insert a (ds_bufs st)\<rparr>"
  obtain st2 where w: "dtr_wait n [mhi_dtr_ul_xfer_cb n res] ?st1 = (True, st2)" "ds_devs st2 = ds_devs st"
    using k t f(2) by (simp add: dtr_wait_def mhi_dtr_ul_xfer_cb_def Let_def wait_event_timeout_def COMPLETE_ALL_def)
  show ?thesis using d q w i set_lines_nth [of i st2] host_set
    by (simp add: mhi_dtr_tiocmset_def Let_def dtr_free_def)
qed

text \<open>
  (C34) When the message is not confirmed in time, the ioctl frees it although it is still in the transfer ring: the
  device reads memory that was given back.
\<close>

theorem tiocmset_frees_queued:
  assumes f: "chan_sync (chan_at (ds_ctl st) n)" "n < length (mhi_chans (ds_ctl st))"
    and r: "\<not> mhi_is_ring_full (tre_ring (chan_at (ds_ctl st) n))" "\<not> MHI_PM_IN_ERROR_STATE (pm_state (ds_ctl st))"
      "\<forall>a len dir. \<not> snd (dma_map a len dir)"
    and d: "dc_tiocm (ds_devs st ! i) AND NOT (TIOCM_CD OR TIOCM_DSR OR TIOCM_RI) \<noteq> v AND (TIOCM_DTR OR TIOCM_RTS)"
  shows "\<exists>m st'. mhi_dtr_tiocmset dma_map (Some a) [] n i v st = (Inl EIO, m, st') \<and> a \<notin> ds_bufs st' \<and>
    (\<exists>bi \<in> set (ring_list (buf_ring (chan_at (ds_ctl st') n))). cb_buf bi = a)"
proof -
  obtain c' where q: "dtr_queue dma_map n a sizeof_dtr_msg (chan_put n ((chan_at (ds_ctl st) n)\<lparr>ch_completion := 0\<rparr>) (ds_ctl st)) = (Inr (), c')"
    and k: "ch_completion (chan_at c' n) = 0" "\<exists>bi \<in> set (ring_list (buf_ring (chan_at c' n))). cb_buf bi = a"
    using dtr_queue_ok [OF f r] by blast
  have w: "dtr_wait n [] (st\<lparr>ds_ctl := c', ds_bufs := b\<rparr>) = (False, st\<lparr>ds_ctl := c', ds_bufs := b\<rparr>)" for b
    using k(1) by (simp add: dtr_wait_def)
  show ?thesis using d q w k(2) by (auto simp: mhi_dtr_tiocmset_def Let_def dtr_free_def)
qed

end
