(* ===== verification/MHI_Boot.thy ===== *)
theory MHI_Boot
  imports MHI_PM
begin

text \<open>
  Firmware loading and memory dumps (\<^verbatim>\<open>core/mhi_boot.c\<close>): the boot host interface (BHI) loads the first image, the
  extended one (BHIe) loads the full image from a table of segments and fetches the memory dump of a crashed device
  into such a table.

  The lemmas show that the table holds the image: what the device reads through the vectors is the firmware, in
  order and complete. They account for the memory of every path of the loader, and state what the status registers
  mean for the results, including the paths where the code goes wrong.

  \<open>bt_dma\<close> is the coherent memory by bus address, \<open>None\<close> where nothing is allocated; \<open>bt_kmem\<close> counts the other
  allocations (table, array of segments, firmware file) that are held. Which allocations succeed, what the firmware
  file contains and the random numbers are arguments, and each sleep takes the list of what happens meanwhile. \<open>None\<close> as
  the result of an operation is a read of a variable that was never assigned or an access outside an array.
\<close>

subsection \<open>Registers (mhi\_internal.h)\<close>

definition BHI_BHIVERSION_MINOR :: u32 where [mhi_consts]: "BHI_BHIVERSION_MINOR = 0x00"
definition BHI_BHIVERSION_MAJOR :: u32 where [mhi_consts]: "BHI_BHIVERSION_MAJOR = 0x04"
definition BHI_IMGADDR_LOW :: u32 where [mhi_consts]: "BHI_IMGADDR_LOW = 0x08"
definition BHI_IMGADDR_HIGH :: u32 where [mhi_consts]: "BHI_IMGADDR_HIGH = 0x0C"
definition BHI_IMGSIZE :: u32 where [mhi_consts]: "BHI_IMGSIZE = 0x10"
definition BHI_RSVD1 :: u32 where [mhi_consts]: "BHI_RSVD1 = 0x14"
definition BHI_IMGTXDB :: u32 where [mhi_consts]: "BHI_IMGTXDB = 0x18"
definition BHI_RSVD2 :: u32 where [mhi_consts]: "BHI_RSVD2 = 0x1C"
definition BHI_RSVD3 :: u32 where [mhi_consts]: "BHI_RSVD3 = 0x24"
definition BHI_STATUS :: u32 where [mhi_consts]: "BHI_STATUS = 0x2C"
definition BHI_ERRCODE :: u32 where [mhi_consts]: "BHI_ERRCODE = 0x30"
definition BHI_ERRDBG1 :: u32 where [mhi_consts]: "BHI_ERRDBG1 = 0x34"
definition BHI_ERRDBG2 :: u32 where [mhi_consts]: "BHI_ERRDBG2 = 0x38"
definition BHI_ERRDBG3 :: u32 where [mhi_consts]: "BHI_ERRDBG3 = 0x3C"
definition BHI_SERIALNU :: u32 where [mhi_consts]: "BHI_SERIALNU = 0x40"
definition BHI_SBLANTIROLLVER :: u32 where [mhi_consts]: "BHI_SBLANTIROLLVER = 0x44"
definition BHI_NUMSEG :: u32 where [mhi_consts]: "BHI_NUMSEG = 0x48"
definition BHI_MSMHWID :: "u32 \<Rightarrow> u32" where [mhi_consts]: "BHI_MSMHWID n = 0x4C + 0x4 * n"
definition BHI_OEMPKHASH :: "u32 \<Rightarrow> u32" where [mhi_consts]: "BHI_OEMPKHASH n = 0x64 + 0x4 * n"
definition BHI_RSVD5 :: u32 where [mhi_consts]: "BHI_RSVD5 = 0xC4"
definition BHI_STATUS_MASK :: u32 where [mhi_consts]: "BHI_STATUS_MASK = 0xC0000000"
definition BHI_STATUS_SHIFT :: nat where [mhi_consts]: "BHI_STATUS_SHIFT = 30"
definition BHI_STATUS_ERROR :: u32 where [mhi_consts]: "BHI_STATUS_ERROR = 3"
definition BHI_STATUS_SUCCESS :: u32 where [mhi_consts]: "BHI_STATUS_SUCCESS = 2"
definition BHIE_TXVECADDR_LOW_OFFS :: u32 where [mhi_consts]: "BHIE_TXVECADDR_LOW_OFFS = 0x2C"
definition BHIE_TXVECADDR_HIGH_OFFS :: u32 where [mhi_consts]: "BHIE_TXVECADDR_HIGH_OFFS = 0x30"
definition BHIE_TXVECSIZE_OFFS :: u32 where [mhi_consts]: "BHIE_TXVECSIZE_OFFS = 0x34"
definition BHIE_TXVECDB_OFFS :: u32 where [mhi_consts]: "BHIE_TXVECDB_OFFS = 0x3C"
definition BHIE_TXVECDB_SEQNUM_BMSK :: u32 where [mhi_consts]: "BHIE_TXVECDB_SEQNUM_BMSK = 0x3FFFFFFF"
definition BHIE_TXVECDB_SEQNUM_SHFT :: nat where [mhi_consts]: "BHIE_TXVECDB_SEQNUM_SHFT = 0"
definition BHIE_TXVECSTATUS_OFFS :: u32 where [mhi_consts]: "BHIE_TXVECSTATUS_OFFS = 0x44"
definition BHIE_TXVECSTATUS_SEQNUM_BMSK :: u32 where [mhi_consts]: "BHIE_TXVECSTATUS_SEQNUM_BMSK = 0x3FFFFFFF"
definition BHIE_TXVECSTATUS_STATUS_BMSK :: u32 where [mhi_consts]: "BHIE_TXVECSTATUS_STATUS_BMSK = 0xC0000000"
definition BHIE_TXVECSTATUS_STATUS_SHFT :: nat where [mhi_consts]: "BHIE_TXVECSTATUS_STATUS_SHFT = 30"
definition BHIE_TXVECSTATUS_STATUS_XFER_COMPL :: u32 where [mhi_consts]: "BHIE_TXVECSTATUS_STATUS_XFER_COMPL = 2"
definition BHIE_RXVECADDR_LOW_OFFS :: u32 where [mhi_consts]: "BHIE_RXVECADDR_LOW_OFFS = 0x60"
definition BHIE_RXVECADDR_HIGH_OFFS :: u32 where [mhi_consts]: "BHIE_RXVECADDR_HIGH_OFFS = 0x64"
definition BHIE_RXVECSIZE_OFFS :: u32 where [mhi_consts]: "BHIE_RXVECSIZE_OFFS = 0x68"
definition BHIE_RXVECDB_OFFS :: u32 where [mhi_consts]: "BHIE_RXVECDB_OFFS = 0x70"
definition BHIE_RXVECDB_SEQNUM_BMSK :: u32 where [mhi_consts]: "BHIE_RXVECDB_SEQNUM_BMSK = 0x3FFFFFFF"
definition BHIE_RXVECDB_SEQNUM_SHFT :: nat where [mhi_consts]: "BHIE_RXVECDB_SEQNUM_SHFT = 0"
definition BHIE_RXVECSTATUS_OFFS :: u32 where [mhi_consts]: "BHIE_RXVECSTATUS_OFFS = 0x78"
definition BHIE_RXVECSTATUS_SEQNUM_BMSK :: u32 where [mhi_consts]: "BHIE_RXVECSTATUS_SEQNUM_BMSK = 0x3FFFFFFF"
definition BHIE_RXVECSTATUS_STATUS_BMSK :: u32 where [mhi_consts]: "BHIE_RXVECSTATUS_STATUS_BMSK = 0xC0000000"
definition BHIE_RXVECSTATUS_STATUS_SHFT :: nat where [mhi_consts]: "BHIE_RXVECSTATUS_STATUS_SHFT = 30"
definition BHIE_RXVECSTATUS_STATUS_XFER_COMPL :: u32 where [mhi_consts]: "BHIE_RXVECSTATUS_STATUS_XFER_COMPL = 2"
definition MHI_SOC_RESET_REQ_OFFSET :: u32 where [mhi_consts]: "MHI_SOC_RESET_REQ_OFFSET = 0xB0"
definition MHI_SOC_RESET_REQ :: u32 where [mhi_consts]: "MHI_SOC_RESET_REQ = 1"

subsection \<open>State\<close>

record mhi_buf =
  mb_buf :: u64
  mb_dma_addr :: u64
  mb_len :: u64

record bhi_vec_entry =
  ve_dma_addr :: u64
  ve_size :: u64

text \<open>\<open>ii_bhi_vec\<close> is what the last buffer holds: the vector table, with as many entries as the buffer has room for.\<close>

record image_info =
  ii_mhi_buf :: "mhi_buf list"
  ii_bhi_vec :: "bhi_vec_entry list"
  ii_entries :: u32

record boot_sys =
  bt_ctl :: mhi_controller
  bt_dma :: "u64 \<rightharpoonup> u8 list"
  bt_kmem :: nat
  bt_fbc_image :: "image_info option"
  bt_rddm_image :: "image_info option"
  bt_sequence_id :: u32
  bt_fbc_download :: bool
  bt_sbl_size :: u64
  bt_seg_len :: u64
  bt_timeout_ms :: u32
  bt_fw_image :: "string option"
  bt_edl_image :: "string option"

definition dma_alloc :: "u64 \<Rightarrow> u8 list \<Rightarrow> boot_sys \<Rightarrow> boot_sys" where
  "dma_alloc d bytes st = st\<lparr>bt_dma := (bt_dma st)(d \<mapsto> bytes)\<rparr>"

definition mhi_free_coherent :: "u64 \<Rightarrow> boot_sys \<Rightarrow> boot_sys" where
  "mhi_free_coherent d st = st\<lparr>bt_dma := (bt_dma st)(d := None)\<rparr>"

definition kmem_add :: "nat \<Rightarrow> boot_sys \<Rightarrow> boot_sys" where "kmem_add n st = st\<lparr>bt_kmem := bt_kmem st + n\<rparr>"
definition kmem_sub :: "nat \<Rightarrow> boot_sys \<Rightarrow> boot_sys" where "kmem_sub n st = st\<lparr>bt_kmem := bt_kmem st - n\<rparr>"

subsection \<open>Reading the device information\<close>

record BHI_INFO_TYPE =
  bhi_ver_minor :: u32
  bhi_ver_major :: u32
  bhi_image_address_low :: u32
  bhi_image_address_high :: u32
  bhi_image_size :: u32
  bhi_rsvd1 :: u32
  bhi_imgtxdb :: u32
  bhi_rsvd2 :: u32
  bhi_msivec :: u32
  bhi_rsvd3 :: u32
  bhi_ee :: u32
  bhi_status :: u32
  bhi_errorcode :: u32
  bhi_errdbg1 :: u32
  bhi_errdbg2 :: u32
  bhi_errdbg3 :: u32
  bhi_sernum :: u32
  bhi_sblantirollbackver :: u32
  bhi_numsegs :: u32
  bhi_msmhwid :: "u32 list"
  bhi_oempkhash :: "u32 list"
  bhi_rsvd5 :: u32

text \<open>\<^verbatim>\<open>bhi_read_reg\<close> reads the execution environment whatever the offset.\<close>

definition bhi_read_reg :: "mhi_controller \<Rightarrow> u32 \<Rightarrow> u32" where
  "bhi_read_reg c off = (case mhi_read_reg c (bhi c) BHI_EXECENV of Inl _ \<Rightarrow> 0 | Inr out \<Rightarrow> out)"

definition BhiRead :: "mhi_controller \<Rightarrow> BHI_INFO_TYPE" where
  "BhiRead c =
     \<lparr>bhi_ver_minor = bhi_read_reg c BHI_BHIVERSION_MINOR,
      bhi_ver_major = bhi_read_reg c BHI_BHIVERSION_MINOR,
      bhi_image_address_low = bhi_read_reg c BHI_IMGADDR_LOW,
      bhi_image_address_high = bhi_read_reg c BHI_IMGADDR_HIGH,
      bhi_image_size = bhi_read_reg c BHI_IMGSIZE,
      bhi_rsvd1 = bhi_read_reg c BHI_RSVD1,
      bhi_imgtxdb = bhi_read_reg c BHI_IMGTXDB,
      bhi_rsvd2 = bhi_read_reg c BHI_RSVD2,
      bhi_msivec = bhi_read_reg c BHI_INTVEC,
      bhi_rsvd3 = bhi_read_reg c BHI_RSVD3,
      bhi_ee = bhi_read_reg c BHI_EXECENV,
      bhi_status = bhi_read_reg c BHI_STATUS,
      bhi_errorcode = bhi_read_reg c BHI_ERRCODE,
      bhi_errdbg1 = bhi_read_reg c BHI_ERRDBG1,
      bhi_errdbg2 = bhi_read_reg c BHI_ERRDBG2,
      bhi_errdbg3 = bhi_read_reg c BHI_ERRDBG3,
      bhi_sernum = bhi_read_reg c BHI_SERIALNU,
      bhi_sblantirollbackver = bhi_read_reg c BHI_SBLANTIROLLVER,
      bhi_numsegs = bhi_read_reg c BHI_NUMSEG,
      bhi_msmhwid = map (\<lambda>i. bhi_read_reg c (BHI_MSMHWID (of_nat i))) [0..<6],
      bhi_oempkhash = map (\<lambda>i. bhi_read_reg c (BHI_OEMPKHASH (of_nat i))) [0..<48],
      bhi_rsvd5 = bhi_read_reg c BHI_RSVD5\<rparr>"

text \<open>\<open>left\<close>: the bytes \<^verbatim>\<open>copy_to_user\<close> could not copy.\<close>

definition bhi_get_dev_info :: "nat \<Rightarrow> mhi_controller \<Rightarrow> nat \<times> BHI_INFO_TYPE" where
  "bhi_get_dev_info left c = (left, BhiRead c)"

subsection \<open>The table of segments\<close>

record table_alloc =
  ta_info :: bool
  ta_array :: bool
  ta_segment :: "nat \<Rightarrow> (u64 \<times> u64) option"

definition sizeof_bhi_vec_entry :: u64 where "sizeof_bhi_vec_entry = 16"

definition table_segments :: "u64 \<Rightarrow> u64 \<Rightarrow> int" where
  "table_segments alloc_size seg_size = sint (ucast ((alloc_size + seg_size - 1) div seg_size + 1) :: 32 word)"

definition segment_size :: "u64 \<Rightarrow> nat \<Rightarrow> nat \<Rightarrow> u64" where
  "segment_size seg_size segments i =
     (if i = segments - 1 then sizeof_bhi_vec_entry * of_nat i else seg_size)"

fun alloc_segments ::
  "(nat \<Rightarrow> (u64 \<times> u64) option) \<Rightarrow> u64 \<Rightarrow> nat \<Rightarrow> nat list \<Rightarrow> mhi_buf list \<Rightarrow> boot_sys \<Rightarrow> bool \<times> mhi_buf list \<times> boot_sys" where
  "alloc_segments al seg_size segments [] bufs st = (True, bufs, st)"
| "alloc_segments al seg_size segments (i # is) bufs st =
     (let vec_size = segment_size seg_size segments i
      in case al i of
           None \<Rightarrow> (False, bufs, st)
         | Some (b, d) \<Rightarrow>
             alloc_segments al seg_size segments is (bufs @ [\<lparr>mb_buf = b, mb_dma_addr = d, mb_len = vec_size\<rparr>])
               (dma_alloc d (replicate (unat vec_size) 0) st))"

definition free_bufs :: "mhi_buf list \<Rightarrow> boot_sys \<Rightarrow> boot_sys" where
  "free_bufs bufs st = fold (\<lambda>b. mhi_free_coherent (mb_dma_addr b)) bufs st"

definition mhi_free_bhie_table :: "image_info \<Rightarrow> boot_sys \<Rightarrow> boot_sys" where
  "mhi_free_bhie_table img st = kmem_sub 2 (free_bufs (take (unat (ii_entries img)) (ii_mhi_buf img)) st)"

definition mhi_alloc_bhie_table :: "table_alloc \<Rightarrow> u64 \<Rightarrow> boot_sys \<Rightarrow> (image_info res \<times> boot_sys) option" where
  "mhi_alloc_bhie_table al alloc_size st =
     (let seg_size = bt_seg_len st; segs = table_segments alloc_size seg_size; n = nat segs
      in if seg_size = 0 then None
         else if \<not> ta_info al then Some (Inl ENOMEM, st)
         else if \<not> ta_array al then Some (Inl ENOMEM, st)
         else (case alloc_segments (ta_segment al) seg_size n [0..<n] [] (kmem_add 2 st) of
                 (False, bufs, st1) \<Rightarrow> Some (Inl ENOMEM, kmem_sub 1 (free_bufs (rev bufs) st1))
               | (True, bufs, st1) \<Rightarrow>
                   if segs \<le> 0 then None
                   else Some (Inr \<lparr>ii_mhi_buf = bufs, ii_bhi_vec = replicate (n - 1) \<lparr>ve_dma_addr = 0, ve_size = 0\<rparr>,
                                ii_entries = of_nat n\<rparr>, st1)))"

text \<open>\<open>buf\<close> is the rest of the firmware file, \<open>i\<close> the segment to be filled.\<close>

function firmware_copy_loop ::
  "mhi_buf list \<Rightarrow> nat \<Rightarrow> u8 list \<Rightarrow> bhi_vec_entry list \<Rightarrow> boot_sys \<Rightarrow> (bhi_vec_entry list \<times> boot_sys) option" where
  "firmware_copy_loop bufs i buf vec st =
     (if buf = [] then Some (vec, st)
      else if length bufs \<le> i \<or> length vec \<le> i then None
      else (let b = bufs ! i; to_cpy = min (length buf) (unat (mb_len b))
            in case bt_dma st (mb_dma_addr b) of
                 None \<Rightarrow> None
               | Some old \<Rightarrow>
                   firmware_copy_loop bufs (Suc i) (drop to_cpy buf)
                     (vec[i := \<lparr>ve_dma_addr = mb_dma_addr b, ve_size = of_nat to_cpy\<rparr>])
                     (dma_alloc (mb_dma_addr b) (take to_cpy buf @ drop to_cpy old) st)))"
  by pat_completeness auto
termination by (relation "measure (\<lambda>(bufs, i, _). length bufs - i)") auto

definition mhi_firmware_copy :: "u8 list \<Rightarrow> image_info \<Rightarrow> boot_sys \<Rightarrow> (image_info \<times> boot_sys) option" where
  "mhi_firmware_copy firmware img st =
     (case firmware_copy_loop (ii_mhi_buf img) 0 firmware (ii_bhi_vec img) st of
        None \<Rightarrow> None | Some (vec, st') \<Rightarrow> Some (img\<lparr>ii_bhi_vec := vec\<rparr>, st'))"

text \<open>The vectors of a memory dump: each segment with its full length.\<close>

fun rddm_prepare_loop :: "mhi_buf list \<Rightarrow> nat list \<Rightarrow> bhi_vec_entry list \<Rightarrow> bhi_vec_entry list option" where
  "rddm_prepare_loop bufs [] vec = Some vec"
| "rddm_prepare_loop bufs (i # is) vec =
     (if length bufs \<le> i \<or> length vec \<le> i then None
      else rddm_prepare_loop bufs is (vec[i := \<lparr>ve_dma_addr = mb_dma_addr (bufs ! i), ve_size = mb_len (bufs ! i)\<rparr>]))"

definition mhi_rddm_prepare :: "image_info \<Rightarrow> image_info option" where
  "mhi_rddm_prepare img =
     (case rddm_prepare_loop (ii_mhi_buf img) [0..<unat (ii_entries img - 1)] (ii_bhi_vec img) of
        None \<Rightarrow> None | Some vec \<Rightarrow> Some (img\<lparr>ii_bhi_vec := vec\<rparr>))"

subsection \<open>Transfers to and from the device\<close>

text \<open>
  The condition of the waits for a transfer: the local variable is \<open>None\<close> until the status register has been read. A
  failed read ends the wait without an assignment.
\<close>

definition status_cond :: "(mhi_controller \<Rightarrow> u64) \<Rightarrow> u32 \<Rightarrow> u32 \<Rightarrow> nat \<Rightarrow> u32 option \<Rightarrow> mhi_controller \<Rightarrow> bool \<times> u32 option" where
  "status_cond base off msk shift l c =
     (if MHI_PM_IN_ERROR_STATE (pm_state c) then (True, l)
      else case mhi_read_reg_field c (base c) off msk shift of
             Inl _ \<Rightarrow> (True, l)
           | Inr v \<Rightarrow> (v \<noteq> 0, Some v))"

definition program_vec :: "u32 \<Rightarrow> u32 \<Rightarrow> u32 \<Rightarrow> u32 \<Rightarrow> u32 \<Rightarrow> nat \<Rightarrow> mhi_buf \<Rightarrow> u32 \<Rightarrow> mhi_controller \<Rightarrow> mhi_controller" where
  "program_vec high low vsize db msk shift b seq c =
     mhi_write_reg_field (bhie c) db msk shift seq
       (mhi_write_reg (bhie c) vsize (ucast (mb_len b))
         (mhi_write_reg (bhie c) low (lower_32_bits (mb_dma_addr b))
           (mhi_write_reg (bhie c) high (upper_32_bits (mb_dma_addr b)) c)))"

definition mhi_fw_load_amss :: "u32 \<Rightarrow> env \<Rightarrow> mhi_buf \<Rightarrow> boot_sys \<Rightarrow> (unit res \<times> boot_sys) option" where
  "mhi_fw_load_amss rnd es b st =
     (let c = bt_ctl st
      in if \<not> MHI_REG_ACCESS_VALID (pm_state c) then Some (Inl EIO, st)
         else (let seq = rnd AND BHIE_TXVECSTATUS_SEQNUM_BMSK;
                   c1 = program_vec BHIE_TXVECADDR_HIGH_OFFS BHIE_TXVECADDR_LOW_OFFS BHIE_TXVECSIZE_OFFS BHIE_TXVECDB_OFFS
                          BHIE_TXVECDB_SEQNUM_BMSK BHIE_TXVECDB_SEQNUM_SHFT b seq c;
                   (_, tx_status, c2) = wait_event (status_cond bhie BHIE_TXVECSTATUS_OFFS BHIE_TXVECSTATUS_STATUS_BMSK
                                          BHIE_TXVECSTATUS_STATUS_SHFT) es None c1;
                   st2 = st\<lparr>bt_ctl := c2, bt_sequence_id := seq\<rparr>
               in if MHI_PM_IN_ERROR_STATE (pm_state c2) then Some (Inl EIO, st2)
                  else case tx_status of
                         None \<Rightarrow> None
                       | Some s \<Rightarrow> Some (if s = BHIE_TXVECSTATUS_STATUS_XFER_COMPL then Inr () else Inl EIO, st2)))"

text \<open>The error registers that are read after a failed transfer are only logged.\<close>

definition mhi_fw_load_sbl :: "env \<Rightarrow> u64 \<Rightarrow> u64 \<Rightarrow> mhi_controller \<Rightarrow> (unit res \<times> mhi_controller) option" where
  "mhi_fw_load_sbl es dma_addr sz c =
     (if \<not> MHI_REG_ACCESS_VALID (pm_state c) then Some (Inl EIO, c)
      else (let base = bhi c;
                c1 = mhi_write_reg base BHI_STATUS 0 c;
                c2 = mhi_write_reg base BHI_IMGADDR_HIGH (upper_32_bits dma_addr) c1;
                c3 = mhi_write_reg base BHI_IMGADDR_LOW (lower_32_bits dma_addr) c2;
                c4 = mhi_write_reg base BHI_IMGSIZE (ucast sz) c3;
                c5 = mhi_write_reg_field (regs c4) MHICFG MHICFG_NER_MASK MHICFG_NER_SHIFT NUM_MHI_EVT_RINGS c4;
                c6 = mhi_write_reg_field (regs c5) MHICFG MHICFG_NHWER_MASK MHICFG_NHWER_SHIFT NUM_MHI_HW_EVT_RINGS c5;
                c7 = mhi_write_reg base BHI_INTVEC (msi_irq_base c6) c6;
                c8 = mhi_write_reg base BHI_IMGTXDB 1 c7;
                (_, tx_status, c9) = wait_event (status_cond bhi BHI_STATUS BHI_STATUS_MASK BHI_STATUS_SHIFT) es None c8
            in if MHI_PM_IN_ERROR_STATE (pm_state c9) then Some (Inl EIO, c9)
               else case tx_status of
                      None \<Rightarrow> None
                    | Some s \<Rightarrow> Some (if s = BHI_STATUS_ERROR then Inl EIO
                                      else if s = BHI_STATUS_SUCCESS then Inr () else Inl ETIMEDOUT, c9)))"

text \<open>
  The memory dump in a panic: the processor spins. \<open>delay\<close> is what the device does to the registers during one
  \<^verbatim>\<open>udelay\<close>; \<open>rddm_wait\<close> gives the counter after the loop that waits for the dump mode.
\<close>

fun rddm_wait :: "(mhi_controller \<Rightarrow> mhi_controller) \<Rightarrow> nat \<Rightarrow> mhi_controller \<Rightarrow> int \<times> mhi_controller" where
  "rddm_wait delay 0 c = (-1, c)"
| "rddm_wait delay (Suc k) c =
     (if mhi_get_exec_env c = MHI_EE_RDDM then (int k, c) else rddm_wait delay k (delay c))"

fun rddm_status_poll :: "(mhi_controller \<Rightarrow> mhi_controller) \<Rightarrow> nat \<Rightarrow> mhi_controller \<Rightarrow> unit res \<times> mhi_controller" where
  "rddm_status_poll delay 0 c = (Inl EIO, c)"
| "rddm_status_poll delay (Suc k) c =
     (case mhi_read_reg_field c (bhie c) BHIE_RXVECSTATUS_OFFS BHIE_RXVECSTATUS_STATUS_BMSK BHIE_RXVECSTATUS_STATUS_SHFT of
        Inl _ \<Rightarrow> (Inl EIO, c)
      | Inr rx_status \<Rightarrow>
          if rx_status = BHIE_RXVECSTATUS_STATUS_XFER_COMPL then (Inr (), c)
          else rddm_status_poll delay k (delay c))"

definition mhi_download_rddm_in_panic ::
  "u32 \<Rightarrow> (mhi_controller \<Rightarrow> mhi_controller) \<Rightarrow> boot_sys \<Rightarrow> (unit res \<times> boot_sys) option" where
  "mhi_download_rddm_in_panic rnd delay st =
     (case bt_rddm_image st of
        None \<Rightarrow> None
      | Some img \<Rightarrow>
          (case mhi_rddm_prepare img of
             None \<Rightarrow> None
           | Some img' \<Rightarrow>
               if length (ii_mhi_buf img') \<le> unat (ii_entries img' - 1) then None
               else (let retry = (bt_timeout_ms st * 1000) div 2000;
                         c0 = (bt_ctl st)\<lparr>pm_state := MHI_PM_LD_ERR_FATAL_DETECT\<rparr>;
                         b = ii_mhi_buf img' ! unat (ii_entries img' - 1);
                         seq = rnd AND BHIE_RXVECSTATUS_SEQNUM_BMSK;
                         c1 = program_vec BHIE_RXVECADDR_HIGH_OFFS BHIE_RXVECADDR_LOW_OFFS BHIE_RXVECSIZE_OFFS BHIE_RXVECDB_OFFS
                                BHIE_RXVECDB_SEQNUM_BMSK BHIE_RXVECDB_SEQNUM_SHFT b (if seq = 0 then 1 else seq) c0;
                         (left, c2) = rddm_wait delay 100 (mhi_set_mhi_state MHI_STATE_SYS_ERR c1);
                         c3 = if left \<le> 0 then delay (mhi_write_reg (regs c2) MHI_SOC_RESET_REQ_OFFSET MHI_SOC_RESET_REQ c2) else c2;
                         (r, c4) = rddm_status_poll delay (unat retry) c3
                     in Some (r, st\<lparr>bt_ctl := c4, bt_rddm_image := Some img'\<rparr>))))"

definition mhi_download_rddm_img ::
  "u32 \<Rightarrow> (mhi_controller \<Rightarrow> mhi_controller) \<Rightarrow> env \<Rightarrow> env \<Rightarrow> bool \<Rightarrow> boot_sys \<Rightarrow> (unit res \<times> boot_sys) option" where
  "mhi_download_rddm_img rnd delay es es' in_panic st =
     (case bt_rddm_image st of
        None \<Rightarrow> Some (Inl ENOMEM, st)
      | Some img \<Rightarrow>
          if in_panic then mhi_download_rddm_in_panic rnd delay st
          else (let (ret, c1) = wait_event_timeout (\<lambda>c. ee c = MHI_EE_RDDM \<or> MHI_PM_IN_ERROR_STATE (pm_state c)) es (bt_ctl st);
                    st1 = st\<lparr>bt_ctl := c1\<rparr>
                in if \<not> ret \<or> MHI_PM_IN_ERROR_STATE (pm_state c1) then Some (Inl EIO, st1)
                   else (case mhi_rddm_prepare img of
                           None \<Rightarrow> None
                         | Some img' \<Rightarrow>
                             (let st2 = st1\<lparr>bt_rddm_image := Some img'\<rparr>
                              in if length (ii_mhi_buf img') \<le> unat (ii_entries img' - 1) then None
                                 else if \<not> MHI_REG_ACCESS_VALID (pm_state c1) then Some (Inl EIO, st2)
                                 else (let b = ii_mhi_buf img' ! unat (ii_entries img' - 1);
                                           c2 = program_vec BHIE_RXVECADDR_HIGH_OFFS BHIE_RXVECADDR_LOW_OFFS BHIE_RXVECSIZE_OFFS
                                                  BHIE_RXVECDB_OFFS BHIE_RXVECDB_SEQNUM_BMSK BHIE_RXVECDB_SEQNUM_SHFT b
                                                  (rnd AND BHIE_RXVECSTATUS_SEQNUM_BMSK) c1;
                                           (_, rx_status, c3) = wait_event (status_cond bhie BHIE_RXVECSTATUS_OFFS
                                              BHIE_RXVECSTATUS_STATUS_BMSK BHIE_RXVECSTATUS_STATUS_SHFT) es' None c2;
                                           st3 = st2\<lparr>bt_ctl := c3\<rparr>
                                       in if MHI_PM_IN_ERROR_STATE (pm_state c3) then Some (Inl EIO, st3)
                                          else case rx_status of
                                                 None \<Rightarrow> None
                                               | Some s \<Rightarrow> Some (if s = BHIE_RXVECSTATUS_STATUS_XFER_COMPL then Inr () else Inl EIO, st3))))))"

subsection \<open>The firmware worker\<close>

record fw_env =
  fe_pbl :: env
  fe_request :: "string \<Rightarrow> u8 list option"
  fe_buf :: "(u64 \<times> u64) option"
  fe_sbl_load :: env
  fe_table :: table_alloc
  fe_ready :: env
  fe_sbl :: env
  fe_rnd :: u32
  fe_amss :: env

definition release_firmware :: "boot_sys \<Rightarrow> boot_sys" where "release_firmware st = kmem_sub 1 st"

definition fw_error_read :: "boot_sys \<Rightarrow> boot_sys option" where
  "fw_error_read st =
     (case bt_fbc_image st of
        None \<Rightarrow> None
      | Some img \<Rightarrow> Some (release_firmware ((mhi_free_bhie_table img st)\<lparr>bt_fbc_image := None\<rparr>)))"

text \<open>The part after the first image was loaded: the table of the full image, the ready transition and the second load.\<close>

definition fw_load_second :: "fw_env \<Rightarrow> u8 list \<Rightarrow> boot_sys \<Rightarrow> boot_sys option" where
  "fw_load_second env firmware st =
     (let st0 = st\<lparr>bt_ctl := (bt_ctl st)\<lparr>dev_state := MHI_STATE_RESET\<rparr>\<rparr>
      in if \<not> bt_fbc_download st0
         then (let (_, c) = mhi_ready_state_transition (fe_ready env) (bt_ctl st0) in Some (release_firmware (st0\<lparr>bt_ctl := c\<rparr>)))
         else (case mhi_alloc_bhie_table (fe_table env) (of_nat (length firmware)) st0 of
                 None \<Rightarrow> None
               | Some (Inl _, st1) \<Rightarrow> Some (release_firmware st1)
               | Some (Inr img0, st1) \<Rightarrow>
                   (case mhi_firmware_copy firmware img0 st1 of
                      None \<Rightarrow> None
                    | Some (img, st2) \<Rightarrow>
                        (let (r, c) = mhi_ready_state_transition (fe_ready env) (bt_ctl st2);
                             st3 = st2\<lparr>bt_fbc_image := Some img, bt_ctl := c\<rparr>
                         in case r of
                              Inl _ \<Rightarrow> fw_error_read st3
                            | Inr _ \<Rightarrow>
                                (let (ret, c4) = wait_event_timeout (\<lambda>c. ee c = MHI_EE_SBL \<or> MHI_PM_IN_ERROR_STATE (pm_state c)) (fe_sbl env) c;
                                     st4 = st3\<lparr>bt_ctl := c4\<rparr>
                                 in if \<not> ret \<or> MHI_PM_IN_ERROR_STATE (pm_state c4) then fw_error_read st4
                                    else if length (ii_mhi_buf img) \<le> unat (ii_entries img - 1) then None
                                    else (case mhi_fw_load_amss (fe_rnd env) (fe_amss env) (ii_mhi_buf img ! unat (ii_entries img - 1)) st4 of
                                            None \<Rightarrow> None
                                          | Some (_, st5) \<Rightarrow> Some (release_firmware st5)))))))"

definition mhi_fw_load_worker :: "fw_env \<Rightarrow> boot_sys \<Rightarrow> boot_sys option" where
  "mhi_fw_load_worker env st =
     (let (ret, c1) = wait_event_timeout (\<lambda>c. MHI_IN_PBL (ee c) \<or> MHI_PM_IN_ERROR_STATE (pm_state c)) (fe_pbl env) (bt_ctl st);
          st1 = st\<lparr>bt_ctl := c1\<rparr>;
          fw_name = if ee c1 = MHI_EE_EDL then bt_edl_image st1 else bt_fw_image st1
      in if \<not> ret \<or> MHI_PM_IN_ERROR_STATE (pm_state c1) then Some st1
         else if ee c1 = MHI_EE_PTHRU then Some st1
         else if fw_name = None \<or> (bt_fbc_download st1 \<and> (bt_sbl_size st1 = 0 \<or> bt_seg_len st1 = 0)) then Some st1
         else (case fe_request env (the fw_name) of
                 None \<Rightarrow> Some st1
               | Some firmware \<Rightarrow>
                   (let fsize = of_nat (length firmware);
                        size0 = if bt_fbc_download st1 then bt_sbl_size st1 else fsize;
                        sz = if fsize < size0 then fsize else size0;
                        st2 = kmem_add 1 st1
                    in case fe_buf env of
                         None \<Rightarrow> Some (release_firmware st2)
                       | Some (_, dma_addr) \<Rightarrow>
                           (let st3 = dma_alloc dma_addr (take (unat sz) firmware) st2
                            in case mhi_fw_load_sbl (fe_sbl_load env) dma_addr sz (bt_ctl st3) of
                                 None \<Rightarrow> None
                               | Some (r, c4) \<Rightarrow>
                                   (let st4 = mhi_free_coherent dma_addr (st3\<lparr>bt_ctl := c4\<rparr>)
                                    in if r \<noteq> Inr () \<or> ee c4 = MHI_EE_EDL then Some (release_firmware st4)
                                       else fw_load_second env firmware st4)))))"

subsection \<open>Writing an image from user space\<close>

text \<open>The result of these calls: an error number, or a value that is not negative (0 is success).\<close>

datatype bhi_ret = BhiErr errno | BhiVal nat

record bhi_write_env =
  bw_buf :: "(u64 \<times> u64) option"
  bw_left :: nat
  bw_sbl_load :: env
  bw_ready :: env
  bw_fp :: env
  bw_jiffies :: nat

definition BhiWrite :: "bhi_write_env \<Rightarrow> u8 list \<Rightarrow> boot_sys \<Rightarrow> (bhi_ret \<times> boot_sys) option" where
  "BhiWrite env img_bytes st =
     (if ee (bt_ctl st) \<noteq> MHI_EE_EDL then Some (BhiErr EINVAL, st)
      else case bw_buf env of
             None \<Rightarrow> Some (BhiErr ENOMEM, st)
           | Some (_, dma_addr) \<Rightarrow>
               if bw_left env \<noteq> 0 then Some (BhiVal (bw_left env), mhi_free_coherent dma_addr (dma_alloc dma_addr [] st))
               else (let st1 = dma_alloc dma_addr img_bytes st
                     in case mhi_fw_load_sbl (bw_sbl_load env) dma_addr (of_nat (length img_bytes)) (bt_ctl st1) of
                          None \<Rightarrow> None
                        | Some (Inl e, c2) \<Rightarrow> Some (BhiErr e, mhi_free_coherent dma_addr (st1\<lparr>bt_ctl := c2\<rparr>))
                        | Some (Inr _, c2) \<Rightarrow>
                            (let st2 = mhi_free_coherent dma_addr (st1\<lparr>bt_ctl := c2\<rparr>)
                             in case mhi_ready_state_transition (bw_ready env) (c2\<lparr>dev_state := MHI_STATE_RESET\<rparr>) of
                                  (Inl e, c3) \<Rightarrow> Some (BhiErr e, st2\<lparr>bt_ctl := c3\<rparr>)
                                | (Inr _, c3) \<Rightarrow>
                                    (let (ret, c4) = wait_event_timeout (\<lambda>c. ee c = MHI_EE_FP \<or> MHI_PM_IN_ERROR_STATE (pm_state c)) (bw_fp env) c3
                                     in if \<not> ret \<or> MHI_PM_IN_ERROR_STATE (pm_state c4)
                                        then Some (BhiVal (if ret then Suc (bw_jiffies env) else 0), st2\<lparr>bt_ctl := c4\<rparr>)
                                        else Some (BhiVal 0, st2\<lparr>bt_ctl := c4\<rparr>)))))"

text \<open>\<open>user\<close>: the size and the image in user memory, \<open>None\<close> when the size cannot be read (\<open>left\<close> bytes are missing).\<close>

definition bhi_write_image :: "bhi_write_env \<Rightarrow> nat \<Rightarrow> (u64 \<times> (nat \<Rightarrow> u8)) option \<Rightarrow> boot_sys \<Rightarrow> (bhi_ret \<times> boot_sys) option" where
  "bhi_write_image env left user st =
     (case user of
        None \<Rightarrow> Some (BhiVal left, st)
      | Some (sz, mem) \<Rightarrow>
          if sz = 0 then Some (BhiErr EINVAL, st) else BhiWrite env (map mem [0..<unat sz]) st)"

subsection \<open>Memory\<close>

lemmas boot_mem_defs = dma_alloc_def mhi_free_coherent_def kmem_add_def kmem_sub_def release_firmware_def

lemma dma_alloc_sel [simp]:
  "bt_dma (dma_alloc d bytes st) = (bt_dma st)(d \<mapsto> bytes)" "bt_kmem (dma_alloc d bytes st) = bt_kmem st"
  "bt_ctl (dma_alloc d bytes st) = bt_ctl st" "bt_fbc_image (dma_alloc d bytes st) = bt_fbc_image st"
  "bt_seg_len (dma_alloc d bytes st) = bt_seg_len st"
  by (simp_all add: dma_alloc_def)

lemma mhi_free_coherent_sel [simp]:
  "bt_dma (mhi_free_coherent d st) = (bt_dma st)(d := None)" "bt_kmem (mhi_free_coherent d st) = bt_kmem st"
  "bt_ctl (mhi_free_coherent d st) = bt_ctl st" "bt_fbc_image (mhi_free_coherent d st) = bt_fbc_image st"
  "bt_seg_len (mhi_free_coherent d st) = bt_seg_len st"
  by (simp_all add: mhi_free_coherent_def)

lemma kmem_sel [simp]:
  "bt_dma (kmem_add n st) = bt_dma st" "bt_dma (kmem_sub n st) = bt_dma st" "bt_kmem (kmem_add n st) = bt_kmem st + n"
  "bt_kmem (kmem_sub n st) = bt_kmem st - n" "bt_fbc_image (kmem_add n st) = bt_fbc_image st"
  "bt_fbc_image (kmem_sub n st) = bt_fbc_image st" "bt_ctl (kmem_add n st) = bt_ctl st" "bt_ctl (kmem_sub n st) = bt_ctl st"
  "bt_seg_len (kmem_add n st) = bt_seg_len st"
  by (simp_all add: kmem_add_def kmem_sub_def)

lemma free_bufs_sel [simp]:
  "bt_dma (free_bufs bufs st) = bt_dma st |` (- mb_dma_addr ` set bufs)" "bt_kmem (free_bufs bufs st) = bt_kmem st"
  "bt_fbc_image (free_bufs bufs st) = bt_fbc_image st" "bt_ctl (free_bufs bufs st) = bt_ctl st"
  by (induction bufs arbitrary: st) (auto simp: free_bufs_def fun_eq_iff restrict_map_def)

text \<open>What the device reads through one vector.\<close>

definition dma_read :: "(u64 \<rightharpoonup> u8 list) \<Rightarrow> bhi_vec_entry \<Rightarrow> u8 list" where
  "dma_read m v = take (unat (ve_size v)) (the (m (ve_dma_addr v)))"

definition seg_buf :: "(nat \<Rightarrow> (u64 \<times> u64) option) \<Rightarrow> u64 \<Rightarrow> nat \<Rightarrow> nat \<Rightarrow> mhi_buf" where
  "seg_buf al seg_size segments i =
     \<lparr>mb_buf = fst (the (al i)), mb_dma_addr = snd (the (al i)), mb_len = segment_size seg_size segments i\<rparr>"

lemma alloc_segments_ok:
  assumes "alloc_segments al seg n is bufs st = (True, bufs', st')"
  shows "bufs' = bufs @ map (seg_buf al seg n) is \<and> (\<forall>i \<in> set is. al i \<noteq> None) \<and> st' = st\<lparr>bt_dma := bt_dma st'\<rparr> \<and>
    dom (bt_dma st') = dom (bt_dma st) \<union> mb_dma_addr ` set (map (seg_buf al seg n) is) \<and>
    (\<forall>a. a \<notin> mb_dma_addr ` set (map (seg_buf al seg n) is) \<longrightarrow> bt_dma st' a = bt_dma st a) \<and>
    (distinct (map (mb_dma_addr \<circ> seg_buf al seg n) is) \<longrightarrow>
      (\<forall>b \<in> set (map (seg_buf al seg n) is). bt_dma st' (mb_dma_addr b) = Some (replicate (unat (mb_len b)) 0)))"
  using assms
proof (induction "is" arbitrary: bufs st)
  case Nil
  then show ?case by simp
next
  case (Cons i js)
  from Cons.prems obtain b d where ai: "al i = Some (b, d)"
    and run: "alloc_segments al seg n js (bufs @ [seg_buf al seg n i])
      (dma_alloc d (replicate (unat (segment_size seg n i)) 0) st) = (True, bufs', st')"
    by (auto simp: Let_def seg_buf_def split: option.splits)
  have d: "d = mb_dma_addr (seg_buf al seg n i)" "mb_len (seg_buf al seg n i) = segment_size seg n i"
    using ai by (simp_all add: seg_buf_def)
  from Cons.IH [OF run] show ?case using d ai
    by (auto simp: dma_alloc_def)
qed

lemma alloc_segments_fail:
  assumes "alloc_segments al seg n is bufs st = (False, bufs', st')"
  shows "\<exists>new. bufs' = bufs @ new \<and> st' = st\<lparr>bt_dma := bt_dma st'\<rparr> \<and> set new \<subseteq> seg_buf al seg n ` {i \<in> set is. al i \<noteq> None} \<and>
    (\<forall>a. a \<notin> mb_dma_addr ` set new \<longrightarrow> bt_dma st' a = bt_dma st a)"
  using assms
proof (induction "is" arbitrary: bufs st)
  case Nil
  then show ?case by simp
next
  case (Cons i js)
  show ?case
  proof (cases "al i")
    case None
    then show ?thesis using Cons.prems by auto
  next
    case (Some bd)
    then obtain b d where ai: "al i = Some (b, d)" by (cases bd) auto
    then have run: "alloc_segments al seg n js (bufs @ [seg_buf al seg n i])
        (dma_alloc d (replicate (unat (segment_size seg n i)) 0) st) = (False, bufs', st')"
      using Cons.prems by (auto simp: Let_def seg_buf_def)
    have d: "d = mb_dma_addr (seg_buf al seg n i)" using ai by (simp add: seg_buf_def)
    from Cons.IH [OF run] obtain new where "bufs' = (bufs @ [seg_buf al seg n i]) @ new"
      "st' = (dma_alloc d (replicate (unat (segment_size seg n i)) 0) st)\<lparr>bt_dma := bt_dma st'\<rparr>"
      "set new \<subseteq> seg_buf al seg n ` {i \<in> set js. al i \<noteq> None}" "\<forall>a. a \<notin> mb_dma_addr ` set new \<longrightarrow>
        bt_dma st' a = bt_dma (dma_alloc d (replicate (unat (segment_size seg n i)) 0) st) a" by blast
    then show ?thesis using d ai by (intro exI [of _ "seg_buf al seg n i # new"]) (auto simp: dma_alloc_def)
  qed
qed

lemma table_segments_exact:
  assumes "seg \<noteq> 0" "unat sz + unat seg \<le> 2 ^ 64" "(unat sz + unat seg - 1) div unat seg + 1 < 2 ^ 31"
  shows "table_segments sz seg = int ((unat sz + unat seg - 1) div unat seg + 1)"
proof -
  let ?q = "(unat sz + unat seg - 1) div unat seg"
  have p: "0 < unat seg" using assms(1) by (simp add: unat_gt_0)
  have e: "sz + seg - 1 = of_nat (unat sz + unat seg - 1)"
    using p by (simp add: of_nat_diff)
  have s: "unat (sz + seg - 1) = unat sz + unat seg - 1"
    unfolding e by (rule unat_of_nat_small) (use assms(2) p in simp)
  have q: "unat ((sz + seg - 1) div seg) = ?q"
    using s by (simp add: unat_div)
  have "unat ((sz + seg - 1) div seg + 1) = ?q + 1"
    using q assms(3) by (subst unat_add_no_wrap) simp_all
  then have u: "(sz + seg - 1) div seg + 1 = of_nat (?q + 1)"
    using assms(3) by (simp only: word_unat_eq_iff) (subst unat_of_nat_small, simp_all)
  have "(ucast (of_nat (?q + 1) :: u64) :: 32 word) = of_nat (?q + 1)"
    using assms(3) by (simp only: unsigned_of_nat) (simp add: take_bit_nat_eq_self)
  moreover have "sint (of_nat (?q + 1) :: 32 word) = int (?q + 1)"
    using assms(3) by (simp only: signed_of_nat) (simp add: signed_take_bit_int_eq_self)
  ultimately show ?thesis using u by (simp only: table_segments_def)
qed

subsection \<open>The table holds the image\<close>

lemma div_up_step:
  fixes n seg :: nat
  assumes "0 < seg" "0 < n"
  shows "(n - min n seg + seg - 1) div seg = (n + seg - 1) div seg - 1"
proof (cases "n \<le> seg")
  case True
  have "(n + seg - 1) div seg = 1"
  proof (rule div_nat_eqI)
    show "seg * 1 \<le> n + seg - 1" using assms(2) by simp
    show "n + seg - 1 < seg * Suc 1" using True assms by simp
  qed
  then show ?thesis using True assms by simp
next
  case False
  then have "n + seg - 1 = (n - seg + seg - 1) + 1 * seg" using assms by simp
  then have "(n + seg - 1) div seg = (n - seg + seg - 1) div seg + 1" using assms(1) by (metis div_mult_self1 less_not_refl add.commute)
  then show ?thesis using False by simp
qed

declare firmware_copy_loop.simps [simp del]

text \<open>
  What the loop does from segment \<open>i\<close> on: the vectors before \<open>i\<close> stay, those from \<open>i\<close> on read as the bytes \<open>buf\<close>, and no
  memory but that of the segments from \<open>i\<close> on changes.
\<close>

definition fw_copied :: "nat \<Rightarrow> mhi_buf list \<Rightarrow> nat \<Rightarrow> u8 list \<Rightarrow> bhi_vec_entry list \<Rightarrow> boot_sys \<Rightarrow> bhi_vec_entry list \<Rightarrow> boot_sys \<Rightarrow> bool" where
  "fw_copied seg bufs i buf vec st vec' st' \<longleftrightarrow>
     length vec' = length vec \<and> take i vec' = take i vec \<and> concat (map (dma_read (bt_dma st')) (drop i vec')) = buf \<and>
     (\<forall>v \<in> set (drop i vec'). unat (ve_size v) \<le> seg) \<and>
     (\<forall>a. a \<notin> mb_dma_addr ` set (drop i bufs) \<longrightarrow> bt_dma st' a = bt_dma st a) \<and> dom (bt_dma st') = dom (bt_dma st) \<and>
     st' = st\<lparr>bt_dma := bt_dma st'\<rparr>"

lemma fw_copied_step:
  assumes il: "i < length vec" "length vec \<le> length bufs" and d: "distinct (map mb_dma_addr bufs)"
    and b: "unat (mb_len (bufs ! i)) = seg" and a: "a = mb_dma_addr (bufs ! i)" and old: "bt_dma st a = Some old" and k: "k = min (length buf) seg"
    and r: "fw_copied seg bufs (Suc i) (drop k buf) (vec[i := \<lparr>ve_dma_addr = a, ve_size = of_nat k\<rparr>])
      (dma_alloc a (take k buf @ drop k old) st) vec' st'"
  shows "fw_copied seg bufs i buf vec st vec' st'"
proof -
  have "a \<notin> mb_dma_addr ` set (drop (Suc i) bufs)"
    using d il a id_take_nth_drop [of i bufs] by (metis distinct.simps(2) distinct_append list.set_map list.simps(9) map_append order_less_le_trans)
  then have at: "bt_dma st' a = Some (take k buf @ drop k old)" using r by (simp add: fw_copied_def)
  have l: "length vec' = length vec" using r by (simp add: fw_copied_def)
  have t: "take (Suc i) vec' = take (Suc i) (vec[i := \<lparr>ve_dma_addr = a, ve_size = of_nat k\<rparr>])" using r by (simp add: fw_copied_def)
  have vi: "vec' ! i = \<lparr>ve_dma_addr = a, ve_size = of_nat k\<rparr>"
    using arg_cong [OF t, of "\<lambda>l. l ! i"] il l by simp
  have dr: "drop i vec' = vec' ! i # drop (Suc i) vec'" using il l by (simp add: Cons_nth_drop_Suc)
  have ku: "unat (of_nat k :: u64) = k"
    using b k unsigned_less [where w = "mb_len (bufs ! i)" and 'a = nat] by (intro unat_of_nat_small) auto
  have rd: "dma_read (bt_dma st') (vec' ! i) = take k buf" using at ku k by (simp add: dma_read_def vi)
  have ti: "take i vec' = take i vec"
    using arg_cong [OF t, of "take i"] by (simp add: min_def)
  have bi: "drop i bufs = bufs ! i # drop (Suc i) bufs" using il by (simp add: Cons_nth_drop_Suc)
  show ?thesis using r l ti dr rd vi ku k bi a old unfolding fw_copied_def
    by (auto simp: dma_alloc_def)
qed

lemma firmware_copy_loop_ok:
  assumes seg: "0 < seg" and "length vec - i = (length buf + seg - 1) div seg" and "i \<le> length vec"
    and "length vec \<le> length bufs" and "distinct (map mb_dma_addr bufs)"
    and "\<forall>j. i \<le> j \<and> j < length vec \<longrightarrow> unat (mb_len (bufs ! j)) = seg \<and>
      (\<exists>old. bt_dma st (mb_dma_addr (bufs ! j)) = Some old \<and> length old = seg)"
  shows "\<exists>vec' st'. firmware_copy_loop bufs i buf vec st = Some (vec', st') \<and> fw_copied seg bufs i buf vec st vec' st'"
  using assms(2-)
proof (induction bufs i buf vec st rule: firmware_copy_loop.induct [case_names step])
  case (step bufs i buf vec st)
  note cap = step.prems(1) and i = step.prems(2) and len = step.prems(3) and d = step.prems(4) and mem = step.prems(5)
  show ?case
  proof (cases "buf = []")
    case True
    then have "length vec = i" using cap i seg by (simp add: div_eq_0_iff)
    then show ?thesis using True by (auto simp: firmware_copy_loop.simps fw_copied_def)
  next
    case False
    have "0 < (length buf + seg - 1) div seg"
      using False seg by (cases buf) (simp_all add: div_greater_zero_iff)
    then have il: "i < length vec" using cap by linarith
    let ?a = "mb_dma_addr (bufs ! i)" and ?k = "min (length buf) seg"
    obtain old where old: "bt_dma st ?a = Some old" "length old = seg" and bl: "unat (mb_len (bufs ! i)) = seg"
      using mem il by blast
    let ?vec = "vec[i := \<lparr>ve_dma_addr = ?a, ve_size = of_nat ?k\<rparr>]"
    let ?st = "dma_alloc ?a (take ?k buf @ drop ?k old) st"
    have run: "firmware_copy_loop bufs i buf vec st = firmware_copy_loop bufs (Suc i) (drop ?k buf) ?vec ?st"
      by (subst firmware_copy_loop.simps) (use False il len old bl in \<open>simp add: Let_def\<close>)
    have fresh: "mb_dma_addr (bufs ! j) \<noteq> ?a" if "Suc i \<le> j" "j < length bufs" for j
      using d that il len nth_eq_iff_index_eq [of "map mb_dma_addr bufs" j i] by simp
    have "\<exists>vec' st'. firmware_copy_loop bufs (Suc i) (drop ?k buf) ?vec ?st = Some (vec', st') \<and>
      fw_copied seg bufs (Suc i) (drop ?k buf) ?vec ?st vec' st'"
    proof (rule step.IH)
      show "buf \<noteq> []" "\<not> (length bufs \<le> i \<or> length vec \<le> i)" using False il len by simp_all
      show "length ?vec - Suc i = (length (drop ?k buf) + seg - 1) div seg"
        using cap div_up_step [OF seg, of "length buf"] False by simp
      show "\<forall>j. Suc i \<le> j \<and> j < length ?vec \<longrightarrow> unat (mb_len (bufs ! j)) = seg \<and>
        (\<exists>old. bt_dma ?st (mb_dma_addr (bufs ! j)) = Some old \<and> length old = seg)"
        using mem fresh len by auto
    qed (use il len d old bl in simp_all)
    then show ?thesis using run fw_copied_step [OF il len d bl refl old(1) refl] by auto
  qed
qed

text \<open>
  (C18) Loading the full image: the table that was allocated for a firmware file has exactly the segments the file needs,
  the copy stays inside it, and what the device reads through the vectors, one after the other, is the file.
\<close>

theorem firmware_image_roundtrip:
  assumes al: "mhi_alloc_bhie_table al (of_nat (length firmware)) st = Some (Inr img0, st1)"
    and d: "inj_on (\<lambda>i. snd (the (ta_segment al i))) {..<length (ii_mhi_buf img0)}"
    and sz: "length firmware + unat (bt_seg_len st) \<le> 2 ^ 64"
      "(length firmware + unat (bt_seg_len st) - 1) div unat (bt_seg_len st) + 1 < 2 ^ 31"
  shows "\<exists>img st2. mhi_firmware_copy firmware img0 st1 = Some (img, st2) \<and>
    concat (map (dma_read (bt_dma st2)) (ii_bhi_vec img)) = firmware \<and>
    length (ii_bhi_vec img) + 1 = unat (ii_entries img) \<and> length (ii_mhi_buf img) = unat (ii_entries img) \<and>
    (\<forall>v \<in> set (ii_bhi_vec img). ve_size v \<le> bt_seg_len st)"
proof -
  let ?seg = "bt_seg_len st"
  let ?q = "(length firmware + unat ?seg - 1) div unat ?seg"
  have s0: "?seg \<noteq> 0" using al by (auto simp: mhi_alloc_bhie_table_def Let_def)
  then have p: "0 < unat ?seg" by (simp add: unat_gt_0)
  have fl: "unat (of_nat (length firmware) :: u64) = length firmware"
    using sz(1) p by (intro unat_of_nat_small) simp
  have n: "nat (table_segments (of_nat (length firmware)) ?seg) = ?q + 1"
    using table_segments_exact [OF s0, of "of_nat (length firmware)"] fl sz by simp
  obtain bufs where a: "alloc_segments (ta_segment al) ?seg (?q + 1) [0..<?q + 1] [] (kmem_add 2 st) = (True, bufs, st1)"
    and img0: "img0 = \<lparr>ii_mhi_buf = bufs, ii_bhi_vec = replicate ?q \<lparr>ve_dma_addr = 0, ve_size = 0\<rparr>, ii_entries = of_nat (?q + 1)\<rparr>"
    using al n by (auto simp: mhi_alloc_bhie_table_def Let_def split: if_splits prod.splits bool.splits)
  note ok = alloc_segments_ok [OF a]
  have bufs: "bufs = map (seg_buf (ta_segment al) ?seg (?q + 1)) [0..<?q + 1]" using ok by simp
  have di: "distinct (map mb_dma_addr bufs)"
    using d by (simp add: bufs img0 distinct_map seg_buf_def comp_def lessThan_atLeast0 del: upt_Suc)
  have mem: "\<forall>j. 0 \<le> j \<and> j < ?q \<longrightarrow> unat (mb_len (bufs ! j)) = unat ?seg \<and>
      (\<exists>old. bt_dma st1 (mb_dma_addr (bufs ! j)) = Some old \<and> length old = unat ?seg)"
  proof (intro allI impI)
    fix j assume j: "0 \<le> j \<and> j < ?q"
    then have l: "mb_len (bufs ! j) = ?seg" by (simp add: bufs seg_buf_def segment_size_def del: upt_Suc)
    have "bufs ! j \<in> set bufs" using j bufs by (intro nth_mem) simp
    then have "bt_dma st1 (mb_dma_addr (bufs ! j)) = Some (replicate (unat (mb_len (bufs ! j))) 0)"
      using ok di bufs by (auto simp del: upt_Suc)
    then show "unat (mb_len (bufs ! j)) = unat ?seg \<and>
      (\<exists>old. bt_dma st1 (mb_dma_addr (bufs ! j)) = Some old \<and> length old = unat ?seg)" using l by simp
  qed
  obtain vec' st2 where "firmware_copy_loop bufs 0 firmware (ii_bhi_vec img0) st1 = Some (vec', st2)"
    and "fw_copied (unat ?seg) bufs 0 firmware (ii_bhi_vec img0) st1 vec' st2"
    using firmware_copy_loop_ok [OF p, of "ii_bhi_vec img0" 0 firmware bufs st1] di mem by (auto simp: img0 bufs)
  moreover have "unat (of_nat (?q + 1) :: u32) = ?q + 1" using sz(2) by (intro unat_of_nat_small) simp
  ultimately show ?thesis
    by (auto simp: mhi_firmware_copy_def img0 fw_copied_def bufs word_le_nat_alt)
qed

subsection \<open>Memory of the loader\<close>

lemma release_firmware_sel [simp]:
  "bt_dma (release_firmware st) = bt_dma st" "bt_kmem (release_firmware st) = bt_kmem st - 1"
  "bt_fbc_image (release_firmware st) = bt_fbc_image st"
  by (simp_all add: release_firmware_def)

lemma restrict_unchanged: "\<forall>a. a \<notin> A \<longrightarrow> m' a = m a \<Longrightarrow> \<forall>a \<in> A. m a = None \<Longrightarrow> m' |` (- A) = m"
  by (auto simp: restrict_map_def fun_eq_iff)

lemma table_segments_less: "table_segments a b < 2 ^ 31"
  unfolding table_segments_def using sint_less [where ?'a = 32] by simp

text \<open>
  Allocating a table of segments at bus addresses that are not in use: it fails with no coherent memory kept, and it
  succeeds with one buffer per segment. On failure of a segment the array of the table is not freed.
\<close>

lemma mhi_alloc_bhie_table_memory:
  assumes run: "mhi_alloc_bhie_table al alloc_size st = Some (r, st')"
    and fresh: "\<forall>i b d. ta_segment al i = Some (b, d) \<longrightarrow> bt_dma st d = None"
  shows "case r of
      Inl e \<Rightarrow> e = ENOMEM \<and> bt_dma st' = bt_dma st \<and> bt_kmem st' = bt_kmem st + (if ta_info al \<and> ta_array al then 1 else 0)
    | Inr img \<Rightarrow> dom (bt_dma st') = dom (bt_dma st) \<union> mb_dma_addr ` set (ii_mhi_buf img) \<and>
        (\<forall>b \<in> set (ii_mhi_buf img). bt_dma st (mb_dma_addr b) = None) \<and> bt_kmem st' = bt_kmem st + 2 \<and>
        (\<forall>a. a \<notin> mb_dma_addr ` set (ii_mhi_buf img) \<longrightarrow> bt_dma st' a = bt_dma st a) \<and>
        unat (ii_entries img) = length (ii_mhi_buf img)"
proof -
  let ?n = "nat (table_segments alloc_size (bt_seg_len st))" and ?seg = "bt_seg_len st"
  obtain ok bufs st1 where a: "alloc_segments (ta_segment al) ?seg ?n [0..<?n] [] (kmem_add 2 st) = (ok, bufs, st1)"
    by (metis prod_cases3)
  show ?thesis
  proof (cases ok)
    case True
    with a have a': "alloc_segments (ta_segment al) ?seg ?n [0..<?n] [] (kmem_add 2 st) = (True, bufs, st1)" by simp
    note o = alloc_segments_ok [OF a']
    have k: "bt_kmem st1 = bt_kmem st + 2" using arg_cong [OF conjunct1 [OF conjunct2 [OF conjunct2 [OF o]]], of bt_kmem] by simp
    have "\<forall>b \<in> set bufs. bt_dma st (mb_dma_addr b) = None" using o fresh by (auto simp: seg_buf_def)
    moreover have "unat (of_nat ?n :: u32) = ?n" by (rule unat_of_nat_small) (use table_segments_less [of alloc_size ?seg] in simp)
    ultimately show ?thesis using k run a' o
      by (auto simp: mhi_alloc_bhie_table_def Let_def split: if_splits)
  next
    case False
    with a have a': "alloc_segments (ta_segment al) ?seg ?n [0..<?n] [] (kmem_add 2 st) = (False, bufs, st1)" by simp
    from alloc_segments_fail [OF a'] have s1: "st1 = (kmem_add 2 st)\<lparr>bt_dma := bt_dma st1\<rparr>"
      and new: "set bufs \<subseteq> seg_buf (ta_segment al) ?seg ?n ` {i. ta_segment al i \<noteq> None}"
      "\<forall>a. a \<notin> mb_dma_addr ` set bufs \<longrightarrow> bt_dma st1 a = bt_dma st a" by auto
    have "\<forall>a \<in> mb_dma_addr ` set bufs. bt_dma st a = None" using new(1) fresh by (fastforce simp: seg_buf_def)
    then have "bt_dma st1 |` (- mb_dma_addr ` set bufs) = bt_dma st" by (rule restrict_unchanged [OF new(2)])
    moreover have "bt_kmem st1 = bt_kmem st + 2" using arg_cong [OF s1, of bt_kmem] by simp
    ultimately show ?thesis using run a'
      by (auto simp: mhi_alloc_bhie_table_def Let_def split: if_splits)
  qed
qed

lemma firmware_copy_loop_frame:
  assumes "firmware_copy_loop bufs i buf vec st = Some (vec', st')"
  shows "st' = st\<lparr>bt_dma := bt_dma st'\<rparr> \<and> dom (bt_dma st') = dom (bt_dma st) \<and>
    (\<forall>a. a \<notin> mb_dma_addr ` set bufs \<longrightarrow> bt_dma st' a = bt_dma st a)"
  using assms
proof (induction bufs i buf vec st rule: firmware_copy_loop.induct [case_names step])
  case (step bufs i buf vec st)
  show ?case
  proof (cases "buf = []")
    case True
    then show ?thesis using step.prems by (simp add: firmware_copy_loop.simps)
  next
    case False
    let ?a = "mb_dma_addr (bufs ! i)" and ?k = "min (length buf) (unat (mb_len (bufs ! i)))"
    obtain old where il: "i < length bufs" "i < length vec" and old: "bt_dma st ?a = Some old"
      and run: "firmware_copy_loop bufs (Suc i) (drop ?k buf) (vec[i := \<lparr>ve_dma_addr = ?a, ve_size = of_nat ?k\<rparr>])
        (dma_alloc ?a (take ?k buf @ drop ?k old) st) = Some (vec', st')"
      using step.prems False by (subst (asm) firmware_copy_loop.simps) (auto simp: Let_def split: if_splits option.splits)
    have "?a \<in> mb_dma_addr ` set bufs" using il by simp
    moreover note step.IH [OF False _ refl refl old run]
    ultimately show ?thesis using il old by (auto simp: dma_alloc_def split: if_splits)
  qed
qed

lemma mhi_firmware_copy_frame:
  assumes "mhi_firmware_copy fw img st = Some (img', st')"
  shows "ii_mhi_buf img' = ii_mhi_buf img \<and> ii_entries img' = ii_entries img \<and> st' = st\<lparr>bt_dma := bt_dma st'\<rparr> \<and>
    dom (bt_dma st') = dom (bt_dma st) \<and> (\<forall>a. a \<notin> mb_dma_addr ` set (ii_mhi_buf img) \<longrightarrow> bt_dma st' a = bt_dma st a)"
  using assms firmware_copy_loop_frame
  by (fastforce simp: mhi_firmware_copy_def split: option.splits)

lemma mhi_fw_load_amss_frame:
  assumes "mhi_fw_load_amss rnd es b st = Some (r, st')"
  shows "bt_dma st' = bt_dma st \<and> bt_kmem st' = bt_kmem st \<and> bt_fbc_image st' = bt_fbc_image st"
  using assms by (auto simp: mhi_fw_load_amss_def Let_def split: if_splits prod.splits option.splits)

text \<open>What the loader holds at the end, compared with a state \<open>st\<close> before it: nothing, or the table of the full image.\<close>

definition fw_held :: "boot_sys \<Rightarrow> nat \<Rightarrow> boot_sys \<Rightarrow> bool" where
  "fw_held st k st' \<longleftrightarrow>
     (case bt_fbc_image st' of
        None \<Rightarrow> bt_dma st' = bt_dma st \<and> (bt_kmem st' = k \<or> bt_kmem st' = Suc k)
      | Some img \<Rightarrow> dom (bt_dma st') = dom (bt_dma st) \<union> mb_dma_addr ` set (ii_mhi_buf img) \<and> bt_kmem st' = k + 2 \<and>
          (\<forall>a. a \<notin> mb_dma_addr ` set (ii_mhi_buf img) \<longrightarrow> bt_dma st' a = bt_dma st a))"

lemma fw_error_read_held:
  assumes img: "bt_fbc_image s = Some img" "unat (ii_entries img) = length (ii_mhi_buf img)"
    and m: "\<forall>a. a \<notin> mb_dma_addr ` set (ii_mhi_buf img) \<longrightarrow> bt_dma s a = bt_dma st a"
      "\<forall>b \<in> set (ii_mhi_buf img). bt_dma st (mb_dma_addr b) = None" and k: "bt_kmem s = k + 3"
    and run: "fw_error_read s = Some st'"
  shows "fw_held st k st'"
proof -
  have "bt_dma s |` (- mb_dma_addr ` set (ii_mhi_buf img)) = bt_dma st"
    by (rule restrict_unchanged [OF m(1)]) (use m(2) in auto)
  then show ?thesis using run img k
    by (auto simp: fw_error_read_def mhi_free_bhie_table_def fw_held_def)
qed

lemma alloc_segments_image:
  "alloc_segments al seg n is bufs st = (ok, bufs', st') \<Longrightarrow> bt_fbc_image st' = bt_fbc_image st"
  by (induction "is" arbitrary: bufs st) (auto simp: Let_def split: option.splits)

lemma mhi_alloc_bhie_table_image:
  "mhi_alloc_bhie_table al sz st = Some (r, st') \<Longrightarrow> bt_fbc_image st' = bt_fbc_image st"
  by (auto simp: mhi_alloc_bhie_table_def Let_def split: if_splits prod.splits bool.splits dest: alloc_segments_image)

text \<open>The last part, from the copy of the image on.\<close>

lemma fw_load_table_held:
  assumes run: "fw_load_second env fw st = Some st'" and fbc: "bt_fbc_download st" and k: "bt_kmem st1 = k + 3"
    and al: "mhi_alloc_bhie_table (fe_table env) (of_nat (length fw)) (st\<lparr>bt_ctl := (bt_ctl st)\<lparr>dev_state := MHI_STATE_RESET\<rparr>\<rparr>) = Some (Inr img0, st1)"
    and d: "dom (bt_dma st1) = dom (bt_dma st) \<union> mb_dma_addr ` set (ii_mhi_buf img0)"
    and f: "\<forall>b \<in> set (ii_mhi_buf img0). bt_dma st (mb_dma_addr b) = None"
      "\<forall>a. a \<notin> mb_dma_addr ` set (ii_mhi_buf img0) \<longrightarrow> bt_dma st1 a = bt_dma st a" "unat (ii_entries img0) = length (ii_mhi_buf img0)"
  shows "fw_held st k st'"
proof -
  obtain img st2 where cp: "mhi_firmware_copy fw img0 st1 = Some (img, st2)"
    using run fbc al by (auto simp: fw_load_second_def Let_def split: option.splits)
  note fr = mhi_firmware_copy_frame [OF cp]
  have "st2 = st1\<lparr>bt_dma := bt_dma st2\<rparr>" using fr by blast
  from arg_cong [OF this, of bt_kmem] k have k2: "bt_kmem st2 = k + 3" by simp
  obtain q c where rd: "mhi_ready_state_transition (fe_ready env) (bt_ctl st2) = (q, c)" by fastforce
  let ?st3 = "st2\<lparr>bt_fbc_image := Some img, bt_ctl := c\<rparr>"
  have er: "fw_held st k s'" if "fw_error_read (?st3\<lparr>bt_ctl := c'\<rparr>) = Some s'" for c' s'
    by (rule fw_error_read_held [where img = img, OF _ _ _ _ _ that]) (use fr f k2 in auto)
  have am: "fw_held st k (release_firmware s)"
    if "mhi_fw_load_amss rnd es b (?st3\<lparr>bt_ctl := c'\<rparr>) = Some (q', s)" for rnd es b c' q' s
    using mhi_fw_load_amss_frame [OF that] fr f d k2 by (auto simp: fw_held_def)
  show ?thesis using run fbc al cp rd er er [of c] am
    by (auto simp: fw_load_second_def Let_def split: option.splits sum.splits prod.splits if_splits)
qed

lemma fw_load_second_held:
  assumes run: "fw_load_second env fw st = Some st'" and none: "bt_fbc_image st = None" and k: "bt_kmem st = Suc k"
    and fresh: "\<forall>i b d. ta_segment (fe_table env) i = Some (b, d) \<longrightarrow> bt_dma st d = None"
  shows "fw_held st k st'"
proof (cases "bt_fbc_download st")
  case False
  then show ?thesis using run none k
    by (auto simp: fw_load_second_def Let_def fw_held_def split: prod.splits)
next
  case fbc: True
  let ?st0 = "st\<lparr>bt_ctl := (bt_ctl st)\<lparr>dev_state := MHI_STATE_RESET\<rparr>\<rparr>"
  obtain r st1 where al: "mhi_alloc_bhie_table (fe_table env) (of_nat (length fw)) ?st0 = Some (r, st1)"
    using run fbc by (auto simp: fw_load_second_def Let_def split: option.splits)
  have m: "case r of Inl e \<Rightarrow> e = ENOMEM \<and> bt_dma st1 = bt_dma ?st0 \<and> bt_kmem st1 = bt_kmem ?st0 + (if ta_info (fe_table env) \<and> ta_array (fe_table env) then 1 else 0)
    | Inr img \<Rightarrow> dom (bt_dma st1) = dom (bt_dma ?st0) \<union> mb_dma_addr ` set (ii_mhi_buf img) \<and>
        (\<forall>b \<in> set (ii_mhi_buf img). bt_dma ?st0 (mb_dma_addr b) = None) \<and> bt_kmem st1 = bt_kmem ?st0 + 2 \<and>
        (\<forall>a. a \<notin> mb_dma_addr ` set (ii_mhi_buf img) \<longrightarrow> bt_dma st1 a = bt_dma ?st0 a) \<and>
        unat (ii_entries img) = length (ii_mhi_buf img)"
    by (rule mhi_alloc_bhie_table_memory [OF al]) (use fresh in simp)
  show ?thesis
  proof (cases r)
    case (Inl e)
    have "bt_fbc_image st1 = None" using mhi_alloc_bhie_table_image [OF al] none by simp
    then show ?thesis using run fbc al Inl m k
      by (auto simp: fw_load_second_def Let_def fw_held_def split: if_splits)
  next
    case (Inr img0)
    show ?thesis by (rule fw_load_table_held [OF run fbc _ al [unfolded Inr]]) (use m Inr k in auto)
  qed
qed


subsection \<open>Results of the transfers\<close>

lemma wait_status:
  assumes "wait_event (status_cond base off msk shift) es l c = (ok, l', c')" and "\<not> MHI_PM_IN_ERROR_STATE (pm_state c')"
  shows "case mhi_read_reg_field c' (base c') off msk shift of Inr v \<Rightarrow> l' = Some v | Inl _ \<Rightarrow> l' = l \<or> l' = Some 0"
  using assms(1)
proof (induction es arbitrary: l c)
  case Nil
  then show ?case using assms(2) by (auto simp: status_cond_def Let_def split: sum.splits if_splits)
next
  case (Cons e es)
  show ?case
  proof (cases "fst (status_cond base off msk shift l c)")
    case True
    then have "c' = c" "status_cond base off msk shift l c = (True, l')" using Cons.prems by (auto simp: Let_def split: prod.splits)
    then show ?thesis using assms(2) by (auto simp: status_cond_def split: sum.splits)
  next
    case False
    then have "snd (status_cond base off msk shift l c) = Some 0" by (auto simp: status_cond_def split: if_splits sum.splits)
    with False Cons.prems have "wait_event (status_cond base off msk shift) es (Some 0) (e c) = (ok, l', c')"
      by (auto simp: Let_def split: prod.splits)
    from Cons.IH [OF this] show ?thesis by (auto split: sum.splits)
  qed
qed

lemma wait_status_None:
  assumes "wait_event (status_cond base off msk shift) es None c = (ok, None, c')" and "\<not> MHI_PM_IN_ERROR_STATE (pm_state c')"
  shows "c' = c \<and> (\<exists>e. mhi_read_reg_field c (base c) off msk shift = Inl e)"
proof -
  have some: "wait_event (status_cond base off msk shift) es (Some x) d = (b, l, d') \<Longrightarrow> l \<noteq> None" for es x d b l d'
    by (induction es arbitrary: x d) (auto simp: status_cond_def Let_def split: if_splits sum.splits prod.splits)
  show ?thesis using assms
    by (cases es) (auto simp: status_cond_def Let_def split: if_splits sum.splits prod.splits dest: some)
qed

lemma mhi_write_reg_field_bhie [simp]: "bhie (mhi_write_reg_field b off m s val c) = bhie c" "bhie (mhi_write_reg b off val c) = bhie c"
  by (simp_all add: mhi_write_reg_field_def mhi_write_reg_def split: sum.splits)

lemma program_vec_sel [simp]:
  "pm_state (program_vec hi lo sz db m s b q c) = pm_state c" "bhie (program_vec hi lo sz db m s b q c) = bhie c"
  "link_down (program_vec hi lo sz db m s b q c) = link_down c"
  by (simp_all add: program_vec_def)

lemma ucast_32_64_inject [simp]: "(ucast (x :: u32) :: u64) = ucast y \<longleftrightarrow> x = y"
proof
  assume "(ucast x :: u64) = ucast y"
  then have "unat (ucast x :: u64) = unat (ucast y :: u64)" by simp
  then show "x = y" by (simp add: unsigned_ucast_eq take_bit_nat_eq_self word_unat_eq_iff unsigned_less [THEN less_trans])
qed simp

lemma program_vec_mmio:
  "off \<notin> {hi, lo, sz, db} \<Longrightarrow> mmio (program_vec hi lo sz db m s b q c) (bhie c + ucast off) = mmio c (bhie c + ucast off)"
  by (simp add: program_vec_def mhi_write_reg_field_def split: sum.splits)

text \<open>
  The load of the full image succeeds exactly when the registers may be accessed and, at the end of the wait, the
  controller is in no error state and the device reports the transfer as complete; every other result is EIO.
\<close>

theorem mhi_fw_load_amss_result:
  assumes run: "mhi_fw_load_amss rnd es b st = Some (r, st')"
  shows "(r = Inr () \<longleftrightarrow> MHI_REG_ACCESS_VALID (pm_state (bt_ctl st)) \<and> \<not> MHI_PM_IN_ERROR_STATE (pm_state (bt_ctl st')) \<and>
      mhi_read_reg_field (bt_ctl st') (bhie (bt_ctl st')) BHIE_TXVECSTATUS_OFFS BHIE_TXVECSTATUS_STATUS_BMSK
        BHIE_TXVECSTATUS_STATUS_SHFT = Inr BHIE_TXVECSTATUS_STATUS_XFER_COMPL) \<and> (r = Inr () \<or> r = Inl EIO)"
proof (cases "MHI_REG_ACCESS_VALID (pm_state (bt_ctl st))")
  case False
  then show ?thesis using run by (auto simp: mhi_fw_load_amss_def)
next
  case True
  let ?c1 = "program_vec BHIE_TXVECADDR_HIGH_OFFS BHIE_TXVECADDR_LOW_OFFS BHIE_TXVECSIZE_OFFS BHIE_TXVECDB_OFFS
    BHIE_TXVECDB_SEQNUM_BMSK BHIE_TXVECDB_SEQNUM_SHFT b (rnd AND BHIE_TXVECSTATUS_SEQNUM_BMSK) (bt_ctl st)"
  obtain ok l c2 where w: "wait_event (status_cond bhie BHIE_TXVECSTATUS_OFFS BHIE_TXVECSTATUS_STATUS_BMSK
      BHIE_TXVECSTATUS_STATUS_SHFT) es None ?c1 = (ok, l, c2)" by (metis prod_cases3)
  have c2: "bt_ctl st' = c2" using run True w by (auto simp: mhi_fw_load_amss_def Let_def split: if_splits option.splits)
  show ?thesis
  proof (cases "MHI_PM_IN_ERROR_STATE (pm_state c2)")
    case err: True
    then show ?thesis using run True w c2 by (auto simp: mhi_fw_load_amss_def Let_def)
  next
    case False
    then obtain s where "l = Some s" "r = (if s = BHIE_TXVECSTATUS_STATUS_XFER_COMPL then Inr () else Inl EIO)"
      using run True w by (auto simp: mhi_fw_load_amss_def Let_def split: option.splits)
    then show ?thesis using wait_status [OF w False] True False c2
      by (auto simp: BHIE_TXVECSTATUS_STATUS_XFER_COMPL_def split: sum.splits)
  qed
qed

text \<open>
  When the first read of the status register already fails, because the link is gone, the load goes on with a status
  it never read.
\<close>

theorem mhi_fw_load_amss_uninitialised:
  "mhi_fw_load_amss rnd es b st = None \<longleftrightarrow>
     MHI_REG_ACCESS_VALID (pm_state (bt_ctl st)) \<and> \<not> MHI_PM_IN_ERROR_STATE (pm_state (bt_ctl st)) \<and>
     link_down (bt_ctl st) \<and> mmio (bt_ctl st) (bhie (bt_ctl st) + ucast BHIE_TXVECSTATUS_OFFS) = U32_MAX"
proof (cases "MHI_REG_ACCESS_VALID (pm_state (bt_ctl st))")
  case False
  then show ?thesis by (simp add: mhi_fw_load_amss_def Let_def)
next
  case True
  let ?c1 = "program_vec BHIE_TXVECADDR_HIGH_OFFS BHIE_TXVECADDR_LOW_OFFS BHIE_TXVECSIZE_OFFS BHIE_TXVECDB_OFFS
    BHIE_TXVECDB_SEQNUM_BMSK BHIE_TXVECDB_SEQNUM_SHFT b (rnd AND BHIE_TXVECSTATUS_SEQNUM_BMSK) (bt_ctl st)"
  let ?read = "mhi_read_reg_field ?c1 (bhie ?c1) BHIE_TXVECSTATUS_OFFS BHIE_TXVECSTATUS_STATUS_BMSK BHIE_TXVECSTATUS_STATUS_SHFT"
  obtain ok l c2 where w: "wait_event (status_cond bhie BHIE_TXVECSTATUS_OFFS BHIE_TXVECSTATUS_STATUS_BMSK
      BHIE_TXVECSTATUS_STATUS_SHFT) es None ?c1 = (ok, l, c2)" by (metis prod_cases3)
  have "mmio ?c1 (bhie (bt_ctl st) + ucast BHIE_TXVECSTATUS_OFFS) = mmio (bt_ctl st) (bhie (bt_ctl st) + ucast BHIE_TXVECSTATUS_OFFS)"
    by (rule program_vec_mmio) (simp add: mhi_consts)
  then have rd: "(\<exists>e. ?read = Inl e) \<longleftrightarrow> link_down (bt_ctl st) \<and> mmio (bt_ctl st) (bhie (bt_ctl st) + ucast BHIE_TXVECSTATUS_OFFS) = U32_MAX"
    by (auto simp: mhi_read_reg_field_def mhi_read_reg_def Let_def)
  have n: "mhi_fw_load_amss rnd es b st = None \<longleftrightarrow> l = None \<and> \<not> MHI_PM_IN_ERROR_STATE (pm_state c2)"
    using True w by (auto simp: mhi_fw_load_amss_def Let_def split: option.splits)
  have "l = None \<and> c2 = ?c1" if "\<exists>e. ?read = Inl e" "\<not> MHI_PM_IN_ERROR_STATE (pm_state ?c1)"
    using w that by (cases es) (auto simp: status_cond_def Let_def)
  then show ?thesis using n rd True wait_status_None w by (metis program_vec_sel(1))
qed

text \<open>
  The first image: success exactly when, at the end of the wait, the status field says so and the controller is in no
  error state; a status still 0 is a timeout, the error status and an error state are EIO.
\<close>

theorem mhi_fw_load_sbl_result:
  assumes run: "mhi_fw_load_sbl es dma_addr sz c = Some (r, c')" and v: "MHI_REG_ACCESS_VALID (pm_state c)"
    and ok: "mhi_read_reg_field c' (bhi c') BHI_STATUS BHI_STATUS_MASK BHI_STATUS_SHIFT = Inr s"
  shows "r = (if MHI_PM_IN_ERROR_STATE (pm_state c') \<or> s = BHI_STATUS_ERROR then Inl EIO
              else if s = BHI_STATUS_SUCCESS then Inr () else Inl ETIMEDOUT)"
proof -
  obtain c8 b l where w: "wait_event (status_cond bhi BHI_STATUS BHI_STATUS_MASK BHI_STATUS_SHIFT) es None c8 = (b, l, c')"
    and r: "MHI_PM_IN_ERROR_STATE (pm_state c') \<and> r = Inl EIO \<or> \<not> MHI_PM_IN_ERROR_STATE (pm_state c') \<and>
      (\<exists>s. l = Some s \<and> r = (if s = BHI_STATUS_ERROR then Inl EIO else if s = BHI_STATUS_SUCCESS then Inr () else Inl ETIMEDOUT))"
    using run v by (auto simp: mhi_fw_load_sbl_def Let_def split: if_splits prod.splits option.splits)
  then show ?thesis using wait_status [OF w] ok by auto
qed

text \<open>
  Writing an image through the ioctl: once the image is loaded and the ready transition is done, the result is 0
  unless the controller is in an error state. So it is 0 also when the flash programmer never started, which is the
  case the message of the code calls a failure.
\<close>

theorem BhiWrite_without_programmer:
  assumes e: "ee (bt_ctl st) = MHI_EE_EDL" "bw_buf env = Some (b, d)" "bw_left env = 0"
    and l: "mhi_fw_load_sbl (bw_sbl_load env) d (of_nat (length img)) (bt_ctl st) = Some (Inr (), c2)"
    and r: "mhi_ready_state_transition (bw_ready env) (c2\<lparr>dev_state := MHI_STATE_RESET\<rparr>) = (Inr (), c3)"
    and w: "wait_event_timeout (\<lambda>c. ee c = MHI_EE_FP \<or> MHI_PM_IN_ERROR_STATE (pm_state c)) (bw_fp env) c3 = (ok, c4)"
  shows "\<exists>st'. BhiWrite env img st = Some (BhiVal (if MHI_PM_IN_ERROR_STATE (pm_state c4) then Suc (bw_jiffies env) else 0), st') \<and>
    bt_ctl st' = c4 \<and> bt_dma st' = (bt_dma st)(d := None)"
proof -
  have "ok = (ee c4 = MHI_EE_FP \<or> MHI_PM_IN_ERROR_STATE (pm_state c4))"
    using wait_event_timeout_result [of "\<lambda>c. ee c = MHI_EE_FP \<or> MHI_PM_IN_ERROR_STATE (pm_state c)" "bw_fp env" c3] w by simp
  then show ?thesis using e l r w by (auto simp: BhiWrite_def Let_def)
qed

text \<open>
  The device information: every field, the version, the serial number and the hashes included, is the execution
  environment register.
\<close>

theorem BhiRead_execenv:
  assumes "mhi_read_reg c (bhi c) BHI_EXECENV = Inr e"
  shows "BhiRead c =
     \<lparr>bhi_ver_minor = e, bhi_ver_major = e, bhi_image_address_low = e, bhi_image_address_high = e, bhi_image_size = e, bhi_rsvd1 = e,
      bhi_imgtxdb = e, bhi_rsvd2 = e, bhi_msivec = e, bhi_rsvd3 = e, bhi_ee = e, bhi_status = e, bhi_errorcode = e, bhi_errdbg1 = e,
      bhi_errdbg2 = e, bhi_errdbg3 = e, bhi_sernum = e, bhi_sblantirollbackver = e, bhi_numsegs = e, bhi_msmhwid = replicate 6 e,
      bhi_oempkhash = replicate 48 e, bhi_rsvd5 = e\<rparr>"
  using assms by (simp add: BhiRead_def bhi_read_reg_def map_replicate_const)

subsection \<open>Memory dumps\<close>

lemma rddm_prepare_loop_ok:
  assumes "k + m \<le> length bufs" "k + m \<le> length vec"
  shows "rddm_prepare_loop bufs [k..<k + m] vec =
    Some (take k vec @ map (\<lambda>b. \<lparr>ve_dma_addr = mb_dma_addr b, ve_size = mb_len b\<rparr>) (take m (drop k bufs)) @ drop (k + m) vec)"
  using assms
proof (induction m arbitrary: k vec)
  case 0
  then show ?case by simp
next
  case (Suc m)
  let ?v = "\<lparr>ve_dma_addr = mb_dma_addr (bufs ! k), ve_size = mb_len (bufs ! k)\<rparr>"
  have "[k..<k + Suc m] = k # [Suc k..<Suc k + m]" by (simp add: upt_conv_Cons)
  moreover have "drop k bufs = bufs ! k # drop (Suc k) bufs" using Suc.prems by (simp add: Cons_nth_drop_Suc)
  moreover have "take (Suc k) (vec[k := ?v]) = take k vec @ [?v]"
    using Suc.prems by (simp add: take_Suc_conv_app_nth)
  ultimately show ?case using Suc.IH [of "Suc k" "vec[k := ?v]"] Suc.prems by simp
qed

text \<open>
  Preparing a memory dump on a table as it was allocated: the vectors are the segments with their lengths, all but
  the last buffer, which holds the vectors.
\<close>

theorem mhi_rddm_prepare_vectors:
  assumes "length (ii_mhi_buf img) = unat (ii_entries img)" "Suc (length (ii_bhi_vec img)) = unat (ii_entries img)"
  shows "\<exists>img'. mhi_rddm_prepare img = Some img' \<and> ii_mhi_buf img' = ii_mhi_buf img \<and> ii_entries img' = ii_entries img \<and>
    ii_bhi_vec img' = map (\<lambda>b. \<lparr>ve_dma_addr = mb_dma_addr b, ve_size = mb_len b\<rparr>) (butlast (ii_mhi_buf img))"
proof -
  have u: "unat (ii_entries img - 1) = length (ii_bhi_vec img)"
    using assms(2) by (subst unat_diff_le) (auto simp: word_le_nat_alt)
  have "butlast (ii_mhi_buf img) = take (length (ii_bhi_vec img)) (ii_mhi_buf img)"
    using assms(1) assms(2) [symmetric] by (simp add: butlast_conv_take)
  then show ?thesis using rddm_prepare_loop_ok [of 0 "length (ii_bhi_vec img)" "ii_mhi_buf img" "ii_bhi_vec img"] assms u
    by (simp add: mhi_rddm_prepare_def)
qed

text \<open>
  A device that enters the dump mode at the last of the polls is reset all the same: the counter is 0 after the loop,
  as the code expects it only when all polls failed.
\<close>

theorem rddm_wait_last_poll:
  assumes "\<forall>i < k. mhi_get_exec_env ((delay ^^ i) c) \<noteq> MHI_EE_RDDM" "mhi_get_exec_env ((delay ^^ k) c) = MHI_EE_RDDM" "k < n"
  shows "fst (rddm_wait delay n c) = int (n - Suc k) \<and> (fst (rddm_wait delay n c) \<le> 0 \<longleftrightarrow> Suc k = n)"
  using assms
proof (induction n arbitrary: k c)
  case 0
  then show ?case by simp
next
  case step: (Suc n)
  show ?case
  proof (cases k)
    case 0
    then show ?thesis using step.prems by simp
  next
    case (Suc j)
    have "mhi_get_exec_env c \<noteq> MHI_EE_RDDM" using step.prems(1) Suc by (auto dest: spec [of _ 0])
    moreover have "mhi_get_exec_env ((delay ^^ i) (delay c)) \<noteq> MHI_EE_RDDM" if "i < j" for i
      using step.prems(1) Suc that by (auto simp: funpow_swap1 dest!: spec [of _ "Suc i"])
    moreover have "mhi_get_exec_env ((delay ^^ j) (delay c)) = MHI_EE_RDDM"
      using step.prems(2) Suc by (simp add: funpow_swap1)
    ultimately show ?thesis using step.IH [of j "delay c"] step.prems(3) Suc by auto
  qed
qed

end
