(* ===== verification/MHI_Examples.thy ===== *)
theory MHI_Examples
  imports MHI_Event MHI_DTR MHI_Boot
begin

text \<open>
  A small controller with one open outbound channel, one event ring and one command ring, and the
  properties of the MHI theories applied to it: each theorem here uses the property it is named
  after at a concrete state where the property's hypotheses hold.
\<close>

subsection \<open>The example state\<close>

definition demo_ring :: "u64 \<Rightarrow> u64 \<Rightarrow> 'e \<Rightarrow> 'e mhi_ring" where
  "demo_ring b rp e = (zero_ring e)\<lparr>ring_base := b, ring_iommu_base := b, ring_el_size := 16, ring_len := 64,
     ring_elements := 4, ring_rp := rp, ring_wp := b, ring_ctxt_rp := b, ring_ctxt_rbase := b\<rparr>"

lemma demo_ring_sel [simp]:
  "ring_base (demo_ring b rp e) = b" "ring_iommu_base (demo_ring b rp e) = b" "ring_el_size (demo_ring b rp e) = 16"
  "ring_len (demo_ring b rp e) = 64" "ring_elements (demo_ring b rp e) = 4" "ring_rp (demo_ring b rp e) = rp"
  "ring_wp (demo_ring b rp e) = b" "ring_ctxt_rp (demo_ring b rp e) = b" "ring_mem (demo_ring b rp e) a = e"
  by (simp_all add: demo_ring_def zero_ring_def)

lemma demo_wf [simp]:
  "ring_wf (demo_ring 0x1000 0x1030 e)" "ring_wf (demo_ring 0x2000 0x2030 e)"
  "ring_wf (demo_ring 0x3000 0x3000 e)" "ring_wf (demo_ring 0x3000 0x3030 e)"
  "ring_wf (demo_ring 0x4000 0x4030 e)" "ring_wf (demo_ring 0x4000 0x4020 e)"
  by (simp_all add: ring_wf_def ring_geom_def valid_ptr_def)

lemma demo_used [simp]:
  "ring_used (demo_ring 0x1000 0x1030 e) = 1" "ring_used (demo_ring 0x2000 0x2030 e) = 1"
  "ring_used (demo_ring 0x3000 0x3000 e) = 0" "ring_used (demo_ring 0x3000 0x3030 e) = 1"
  by (simp_all add: ring_used_def ring_idx_def)

lemma demo_list [simp]:
  "ring_list (demo_ring 0x1000 0x1030 e) = [e]" "ring_list (demo_ring 0x2000 0x2030 e) = [e]"
  "ring_list (demo_ring 0x3000 0x3000 e) = []" "ring_list (demo_ring 0x3000 0x3030 e) = [e]"
  by (simp_all add: ring_list_def)

lemma demo_not_full [simp]:
  "\<not> mhi_is_ring_full (demo_ring 0x1000 0x1030 e)" "\<not> mhi_is_ring_full (demo_ring 0x3000 0x3000 e)"
  by (simp_all add: mhi_is_ring_full_iff)

definition demo_chan :: mhi_chan where
  "demo_chan = zero_chan\<lparr>chan := 1, ch_dir := DMA_TO_DEVICE, ch_state := MHI_CH_STATE_ENABLED,
     ee_mask := 4, tre_ring := demo_ring 0x1000 0x1030 zero_tre, buf_ring := demo_ring 0x2000 0x2030 zero_buf_info\<rparr>"

lemma demo_chan_sel [simp]:
  "tre_ring demo_chan = demo_ring 0x1000 0x1030 zero_tre" "buf_ring demo_chan = demo_ring 0x2000 0x2030 zero_buf_info"
  "ch_state demo_chan = MHI_CH_STATE_ENABLED" "\<not> pre_alloc demo_chan" "\<not> offload_ch demo_chan" "chan demo_chan = 1"
  "ch_dir demo_chan = DMA_TO_DEVICE" "xfer_type demo_chan \<noteq> MHI_XFER_RSC_DMA" "ch_er_index demo_chan = 0"
  by (simp_all add: demo_chan_def zero_chan_def)

lemma demo_chan_sync [simp]: "chan_sync demo_chan"
  by (simp add: chan_sync_def)

definition demo_event :: mhi_event where
  "demo_event = zero_event\<lparr>ev_ring := demo_ring 0x4000 0x4030 zero_tre\<rparr>"

definition demo_ctrl :: mhi_controller where
  "demo_ctrl = (zero_controller (\<lambda>_. 0))\<lparr>mhi_chans := [zero_chan, demo_chan], mhi_events := [demo_event],
     mhi_cmd := demo_ring 0x3000 0x3000 zero_tre, pm_state := MHI_PM_M0, ee := MHI_EE_AMSS\<rparr>"

lemma demo_ctrl_sel [simp]:
  "mhi_chans demo_ctrl = [zero_chan, demo_chan]" "mhi_events demo_ctrl = [demo_event]"
  "mhi_cmd demo_ctrl = demo_ring 0x3000 0x3000 zero_tre" "pm_state demo_ctrl = MHI_PM_M0" "ee demo_ctrl = MHI_EE_AMSS"
  "\<not> link_down demo_ctrl" "regs demo_ctrl = 0" "trace demo_ctrl = []" "dev_wake demo_ctrl = 0" "mhi_tsync demo_ctrl = None"
  "chan_at demo_ctrl 1 = demo_chan" "chan_at demo_ctrl (Suc 0) = demo_chan" "ev_at demo_ctrl 0 = demo_event" "ev_ring demo_event = demo_ring 0x4000 0x4030 zero_tre"
  "dev_state demo_ctrl = 0"
  by (simp_all add: demo_ctrl_def zero_controller_def chan_at_def ev_at_def demo_event_def)

lemma demo_pm [simp]: "MHI_DB_ACCESS_VALID MHI_PM_M0" "\<not> MHI_PM_IN_ERROR_STATE MHI_PM_M0"
  "\<not> MHI_EVENT_ACCESS_INVALID MHI_PM_M0"
  by (simp_all add: pm_classes pm_consts)

definition demo_map :: dma_map_fn where
  "demo_map v len d = (v, False)"

subsection \<open>Rings and registers\<close>

theorem ring_fifo_witness:
  "ring_list (fold ring_put [zero_tre, zero_tre] (demo_ring 0x1000 0x1030 zero_tre)) = [zero_tre, zero_tre, zero_tre]"
  using ring_fifo [OF demo_wf(1), of _ "[zero_tre, zero_tre]" 0] by (simp del: fold_simps)

theorem get_nr_avail_ring_elements_exact_witness: "get_nr_avail_ring_elements (demo_ring 0x1000 0x1030 zero_tre) = 2"
  using get_nr_avail_ring_elements_exact [OF demo_wf(1), of zero_tre] by simp

theorem mhi_write_reg_field_readback_witness:
  "mhi_read_reg_field (mhi_write_reg_field 0 MHICTRL MHICTRL_MHISTATE_MASK MHICTRL_MHISTATE_SHIFT MHI_STATE_M3 demo_ctrl)
     0 MHICTRL MHICTRL_MHISTATE_MASK MHICTRL_MHISTATE_SHIFT = Inr MHI_STATE_M3"
  using mhi_write_reg_field_readback [OF demo_ctrl_sel(6), of MHICTRL_MHISTATE_MASK MHICTRL_MHISTATE_SHIFT MHI_STATE_M3 _ 0 MHICTRL]
  by (simp add: field_fits_def mhi_consts)

subsection \<open>Power states\<close>

theorem mhi_tryset_refines_documented_witness: "fst (mhi_tryset_pm_state MHI_PM_M3_ENTER demo_ctrl) = MHI_PM_M3_ENTER"
  using mhi_tryset_refines_documented [of demo_ctrl MHI_PM_M3_ENTER]
  by (simp add: pm_documented_iff pm_listed_def del: mhi_tryset_fst)

theorem handlers_pm_move_witness: "pm_move MHI_PM_M0 (pm_state (mhi_pm_m1_transition demo_ctrl))"
  using handlers_pm_move [of demo_ctrl] by simp

theorem m0_m3_transition_result_witness:
  "dev_state (snd (mhi_pm_m3_transition (demo_ctrl\<lparr>pm_state := MHI_PM_M3_ENTER\<rparr>))) = MHI_STATE_M3"
proof -
  have "pm_next MHI_PM_M3_ENTER MHI_PM_M3 = MHI_PM_M3"
    by (simp add: pm_next_def mhi_state_transitions_def pm_consts)
  then have "fst (mhi_pm_m3_transition (demo_ctrl\<lparr>pm_state := MHI_PM_M3_ENTER\<rparr>)) = Inr ()"
    by (simp add: mhi_pm_m3_transition_def Let_def case_prod_beta)
  then show ?thesis using m0_m3_transition_result [of "demo_ctrl\<lparr>pm_state := MHI_PM_M3_ENTER\<rparr>"] by simp
qed

theorem mhi_device_get_sync_m0_witness: "pm_state (snd (mhi_device_get_sync_ctrl [] demo_ctrl)) = MHI_PM_M0"
proof -
  have "mhi_device_get_sync_ctrl [] demo_ctrl = (Inr (), demo_ctrl)"
    by (simp add: mhi_device_get_sync_ctrl_def Let_def mhi_assert_dev_wake_def mhi_consts pm_classes)
  then show ?thesis using mhi_device_get_sync_m0 [of "[]" demo_ctrl "Inr ()" demo_ctrl] by simp
qed

lemma demo_suspend:
  "\<exists>c'. mhi_pm_suspend [] [\<lambda>c. snd (mhi_pm_m3_transition c)] (demo_ctrl\<lparr>dev_state := MHI_STATE_M0\<rparr>) = (Inr (), c')"
proof -
  have "pm_next MHI_PM_M0 MHI_PM_M3_ENTER = MHI_PM_M3_ENTER" "pm_next MHI_PM_M3_ENTER MHI_PM_M3 = MHI_PM_M3"
    by (simp_all add: pm_next_def mhi_state_transitions_def pm_consts)
  moreover have "MHI_PM_M0 \<noteq> MHI_PM_DISABLE" "\<not> MHI_PM_IN_ERROR_STATE MHI_PM_M3_ENTER" "\<not> MHI_PM_IN_ERROR_STATE MHI_PM_M3"
    "MHI_STATE_M0 \<noteq> MHI_STATE_M3" "MHI_STATE_M0 \<noteq> MHI_STATE_M2"
    by (simp_all add: pm_classes mhi_consts)
  ultimately show ?thesis
    by (simp add: mhi_pm_suspend_def mhi_assert_dev_wake_def mhi_pm_m3_transition_def Let_def case_prod_beta)
qed


theorem mhi_pm_resume_result_witness: "mhi_pm_resume [] (demo_ctrl\<lparr>pm_state := MHI_PM_DISABLE\<rparr>) = (Inr (), demo_ctrl\<lparr>pm_state := MHI_PM_DISABLE\<rparr>)"
  using mhi_pm_resume_result [of "[]" "demo_ctrl\<lparr>pm_state := MHI_PM_DISABLE\<rparr>" "fst (mhi_pm_resume [] (demo_ctrl\<lparr>pm_state := MHI_PM_DISABLE\<rparr>))"
      "snd (mhi_pm_resume [] (demo_ctrl\<lparr>pm_state := MHI_PM_DISABLE\<rparr>))"]
  by (simp add: prod_eq_iff)


subsection \<open>Setting up\<close>

definition demo_chan0 :: mhi_chan where
  "demo_chan0 = demo_chan\<lparr>ch_state := MHI_CH_STATE_DISABLED\<rparr>"

lemma demo_chan0_sel [simp]:
  "ch_state demo_chan0 = MHI_CH_STATE_DISABLED" "\<not> pre_alloc demo_chan0" "\<not> offload_ch demo_chan0"
  "ring_elements (tre_ring demo_chan0) = 4" "ring_elements (buf_ring demo_chan0) = 4" "chan demo_chan0 = 1"
  "ee_mask demo_chan0 = 4"
  by (simp_all add: demo_chan0_def demo_chan_def zero_chan_def)

definition demo_closed :: mhi_controller where
  "demo_closed = demo_ctrl\<lparr>mhi_chans := [zero_chan, demo_chan0], ctrl_seg := 0x10000\<rparr>"

lemma demo_closed_sel [simp]:
  "mhi_chans demo_closed = [zero_chan, demo_chan0]" "ctrl_seg demo_closed = 0x10000" "pm_state demo_closed = MHI_PM_M0"
  "chan_at demo_closed (Suc 0) = demo_chan0" "ee demo_closed = MHI_EE_AMSS" "dev_state demo_closed = 0"
  "mhi_cmd demo_closed = demo_ring 0x3000 0x3000 zero_tre" "mhi_tsync demo_closed = None"
  by (simp_all add: demo_closed_def chan_at_def)

lemma demo_space: "unat (ctrl_seg demo_closed + word_of_int (chan_ring_offset demo_chan0)) + 4 * 16 < 2 ^ 64"
proof -
  have "chan_ring_offset demo_chan0 = off_chan_ring + 16 * uint (ch_ring demo_chan0)"
    by (simp add: chan_ring_offset_def mhi_consts MHI_CLIENT_IP_HW_0_IN_def MHI_CLIENT_IP_HW_0_OUT_def MHI_CLIENT_DIAG_IN_def)
  then show ?thesis by (simp add: demo_chan0_def demo_chan_def zero_chan_def ctrl_seg_offsets mhi_consts)
qed

theorem mhi_init_chan_ctxt_wf_witness:
  "ring_wf (tre_ring (snd (mhi_init_chan_ctxt (Some 0x5000) demo_closed demo_chan0)))"
  using mhi_init_chan_ctxt_wf [of "0x5000" demo_closed demo_chan0 "fst (mhi_init_chan_ctxt (Some 0x5000) demo_closed demo_chan0)"
      "snd (mhi_init_chan_ctxt (Some 0x5000) demo_closed demo_chan0)" 4] demo_space
  by simp

theorem mhi_init_mmio_registers_witness: "fst (mhi_init_mmio demo_ctrl) = Inr ()"
  using mhi_init_mmio_registers [OF demo_ctrl_sel(6), of "fst (mhi_init_mmio demo_ctrl)" "snd (mhi_init_mmio demo_ctrl)"] by simp

theorem mhi_init_irq_setup_error_witness:
  "irqs_held (trace (snd (mhi_init_irq_setup (\<lambda>_. None) (\<lambda>_. Some EBUSY) demo_ctrl))) = []"
proof -
  have s: "msi_irq_base demo_ctrl = 0" "msi_allocated demo_ctrl = 0" "\<not> offload_ev demo_event"
    by (simp_all add: demo_ctrl_def zero_controller_def demo_event_def zero_event_def)
  have "fst (mhi_init_irq_setup (\<lambda>_. None) (\<lambda>_. Some EBUSY) demo_ctrl) = Inl EBUSY"
    using s by (simp add: mhi_init_irq_setup_def)
  then show ?thesis
    using mhi_init_irq_setup_error [of "\<lambda>_. None" "\<lambda>_. Some EBUSY" demo_ctrl EBUSY
        "snd (mhi_init_irq_setup (\<lambda>_. None) (\<lambda>_. Some EBUSY) demo_ctrl)"] s
    by (simp add: irqs_held_def prod_eq_iff)
qed

subsection \<open>Transfers\<close>


theorem mhi_queue_buf_spec_witness: "fst (mhi_queue_buf demo_map 0x9000 100 MHI_EOT demo_chan demo_ctrl) = Inr ()"
  using mhi_queue_buf_spec [OF demo_chan_sync, of demo_map "0x9000" 100 MHI_EOT demo_ctrl
      "fst (mhi_queue_buf demo_map 0x9000 100 MHI_EOT demo_chan demo_ctrl)"
      "fst (snd (mhi_queue_buf demo_map 0x9000 100 MHI_EOT demo_chan demo_ctrl))"
      "snd (snd (mhi_queue_buf demo_map 0x9000 100 MHI_EOT demo_chan demo_ctrl))"]
  by (simp add: demo_map_def)

definition demo_tx_event :: mhi_tre where
  "demo_tx_event = \<lparr>tre_ptr = 0x1030, tre_dword0 = 0x02000064, tre_dword1 = 0x01220000\<rparr>"

theorem parse_xfer_event_completes_witness:
  "\<exists>ch' c'. parse_xfer_event demo_map demo_tx_event demo_chan demo_ctrl = Some (ch', c') \<and> ring_list (tre_ring ch') = []"
proof -
  have code: "completion_code (MHI_TRE_GET_EV_CODE demo_tx_event)"
    by (simp add: completion_code_def demo_tx_event_def MHI_TRE_GET_EV_CODE_def mhi_consts)
  have ptr: "MHI_TRE_GET_EV_PTR demo_tx_event = mhi_to_physical (tre_ring demo_chan)
      (ring_slot (tre_ring demo_chan) ((ring_idx (tre_ring demo_chan) (ring_rp (tre_ring demo_chan)) + 0) mod slots (tre_ring demo_chan)))"
    by (simp add: demo_tx_event_def MHI_TRE_GET_EV_PTR_def mhi_to_physical_def ring_slot_def ring_idx_def)
  from parse_xfer_event_completes [OF demo_chan_sync _ _ code _ _ ptr, of demo_map demo_ctrl]
  show ?thesis by (simp, blast)
qed

theorem mhi_reset_data_chan_spec_witness:
  "\<exists>ch' c'. mhi_reset_data_chan (demo_chan, demo_ctrl) = Some (ch', c') \<and>
     xfer_cbs (trace c') = xfer_cbs [] @ [(1, reset_result zero_buf_info)]"
  using mhi_reset_data_chan_spec [OF demo_chan_sync, of demo_ctrl] by auto

theorem mhi_send_cmd_spec_witness: "fst (mhi_send_cmd 1 MHI_CMD_START_CHAN demo_ctrl) = Inr ()"
  using mhi_send_cmd_spec [of demo_ctrl 1 MHI_CMD_START_CHAN "fst (mhi_send_cmd 1 MHI_CMD_START_CHAN demo_ctrl)"
      "snd (mhi_send_cmd 1 MHI_CMD_START_CHAN demo_ctrl)"]
  by simp

theorem mhi_mark_stale_events_spec_witness: "\<exists>ev'. mhi_mark_stale_events 1 demo_event = Some ev'"
  using mhi_mark_stale_events_spec [of demo_event 1 1]
  by (simp add: mhi_to_virtual_def ring_slot_def ring_idx_def) blast

subsection \<open>Opening and closing channels\<close>

definition demo_complete :: "mhi_controller \<Rightarrow> mhi_controller" where
  "demo_complete c = chan_put 1 ((chan_at c 1)\<lparr>ch_completion := 1, ch_ccs := MHI_EV_CC_SUCCESS\<rparr>) c"

lemma demo_complete_keeps: "env_keeps 1 [demo_complete]"
proof -
  have "chan_same (chan_at c 1) (chan_at (demo_complete c) 1)" for c
  proof (cases "1 < length (mhi_chans c)")
    case True
    then show ?thesis by (auto simp: demo_complete_def chan_same_def)
  next
    case False
    then show ?thesis by (simp add: demo_complete_def chan_put_def chan_at_def list_update_beyond)
  qed
  then show ?thesis by (simp add: env_keeps_def demo_complete_def)
qed

definition demo_prep :: prep_env where
  "demo_prep = \<lparr>pe_buf = Some 0x5000, pe_wait = [demo_complete], pe_kmalloc = (\<lambda>_. None), pe_dma = demo_map,
     pe_wait_cleanup = []\<rparr>"

lemma demo_prepare: "\<exists>c'. mhi_prepare_channel demo_prep 1 demo_closed = Some (Inr (), c')"
proof -
  have "BIT (unat MHI_EE_AMSS) AND 4 \<noteq> 0" by (simp add: BIT_def mhi_consts) 
  moreover have "get_nr_avail_ring_elements (demo_ring 0x3000 0x3000 zero_tre) = 3"
    by (simp add: get_nr_avail_ring_elements_eq)
  moreover have "dev_state demo_closed \<noteq> MHI_STATE_M2" by (simp add: mhi_consts)
  moreover have "Suc 0 \<noteq> COMPLETE_ALL" by (simp add: COMPLETE_ALL_def)
  ultimately show ?thesis
    by (simp add: mhi_prepare_channel_def demo_prep_def mhi_init_chan_ctxt_def Let_def mhi_send_cmd_def
        mhi_assert_dev_wake_def wait_chan_completion_def demo_complete_def prep_finish_def chan_at_def chan_put_def
        mhi_ring_cmd_db_def case_prod_beta)
qed

theorem mhi_prepare_channel_ok_witness:
  "\<exists>c'. mhi_prepare_channel demo_prep 1 demo_closed = Some (Inr (), c') \<and> ch_state (chan_at c' 1) = MHI_CH_STATE_ENABLED"
proof -
  obtain c' where c': "mhi_prepare_channel demo_prep 1 demo_closed = Some (Inr (), c')" using demo_prepare by blast
  then show ?thesis
    using mhi_prepare_channel_ok [OF c', of "0x5000" 4] demo_complete_keeps demo_space by (simp add: demo_prep_def)
qed

theorem mhi_prepare_channel_error_witness:
  "\<exists>c'. mhi_prepare_channel (demo_prep\<lparr>pe_buf := None\<rparr>) 1 demo_closed = Some (Inl ENOMEM, c') \<and>
    ch_state (chan_at c' 1) = MHI_CH_STATE_DISABLED"
proof -
  have "BIT (unat MHI_EE_AMSS) AND 4 \<noteq> 0" by (simp add: BIT_def mhi_consts) 
  then obtain c' where c': "mhi_prepare_channel (demo_prep\<lparr>pe_buf := None\<rparr>) 1 demo_closed = Some (Inl ENOMEM, c')"
    by (simp add: mhi_prepare_channel_def mhi_init_chan_ctxt_def Let_def)
  then show ?thesis
    using mhi_prepare_channel_error [OF c'] demo_complete_keeps by (simp add: demo_prep_def)
qed

theorem mhi_unprepare_channel_closes_witness:
  "\<exists>c'. mhi_unprepare_channel [] 1 demo_ctrl = Some c' \<and> ch_state (chan_at c' 1) = MHI_CH_STATE_DISABLED"
proof -
  have "er_sound (mhi_events demo_ctrl ! unat (ch_er_index (chan_at demo_ctrl 1)))"
    by (simp add: er_sound_def mhi_to_virtual_def valid_ptr_def)
  then show ?thesis
    using mhi_unprepare_channel_closes [of 1 demo_ctrl "[]"] by (auto simp: env_keeps_def er_env_def)
qed

subsection \<open>Events\<close>

lemma demo_pending: "ev_pending demo_ctrl 0 1"
  by (simp add: ev_pending_def Let_def ev_rings_def ev_dev_rp_def mhi_to_virtual_def ring_slot_def ring_idx_def)

theorem mhi_process_ctrl_ev_ring_consumes_witness:
  "\<exists>c'. mhi_process_ctrl_ev_ring demo_map True [] 0 demo_ctrl = Some (Inr 1, c')"
proof -
  have "pending_elements (ev_ring (ev_at demo_ctrl 0)) 1 = [zero_tre]"
    by (simp add: pending_elements_def)
  moreover have "ctrl_event demo_map True zero_tre demo_ctrl = Some (emit (WarnOn ''Unsupported ev type'') demo_ctrl)"
    by (simp add: ctrl_event_def MHI_TRE_GET_EV_TYPE_def zero_tre_def mhi_consts)
  ultimately show ?thesis
    using mhi_process_ctrl_ev_ring_consumes [OF demo_pending, of demo_map True] by simp
qed

definition demo_cmd_ctrl :: mhi_controller where
  "demo_cmd_ctrl = demo_ctrl\<lparr>mhi_cmd := demo_ring 0x3000 0x3030 (cmd_tre MHI_CMD_START_CHAN 1 0)\<rparr>"

theorem mhi_process_cmd_completion_delivers_witness:
  "\<exists>c'. mhi_process_cmd_completion \<lparr>tre_ptr = 0x3030, tre_dword0 = 0x01000000, tre_dword1 = 0x00210000\<rparr> demo_cmd_ctrl = Some c' \<and>
     ring_list (mhi_cmd c') = []"
  using mhi_process_cmd_completion_delivers [of demo_cmd_ctrl MHI_CMD_START_CHAN 1 0 "[]"
      "\<lparr>tre_ptr = 0x3030, tre_dword0 = 0x01000000, tre_dword1 = 0x00210000\<rparr>"]
  by (auto simp: demo_cmd_ctrl_def MHI_TRE_GET_EV_PTR_def mhi_to_physical_def)

definition demo_tsync :: mhi_timesync where
  "demo_tsync = \<lparr>ts_er_index = 0, ts_db = 0x6000, ts_time_reg = 0, ts_ccs = 0, ts_head = [], ts_locked = False, ts_completion = 0\<rparr>"

definition demo_tsync_ctrl :: mhi_controller where
  "demo_tsync_ctrl = demo_ctrl\<lparr>mhi_tsync := Some demo_tsync, mhi_events := [demo_event\<lparr>ev_ring := demo_ring 0x4000 0x4020 zero_tre\<rparr>]\<rparr>"

theorem tsync_lock_leak_witness:
  "mhi_process_tsync_event_ring [] 0 demo_tsync_ctrl = None"
proof -
  have s: "pm_state demo_tsync_ctrl = MHI_PM_M0" "mhi_events demo_tsync_ctrl = [demo_event\<lparr>ev_ring := demo_ring 0x4000 0x4020 zero_tre\<rparr>]"
    "mhi_tsync demo_tsync_ctrl = Some demo_tsync" "dev_state demo_tsync_ctrl = 0" "ts_head demo_tsync = []" "\<not> ts_locked demo_tsync"
    by (simp_all add: demo_tsync_ctrl_def demo_tsync_def)
  have p: "ev_pending demo_tsync_ctrl 0 (Suc (Suc 0))"
    by (simp add: s ev_pending_def Let_def ev_rings_def ev_dev_rp_def ev_at_def mhi_to_virtual_def ring_slot_def ring_idx_def)
  obtain d' where d': "tsync_event zero_tre demo_tsync_ctrl = Some d'" and "pm_state d' = MHI_PM_M0" "dev_state d' = 0"
    by (simp add: tsync_event_def s Let_def)
  then have "mhi_device_get_sync_ctrl [] d' = (Inr (), d')"
    by (simp add: mhi_device_get_sync_ctrl_def Let_def mhi_assert_dev_wake_def mhi_consts pm_classes)
  then show ?thesis
    using tsync_lock_leak [OF p _ d', of "[]"] \<open>pm_state d' = MHI_PM_M0\<close> s by simp
qed


subsection \<open>Modem control lines\<close>

definition demo_dtr :: dtr_sys where
  "demo_dtr = \<lparr>ds_ctl = demo_ctrl, ds_dtr_dev = None, ds_mtu = 20, ds_devs = [\<lparr>dc_ul_chan_id = 32, dc_tiocm = 0x40\<rparr>],
     ds_owner = (\<lambda>n. if n = 1 then Some 0 else None), ds_bufs = {}\<rparr>"

lemma demo_dtr_sel [simp]:
  "ds_ctl demo_dtr = demo_ctrl" "ds_devs demo_dtr = [\<lparr>dc_ul_chan_id = 32, dc_tiocm = 0x40\<rparr>]"
  "ds_owner demo_dtr n = (if n = 1 then Some 0 else None)"
  by (simp_all add: demo_dtr_def)

definition demo_result :: mhi_result where
  "demo_result = \<lparr>res_buf_addr = 0x7000, res_bytes_xferd = 20, res_dir = DMA_FROM_DEVICE, res_transaction_status = None\<rparr>"

theorem mhi_dtr_tiocmset_result_witness:
  "\<exists>r m st'. mhi_dtr_tiocmset demo_map (Some 0x9000) [mhi_dtr_dl_xfer_cb demo_map 0 (tiocmset_msg 1 0) demo_result, mhi_dtr_ul_xfer_cb 1 demo_result]
       1 0 6 demo_dtr = (r, m, st') \<and>
     host_lines (dc_tiocm (ds_devs st' ! 0)) = (if r = Inr () then 6 else 0)"
proof -
  let ?es = "[mhi_dtr_dl_xfer_cb demo_map 0 (tiocmset_msg 1 0) demo_result, mhi_dtr_ul_xfer_cb 1 demo_result]"
  obtain r m st' where run: "mhi_dtr_tiocmset demo_map (Some 0x9000) ?es 1 0 6 demo_dtr = (r, m, st')"
    by (metis prod_cases3)
  show ?thesis using mhi_dtr_tiocmset_result [OF _ dtr_callbacks_keep_host run] run
    by (simp add: host_lines_def tiocm_defs split: if_splits)
qed

theorem mhi_dtr_dl_xfer_cb_lines_witness:
  "host_lines (dc_tiocm (ds_devs (mhi_dtr_dl_xfer_cb demo_map 0 (tiocmset_msg 1 6) demo_result demo_dtr) ! 0)) = 0 \<and>
   dev_lines (dc_tiocm (ds_devs (mhi_dtr_dl_xfer_cb demo_map 0 (tiocmset_msg 1 6) demo_result demo_dtr) ! 0)) = 0x140"
  using mhi_dtr_dl_xfer_cb_lines [of demo_dtr 0 demo_map 0 "tiocmset_msg 1 6" demo_result]
  by (simp add: host_lines_def dev_lines_def tiocm_defs ctrl_msg_defs tiocmset_msg_def CTRL_GET_CHID_def sizeof_dtr_msg_def
      modem_lines_def demo_result_def)

theorem tiocmset_confirmed_witness:
  "\<exists>m st'. mhi_dtr_tiocmset demo_map (Some 0x9000) [mhi_dtr_ul_xfer_cb 1 demo_result] 1 0 6 demo_dtr = (Inr (), m, st') \<and>
     host_lines (dc_tiocm (ds_devs st' ! 0)) = 6 \<and> dev_lines (dc_tiocm (ds_devs st' ! 0)) = 0x40"
  using tiocmset_confirmed [of demo_dtr 1 demo_map 0 6 demo_result "0x9000"]
  by (auto simp: tiocm_defs demo_map_def demo_result_def host_lines_def dev_lines_def)

theorem tiocmset_frees_queued_witness:
  "\<exists>m st'. mhi_dtr_tiocmset demo_map (Some 0x9000) [] 1 0 6 demo_dtr = (Inl EIO, m, st') \<and> 0x9000 \<notin> ds_bufs st' \<and>
     (\<exists>bi \<in> set (ring_list (buf_ring (chan_at (ds_ctl st') 1))). cb_buf bi = 0x9000)"
  using tiocmset_frees_queued [of demo_dtr 1 demo_map 0 6 "0x9000"]
  by (simp add: tiocm_defs demo_map_def)

subsection \<open>Firmware loading\<close>

definition demo_boot :: boot_sys where
  "demo_boot = \<lparr>bt_ctl = demo_ctrl\<lparr>ee := MHI_EE_PBL, bhi := 0x500, bhie := 0x600\<rparr>, bt_dma = Map.empty, bt_kmem = 0, bt_fbc_image = None, bt_rddm_image = None, bt_sequence_id = 0,
     bt_fbc_download = True, bt_sbl_size = 3, bt_seg_len = 4, bt_timeout_ms = 1000, bt_fw_image = Some ''fw'', bt_edl_image = None\<rparr>"

definition demo_table :: table_alloc where
  "demo_table = \<lparr>ta_info = True, ta_array = True, ta_segment = (\<lambda>i. Some (0, 0x10000 + 0x1000 * of_nat i))\<rparr>"

definition demo_fw :: "u8 list" where "demo_fw = [1, 2, 3, 4, 5, 6, 7, 8, 9, 10]"

lemma demo_boot_sel [simp]:
  "bt_seg_len demo_boot = 4" "bt_dma demo_boot = Map.empty" "bt_kmem demo_boot = 0" "bt_fbc_image demo_boot = None"
  "bt_ctl demo_boot = demo_ctrl\<lparr>ee := MHI_EE_PBL, bhi := 0x500, bhie := 0x600\<rparr>"
  by (simp_all add: demo_boot_def)

lemma demo_table_sel [simp]: "ta_info demo_table" "ta_array demo_table" "ta_segment demo_table i = Some (0, 0x10000 + 0x1000 * of_nat i)"
  by (simp_all add: demo_table_def)

lemma demo_segments: "table_segments 10 4 = 4"
  using table_segments_exact [of 4 10] by simp

lemma demo_table_ok:
  obtains img st where "mhi_alloc_bhie_table demo_table 10 demo_boot = Some (Inr img, st)" "length (ii_mhi_buf img) = 4"
  by (simp add: mhi_alloc_bhie_table_def Let_def demo_segments upt_rec)

lemma demo_range: "{..<4} = {0, 1, 2, 3 :: nat}"
  by auto

theorem firmware_image_roundtrip_witness:
  "\<exists>img0 st1 img st2. mhi_alloc_bhie_table demo_table 10 demo_boot = Some (Inr img0, st1) \<and>
     mhi_firmware_copy demo_fw img0 st1 = Some (img, st2) \<and> concat (map (dma_read (bt_dma st2)) (ii_bhi_vec img)) = demo_fw \<and>
     length (ii_bhi_vec img) + 1 = unat (ii_entries img)"
proof -
  obtain img0 st1 where al: "mhi_alloc_bhie_table demo_table 10 demo_boot = Some (Inr img0, st1)" and l: "length (ii_mhi_buf img0) = 4"
    by (rule demo_table_ok)
  have i: "inj_on (\<lambda>i. snd (the (ta_segment demo_table i))) {..<length (ii_mhi_buf img0)}"
    by (simp add: l demo_range)
  have "\<exists>img st2. mhi_firmware_copy demo_fw img0 st1 = Some (img, st2) \<and>
    concat (map (dma_read (bt_dma st2)) (ii_bhi_vec img)) = demo_fw \<and>
    length (ii_bhi_vec img) + 1 = unat (ii_entries img) \<and> length (ii_mhi_buf img) = unat (ii_entries img) \<and>
    (\<forall>v \<in> set (ii_bhi_vec img). ve_size v \<le> bt_seg_len demo_boot)"
    by (rule firmware_image_roundtrip [OF _ i]) (simp_all add: al demo_fw_def)
  then show ?thesis using al by blast
qed

definition demo_fw_env :: fw_env where
  "demo_fw_env = \<lparr>fe_pbl = [], fe_request = (\<lambda>_. Some demo_fw), fe_buf = Some (0, 0x8000),
     fe_sbl_load = [\<lambda>c. c\<lparr>mmio := (mmio c)(0x52C := 0x80000000)\<rparr>], fe_table = demo_table, fe_ready = [], fe_sbl = [], fe_rnd = 7, fe_amss = []\<rparr>"

lemma demo_fw_env_sel [simp]: "fe_buf demo_fw_env = Some (0, 0x8000)" "fe_table demo_fw_env = demo_table"
  by (simp_all add: demo_fw_env_def)


lemma demo_mmio [simp]: "mmio demo_ctrl a = 0"
  by (simp add: demo_ctrl_def zero_controller_def)

theorem mhi_fw_load_amss_result_witness:
  "\<exists>st'. mhi_fw_load_amss 7 [\<lambda>c. c\<lparr>mmio := (mmio c)(0x644 := 0x80000000)\<rparr>] \<lparr>mb_buf = 0, mb_dma_addr = 0x9000, mb_len = 48\<rparr> demo_boot = Some (Inr (), st') \<and>
    mhi_read_reg_field (bt_ctl st') (bhie (bt_ctl st')) BHIE_TXVECSTATUS_OFFS BHIE_TXVECSTATUS_STATUS_BMSK
        BHIE_TXVECSTATUS_STATUS_SHFT = Inr BHIE_TXVECSTATUS_STATUS_XFER_COMPL"
proof -
  let ?es = "[\<lambda>c. c\<lparr>mmio := (mmio c)(0x644 := 0x80000000)\<rparr>]" and ?b = "\<lparr>mb_buf = 0, mb_dma_addr = 0x9000, mb_len = 48\<rparr>"
  have "\<exists>st'. mhi_fw_load_amss 7 ?es ?b demo_boot = Some (Inr (), st')"
    by (simp add: mhi_fw_load_amss_def program_vec_def status_cond_def mhi_read_reg_field_def mhi_read_reg_def
        mhi_write_reg_field_def mhi_consts Let_def pm_classes pm_consts U32_MAX_def)
  then obtain st' where run: "mhi_fw_load_amss 7 ?es ?b demo_boot = Some (Inr (), st')" by blast
  then show ?thesis using mhi_fw_load_amss_result [OF run] by simp
qed

text \<open>The flash programmer does not start: the device loads the image and becomes ready, but stays in its environment.\<close>

definition demo_edl :: boot_sys where
  "demo_edl = demo_boot\<lparr>bt_ctl := demo_ctrl\<lparr>ee := MHI_EE_EDL, bhi := 0x500, bhie := 0x600, pm_state := MHI_PM_POR, regs := 0x1000\<rparr>\<rparr>"

definition demo_write_env :: bhi_write_env where
  "demo_write_env = \<lparr>bw_buf = Some (0, 0x8000), bw_left = 0, bw_sbl_load = [\<lambda>c. c\<lparr>mmio := (mmio c)(0x52C := 0x80000000)\<rparr>],
     bw_ready = [\<lambda>c. c\<lparr>mmio := (mmio c)(0x1048 := 1)\<rparr>], bw_fp = [], bw_jiffies = 0\<rparr>"

lemma demo_edl_loads:
  obtains c2 where "mhi_fw_load_sbl (bw_sbl_load demo_write_env) 0x8000 2 (bt_ctl demo_edl) = Some (Inr (), c2)"
    "ee c2 = MHI_EE_EDL" "pm_state c2 = MHI_PM_POR" "\<not> link_down c2" "mmio c2 0x1048 = 0" "mmio c2 0x1038 = 0" "regs c2 = 0x1000"
    "mhi_chans c2 = mhi_chans demo_ctrl" "mhi_events c2 = mhi_events demo_ctrl"
  by (simp add: mhi_fw_load_sbl_def status_cond_def mhi_read_reg_field_def mhi_read_reg_def demo_edl_def demo_write_env_def
        mhi_write_reg_field_def mhi_consts Let_def pm_classes pm_consts U32_MAX_def)

lemma mhi_init_mmio_up: "\<not> link_down c \<Longrightarrow> fst (mhi_init_mmio c) = Inr ()"
  by (simp add: mhi_init_mmio_def Let_def mhi_read_reg_field_def mhi_read_reg_def)

lemma pm_next_POR: "pm_next MHI_PM_POR MHI_PM_POR = MHI_PM_POR"
  by code_simp

lemma demo_edl_ready:
  assumes c: "pm_state c2 = MHI_PM_POR" "\<not> link_down c2" "mmio c2 0x1048 = 0" "mmio c2 0x1038 = 0" "regs c2 = 0x1000"
  obtains c3 where "mhi_ready_state_transition (bw_ready demo_write_env) (c2\<lparr>dev_state := MHI_STATE_RESET\<rparr>) = (Inr (), c3)" "pm_state c3 = MHI_PM_POR"
proof -
  let ?d = "c2\<lparr>dev_state := MHI_STATE_RESET, mmio := (mmio c2)(0x1048 := 1)\<rparr>"
  have w: "wait_event ready_cond (bw_ready demo_write_env) (1, 0) (c2\<lparr>dev_state := MHI_STATE_RESET\<rparr>) = (True, (0, 1), ?d)"
    using c by (simp add: ready_cond_def demo_write_env_def Let_def mhi_read_reg_field_def mhi_read_reg_def mhi_consts U32_MAX_def pm_classes)
  obtain r c4 where i: "mhi_init_mmio (?d\<lparr>pm_state := MHI_PM_POR, dev_state := MHI_STATE_READY\<rparr>) = (r, c4)" by fastforce
  have r: "r = Inr ()" using mhi_init_mmio_up [of "?d\<lparr>pm_state := MHI_PM_POR, dev_state := MHI_STATE_READY\<rparr>"] i c(2) by simp
  have f: "\<not> MHI_PM_IN_FATAL_STATE MHI_PM_POR" "MHI_REG_ACCESS_VALID MHI_PM_POR" by (simp_all add: pm_classes pm_consts)
  have t: "mhi_tryset_pm_state MHI_PM_POR ?d = (MHI_PM_POR, ?d\<lparr>pm_state := MHI_PM_POR\<rparr>)"
    using c(1) by (simp add: mhi_tryset_pm_state_def pm_next_POR)
  show thesis using mhi_init_mmio_frame [OF i] f
    by (intro that [of "mhi_set_mhi_state MHI_STATE_M0 (for_events ready_event c4)"])
      (auto simp: mhi_ready_state_transition_def w c(1) i [simplified] r t)
qed

theorem BhiWrite_without_programmer_witness:
  "\<exists>st'. BhiWrite demo_write_env [1, 2] demo_edl = Some (BhiVal 0, st') \<and> pm_state (bt_ctl st') = MHI_PM_POR"
proof -
  obtain c2 where l: "mhi_fw_load_sbl (bw_sbl_load demo_write_env) 0x8000 2 (bt_ctl demo_edl) = Some (Inr (), c2)"
    and c: "pm_state c2 = MHI_PM_POR" "\<not> link_down c2" "mmio c2 0x1048 = 0" "mmio c2 0x1038 = 0" "regs c2 = 0x1000"
    by (rule demo_edl_loads)
  obtain c3 where r: "mhi_ready_state_transition (bw_ready demo_write_env) (c2\<lparr>dev_state := MHI_STATE_RESET\<rparr>) = (Inr (), c3)"
    and p: "pm_state c3 = MHI_PM_POR" by (rule demo_edl_ready [OF c])
  have n: "\<not> MHI_PM_IN_ERROR_STATE MHI_PM_POR" by (simp add: pm_classes pm_consts)
  have "\<exists>st'. BhiWrite demo_write_env [1, 2] demo_edl = Some (BhiVal (if MHI_PM_IN_ERROR_STATE (pm_state c3) then Suc (bw_jiffies demo_write_env) else 0), st') \<and>
    bt_ctl st' = c3 \<and> bt_dma st' = (bt_dma demo_edl)(0x8000 := None)"
    by (rule BhiWrite_without_programmer [OF _ _ _ _ r]) (simp_all add: l, simp_all add: demo_edl_def demo_write_env_def)
  then show ?thesis using p n by auto
qed

end
