(* ===== verification/MHI_Uci.thy ===== *)
theory MHI_Uci
  imports MHI_Chan
begin

text \<open>
  The character devices (\<^verbatim>\<open>pcie_mhi/src/devices/mhi_uci.c\<close>): user space reads and writes the channels of the modem
  (DUN, QMI, MBIM, DIAG, ...) through file operations, on top of the transfers of the core.

  The receive buffers form a cycle: one more buffer than the ring has descriptors, filled by the device in order and
  handed back in order. The lemmas show that this order is kept for all interleavings of completions and reads, so
  that the check of the receive callback never fails; that what is read is what was received and what is written is
  what is queued; and where the code breaks its own rules: a rejected transfer, a failed open and the removal of the
  device.

  \<open>ud_uci_buf\<close> is the array of receive buffers; its entries are \<open>None\<close> where \<^verbatim>\<open>kmalloc_array\<close> left them uninitialised,
  and the array is \<open>Dangling\<close> after it was freed without clearing the pointer. The packets user space waits for are
  entries of the array or copies. Allocations, the bytes that \<^verbatim>\<open>copy_to_user\<close> and \<^verbatim>\<open>copy_from_user\<close> fail to copy, signals and
  what happens during a sleep are arguments; \<open>None\<close> as a result is a sleep that does not end or an access to memory
  that is not there.
\<close>

subsection \<open>State\<close>

record uci_buf =
  ub_page :: bool
  ub_data :: u64
  ub_len :: u64
  ub_nr_trb :: u32
  ub_bytes :: "u8 list"

datatype uci_bufs = NoBufs | Bufs "uci_buf option list" | Dangling

datatype uci_pkt = PageBuf nat | TmpBuf "u8 list"

record uci_dev =
  ud_ctl :: mhi_controller
  ud_mhi_dev :: mhi_device
  ud_dl_chan_id :: u32
  ud_alive :: bool
  ud_listed :: bool
  ud_minor :: nat
  ud_minors :: "nat set"
  ud_enabled :: bool
  ud_ref_count :: int
  ud_mtu :: u64
  ud_rx_error :: u32
  ud_rp_trb :: u32
  ud_wp_trb :: u32
  ud_nr_trbs :: u32
  ud_uci_buf :: uci_bufs
  ud_pages :: nat
  ud_pending :: "uci_pkt list"
  ud_cur_buf :: "uci_pkt option"
  ud_rx_size :: u64
  ud_bytes_xferd :: u64
  ud_queue_inbound :: bool
  ud_termios :: u64
  ud_kbufs :: "u64 set"
  ud_sent :: "(u8 list \<times> u32) list"

definition MHI_CLIENT_DUN_IN :: u32 where "MHI_CLIENT_DUN_IN = 33"
definition MHI_CLIENT_QMI_IN :: u32 where "MHI_CLIENT_QMI_IN = 15"
definition MHI_CLIENT_MBIM_IN :: u32 where "MHI_CLIENT_MBIM_IN = 13"
definition MAX_UCI_DEVICES :: nat where "MAX_UCI_DEVICES = 64"

text \<open>The result of a file operation: an error number, or a count.\<close>

datatype uci_ret = UErr errno | UVal nat

text \<open>Transfers of these channels go through \<^verbatim>\<open>mhi_queue_buf\<close>.\<close>

definition mhi_queue_transfer :: "dma_map_fn \<Rightarrow> nat \<Rightarrow> u64 \<Rightarrow> u64 \<Rightarrow> u32 \<Rightarrow> mhi_controller \<Rightarrow> unit res \<times> mhi_controller" where
  "mhi_queue_transfer dma_map n buf len flags c =
     (let (r, ch, c') = mhi_queue_buf dma_map buf len flags (chan_at c n) c in (r, chan_put n ch c'))"

definition trb_next :: "u32 \<Rightarrow> u32 \<Rightarrow> u32" where
  "trb_next nr trb = (let w = trb + 1 in if w = nr then 0 else w)"

definition buf_at :: "uci_buf option list \<Rightarrow> u32 \<Rightarrow> uci_buf option" where
  "buf_at bs i = (if unat i < length bs then bs ! unat i else None)"

subsection \<open>Receiving\<close>

text \<open>The loops that hand buffers to the device; \<open>put\<close> queues one.\<close>

fun queue_fill ::
  "(u64 \<Rightarrow> 'c \<Rightarrow> unit res \<times> 'c) \<Rightarrow> uci_buf option list \<Rightarrow> u32 \<Rightarrow> nat \<Rightarrow> unit res \<Rightarrow> u32 \<Rightarrow> 'c \<Rightarrow> (unit res \<times> u32 \<times> 'c) option" where
  "queue_fill put bs nr 0 ret wp c = Some (ret, wp, c)"
| "queue_fill put bs nr (Suc k) ret wp c =
     (case buf_at bs wp of
        None \<Rightarrow> None
      | Some b \<Rightarrow>
          (case put (ub_data b) c of
             (Inl e, c') \<Rightarrow> Some (Inl e, wp, c')
           | (Inr _, c') \<Rightarrow> queue_fill put bs nr k (Inr ()) (trb_next nr wp) c'))"

text \<open>The initialisation of the array; the entry whose page cannot be allocated has the page pointer 0.\<close>

fun init_bufs :: "(nat \<Rightarrow> u64 option) \<Rightarrow> nat \<Rightarrow> nat \<Rightarrow> bool \<times> uci_buf option list" where
  "init_bufs pages i 0 = (True, [])"
| "init_bufs pages i (Suc k) =
     (case pages i of
        None \<Rightarrow> (False, Some \<lparr>ub_page = False, ub_data = 0, ub_len = 0, ub_nr_trb = 0, ub_bytes = []\<rparr> # replicate k None)
      | Some a \<Rightarrow>
          (let (ok, bs) = init_bufs pages (Suc i) k
           in (ok, Some \<lparr>ub_page = True, ub_data = a, ub_len = 0, ub_nr_trb = of_nat i, ub_bytes = []\<rparr> # bs)))"

definition page_count :: "uci_buf option list \<Rightarrow> nat" where
  "page_count bs = length (filter (\<lambda>b. case b of Some x \<Rightarrow> ub_page x | None \<Rightarrow> False) bs)"

definition uci_free_descriptors :: "nat \<Rightarrow> uci_dev \<Rightarrow> nat" where
  "uci_free_descriptors n st = nat (mhi_get_no_free_descriptors (chan_at (ud_ctl st) n))"

definition uci_fill :: "dma_map_fn \<Rightarrow> nat \<Rightarrow> nat \<Rightarrow> unit res \<Rightarrow> uci_dev \<Rightarrow> (unit res \<times> uci_dev) option" where
  "uci_fill dma_map n k ret st =
     (case ud_uci_buf st of
        Bufs bs \<Rightarrow>
          (case queue_fill (\<lambda>a. mhi_queue_transfer dma_map n a (ud_mtu st) MHI_EOT) bs (ud_nr_trbs st) k ret (ud_wp_trb st) (ud_ctl st) of
             None \<Rightarrow> None
           | Some (r, wp, c) \<Rightarrow> Some (r, st\<lparr>ud_wp_trb := wp, ud_ctl := c\<rparr>))
      | _ \<Rightarrow> if k = 0 then Some (ret, st) else None)"

text \<open>\<open>arr\<close>: the array can be allocated; \<open>n\<close>: the inbound channel.\<close>

definition mhi_queue_inbound ::
  "dma_map_fn \<Rightarrow> bool \<Rightarrow> (nat \<Rightarrow> u64 option) \<Rightarrow> nat \<Rightarrow> uci_dev \<Rightarrow> (unit res \<times> uci_dev) option" where
  "mhi_queue_inbound dma_map arr pages n st =
     (let nr = uci_free_descriptors n st
      in if ud_uci_buf st = NoBufs
         then (let st1 = st\<lparr>ud_rp_trb := 0, ud_wp_trb := 0, ud_nr_trbs := of_nat (nr + 1)\<rparr>
               in if \<not> arr then Some (Inl ENOMEM, st1)
                  else (let (ok, bs) = init_bufs pages 0 (nr + 1);
                            st2 = st1\<lparr>ud_uci_buf := Bufs bs, ud_pages := ud_pages st1 + page_count bs\<rparr>
                        in if \<not> ok then Some (Inl ENOMEM, st2) else uci_fill dma_map n nr (Inl EIO) st2))
         else uci_fill dma_map n nr (Inl EIO) st)"

text \<open>The channels whose packets are copied, so that the buffer goes back at once.\<close>

definition copy_chan :: "u32 \<Rightarrow> bool" where
  "copy_chan dl \<longleftrightarrow> dl = MHI_CLIENT_DUN_IN \<or> dl = MHI_CLIENT_QMI_IN \<or> dl = MHI_CLIENT_MBIM_IN"

text \<open>\<open>tmp\<close>: a copy can be allocated; \<open>mem\<close>: what the device wrote into the buffer.\<close>

definition mhi_dl_xfer_cb ::
  "dma_map_fn \<Rightarrow> bool \<Rightarrow> nat \<Rightarrow> (nat \<Rightarrow> u8) \<Rightarrow> mhi_result \<Rightarrow> uci_dev \<Rightarrow> uci_dev option" where
  "mhi_dl_xfer_cb dma_map tmp n mem res st =
     (case ud_uci_buf st of
        Dangling \<Rightarrow> None
      | NoBufs \<Rightarrow> if ud_rp_trb st = 0 then Some st else None
      | Bufs bs \<Rightarrow>
          (let rp = ud_rp_trb st
           in case buf_at bs rp of
                None \<Rightarrow> None
              | Some b \<Rightarrow>
                  if ub_nr_trb b \<noteq> rp \<or> ub_data b \<noteq> res_buf_addr res then Some (st\<lparr>ud_rx_error := ud_rx_error st + 1\<rparr>)
                  else (let st1 = st\<lparr>ud_rp_trb := trb_next (ud_nr_trbs st) rp\<rparr>;
                            xferd = ucast (res_bytes_xferd res);
                            bytes = map mem [0..<unat (res_bytes_xferd res)]
                        in if res_transaction_status res = Some ENOTCONN then Some st1
                           else if ud_mtu st1 < xferd \<or> xferd = 0 then Some st1
                           else (let st2 = st1\<lparr>ud_bytes_xferd := max (ud_bytes_xferd st1) xferd,
                                              ud_uci_buf := Bufs (bs[unat rp := Some (b\<lparr>ub_len := xferd, ub_bytes := bytes\<rparr>)])\<rparr>
                                 in if \<not> copy_chan (ud_dl_chan_id st2)
                                    then Some (st2\<lparr>ud_pending := ud_pending st2 @ [PageBuf (unat rp)]\<rparr>)
                                    else (let skip = ud_ref_count st2 = 1 \<and> \<not> ud_queue_inbound st2;
                                              new = if skip \<or> \<not> tmp then [] else [TmpBuf bytes]
                                          in case (if ud_queue_inbound st2 then Some (Inr (), st2)
                                                   else uci_fill dma_map n (uci_free_descriptors n st2) (Inr ()) st2) of
                                               None \<Rightarrow> None
                                             | Some (_, st3) \<Rightarrow> Some (st3\<lparr>ud_pending := ud_pending st3 @ new\<rparr>))))))"

definition mhi_ul_xfer_cb :: "mhi_result \<Rightarrow> uci_dev \<Rightarrow> uci_dev" where
  "mhi_ul_xfer_cb res st = st\<lparr>ud_kbufs := ud_kbufs st - {res_buf_addr res}\<rparr>"

subsection \<open>File operations\<close>

text \<open>\<^verbatim>\<open>wait_event_interruptible\<close>: it ends when the condition holds or, with \<open>signal\<close>, after the last of the events.\<close>

fun wait_interruptible :: "('s \<Rightarrow> bool) \<Rightarrow> ('s \<Rightarrow> 's) list \<Rightarrow> bool \<Rightarrow> 's \<Rightarrow> (bool \<times> 's) option" where
  "wait_interruptible P [] signal s = (if P s then Some (True, s) else if signal then Some (False, s) else None)"
| "wait_interruptible P (e # es) signal s = (if P s then Some (True, s) else wait_interruptible P es signal (e s))"

definition pkt_bytes :: "uci_dev \<Rightarrow> uci_pkt \<Rightarrow> u8 list option" where
  "pkt_bytes st p =
     (case p of
        TmpBuf bytes \<Rightarrow> Some bytes
      | PageBuf i \<Rightarrow>
          (case ud_uci_buf st of
             Bufs bs \<Rightarrow> if i < length bs then map_option ub_bytes (bs ! i) else None
           | _ \<Rightarrow> None))"

text \<open>Handing the buffer before the one that was read back to the device, or freeing the copy.\<close>

definition recycle :: "dma_map_fn \<Rightarrow> nat \<Rightarrow> uci_pkt \<Rightarrow> uci_dev \<Rightarrow> (unit res \<times> uci_dev) option" where
  "recycle dma_map n p st =
     (case p of
        TmpBuf _ \<Rightarrow> Some (Inr (), st)
      | PageBuf i \<Rightarrow>
          (case ud_uci_buf st of
             Bufs bs \<Rightarrow>
               (case buf_at bs (of_nat i) of
                  None \<Rightarrow> None
                | Some b \<Rightarrow>
                    (let nr = if ub_nr_trb b \<noteq> 0 then ub_nr_trb b - 1 else ud_nr_trbs st - 1
                     in case buf_at bs nr of
                          None \<Rightarrow> None
                        | Some b' \<Rightarrow>
                            (let (r, c) = mhi_queue_transfer dma_map n (ub_data b') (ud_mtu st) MHI_EOT (ud_ctl st)
                             in Some (r, st\<lparr>ud_ctl := c\<rparr>))))
           | _ \<Rightarrow> None))"

text \<open>The part of the read after a packet is there: \<open>left\<close> bytes cannot be copied to user space.\<close>

definition uci_read_copy ::
  "dma_map_fn \<Rightarrow> nat \<Rightarrow> u64 \<Rightarrow> nat \<Rightarrow> uci_pkt \<Rightarrow> uci_dev \<Rightarrow> (uci_ret \<times> u8 list \<times> uci_dev) option" where
  "uci_read_copy dma_map n count left p st =
     (case pkt_bytes st p of
        None \<Rightarrow> None
      | Some bytes \<Rightarrow>
          (let to_copy = unat (min count (ud_rx_size st));
               off = length bytes - unat (ud_rx_size st);
               data = take to_copy (drop off bytes)
           in if left \<noteq> 0 then Some (UVal left, take (to_copy - left) data, st)
              else (let st1 = st\<lparr>ud_rx_size := ud_rx_size st - of_nat to_copy\<rparr>
                    in if ud_rx_size st1 \<noteq> 0 then Some (UVal to_copy, data, st1)
                       else (let st2 = st1\<lparr>ud_cur_buf := None\<rparr>
                             in if \<not> ud_enabled st2 then Some (UErr ERESTARTSYS, data, st2)
                                else (case recycle dma_map n p st2 of
                                        None \<Rightarrow> None
                                      | Some (Inl e, st3) \<Rightarrow> Some (UErr e, data, st3)
                                      | Some (Inr _, st3) \<Rightarrow> Some (UVal to_copy, data, st3))))))"

record read_env =
  re_null :: bool
  re_nonblock :: bool
  re_sleep :: "(uci_dev \<Rightarrow> uci_dev) list"
  re_signal :: bool
  re_left :: nat

definition mhi_uci_read ::
  "dma_map_fn \<Rightarrow> read_env \<Rightarrow> nat \<Rightarrow> u64 \<Rightarrow> uci_dev \<Rightarrow> (uci_ret \<times> u8 list \<times> uci_dev) option" where
  "mhi_uci_read dma_map env n count st =
     (if re_null env \<or> ud_rx_error st \<noteq> 0 then Some (UErr EINVAL, [], st)
      else if \<not> ud_enabled st then Some (UErr ERESTARTSYS, [], st)
      else (let must_wait = ud_cur_buf st = None \<and> ud_pending st = []
            in if must_wait \<and> re_nonblock env then Some (UErr EAGAIN, [], st)
               else (case (if must_wait then wait_interruptible (\<lambda>s. \<not> ud_enabled s \<or> ud_pending s \<noteq> []) (re_sleep env) (re_signal env) st
                           else Some (True, st)) of
                       None \<Rightarrow> None
                     | Some (woken, st1) \<Rightarrow>
                         if \<not> woken then Some (UErr ERESTARTSYS, [], st1)
                         else if must_wait \<and> \<not> ud_enabled st1 then Some (UErr ERESTARTSYS, [], st1)
                         else (case ud_cur_buf st1 of
                                 Some p \<Rightarrow> uci_read_copy dma_map n count (re_left env) p st1
                               | None \<Rightarrow>
                                   (case ud_pending st1 of
                                      [] \<Rightarrow> Some (UErr EIO, [], st1)
                                    | p # ps \<Rightarrow>
                                        (case pkt_bytes st1 p of
                                           None \<Rightarrow> None
                                         | Some bytes \<Rightarrow>
                                             uci_read_copy dma_map n count (re_left env) p
                                               (st1\<lparr>ud_pending := ps, ud_cur_buf := Some p, ud_rx_size := of_nat (length bytes)\<rparr>)))))))"

text \<open>One round of the write loop per element of the list: the sleep, the allocation and the copy of the chunk.\<close>

record write_round =
  wr_sleep :: "(uci_dev \<Rightarrow> uci_dev) list"
  wr_signal :: bool
  wr_kbuf :: "u64 option"
  wr_left :: nat

fun uci_write_loop ::
  "dma_map_fn \<Rightarrow> bool \<Rightarrow> nat \<Rightarrow> write_round list \<Rightarrow> u8 list \<Rightarrow> nat \<Rightarrow> uci_dev \<Rightarrow> (uci_ret \<times> uci_dev) option" where
  "uci_write_loop dma_map nonblock n rounds [] xfered st = Some (UVal xfered, st)"
| "uci_write_loop dma_map nonblock n [] (x # xs) xfered st = None"
| "uci_write_loop dma_map nonblock n (w # rounds) (x # xs) xfered st =
     (if uci_free_descriptors n st = 0 \<and> nonblock then Some (UErr EAGAIN, st)
      else (case wait_interruptible (\<lambda>s. \<not> ud_enabled s \<or> 0 < uci_free_descriptors n s) (wr_sleep w) (wr_signal w) st of
              None \<Rightarrow> None
            | Some (woken, st1) \<Rightarrow>
                if \<not> woken \<or> \<not> ud_enabled st1 then Some (UErr ERESTARTSYS, st1)
                else (let xfer_size = min (length (x # xs)) (unat (ud_mtu st1))
                      in case wr_kbuf w of
                           None \<Rightarrow> Some (UErr ENOMEM, st1)
                         | Some a \<Rightarrow>
                             if wr_left w \<noteq> 0 then Some (UVal (wr_left w), st1)
                             else (let flags = if 1 < uci_free_descriptors n st1 \<and> xfer_size < length (x # xs) then MHI_CHAIN else MHI_EOT;
                                       (r, c) = mhi_queue_transfer dma_map n a (of_nat xfer_size) flags (ud_ctl st1)
                                   in case r of
                                        Inl e \<Rightarrow> Some (UErr e, st1\<lparr>ud_ctl := c\<rparr>)
                                      | Inr _ \<Rightarrow>
                                          uci_write_loop dma_map nonblock n rounds (drop xfer_size (x # xs)) (xfered + xfer_size)
                                            (st1\<lparr>ud_ctl := c, ud_kbufs := insert a (ud_kbufs st1),
                                                ud_sent := ud_sent st1 @ [(take xfer_size (x # xs), flags)]\<rparr>)))))"

definition mhi_uci_write ::
  "dma_map_fn \<Rightarrow> bool \<Rightarrow> nat \<Rightarrow> write_round list \<Rightarrow> u8 list \<Rightarrow> uci_dev \<Rightarrow> (uci_ret \<times> uci_dev) option" where
  "mhi_uci_write dma_map nonblock n rounds data st =
     (if data = [] \<or> ud_rx_error st \<noteq> 0 then Some (UErr EINVAL, st)
      else if \<not> ud_enabled st then Some (UErr ERESTARTSYS, st)
      else uci_write_loop dma_map nonblock n rounds data 0 st)"

text \<open>
  The wrappers that take the mutex of the direction; \<open>locked\<close> is whether the lock was obtained before a signal. Their
  result is an \<^verbatim>\<open>int\<close>.
\<close>

definition uci_int :: "uci_ret \<Rightarrow> int + errno" where
  "uci_int r = (case r of UErr e \<Rightarrow> Inr e | UVal n \<Rightarrow> Inl (sint (of_nat n :: 32 word)))"

definition mhi_uci_read_mutex ::
  "dma_map_fn \<Rightarrow> bool \<Rightarrow> read_env \<Rightarrow> nat \<Rightarrow> u64 \<Rightarrow> uci_dev \<Rightarrow> ((int + errno) \<times> u8 list \<times> uci_dev) option" where
  "mhi_uci_read_mutex dma_map locked env n count st =
     (if \<not> locked then Some (Inr ERESTARTSYS, [], st)
      else case mhi_uci_read dma_map env n count st of None \<Rightarrow> None | Some (r, d, st') \<Rightarrow> Some (uci_int r, d, st'))"

definition mhi_uci_write_mutex ::
  "dma_map_fn \<Rightarrow> bool \<Rightarrow> bool \<Rightarrow> nat \<Rightarrow> write_round list \<Rightarrow> u8 list \<Rightarrow> uci_dev \<Rightarrow> ((int + errno) \<times> uci_dev) option" where
  "mhi_uci_write_mutex dma_map locked nonblock n rounds data st =
     (if \<not> locked then Some (Inr ERESTARTSYS, st)
      else case mhi_uci_write dma_map nonblock n rounds data st of None \<Rightarrow> None | Some (r, st') \<Rightarrow> Some (uci_int r, st'))"

definition POLLIN :: u32 where "POLLIN = 0x0001"
definition POLLOUT :: u32 where "POLLOUT = 0x0004"
definition POLLERR :: u32 where "POLLERR = 0x0008"
definition POLLHUP :: u32 where "POLLHUP = 0x0010"
definition POLLRDNORM :: u32 where "POLLRDNORM = 0x0040"
definition POLLWRNORM :: u32 where "POLLWRNORM = 0x0100"

lemmas poll_defs = POLLIN_def POLLOUT_def POLLERR_def POLLHUP_def POLLRDNORM_def POLLWRNORM_def

definition mhi_uci_poll :: "uci_dev \<Rightarrow> u32" where
  "mhi_uci_poll st =
     (let m0 = if \<not> ud_enabled st then POLLERR
               else if ud_pending st \<noteq> [] \<or> ud_cur_buf st \<noteq> None then POLLIN OR POLLRDNORM else 0
      in case ul_chan (ud_mhi_dev st) of
           None \<Rightarrow> m0
         | Some n \<Rightarrow>
             m0 OR (if \<not> ud_enabled st then POLLERR
                    else if 0 < uci_free_descriptors n st then POLLOUT OR POLLWRNORM else 0)
                OR (if \<not> ud_enabled st then POLLHUP else 0) OR (if ud_rx_error st \<noteq> 0 then POLLERR else 0))"

datatype uci_ioctl = TCGETS | TCSETS u64 nat | TCFLSH | OtherIoctl

text \<open>\<open>core\<close>: the result of \<^verbatim>\<open>mhi_ioctl\<close>; \<open>left\<close>: what \<^verbatim>\<open>copy_to_user\<close> leaves.\<close>

definition mhi_uci_ioctl :: "uci_ret \<Rightarrow> nat \<Rightarrow> uci_ioctl \<Rightarrow> uci_dev \<Rightarrow> uci_ret \<times> uci_dev" where
  "mhi_uci_ioctl core left cmd st =
     (if \<not> ud_enabled st then (UErr ERESTARTSYS, st)
      else case cmd of
             TCGETS \<Rightarrow> (UVal left, st)
           | TCSETS t missing \<Rightarrow> (UVal missing, if missing = 0 then st\<lparr>ud_termios := t\<rparr> else st)
           | TCFLSH \<Rightarrow> (UVal 0, st)
           | OtherIoctl \<Rightarrow> (core, st))"

subsection \<open>Opening, closing, adding and removing the device\<close>

text \<open>Freeing the pages and the array; the pointer to the array stays.\<close>

definition free_uci_bufs :: "uci_dev \<Rightarrow> uci_dev option" where
  "free_uci_bufs st =
     (case ud_uci_buf st of
        NoBufs \<Rightarrow> Some st
      | Dangling \<Rightarrow> None
      | Bufs bs \<Rightarrow>
          if None \<in> set (take (unat (ud_nr_trbs st)) bs) \<or> length bs < unat (ud_nr_trbs st) then None
          else Some (st\<lparr>ud_uci_buf := Dangling, ud_pages := ud_pages st - page_count bs\<rparr>))"

record open_env =
  oe_ul :: prep_env
  oe_dl :: prep_env
  oe_wait :: "(mhi_controller \<Rightarrow> mhi_controller) list"
  oe_array :: bool
  oe_pages :: "nat \<Rightarrow> u64 option"
  oe_stop_dl :: "(mhi_controller \<Rightarrow> mhi_controller) list"
  oe_stop_ul :: "(mhi_controller \<Rightarrow> mhi_controller) list"

definition mhi_uci_open :: "dma_map_fn \<Rightarrow> open_env \<Rightarrow> uci_dev \<Rightarrow> (unit res \<times> uci_dev) option" where
  "mhi_uci_open dma_map env st =
     (if \<not> ud_listed st then Some (Inl EIO, st)
      else if \<not> ud_enabled st then Some (Inl EIO, st)
      else (let st1 = st\<lparr>ud_ref_count := ud_ref_count st + 1\<rparr>
            in if ud_ref_count st1 \<noteq> 1 then Some (Inr (), st1)
               else (case mhi_prepare_for_transfer (oe_ul env) (oe_dl env) (oe_wait env) (ud_mhi_dev st1) (ud_ctl st1) of
                       None \<Rightarrow> None
                     | Some (Inl e, c) \<Rightarrow> Some (Inl e, st1\<lparr>ud_ref_count := ud_ref_count st1 - 1, ud_ctl := c\<rparr>)
                     | Some (Inr _, c) \<Rightarrow>
                         (case dl_chan (ud_mhi_dev st1) of
                            None \<Rightarrow> None
                          | Some n \<Rightarrow>
                              (case mhi_queue_inbound dma_map (oe_array env) (oe_pages env) n (st1\<lparr>ud_ctl := c, ud_queue_inbound := True\<rparr>) of
                                 None \<Rightarrow> None
                               | Some (Inr _, st2) \<Rightarrow> Some (Inr (), st2\<lparr>ud_queue_inbound := False, ud_ref_count := ud_ref_count st2 + 1\<rparr>)
                               | Some (Inl e, st2) \<Rightarrow>
                                   (case mhi_unprepare_from_transfer (oe_stop_dl env) (oe_stop_ul env) (ud_mhi_dev st2) (ud_ctl st2) of
                                      None \<Rightarrow> None
                                    | Some c' \<Rightarrow>
                                        (case free_uci_bufs (st2\<lparr>ud_queue_inbound := False, ud_ctl := c'\<rparr>) of
                                           None \<Rightarrow> None
                                         | Some st3 \<Rightarrow> Some (Inl e, st3))))))))"

definition mhi_uci_release ::
  "(mhi_controller \<Rightarrow> mhi_controller) list \<Rightarrow> (mhi_controller \<Rightarrow> mhi_controller) list \<Rightarrow> uci_dev \<Rightarrow> uci_dev option" where
  "mhi_uci_release es_dl es_ul st =
     (let st1 = st\<lparr>ud_ref_count := ud_ref_count st - 1\<rparr>
      in if ud_ref_count st1 \<noteq> 0 then Some st1
         else (case (if ud_enabled st1 then mhi_unprepare_from_transfer es_dl es_ul (ud_mhi_dev st1) (ud_ctl st1) else Some (ud_ctl st1)) of
                 None \<Rightarrow> None
               | Some c \<Rightarrow>
                   (case free_uci_bufs (st1\<lparr>ud_ctl := c\<rparr>) of
                      None \<Rightarrow> None
                    | Some st2 \<Rightarrow>
                        (let st3 = st2\<lparr>ud_cur_buf := None\<rparr>
                         in if ud_enabled st3 then Some st3
                            else Some (st3\<lparr>ud_minors := ud_minors st3 - {ud_minor st3}, ud_alive := False\<rparr>)))))"

definition mhi_uci_remove :: "uci_dev \<Rightarrow> uci_dev" where
  "mhi_uci_remove st =
     (let st1 = st\<lparr>ud_enabled := False, ud_listed := False\<rparr>;
          st2 = if 0 < ud_ref_count st1 then st1\<lparr>ud_ref_count := ud_ref_count st1 - 1\<rparr> else st1
      in if ud_ref_count st2 = 0 then st2\<lparr>ud_minors := ud_minors st2 - {ud_minor st2}, ud_alive := False\<rparr> else st2)"

text \<open>The first minor number that is free.\<close>

definition find_first_zero_bit :: "nat set \<Rightarrow> nat \<Rightarrow> nat" where
  "find_first_zero_bit used n = (case filter (\<lambda>i. i \<notin> used) [0..<n] of [] \<Rightarrow> n | i # _ \<Rightarrow> i)"

text \<open>\<open>alloc\<close>: the device structure can be allocated; \<open>max_mtu\<close> is \<^verbatim>\<open>id->driver_data\<close>.\<close>

definition mhi_uci_probe :: "bool \<Rightarrow> u64 \<Rightarrow> u64 \<Rightarrow> u64 \<Rightarrow> mhi_device \<Rightarrow> u32 \<Rightarrow> nat set \<Rightarrow> mhi_controller \<Rightarrow> uci_dev res" where
  "mhi_uci_probe alloc max_mtu dev_mtu std_termios dev dl_id minors c =
     (let m = find_first_zero_bit minors MAX_UCI_DEVICES
      in if \<not> alloc then Inl ENOMEM
         else if MAX_UCI_DEVICES \<le> m then Inl ENOSPC
         else Inr \<lparr>ud_ctl = c, ud_mhi_dev = dev, ud_dl_chan_id = dl_id, ud_alive = True, ud_listed = True, ud_minor = m,
                   ud_minors = insert m minors, ud_enabled = True, ud_ref_count = 0, ud_mtu = min max_mtu dev_mtu, ud_rx_error = 0,
                   ud_rp_trb = 0, ud_wp_trb = 0, ud_nr_trbs = 0, ud_uci_buf = NoBufs, ud_pages = 0, ud_pending = [], ud_cur_buf = None,
                   ud_rx_size = 0, ud_bytes_xferd = 0, ud_queue_inbound = False, ud_termios = std_termios, ud_kbufs = {}, ud_sent = []\<rparr>)"

definition mhi_uci_match_table :: "(string \<times> u64) list" where
  "mhi_uci_match_table =
     [(''LOOPBACK'', 0x1000), (''SAHARA'', 0x4000), (''EDL'', 0x4000), (''DIAG'', 8192), (''MBIM'', 0x1000), (''QMI0'', 0x1000),
      (''QMI1'', 0x1000), (''DUN'', 0x1000)]"

text \<open>
  The module: its character device number, its class and its driver. The arguments are what \<^verbatim>\<open>register_chrdev\<close>,
  \<^verbatim>\<open>class_create\<close> and \<^verbatim>\<open>mhi_driver_register\<close> return.
\<close>

record mhi_uci_drv =
  uv_major :: nat
  uv_chrdev :: bool
  uv_class :: bool
  uv_driver :: bool

definition mhi_device_uci_init :: "nat res \<Rightarrow> bool \<Rightarrow> unit res \<Rightarrow> mhi_uci_drv \<Rightarrow> unit res \<times> mhi_uci_drv" where
  "mhi_device_uci_init chrdev cls reg d =
     (case chrdev of
        Inl e \<Rightarrow> (Inl e, d)
      | Inr major \<Rightarrow>
          (let d1 = d\<lparr>uv_major := major, uv_chrdev := True\<rparr>
           in if \<not> cls then (Inl ENODEV, d1\<lparr>uv_chrdev := False\<rparr>)
              else (let d2 = d1\<lparr>uv_class := True\<rparr>
                    in case reg of
                         Inl e \<Rightarrow> (Inl e, d2\<lparr>uv_class := False, uv_chrdev := False\<rparr>)
                       | Inr _ \<Rightarrow> (Inr (), d2\<lparr>uv_driver := True\<rparr>))))"

definition mhi_device_uci_exit :: "mhi_uci_drv \<Rightarrow> mhi_uci_drv" where
  "mhi_device_uci_exit d = d\<lparr>uv_driver := False, uv_class := False, uv_chrdev := False\<rparr>"

subsection \<open>The transfer queue as the driver sees it\<close>

text \<open>What the driver relies on when it hands a buffer to the core: the buffer is appended, or nothing changes.\<close>

locale xfer_queue =
  fixes put :: "u64 \<Rightarrow> 'c \<Rightarrow> unit res \<times> 'c" and queued :: "'c \<Rightarrow> u64 list" and wf :: "'c \<Rightarrow> bool"
  assumes put_wf: "wf c \<Longrightarrow> put a c = (r, c') \<Longrightarrow> wf c'"
    and put_ok: "wf c \<Longrightarrow> put a c = (Inr u, c') \<Longrightarrow> queued c' = queued c @ [a]"
    and put_err: "wf c \<Longrightarrow> put a c = (Inl e, c') \<Longrightarrow> queued c' = queued c"
begin

lemma queue_fill_queued:
  assumes "wf c" and "queue_fill put bs nr k ret wp c = Some (r, wp', c')"
  shows "wf c' \<and> (\<exists>j \<le> k. wp' = (trb_next nr ^^ j) wp \<and> (\<forall>i < j. buf_at bs ((trb_next nr ^^ i) wp) \<noteq> None) \<and>
    queued c' = queued c @ map (\<lambda>i. ub_data (the (buf_at bs ((trb_next nr ^^ i) wp)))) [0..<j] \<and>
    (j = k \<or> (\<exists>e. r = Inl e)) \<and> (r = Inr () \<longrightarrow> j = k))"
  using assms
proof (induction k arbitrary: ret wp c)
  case 0
  then show ?case by simp
next
  case (Suc k)
  obtain b where b: "buf_at bs wp = Some b" using Suc.prems by (auto split: option.splits)
  obtain q c1 where q: "put (ub_data b) c = (q, c1)" by fastforce
  have w: "wf c1" by (rule put_wf [OF Suc.prems(1) q])
  show ?case
  proof (cases q)
    case (Inl e)
    then show ?thesis using Suc.prems b q w put_err [OF Suc.prems(1)] by (auto intro: exI [of _ 0])
  next
    case (Inr u)
    then have run: "queue_fill put bs nr k (Inr ()) (trb_next nr wp) c1 = Some (r, wp', c')" using Suc.prems b q by simp
    have q1: "queued c1 = queued c @ [ub_data b]" using put_ok [OF Suc.prems(1)] q Inr by blast
    from Suc.IH [OF w run] obtain j where j: "wf c'" "j \<le> k" "wp' = (trb_next nr ^^ j) (trb_next nr wp)"
      "\<forall>i < j. buf_at bs ((trb_next nr ^^ i) (trb_next nr wp)) \<noteq> None"
      "queued c' = queued c1 @ map (\<lambda>i. ub_data (the (buf_at bs ((trb_next nr ^^ i) (trb_next nr wp))))) [0..<j]"
      "j = k \<or> (\<exists>e. r = Inl e)" "r = Inr () \<longrightarrow> j = k" by auto
    have s: "map (\<lambda>i. ub_data (the (buf_at bs ((trb_next nr ^^ i) wp)))) [0..<Suc j] =
      ub_data b # map (\<lambda>i. ub_data (the (buf_at bs ((trb_next nr ^^ i) (trb_next nr wp))))) [0..<j]"
      using b by (simp add: map_upt_Suc funpow_swap1 del: upt_Suc)
    have a: "\<forall>i < Suc j. buf_at bs ((trb_next nr ^^ i) wp) \<noteq> None"
      using j(4) b by (auto simp: less_Suc_eq_0_disj funpow_swap1)
    show ?thesis using j q1 s a by (intro conjI exI [of _ "Suc j"]) (auto simp: funpow_swap1 simp del: upt_Suc)
  qed
qed

end

text \<open>A queue with a known number of free places: as long as there is one, the buffer is taken, so that a loop over the free places ends well.\<close>

locale xfer_queue_room = xfer_queue +
  fixes room :: "'c \<Rightarrow> nat"
  assumes put_room: "wf c \<Longrightarrow> 0 < room c \<Longrightarrow> \<exists>c'. put a c = (Inr (), c') \<and> room c' = room c - 1"
begin

lemma queue_fill_succeeds:
  assumes "wf c" and "k \<le> room c" and "k \<noteq> 0 \<or> ret = Inr ()" and "\<And>i. i < k \<Longrightarrow> buf_at bs ((trb_next nr ^^ i) wp) \<noteq> None"
  shows "\<exists>wp' c'. queue_fill put bs nr k ret wp c = Some (Inr (), wp', c')"
  using assms
proof (induction k arbitrary: ret wp c)
  case 0
  then show ?case by simp
next
  case (Suc k)
  obtain b where b: "buf_at bs wp = Some b" using Suc.prems(4) [of 0] by auto
  obtain c1 where q: "put (ub_data b) c = (Inr (), c1)" "room c1 = room c - 1"
    using put_room [OF Suc.prems(1), of "ub_data b"] Suc.prems(2) by auto
  have "\<exists>wp' c'. queue_fill put bs nr k (Inr ()) (trb_next nr wp) c1 = Some (Inr (), wp', c')"
  proof (rule Suc.IH)
    show "wf c1" by (rule put_wf [OF Suc.prems(1) q(1)])
    show "buf_at bs ((trb_next nr ^^ i) (trb_next nr wp)) \<noteq> None" if "i < k" for i
      using Suc.prems(4) [of "Suc i"] that by (simp add: funpow_swap1)
  qed (use Suc.prems(2) q(2) in simp_all)
  then show ?case using b q(1) by simp
qed

end

definition queued_at :: "nat \<Rightarrow> mhi_controller \<Rightarrow> u64 list" where
  "queued_at n c = map cb_buf (ring_list (buf_ring (chan_at c n)))"

definition chan_ok :: "nat \<Rightarrow> mhi_controller \<Rightarrow> bool" where
  "chan_ok n c \<longleftrightarrow> n < length (mhi_chans c) \<and> chan_sync (chan_at c n)"

lemma mhi_queue_transfer_spec:
  assumes ok: "chan_ok n c" and run: "mhi_queue_transfer dma_map n a len flags c = (r, c')"
  shows "chan_ok n c' \<and> queued_at n c' = (if r = Inr () then queued_at n c @ [a] else queued_at n c) \<and>
    (r = Inr () \<longleftrightarrow> \<not> MHI_PM_IN_ERROR_STATE (pm_state c) \<and> \<not> mhi_is_ring_full (tre_ring (chan_at c n)) \<and>
      \<not> snd (dma_map a len (ch_dir (chan_at c n))))"
proof -
  obtain ch c1 where q: "mhi_queue_buf dma_map a len flags (chan_at c n) c = (r, ch, c1)" and c': "c' = chan_put n ch c1"
    using run by (auto simp: mhi_queue_transfer_def Let_def split: prod.splits)
  have s: "chan_sync (chan_at c n)" and l: "n < length (mhi_chans c)" using ok by (simp_all add: chan_ok_def)
  note o = mhi_queue_buf_spec [OF s q]
  have "mhi_chans c1 = mhi_chans c" using mhi_queue_buf_keeps [OF q] by simp
  then have "chan_at c' n = ch" "length (mhi_chans c') = length (mhi_chans c)"
    using l c' by (simp_all add: chan_at_put chan_put_def chan_at_def)
  then show ?thesis using o l by (auto simp: chan_ok_def queued_at_def queue_outcome_def split: sum.splits if_splits)
qed

interpretation uq: xfer_queue "\<lambda>a. mhi_queue_transfer dma_map n a len flags" "queued_at n" "chan_ok n" for dma_map n len flags
  by unfold_locales (auto dest: mhi_queue_transfer_spec)

text \<open>While the link is up and every buffer can be mapped, the ring takes as many buffers as it has free descriptors.\<close>

definition chan_up :: "nat \<Rightarrow> mhi_controller \<Rightarrow> bool" where
  "chan_up n c \<longleftrightarrow> chan_ok n c \<and> chan_fit (chan_at c n) \<and> \<not> MHI_PM_IN_ERROR_STATE (pm_state c)"

definition chan_room :: "nat \<Rightarrow> mhi_controller \<Rightarrow> nat" where
  "chan_room n c = nat (mhi_get_no_free_descriptors (chan_at c n))"

lemma mhi_queue_transfer_up:
  assumes up: "chan_up n c" and run: "mhi_queue_transfer dma_map n a len flags c = (r, c')"
  shows "chan_up n c'" "chan_room n c' = chan_room n c - (if r = Inr () then 1 else 0)"
proof -
  obtain ch c1 where q: "mhi_queue_buf dma_map a len flags (chan_at c n) c = (r, ch, c1)" and c': "c' = chan_put n ch c1"
    using run by (auto simp: mhi_queue_transfer_def Let_def split: prod.splits)
  have s: "chan_sync (chan_at c n)" and l: "n < length (mhi_chans c)" and f: "chan_fit (chan_at c n)"
    using up by (simp_all add: chan_up_def chan_ok_def)
  note o = mhi_queue_buf_spec [OF s q] and k = mhi_queue_buf_keeps [OF q]
  have at: "chan_at c' n = ch" using l k c' by simp
  have q': "chan_fit ch" "mhi_get_no_free_descriptors ch = mhi_get_no_free_descriptors (chan_at c n) - (if isl r then 0 else 1)"
    using queue_fit [OF f] o k by blast+
  show "chan_up n c'" using up mhi_queue_transfer_spec [OF _ run] q'(1) k at c' by (simp add: chan_up_def)
  have "isl r \<longleftrightarrow> r \<noteq> Inr ()" by (cases r) simp_all
  then show "chan_room n c' = chan_room n c - (if r = Inr () then 1 else 0)" using q'(2) by (auto simp: chan_room_def at)
qed

interpretation ur: xfer_queue_room "\<lambda>a. mhi_queue_transfer (\<lambda>v l d. (addr v l d, False)) n a len flags" "queued_at n" "chan_up n" "chan_room n"
  for addr n len flags
proof unfold_locales
  fix c a
  assume up: "chan_up n c" and room: "0 < chan_room n c"
  obtain r c' where q: "mhi_queue_transfer (\<lambda>v l d. (addr v l d, False)) n a len flags c = (r, c')" by fastforce
  have "r = Inr ()"
    using mhi_queue_transfer_spec [OF _ q] free_full [of "chan_at c n"] up room by (simp add: chan_up_def chan_room_def)
  then show "\<exists>c'. mhi_queue_transfer (\<lambda>v l d. (addr v l d, False)) n a len flags c = (Inr (), c') \<and> chan_room n c' = chan_room n c - 1"
    using q mhi_queue_transfer_up [OF up q] by simp
next
  show "queued_at n c' = queued_at n c @ [a]"
    if "chan_up n c" "mhi_queue_transfer (\<lambda>v l d. (addr v l d, False)) n a len flags c = (Inr u, c')" for c a u c'
    using that mhi_queue_transfer_spec [OF _ that(2)] by (simp add: chan_up_def)
  show "queued_at n c' = queued_at n c"
    if "chan_up n c" "mhi_queue_transfer (\<lambda>v l d. (addr v l d, False)) n a len flags c = (Inl e, c')" for c a e c'
    using that mhi_queue_transfer_spec [OF _ that(2)] by (simp add: chan_up_def)
qed (rule mhi_queue_transfer_up(1))

subsection \<open>Cyclic sequences\<close>

definition cyc :: "nat \<Rightarrow> nat \<Rightarrow> nat \<Rightarrow> nat list" where
  "cyc N s k = map (\<lambda>j. (s + j) mod N) [0..<k]"

lemma cyc_0 [simp]: "cyc N s 0 = []" and length_cyc [simp]: "length (cyc N s k) = k"
  by (simp_all add: cyc_def)

lemma cyc_Suc: "cyc N s (Suc k) = s mod N # cyc N (Suc s) k"
  by (simp add: cyc_def map_upt_Suc del: upt_Suc)

lemma cyc_snoc: "cyc N s (Suc k) = cyc N s k @ [(s + k) mod N]"
  by (simp add: cyc_def)

lemma cyc_cong: "s mod N = t mod N \<Longrightarrow> cyc N s k = cyc N t k"
  by (auto simp: cyc_def intro: mod_add_cong)

lemma set_cyc: "0 < N \<Longrightarrow> set (cyc N s k) \<subseteq> {..<N}"
  by (auto simp: cyc_def)

lemma cyc_distinct: "k \<le> N \<Longrightarrow> distinct (cyc N s k)"
  by (auto simp: cyc_def distinct_map inj_on_def dest: mod_add_left_inj)

lemma trb_next_unat:
  assumes "unat nr = N" "unat w < N"
  shows "unat (trb_next nr w) = Suc (unat w) mod N"
proof -
  have "unat (w + 1) = Suc (unat w)" using assms unsigned_less [where w = nr and 'a = nat] by (subst unat_add_no_wrap) simp_all
  then show ?thesis using assms by (auto simp: trb_next_def Let_def word_unat_eq_iff)
qed

lemma trb_funpow:
  assumes "unat nr = N" "unat w < N"
  shows "unat ((trb_next nr ^^ i) w) = (unat w + i) mod N"
proof (induction i)
  case 0
  then show ?case using assms by simp
next
  case (Suc i)
  have "unat ((trb_next nr ^^ i) w) < N" using Suc assms by simp
  then show ?case using trb_next_unat [OF assms(1)] Suc by (simp add: mod_Suc_eq)
qed

lemma trb_prev_unat:
  assumes "unat nr = N" "unat w < N"
  shows "unat (if w \<noteq> 0 then w - 1 else nr - 1) = (unat w + N - 1) mod N"
proof (cases "w = 0")
  case True
  moreover have "unat (nr - 1) = N - 1" using assms by (subst unat_diff_le) (simp_all add: word_le_nat_alt)
  ultimately show ?thesis using assms by simp
next
  case False
  then have w: "1 \<le> unat w" by (simp add: unat_gt_0 Suc_leI)
  have e: "unat w + N - 1 = (unat w - 1) + N" using w by linarith
  have "(unat w - 1 + N) mod N = unat w - 1" using assms by simp
  moreover have "unat (w - 1) = unat w - 1" using w by (subst unat_diff_le) (simp_all add: word_le_nat_alt)
  ultimately show ?thesis using False by (simp only: e if_True not_False_eq_True simp_thms)
qed

subsection \<open>The cycle of receive buffers\<close>

definition bufs_ok :: "nat \<Rightarrow> uci_buf option list \<Rightarrow> bool" where
  "bufs_ok N bs \<longleftrightarrow> length bs = N \<and>
     (\<forall>i < N. \<exists>b. bs ! i = Some b \<and> unat (ub_nr_trb b) = i \<and> length (ub_bytes b) < 2 ^ 16)"

definition data_at :: "uci_buf option list \<Rightarrow> nat \<Rightarrow> u64" where
  "data_at bs i = ub_data (the (bs ! i))"

definition waiting :: "uci_dev \<Rightarrow> uci_pkt list" where
  "waiting st = (case ud_cur_buf st of None \<Rightarrow> [] | Some p \<Rightarrow> [p]) @ ud_pending st"

text \<open>
  With \<open>N\<close> buffers, those with the device follow the read position in the cycle, those waiting for the reader come
  before it, and one is left over.
\<close>

definition uci_cycle :: "nat \<Rightarrow> nat \<Rightarrow> uci_buf option list \<Rightarrow> uci_dev \<Rightarrow> bool" where
  "uci_cycle n N bs st \<longleftrightarrow>
     ud_uci_buf st = Bufs bs \<and> bufs_ok N bs \<and> unat (ud_nr_trbs st) = N \<and> unat (ud_rp_trb st) < N \<and> chan_ok n (ud_ctl st) \<and>
     length (queued_at n (ud_ctl st)) + length (waiting st) + 1 = N \<and>
     queued_at n (ud_ctl st) = map (data_at bs) (cyc N (unat (ud_rp_trb st)) (length (queued_at n (ud_ctl st)))) \<and>
     waiting st = map PageBuf (cyc N (unat (ud_rp_trb st) + N - length (waiting st)) (length (waiting st)))"

definition uci_inv :: "nat \<Rightarrow> uci_dev \<Rightarrow> bool" where
  "uci_inv n st \<longleftrightarrow> (\<exists>N bs. uci_cycle n N bs st) \<and> \<not> copy_chan (ud_dl_chan_id st) \<and> ud_rx_error st = 0 \<and>
     (\<forall>p. ud_cur_buf st = Some p \<longrightarrow> unat (ud_rx_size st) \<le> length (the (pkt_bytes st p)))"

lemma uci_cycleD:
  assumes "uci_cycle n N bs st"
  shows "ud_uci_buf st = Bufs bs" "bufs_ok N bs" "unat (ud_nr_trbs st) = N" "unat (ud_rp_trb st) < N" "chan_ok n (ud_ctl st)"
    "length (queued_at n (ud_ctl st)) + length (waiting st) + 1 = N"
    "queued_at n (ud_ctl st) = map (data_at bs) (cyc N (unat (ud_rp_trb st)) (length (queued_at n (ud_ctl st))))"
    "waiting st = map PageBuf (cyc N (unat (ud_rp_trb st) + N - length (waiting st)) (length (waiting st)))"
  using assms unfolding uci_cycle_def by blast+

text \<open>The bytes that were received and not read yet.\<close>

definition unread :: "uci_dev \<Rightarrow> u8 list" where
  "unread st =
     (case ud_cur_buf st of
        None \<Rightarrow> []
      | Some p \<Rightarrow> drop (length (the (pkt_bytes st p)) - unat (ud_rx_size st)) (the (pkt_bytes st p))) @
     concat (map (\<lambda>p. the (pkt_bytes st p)) (ud_pending st))"

text \<open>
  The steps: the core completes the oldest transfer, and its callback runs on a controller whose queue has lost that
  entry; or a reader takes data. Runs list what came in and what went out.
\<close>

inductive uci_step :: "nat \<Rightarrow> uci_dev \<Rightarrow> u8 list \<Rightarrow> u8 list \<Rightarrow> uci_dev \<Rightarrow> bool" for n where
  complete: "queued_at n (ud_ctl st) = a # rest \<Longrightarrow> chan_ok n c \<Longrightarrow> queued_at n c = rest \<Longrightarrow> res_buf_addr res = a \<Longrightarrow>
    res_transaction_status res \<noteq> Some ENOTCONN \<Longrightarrow> 0 < res_bytes_xferd res \<Longrightarrow> ucast (res_bytes_xferd res) \<le> ud_mtu st \<Longrightarrow>
    mhi_dl_xfer_cb dma_map tmp n mem res (st\<lparr>ud_ctl := c\<rparr>) = Some st' \<Longrightarrow>
    uci_step n st (map mem [0..<unat (res_bytes_xferd res)]) [] st'"
| take_data: "mhi_uci_read dma_map env n count st = Some (UVal k, d, st') \<Longrightarrow> re_sleep env = [] \<Longrightarrow> re_left env = 0 \<Longrightarrow>
    uci_step n st [] d st'"

inductive_cases uci_stepE: "uci_step n st i d st'"

inductive uci_run :: "nat \<Rightarrow> uci_dev \<Rightarrow> u8 list \<Rightarrow> u8 list \<Rightarrow> uci_dev \<Rightarrow> bool" for n where
  stop: "uci_run n st [] [] st"
| step: "uci_step n st i d st' \<Longrightarrow> uci_run n st' is ds st'' \<Longrightarrow> uci_run n st (i @ is) (d @ ds) st''"

lemma buf_at_ok:
  assumes "bufs_ok N bs" "unat w < N"
  obtains b where "buf_at bs w = Some b" "bs ! unat w = Some b" "ub_nr_trb b = w"
  using assms by (auto simp: bufs_ok_def buf_at_def word_unat_eq_iff)

lemma bufs_ok_update:
  assumes "bufs_ok N bs" "bs ! i = Some b" "i < N" "length bytes < 2 ^ 16"
  shows "bufs_ok N (bs[i := Some (b\<lparr>ub_len := l, ub_bytes := bytes\<rparr>)])"
    and "data_at (bs[i := Some (b\<lparr>ub_len := l, ub_bytes := bytes\<rparr>)]) = data_at bs"
proof -
  show "bufs_ok N (bs[i := Some (b\<lparr>ub_len := l, ub_bytes := bytes\<rparr>)])"
    using assms by (auto simp: bufs_ok_def nth_list_update)
  show "data_at (bs[i := Some (b\<lparr>ub_len := l, ub_bytes := bytes\<rparr>)]) = data_at bs"
    using assms by (auto simp: data_at_def fun_eq_iff nth_list_update bufs_ok_def)
qed

lemma pkt_bytes_ok:
  assumes "uci_cycle n N bs st" "p \<in> set (waiting st)"
  obtains i b where "p = PageBuf i" "i < N" "bs ! i = Some b" "pkt_bytes st p = Some (ub_bytes b)" "length (ub_bytes b) < 2 ^ 16"
proof -
  have N: "0 < N" using assms(1) by (auto simp: uci_cycle_def)
  have "p \<in> set (map PageBuf (cyc N (unat (ud_rp_trb st) + N - length (waiting st)) (length (waiting st))))"
    using assms by (metis uci_cycle_def)
  then obtain i where i: "p = PageBuf i" "i < N" using set_cyc [OF N] by auto
  then show thesis using that assms(1) by (auto simp: uci_cycle_def bufs_ok_def pkt_bytes_def)
qed

text \<open>The buffer the device fills next is not waiting to be read.\<close>

lemma next_not_waiting:
  assumes c: "uci_cycle n N bs st" and "queued_at n (ud_ctl st) \<noteq> []"
  shows "PageBuf (unat (ud_rp_trb st)) \<notin> set (waiting st)"
proof
  let ?p = "length (waiting st)" and ?rp = "unat (ud_rp_trb st)"
  assume w: "PageBuf ?rp \<in> set (waiting st)"
  have "waiting st = map PageBuf (cyc N (?rp + N - ?p) ?p)" using c unfolding uci_cycle_def by blast
  from arg_cong [OF this, of set] w have "PageBuf ?rp \<in> set (map PageBuf (cyc N (?rp + N - ?p) ?p))" by blast
  then have "?rp \<in> set (cyc N (?rp + N - ?p) ?p)" by auto
  then obtain j where j: "j < ?p" "(?rp + N - ?p + j) mod N = ?rp" by (auto simp: cyc_def)
  have p: "?p + 1 < N" "?rp < N" using c assms(2) by (auto simp: uci_cycle_def neq_Nil_conv)
  have e: "?rp + (N - ?p + j) = ?rp + N - ?p + j" using p by linarith
  have "(?rp + (N - ?p + j)) mod N = (?rp + 0) mod N" unfolding e using j(2) p(2) by simp
  then have "N - ?p + j = 0" by (rule mod_add_left_inj) (use j p in simp_all)
  then show False using p by simp
qed

lemma unat_ucast_16_64: "unat (ucast (x :: u16) :: u64) = unat x"
  by (simp add: unsigned_ucast_eq take_bit_nat_eq_self unsigned_less [THEN less_trans])

lemma uci_complete_cycle:
  assumes c: "uci_cycle n N bs st" and nc: "\<not> copy_chan (ud_dl_chan_id st)" and q: "queued_at n (ud_ctl st) = a # rest"
    and r: "res_buf_addr res = a" "res_transaction_status res \<noteq> Some ENOTCONN" "0 < res_bytes_xferd res" "ucast (res_bytes_xferd res) \<le> ud_mtu st"
  obtains b where "bs ! unat (ud_rp_trb st) = Some b"
    and "mhi_dl_xfer_cb dma_map tmp n mem res (st\<lparr>ud_ctl := c'\<rparr>) = Some (st\<lparr>ud_ctl := c', ud_rp_trb := trb_next (ud_nr_trbs st) (ud_rp_trb st),
      ud_bytes_xferd := max (ud_bytes_xferd st) (ucast (res_bytes_xferd res)),
      ud_uci_buf := Bufs (bs[unat (ud_rp_trb st) := Some (b\<lparr>ub_len := ucast (res_bytes_xferd res), ub_bytes := map mem [0..<unat (res_bytes_xferd res)]\<rparr>)]),
      ud_pending := ud_pending st @ [PageBuf (unat (ud_rp_trb st))]\<rparr>)"
proof -
  have rp: "unat (ud_rp_trb st) < N" and ok: "bufs_ok N bs" and u: "ud_uci_buf st = Bufs bs" using c by (simp_all add: uci_cycle_def)
  obtain b where b: "buf_at bs (ud_rp_trb st) = Some b" "bs ! unat (ud_rp_trb st) = Some b" "ub_nr_trb b = ud_rp_trb st"
    by (rule buf_at_ok [OF ok rp])
  have "a # rest = map (data_at bs) (cyc N (unat (ud_rp_trb st)) (Suc (length rest)))" using c q by (simp add: uci_cycle_def)
  then have a: "ub_data b = a" using b rp by (simp add: cyc_Suc data_at_def)
  have x: "\<not> ud_mtu st < ucast (res_bytes_xferd res)" "(ucast (res_bytes_xferd res) :: u64) \<noteq> 0"
    using r(3,4) by (auto simp: word_unat_eq_iff [of "ucast _"] unat_ucast_16_64 unat_gt_0)
  show thesis by (rule that [OF b(2)]) (use b u a r(1,2) x nc in \<open>simp add: mhi_dl_xfer_cb_def Let_def\<close>)
qed

lemma cyc_shift_waiting:
  assumes "rp < N" "Suc p < N"
  shows "cyc N (Suc rp mod N + N - Suc p) (Suc p) = cyc N (rp + N - p) p @ [rp]"
proof -
  have "cyc N (Suc rp mod N + N - Suc p) (Suc p) = cyc N (rp + N - p) (Suc p)"
  proof (rule cyc_cong, cases "Suc rp = N")
    case True
    then have "rp + N - p = (N - Suc p) + N" using assms by linarith
    then show "(Suc rp mod N + N - Suc p) mod N = (rp + N - p) mod N" using True by (metis add.left_neutral mod_add_self2 mod_self)
  next
    case False
    then have "Suc rp mod N = Suc rp" using assms by simp
    moreover have "Suc rp + N - Suc p = rp + N - p" by simp
    ultimately show "(Suc rp mod N + N - Suc p) mod N = (rp + N - p) mod N" by simp
  qed
  moreover have "(rp + N - p + p) mod N = rp" using assms by simp
  ultimately show ?thesis by (simp add: cyc_snoc)
qed

lemma uci_complete_inv:
  assumes c: "uci_cycle n N bs st" and q: "queued_at n (ud_ctl st) = a # rest" and c': "chan_ok n c'" "queued_at n c' = rest"
    and b: "bs ! unat (ud_rp_trb st) = Some b" and l: "length bytes < 2 ^ 16"
    and st': "st' = st\<lparr>ud_ctl := c', ud_rp_trb := trb_next (ud_nr_trbs st) (ud_rp_trb st), ud_bytes_xferd := x,
      ud_uci_buf := Bufs (bs[unat (ud_rp_trb st) := Some (b\<lparr>ub_len := y, ub_bytes := bytes\<rparr>)]),
      ud_pending := ud_pending st @ [PageBuf (unat (ud_rp_trb st))]\<rparr>"
  shows "uci_cycle n N (bs[unat (ud_rp_trb st) := Some (b\<lparr>ub_len := y, ub_bytes := bytes\<rparr>)]) st'"
proof -
  let ?rp = "unat (ud_rp_trb st)" and ?p = "length (waiting st)" and ?bs = "bs[unat (ud_rp_trb st) := Some (b\<lparr>ub_len := y, ub_bytes := bytes\<rparr>)]"
  have rp: "?rp < N" and ok: "bufs_ok N bs" and nr: "unat (ud_nr_trbs st) = N" and len: "Suc (length rest) + ?p + 1 = N"
    and qq: "a # rest = map (data_at bs) (cyc N ?rp (Suc (length rest)))" using c q by (simp_all add: uci_cycle_def)
  have ww: "waiting st = map PageBuf (cyc N (?rp + N - ?p) ?p)" using c unfolding uci_cycle_def by blast
  have rp': "unat (ud_rp_trb st') = Suc ?rp mod N" using trb_next_unat [OF nr rp] st' by simp
  have w': "waiting st' = waiting st @ [PageBuf ?rp]" using st' by (simp add: waiting_def)
  have "rest = map (data_at bs) (cyc N (Suc ?rp) (length rest))" using qq by (simp add: cyc_Suc)
  moreover have "cyc N (Suc ?rp) (length rest) = cyc N (Suc ?rp mod N) (length rest)" by (rule cyc_cong) simp
  ultimately have r': "rest = map (data_at ?bs) (cyc N (Suc ?rp mod N) (length rest))"
    using bufs_ok_update(2) [OF ok b rp l] by simp
  have "waiting st' = map PageBuf (cyc N (Suc ?rp mod N + N - Suc ?p) (Suc ?p))"
    using w' ww cyc_shift_waiting [OF rp, of ?p] len by simp
  then show ?thesis using st' bufs_ok_update(1) [OF ok b rp l] nr c' r' rp' len w' rp
    by (simp add: uci_cycle_def)
qed

lemma recycle_page:
  assumes "ud_uci_buf s = Bufs bs" "buf_at bs (of_nat i) = Some b"
    and "ud_nr_trbs s = nr" "buf_at bs (if ub_nr_trb b \<noteq> 0 then ub_nr_trb b - 1 else nr - 1) = Some b'"
  shows "recycle dma_map n (PageBuf i) s =
    (let (r, c) = mhi_queue_transfer dma_map n (ub_data b') (ud_mtu s) MHI_EOT (ud_ctl s) in Some (r, s\<lparr>ud_ctl := c\<rparr>))"
  using assms by (cases "ub_nr_trb b = 0") (simp_all add: recycle_def)

text \<open>The buffer that is queued after packet \<open>k\<close> was read is the one before it in the cycle.\<close>

lemma recycle_queues:
  assumes u: "ud_uci_buf s = Bufs bs" and ok: "bufs_ok N bs" and nr: "unat (ud_nr_trbs s) = N" and k: "k < N" and co: "chan_ok n (ud_ctl s)"
    and run: "recycle dma_map n (PageBuf k) s = Some (Inr u', st')"
  obtains c' where "st' = s\<lparr>ud_ctl := c'\<rparr>" "chan_ok n c'" "queued_at n c' = queued_at n (ud_ctl s) @ [data_at bs ((k + N - 1) mod N)]"
proof -
  have kN: "k < 2 ^ 32" using k nr unsigned_less [where w = "ud_nr_trbs s" and 'a = nat] by simp
  have ku: "unat (of_nat k :: u32) = k" using kN by (intro unat_of_nat_small) simp
  obtain b where b: "buf_at bs (of_nat k) = Some b" "ub_nr_trb b = of_nat k"
    using buf_at_ok [OF ok, of "of_nat k"] k ku by metis
  let ?nr = "if ub_nr_trb b \<noteq> 0 then ub_nr_trb b - 1 else ud_nr_trbs s - 1"
  have pu: "unat ?nr = (k + N - 1) mod N" using trb_prev_unat [OF nr, of "ub_nr_trb b"] b(2) ku k by simp
  obtain b' where b': "buf_at bs ?nr = Some b'" "bs ! unat ?nr = Some b'" by (rule buf_at_ok [OF ok, of ?nr]) (use pu k in auto)
  have d: "ub_data b' = data_at bs ((k + N - 1) mod N)" using b' pu by (simp add: data_at_def)
  obtain c' where q: "mhi_queue_transfer dma_map n (ub_data b') (ud_mtu s) MHI_EOT (ud_ctl s) = (Inr (), c')" and st': "st' = s\<lparr>ud_ctl := c'\<rparr>"
    using run recycle_page [OF u b(1) refl b'(1), of dma_map n] by (auto split: prod.splits)
  show thesis by (rule that [OF st']) (use mhi_queue_transfer_spec [OF co q] d in simp_all)
qed

lemma recycle_cycle:
  assumes c: "uci_cycle n N bs st" and cur: "waiting st = p # ws" and ch: "ud_cur_buf st = Some p"
    and run: "recycle dma_map n p (st\<lparr>ud_rx_size := z, ud_cur_buf := None\<rparr>) = Some (Inr u, st')"
  shows "uci_cycle n N bs st' \<and> ud_uci_buf st' = ud_uci_buf st \<and> ud_pending st' = ud_pending st \<and> ud_cur_buf st' = None \<and>
    ud_rx_error st' = ud_rx_error st \<and> ud_dl_chan_id st' = ud_dl_chan_id st \<and> waiting st' = ws"
proof -
  let ?rp = "unat (ud_rp_trb st)" and ?h = "length (queued_at n (ud_ctl st))" and ?s = "st\<lparr>ud_rx_size := z, ud_cur_buf := None\<rparr>"
  note rp = uci_cycleD(4) [OF c] and ok = uci_cycleD(2) [OF c] and nr = uci_cycleD(3) [OF c] and u = uci_cycleD(1) [OF c]
    and co = uci_cycleD(5) [OF c] and qq = uci_cycleD(7) [OF c]
  have len: "?h + Suc (length ws) + 1 = N" using uci_cycleD(6) [OF c] cur by simp
  have "p # ws = map PageBuf (cyc N (?rp + N - Suc (length ws)) (Suc (length ws)))"
    using uci_cycleD(8) [OF c] unfolding cur by simp
  then have p: "p = PageBuf ((?rp + N - Suc (length ws)) mod N)" and ws: "ws = map PageBuf (cyc N (Suc (?rp + N - Suc (length ws))) (length ws))"
    by (simp_all add: cyc_Suc)
  let ?k = "(?rp + N - Suc (length ws)) mod N"
  have x: "?rp + N - Suc (length ws) + (N - 1) = ?rp + ?h + N" "?k + N - 1 = ?k + (N - 1)" using len by linarith+
  have pv: "(?k + N - 1) mod N = (?rp + ?h) mod N" unfolding x(2) by (simp only: mod_add_left_eq x(1) mod_add_self2)
  have "ud_uci_buf ?s = Bufs bs" "unat (ud_nr_trbs ?s) = N" "?k < N" "chan_ok n (ud_ctl ?s)" using u nr rp co by simp_all
  from recycle_queues [OF this(1) ok this(2-4) run [unfolded p]] obtain c' where st': "st' = ?s\<lparr>ud_ctl := c'\<rparr>"
    and o: "chan_ok n c'" "queued_at n c' = queued_at n (ud_ctl st) @ [data_at bs ((?rp + ?h) mod N)]"
    using pv by auto
  have w': "waiting st' = ws" using st' cur ch by (simp add: waiting_def)
  have "queued_at n c' = map (data_at bs) (cyc N ?rp (Suc ?h))" using o(2) qq by (simp add: cyc_snoc)
  moreover have "Suc (?rp + N - Suc (length ws)) = ?rp + N - length ws" using len by linarith
  ultimately show ?thesis using st' u ok nr rp o w' ws len
    by (simp add: uci_cycle_def)
qed

lemma pkt_bytes_same: "ud_uci_buf st' = ud_uci_buf st \<Longrightarrow> pkt_bytes st' = pkt_bytes st"
  by (rule ext) (simp add: pkt_bytes_def split: uci_pkt.splits)

lemma pkt_bytes_update:
  assumes "ud_uci_buf st = Bufs bs" "ud_uci_buf st' = Bufs (bs[i := Some b])" "p \<noteq> PageBuf i"
  shows "pkt_bytes st' p = pkt_bytes st p"
  using assms by (cases p) (simp_all add: pkt_bytes_def)

text \<open>A completed transfer: the bytes the device wrote come after those that were not read yet.\<close>

lemma uci_complete_step:
  assumes inv: "uci_inv n st" and q: "queued_at n (ud_ctl st) = a # rest" and c': "chan_ok n c'" "queued_at n c' = rest"
    and r: "res_buf_addr res = a" "res_transaction_status res \<noteq> Some ENOTCONN" "0 < res_bytes_xferd res" "ucast (res_bytes_xferd res) \<le> ud_mtu st"
    and run: "mhi_dl_xfer_cb dma_map tmp n mem res (st\<lparr>ud_ctl := c'\<rparr>) = Some st'"
  shows "uci_inv n st' \<and> unread st' = unread st @ map mem [0..<unat (res_bytes_xferd res)]"
proof -
  obtain N bs where c: "uci_cycle n N bs st" and nc: "\<not> copy_chan (ud_dl_chan_id st)" using inv by (auto simp: uci_inv_def)
  let ?bytes = "map mem [0..<unat (res_bytes_xferd res)]" and ?i = "unat (ud_rp_trb st)"
  obtain b where b: "bs ! ?i = Some b" and st': "st' = st\<lparr>ud_ctl := c', ud_rp_trb := trb_next (ud_nr_trbs st) (ud_rp_trb st),
      ud_bytes_xferd := max (ud_bytes_xferd st) (ucast (res_bytes_xferd res)),
      ud_uci_buf := Bufs (bs[?i := Some (b\<lparr>ub_len := ucast (res_bytes_xferd res), ub_bytes := ?bytes\<rparr>)]),
      ud_pending := ud_pending st @ [PageBuf ?i]\<rparr>"
    using uci_complete_cycle [OF c nc q r, of dma_map tmp mem c'] run by (metis option.inject)
  have l: "length ?bytes < 2 ^ 16" using unsigned_less [where w = "res_bytes_xferd res" and 'a = nat] by simp
  note cyc' = uci_complete_inv [OF c q c' b l st']
  have other: "pkt_bytes st' p = pkt_bytes st p" if "p \<in> set (waiting st)" for p
    by (rule pkt_bytes_update [OF uci_cycleD(1) [OF c]]) (use that next_not_waiting [OF c] q st' in auto)
  have self: "pkt_bytes st' (PageBuf ?i) = Some ?bytes"
    using st' uci_cycleD(2,4) [OF c] by (simp add: pkt_bytes_def bufs_ok_def)
  have "unread st' = unread st @ ?bytes" using other self st'
    by (auto simp: unread_def waiting_def split: option.splits intro!: arg_cong [of _ _ concat] map_cong)
  moreover have "uci_inv n st'" using inv cyc' st' other
    by (auto simp: uci_inv_def waiting_def)
  ultimately show ?thesis by simp
qed

lemma uci_inv_cur:
  assumes "uci_inv n st" "ud_cur_buf st = Some p"
  obtains bytes where "pkt_bytes st p = Some bytes" "length bytes < 2 ^ 16" "unat (ud_rx_size st) \<le> length bytes"
    "unread st = drop (length bytes - unat (ud_rx_size st)) bytes @ concat (map (\<lambda>p. the (pkt_bytes st p)) (ud_pending st))"
proof -
  obtain N bs where c: "uci_cycle n N bs st" using assms(1) by (auto simp: uci_inv_def)
  have "p \<in> set (waiting st)" using assms(2) by (simp add: waiting_def)
  then obtain b :: uci_buf where "pkt_bytes st p = Some (ub_bytes b)" "length (ub_bytes b) < 2 ^ 16" by (rule pkt_bytes_ok [OF c]) blast
  then show thesis using that assms by (auto simp: uci_inv_def unread_def)
qed

text \<open>Reading from the current packet: the bytes handed out are the next of those not read yet.\<close>

lemma uci_read_copy_step:
  assumes inv: "uci_inv n st" and cur: "ud_cur_buf st = Some p"
    and run: "uci_read_copy dma_map n count 0 p st = Some (UVal k, d, st')"
  shows "uci_inv n st' \<and> unread st = d @ unread st' \<and> length d = k"
proof -
  obtain bytes where b: "pkt_bytes st p = Some bytes" "length bytes < 2 ^ 16" "unat (ud_rx_size st) \<le> length bytes"
    and ur: "unread st = drop (length bytes - unat (ud_rx_size st)) bytes @ concat (map (\<lambda>p. the (pkt_bytes st p)) (ud_pending st))"
    by (rule uci_inv_cur [OF inv cur])
  let ?t = "unat (min count (ud_rx_size st))" and ?off = "length bytes - unat (ud_rx_size st)"
  let ?st1 = "st\<lparr>ud_rx_size := ud_rx_size st - of_nat ?t\<rparr>"
  have t: "?t \<le> unat (ud_rx_size st)" by (simp add: min_def word_le_nat_alt)
  have rx: "unat (ud_rx_size st - of_nat ?t) = unat (ud_rx_size st) - ?t" by (subst unat_diff_le) (simp_all add: min_def)
  have dl: "length (take ?t (drop ?off bytes)) = ?t" using t b(3) by simp
  obtain N bs where c: "uci_cycle n N bs st" and ok: "\<not> copy_chan (ud_dl_chan_id st)" "ud_rx_error st = 0" using inv by (auto simp: uci_inv_def)
  have same: "pkt_bytes ?st1 = pkt_bytes st" by (rule pkt_bytes_same) simp
  show ?thesis
  proof (cases "ud_rx_size ?st1 = 0")
    case False
    then have r: "k = ?t" "d = take ?t (drop ?off bytes)" "st' = ?st1" using run b(1) by (auto simp: uci_read_copy_def Let_def)
    have o: "length bytes - unat (ud_rx_size st') = ?off + ?t" using t b(3) rx r(3) by simp
    have "drop ?off bytes = d @ drop (?off + ?t) bytes" using r(2) by (simp add: add.commute flip: drop_drop)
    then have "unread st = d @ unread st'" using ur b(1) cur same o r(3) by (simp add: unread_def)
    moreover have "uci_inv n st'" using inv r(3) same rx b by (auto simp: uci_inv_def uci_cycle_def waiting_def)
    ultimately show ?thesis using r dl by simp
  next
    case True
    then have te: "?t = unat (ud_rx_size st)" using rx t by simp
    obtain u where rc: "recycle dma_map n p (st\<lparr>ud_rx_size := ud_rx_size st - of_nat ?t, ud_cur_buf := None\<rparr>) = Some (Inr u, st')"
      and r: "k = ?t" "d = take ?t (drop ?off bytes)"
      using run b(1) True by (auto simp: uci_read_copy_def Let_def split: if_splits option.splits sum.splits)
    have w: "waiting st = p # ud_pending st" using cur by (simp add: waiting_def)
    note s = recycle_cycle [OF c w cur rc]
    have "pkt_bytes st' = pkt_bytes st" by (rule pkt_bytes_same) (use s in simp)
    then have "unread st = d @ unread st'" using ur s r te dl by (simp add: unread_def)
    then show ?thesis using s ok r dl by (auto simp: uci_inv_def)
  qed
qed

lemma uci_pick:
  assumes inv: "uci_inv n st" and none: "ud_cur_buf st = None" and pend: "ud_pending st = p # ps" and b: "pkt_bytes st p = Some bytes"
  defines "st1 \<equiv> st\<lparr>ud_pending := ps, ud_cur_buf := Some p, ud_rx_size := of_nat (length bytes)\<rparr>"
  shows "uci_inv n st1 \<and> unread st1 = unread st"
proof -
  obtain N bs where c: "uci_cycle n N bs st" using inv by (auto simp: uci_inv_def)
  have w: "waiting st1 = waiting st" using none pend by (simp add: waiting_def st1_def)
  have "p \<in> set (waiting st)" using pend by (simp add: waiting_def)
  then have l: "length bytes < 2 ^ 16" by (rule pkt_bytes_ok [OF c]) (use b in simp)
  have u: "unat (of_nat (length bytes) :: u64) = length bytes" using l by (intro unat_of_nat_small) simp
  have same: "pkt_bytes st1 = pkt_bytes st" by (rule pkt_bytes_same) (simp add: st1_def)
  have "uci_cycle n N bs st1" using c w by (simp add: uci_cycle_def st1_def)
  then show ?thesis using inv none pend b same u by (auto simp: uci_inv_def unread_def st1_def)
qed

lemma uci_read_step:
  assumes inv: "uci_inv n st" and run: "mhi_uci_read dma_map env n count st = Some (UVal k, d, st')"
    and e: "re_sleep env = []" "re_left env = 0"
  shows "uci_inv n st' \<and> unread st = d @ unread st' \<and> length d = k"
proof (cases "ud_cur_buf st")
  case (Some p)
  then have "uci_read_copy dma_map n count 0 p st = Some (UVal k, d, st')"
    using run e by (auto simp: mhi_uci_read_def Let_def split: if_splits)
  then show ?thesis by (rule uci_read_copy_step [OF inv Some])
next
  case None
  then obtain p ps bytes where p: "ud_pending st = p # ps" "pkt_bytes st p = Some bytes"
    and r: "uci_read_copy dma_map n count 0 p (st\<lparr>ud_pending := ps, ud_cur_buf := Some p, ud_rx_size := of_nat (length bytes)\<rparr>) = Some (UVal k, d, st')"
    using run e by (auto simp: mhi_uci_read_def Let_def split: if_splits list.splits option.splits)
  then show ?thesis using uci_read_copy_step [OF _ _ r] uci_pick [OF inv None p] by simp
qed


text \<open>The buffers as they are after opening: all but one queued, in order.\<close>

lemma init_bufs_ok:
  "init_bufs pages i k = (True, bs) \<Longrightarrow> length bs = k \<and>
    (\<forall>j < k. \<exists>a. bs ! j = Some \<lparr>ub_page = True, ub_data = a, ub_len = 0, ub_nr_trb = of_nat (i + j), ub_bytes = []\<rparr>)"
proof (induction k arbitrary: i bs)
  case 0
  then show ?case by simp
next
  case (Suc k)
  then obtain a cs where "bs = Some \<lparr>ub_page = True, ub_data = a, ub_len = 0, ub_nr_trb = of_nat i, ub_bytes = []\<rparr> # cs"
    "init_bufs pages (Suc i) k = (True, cs)"
    by (auto simp: Let_def split: option.splits prod.splits)
  then show ?case using Suc.IH [of "Suc i" cs] by (auto simp: nth_Cons split: nat.splits)
qed

lemma mhi_queue_inbound_cycle_partial:
  assumes run: "mhi_queue_inbound dma_map arr pages n st = Some (Inr (), st')" and new: "ud_uci_buf st = NoBufs"
    and st: "waiting st = []" "chan_ok n (ud_ctl st)" "queued_at n (ud_ctl st) = []" "\<not> copy_chan (ud_dl_chan_id st)" "ud_rx_error st = 0"
    and nr: "uci_free_descriptors n st + 1 < 2 ^ 32"
  shows "uci_inv n st' \<and> length (queued_at n (ud_ctl st')) = uci_free_descriptors n st \<and> unread st' = []"
proof -
  let ?k = "uci_free_descriptors n st" and ?N = "uci_free_descriptors n st + 1"
  have cur: "ud_cur_buf st = None" "ud_pending st = []" using st(1) by (auto simp: waiting_def split: option.splits)
  obtain bs r wp c where b: "init_bufs pages 0 ?N = (True, bs)"
    and q: "queue_fill (\<lambda>a. mhi_queue_transfer dma_map n a (ud_mtu st) MHI_EOT) bs (of_nat ?N) ?k (Inl EIO) 0 (ud_ctl st) = Some (Inr (), wp, c)"
    and st': "st' = st\<lparr>ud_rp_trb := 0, ud_wp_trb := wp, ud_nr_trbs := of_nat ?N, ud_uci_buf := Bufs bs, ud_pages := ud_pages st + page_count bs, ud_ctl := c\<rparr>"
    using run new by (auto simp: mhi_queue_inbound_def Let_def uci_fill_def split: if_splits prod.splits option.splits)
  note ib = init_bufs_ok [OF b]
  have Nu: "unat (of_nat ?N :: u32) = ?N" using nr by (intro unat_of_nat_small) simp
  have iu: "unat (of_nat j :: u32) = j" if "j < ?N" for j using that nr by (intro unat_of_nat_small) simp
  have ok: "bufs_ok ?N bs" using ib iu by (fastforce simp: bufs_ok_def)
  have at: "ub_data (the (buf_at bs ((trb_next (of_nat ?N) ^^ i) 0))) = data_at bs ((0 + i) mod ?N)" for i
    using trb_funpow [OF Nu, of 0 i] ib by (simp add: buf_at_def data_at_def)
  from uq.queue_fill_queued [OF st(2) q] have co: "chan_ok n c"
    and "queued_at n c = queued_at n (ud_ctl st) @ map (\<lambda>i. ub_data (the (buf_at bs ((trb_next (of_nat ?N) ^^ i) 0)))) [0..<?k]" by blast+
  then have qq: "queued_at n c = map (data_at bs) (cyc ?N 0 ?k)" unfolding at by (simp add: st(3) cyc_def)
  have "waiting st' = []" using cur st' by (simp add: waiting_def)
  then have "uci_cycle n ?N bs st'" using st' ok Nu co qq by (simp add: uci_cycle_def)
  then show ?thesis using st' cur st(4,5) qq by (auto simp: uci_inv_def unread_def)
qed

lemma init_bufs_all: "(\<And>i. pages i \<noteq> None) \<Longrightarrow> fst (init_bufs pages i k)"
  by (induction k arbitrary: i) (auto simp: case_prod_beta Let_def split: option.splits)

text \<open>
  (C35) Opening a channel with at least one free descriptor: when every page can be allocated and mapped, all receive
  buffers but one are with the device, in order, and nothing waits to be read.
\<close>

theorem mhi_queue_inbound_cycle:
  assumes new: "ud_uci_buf st = NoBufs" and st: "waiting st = []" "queued_at n (ud_ctl st) = []" "\<not> copy_chan (ud_dl_chan_id st)" "ud_rx_error st = 0"
    and up: "chan_up n (ud_ctl st)" and nr: "0 < uci_free_descriptors n st" "uci_free_descriptors n st + 1 < 2 ^ 32" and pg: "\<And>i. pages i \<noteq> None"
  shows "\<exists>st'. mhi_queue_inbound (\<lambda>v l d. (addr v l d, False)) True pages n st = Some (Inr (), st') \<and> uci_inv n st' \<and>
    length (queued_at n (ud_ctl st')) = uci_free_descriptors n st \<and> unread st' = []"
proof -
  let ?k = "uci_free_descriptors n st" and ?N = "uci_free_descriptors n st + 1"
  obtain bs where b: "init_bufs pages 0 ?N = (True, bs)" using init_bufs_all [of pages 0 ?N] pg by (metis prod.collapse)
  have Nu: "unat (of_nat ?N :: u32) = ?N" using nr by (intro unat_of_nat_small) simp
  have at: "buf_at bs ((trb_next (of_nat ?N) ^^ i) 0) \<noteq> None" for i
  proof -
    have "unat ((trb_next (of_nat ?N) ^^ i) 0) < ?N" using trb_funpow [OF Nu, of 0 i] by simp
    then show ?thesis using init_bufs_ok [OF b] by (fastforce simp: buf_at_def)
  qed
  have "\<exists>wp c. queue_fill (\<lambda>a. mhi_queue_transfer (\<lambda>v l d. (addr v l d, False)) n a (ud_mtu st) MHI_EOT) bs (of_nat ?N) ?k (Inl EIO) 0 (ud_ctl st) = Some (Inr (), wp, c)"
    by (rule ur.queue_fill_succeeds [OF up]) (use nr(1) at in \<open>simp_all add: chan_room_def uci_free_descriptors_def\<close>)
  then obtain st' where run: "mhi_queue_inbound (\<lambda>v l d. (addr v l d, False)) True pages n st = Some (Inr (), st')"
    using new b by (auto simp: mhi_queue_inbound_def Let_def uci_fill_def)
  then show ?thesis using mhi_queue_inbound_cycle_partial [OF run new st(1) _ st(2-4) nr(2)] up by (simp add: chan_up_def)
qed

text \<open>
  A transfer the callback rejects, because it is empty or too long: its buffer is neither queued nor waiting any
  more, and the cycle is short of one.
\<close>

theorem rejected_transfer_loses_buffer:
  assumes c: "uci_cycle n N bs st" and q: "queued_at n (ud_ctl st) = a # rest" "queued_at n c' = rest" and a: "res_buf_addr res = a"
    and x: "res_bytes_xferd res = 0 \<or> ud_mtu st < ucast (res_bytes_xferd res)"
  shows "\<exists>st'. mhi_dl_xfer_cb dma_map tmp n mem res (st\<lparr>ud_ctl := c'\<rparr>) = Some st' \<and> waiting st' = waiting st \<and> ud_rx_error st' = ud_rx_error st \<and>
    length (queued_at n (ud_ctl st')) + length (waiting st') + 2 = N"
proof -
  note rp = uci_cycleD(4) [OF c] and ok = uci_cycleD(2) [OF c] and u = uci_cycleD(1) [OF c]
  obtain b where b: "buf_at bs (ud_rp_trb st) = Some b" "bs ! unat (ud_rp_trb st) = Some b" "ub_nr_trb b = ud_rp_trb st"
    by (rule buf_at_ok [OF ok rp])
  have "a # rest = map (data_at bs) (cyc N (unat (ud_rp_trb st)) (Suc (length rest)))" using uci_cycleD(7) [OF c] q by simp
  then have "ub_data b = a" using b rp by (simp add: cyc_Suc data_at_def)
  then show ?thesis using b u a x q uci_cycleD(6) [OF c]
    by (auto simp: mhi_dl_xfer_cb_def Let_def waiting_def)
qed

text \<open>
  What follows: when all buffers that are left have been received, reading the oldest packet queues a buffer the
  callback does not expect, its completion is taken for an error, and from then on every read fails.
\<close>

theorem short_cycle_fails:
  assumes u: "ud_uci_buf st = Bufs bs" and ok: "bufs_ok N bs" "inj_on (data_at bs) {..<N}" "2 < N" and nr: "unat (ud_nr_trbs st) = N"
    and rp: "unat (ud_rp_trb st) < N" and co: "chan_ok n (ud_ctl st)" "queued_at n (ud_ctl st) = []" and e0: "ud_rx_error st = 0"
    and p: "p = PageBuf ((unat (ud_rp_trb st) + 2) mod N)"
    and rc: "recycle dma_map n p st = Some (Inr u', st1)"
    and res: "queued_at n (ud_ctl st1) = [res_buf_addr res]"
  shows "\<exists>st2. mhi_dl_xfer_cb dma_map tmp n mem res (st1\<lparr>ud_ctl := c'\<rparr>) = Some st2 \<and> ud_rx_error st2 = 1 \<and>
    mhi_uci_read dma_map env n count st2 = Some (UErr EINVAL, [], st2)"
proof -
  let ?rp = "unat (ud_rp_trb st)" and ?k = "(unat (ud_rp_trb st) + 2) mod N"
  have k: "?k < N" using rp by simp
  from recycle_queues [OF u ok(1) nr k co(1) rc [unfolded p]] obtain c1 where st1: "st1 = st\<lparr>ud_ctl := c1\<rparr>"
    and "queued_at n c1 = [data_at bs ((?k + N - 1) mod N)]" using co(2) by auto
  then have a: "res_buf_addr res = data_at bs ((?k + N - 1) mod N)" using res by simp
  have x: "?k + N - 1 = ?k + (N - 1)" "?rp + 2 + (N - 1) = ?rp + 1 + N" using ok(3) by linarith+
  have i: "(?k + N - 1) mod N = (?rp + 1) mod N" unfolding x(1) by (simp only: mod_add_left_eq x(2) mod_add_self2)
  have ne: "(?rp + 1) mod N \<noteq> ?rp"
  proof
    assume "(?rp + 1) mod N = ?rp"
    then have "(?rp + 1) mod N = (?rp + 0) mod N" using rp by simp
    then have "1 = (0 :: nat)" by (rule mod_add_left_inj) (use ok(3) in simp_all)
    then show False by simp
  qed
  obtain b where b: "buf_at bs (ud_rp_trb st) = Some b" "bs ! ?rp = Some b" by (rule buf_at_ok [OF ok(1) rp])
  have "data_at bs ((?rp + 1) mod N) \<noteq> data_at bs ?rp" using inj_onD [OF ok(2), of "(?rp + 1) mod N" ?rp] ne rp by auto
  then have "ub_data b \<noteq> res_buf_addr res" using a i b(2) by (auto simp: data_at_def)
  then show ?thesis using b(1) u e0 st1 by (simp add: mhi_dl_xfer_cb_def mhi_uci_read_def)
qed

subsection \<open>Writing\<close>

text \<open>What other threads may do while a writer sleeps: they send nothing on this file and do not change the transfer size.\<close>

definition write_env_ok :: "write_round list \<Rightarrow> bool" where
  "write_env_ok rounds \<longleftrightarrow> (\<forall>w \<in> set rounds. wr_left w = 0 \<and> (\<forall>e \<in> set (wr_sleep w). \<forall>s. ud_sent (e s) = ud_sent s \<and> ud_mtu (e s) = ud_mtu s))"

lemma wait_interruptible_inv:
  assumes "wait_interruptible P es sg s = Some (b, s')" and "Q s" and "\<And>e s. e \<in> set es \<Longrightarrow> Q s \<Longrightarrow> Q (e s)"
  shows "Q s' \<and> (b \<longrightarrow> P s')"
  using assms by (induction es arbitrary: s) (auto split: if_splits)

text \<open>The chunks of a write: the pieces of the data in order, none longer than the transfer size, chained up to one that ends the transfer.\<close>

definition chunks_of :: "u64 \<Rightarrow> u8 list \<Rightarrow> (u8 list \<times> u32) list \<Rightarrow> bool" where
  "chunks_of mtu data ch \<longleftrightarrow> concat (map fst ch) = data \<and> (\<forall>c \<in> set ch. length (fst c) \<le> unat mtu) \<and>
     (ch \<noteq> [] \<longrightarrow> snd (last ch) = MHI_EOT)"

lemma chunks_of_Cons:
  assumes "chunks_of mtu (drop k data) ch" "k \<le> unat mtu" "ch = [] \<longrightarrow> f = MHI_EOT"
  shows "chunks_of mtu data ((take k data, f) # ch)"
  using assms by (auto simp: chunks_of_def)

lemma uci_write_round:
  assumes run: "uci_write_loop dma_map nb n (w # rounds) (x # xs) y st = Some (r, st')" and env: "write_env_ok (w # rounds)"
  obtains (stop) e where "r = UErr e" "ud_sent st' = ud_sent st" "ud_mtu st' = ud_mtu st"
  | (more) k f st2 where "k = min (length (x # xs)) (unat (ud_mtu st))" "drop k (x # xs) = [] \<longrightarrow> f = MHI_EOT"
      "uci_write_loop dma_map nb n rounds (drop k (x # xs)) (y + k) st2 = Some (r, st')"
      "ud_sent st2 = ud_sent st @ [(take k (x # xs), f)]" "ud_mtu st2 = ud_mtu st"
proof (cases "uci_free_descriptors n st = 0 \<and> nb")
  case True
  then show thesis using run stop by auto
next
  case False
  then obtain woken st1 where wt: "wait_interruptible (\<lambda>s. \<not> ud_enabled s \<or> 0 < uci_free_descriptors n s) (wr_sleep w) (wr_signal w) st = Some (woken, st1)"
    using run by (auto split: option.splits)
  have s1: "ud_sent st1 = ud_sent st" "ud_mtu st1 = ud_mtu st"
    using wait_interruptible_inv [OF wt, of "\<lambda>s. ud_sent s = ud_sent st \<and> ud_mtu s = ud_mtu st"] env by (auto simp: write_env_ok_def)
  have left: "wr_left w = 0" using env by (simp add: write_env_ok_def)
  show thesis
  proof (cases "woken \<and> ud_enabled st1 \<and> wr_kbuf w \<noteq> None")
    case no: False
    have "\<exists>e. r = UErr e \<and> st' = st1" using run False wt no by (auto simp: Let_def split: if_splits option.splits)
    then show thesis using stop s1 by auto
  next
    case True
    then obtain a where a: "wr_kbuf w = Some a" by auto
    let ?k = "min (length (x # xs)) (unat (ud_mtu st1))"
    let ?f = "if 1 < uci_free_descriptors n st1 \<and> ?k < length (x # xs) then MHI_CHAIN else MHI_EOT"
    obtain q c where q: "mhi_queue_transfer dma_map n a (of_nat ?k) ?f (ud_ctl st1) = (q, c)" by fastforce
    show thesis
    proof (cases q)
      case (Inl e)
      then have "r = UErr e \<and> st' = st1\<lparr>ud_ctl := c\<rparr>" using run False wt True a left q by (simp add: Let_def)
      then show thesis using stop s1 by auto
    next
      case (Inr u)
      let ?st2 = "st1\<lparr>ud_ctl := c, ud_kbufs := insert a (ud_kbufs st1), ud_sent := ud_sent st1 @ [(take ?k (x # xs), ?f)]\<rparr>"
      have "uci_write_loop dma_map nb n rounds (drop ?k (x # xs)) (y + ?k) ?st2 = Some (r, st')"
        using run False wt True a left q Inr by (simp add: Let_def)
      moreover have "drop ?k (x # xs) = [] \<longrightarrow> ?f = MHI_EOT" by simp
      ultimately show thesis using more [of ?k ?f ?st2] s1 by simp
    qed
  qed
qed

lemma uci_write_loop_sent:
  assumes "uci_write_loop dma_map nb n rounds data x st = Some (r, st')" and "write_env_ok rounds"
  shows "\<exists>ch. ud_sent st' = ud_sent st @ ch \<and>
    (case r of UVal k \<Rightarrow> k = x + length data \<and> chunks_of (ud_mtu st) data ch
     | UErr _ \<Rightarrow> \<exists>rest. concat (map fst ch) @ rest = data)"
  using assms
proof (induction rounds arbitrary: data x st)
  case Nil
  then show ?case by (cases data) (auto simp: chunks_of_def intro: exI [of _ "[]"])
next
  case (Cons w rounds)
  show ?case
  proof (cases data)
    case Nil
    then show ?thesis using Cons.prems by (auto simp: chunks_of_def intro: exI [of _ "[]"])
  next
    case data: (Cons z zs)
    from Cons.prems(1)[unfolded data] Cons.prems(2) show ?thesis
    proof (cases rule: uci_write_round)
      case (stop e)
      then show ?thesis by (auto intro: exI [of _ "[]"])
    next
      case (more k f st2)
      have "write_env_ok rounds" using Cons.prems(2) by (simp add: write_env_ok_def)
      from Cons.IH [OF more(3) this] obtain ch where ch: "ud_sent st' = ud_sent st2 @ ch"
        "case r of UVal m \<Rightarrow> m = x + k + length (drop k data) \<and> chunks_of (ud_mtu st2) (drop k data) ch
         | UErr _ \<Rightarrow> \<exists>rest. concat (map fst ch) @ rest = drop k data" unfolding data by blast
      have k: "k \<le> length data" "k \<le> unat (ud_mtu st)" using more(1) data by simp_all
      have "ch = [] \<longrightarrow> f = MHI_EOT" if "chunks_of (ud_mtu st2) (drop k data) ch" using that more(2) data by (auto simp: chunks_of_def)
      then have "chunks_of (ud_mtu st) data ((take k data, f) # ch)" if "chunks_of (ud_mtu st2) (drop k data) ch"
        using that chunks_of_Cons [OF _ k(2)] more(5) by simp
      moreover have "\<exists>rest. concat (map fst ((take k data, f) # ch)) @ rest = data" if "\<exists>rest. concat (map fst ch) @ rest = drop k data"
        using that by (auto, metis append_take_drop_id)
      ultimately show ?thesis using ch more(4) k(1) data
        by (intro exI [of _ "(take k data, f) # ch"]) (auto split: uci_ret.splits)
    qed
  qed
qed


text \<open>A fault while copying from user space: the number of bytes that are missing is returned as if they had been written.\<close>

lemma uci_write_fault:
  assumes "ud_enabled st" "ud_rx_error st = 0" "0 < uci_free_descriptors n st" "wr_kbuf w = Some a" "wr_left w = Suc m"
  shows "mhi_uci_write dma_map nb n (w # rounds) (x # xs) st = Some (UVal (Suc m), st)"
proof -
  have "wait_interruptible (\<lambda>s. \<not> ud_enabled s \<or> 0 < uci_free_descriptors n s) (wr_sleep w) (wr_signal w) st = Some (True, st)"
    using assms(3) by (cases "wr_sleep w") simp_all
  then show ?thesis using assms by (simp add: mhi_uci_write_def Let_def)
qed

subsection \<open>Polling, opening and removing\<close>

lemma waiting_Nil: "waiting st = [] \<longleftrightarrow> ud_cur_buf st = None \<and> ud_pending st = []"
  by (auto simp: waiting_def split: option.splits)

text \<open>
  Polling: the device is readable exactly when a read finds a packet and does not sleep; without one a read that must
  not block fails with EAGAIN. The device is writable exactly with a free descriptor.
\<close>

theorem mhi_uci_poll_ready:
  assumes "re_nonblock env" "\<not> re_null env" "ud_rx_error st = 0" "ud_enabled st"
  shows "(mhi_uci_poll st AND POLLIN \<noteq> 0 \<longleftrightarrow> waiting st \<noteq> []) \<and>
    (waiting st = [] \<longrightarrow> mhi_uci_read dma_map env n count st = Some (UErr EAGAIN, [], st)) \<and>
    (waiting st \<noteq> [] \<longrightarrow> mhi_uci_read dma_map (env\<lparr>re_nonblock := False, re_sleep := es, re_signal := sg\<rparr>) n count st = mhi_uci_read dma_map env n count st) \<and>
    (mhi_uci_poll st AND POLLOUT \<noteq> 0 \<longleftrightarrow> (\<exists>u. ul_chan (ud_mhi_dev st) = Some u \<and> 0 < uci_free_descriptors u st))"
proof (intro conjI)
  show "mhi_uci_poll st AND POLLIN \<noteq> 0 \<longleftrightarrow> waiting st \<noteq> []"
    using assms(3,4) by (simp add: mhi_uci_poll_def poll_defs waiting_Nil bit.conj_disj_distrib2 split: option.splits) blast
  show "mhi_uci_poll st AND POLLOUT \<noteq> 0 \<longleftrightarrow> (\<exists>u. ul_chan (ud_mhi_dev st) = Some u \<and> 0 < uci_free_descriptors u st)"
    using assms(3,4) by (simp add: mhi_uci_poll_def poll_defs bit.conj_disj_distrib2 split: option.splits)
qed (use assms in \<open>auto simp: mhi_uci_read_def waiting_Nil Let_def split: option.splits list.splits\<close>)

text \<open>
  An open that cannot queue its receive buffers frees them, but keeps its reference and the pointer to the array: the
  next open succeeds without starting the channel, on freed buffers.
\<close>

theorem mhi_uci_open_failure:
  assumes run: "mhi_uci_open dma_map env st = Some (Inl e, st')" and st: "ud_listed st" "ud_enabled st" "ud_ref_count st = 0" "ud_uci_buf st = NoBufs"
    and p: "mhi_prepare_for_transfer (oe_ul env) (oe_dl env) (oe_wait env) (ud_mhi_dev st) (ud_ctl st) = Some (Inr u, c)" and a: "oe_array env"
  shows "ud_ref_count st' = 1 \<and> ud_uci_buf st' = Dangling \<and>
    mhi_uci_open dma_map env' st' = Some (Inr (), st'\<lparr>ud_ref_count := 2\<rparr>)"
proof -
  let ?st1 = "st\<lparr>ud_ref_count := 1, ud_ctl := c, ud_queue_inbound := True\<rparr>"
  obtain n st2 c' where n: "dl_chan (ud_mhi_dev st) = Some n"
    and q: "mhi_queue_inbound dma_map True (oe_pages env) n ?st1 = Some (Inl e, st2)"
    and f: "free_uci_bufs (st2\<lparr>ud_queue_inbound := False, ud_ctl := c'\<rparr>) = Some st'"
    using run st p a by (auto simp: mhi_uci_open_def Let_def split: option.splits sum.splits)
  have k: "\<exists>bs. ud_uci_buf st2 = Bufs bs" "ud_ref_count st2 = 1" "ud_listed st2 = ud_listed st" "ud_enabled st2 = ud_enabled st"
    using q st(4) by (auto simp: mhi_queue_inbound_def uci_fill_def Let_def split: if_splits prod.splits option.splits)
  then show ?thesis using f st(1,2) by (auto simp: free_uci_bufs_def mhi_uci_open_def split: if_splits)
qed

text \<open>Removing a device that no file holds open frees the device and forgets its receive buffers.\<close>

lemma mhi_uci_remove_leaks:
  assumes "ud_ref_count st = 1" "ud_uci_buf st = Bufs bs"
  shows "\<not> ud_alive (mhi_uci_remove st) \<and> ud_pages (mhi_uci_remove st) = ud_pages st \<and> ud_uci_buf (mhi_uci_remove st) = Bufs bs"
  using assms by (simp add: mhi_uci_remove_def Let_def)

text \<open>A new device gets the least minor number that is free.\<close>

lemma mhi_uci_probe_minor:
  assumes "mhi_uci_probe al mm dm t dev dl minors c = Inr st"
  shows "ud_minor st < MAX_UCI_DEVICES \<and> ud_minor st \<notin> minors \<and> (\<forall>m < ud_minor st. m \<in> minors) \<and> ud_minors st = insert (ud_minor st) minors"
proof -
  let ?l = "filter (\<lambda>i. i \<notin> minors) [0..<MAX_UCI_DEVICES]"
  have "ud_minor st = find_first_zero_bit minors MAX_UCI_DEVICES" "find_first_zero_bit minors MAX_UCI_DEVICES < MAX_UCI_DEVICES"
    "ud_minors st = insert (ud_minor st) minors"
    using assms by (auto simp: mhi_uci_probe_def Let_def split: if_splits)
  moreover obtain i js where l: "?l = i # js" using calculation(2) by (cases ?l) (auto simp: find_first_zero_bit_def)
  moreover have "sorted_wrt (<) (i # js)" using sorted_wrt_filter [OF sorted_wrt_upt, of "\<lambda>i. i \<notin> minors" 0 MAX_UCI_DEVICES] l by simp
  moreover have il: "i \<in> set ?l" unfolding l by simp
  moreover from il have "i \<notin> minors" by simp
  moreover have "m \<in> minors" if "m < i" for m
  proof (rule ccontr)
    assume "m \<notin> minors"
    then have "m \<in> set ?l" using that il by simp
    then show False using l \<open>sorted_wrt (<) (i # js)\<close> that by auto
  qed
  ultimately show ?thesis by (auto simp: find_first_zero_bit_def)
qed

text \<open>The module is registered completely or not at all, and unloading takes back what loading registered.\<close>

lemma mhi_device_uci_init_result:
  assumes "mhi_device_uci_init chrdev cls reg d = (r, d')" and "\<not> uv_chrdev d" "\<not> uv_class d" "\<not> uv_driver d"
  shows "(case r of Inr _ \<Rightarrow> uv_chrdev d' \<and> uv_class d' \<and> uv_driver d' | Inl _ \<Rightarrow> \<not> uv_chrdev d' \<and> \<not> uv_class d' \<and> \<not> uv_driver d') \<and>
    mhi_device_uci_exit d' = d\<lparr>uv_major := uv_major d'\<rparr>"
  using assms by (cases d) (auto simp: mhi_device_uci_init_def mhi_device_uci_exit_def Let_def split: sum.splits if_splits)

end
