(* ===== verification/Uci_Examples.thy ===== *)
theory Uci_Examples
  imports MHI_Examples MHI_Uci
begin

text \<open>
  A character device on the example controller: one outbound channel and one inbound channel, and the properties of
  \<open>MHI_Uci\<close> applied to it.
\<close>

subsection \<open>The example device\<close>

definition rx_chan :: "u64 \<Rightarrow> u64 \<Rightarrow> mhi_chan" where
  "rx_chan rp buf = demo_chan\<lparr>chan := 2, ch_dir := DMA_FROM_DEVICE, tre_ring := demo_ring 0x1000 (0x1000 + rp) zero_tre,
     buf_ring := demo_ring 0x3000 (0x3000 + rp) (zero_buf_info\<lparr>cb_buf := buf\<rparr>)\<rparr>"

lemma rx_ring_wf [simp]: "ring_wf (demo_ring 0x1000 0x1000 e)" "ring_used (demo_ring 0x1000 0x1000 e) = 0"
  by (simp_all add: ring_wf_def ring_geom_def valid_ptr_def ring_used_def ring_idx_def)

lemma rx_chan_sel [simp]:
  "chan_sync (rx_chan 0 b)" "chan_sync (rx_chan 0x30 b)" "\<not> offload_ch (rx_chan rp b)" "slots (tre_ring (rx_chan rp b)) = 4"
  "ring_list (buf_ring (rx_chan 0 b)) = []" "ring_list (buf_ring (rx_chan 0x30 b)) = [zero_buf_info\<lparr>cb_buf := b\<rparr>]"
  "ring_used (tre_ring (rx_chan 0 b)) = 0" "ring_used (tre_ring (rx_chan 0x30 b)) = 1"
  by (simp_all add: chan_sync_def rx_chan_def)

lemma rx_fit: "chan_fit (rx_chan 0 b)" "chan_fit (rx_chan 0x30 b)"
  by (simp_all add: chan_fit_def)

definition uci_ctrl :: "u64 \<Rightarrow> u64 \<Rightarrow> mhi_controller" where
  "uci_ctrl rp b = demo_ctrl\<lparr>mhi_chans := [zero_chan, demo_chan, rx_chan rp b]\<rparr>"

lemma uci_ctrl_sel [simp]:
  "chan_at (uci_ctrl rp b) (Suc 0) = demo_chan" "chan_at (uci_ctrl rp b) 2 = rx_chan rp b" "pm_state (uci_ctrl rp b) = MHI_PM_M0"
  "length (mhi_chans (uci_ctrl rp b)) = 3"
  by (simp_all add: uci_ctrl_def chan_at_def)

lemma uci_chan_ok [simp]: "chan_ok 2 (uci_ctrl 0 b)" "chan_ok 2 (uci_ctrl 0x30 b)" "chan_ok (Suc 0) (uci_ctrl rp b)"
  by (simp_all add: chan_ok_def)

lemma uci_queued [simp]: "queued_at 2 (uci_ctrl 0 b) = []" "queued_at 2 (uci_ctrl 0x30 b) = [b]"
  by (simp_all add: queued_at_def)

text \<open>A DIAG device that was just added, and one with two receive buffers, the first of them with the device.\<close>

definition new_uci :: uci_dev where
  "new_uci = \<lparr>ud_ctl = uci_ctrl 0 0, ud_mhi_dev = \<lparr>ul_chan = Some 1, dl_chan = Some 2, md_dev_wake = 0\<rparr>, ud_dl_chan_id = 5, ud_alive = True,
     ud_listed = True, ud_minor = 0, ud_minors = {0}, ud_enabled = True, ud_ref_count = 0, ud_mtu = 16, ud_rx_error = 0,
     ud_rp_trb = 0, ud_wp_trb = 0, ud_nr_trbs = 0, ud_uci_buf = NoBufs, ud_pages = 0, ud_pending = [], ud_cur_buf = None,
     ud_rx_size = 0, ud_bytes_xferd = 0, ud_queue_inbound = False, ud_termios = 0, ud_kbufs = {}, ud_sent = []\<rparr>"

definition demo_buf :: "u32 \<Rightarrow> u64 \<Rightarrow> uci_buf option" where
  "demo_buf i a = Some \<lparr>ub_page = True, ub_data = a, ub_len = 0, ub_nr_trb = i, ub_bytes = []\<rparr>"

definition open_uci :: uci_dev where
  "open_uci = new_uci\<lparr>ud_ctl := uci_ctrl 0x30 0x9000, ud_ref_count := 2, ud_wp_trb := 1, ud_nr_trbs := 2,
     ud_uci_buf := Bufs [demo_buf 0 0x9000, demo_buf 1 0xA000], ud_pages := 2\<rparr>"

lemma not_copied: "\<not> copy_chan 5"
  by (simp add: copy_chan_def MHI_CLIENT_DUN_IN_def MHI_CLIENT_QMI_IN_def MHI_CLIENT_MBIM_IN_def)

lemma open_uci_cycle: "uci_cycle 2 2 [demo_buf 0 0x9000, demo_buf 1 0xA000] open_uci"
  by (simp add: uci_cycle_def open_uci_def new_uci_def bufs_ok_def demo_buf_def waiting_def data_at_def cyc_Suc less_2_cases_iff all_conj_distrib)

lemma open_uci_inv: "uci_inv 2 open_uci"
  using open_uci_cycle not_copied by (auto simp: uci_inv_def open_uci_def new_uci_def)

definition rx_result :: "u64 \<Rightarrow> u16 \<Rightarrow> mhi_result" where
  "rx_result a l = \<lparr>res_buf_addr = a, res_bytes_xferd = l, res_dir = DMA_FROM_DEVICE, res_transaction_status = None\<rparr>"

subsection \<open>Receiving\<close>

theorem mhi_queue_inbound_cycle_witness:
  "\<exists>st'. mhi_queue_inbound (\<lambda>v l d. (v, False)) True (\<lambda>i. Some (0x9000 + 0x1000 * of_nat i)) 2 new_uci = Some (Inr (), st') \<and> uci_inv 2 st' \<and>
     length (queued_at 2 (ud_ctl st')) = 3"
proof -
  have "uci_free_descriptors 2 new_uci = 3"
    using free_descriptors [OF rx_fit(1), of 0] by (simp add: uci_free_descriptors_def new_uci_def)
  then show ?thesis
    using mhi_queue_inbound_cycle [of new_uci 2 "\<lambda>i. Some (0x9000 + 0x1000 * of_nat i)" "\<lambda>v l d. v"] not_copied rx_fit(1)
    by (auto simp: waiting_def chan_up_def new_uci_def)
qed

text \<open>The device sends three bytes and a reader takes two of them.\<close>

definition read_two :: read_env where
  "read_two = \<lparr>re_null = False, re_nonblock = True, re_sleep = [], re_signal = False, re_left = 0\<rparr>"

lemma demo_run: "\<exists>st'. uci_run 2 open_uci [1, 2, 3] [1, 2] st'"
proof -
  let ?b = "demo_buf 0 0x9000" and ?mem = "\<lambda>i. of_nat i + 1"
  let ?b1 = "Some \<lparr>ub_page = True, ub_data = 0x9000, ub_len = 3, ub_nr_trb = 0, ub_bytes = [1, 2, 3]\<rparr>"
  let ?st1 = "open_uci\<lparr>ud_ctl := uci_ctrl 0 0, ud_rp_trb := 1, ud_bytes_xferd := 3, ud_uci_buf := Bufs [?b1, demo_buf 1 0xA000], ud_pending := [PageBuf 0]\<rparr>"
  let ?st2 = "?st1\<lparr>ud_pending := [], ud_cur_buf := Some (PageBuf 0), ud_rx_size := 1\<rparr>"
  have "uci_step 2 open_uci (map ?mem [0..<unat (res_bytes_xferd (rx_result 0x9000 3))]) [] ?st1"
    by (rule complete [where c = "uci_ctrl 0 0" and a = "0x9000" and rest = "[]" and dma_map = demo_map and tmp = True])
      (use not_copied in \<open>simp_all add: open_uci_def new_uci_def rx_result_def mhi_dl_xfer_cb_def buf_at_def demo_buf_def trb_next_def Let_def upt_rec max_def\<close>)
  then have s1: "uci_step 2 open_uci [1, 2, 3] [] ?st1" by (simp add: rx_result_def upt_rec)
  have "mhi_uci_read demo_map read_two 2 2 ?st1 = Some (UVal 2, [1, 2], ?st2)"
    by (simp add: mhi_uci_read_def read_two_def uci_read_copy_def pkt_bytes_def open_uci_def new_uci_def Let_def min_def)
  then have s2: "uci_step 2 ?st1 [] [1, 2] ?st2" by (rule take_data) (simp_all add: read_two_def)
  show ?thesis using step [OF s1 step [OF s2 stop]] by auto
qed


theorem rejected_transfer_loses_buffer_witness:
  "\<exists>st'. mhi_dl_xfer_cb demo_map True 2 (\<lambda>_. 0) (rx_result 0x9000 0) (open_uci\<lparr>ud_ctl := uci_ctrl 0 0\<rparr>) = Some st' \<and>
     queued_at 2 (ud_ctl st') = [] \<and> waiting st' = []"
  using rejected_transfer_loses_buffer [OF open_uci_cycle, of "0x9000" "[]" "uci_ctrl 0 0" "rx_result 0x9000 0" demo_map True "\<lambda>_. 0"]
  by (auto simp: open_uci_def new_uci_def rx_result_def)

subsection \<open>Writing and polling\<close>

lemma demo_write:
  "\<exists>st'. mhi_uci_write demo_map False 1 [\<lparr>wr_sleep = [], wr_signal = False, wr_kbuf = Some 0xC000, wr_left = 0\<rparr>] [1, 2, 3] new_uci = Some (UVal 3, st')"
proof -
  have f: "chan_fit demo_chan" by (simp add: chan_fit_def)
  have d: "0 < uci_free_descriptors 1 new_uci"
    using free_descriptors [OF f] by (simp add: uci_free_descriptors_def new_uci_def)
  obtain r c where q: "mhi_queue_transfer demo_map 1 0xC000 3 MHI_EOT (ud_ctl new_uci) = (r, c)" by fastforce
  then have "r = Inr ()" using mhi_queue_transfer_spec [OF _ q] by (simp add: new_uci_def demo_map_def)
  then show ?thesis using d q by (simp add: mhi_uci_write_def Let_def new_uci_def)
qed


theorem mhi_uci_poll_ready_witness: "mhi_uci_poll new_uci AND POLLIN = 0 \<and> mhi_uci_read demo_map read_two 2 2 new_uci = Some (UErr EAGAIN, [], new_uci)"
  using mhi_uci_poll_ready [of read_two new_uci] by (simp add: read_two_def new_uci_def waiting_def)

end
