(* ===== verification/MHI_Pci.thy ===== *)
theory MHI_Pci
  imports MHI_PM
begin

text \<open>
  The PCIe controller driver (\<^verbatim>\<open>pcie_mhi/src/controllers/mhi_qti.c\<close>), in the configuration without \<^verbatim>\<open>CONFIG_PCI_MSM\<close>: probing
  and removing the PCI device, powering the controller up, runtime and system power management, the link state and the
  low power state of the link.

  The calls of the PCI core that take or give back a resource are recorded in order in \<open>ps_log\<close>, and \<open>pci_held\<close> counts
  how often each resource is held. The lemmas show which resources are held after probing and after every failure of
  it, that removal gives back what probing took, and that the low power state is restored.

  What the PCI core returns is an argument, and so is the outcome of looking up or registering the controller
  (\<^verbatim>\<open>mhi_bdf_to_controller\<close>, \<^verbatim>\<open>mhi_register_controller\<close>).
\<close>

subsection \<open>State\<close>

definition BHIOFF :: u32 where [mhi_consts]: "BHIOFF = 0x28"
definition BHIEOFF :: u32 where [mhi_consts]: "BHIEOFF = 0x2C"


datatype pci_op = PciEnable | PciDisable | RegionRequest | RegionRelease | MasterSet | MasterClear | Ioremap | Iounmap
  | VectorsAlloc nat | VectorsFree | IrqAlloc | IrqFree | AutosuspendOn | RpmDisable | RpmForbid | StayAwake | Relax

record pci_sys =
  ps_ctl :: mhi_controller
  ps_log :: "pci_op list"
  ps_powered_on :: bool
  ps_lpm_disabled :: bool
  ps_config :: "nat \<Rightarrow> u8"
  ps_irq :: "int list option"
  ps_timeout_ms :: u32
  ps_usage :: int

definition pci_ops :: "pci_op list \<Rightarrow> pci_sys \<Rightarrow> pci_sys" where "pci_ops es st = st\<lparr>ps_log := ps_log st @ es\<rparr>"

datatype pci_ret = PciErr errno | PciInt int

definition pci_ret :: "unit res \<Rightarrow> pci_ret" where "pci_ret r = (case r of Inl e \<Rightarrow> PciErr e | Inr _ \<Rightarrow> PciInt 0)"

text \<open>The results of the PCI core; \<open>pi_vectors\<close> is the number of interrupt vectors, or a negative error number.\<close>

record pci_env =
  pi_assign :: "unit res"
  pi_enable :: "unit res"
  pi_request :: "unit res"
  pi_mask64 :: bool
  pi_coherent64 :: "unit res"
  pi_mask32 :: bool
  pi_coherent32 :: "unit res"
  pi_ioremap :: "u64 option"
  pi_vectors :: int
  pi_irq_array :: bool
  pi_irq_vector :: "nat \<Rightarrow> int"

subsection \<open>Setting up the PCI device\<close>

definition pci_dma_mask :: "pci_env \<Rightarrow> unit res" where
  "pci_dma_mask env = (if pi_mask64 env then pi_coherent64 env else if pi_mask32 env then pi_coherent32 env else Inl EIO)"

definition pci_unwind_map :: "pci_op list" where "pci_unwind_map = [MasterClear, PciDisable, RegionRelease]"

text \<open>The test for too few vectors; one vector is always enough.\<close>

definition pci_vectors_bad :: "u32 \<Rightarrow> int \<Rightarrow> bool" where
  "pci_vectors_bad required v \<longleftrightarrow> (v < 0 \<or> v < uint required) \<and> v \<noteq> 1"

text \<open>The part of \<^verbatim>\<open>mhi_init_pci_dev\<close> after the vectors: the array of interrupt numbers and runtime power management.\<close>

definition pci_init_irqs :: "pci_env \<Rightarrow> pci_sys \<Rightarrow> pci_ret \<times> pci_sys" where
  "pci_init_irqs env st =
     (let v = pi_vectors env; st1 = st\<lparr>ps_ctl := (ps_ctl st)\<lparr>msi_allocated := of_int v\<rparr>\<rparr>
      in if \<not> pi_irq_array env then (PciErr ENOMEM, pci_ops ([VectorsFree, Iounmap] @ pci_unwind_map) st1)
         else (case find (\<lambda>i. pi_irq_vector env i < 0) [0..<nat v] of
                 Some i \<Rightarrow> (PciInt (pi_irq_vector env i),
                            pci_ops ([IrqAlloc, IrqFree, VectorsFree, Iounmap] @ pci_unwind_map) (st1\<lparr>ps_irq := None\<rparr>))
               | None \<Rightarrow> (PciInt 0, (pci_ops [IrqAlloc, AutosuspendOn] st1)\<lparr>ps_irq := Some (map (pi_irq_vector env) [0..<nat v]),
                            ps_usage := ps_usage st1 - 1\<rparr>)))"

definition mhi_init_pci_dev :: "pci_env \<Rightarrow> pci_sys \<Rightarrow> pci_ret \<times> pci_sys" where
  "mhi_init_pci_dev env st =
     (case pi_assign env of
        Inl e \<Rightarrow> (PciErr e, st)
      | Inr _ \<Rightarrow>
          (case pi_enable env of
             Inl e \<Rightarrow> (PciErr e, pci_ops [RegionRelease] st)
           | Inr _ \<Rightarrow>
               (case pi_request env of
                  Inl e \<Rightarrow> (PciErr e, pci_ops [PciEnable, PciDisable, RegionRelease] st)
                | Inr _ \<Rightarrow>
                    (let st1 = pci_ops [PciEnable, RegionRequest, MasterSet] st
                     in case pi_ioremap env of
                          None \<Rightarrow> (pci_ret (pci_dma_mask env), pci_ops pci_unwind_map (st1\<lparr>ps_ctl := (ps_ctl st1)\<lparr>regs := 0\<rparr>\<rparr>))
                        | Some a \<Rightarrow>
                            (let v = pi_vectors env;
                                 st2 = pci_ops (if 0 < v then [Ioremap, VectorsAlloc (nat v)] else [Ioremap])
                                         (st1\<lparr>ps_ctl := (ps_ctl st1)\<lparr>regs := a\<rparr>\<rparr>)
                             in if pci_vectors_bad (msi_required (ps_ctl st2)) v then (PciInt v, pci_ops (Iounmap # pci_unwind_map) st2)
                                else pci_init_irqs env st2)))))"

definition mhi_deinit_pci_dev :: "pci_sys \<Rightarrow> pci_sys" where
  "mhi_deinit_pci_dev st =
     (pci_ops [RpmDisable, VectorsFree, IrqFree, Iounmap, MasterClear, RegionRelease, PciDisable] st)
       \<lparr>ps_irq := None, ps_ctl := (ps_ctl st)\<lparr>regs := 0\<rparr>\<rparr>"

subsection \<open>Powering up\<close>

text \<open>The loop that waits for the device to leave the error state; \<open>delay\<close> is what the device does during \<^verbatim>\<open>usleep_range\<close>.\<close>

fun poll_sys_err :: "(mhi_controller \<Rightarrow> mhi_controller) \<Rightarrow> nat \<Rightarrow> u32 \<Rightarrow> mhi_controller \<Rightarrow> u32 \<times> mhi_controller" where
  "poll_sys_err delay 0 s c = (s, c)"
| "poll_sys_err delay (Suc n) s c =
     (let s' = mhi_get_mhi_state c in if s' \<noteq> MHI_STATE_SYS_ERR then (s', c) else poll_sys_err delay n s' (delay c))"

definition power_up_polls :: "u32 \<Rightarrow> nat" where
  "power_up_polls timeout_ms = unat ((timeout_ms * 1000 + (10 - 1)) div 10)"

definition mhi_power_up :: "(mhi_controller \<Rightarrow> mhi_controller) \<Rightarrow> power_env \<Rightarrow> u32 \<Rightarrow> mhi_controller \<Rightarrow> unit res \<times> mhi_controller" where
  "mhi_power_up delay env timeout_ms c =
     (let dev_state = mhi_get_mhi_state c
      in case mhi_read_reg c (regs c) BHIOFF of
           Inl _ \<Rightarrow> (Inl EIO, c)
         | Inr v \<Rightarrow>
             (let c1 = c\<lparr>bhi := regs c + ucast v\<rparr>
              in case mhi_read_reg c1 (regs c1) BHIEOFF of
                   Inl _ \<Rightarrow> (Inl EIO, c1)
                 | Inr v \<Rightarrow>
                     (let c2 = c1\<lparr>bhie := regs c1 + ucast v\<rparr>; c3 = mhi_write_reg (bhi c2) BHI_INTVEC (msi_irq_base c2) c2
                      in if dev_state \<noteq> MHI_STATE_SYS_ERR then mhi_async_power_up env c3
                         else (let (s, c4) = poll_sys_err delay (power_up_polls timeout_ms) dev_state (mhi_set_mhi_state MHI_STATE_RESET c3)
                               in if s = MHI_STATE_SYS_ERR then (Inl EIO, c4)
                                  else mhi_async_power_up env (mhi_write_reg (bhi c4) BHI_INTVEC (msi_irq_base c4) c4)))))"

subsection \<open>Probing and removing\<close>

text \<open>
  \<open>vendor\<close>: the vendor number read from the configuration space; \<open>found\<close>: the controller that was registered already or
  is registered now. The device keeps \<open>powered_on\<close> and stays registered when probing fails.
\<close>

definition mhi_pci_is_alive :: "u16 res \<Rightarrow> bool" where
  "mhi_pci_is_alive vendor = (case vendor of Inl _ \<Rightarrow> False | Inr v \<Rightarrow> v \<noteq> 0xFFFF \<and> v \<noteq> 0)"

definition mhi_pci_probe ::
  "u16 res \<Rightarrow> mhi_controller res \<Rightarrow> bool \<Rightarrow> pci_env \<Rightarrow> (mhi_controller \<Rightarrow> mhi_controller) \<Rightarrow> power_env \<Rightarrow> pci_sys \<Rightarrow> pci_ret \<times> pci_sys" where
  "mhi_pci_probe vendor found debug_mode env delay penv st =
     (if \<not> mhi_pci_is_alive vendor then (PciErr EIO, st)
      else case found of
             Inl e \<Rightarrow> (PciErr e, st)
           | Inr c \<Rightarrow>
               (case mhi_init_pci_dev env (st\<lparr>ps_ctl := c, ps_powered_on := True\<rparr>) of
                  (r, st1) \<Rightarrow>
                    if r \<noteq> PciInt 0 then (r, st1)
                    else if debug_mode then (PciInt 0, st1)
                    else (case mhi_power_up delay penv (ps_timeout_ms st1) (ps_ctl st1) of
                            (Inl e, c2) \<Rightarrow> (PciErr e, mhi_deinit_pci_dev (st1\<lparr>ps_ctl := c2\<rparr>))
                          | (Inr _, c2) \<Rightarrow> (PciInt 0, st1\<lparr>ps_ctl := c2\<rparr>))))"

text \<open>\<open>registered\<close>: \<^verbatim>\<open>mhi_bdf_to_controller\<close> finds the controller.\<close>

definition mhi_pci_device_removed :: "bool \<Rightarrow> disable_env \<Rightarrow> pci_sys \<Rightarrow> pci_sys" where
  "mhi_pci_device_removed registered env st =
     (if \<not> registered then st
      else if \<not> ps_powered_on st then pci_ops [StayAwake] st
      else pci_ops [Relax]
             (mhi_deinit_pci_dev ((pci_ops [StayAwake] st)\<lparr>ps_powered_on := False, ps_ctl := mhi_power_down env False (ps_ctl st)\<rparr>)))"

subsection \<open>Power management\<close>

text \<open>Without \<^verbatim>\<open>CONFIG_PCI_MSM\<close> turning the link off and on (\<^verbatim>\<open>mhi_arch_link_off\<close>, \<^verbatim>\<open>mhi_arch_link_on\<close>) does nothing and succeeds.\<close>

definition mhi_runtime_suspend :: "env \<Rightarrow> env \<Rightarrow> pci_sys \<Rightarrow> unit res \<times> pci_sys" where
  "mhi_runtime_suspend es1 es2 st =
     (if \<not> ps_powered_on st then (Inr (), st)
      else if ee (ps_ctl st) \<noteq> MHI_EE_AMSS then (Inl EBUSY, st)
      else (let (r, c) = mhi_pm_suspend es1 es2 (ps_ctl st) in (r, st\<lparr>ps_ctl := c\<rparr>)))"

definition mhi_runtime_idle :: "mhi_controller \<Rightarrow> unit res" where
  "mhi_runtime_idle c = (if (dev_state c = MHI_STATE_M0 \<or> dev_state c = MHI_STATE_M3) \<and> ee c = MHI_EE_AMSS then Inr () else Inl EBUSY)"

definition mhi_runtime_resume :: "env \<Rightarrow> pci_sys \<Rightarrow> unit res \<times> pci_sys" where
  "mhi_runtime_resume es st =
     (if \<not> ps_powered_on st then (Inr (), st)
      else (let (r, c) = mhi_pm_resume es (ps_ctl st) in (r, st\<lparr>ps_ctl := c\<rparr>)))"

definition mhi_system_resume :: "env \<Rightarrow> pci_sys \<Rightarrow> unit res \<times> pci_sys" where
  "mhi_system_resume es st = mhi_runtime_resume es st"

text \<open>\<open>suspended\<close>: the device is suspended already, by runtime power management.\<close>

definition mhi_system_suspend :: "bool \<Rightarrow> env \<Rightarrow> env \<Rightarrow> pci_sys \<Rightarrow> unit res \<times> pci_sys" where
  "mhi_system_suspend suspended es1 es2 st =
     (if pending_pkts (ps_ctl st) \<noteq> 0 then (Inl EBUSY, st)
      else if suspended then (Inr (), st)
      else mhi_runtime_suspend es1 es2 st)"

definition mhi_link_status :: "u16 res \<Rightarrow> u32 \<Rightarrow> unit res" where
  "mhi_link_status dev_id expected = (case dev_id of Inl _ \<Rightarrow> Inl EIO | Inr v \<Rightarrow> if ucast v \<noteq> expected then Inl EIO else Inr ())"

definition PCI_EXP_LNKCTL_ASPM_L1 :: u8 where "PCI_EXP_LNKCTL_ASPM_L1 = 0x02"

text \<open>\<open>lnkctl\<close>: the place of the link control byte; \<open>rd\<close> and \<open>wr\<close>: the results of reading and writing the configuration space.\<close>

definition mhi_lpm_disable :: "unit res \<Rightarrow> unit res \<Rightarrow> nat \<Rightarrow> pci_sys \<Rightarrow> unit res \<times> pci_sys" where
  "mhi_lpm_disable rd wr lnkctl st =
     (case rd of
        Inl e \<Rightarrow> (Inl e, st)
      | Inr _ \<Rightarrow>
          (let val = ps_config st lnkctl
           in if val AND PCI_EXP_LNKCTL_ASPM_L1 = 0 then (Inr (), st)
              else (case wr of
                      Inl e \<Rightarrow> (Inl e, st)
                    | Inr _ \<Rightarrow> (Inr (), st\<lparr>ps_config := (ps_config st)(lnkctl := val AND NOT PCI_EXP_LNKCTL_ASPM_L1), ps_lpm_disabled := True\<rparr>))))"

definition mhi_lpm_enable :: "unit res \<Rightarrow> unit res \<Rightarrow> nat \<Rightarrow> pci_sys \<Rightarrow> unit res \<times> pci_sys" where
  "mhi_lpm_enable rd wr lnkctl st =
     (if \<not> ps_lpm_disabled st then (Inr (), st)
      else case rd of
             Inl e \<Rightarrow> (Inl e, st)
           | Inr _ \<Rightarrow>
               (case wr of
                  Inl e \<Rightarrow> (Inl e, st)
                | Inr _ \<Rightarrow> (Inr (), st\<lparr>ps_config := (ps_config st)(lnkctl := ps_config st lnkctl OR PCI_EXP_LNKCTL_ASPM_L1), ps_lpm_disabled := False\<rparr>)))"

definition mhi_status_cb :: "MHI_CB \<Rightarrow> pci_sys \<Rightarrow> pci_sys" where
  "mhi_status_cb reason st = (if reason = MHI_CB_FATAL_ERROR \<or> reason = MHI_CB_SYS_ERROR then pci_ops [RpmForbid] st else st)"

definition timeout_ms_store :: "u32 option \<Rightarrow> nat \<Rightarrow> pci_sys \<Rightarrow> nat res \<times> pci_sys" where
  "timeout_ms_store parsed count st =
     (case parsed of None \<Rightarrow> (Inl EINVAL, st) | Some t \<Rightarrow> (Inr count, st\<lparr>ps_timeout_ms := t\<rparr>))"

definition power_up_store :: "(mhi_controller \<Rightarrow> mhi_controller) \<Rightarrow> power_env \<Rightarrow> nat \<Rightarrow> pci_sys \<Rightarrow> nat res \<times> pci_sys" where
  "power_up_store delay env count st =
     (case mhi_power_up delay env (ps_timeout_ms st) (ps_ctl st) of
        (Inl e, c) \<Rightarrow> (Inl e, st\<lparr>ps_ctl := c\<rparr>)
      | (Inr _, c) \<Rightarrow> (Inr count, st\<lparr>ps_ctl := c\<rparr>))"

subsection \<open>Which resources are held\<close>

datatype pci_res = Device | Region | Master | Mapping | Vectors | Irqs | Awake

definition op_delta :: "pci_op \<Rightarrow> pci_res \<Rightarrow> int" where
  "op_delta e r =
     (case e of
        PciEnable \<Rightarrow> of_bool (r = Device) | PciDisable \<Rightarrow> - of_bool (r = Device)
      | RegionRequest \<Rightarrow> of_bool (r = Region) | RegionRelease \<Rightarrow> - of_bool (r = Region)
      | MasterSet \<Rightarrow> of_bool (r = Master) | MasterClear \<Rightarrow> - of_bool (r = Master)
      | Ioremap \<Rightarrow> of_bool (r = Mapping) | Iounmap \<Rightarrow> - of_bool (r = Mapping)
      | VectorsAlloc n \<Rightarrow> of_bool (r = Vectors) | VectorsFree \<Rightarrow> - of_bool (r = Vectors)
      | IrqAlloc \<Rightarrow> of_bool (r = Irqs) | IrqFree \<Rightarrow> - of_bool (r = Irqs)
      | StayAwake \<Rightarrow> of_bool (r = Awake) | Relax \<Rightarrow> - of_bool (r = Awake)
      | AutosuspendOn \<Rightarrow> 0 | RpmDisable \<Rightarrow> 0 | RpmForbid \<Rightarrow> 0)"

definition pci_held :: "pci_op list \<Rightarrow> pci_res \<Rightarrow> int" where
  "pci_held es r = sum_list (map (\<lambda>e. op_delta e r) es)"

lemma pci_held_simps [simp]:
  "pci_held [] r = 0" "pci_held (e # es) r = op_delta e r + pci_held es r" "pci_held (es @ fs) r = pci_held es r + pci_held fs r"
  by (simp_all add: pci_held_def)

lemma op_delta_simps [simp]:
  "op_delta PciEnable r = of_bool (r = Device)" "op_delta PciDisable r = - of_bool (r = Device)"
  "op_delta RegionRequest r = of_bool (r = Region)" "op_delta RegionRelease r = - of_bool (r = Region)"
  "op_delta MasterSet r = of_bool (r = Master)" "op_delta MasterClear r = - of_bool (r = Master)"
  "op_delta Ioremap r = of_bool (r = Mapping)" "op_delta Iounmap r = - of_bool (r = Mapping)"
  "op_delta (VectorsAlloc n) r = of_bool (r = Vectors)" "op_delta VectorsFree r = - of_bool (r = Vectors)"
  "op_delta IrqAlloc r = of_bool (r = Irqs)" "op_delta IrqFree r = - of_bool (r = Irqs)"
  "op_delta StayAwake r = of_bool (r = Awake)" "op_delta Relax r = - of_bool (r = Awake)"
  "op_delta AutosuspendOn r = 0" "op_delta RpmDisable r = 0" "op_delta RpmForbid r = 0"
  by (simp_all add: op_delta_def)

lemma pci_ops_sel [simp]:
  "ps_log (pci_ops es st) = ps_log st @ es" "ps_ctl (pci_ops es st) = ps_ctl st" "ps_irq (pci_ops es st) = ps_irq st"
  "ps_powered_on (pci_ops es st) = ps_powered_on st" "ps_timeout_ms (pci_ops es st) = ps_timeout_ms st"
  by (simp_all add: pci_ops_def)

text \<open>The answers of the PCI core with which everything is set up.\<close>

definition pci_all_ok :: "pci_env \<Rightarrow> mhi_controller \<Rightarrow> bool" where
  "pci_all_ok env c \<longleftrightarrow> pi_assign env = Inr () \<and> pi_enable env = Inr () \<and> pi_request env = Inr () \<and> pi_ioremap env \<noteq> None \<and>
     \<not> pci_vectors_bad (msi_required c) (pi_vectors env) \<and> pi_irq_array env \<and> (\<forall>i < nat (pi_vectors env). 0 \<le> pi_irq_vector env i)"

text \<open>What a failed set-up holds too much or gives back too often: the region that was not obtained, and surplus vectors.\<close>

definition pci_init_debt :: "pci_env \<Rightarrow> mhi_controller \<Rightarrow> pci_res \<Rightarrow> int" where
  "pci_init_debt env c r =
     (if pi_assign env \<noteq> Inr () then 0
      else if pi_enable env \<noteq> Inr () \<or> pi_request env \<noteq> Inr () then (if r = Region then -1 else 0)
      else if pi_ioremap env \<noteq> None \<and> pci_vectors_bad (msi_required c) (pi_vectors env) \<and> 0 < pi_vectors env \<and> r = Vectors then 1 else 0)"

lemma unit_res_cases: "(x = Inr () \<Longrightarrow> P) \<Longrightarrow> (\<And>e. x = Inl e \<Longrightarrow> P) \<Longrightarrow> P" for x :: "unit res"
  by (cases x) auto

lemma pci_all_ok_find: "(\<forall>i < n. 0 \<le> f i) \<longleftrightarrow> find (\<lambda>i. f i < 0) [0..<n] = None" for f :: "nat \<Rightarrow> int"
  by (simp add: find_None_iff not_less) (meson not_le)

lemma vectors_positive: "\<not> pci_vectors_bad req v \<Longrightarrow> v \<noteq> 0 \<Longrightarrow> 0 < v"
  by (auto simp: pci_vectors_bad_def)

lemma pci_init_irqs_held:
  assumes "0 < pi_vectors env"
  shows "pci_held (ps_log (snd (pci_init_irqs env st))) r = pci_held (ps_log st) r +
    (if pi_irq_array env \<and> (\<forall>i < nat (pi_vectors env). 0 \<le> pi_irq_vector env i) then (if r = Irqs then 1 else 0)
     else if r \<in> {Vectors, Mapping, Master, Device, Region} then -1 else 0) \<and>
    (fst (pci_init_irqs env st) = PciInt 0 \<longleftrightarrow> pi_irq_array env \<and> (\<forall>i < nat (pi_vectors env). 0 \<le> pi_irq_vector env i))"
proof (cases "pi_irq_array env")
  case False
  then show ?thesis by (cases r) (simp_all add: pci_init_irqs_def Let_def pci_unwind_map_def)
next
  case True
  show ?thesis
  proof (cases "find (\<lambda>i. pi_irq_vector env i < 0) [0..<nat (pi_vectors env)]")
    case None
    then have "\<forall>i < nat (pi_vectors env). 0 \<le> pi_irq_vector env i" by (simp add: pci_all_ok_find)
    then show ?thesis using True None by (cases r) (simp_all add: pci_init_irqs_def Let_def)
  next
    case (Some i)
    then have n: "\<not> (\<forall>i < nat (pi_vectors env). 0 \<le> pi_irq_vector env i)" by (simp add: pci_all_ok_find)
    have "pi_irq_vector env i < 0" using Some by (auto simp: find_Some_iff)
    then show ?thesis using True Some n by (cases r) (simp_all add: pci_init_irqs_def Let_def pci_unwind_map_def)
  qed
qed

lemma mhi_init_pci_dev_held_aux:
  assumes v: "pi_vectors env \<noteq> 0"
  shows "pci_held (ps_log (snd (mhi_init_pci_dev env st))) r =
      pci_held (ps_log st) r + (if pci_all_ok env (ps_ctl st) then (if r = Awake then 0 else 1) else pci_init_debt env (ps_ctl st) r) \<and>
    (fst (mhi_init_pci_dev env st) = PciInt 0 \<longleftrightarrow> pci_all_ok env (ps_ctl st) \<or>
       pi_assign env = Inr () \<and> pi_enable env = Inr () \<and> pi_request env = Inr () \<and> pi_ioremap env = None \<and> pci_dma_mask env = Inr ())"
proof (cases "pi_assign env = Inr () \<and> pi_enable env = Inr () \<and> pi_request env = Inr () \<and> pi_ioremap env \<noteq> None")
  case False
  then show ?thesis
    by (cases r; cases "pi_assign env"; cases "pi_enable env"; cases "pi_request env"; cases "pi_ioremap env"; cases "pci_dma_mask env")
      (simp_all add: mhi_init_pci_dev_def pci_all_ok_def pci_init_debt_def pci_unwind_map_def pci_ret_def)
next
  case True
  then obtain a where a: "pi_assign env = Inr ()" "pi_enable env = Inr ()" "pi_request env = Inr ()" "pi_ioremap env = Some a" by auto
  let ?st2 = "pci_ops (if 0 < pi_vectors env then [Ioremap, VectorsAlloc (nat (pi_vectors env))] else [Ioremap])
      ((pci_ops [PciEnable, RegionRequest, MasterSet] st)\<lparr>ps_ctl := (ps_ctl st)\<lparr>regs := a\<rparr>\<rparr>)"
  show ?thesis
  proof (cases "pci_vectors_bad (msi_required (ps_ctl st)) (pi_vectors env)")
    case bad: True
    then show ?thesis using a v by (cases r) (simp_all add: mhi_init_pci_dev_def pci_all_ok_def pci_init_debt_def pci_unwind_map_def Let_def)
  next
    case False
    then have p: "0 < pi_vectors env" using vectors_positive v by blast
    have e: "mhi_init_pci_dev env st = pci_init_irqs env ?st2" using a False by (simp add: mhi_init_pci_dev_def Let_def)
    show ?thesis unfolding e using pci_init_irqs_held [OF p, of ?st2 r] a p False
      by (cases r) (auto simp: pci_all_ok_def pci_init_debt_def)
  qed
qed

text \<open>
  Setting up the PCI device, for every combination of answers of the PCI core: on success every resource is held once.
  A failure gives back what was taken, with two exceptions: a region that was not obtained is released, and surplus
  interrupt vectors are kept. The result is 0 also when the registers could not be mapped, if the DMA mask was accepted.
\<close>

theorem mhi_init_pci_dev_held:
  assumes "pi_vectors env \<noteq> 0" and "mhi_init_pci_dev env st = (r, st')"
  shows "(\<forall>x. pci_held (ps_log st') x = pci_held (ps_log st) x +
       (if pci_all_ok env (ps_ctl st) then (if x = Awake then 0 else 1) else pci_init_debt env (ps_ctl st) x)) \<and>
    (r = PciInt 0 \<longleftrightarrow> pci_all_ok env (ps_ctl st) \<or>
       pi_assign env = Inr () \<and> pi_enable env = Inr () \<and> pi_request env = Inr () \<and> pi_ioremap env = None \<and> pci_dma_mask env = Inr ())"
  using mhi_init_pci_dev_held_aux [OF assms(1), of st] assms(2) by simp

text \<open>
  (C23) Probing and removing: a device that was probed with all answers positive holds every resource once, and none is held
  any more after its removal; when powering up fails, none is held either.
\<close>

theorem probe_remove_balance:
  assumes ok: "pci_all_ok env c" and v: "pi_vectors env \<noteq> 0" and "mhi_pci_is_alive vendor"
    and run: "mhi_pci_probe vendor (Inr c) debug_mode env delay penv st = (r, st')"
  shows "case r of
      PciInt n \<Rightarrow> n = 0 \<and> ps_powered_on st' \<and> (\<forall>x. pci_held (ps_log st') x = pci_held (ps_log st) x + (if x = Awake then 0 else 1)) \<and>
        (\<forall>x. pci_held (ps_log (mhi_pci_device_removed True denv st')) x = pci_held (ps_log st) x)
    | PciErr e \<Rightarrow> \<forall>x. pci_held (ps_log st') x = pci_held (ps_log st) x"
proof -
  let ?st0 = "st\<lparr>ps_ctl := c, ps_powered_on := True\<rparr>"
  obtain r1 st1 where i: "mhi_init_pci_dev env ?st0 = (r1, st1)" by fastforce
  have h: "pci_held (ps_log st1) x = pci_held (ps_log st) x + (if x = Awake then 0 else 1)" and r1: "r1 = PciInt 0" for x
    using mhi_init_pci_dev_held_aux [OF v, of ?st0] i ok by auto
  have p: "ps_powered_on st1" using i ok
    by (auto simp: mhi_init_pci_dev_def pci_all_ok_def pci_init_irqs_def Let_def pci_all_ok_find split: if_splits option.splits)
  have d: "pci_held (ps_log (mhi_deinit_pci_dev s)) x = pci_held (ps_log s) x - (if x = Awake then 0 else 1)" for s x
    by (cases x) (simp_all add: mhi_deinit_pci_dev_def)
  have rm: "pci_held (ps_log (mhi_pci_device_removed True denv s)) x = pci_held (ps_log s) x - (if x = Awake then 0 else 1)" if "ps_powered_on s" for s x
    using that by (cases x) (simp_all add: mhi_pci_device_removed_def d)
  have cases: "r = PciInt 0 \<and> (\<exists>c'. st' = st1\<lparr>ps_ctl := c'\<rparr>) \<or> (\<exists>e c'. r = PciErr e \<and> st' = mhi_deinit_pci_dev (st1\<lparr>ps_ctl := c'\<rparr>))"
  proof (cases debug_mode)
    case True
    then show ?thesis using run assms(3) i r1 by (auto simp: mhi_pci_probe_def intro!: exI [of _ "ps_ctl st1"])
  next
    case False
    then show ?thesis using run assms(3) i r1 by (auto simp: mhi_pci_probe_def split: prod.splits sum.splits)
  qed
  then show ?thesis using p h by (auto simp: d rm)
qed

text \<open>A device that is removed while it is not powered keeps the system awake for good.\<close>

lemma removed_stays_awake:
  "\<not> ps_powered_on st \<Longrightarrow> pci_held (ps_log (mhi_pci_device_removed True denv st)) Awake = pci_held (ps_log st) Awake + 1"
  by (simp add: mhi_pci_device_removed_def)

subsection \<open>Powering up\<close>

lemma poll_sys_err_result:
  "poll_sys_err delay n s c = (s', c') \<Longrightarrow> s = MHI_STATE_SYS_ERR \<Longrightarrow> (\<exists>k \<le> n. c' = (delay ^^ k) c) \<and>
     (s' \<noteq> MHI_STATE_SYS_ERR \<longrightarrow> mhi_get_mhi_state c' = s')"
proof (induction n arbitrary: s c)
  case 0
  then show ?case by simp
next
  case (Suc n)
  show ?case
  proof (cases "mhi_get_mhi_state c = MHI_STATE_SYS_ERR")
    case True
    from Suc.IH [of MHI_STATE_SYS_ERR "delay c"] Suc.prems True obtain k where "k \<le> n" "c' = (delay ^^ k) (delay c)"
      "s' \<noteq> MHI_STATE_SYS_ERR \<longrightarrow> mhi_get_mhi_state c' = s'" by (auto simp: Let_def)
    then show ?thesis by (auto simp: funpow_swap1 intro!: exI [of _ "Suc k"])
  next
    case False
    then show ?thesis using Suc.prems by (auto simp: Let_def intro: exI [of _ 0])
  qed
qed

text \<open>
  Powering up through the PCI driver: success leaves the host in POR, and a failure is an EIO with the power state the
  controller had, changed by nothing but the device's own doing, or leaves it DISABLE.
\<close>

theorem mhi_power_up_result:
  assumes run: "mhi_power_up delay env t c = (r, c')" and d: "\<And>c. pm_state (delay c) = pm_state c"
  shows "(r = Inr () \<longrightarrow> pm_state c' = MHI_PM_POR) \<and> (r \<noteq> Inr () \<longrightarrow> r = Inl EIO \<and> pm_state c' = pm_state c \<or> pm_state c' = MHI_PM_DISABLE)"
proof -
  have a: "(r = Inr () \<longrightarrow> pm_state c' = MHI_PM_POR) \<and> (r \<noteq> Inr () \<longrightarrow> pm_state c' = MHI_PM_DISABLE)" if "mhi_async_power_up env d = (r, c')" for d
    using mhi_async_power_up_result [of env d] that by auto
  have k: "pm_state ((delay ^^ k) d) = pm_state d" for k d by (induction k) (simp_all add: assms(2))
  have w: "pm_state (mhi_set_mhi_state s d) = pm_state d" for s d by simp
  show ?thesis
  proof (cases "\<exists>d. mhi_async_power_up env d = (r, c')")
    case True
    then show ?thesis using a by auto
  next
    case False
    then have "r = Inl EIO \<and> pm_state c' = pm_state c" using run k w
      by (auto simp: mhi_power_up_def Let_def split: sum.splits if_splits prod.splits dest!: poll_sys_err_result)
    then show ?thesis by simp
  qed
qed

subsection \<open>Power management\<close>

text \<open>Disabling and enabling the low power state of the link restores the configuration space; a link without it stays as it is.\<close>

lemma lpm_roundtrip:
  assumes "mhi_lpm_disable rd wr k st = (Inr (), st1)" "\<not> ps_lpm_disabled st" "mhi_lpm_enable rd' wr' k st1 = (Inr (), st2)"
  shows "ps_config st2 = ps_config st \<and> \<not> ps_lpm_disabled st2 \<and> ps_config st1 k AND PCI_EXP_LNKCTL_ASPM_L1 = 0"
proof (cases "ps_config st k AND PCI_EXP_LNKCTL_ASPM_L1 = 0")
  case True
  then show ?thesis using assms by (auto simp: mhi_lpm_disable_def mhi_lpm_enable_def Let_def split: sum.splits)
next
  case False
  then have b: "bit (ps_config st k) 1"
    using bit_eq_iff [of "ps_config st k AND PCI_EXP_LNKCTL_ASPM_L1" 0] by (auto simp: PCI_EXP_LNKCTL_ASPM_L1_def bit_simps numeral_2_eq_2)
  then have "ps_config st k AND NOT PCI_EXP_LNKCTL_ASPM_L1 OR PCI_EXP_LNKCTL_ASPM_L1 = ps_config st k"
    by (intro bit_word_eqI) (auto simp: PCI_EXP_LNKCTL_ASPM_L1_def bit_simps)
  moreover have "(ps_config st k AND NOT PCI_EXP_LNKCTL_ASPM_L1) AND PCI_EXP_LNKCTL_ASPM_L1 = 0"
    by (intro bit_word_eqI) (auto simp: bit_simps)
  ultimately show ?thesis using assms False by (auto simp: mhi_lpm_disable_def mhi_lpm_enable_def Let_def split: sum.splits)
qed

text \<open>A system suspend that succeeds on a powered device that was not suspended leaves it in M3 with nothing pending before.\<close>

lemma mhi_system_suspend_m3:
  assumes "mhi_system_suspend False es1 es2 st = (Inr (), st')" "ps_powered_on st"
  shows "pending_pkts (ps_ctl st) = 0 \<and> ee (ps_ctl st) = MHI_EE_AMSS \<and> mhi_pm_suspend es1 es2 (ps_ctl st) = (Inr (), ps_ctl st')"
  using assms by (auto simp: mhi_system_suspend_def mhi_runtime_suspend_def Let_def split: if_splits prod.splits)

end
