(* ===== verification/Pci_Examples.thy ===== *)
theory Pci_Examples
  imports MHI_Examples MHI_Pci
begin

text \<open>A PCI device whose set-up succeeds with one interrupt vector, and the properties of \<open>MHI_Pci\<close> applied to it.\<close>

definition good_pci :: pci_env where
  "good_pci = \<lparr>pi_assign = Inr (), pi_enable = Inr (), pi_request = Inr (), pi_mask64 = True, pi_coherent64 = Inr (), pi_mask32 = True,
     pi_coherent32 = Inr (), pi_ioremap = Some 0x1000, pi_vectors = 1, pi_irq_array = True, pi_irq_vector = (\<lambda>i. 40 + int i)\<rparr>"

definition demo_pci :: pci_sys where
  "demo_pci = \<lparr>ps_ctl = demo_ctrl, ps_log = [], ps_powered_on = False, ps_lpm_disabled = False, ps_config = (\<lambda>_. 0), ps_irq = None,
     ps_timeout_ms = 2000, ps_usage = 2\<rparr>"

definition no_memory :: power_env where
  "no_memory = \<lparr>pu_sleep = id, pu_junk = 0, pu_alloc_ctxt = False, pu_alloc_seg = None, pu_req_threaded = (\<lambda>_. None), pu_req = (\<lambda>_. None), pu_alloc_item = True\<rparr>"

lemma good_pci_ok: "pci_all_ok good_pci c"
  by (simp add: pci_all_ok_def good_pci_def pci_vectors_bad_def)

text \<open>The region is in use: setting up fails and releases it all the same.\<close>

theorem mhi_init_pci_dev_held_witness:
  "\<exists>r st'. mhi_init_pci_dev (good_pci\<lparr>pi_request := Inl EBUSY\<rparr>) demo_pci = (r, st') \<and> r \<noteq> PciInt 0 \<and> pci_held (ps_log st') Region = -1"
proof -
  let ?env = "good_pci\<lparr>pi_request := Inl EBUSY\<rparr>"
  obtain r st' where run: "mhi_init_pci_dev ?env demo_pci = (r, st')" by fastforce
  have "pi_vectors ?env \<noteq> 0" "\<not> pci_all_ok ?env (ps_ctl demo_pci)" "pci_init_debt ?env (ps_ctl demo_pci) Region = -1" "ps_log demo_pci = []"
    by (simp_all add: pci_all_ok_def pci_init_debt_def good_pci_def demo_pci_def)
  then show ?thesis using mhi_init_pci_dev_held [OF _ run] run by auto
qed

theorem probe_remove_balance_witness:
  "\<exists>st'. mhi_pci_probe (Inr 0x17cb) (Inr demo_ctrl) True good_pci id no_memory demo_pci = (PciInt 0, st') \<and> pci_held (ps_log st') Device = 1 \<and>
     pci_held (ps_log (mhi_pci_device_removed True quiet_env st')) Device = 0"
proof -
  have al: "mhi_pci_is_alive (Inr 0x17cb)" by (simp add: mhi_pci_is_alive_def)
  obtain r st' where run: "mhi_pci_probe (Inr 0x17cb) (Inr demo_ctrl) True good_pci id no_memory demo_pci = (r, st')" by fastforce
  have "\<exists>n. r = PciInt n"
    using run al by (auto simp: mhi_pci_probe_def mhi_init_pci_dev_def pci_init_irqs_def good_pci_def pci_vectors_bad_def Let_def split: if_splits)
  moreover have "pi_vectors good_pci \<noteq> 0" "ps_log demo_pci = []" by (simp_all add: good_pci_def demo_pci_def)
  ultimately show ?thesis using probe_remove_balance [OF good_pci_ok _ al run, of quiet_env] run by auto
qed

text \<open>Powering up a device whose registers can be read, with no memory for the contexts.\<close>

theorem mhi_power_up_result_witness:
  "\<exists>r c'. mhi_power_up id no_memory 2000 demo_ctrl = (r, c') \<and> (r = Inr () \<longrightarrow> pm_state c' = MHI_PM_POR)"
proof -
  obtain r c' where run: "mhi_power_up id no_memory 2000 demo_ctrl = (r, c')" by fastforce
  then show ?thesis using mhi_power_up_result [OF run] by auto
qed

end
