(* ===== verification/Qmap_Frame.thy ===== *)
theory Qmap_Frame
  imports Prelude
begin

text \<open>
  The QMAP framing of the USB driver (\<^verbatim>\<open>qmi_wwan_q/src/qmi_wwan_q.c\<close>): socket buffers, the headers
  \<^verbatim>\<open>add_qhdr\<close> and \<^verbatim>\<open>add_qhdr_v5\<close> put in front of a packet, and the fields the receiver reads out of
  them. The lemmas show that what the sender writes is what the receiver reads, with the packet length
  cut to 16 bits, and when the padding makes the frame a multiple of four bytes.

  A socket buffer is its headroom, its data and its tailroom, as bytes: \<^verbatim>\<open>skb_put\<close> uncovers bytes of the
  tailroom as they are, \<^verbatim>\<open>skb_push\<close> takes bytes of the headroom, \<^verbatim>\<open>skb_pull\<close> gives bytes back. Leaving the
  buffer (\<^verbatim>\<open>skb_over_panic\<close>, \<^verbatim>\<open>skb_under_panic\<close>) is \<open>None\<close>.
\<close>

type_synonym bytes = "u8 list"

record sk_buff =
  sk_head :: bytes
  sk_data :: bytes
  sk_tail :: bytes
  sk_protocol :: u16

definition skb_put :: "nat \<Rightarrow> sk_buff \<Rightarrow> sk_buff option" where
  "skb_put n skb =
     (if length (sk_tail skb) < n then None
      else Some (skb\<lparr>sk_data := sk_data skb @ take n (sk_tail skb), sk_tail := drop n (sk_tail skb)\<rparr>))"

text \<open>\<^verbatim>\<open>skb_put\<close> or \<^verbatim>\<open>skb_push\<close> followed by the copy of \<open>bs\<close> into the new space.\<close>

definition skb_put_data :: "bytes \<Rightarrow> sk_buff \<Rightarrow> sk_buff option" where
  "skb_put_data bs skb =
     (if length (sk_tail skb) < length bs then None
      else Some (skb\<lparr>sk_data := sk_data skb @ bs, sk_tail := drop (length bs) (sk_tail skb)\<rparr>))"

definition skb_push_data :: "bytes \<Rightarrow> sk_buff \<Rightarrow> sk_buff option" where
  "skb_push_data bs skb =
     (if length (sk_head skb) < length bs then None
      else Some (skb\<lparr>sk_data := bs @ sk_data skb,
                     sk_head := take (length (sk_head skb) - length bs) (sk_head skb)\<rparr>))"

text \<open>\<^verbatim>\<open>skb_pull\<close> returns \<^verbatim>\<open>NULL\<close>, here \<open>None\<close>, and changes nothing when there is not enough data.\<close>

definition skb_pull :: "nat \<Rightarrow> sk_buff \<Rightarrow> sk_buff option" where
  "skb_pull n skb =
     (if length (sk_data skb) < n then None
      else Some (skb\<lparr>sk_head := sk_head skb @ take n (sk_data skb), sk_data := drop n (sk_data skb)\<rparr>))"

definition htons_bytes :: "u16 \<Rightarrow> bytes" where
  "htons_bytes w = [ucast (drop_bit 8 w), ucast w]"

definition ntohs_bytes :: "u8 \<Rightarrow> u8 \<Rightarrow> u16" where
  "ntohs_bytes a b = push_bit 8 (ucast a) OR ucast b"

subsection \<open>Building headers\<close>

text \<open>The padding \<^verbatim>\<open>add_qhdr\<close> and \<^verbatim>\<open>add_qhdr_v5\<close> choose for a length, none when the tailroom is too small.\<close>

definition qhdr_pad :: "nat \<Rightarrow> nat \<Rightarrow> nat" where
  "qhdr_pad len tailroom =
     (let pad = len mod 4
      in if pad = 0 then 0 else if tailroom < 4 - pad then 0 else 4 - pad)"

text \<open>
  The lengths are computed in \<^verbatim>\<open>unsigned int\<close> and stored in 16 bits. \<open>Some ip_offset\<close> is the call with a
  separate header buffer (\<^verbatim>\<open>hdr_data\<close>), \<open>None\<close> the one that pushes the header onto the packet; the result
  is the packet and the separate header.
\<close>

definition pkt_len_field :: "nat \<Rightarrow> nat \<Rightarrow> u16" where
  "pkt_len_field len off = ucast ((word_of_nat len :: u32) - word_of_nat off)"

definition add_qhdr :: "sk_buff \<Rightarrow> u8 \<Rightarrow> nat option \<Rightarrow> (sk_buff \<times> bytes) option" where
  "add_qhdr skb mux_id hdr_data =
     (let pad = qhdr_pad (length (sk_data skb)) (length (sk_tail skb))
      in case skb_put pad skb of
           None \<Rightarrow> None
         | Some skb1 \<Rightarrow>
             (case hdr_data of
                Some ip_offset \<Rightarrow>
                  Some (skb1, [word_of_nat pad, mux_id] @ htons_bytes (pkt_len_field (length (sk_data skb1)) ip_offset))
              | None \<Rightarrow>
                  map_option (\<lambda>skb2. (skb2, []))
                    (skb_push_data ([word_of_nat pad, mux_id] @ htons_bytes (pkt_len_field (length (sk_data skb1)) 0)) skb1)))"

text \<open>
  The bit fields of \<^verbatim>\<open>struct rmnet_map_header\<close>, lowest first: 6 bits of padding, the flag for a second
  header, the flag for a command; \<^verbatim>\<open>RMNET_MAP_HEADER_TYPE_CSUM_OFFLOAD\<close> is 2, above the lowest bit.
\<close>

definition map_header_byte0 :: "u8 \<Rightarrow> bool \<Rightarrow> bool \<Rightarrow> u8" where
  "map_header_byte0 pad next_hdr cd_bit =
     (pad AND 0x3F) OR (if next_hdr then 0x40 else 0) OR (if cd_bit then 0x80 else 0)"

definition RMNET_MAP_HEADER_TYPE_CSUM_OFFLOAD :: u8 where
  "RMNET_MAP_HEADER_TYPE_CSUM_OFFLOAD = 2"

definition v5_csum_header :: bytes where
  "v5_csum_header = [push_bit 1 RMNET_MAP_HEADER_TYPE_CSUM_OFFLOAD, 0, 0, 0]"

definition add_qhdr_v5 :: "sk_buff \<Rightarrow> u8 \<Rightarrow> nat option \<Rightarrow> (sk_buff \<times> bytes) option" where
  "add_qhdr_v5 skb mux_id hdr_data =
     (let off = (case hdr_data of Some ip_offset \<Rightarrow> ip_offset | None \<Rightarrow> 0);
          pad = qhdr_pad (unat ((word_of_nat (length (sk_data skb)) :: u32) - word_of_nat off)) (length (sk_tail skb))
      in case skb_put pad skb of
           None \<Rightarrow> None
         | Some skb1 \<Rightarrow>
             (let hdr = [map_header_byte0 (word_of_nat pad) True False, mux_id] @
                        htons_bytes (pkt_len_field (length (sk_data skb1)) off) @ v5_csum_header
              in case hdr_data of
                   Some _ \<Rightarrow> Some (skb1, hdr)
                 | None \<Rightarrow> map_option (\<lambda>skb2. (skb2, [])) (skb_push_data hdr skb1)))"

subsection \<open>Reading headers\<close>

record rmnet_map_header =
  mh_pad_len :: u8
  mh_next_hdr :: bool
  mh_cd_bit :: bool
  mh_mux_id :: u8
  mh_pkt_len :: u16

definition map_header :: "bytes \<Rightarrow> rmnet_map_header" where
  "map_header bs =
     \<lparr>mh_pad_len = (bs ! 0) AND 0x3F, mh_next_hdr = bit (bs ! 0) 6, mh_cd_bit = bit (bs ! 0) 7,
      mh_mux_id = bs ! 1, mh_pkt_len = ntohs_bytes (bs ! 2) (bs ! 3)\<rparr>"

definition map_hdr_size :: "rmnet_map_header \<Rightarrow> nat" where
  "map_hdr_size h = (if mh_next_hdr h then 8 else 4)"

subsection \<open>Properties\<close>

lemma ntohs_htons [simp]: "ntohs_bytes (ucast (drop_bit 8 w)) (ucast w) = w"
  by (rule bit_word_eqI)
    (auto simp: ntohs_bytes_def bit_or_iff bit_push_bit_iff bit_unsigned_iff bit_drop_bit_eq)

lemma qhdr_pad_le: "qhdr_pad len t \<le> 3" "qhdr_pad len t \<le> t"
  by (auto simp: qhdr_pad_def Let_def)

lemma qhdr_pad_aligned: "3 \<le> t \<Longrightarrow> (len + qhdr_pad len t) mod 4 = 0"
proof -
  assume t: "3 \<le> t"
  have "len mod 4 < 4" by simp
  then consider "len mod 4 = 0" | "len mod 4 = 1" | "len mod 4 = 2" | "len mod 4 = 3" by linarith
  then show ?thesis using t by cases (simp_all add: qhdr_pad_def Let_def, presburger+)
qed

lemma map_header_byte0_fields:
  assumes "pad AND 0x3F = pad"
  shows "map_header_byte0 pad n c AND 0x3F = pad" "bit (map_header_byte0 pad n c) 6 = n"
    "bit (map_header_byte0 pad n c) 7 = c"
proof -
  have m: "(0x3F :: u8) = mask 6" by (simp add: mask_eq_exp_minus_1)
  have b: "bit pad k \<Longrightarrow> k < 6" for k
    using assms bit_and_iff [of pad "mask 6" k] by (auto simp: m bit_mask_iff)
  have b40: "bit (0x40 :: int) k \<longleftrightarrow> k = 6" and b80: "bit (0x80 :: int) k \<longleftrightarrow> k = 7" for k
    using bit_exp_iff [of 6 k, where 'a = int] bit_exp_iff [of 7 k, where 'a = int]
    by auto
  show "map_header_byte0 pad n c AND 0x3F = pad"
    by (rule bit_word_eqI) (auto simp: map_header_byte0_def m bit_and_iff bit_or_iff bit_mask_iff  b40 b80 dest: b)
  show "bit (map_header_byte0 pad n c) 6 = n" "bit (map_header_byte0 pad n c) 7 = c"
    by (auto simp: map_header_byte0_def m bit_and_iff bit_or_iff bit_mask_iff b40 b80 dest: b)
qed

text \<open>A packet as it stands in an aggregate, for either version: header, payload, padding.\<close>

definition qmap_frame :: "bool \<Rightarrow> u8 \<Rightarrow> bytes \<Rightarrow> bytes \<Rightarrow> bytes" where
  "qmap_frame v5 mux payload padding =
     [map_header_byte0 (word_of_nat (length padding)) v5 False, mux] @
     htons_bytes (word_of_nat (length payload + length padding)) @
     (if v5 then v5_csum_header else []) @ payload @ padding"

lemma pad_byte_small: "p \<le> 3 \<Longrightarrow> (word_of_nat p :: u8) AND 0x3F = word_of_nat p"
proof -
  assume "p \<le> 3"
  then consider "p = 0" | "p = 1" | "p = 2" | "p = 3" by linarith
  then show ?thesis by cases simp_all
qed

lemma map_header_byte0_v1: "p \<le> 3 \<Longrightarrow> map_header_byte0 (word_of_nat p) False False = word_of_nat p"
  by (simp add: map_header_byte0_def pad_byte_small)

lemma pkt_len_field_eq:
  "off \<le> len \<Longrightarrow> len < 2 ^ 32 \<Longrightarrow> pkt_len_field len off = word_of_nat (len - off)"
proof -
  assume a: "off \<le> len" "len < 2 ^ 32"
  have "(word_of_nat len :: u32) - word_of_nat off = word_of_nat (len - off)"
    using a(1) by (simp add: of_nat_diff)
  moreover have "ucast (word_of_nat (len - off) :: u32) = (word_of_nat (len - off) :: u16)"
    by (simp add: word_unat_eq_iff unsigned_ucast_eq unsigned_of_nat)
  ultimately show ?thesis by (simp add: pkt_len_field_def)
qed

lemma skb_put_pad:
  "skb_put (qhdr_pad n (length (sk_tail skb))) skb =
     Some (skb\<lparr>sk_data := sk_data skb @ take (qhdr_pad n (length (sk_tail skb))) (sk_tail skb),
              sk_tail := drop (qhdr_pad n (length (sk_tail skb))) (sk_tail skb)\<rparr>)"
  using qhdr_pad_le(2) [of n "length (sk_tail skb)"] by (simp add: skb_put_def)

lemma header_lengths:
  assumes "off \<le> length (sk_data skb)" and "length (sk_data skb) + 3 < 2 ^ 16"
  shows "unat ((word_of_nat (length (sk_data skb)) :: u32) - word_of_nat off) = length (sk_data skb) - off"
    "pkt_len_field (length (sk_data skb) + qhdr_pad k t) off = word_of_nat (length (sk_data skb) - off + qhdr_pad k t)"
proof -
  let ?n = "length (sk_data skb)"
  have "(word_of_nat ?n :: u32) - word_of_nat off = word_of_nat (?n - off)" using assms(1) by (simp add: of_nat_diff)
  then show "unat ((word_of_nat ?n :: u32) - word_of_nat off) = ?n - off"
    using assms(2) by (simp add: unsigned_of_nat take_bit_nat_eq_self)
  show "pkt_len_field (?n + qhdr_pad k t) off = word_of_nat (?n - off + qhdr_pad k t)"
    using assms qhdr_pad_le(1) [of k t] by (simp add: pkt_len_field_eq del: of_nat_diff)
qed

lemmas header_defs = add_qhdr_def add_qhdr_v5_def skb_put_pad skb_push_data_def qmap_frame_def v5_csum_header_def
  htons_bytes_def Let_def

text \<open>The separate header together with the packet's bytes behind \<open>off\<close> is a frame.\<close>

lemma add_qhdr_separate:
  assumes "off \<le> length (sk_data skb)" and "length (sk_data skb) + 3 < 2 ^ 16"
  shows "\<exists>skb' hdr p. add_qhdr skb mux (Some off) = Some (skb', hdr) \<and> length p \<le> 3 \<and> length hdr = 4 \<and>
      sk_data skb' = sk_data skb @ p \<and> hdr @ drop off (sk_data skb') = qmap_frame False mux (drop off (sk_data skb)) p"
proof -
  let ?n = "length (sk_data skb)" and ?t = "length (sk_tail skb)"
  let ?p = "take (qhdr_pad ?n ?t) (sk_tail skb)"
  have "\<exists>skb' hdr. add_qhdr skb mux (Some off) = Some (skb', hdr) \<and> length hdr = 4 \<and>
      sk_data skb' = sk_data skb @ ?p \<and> hdr @ drop off (sk_data skb') = qmap_frame False mux (drop off (sk_data skb)) ?p"
    using assms(1) qhdr_pad_le [of ?n ?t] header_lengths(2) [OF assms, of ?n ?t]
    by (simp add: header_defs map_header_byte0_v1 min_absorb2 del: of_nat_add of_nat_diff)
  moreover have "length ?p \<le> 3" using qhdr_pad_le(1) [of ?n ?t] by simp
  ultimately show ?thesis by blast
qed

lemma add_qhdr_v5_separate:
  assumes "off \<le> length (sk_data skb)" and "length (sk_data skb) + 3 < 2 ^ 16"
  shows "\<exists>skb' hdr p. add_qhdr_v5 skb mux (Some off) = Some (skb', hdr) \<and> length p \<le> 3 \<and> length hdr = 8 \<and>
      sk_data skb' = sk_data skb @ p \<and> hdr @ drop off (sk_data skb') = qmap_frame True mux (drop off (sk_data skb)) p"
proof -
  let ?n = "length (sk_data skb)" and ?t = "length (sk_tail skb)"
  let ?p = "take (qhdr_pad (?n - off) ?t) (sk_tail skb)"
  have "\<exists>skb' hdr. add_qhdr_v5 skb mux (Some off) = Some (skb', hdr) \<and> length hdr = 8 \<and>
      sk_data skb' = sk_data skb @ ?p \<and> hdr @ drop off (sk_data skb') = qmap_frame True mux (drop off (sk_data skb)) ?p"
    using assms(1) qhdr_pad_le [of "?n - off" ?t] header_lengths(1) [OF assms] header_lengths(2) [OF assms, of "?n - off" ?t]
    by (simp add: header_defs min_absorb2 del: of_nat_add of_nat_diff)
  moreover have "length ?p \<le> 3" using qhdr_pad_le(1) [of "?n - off" ?t] by simp
  ultimately show ?thesis by blast
qed

text \<open>The pushed header and the packet are a frame.\<close>

lemma add_qhdr_pushed:
  assumes "8 \<le> length (sk_head skb)" and "length (sk_data skb) + 3 < 2 ^ 16"
  shows "\<exists>skb' p. add_qhdr skb mux None = Some (skb', []) \<and> length p \<le> 3 \<and>
      sk_data skb' = qmap_frame False mux (sk_data skb) p"
    "\<exists>skb' p. add_qhdr_v5 skb mux None = Some (skb', []) \<and> length p \<le> 3 \<and>
      sk_data skb' = qmap_frame True mux (sk_data skb) p"
proof -
  let ?n = "length (sk_data skb)" and ?t = "length (sk_tail skb)"
  let ?p = "take (qhdr_pad ?n ?t) (sk_tail skb)"
  note l = qhdr_pad_le [of ?n ?t] header_lengths(1) [where off = 0, OF _ assms(2)]
    header_lengths(2) [where off = 0, OF _ assms(2), of ?n ?t]
  have p: "length ?p \<le> 3" using qhdr_pad_le(1) [of ?n ?t] by simp
  have "\<exists>skb'. add_qhdr skb mux None = Some (skb', []) \<and> sk_data skb' = qmap_frame False mux (sk_data skb) ?p"
    "\<exists>skb'. add_qhdr_v5 skb mux None = Some (skb', []) \<and> sk_data skb' = qmap_frame True mux (sk_data skb) ?p"
    using assms(1) l by (simp_all add: header_defs map_header_byte0_v1 del: of_nat_add)
  then show "\<exists>skb' p. add_qhdr skb mux None = Some (skb', []) \<and> length p \<le> 3 \<and>
      sk_data skb' = qmap_frame False mux (sk_data skb) p"
    "\<exists>skb' p. add_qhdr_v5 skb mux None = Some (skb', []) \<and> length p \<le> 3 \<and>
      sk_data skb' = qmap_frame True mux (sk_data skb) p"
    using p by blast+
qed

text \<open>
  Both header builders frame a packet the way the receiver expects, for the pushed and for the separate
  header: length and padding count agree with what follows the header, the padding has at most three bytes,
  and the packet's own bytes are untouched.
\<close>

theorem add_qhdr_frames:
  assumes "8 \<le> length (sk_head skb)" and "off \<le> length (sk_data skb)" and "length (sk_data skb) + 3 < 2 ^ 16"
  shows "(\<exists>skb' p. add_qhdr skb mux None = Some (skb', []) \<and> length p \<le> 3 \<and>
      sk_data skb' = qmap_frame False mux (sk_data skb) p) \<and>
    (\<exists>skb' p. add_qhdr_v5 skb mux None = Some (skb', []) \<and> length p \<le> 3 \<and>
      sk_data skb' = qmap_frame True mux (sk_data skb) p) \<and>
    (\<exists>skb' hdr p. add_qhdr skb mux (Some off) = Some (skb', hdr) \<and> length p \<le> 3 \<and>
      hdr @ drop off (sk_data skb') = qmap_frame False mux (drop off (sk_data skb)) p) \<and>
    (\<exists>skb' hdr p. add_qhdr_v5 skb mux (Some off) = Some (skb', hdr) \<and> length p \<le> 3 \<and>
      hdr @ drop off (sk_data skb') = qmap_frame True mux (drop off (sk_data skb)) p)"
  using add_qhdr_pushed [OF assms(1,3), of mux] add_qhdr_separate [OF assms(2,3), of mux]
    add_qhdr_v5_separate [OF assms(2,3), of mux] by metis

end
