(* ===== verification/Qmap_Dev.thy ===== *)
theory Qmap_Dev
  imports Qmap_Frame
begin

text \<open>
  The device state of the USB driver (\<^verbatim>\<open>qmi_wwan_q/src/qmi_wwan_q.c\<close>) and the operations that set it up and
  control it: binding, probing and disconnecting, the network devices of the QMAP channels, the link state,
  the aggregation settings and the ioctls.

  A call into the kernel that can fail is an argument that says whether it does. The driver is built without
  NSS hooks (no \<^verbatim>\<open>CONFIG_QCA_NSS_DRV\<close>, so \<^verbatim>\<open>nss_cb\<close> is null), with bridge mode (\<^verbatim>\<open>CONFIG_BRIDGE\<close>) and
  without \<^verbatim>\<open>CONFIG_BRIDGE_LAN\<close>, \<^verbatim>\<open>CONFIG_CLEAR_HALT\<close> and \<^verbatim>\<open>QMI_NETDEV_ONE_CARD_MODE\<close> (\<^verbatim>\<open>one_card_mode\<close> is 0).

  The invariant \<open>qmap_wf\<close> says that the channel numbers in use index the array of network devices; every
  operation keeps it.
\<close>

subsection \<open>State\<close>

definition QUECTEL_WWAN_QMAP :: u32 where "QUECTEL_WWAN_QMAP = 4"
definition QUECTEL_QMAP_MUX_ID :: u8 where "QUECTEL_QMAP_MUX_ID = 0x81"

record net_device =
  nd_name :: string
  nd_mtu :: u32
  nd_ether :: bool
  nd_hard_header_len :: u32
  nd_addr :: bytes
  nd_up :: bool
  nd_carrier :: bool
  nd_stopped :: bool

record qmap_priv =
  qp_net :: net_device
  qp_offset_id :: u8
  qp_mux_id :: u8
  qp_qmap_version :: u8
  qp_link_state :: bool
  qp_agg_skb :: "sk_buff option"
  qp_agg_count :: u32
  qp_agg_time :: "int \<times> int"
  qp_timer :: bool
  qp_bridge_mode :: u32
  qp_bridge_ipv4 :: u32
  qp_bridge_mac :: bytes

text \<open>An entry of \<^verbatim>\<open>mpQmapNetDev\<close>: null, the USB network device itself, or one of a QMAP channel.\<close>

datatype qmap_slot = NoNet | RealNet | QmapNet qmap_priv

record RMNET_INFO =
  ri_rx_urb_size :: u32
  ri_ep_type :: u32
  ri_iface_id :: u32
  ri_qmap_mode :: u32
  ri_qmap_version :: u32
  ri_dl_minimum_padding :: u32
  ri_ifname :: "string list"
  ri_mux_id :: bytes

record sQmiWwanQmap =
  q_real :: net_device
  q_nets :: "qmap_slot list"
  q_link_state :: u32
  q_qmap_mode :: u32
  q_qmap_size :: u32
  q_qmap_version :: u32
  q_max_datagrams :: u32
  q_max_size :: u32
  q_dl_minimum_padding :: u32
  q_bridge_mode :: u32
  q_bridge_ipv4 :: u32
  q_bridge_mac :: bytes
  q_use_rmnet_usb :: bool
  q_rmnet_info :: RMNET_INFO
  q_noarp :: bool

definition qmap_wf :: "sQmiWwanQmap \<Rightarrow> bool" where
  "qmap_wf q \<longleftrightarrow> q_qmap_mode q \<le> QUECTEL_WWAN_QMAP \<and> length (q_nets q) = 4"

definition slot_at :: "sQmiWwanQmap \<Rightarrow> nat \<Rightarrow> qmap_slot" where
  "slot_at q i = q_nets q ! i"

definition slot_put :: "nat \<Rightarrow> qmap_slot \<Rightarrow> sQmiWwanQmap \<Rightarrow> sQmiWwanQmap" where
  "slot_put i s q = q\<lparr>q_nets := (q_nets q)[i := s]\<rparr>"

subsection \<open>Link state\<close>

text \<open>\<open>link_state\<close> is the number \<^verbatim>\<open>simple_strtoul\<close> reads from the attribute.\<close>

definition link_channel_update :: "u32 \<Rightarrow> sQmiWwanQmap \<Rightarrow> sQmiWwanQmap" where
  "link_channel_update offset_id q =
     (case slot_at q (unat offset_id) of
        QmapNet p \<Rightarrow>
          (let ls = bit (q_link_state q) (unat offset_id); n = qp_net p;
               n' = if \<not> nd_up n then n
                    else if ls then n\<lparr>nd_carrier := True,
                                     nd_stopped := nd_stopped n \<and> nd_stopped (q_real q)\<rparr>
                    else n\<lparr>nd_carrier := False\<rparr>
           in slot_put (unat offset_id) (QmapNet (p\<lparr>qp_link_state := ls, qp_net := n'\<rparr>)) q)
      | _ \<Rightarrow> q)"

definition link_apply :: "u32 \<Rightarrow> sQmiWwanQmap \<Rightarrow> sQmiWwanQmap" where
  "link_apply offset_id q =
     (let q1 = if nd_up (q_real q) \<and> q_link_state q \<noteq> 0 then q\<lparr>q_real := (q_real q)\<lparr>nd_carrier := True\<rparr>\<rparr> else q;
          q2 = link_channel_update offset_id q1
      in if nd_up (q_real q2) \<and> q_link_state q2 = 0 then q2\<lparr>q_real := (q_real q2)\<lparr>nd_carrier := False\<rparr>\<rparr> else q2)"

definition link_state_store :: "u32 \<Rightarrow> sQmiWwanQmap \<Rightarrow> sQmiWwanQmap" where
  "link_state_store link_state q =
     (if q_qmap_mode q = 1
      then (let q' = q\<lparr>q_link_state := if link_state \<noteq> 0 then 1 else 0\<rparr>
            in if q_link_state q \<noteq> q_link_state q' then link_apply 0 q' else q')
      else if 1 < q_qmap_mode q
      then (let offset_id = (link_state AND 0x7F) - 1
            in if q_qmap_mode q \<le> offset_id then q
               else (let b = push_bit (unat offset_id) 1;
                         q' = q\<lparr>q_link_state := if bit link_state 7 then q_link_state q AND NOT b
                                                else q_link_state q OR b\<rparr>
                     in if q_link_state q \<noteq> q_link_state q' then link_apply offset_id q' else q'))
      else q)"

subsection \<open>Opening, stopping and waking a channel\<close>

definition qmap_open :: "qmap_priv \<Rightarrow> net_device \<Rightarrow> unit res \<times> qmap_priv \<times> net_device" where
  "qmap_open p real =
     (if \<not> nd_up real then (Inl ENETDOWN, p, real)
      else if qp_link_state p
      then (let n = qp_net p
            in (Inr (), p\<lparr>qp_net := n\<lparr>nd_carrier := True, nd_stopped := nd_stopped n \<and> nd_stopped real\<rparr>\<rparr>,
                real\<lparr>nd_carrier := True\<rparr>))
      else (Inr (), p, real))"

definition qmap_stop :: "qmap_priv \<Rightarrow> qmap_priv" where
  "qmap_stop p = p\<lparr>qp_net := (qp_net p)\<lparr>nd_carrier := False\<rparr>\<rparr>"

text \<open>The loop over the channels of the mode.\<close>

definition map_channels :: "(qmap_priv \<Rightarrow> qmap_priv) \<Rightarrow> sQmiWwanQmap \<Rightarrow> sQmiWwanQmap" where
  "map_channels f q =
     q\<lparr>q_nets := map (\<lambda>(i, s). case s of QmapNet p \<Rightarrow> if i < unat (q_qmap_mode q) then QmapNet (f p) else s | _ \<Rightarrow> s)
         (enumerate 0 (q_nets q))\<rparr>"

definition wake_net :: "net_device \<Rightarrow> net_device" where
  "wake_net n = (if nd_carrier n \<and> nd_stopped n then n\<lparr>nd_stopped := False\<rparr> else n)"

definition qmap_wake_queue :: "sQmiWwanQmap \<Rightarrow> sQmiWwanQmap" where
  "qmap_wake_queue q =
     (if \<not> q_use_rmnet_usb q then q
      else (let q' = map_channels (\<lambda>p. p\<lparr>qp_net := wake_net (qp_net p)\<rparr>) q
            in if 0 < q_qmap_mode q \<and> RealNet \<in> set (take (unat (q_qmap_mode q)) (q_nets q))
               then q'\<lparr>q_real := wake_net (q_real q')\<rparr> else q'))"

text \<open>\<^verbatim>\<open>qmi_wwan_start_xmit\<close> after \<^verbatim>\<open>usbnet_start_xmit\<close>, which may have stopped the queue of the device.\<close>

definition qmi_wwan_start_xmit :: "(net_device \<Rightarrow> net_device) \<Rightarrow> sQmiWwanQmap \<Rightarrow> sQmiWwanQmap" where
  "qmi_wwan_start_xmit usbnet_xmit q =
     (let q1 = q\<lparr>q_real := usbnet_xmit (q_real q)\<rparr>
      in if nd_stopped (q_real q1) \<and> q_use_rmnet_usb q1
         then map_channels (\<lambda>p. p\<lparr>qp_net := (qp_net p)\<lparr>nd_stopped := True\<rparr>\<rparr>) q1 else q1)"

subsection \<open>Settings\<close>

record QMAP_SETTING =
  set_size :: u32
  set_max_datagrams :: u32
  set_max_size :: u32
  set_dl_minimum_padding :: u32

text \<open>The result is whether the call succeeds (\<^verbatim>\<open>-EOPNOTSUPP\<close> otherwise).\<close>

definition qma_setting_store :: "QMAP_SETTING \<Rightarrow> u32 \<Rightarrow> sQmiWwanQmap \<Rightarrow> unit res \<times> sQmiWwanQmap" where
  "qma_setting_store st sz q =
     (if set_size st \<noteq> sz then (Inl EOPNOTSUPP, q)
      else if q_max_datagrams q = 1 \<and> 1 < set_max_datagrams st
      then (Inr (), q\<lparr>q_max_datagrams := set_max_datagrams st, q_max_size := set_max_size st,
                      q_dl_minimum_padding := set_dl_minimum_padding st\<rparr>)
      else (Inr (), q))"

text \<open>
  The bridge attributes of the USB network device and of a channel's (\<^verbatim>\<open>is_qmap_netdev\<close>); the values are
  what \<^verbatim>\<open>simple_strtoul\<close> reads. A channel is \<open>Some i\<close>, the USB network device \<open>None\<close>.
\<close>

definition bridge_mode_store :: "nat option \<Rightarrow> u32 \<Rightarrow> sQmiWwanQmap \<Rightarrow> sQmiWwanQmap" where
  "bridge_mode_store chan v q =
     (case chan of
        Some i \<Rightarrow> (case slot_at q i of
                     QmapNet p \<Rightarrow> if nd_ether (qp_net p) then slot_put i (QmapNet (p\<lparr>qp_bridge_mode := v\<rparr>)) q else q
                   | _ \<Rightarrow> q)
      | None \<Rightarrow> if nd_ether (q_real q) then q\<lparr>q_bridge_mode := v\<rparr> else q)"

definition bridge_ipv4_store :: "nat option \<Rightarrow> u32 \<Rightarrow> sQmiWwanQmap \<Rightarrow> sQmiWwanQmap" where
  "bridge_ipv4_store chan v q =
     (case chan of
        Some i \<Rightarrow> (case slot_at q i of QmapNet p \<Rightarrow> slot_put i (QmapNet (p\<lparr>qp_bridge_ipv4 := v\<rparr>)) q | _ \<Rightarrow> q)
      | None \<Rightarrow> q\<lparr>q_bridge_ipv4 := v\<rparr>)"

text \<open>The new MTU is an \<^verbatim>\<open>int\<close>.\<close>

definition rmnet_vnd_change_mtu :: "int \<Rightarrow> net_device \<Rightarrow> unit res \<times> net_device" where
  "rmnet_vnd_change_mtu new_mtu n =
     (if new_mtu < 0 then (Inl EINVAL, n) else (Inr (), n\<lparr>nd_mtu := word_of_int new_mtu\<rparr>))"

text \<open>
  The private ioctls. The user's memory is an argument: \<open>None\<close> when \<^verbatim>\<open>copy_from_user\<close> fails, which leaves a
  positive count as result. The number is written to text and read again by \<^verbatim>\<open>link_state_store\<close>.
\<close>

datatype ioctl_arg = IoLink u32 | IoSetting QMAP_SETTING

fun info_names :: "nat \<Rightarrow> qmap_slot list \<Rightarrow> net_device \<Rightarrow> string list \<Rightarrow> string list" where
  "info_names i [] real nms = nms"
| "info_names i (NoNet # ss) real nms = nms"
| "info_names i (RealNet # ss) real nms = info_names (Suc i) ss real (nms[i := nd_name real])"
| "info_names i (QmapNet p # ss) real nms = info_names (Suc i) ss real (nms[i := nd_name (qp_net p)])"

datatype ioctl_rc = IoRc "unit res" | IoCopyFault | IoInfo RMNET_INFO

definition qmap_ndo_do_ioctl ::
  "int \<Rightarrow> ioctl_arg option \<Rightarrow> bool \<Rightarrow> u32 \<Rightarrow> sQmiWwanQmap \<Rightarrow> ioctl_rc \<times> sQmiWwanQmap" where
  "qmap_ndo_do_ioctl cmd arg copy_ok sz q =
     (if cmd = 0x89F1
      then (case arg of
              Some (IoLink v) \<Rightarrow> (IoRc (Inr ()), link_state_store v q)
            | _ \<Rightarrow> (IoCopyFault, q))
      else if cmd = 0x89F2
      then (case arg of
              Some (IoSetting st) \<Rightarrow> (let (r, q') = qma_setting_store st sz q in (IoRc r, q'))
            | _ \<Rightarrow> (IoCopyFault, q))
      else if cmd = 0x89F3 \<and> q_use_rmnet_usb q
      then (let info = q_rmnet_info q;
                info' = info\<lparr>ri_ifname := info_names 0 (take (unat (q_qmap_mode q)) (q_nets q)) (q_real q) (ri_ifname info)\<rparr>
            in (if copy_ok then IoInfo info' else IoCopyFault, q\<lparr>q_rmnet_info := info'\<rparr>))
      else (IoRc (Inl EOPNOTSUPP), q))"

subsection \<open>Network devices of the channels\<close>

definition ETH_ALEN :: nat where "ETH_ALEN = 6"
definition ETH_HLEN :: nat where "ETH_HLEN = 14"

definition default_modem_addr :: bytes where
  "default_modem_addr = [0x02, 0x50, 0xF3, 0x00, 0x00, 0x00]"

definition possibly_iphdr :: "bytes \<Rightarrow> bool" where
  "possibly_iphdr d \<longleftrightarrow> (d ! 0) AND 0xD0 = 0x40"

text \<open>\<open>prep\<close> is the result of \<^verbatim>\<open>eth_prepare_mac_addr_change\<close>.\<close>

definition qmi_wwan_mac_addr :: "unit res \<Rightarrow> bytes \<Rightarrow> net_device \<Rightarrow> unit res \<times> net_device" where
  "qmi_wwan_mac_addr prep addr n =
     (case prep of
        Inl e \<Rightarrow> (Inl e, n)
      | Inr _ \<Rightarrow> if possibly_iphdr addr then (Inl EADDRNOTAVAIL, n) else (Inr (), n\<lparr>nd_addr := addr\<rparr>))"

text \<open>\<^verbatim>\<open>sprintf\<close> of a non-negative \<^verbatim>\<open>%d\<close>.\<close>

fun dec :: "nat \<Rightarrow> string" where
  "dec n = (if n < 10 then [char_of (48 + n)] else dec (n div 10) @ [char_of (48 + n mod 10)])"

declare dec.simps [simp del]

definition channel_name :: "string \<Rightarrow> u8 \<Rightarrow> string" where
  "channel_name nm offset_id = nm @ ''_'' @ dec (unat offset_id + 1)"

definition channel_addr :: "bytes \<Rightarrow> u8 \<Rightarrow> bytes" where
  "channel_addr addr offset_id = addr[ETH_ALEN - 1 := addr ! (ETH_ALEN - 1) + (offset_id + 1)]"

text \<open>
  \<open>err\<close>: the error of the allocations or of \<^verbatim>\<open>register_netdev\<close>, if any; \<open>now\<close>: the time of day.
  \<^verbatim>\<open>rmnet_usb_ether_setup\<close> gives an Ethernet device with the default MTU, and \<^verbatim>\<open>rmnet_usb_rawip_setup\<close> makes
  it a raw IP device.
\<close>

definition rmnet_usb_ether_setup :: "string \<Rightarrow> net_device" where
  "rmnet_usb_ether_setup nm =
     \<lparr>nd_name = nm, nd_mtu = 1500, nd_ether = True, nd_hard_header_len = 14, nd_addr = replicate ETH_ALEN 0,
      nd_up = False, nd_carrier = True, nd_stopped = False\<rparr>"

definition rmnet_usb_rawip_setup :: "net_device \<Rightarrow> net_device" where
  "rmnet_usb_rawip_setup n = n\<lparr>nd_ether := False, nd_hard_header_len := 0\<rparr>"

definition channel_priv :: "int \<times> int \<Rightarrow> u8 \<Rightarrow> sQmiWwanQmap \<Rightarrow> qmap_priv" where
  "channel_priv now offset_id q =
     (let bm = if bit (q_bridge_mode q) (unat offset_id) then 1 else 0;
          n0 = (rmnet_usb_ether_setup (channel_name (nd_name (q_real q)) offset_id))
                 \<lparr>nd_addr := channel_addr (nd_addr (q_real q)) offset_id\<rparr>;
          n = if bm = 0 then rmnet_usb_rawip_setup n0 else n0
      in \<lparr>qp_net = n\<lparr>nd_carrier := False\<rparr>, qp_offset_id = offset_id,
          qp_mux_id = QUECTEL_QMAP_MUX_ID + offset_id,
          qp_qmap_version = ucast (q_qmap_version q), qp_link_state = False, qp_agg_skb = None,
          qp_agg_count = 0, qp_agg_time = now, qp_timer = False, qp_bridge_mode = bm,
          qp_bridge_ipv4 = 0, qp_bridge_mac = replicate ETH_ALEN 0\<rparr>)"

definition qmap_register_device ::
  "errno option \<Rightarrow> int \<times> int \<Rightarrow> u8 \<Rightarrow> sQmiWwanQmap \<Rightarrow> unit res \<times> sQmiWwanQmap" where
  "qmap_register_device err now offset_id q =
     (case err of
        Some e \<Rightarrow> (Inl e, q)
      | None \<Rightarrow>
          (let i = unat offset_id; p = channel_priv now offset_id q; info = q_rmnet_info q;
               info' = info\<lparr>ri_ifname := (ri_ifname info)[i := nd_name (qp_net p)],
                            ri_mux_id := (ri_mux_id info)[i := qp_mux_id p]\<rparr>
           in (Inr (), slot_put i (QmapNet p) (q\<lparr>q_rmnet_info := info'\<rparr>))))"

definition qmap_unregister_device :: "u8 \<Rightarrow> sQmiWwanQmap \<Rightarrow> sQmiWwanQmap" where
  "qmap_unregister_device offset_id q =
     (case slot_at q (unat offset_id) of QmapNet p \<Rightarrow> slot_put (unat offset_id) NoNet q | _ \<Rightarrow> q)"

subsection \<open>Binding, probing and disconnecting\<close>

text \<open>The hardware address \<^verbatim>\<open>qmi_wwan_bind\<close> leaves; \<open>rnd\<close> is what \<^verbatim>\<open>eth_hw_addr_random\<close> picks.\<close>

definition bind_addr :: "bytes \<Rightarrow> bytes \<Rightarrow> bytes" where
  "bind_addr rnd addr =
     (let a = if addr = default_modem_addr then rnd else addr
      in if possibly_iphdr a then a[0 := (a ! 0 OR 0x02) AND 0xBF] else a)"

definition lte_a_product :: "u32 \<Rightarrow> bool" where
  "lte_a_product pid \<longleftrightarrow> pid \<in> {0x0306, 0x030B, 0x0512, 0x0620, 0x0800, 0x0801, 0x0122, 0x0316, 0x0455, 0x013D}"

definition rmnet_product :: "u32 \<Rightarrow> bool" where
  "rmnet_product pid \<longleftrightarrow> pid \<in> {0x0800, 0x0801, 0x0122, 0x0455, 0x013D}"

definition zero_rmnet_info :: RMNET_INFO where
  "zero_rmnet_info =
     \<lparr>ri_rx_urb_size = 0, ri_ep_type = 0, ri_iface_id = 0, ri_qmap_mode = 0, ri_qmap_version = 0,
      ri_dl_minimum_padding = 0, ri_ifname = replicate 8 [], ri_mux_id = replicate 8 0\<rparr>"

definition bind_alloc :: "net_device \<Rightarrow> u32 \<Rightarrow> bool \<Rightarrow> sQmiWwanQmap" where
  "bind_alloc net bridge_mode noarp =
     \<lparr>q_real = net, q_nets = replicate 4 NoNet, q_link_state = 1, q_qmap_mode = 0, q_qmap_size = 0,
      q_qmap_version = 0, q_max_datagrams = 0, q_max_size = 0, q_dl_minimum_padding = 0,
      q_bridge_mode = bridge_mode, q_bridge_ipv4 = 0, q_bridge_mac = replicate ETH_ALEN 0,
      q_use_rmnet_usb = False, q_rmnet_info = zero_rmnet_info, q_noarp = noarp\<rparr>"

text \<open>
  \<^verbatim>\<open>qmi_wwan_bind\<close> from the fix of the address on, for a successful \<^verbatim>\<open>qmi_wwan_register_subdriver\<close> and
  allocation: the module parameter \<open>mode\<close> is cut to the number of channels and may be raised to 1 for fast
  devices; \<open>data\<close> is the word of the driver's device table (version and size in KB). The result is the state,
  the module parameter and \<^verbatim>\<open>rx_urb_size\<close>.
\<close>

definition qmi_wwan_bind ::
  "bytes \<Rightarrow> u32 \<Rightarrow> u32 \<Rightarrow> u32 \<Rightarrow> bool \<Rightarrow> bool \<Rightarrow> u32 \<Rightarrow> net_device \<Rightarrow> sQmiWwanQmap \<times> u32 \<times> u32" where
  "qmi_wwan_bind rnd mode data idProduct superspeed noarp bridge_mode net =
     (let mode0 = if QUECTEL_WWAN_QMAP < mode then QUECTEL_WWAN_QMAP else mode;
          q0 = bind_alloc (net\<lparr>nd_addr := bind_addr rnd (nd_addr net)\<rparr>) bridge_mode noarp;
          urb = 1500 + 14 + 6
      in if \<not> noarp then (q0, mode0, urb)
         else (let version = drop_bit 8 data AND 0xFF; sz = data AND 0xFF;
                   lte_a = (lte_a_product idProduct \<or> 4096 < sz \<or> superspeed);
                   qm = if lte_a \<and> mode0 = 0 then 1 else mode0
               in if qm = 0 then (q0, mode0, urb)
                  else (q0\<lparr>q_qmap_mode := qm, q_qmap_version := version, q_qmap_size := sz * 1024,
                           q_link_state := (if lte_a then 0 else 1),
                           q_use_rmnet_usb := (1 < qm \<or> rmnet_product idProduct),
                           q_rmnet_info := (q_rmnet_info q0)
                             \<lparr>ri_rx_urb_size := sz * 1024, ri_ep_type := 2,
                              ri_iface_id := (if idProduct = 0x0316 then 3 else 4),
                              ri_qmap_mode := qm, ri_qmap_version := version, ri_dl_minimum_padding := 0\<rparr>,
                           q_max_datagrams := 1, q_max_size := 1500\<rparr>, qm, sz * 1024)))"

text \<open>The registrations of \<^verbatim>\<open>qmap_qmi_wwan_probe\<close>, whose results are ignored; \<open>errs\<close> and \<open>nows\<close> per channel.\<close>

definition probe_channel :: "(nat \<Rightarrow> errno option) \<Rightarrow> (nat \<Rightarrow> int \<times> int) \<Rightarrow> nat \<Rightarrow> sQmiWwanQmap \<Rightarrow> sQmiWwanQmap" where
  "probe_channel errs nows i q = snd (qmap_register_device (errs i) (nows i) (word_of_nat i) q)"

definition qmap_qmi_wwan_probe ::
  "(nat \<Rightarrow> errno option) \<Rightarrow> (nat \<Rightarrow> int \<times> int) \<Rightarrow> sQmiWwanQmap \<Rightarrow> sQmiWwanQmap" where
  "qmap_qmi_wwan_probe errs nows q =
     (let q1 = if q_qmap_mode q = 1
               then (let q0 = slot_put 0 RealNet q
                     in if q_use_rmnet_usb q then probe_channel errs nows 0 (slot_put 0 NoNet q0) else q0)
               else if 1 < q_qmap_mode q
               then fold (probe_channel errs nows) [0..<unat (q_qmap_mode q)] q
               else q
      in if q_link_state q1 = 0 then q1\<lparr>q_real := (q_real q1)\<lparr>nd_carrier := False\<rparr>\<rparr> else q1)"

definition qmap_qmi_wwan_disconnect :: "sQmiWwanQmap \<Rightarrow> sQmiWwanQmap" where
  "qmap_qmi_wwan_disconnect q =
     (let q1 = q\<lparr>q_link_state := 0\<rparr>;
          q2 = if 1 < q_qmap_mode q1
               then fold (\<lambda>i. qmap_unregister_device (word_of_nat i)) [0..<unat (q_qmap_mode q1)] q1 else q1
      in if q_use_rmnet_usb q2 then qmap_unregister_device 0 q2 else q2)"

subsection \<open>Power management\<close>

text \<open>\<open>usbnet_open\<close>: the result of the call and the device after it.\<close>

definition qmi_wwan_open :: "(net_device \<Rightarrow> unit res \<times> net_device) \<Rightarrow> sQmiWwanQmap \<Rightarrow> unit res \<times> sQmiWwanQmap" where
  "qmi_wwan_open usbnet_open q =
     (let (r, n) = usbnet_open (q_real q); q' = q\<lparr>q_real := n\<rparr>
      in (r, case r of
               Inl _ \<Rightarrow> q'
             | Inr _ \<Rightarrow> if q_qmap_mode q' = 1 \<and> q_link_state q' \<noteq> 0
                        then q'\<lparr>q_real := n\<lparr>nd_carrier := True\<rparr>\<rparr> else q'))"

text \<open>
  \<^verbatim>\<open>qmi_wwan_manage_power\<close> on the counter \<^verbatim>\<open>pmcount\<close> and the flag \<^verbatim>\<open>needs_remote_wakeup\<close>; the result is whether
  usbcore was told (\<^verbatim>\<open>usb_autopm_get_interface\<close>).
\<close>

definition qmi_wwan_manage_power :: "bool \<Rightarrow> int \<times> bool \<Rightarrow> bool \<times> (int \<times> bool)" where
  "qmi_wwan_manage_power on st =
     (let (cnt, wake) = st; cnt' = (if on then cnt + 1 else cnt - 1)
      in if (on \<and> cnt' = 1) \<or> (\<not> on \<and> cnt' = 0) then (True, (cnt', on)) else (False, (cnt', wake)))"

text \<open>
  Suspending and resuming: \<open>sub\<close> is \<open>Some\<close> result when the interface has a subdriver with that callback,
  \<open>un\<close> the result of usbnet's function; the calls made are recorded in order.
\<close>

datatype pm_call = UsbnetSuspend | UsbnetResume | SubSuspend | SubResume

definition qmi_wwan_suspend :: "unit res \<Rightarrow> unit res option \<Rightarrow> unit res \<times> pm_call list" where
  "qmi_wwan_suspend un sub =
     (case un of
        Inl e \<Rightarrow> (Inl e, [UsbnetSuspend])
      | Inr _ \<Rightarrow> (case sub of
                    None \<Rightarrow> (Inr (), [UsbnetSuspend])
                  | Some (Inr _) \<Rightarrow> (Inr (), [UsbnetSuspend, SubSuspend])
                  | Some (Inl e) \<Rightarrow> (Inl e, [UsbnetSuspend, SubSuspend, UsbnetResume])))"

definition qmi_wwan_resume ::
  "unit res \<Rightarrow> unit res option \<Rightarrow> sQmiWwanQmap \<Rightarrow> unit res \<times> pm_call list \<times> sQmiWwanQmap" where
  "qmi_wwan_resume un sub q =
     (case sub of
        Some (Inl e) \<Rightarrow> (Inl e, [SubResume], q)
      | _ \<Rightarrow>
          (let subs = (if sub = None then [] else [SubResume]);
               undo = (case un of Inl _ \<Rightarrow> if sub = None then [] else [SubSuspend] | Inr _ \<Rightarrow> []);
               q' = if nd_stopped (q_real q) then q else qmap_wake_queue q
           in (un, subs @ [UsbnetResume] @ undo, q')))"

definition qmi_wwan_reset_resume :: "unit res" where
  "qmi_wwan_reset_resume = Inl EOPNOTSUPP"

subsection \<open>The invariant\<close>

text \<open>
  What may stand in entry \<open>i\<close>: the USB network device only in the mode with one channel and no device of its
  own, a channel's device only for a number of the mode, with the mux id and the version it was created for,
  and with the link state that the device's bit says.
\<close>

definition slot_ok :: "u32 \<Rightarrow> u32 \<Rightarrow> bool \<Rightarrow> u32 \<Rightarrow> nat \<Rightarrow> qmap_slot \<Rightarrow> bool" where
  "slot_ok mode version use_rmnet link i s =
     (case s of
        NoNet \<Rightarrow> True
      | RealNet \<Rightarrow> i = 0 \<and> mode = 1 \<and> \<not> use_rmnet
      | QmapNet p \<Rightarrow> i < unat mode \<and> use_rmnet \<and> qp_offset_id p = word_of_nat i \<and>
                     qp_mux_id p = QUECTEL_QMAP_MUX_ID + word_of_nat i \<and>
                     qp_qmap_version p = ucast version \<and> qp_link_state p = bit link i)"

definition qmap_inv :: "sQmiWwanQmap \<Rightarrow> bool" where
  "qmap_inv q \<longleftrightarrow> qmap_wf q \<and>
     (\<forall>i < 4. slot_ok (q_qmap_mode q) (q_qmap_version q) (q_use_rmnet_usb q) (q_link_state q) i (slot_at q i))"

inductive qmap_step :: "sQmiWwanQmap \<Rightarrow> sQmiWwanQmap \<Rightarrow> bool" where
  step_link: "qmap_step q (link_state_store v q)"
| step_ioctl: "qmap_step q (snd (qmap_ndo_do_ioctl cmd arg ok sz q))"
| step_bridge_mode: "i < 4 \<Longrightarrow> qmap_step q (bridge_mode_store (Some i) v q)"
| step_bridge_mode_real: "qmap_step q (bridge_mode_store None v q)"
| step_bridge_ipv4: "i < 4 \<Longrightarrow> qmap_step q (bridge_ipv4_store (Some i) v q)"
| step_bridge_ipv4_real: "qmap_step q (bridge_ipv4_store None v q)"
| step_open: "i < 4 \<Longrightarrow> slot_at q i = QmapNet p \<Longrightarrow> qmap_open p (q_real q) = (r, p', real) \<Longrightarrow>
    qmap_step q (slot_put i (QmapNet p') (q\<lparr>q_real := real\<rparr>))"
| step_stop: "i < 4 \<Longrightarrow> slot_at q i = QmapNet p \<Longrightarrow> qmap_step q (slot_put i (QmapNet (qmap_stop p)) q)"
| step_mtu: "i < 4 \<Longrightarrow> slot_at q i = QmapNet p \<Longrightarrow>
    qmap_step q (slot_put i (QmapNet (p\<lparr>qp_net := snd (rmnet_vnd_change_mtu m (qp_net p))\<rparr>)) q)"
| step_wake: "qmap_step q (qmap_wake_queue q)"
| step_xmit: "qmap_step q (qmi_wwan_start_xmit f q)"
| step_usb_open: "qmap_step q (snd (qmi_wwan_open f q))"
| step_mac: "qmap_step q (q\<lparr>q_real := snd (qmi_wwan_mac_addr prep addr (q_real q))\<rparr>)"
| step_resume: "qmap_step q (snd (snd (qmi_wwan_resume un sub q)))"
| step_disconnect: "qmap_step q (qmap_qmi_wwan_disconnect q)"

inductive_cases qmap_step_E: "qmap_step q q'"

lemma slot_at_put [simp]:
  "j < length (q_nets q) \<Longrightarrow> slot_at (slot_put i s q) j = (if i = j then s else slot_at q j)"
  by (simp add: slot_at_def slot_put_def)

lemma slot_put_fields [simp]:
  "q_real (slot_put i s q) = q_real q" "q_qmap_mode (slot_put i s q) = q_qmap_mode q"
  "q_qmap_version (slot_put i s q) = q_qmap_version q" "q_link_state (slot_put i s q) = q_link_state q"
  "q_use_rmnet_usb (slot_put i s q) = q_use_rmnet_usb q" "length (q_nets (slot_put i s q)) = length (q_nets q)"
  "q_bridge_mode (slot_put i s q) = q_bridge_mode q" "q_rmnet_info (slot_put i s q) = q_rmnet_info q"
  by (simp_all add: slot_put_def)

lemma slot_at_cong: "q_nets q' = q_nets q \<Longrightarrow> slot_at q' i = slot_at q i"
  by (simp add: slot_at_def)

text \<open>Changes of other fields, and of one entry by another that fits, keep the invariant.\<close>

lemma qmap_inv_other:
  assumes "qmap_inv q" and "q_nets q' = q_nets q" and "q_qmap_mode q' = q_qmap_mode q"
    and "q_qmap_version q' = q_qmap_version q" and "q_use_rmnet_usb q' = q_use_rmnet_usb q"
    and "q_link_state q' = q_link_state q"
  shows "qmap_inv q'"
  using assms by (simp add: qmap_inv_def qmap_wf_def slot_at_def)

lemma qmap_inv_put:
  assumes "qmap_inv q"
    and "slot_ok (q_qmap_mode q) (q_qmap_version q) (q_use_rmnet_usb q) (q_link_state q) i s"
  shows "qmap_inv (slot_put i s q)"
  using assms by (auto simp: qmap_inv_def qmap_wf_def)

lemma qmap_inv_slot:
  "qmap_inv q \<Longrightarrow> i < 4 \<Longrightarrow>
     slot_ok (q_qmap_mode q) (q_qmap_version q) (q_use_rmnet_usb q) (q_link_state q) i (slot_at q i)"
  by (simp add: qmap_inv_def)

lemma qmap_inv_put_priv:
  assumes "qmap_inv q" and "i < 4" and "slot_at q i = QmapNet p"
    and "qp_offset_id p' = qp_offset_id p" and "qp_mux_id p' = qp_mux_id p"
    and "qp_qmap_version p' = qp_qmap_version p" and "qp_link_state p' = qp_link_state p"
  shows "qmap_inv (slot_put i (QmapNet p') q)"
  using qmap_inv_slot [OF assms(1,2)] assms by (intro qmap_inv_put) (auto simp: slot_ok_def)

lemma map_channels_slot:
  "i < length (q_nets q) \<Longrightarrow> slot_at (map_channels f q) i =
     (case slot_at q i of QmapNet p \<Rightarrow> if i < unat (q_qmap_mode q) then QmapNet (f p) else QmapNet p | s \<Rightarrow> s)"
  by (auto simp: slot_at_def map_channels_def nth_enumerate_eq split: qmap_slot.splits)

lemma map_channels_fields [simp]:
  "q_real (map_channels f q) = q_real q" "q_qmap_mode (map_channels f q) = q_qmap_mode q"
  "q_qmap_version (map_channels f q) = q_qmap_version q" "q_link_state (map_channels f q) = q_link_state q"
  "q_use_rmnet_usb (map_channels f q) = q_use_rmnet_usb q" "length (q_nets (map_channels f q)) = length (q_nets q)"
  by (simp_all add: map_channels_def)

lemma qmap_inv_map_channels:
  assumes "qmap_inv q"
    and "\<And>p. qp_offset_id (f p) = qp_offset_id p \<and> qp_mux_id (f p) = qp_mux_id p \<and>
              qp_qmap_version (f p) = qp_qmap_version p \<and> qp_link_state (f p) = qp_link_state p"
  shows "qmap_inv (map_channels f q)"
  using assms by (auto simp: qmap_inv_def qmap_wf_def map_channels_slot slot_ok_def split: qmap_slot.splits)

lemma qmap_inv_wake: "qmap_inv q \<Longrightarrow> qmap_inv (qmap_wake_queue q)"
  by (auto simp: qmap_wake_queue_def Let_def intro!: qmap_inv_map_channels
      qmap_inv_other [where q = "map_channels (\<lambda>p. p\<lparr>qp_net := wake_net (qp_net p)\<rparr>) q"])

lemma qmap_inv_xmit: "qmap_inv q \<Longrightarrow> qmap_inv (qmi_wwan_start_xmit f q)"
  by (auto simp: qmi_wwan_start_xmit_def Let_def intro!: qmap_inv_map_channels intro: qmap_inv_other)

lemma link_apply_fields [simp]:
  "q_qmap_mode (link_apply i q) = q_qmap_mode q" "q_qmap_version (link_apply i q) = q_qmap_version q"
  "q_link_state (link_apply i q) = q_link_state q" "q_use_rmnet_usb (link_apply i q) = q_use_rmnet_usb q"
  "length (q_nets (link_apply i q)) = length (q_nets q)"
  by (simp_all add: link_apply_def link_channel_update_def Let_def split: qmap_slot.splits)

text \<open>The entry of the channel whose bit changed gets the new bit as link state; the others stay.\<close>

lemma link_apply_slot:
  assumes "j < length (q_nets q)"
  shows "slot_at (link_apply i q) j =
     (if j \<noteq> unat i then slot_at q j
      else case slot_at q j of
             QmapNet p \<Rightarrow> QmapNet (p\<lparr>qp_link_state := bit (q_link_state q) j,
                qp_net := (if \<not> nd_up (qp_net p) then qp_net p
                  else if bit (q_link_state q) j
                  then (qp_net p)\<lparr>nd_carrier := True, nd_stopped := nd_stopped (qp_net p) \<and> nd_stopped (q_real q)\<rparr>
                  else (qp_net p)\<lparr>nd_carrier := False\<rparr>)\<rparr>)
           | s \<Rightarrow> s)"
proof -
  let ?q1 = "if nd_up (q_real q) \<and> q_link_state q \<noteq> 0 then q\<lparr>q_real := (q_real q)\<lparr>nd_carrier := True\<rparr>\<rparr> else q"
  have s: "slot_at ?q1 k = slot_at q k" for k by (simp add: slot_at_def)
  have l: "length (q_nets ?q1) = length (q_nets q)" by simp
  have "slot_at (link_apply i q) j = slot_at (link_channel_update i ?q1) j"
    by (simp add: link_apply_def Let_def slot_at_def)
  also have "\<dots> = (if j \<noteq> unat i then slot_at q j
      else case slot_at q j of
             QmapNet p \<Rightarrow> QmapNet (p\<lparr>qp_link_state := bit (q_link_state q) j,
                qp_net := (if \<not> nd_up (qp_net p) then qp_net p
                  else if bit (q_link_state q) j
                  then (qp_net p)\<lparr>nd_carrier := True, nd_stopped := nd_stopped (qp_net p) \<and> nd_stopped (q_real q)\<rparr>
                  else (qp_net p)\<lparr>nd_carrier := False\<rparr>)\<rparr>)
           | s \<Rightarrow> s)"
    using assms by (cases "slot_at q (unat i)") (simp_all add: link_channel_update_def Let_def s l)
  finally show ?thesis .
qed

text \<open>
  \<^verbatim>\<open>link_state_store\<close> ends in a state whose link word differs from the old one at the named channel at most,
  and an entry changed exactly when the word did.
\<close>

lemma link_apply_inv:
  assumes "qmap_inv q" and "l = q_link_state q \<or> i < q_qmap_mode q"
    and "\<And>j. j < unat (q_qmap_mode q) \<Longrightarrow> j \<noteq> unat i \<Longrightarrow> bit l j = bit (q_link_state q) j"
  shows "qmap_inv (link_apply i (q\<lparr>q_link_state := l\<rparr>))"
proof -
  let ?q = "q\<lparr>q_link_state := l\<rparr>"
  have len: "length (q_nets q) = 4" using assms(1) by (simp add: qmap_inv_def qmap_wf_def)
  have at: "slot_at ?q j = slot_at q j" for j by (simp add: slot_at_def)
  have "slot_ok (q_qmap_mode q) (q_qmap_version q) (q_use_rmnet_usb q) l j (slot_at (link_apply i ?q) j)"
    if j: "j < 4" for j
    using qmap_inv_slot [OF assms(1) j] assms(3) [of j] j
    by (cases "slot_at q j") (auto simp: link_apply_slot len at slot_ok_def)
  then show ?thesis using assms(1) by (simp add: qmap_inv_def qmap_wf_def)
qed

lemma qmap_inv_link_state_store: "qmap_inv q \<Longrightarrow> qmap_inv (link_state_store v q)"
proof -
  assume inv: "qmap_inv q"
  have same: "qmap_inv (q\<lparr>q_link_state := l\<rparr>)" if "q_link_state q = l" for l
    using inv that by (intro qmap_inv_other [OF inv]) simp_all
  show ?thesis
  proof (cases "q_qmap_mode q = 1")
    case True
    have "qmap_inv (link_apply 0 (q\<lparr>q_link_state := l\<rparr>))" for l
      using True by (intro link_apply_inv [OF inv]) simp_all
    then show ?thesis using True by (auto simp: link_state_store_def Let_def intro!: same)
  next
    case False
    let ?o = "(v AND 0x7F) - 1"
    let ?b = "push_bit (unat ?o) 1 :: u32"
    have ne: "bit ?b j \<Longrightarrow> j = unat ?o" for j
      by (auto simp: bit_exp_iff)
    have "qmap_inv (link_apply ?o (q\<lparr>q_link_state := l\<rparr>))"
      if "\<not> q_qmap_mode q \<le> ?o" "l = q_link_state q AND NOT ?b \<or> l = q_link_state q OR ?b" for l
    proof (rule link_apply_inv [OF inv])
      fix j assume "j \<noteq> unat ?o"
      then have "\<not> bit ?b j" using ne by blast
      then show "bit l j = bit (q_link_state q) j" using that(2)
        by (auto simp only: bit_and_iff bit_or_iff bit_not_iff dest: bit_imp_possible_bit
            intro: impossible_bit)
    qed (use that(1) in \<open>simp add: not_le\<close>)
    then show ?thesis using False by (auto simp: link_state_store_def Let_def inv intro!: same)
  qed
qed

lemma qmap_inv_ioctl: "qmap_inv q \<Longrightarrow> qmap_inv (snd (qmap_ndo_do_ioctl cmd arg ok sz q))"
  by (auto simp: qmap_ndo_do_ioctl_def qma_setting_store_def Let_def split: option.splits ioctl_arg.splits
      intro: qmap_inv_other qmap_inv_link_state_store)

lemma qmap_inv_unregister:
  "qmap_inv q \<Longrightarrow> qmap_inv (qmap_unregister_device o' q)"
  by (auto simp: qmap_unregister_device_def slot_ok_def split: qmap_slot.splits intro!: qmap_inv_put)

lemma unregister_fields [simp]:
  "q_qmap_mode (qmap_unregister_device o' q) = q_qmap_mode q"
  "q_use_rmnet_usb (qmap_unregister_device o' q) = q_use_rmnet_usb q"
  "length (q_nets (qmap_unregister_device o' q)) = length (q_nets q)"
  by (simp_all add: qmap_unregister_device_def split: qmap_slot.splits)

lemma unregister_slot:
  "j < length (q_nets q) \<Longrightarrow> slot_at (qmap_unregister_device o' q) j =
     (if j = unat o' \<and> (\<exists>p. slot_at q j = QmapNet p) then NoNet else slot_at q j)"
  by (auto simp: qmap_unregister_device_def split: qmap_slot.splits)

text \<open>The loop of \<^verbatim>\<open>qmap_qmi_wwan_disconnect\<close> empties the entries of the channels below its bound.\<close>

lemma unregister_loop:
  assumes "n \<le> 4" and "length (q_nets q) = 4" and "j < 4"
  defines "q' \<equiv> fold (\<lambda>i. qmap_unregister_device (word_of_nat i)) [0..<n] q"
  shows "slot_at q' j = (if j < n \<and> (\<exists>p. slot_at q j = QmapNet p) then NoNet else slot_at q j) \<and>
    q_qmap_mode q' = q_qmap_mode q \<and> q_use_rmnet_usb q' = q_use_rmnet_usb q \<and> length (q_nets q') = 4"
  using assms(1,2,3) unfolding q'_def
proof (induction n)
  case (Suc n)
  have "unat (word_of_nat n :: u8) = n" using Suc.prems(1) by (simp add: unsigned_of_nat take_bit_nat_eq_self)
  then show ?case using Suc by (auto simp: unregister_slot less_Suc_eq)
qed simp

lemma disconnect_empties:
  assumes "qmap_inv q" and "i < 4"
  shows "\<not> (\<exists>p. slot_at (qmap_qmi_wwan_disconnect q) i = QmapNet p)"
proof -
  have len: "length (q_nets q) = 4" and mode: "unat (q_qmap_mode q) \<le> 4"
    using assms(1) by (auto simp: qmap_inv_def qmap_wf_def QUECTEL_WWAN_QMAP_def word_le_nat_alt)
  have at: "slot_at (q\<lparr>q_link_state := 0\<rparr>) k = slot_at q k" for k by (simp add: slot_at_def)
  note loop = unregister_loop [where q = "q\<lparr>q_link_state := 0\<rparr>" and n = "unat (q_qmap_mode q)" and j = i,
      OF mode _ assms(2)]
  have one: "0 < i \<Longrightarrow> i < unat (q_qmap_mode q) \<Longrightarrow> 1 < q_qmap_mode q"
    by (simp add: word_less_nat_alt)
  show ?thesis
    using qmap_inv_slot [OF assms] loop len assms(2) one
    by (cases "slot_at q i")
      (auto simp: qmap_qmi_wwan_disconnect_def Let_def slot_ok_def unregister_slot at)
qed

lemma qmap_inv_disconnect: "qmap_inv q \<Longrightarrow> qmap_inv (qmap_qmi_wwan_disconnect q)"
proof -
  assume inv: "qmap_inv q"
  let ?d = "qmap_qmi_wwan_disconnect q"
  have len: "length (q_nets q) = 4" and mode: "unat (q_qmap_mode q) \<le> 4"
    using inv by (auto simp: qmap_inv_def qmap_wf_def QUECTEL_WWAN_QMAP_def word_le_nat_alt)
  have at: "slot_at (q\<lparr>q_link_state := 0\<rparr>) k = slot_at q k" for k by (simp add: slot_at_def)
  have f: "q_qmap_mode ?d = q_qmap_mode q" "q_use_rmnet_usb ?d = q_use_rmnet_usb q" "length (q_nets ?d) = 4"
    using unregister_loop [where q = "q\<lparr>q_link_state := 0\<rparr>" and n = "unat (q_qmap_mode q)" and j = 0, OF mode]
    len by (auto simp: qmap_qmi_wwan_disconnect_def Let_def)
  have "slot_at ?d i = NoNet \<or> slot_at ?d i = RealNet \<and> slot_at q i = RealNet" if "i < 4" for i
    using unregister_loop [where q = "q\<lparr>q_link_state := 0\<rparr>" and n = "unat (q_qmap_mode q)" and j = i, OF mode _ that]
      disconnect_empties [OF inv that] len that
    by (cases "slot_at ?d i") (auto simp: qmap_qmi_wwan_disconnect_def Let_def unregister_slot at split: if_splits)
  then show ?thesis using inv f qmap_inv_slot [OF inv]
    by (fastforce simp: qmap_inv_def qmap_wf_def slot_ok_def split: qmap_slot.splits)
qed

lemma qmap_open_keeps:
  "qmap_open p real = (r, p', real') \<Longrightarrow> qp_offset_id p' = qp_offset_id p \<and> qp_mux_id p' = qp_mux_id p \<and>
     qp_qmap_version p' = qp_qmap_version p \<and> qp_link_state p' = qp_link_state p"
  by (auto simp: qmap_open_def Let_def split: if_splits)

text \<open>Every step keeps the invariant.\<close>

lemma qmap_step_inv:
  assumes "qmap_step q q'" and "qmap_inv q"
  shows "qmap_inv q'"
  using assms
proof (induction rule: qmap_step.induct)
  case (step_open i q p r p' real)
  have "qmap_inv (q\<lparr>q_real := real\<rparr>)" using step_open(4) by (rule qmap_inv_other) simp_all
  moreover have "slot_at (q\<lparr>q_real := real\<rparr>) i = QmapNet p" using step_open(2) by (simp add: slot_at_def)
  ultimately show ?case using step_open(1) qmap_open_keeps [OF step_open(3)] by (intro qmap_inv_put_priv) auto
next
  case (step_bridge_mode i q v)
  then show ?case by (auto simp: bridge_mode_store_def split: qmap_slot.splits intro: qmap_inv_put_priv)
next
  case (step_bridge_ipv4 i q v)
  then show ?case by (auto simp: bridge_ipv4_store_def split: qmap_slot.splits intro: qmap_inv_put_priv)
next
  case (step_bridge_mode_real q v)
  then show ?case by (auto simp: bridge_mode_store_def intro: qmap_inv_other)
next
  case (step_bridge_ipv4_real q v)
  then show ?case by (auto simp: bridge_ipv4_store_def intro: qmap_inv_other)
next
  case (step_stop i q p)
  then show ?case by (auto simp: qmap_stop_def intro: qmap_inv_put_priv)
next
  case (step_mtu i q p m)
  then show ?case by (auto intro: qmap_inv_put_priv)
next
  case (step_usb_open q f)
  then show ?case by (auto simp: qmi_wwan_open_def Let_def split: prod.splits sum.splits intro: qmap_inv_other)
next
  case (step_mac q prep addr)
  then show ?case by (auto intro: qmap_inv_other)
next
  case (step_resume q un sub)
  then show ?case
    by (auto simp: qmi_wwan_resume_def Let_def split: option.splits sum.splits intro: qmap_inv_wake)
qed (simp_all add: qmap_inv_link_state_store qmap_inv_ioctl qmap_inv_wake qmap_inv_xmit qmap_inv_disconnect)

subsection \<open>What binding and probing establish\<close>

lemma channel_priv_cong [simp]:
  "channel_priv now o' (slot_put i s q) = channel_priv now o' q"
  "channel_priv now o' (q\<lparr>q_rmnet_info := x\<rparr>) = channel_priv now o' q"
  by (simp_all add: channel_priv_def slot_put_def)

lemma probe_channel_fields [simp]:
  "q_real (probe_channel e t i q) = q_real q" "q_qmap_mode (probe_channel e t i q) = q_qmap_mode q"
  "q_qmap_version (probe_channel e t i q) = q_qmap_version q"
  "q_link_state (probe_channel e t i q) = q_link_state q"
  "q_use_rmnet_usb (probe_channel e t i q) = q_use_rmnet_usb q"
  "length (q_nets (probe_channel e t i q)) = length (q_nets q)"
  "channel_priv now o' (probe_channel e t i q) = channel_priv now o' q"
  by (simp_all add: probe_channel_def qmap_register_device_def Let_def split: option.splits)

lemma probe_channel_slot:
  assumes "j < length (q_nets q)" and "i < 4"
  shows "slot_at (probe_channel e t i q) j =
    (if j = i \<and> e i = None then QmapNet (channel_priv (t i) (word_of_nat i) q) else slot_at q j)"
proof -
  have "unat (word_of_nat i :: u8) = i" using assms(2) by (simp add: unsigned_of_nat take_bit_nat_eq_self)
  then show ?thesis using assms(1)
    by (auto simp: probe_channel_def qmap_register_device_def Let_def slot_at_def slot_put_def split: option.splits)
qed

lemma probe_loop:
  fixes e :: "nat \<Rightarrow> errno option" and t :: "nat \<Rightarrow> int \<times> int"
  assumes "n \<le> 4" and "length (q_nets q) = 4"
  defines "q' \<equiv> fold (probe_channel e t) [0..<n] q"
  shows "(\<forall>j < 4. slot_at q' j = (if j < n \<and> e j = None then QmapNet (channel_priv (t j) (word_of_nat j) q)
      else slot_at q j)) \<and> q_real q' = q_real q \<and> q_qmap_mode q' = q_qmap_mode q \<and>
    q_qmap_version q' = q_qmap_version q \<and> q_link_state q' = q_link_state q \<and>
    q_use_rmnet_usb q' = q_use_rmnet_usb q \<and> length (q_nets q') = 4 \<and>
    (\<forall>now o'. channel_priv now o' q' = channel_priv now o' q)"
  using assms(1,2) unfolding q'_def
  by (induction n) (auto simp: probe_channel_slot less_Suc_eq simp del: split_paired_All)

text \<open>The state after probing: which entries exist, and the fields that stay.\<close>

lemma probe_slots:
  fixes e :: "nat \<Rightarrow> errno option" and t :: "nat \<Rightarrow> int \<times> int"
  assumes "qmap_wf q" and "\<And>i. i < 4 \<Longrightarrow> slot_at q i = NoNet" and "1 < q_qmap_mode q \<Longrightarrow> q_use_rmnet_usb q"
  defines "q' \<equiv> qmap_qmi_wwan_probe e t q"
  shows "(\<forall>j < 4. slot_at q' j =
      (if j < unat (q_qmap_mode q) then (if \<not> q_use_rmnet_usb q then RealNet
         else if e j = None then QmapNet (channel_priv (t j) (word_of_nat j) q) else NoNet) else NoNet))"
    and "q_qmap_mode q' = q_qmap_mode q" "q_qmap_version q' = q_qmap_version q" "q_link_state q' = q_link_state q"
      "q_use_rmnet_usb q' = q_use_rmnet_usb q" "qmap_wf q'" "nd_addr (q_real q') = nd_addr (q_real q)"
proof -
  have len: "length (q_nets q) = 4" and mode: "unat (q_qmap_mode q) \<le> 4"
    using assms(1) by (auto simp: qmap_wf_def QUECTEL_WWAN_QMAP_def word_le_nat_alt)
  note loop = probe_loop [OF mode len, of e t]
  have at: "slot_at (q\<lparr>q_real := r\<rparr>) j = slot_at q j" for r j and q :: sQmiWwanQmap by (simp add: slot_at_def)
  have m1: "q_qmap_mode q \<noteq> 1 \<Longrightarrow> \<not> 1 < q_qmap_mode q \<Longrightarrow> unat (q_qmap_mode q) = 0"
    by (auto simp: word_less_nat_alt word_unat_eq_iff)
  show "(\<forall>j < 4. slot_at q' j =
      (if j < unat (q_qmap_mode q) then (if \<not> q_use_rmnet_usb q then RealNet
         else if e j = None then QmapNet (channel_priv (t j) (word_of_nat j) q) else NoNet) else NoNet))"
    using loop len assms(2,3) m1
    by (cases "q_qmap_mode q = 1"; cases "1 < q_qmap_mode q")
      (auto simp: q'_def qmap_qmi_wwan_probe_def Let_def at probe_channel_slot)
  show "q_qmap_mode q' = q_qmap_mode q" "q_qmap_version q' = q_qmap_version q" "q_link_state q' = q_link_state q"
      "q_use_rmnet_usb q' = q_use_rmnet_usb q" "qmap_wf q'" "nd_addr (q_real q') = nd_addr (q_real q)"
    using loop assms(1) by (simp_all add: q'_def qmap_qmi_wwan_probe_def Let_def qmap_wf_def QUECTEL_WWAN_QMAP_def)
qed

lemma bind_state:
  assumes "qmi_wwan_bind rnd mode data pid superspeed noarp bm net = (q, mode', urb)"
  shows "qmap_wf q" "i < 4 \<Longrightarrow> slot_at q i = NoNet" "1 < q_qmap_mode q \<Longrightarrow> q_use_rmnet_usb q"
    "nd_addr (q_real q) = bind_addr rnd (nd_addr net)"
    "q_qmap_mode q \<noteq> 0 \<Longrightarrow> q_link_state q = (if lte_a_product pid \<or> superspeed then 0 else 1)"
    "\<not> 1 < q_qmap_mode q \<Longrightarrow> q_use_rmnet_usb q \<Longrightarrow> q_qmap_mode q \<noteq> 0 \<and> lte_a_product pid"
proof -
  have sz: "\<not> 4096 < data AND 0xFF"
  proof -
    have "data AND 0xFF \<le> 0xFF" by (rule word_and_le1)
    moreover have "(0xFF :: u32) < 4096" by simp
    ultimately show ?thesis by (meson not_less order.strict_trans1 order_less_imp_le)
  qed
  have prod: "rmnet_product pid \<Longrightarrow> lte_a_product pid" by (auto simp: rmnet_product_def lte_a_product_def)
  have m: "(if QUECTEL_WWAN_QMAP < mode then QUECTEL_WWAN_QMAP else mode) \<le> QUECTEL_WWAN_QMAP"
    by (simp add: not_less)
  have "1 \<le> QUECTEL_WWAN_QMAP" by (simp add: QUECTEL_WWAN_QMAP_def)
  with assms m sz prod show "qmap_wf q" "i < 4 \<Longrightarrow> slot_at q i = NoNet" "1 < q_qmap_mode q \<Longrightarrow> q_use_rmnet_usb q"
    "nd_addr (q_real q) = bind_addr rnd (nd_addr net)"
    "q_qmap_mode q \<noteq> 0 \<Longrightarrow> q_link_state q = (if lte_a_product pid \<or> superspeed then 0 else 1)"
    "\<not> 1 < q_qmap_mode q \<Longrightarrow> q_use_rmnet_usb q \<Longrightarrow> q_qmap_mode q \<noteq> 0 \<and> lte_a_product pid"
    by (auto simp: qmi_wwan_bind_def bind_alloc_def Let_def qmap_wf_def slot_at_def split: if_splits)
qed

lemma channel_priv_fields [simp]:
  "qp_offset_id (channel_priv now o' q) = o'" "qp_mux_id (channel_priv now o' q) = QUECTEL_QMAP_MUX_ID + o'"
  "qp_qmap_version (channel_priv now o' q) = ucast (q_qmap_version q)"
  "\<not> qp_link_state (channel_priv now o' q)"
  "nd_addr (qp_net (channel_priv now o' q)) = channel_addr (nd_addr (q_real q)) o'"
  "nd_name (qp_net (channel_priv now o' q)) = channel_name (nd_name (q_real q)) o'"
  "nd_mtu (qp_net (channel_priv now o' q)) = 1500"
  by (simp_all add: channel_priv_def Let_def rmnet_usb_rawip_setup_def rmnet_usb_ether_setup_def)


lemma channel_addr_inj:
  assumes "length a = 6" and "channel_addr a o' = channel_addr a o''"
  shows "o' = o''"
proof -
  have "channel_addr a o' ! 5 = channel_addr a o'' ! 5" using assms(2) by simp
  then show ?thesis using assms(1) by (simp add: channel_addr_def ETH_ALEN_def)
qed

lemma channel_addr_real:
  assumes "length a = 6" and "o' < 4"
  shows "channel_addr a o' \<noteq> a"
proof
  assume "channel_addr a o' = a"
  then have "channel_addr a o' ! 5 = a ! 5" by simp
  then have "o' + 1 = 0" using assms(1) by (simp add: channel_addr_def ETH_ALEN_def)
  then have "o' = - 1" by (metis add.commute eq_neg_iff_add_eq_0)
  then show False using assms(2) by simp
qed

lemma channel_name_inj:
  assumes "i < 4" and "j < 4" and "channel_name nm (word_of_nat i) = channel_name nm (word_of_nat j)"
  shows "i = j"
proof -
  have u: "unat (word_of_nat k :: u8) = k" if "k < 4" for k
    using that by (simp add: unsigned_of_nat take_bit_nat_eq_self)
  have c: "i = 0 \<or> i = 1 \<or> i = 2 \<or> i = 3" "j = 0 \<or> j = 1 \<or> j = 2 \<or> j = 3" using assms(1,2) by auto
  have "dec (i + 1) = dec (j + 1)" using assms by (simp add: channel_name_def u)
  with c show ?thesis by (elim disjE) (simp_all add: char_of_eq_iff dec.simps)
qed

lemma bind_addr_not_ip:
  assumes "length a = 6" and "length rnd = 6"
  shows "\<not> possibly_iphdr (bind_addr rnd a)" "length (bind_addr rnd a) = 6"
proof -
  have m: "((w OR 2) AND 0xBF) AND 0xD0 \<noteq> (0x40 :: u8)" for w
  proof
    assume "((w OR 2) AND 0xBF) AND 0xD0 = (0x40 :: u8)"
    then have "bit (((w OR 2) AND 0xBF) AND 0xD0) 6 = bit (0x40 :: u8) 6" by simp
    then show False by (simp add: bit_and_iff)
  qed
  show "\<not> possibly_iphdr (bind_addr rnd a)" "length (bind_addr rnd a) = 6"
    using m assms by (auto simp: bind_addr_def possibly_iphdr_def Let_def)
qed

text \<open>
  When no registration fails, probing gives every channel of the mode a device, with its own name, its own
  mux id and a hardware address that differs from those of the other channels and of the USB device and that
  cannot be taken for an IP header; the entries above stay empty.
\<close>

theorem probe_registers_channels:
  assumes "qmi_wwan_bind rnd mode data pid superspeed noarp bm net = (q0, mode', urb)"
    and "q_use_rmnet_usb q0" and "length (nd_addr net) = 6" and "length rnd = 6"
    and "q = qmap_qmi_wwan_probe (\<lambda>i. None) nows q0" and "n = unat (q_qmap_mode q0)"
  shows "\<exists>ps. q_nets q = map QmapNet ps @ replicate (4 - n) NoNet \<and> length ps = n \<and> 0 < n \<and>
    map qp_mux_id ps = map (\<lambda>i. 0x81 + word_of_nat i) [0..<n] \<and> distinct (map qp_mux_id ps) \<and>
    distinct (map (\<lambda>p. nd_name (qp_net p)) ps) \<and>
    distinct (nd_addr (q_real q) # map (\<lambda>p. nd_addr (qp_net p)) ps) \<and>
    (\<forall>p \<in> set ps. \<not> possibly_iphdr (nd_addr (qp_net p)))"
proof -
  note b = bind_state [OF assms(1)]
  note p = probe_slots [OF b(1,2,3), of "\<lambda>i. None" nows, folded assms(5)]
  let ?ps = "map (\<lambda>i. channel_priv (nows i) (word_of_nat i) q0) [0..<n]"
  have n4: "n \<le> 4" using b(1) by (simp add: assms(6) qmap_wf_def QUECTEL_WWAN_QMAP_def word_le_nat_alt)
  have n0: "0 < n" using b(6) assms(2) by (cases "1 < q_qmap_mode q0") (auto simp: assms(6) unat_gt_0)
  have nets: "q_nets q = map QmapNet ?ps @ replicate (4 - n) NoNet"
  proof (rule nth_equalityI)
    show "length (q_nets q) = length (map QmapNet ?ps @ replicate (4 - n) NoNet)"
      using p(6) n4 by (simp add: qmap_wf_def)
  next
    fix i assume "i < length (q_nets q)"
    then have i: "i < 4" using p(6) by (simp add: qmap_wf_def)
    have "q_nets q ! i = slot_at q i" by (simp add: slot_at_def)
    then show "q_nets q ! i = (map QmapNet ?ps @ replicate (4 - n) NoNet) ! i"
      using p(1) i assms(2,6) by (simp add: nth_append)
  qed
  have inj: "i = j" if "i < n" "j < n" "(word_of_nat i :: u8) = word_of_nat j" for i j
    using arg_cong [OF that(3), of unat] that(1,2) n4 by (simp add: unsigned_of_nat take_bit_nat_eq_self)
  have mux: "distinct (map qp_mux_id ?ps)"
    by (auto simp: distinct_map comp_def inj_on_def dest: inj)
  have addr: "length (nd_addr (q_real q0)) = 6" "\<not> possibly_iphdr (nd_addr (q_real q0))"
    using bind_addr_not_ip [OF assms(3,4)] b(4) by auto
  have lt: "(word_of_nat i :: u8) < 4" if "i < n" for i
    using that n4 by (simp add: word_less_nat_alt unsigned_of_nat take_bit_nat_eq_self)
  have "nd_addr (q_real q) = nd_addr (q_real q0)" by (rule p(7))
  moreover have "inj_on (\<lambda>i. channel_addr (nd_addr (q_real q0)) (word_of_nat i)) {0..<n}"
    by (rule inj_onI) (metis atLeastLessThan_iff inj channel_addr_inj [OF addr(1)])
  moreover have "nd_addr (q_real q0) \<notin> (\<lambda>i. channel_addr (nd_addr (q_real q0)) (word_of_nat i)) ` {0..<n}"
    using channel_addr_real [OF addr(1) lt] by force
  ultimately have "distinct (nd_addr (q_real q) # map (\<lambda>p. nd_addr (qp_net p)) ?ps)"
    by (simp add: distinct_map comp_def image_image)
  moreover have "distinct (map (\<lambda>p. nd_name (qp_net p)) ?ps)"
    using n4 by (auto simp: distinct_map comp_def inj_on_def intro: channel_name_inj)
  moreover have "map qp_mux_id ?ps = map (\<lambda>i. 0x81 + word_of_nat i) [0..<n]"
    by (simp add: QUECTEL_QMAP_MUX_ID_def)
  moreover have "\<forall>p \<in> set ?ps. \<not> possibly_iphdr (nd_addr (qp_net p))"
    using addr by (auto simp: possibly_iphdr_def channel_addr_def ETH_ALEN_def)
  ultimately show ?thesis using n0 mux nets by (intro exI [of _ ?ps]) simp
qed

text \<open>
  On the other modules, with more than one channel, the device starts with the bit of the first channel set
  and that channel's own link state clear, so the attribute value that reports its link up changes nothing:
  the channel stays without carrier until its link has been reported down once.
\<close>

theorem first_link_up_lost:
  assumes "qmi_wwan_bind rnd mode data pid superspeed noarp bm net = (q0, mode', urb)"
    and "\<not> lte_a_product pid" and "\<not> superspeed" and "1 < q_qmap_mode q0"
    and "q = qmap_qmi_wwan_probe (\<lambda>i. None) nows q0"
  shows "link_state_store 1 q = q \<and>
    (\<exists>p. slot_at q 0 = QmapNet p \<and> \<not> qp_link_state p \<and> \<not> nd_carrier (qp_net p))"
proof -
  note b = bind_state [OF assms(1)]
  note p = probe_slots [OF b(1,2,3), of "\<lambda>i. None" nows, folded assms(5)]
  have one: "0 < unat (q_qmap_mode q0)" using assms(4) by (simp add: word_less_nat_alt)
  have "q_qmap_mode q0 \<noteq> 0" using assms(4) by auto
  then have "q_link_state q = 1" using p(4) b(5) assms(2,3) by simp
  moreover have "q_qmap_mode q = q_qmap_mode q0" by (rule p(2))
  moreover have "\<not> q_qmap_mode q0 \<le> 0" using assms(4) by auto
  ultimately have "link_state_store 1 q = q"
    using assms(4) by (simp add: link_state_store_def Let_def)
  moreover have "slot_at q 0 = QmapNet (channel_priv (nows 0) 0 q0)" using p(1) one b(3) assms(4) by simp
  ultimately show ?thesis
    by (simp add: channel_priv_def Let_def)
qed

end
