(* ===== verification/Qmap_Rx.thy ===== *)
theory Qmap_Rx
  imports Qmap_Dev "HOL-Library.Sublist"
begin

text \<open>
  Receiving over USB (\<^verbatim>\<open>qmi_wwan_q/src/qmi_wwan_q.c\<close>): \<^verbatim>\<open>qmap_packet_decode\<close>, which cuts an aggregate into
  packets, and the receive hooks that call it. The lemmas show that it returns and hands out pieces of the
  aggregate no longer than the MTU when every channel of the mode has a device, that it recovers the packets
  of a well-formed aggregate, and that it does not return on a truncated packet of a channel without one.

  The outcome of a loop that the source leaves by \<^verbatim>\<open>error_pkt\<close> is \<open>RxDrop\<close>, that of one that comes to the end
  \<open>RxEnd\<close>; \<open>RxOver\<close> is a read behind the data of the socket buffer. \<open>None\<close> is a loop that does not end.
\<close>

subsection \<open>Ethernet headers\<close>

definition ETH_P_IP :: u16 where "ETH_P_IP = 0x0800"
definition ETH_P_ARP :: u16 where "ETH_P_ARP = 0x0806"
definition ETH_P_IPV6 :: u16 where "ETH_P_IPV6 = 0x86DD"
definition ETH_P_MAP :: u16 where "ETH_P_MAP = 0xDA1A"

definition eth_header :: "bytes \<Rightarrow> bytes \<Rightarrow> u16 \<Rightarrow> bytes" where
  "eth_header dest src proto = dest @ src @ htons_bytes proto"

definition slot_net :: "sQmiWwanQmap \<Rightarrow> qmap_slot \<Rightarrow> net_device" where
  "slot_net q s = (case s of QmapNet p \<Rightarrow> qp_net p | _ \<Rightarrow> q_real q)"

text \<open>
  The destination \<^verbatim>\<open>bridge_mode_rx_fixup\<close> writes. A device that is not a channel's occurs only where the
  device-wide setting applies (\<open>qmap_inv\<close>).
\<close>

definition bridge_mode_rx_fixup :: "sQmiWwanQmap \<Rightarrow> qmap_slot \<Rightarrow> bytes" where
  "bridge_mode_rx_fixup q s =
     (let (bm, mac) =
        (case s of
           QmapNet p \<Rightarrow> if 1 < q_qmap_mode q \<or> q_use_rmnet_usb q then (qp_bridge_mode p, qp_bridge_mac p)
                        else (q_bridge_mode q, q_bridge_mac q)
         | _ \<Rightarrow> (q_bridge_mode q, q_bridge_mac q))
      in if bm \<noteq> 0 then mac else nd_addr (slot_net q s))"

subsection \<open>Cutting an aggregate into packets\<close>

record rx_pkt =
  rx_chan :: nat
  rx_data :: bytes
  rx_protocol :: u16

datatype rx_step = RxStop | RxBeyond | RxSkip nat | RxPkt rx_pkt nat

definition map_skb_len :: "u32 \<Rightarrow> rmnet_map_header \<Rightarrow> u32" where
  "map_skb_len dl_minimum_padding h = ucast (mh_pkt_len h) - ucast (mh_pad_len h) - dl_minimum_padding"

definition rx_skb_len :: "sQmiWwanQmap \<Rightarrow> rmnet_map_header \<Rightarrow> u32" where
  "rx_skb_len q h = map_skb_len (if q_qmap_version q = 9 then q_dl_minimum_padding q else 0) h"

definition rx_mux :: "rmnet_map_header \<Rightarrow> u32" where
  "rx_mux h = ucast (mh_mux_id h) - ucast QUECTEL_QMAP_MUX_ID"

text \<open>One round of the loop; \<open>alloc\<close>: whether \<^verbatim>\<open>netdev_alloc_skb\<close> succeeds.\<close>

definition decode_one :: "sQmiWwanQmap \<Rightarrow> bool \<Rightarrow> bytes \<Rightarrow> rx_step" where
  "decode_one q alloc d =
     (let h = map_header d; hdr_size = map_hdr_size h; pkt_len = unat (mh_pkt_len h);
          skb_len = rx_skb_len q h; mux_id = rx_mux h
      in if q_qmap_mode q \<le> mux_id then RxStop
         else (let s = slot_at q (unat mux_id); net = slot_net q s
               in if s = NoNet then RxSkip (pkt_len + hdr_size)
                  else if nd_mtu net < skb_len then RxStop
                  else if length d < pkt_len + hdr_size then RxStop
                  else if mh_cd_bit h then RxSkip (pkt_len + hdr_size)
                  else if length d \<le> hdr_size then RxBeyond
                  else (let nib = (d ! hdr_size) AND 0xF0
                        in if nib \<noteq> 0x40 \<and> nib \<noteq> 0x60 then RxStop
                           else if \<not> alloc then RxStop
                           else if length d < hdr_size + unat skb_len then RxBeyond
                           else (let protocol = if nib = 0x40 then ETH_P_IP else ETH_P_IPV6;
                                     payload = take (unat skb_len) (drop hdr_size d);
                                     eth = if nd_ether net
                                           then eth_header (bridge_mode_rx_fixup q s) default_modem_addr protocol else []
                                 in RxPkt \<lparr>rx_chan = unat mux_id, rx_data = eth @ payload, rx_protocol = protocol\<rparr>
                                      (pkt_len + hdr_size)))))"

datatype rx_end = RxEnd | RxDrop | RxOver

text \<open>
  \<open>alloc k\<close> is the result of the \<open>k\<close>-th allocation; the packets are queued on \<^verbatim>\<open>skb_chain\<close>. \<^verbatim>\<open>skb_pull\<close> leaves the
  data when they are too short.
\<close>

definition rx_pull :: "nat \<Rightarrow> bytes \<Rightarrow> bytes" where
  "rx_pull n d = (if length d < n then d else drop n d)"

definition decode_round ::
  "sQmiWwanQmap \<Rightarrow> (nat \<Rightarrow> bool) \<Rightarrow> rx_pkt list \<Rightarrow> bytes \<Rightarrow> (rx_end \<times> rx_pkt list) + (rx_pkt list \<times> nat)" where
  "decode_round q alloc chain d =
     (case decode_one q (alloc (length chain)) d of
        RxStop \<Rightarrow> Inl (RxDrop, chain)
      | RxBeyond \<Rightarrow> Inl (RxOver, chain)
      | RxSkip n \<Rightarrow> Inr (chain, n)
      | RxPkt p n \<Rightarrow> Inr (chain @ [p], n))"

partial_function (option) decode_loop ::
  "sQmiWwanQmap \<Rightarrow> (nat \<Rightarrow> bool) \<Rightarrow> rx_pkt list \<Rightarrow> bytes \<Rightarrow> (rx_end \<times> rx_pkt list) option" where
  "decode_loop q alloc chain d =
     (if length d \<le> 4 then Some (RxEnd, chain)
      else case decode_round q alloc chain d of
             Inl r \<Rightarrow> Some r
           | Inr cn \<Rightarrow> decode_loop q alloc (fst cn) (rx_pull (snd cn) d))"

definition qmap_packet_decode ::
  "sQmiWwanQmap \<Rightarrow> (nat \<Rightarrow> bool) \<Rightarrow> bytes \<Rightarrow> (rx_end \<times> rx_pkt list) option" where
  "qmap_packet_decode q alloc d = decode_loop q alloc [] d"

declare decode_loop.simps [code]

subsection \<open>The receive hooks\<close>

text \<open>The result is the buffer to pass on, \<open>None\<close> when it is dropped.\<close>

definition fix_dest :: "bytes \<Rightarrow> sk_buff \<Rightarrow> sk_buff" where
  "fix_dest mac skb = skb\<lparr>sk_data := mac @ drop ETH_ALEN (sk_data skb)\<rparr>"

definition qmi_wwan_rx_fixup :: "sQmiWwanQmap \<Rightarrow> sk_buff \<Rightarrow> sk_buff option" where
  "qmi_wwan_rx_fixup q skb =
     (if length (sk_data skb) < unat (nd_hard_header_len (q_real q)) then None
      else (let nib = (sk_data skb ! 0) AND 0xF0; dest = bridge_mode_rx_fixup q RealNet;
                proto = if nib = 0x40 then ETH_P_IP else ETH_P_IPV6
            in if nib = 0x40 \<or> nib = 0x60
               then (if length (sk_head skb) < ETH_HLEN then None
                     else map_option (fix_dest dest)
                       (skb_push_data (eth_header (replicate ETH_ALEN 0) default_modem_addr proto) skb))
               else if nib = 0
               then (if bit (sk_data skb ! 0) 0 then Some skb else Some (fix_dest dest skb))
               else Some skb))"

text \<open>What reaches \<^verbatim>\<open>usbnet_skb_return\<close>: with QMAP, the packets of the USB network device with protocol 0.\<close>

definition qmap_qmi_wwan_rx_fixup ::
  "sQmiWwanQmap \<Rightarrow> (nat \<Rightarrow> bool) \<Rightarrow> sk_buff \<Rightarrow> (sk_buff option \<times> rx_pkt list) option" where
  "qmap_qmi_wwan_rx_fixup q alloc skb =
     (if q_qmap_mode q = 0 then Some (qmi_wwan_rx_fixup q skb, [])
      else Option.bind (qmap_packet_decode q alloc (sk_data skb))
             (\<lambda>r. Some (None, map (\<lambda>p. p\<lparr>rx_protocol := 0\<rparr>) (filter (\<lambda>p. slot_at q (rx_chan p) = RealNet) (snd r)))))"

definition rmnet_usb_rx_fixup :: "sQmiWwanQmap \<Rightarrow> sk_buff \<Rightarrow> sk_buff option" where
  "rmnet_usb_rx_fixup q skb =
     (if nd_ether (q_real q) \<and> ETH_HLEN \<le> length (sk_head skb)
      then skb_push_data (eth_header (nd_addr (q_real q)) default_modem_addr ETH_P_MAP) skb else None)"

text \<open>
  The receive handler gets the aggregate without its Ethernet header; \<open>None\<close> inside is \<^verbatim>\<open>RX_HANDLER_PASS\<close>.
  The packets go to \<^verbatim>\<open>netif_receive_skb\<close> without the Ethernet header of an Ethernet channel.
\<close>

definition rx_strip :: "sQmiWwanQmap \<Rightarrow> rx_pkt \<Rightarrow> rx_pkt" where
  "rx_strip q p = (if nd_ether (slot_net q (slot_at q (rx_chan p))) then p\<lparr>rx_data := drop ETH_HLEN (rx_data p)\<rparr> else p)"

definition rmnet_usb_rx_handler ::
  "sQmiWwanQmap \<Rightarrow> (nat \<Rightarrow> bool) \<Rightarrow> bool \<Rightarrow> sk_buff \<Rightarrow> rx_pkt list option option" where
  "rmnet_usb_rx_handler q alloc loopback skb =
     (if loopback \<or> sk_protocol skb \<noteq> ETH_P_MAP then Some None
      else Option.bind (qmap_packet_decode q alloc (sk_data skb)) (\<lambda>r. Some (Some (map (rx_strip q) (snd r)))))"

subsection \<open>One round\<close>

lemma pad_le: "uint (w AND 0x3F :: u8) \<le> 63"
proof -
  have "w AND 0x3F \<le> (0x3F :: u8)" by (rule word_and_le1)
  then show ?thesis by (simp add: word_le_def)
qed

text \<open>
  What the driver relies on: every channel of the mode has a device, with an MTU that the network stack allows,
  and the padding the modem announces fits in a packet.
\<close>

definition rx_ready :: "sQmiWwanQmap \<Rightarrow> bool" where
  "rx_ready q \<longleftrightarrow> qmap_wf q \<and> q_dl_minimum_padding q \<le> 0xFFFF \<and>
     (\<forall>i < unat (q_qmap_mode q). slot_at q i \<noteq> NoNet \<and> nd_mtu (slot_net q (slot_at q i)) \<le> 0xFFFF)"

lemma uint_ucast_up:
  "uint (ucast (w :: u16) :: u32) = uint w" "uint (ucast (v :: u8) :: u32) = uint v"
  using uint_lt2p [of w] uint_lt2p [of v] by (simp_all add: unsigned_ucast_eq take_bit_int_eq_self)

lemma len_u32: "LENGTH(32) = 32"
  by simp

lemma mod_u32_small:
  fixes x :: int
  assumes "- 65598 \<le> x" and "x \<le> 65535" and "x mod 2 ^ 32 \<le> 65535"
  shows "x mod 2 ^ 32 = x"
proof (cases "0 \<le> x")
  case True
  then show ?thesis using assms(2) by (simp add: mod_pos_pos_trivial)
next
  case False
  have "x mod 2 ^ 32 = (x + 2 ^ 32) mod 2 ^ 32" by simp
  also have "\<dots> = x + 2 ^ 32" using False assms(1) by (intro mod_pos_pos_trivial) simp_all
  finally show ?thesis using assms(1,3) by simp
qed

lemma map_skb_len_le:
  assumes "dl \<le> 0xFFFF" and "mtu \<le> 0xFFFF" and "\<not> mtu < map_skb_len dl (map_header d)"
  shows "unat (map_skb_len dl (map_header d)) \<le> unat (mh_pkt_len (map_header d))"
proof -
  let ?h = "map_header d"
  let ?x = "uint (mh_pkt_len ?h) - uint (mh_pad_len ?h) - uint dl"
  have pad: "uint (mh_pad_len ?h) \<le> 63"
    using pad_le [of "d ! 0"] by (simp add: map_header_def)
  have dl: "uint dl \<le> 0xFFFF" using assms(1) by (auto simp: word_le_def)
  have pkt: "uint (mh_pkt_len ?h) \<le> 65535" using uint_lt2p [of "mh_pkt_len ?h"] by simp
  have u: "uint (map_skb_len dl ?h) = ?x mod 2 ^ 32"
    by (simp only: map_skb_len_def uint_word_ariths(2) uint_ucast_up mod_diff_left_eq len_u32)
  have m: "uint (map_skb_len dl ?h) \<le> 0xFFFF" using assms(2,3) by (auto simp: word_less_def word_le_def)
  have lo: "- 65598 \<le> ?x" using pad dl uint_ge_0 [of "mh_pkt_len ?h"] by linarith
  have hi: "?x \<le> 65535" using pkt uint_ge_0 [of "mh_pad_len ?h"] uint_ge_0 [of dl] by linarith
  have "?x mod 2 ^ 32 \<le> 65535" using u m by simp
  then have "?x mod 2 ^ 32 = ?x" using mod_u32_small [OF lo hi] by blast
  with u have "uint (map_skb_len dl ?h) = ?x" by simp
  then have "uint (map_skb_len dl ?h) \<le> uint (mh_pkt_len ?h)"
    using uint_ge_0 [of "mh_pad_len ?h"] uint_ge_0 [of dl] by linarith
  then show ?thesis by (simp only: unat_eq_nat_uint nat_mono)
qed

lemma rx_skb_len_le:
  assumes "q_dl_minimum_padding q \<le> 0xFFFF" and "mtu \<le> 0xFFFF" and "\<not> mtu < rx_skb_len q (map_header d)"
  shows "unat (rx_skb_len q (map_header d)) \<le> unat (mh_pkt_len (map_header d))"
  using map_skb_len_le [OF _ assms(2), of "if q_qmap_version q = 9 then q_dl_minimum_padding q else 0" d] assms(1,3)
  by (simp add: rx_skb_len_def)

lemma hdr_size_cases: "map_hdr_size h = 4 \<or> map_hdr_size h = 8 \<and> mh_next_hdr h"
  by (simp add: map_hdr_size_def)

lemma decode_one_mux:
  "decode_one q a d \<noteq> RxStop \<Longrightarrow> unat (rx_mux (map_header d)) < unat (q_qmap_mode q)"
  by (auto simp: decode_one_def Let_def not_le word_less_nat_alt split: if_splits)

lemma decode_one_skip:
  assumes "rx_ready q" and "decode_one q a d = RxSkip n"
  shows "4 \<le> n" "n \<le> length d"
  using decode_one_mux [of q a d] assms
  by (auto simp: decode_one_def Let_def rx_ready_def map_hdr_size_def split: if_splits)

lemma decode_one_pkt:
  assumes "rx_ready q" and "decode_one q a d = RxPkt p n"
  defines "net \<equiv> slot_net q (slot_at q (rx_chan p))"
  shows "4 \<le> n" "n \<le> length d" "rx_chan p < unat (q_qmap_mode q)"
    "\<exists>eth pl pre post. d = (pre @ pl @ post) @ drop n d \<and> rx_data p = eth @ pl \<and> length pl \<le> unat (nd_mtu net) \<and>
       (\<not> nd_ether net \<longrightarrow> eth = [])"
proof -
  let ?h = "map_header d"
  let ?hs = "map_hdr_size ?h" and ?k = "unat (rx_skb_len q ?h)" and ?i = "unat (rx_mux ?h)"
  have i: "?i < unat (q_qmap_mode q)" using decode_one_mux [of q a d] assms(2) by simp
  have n: "n = unat (mh_pkt_len ?h) + ?hs" and p: "rx_chan p = ?i"
    and le: "n \<le> length d" and mtu: "\<not> nd_mtu net < rx_skb_len q ?h"
    using assms(2) by (auto simp: decode_one_def Let_def net_def split: if_splits)
  have net: "net = slot_net q (slot_at q ?i)" by (simp add: net_def p)
  show "4 \<le> n" "n \<le> length d" "rx_chan p < unat (q_qmap_mode q)"
    using n le i p by (auto simp: map_hdr_size_def)
  obtain eth where data: "rx_data p = eth @ take ?k (drop ?hs d)" and eth: "\<not> nd_ether net \<longrightarrow> eth = []"
    using assms(2) by (auto simp: decode_one_def Let_def net split: if_splits)
  have "?k \<le> unat (mh_pkt_len ?h)"
    using assms(1) i mtu by (intro rx_skb_len_le [of _ "nd_mtu net"]) (auto simp: rx_ready_def net)
  then obtain r where r: "n = ?hs + (?k + r)" using n by (metis add.assoc add.commute le_add_diff_inverse)
  have "take n d = take ?hs d @ take ?k (drop ?hs d) @ take r (drop ?k (drop ?hs d))"
    unfolding r by (simp only: take_add)
  then have "d = (take ?hs d @ take ?k (drop ?hs d) @ take r (drop ?k (drop ?hs d))) @ drop n d"
    by (metis append_take_drop_id)
  moreover have "length (take ?k (drop ?hs d)) \<le> unat (nd_mtu net)"
    using mtu by (simp add: not_less word_le_nat_alt min_le_iff_disj)
  ultimately show "\<exists>eth pl pre post. d = (pre @ pl @ post) @ drop n d \<and> rx_data p = eth @ pl \<and>
       length pl \<le> unat (nd_mtu net) \<and> (\<not> nd_ether net \<longrightarrow> eth = [])"
    using data eth by blast
qed

lemma decode_one_beyond:
  assumes "rx_ready q" and "decode_one q a d = RxBeyond" and "4 < length d"
  shows "length d = 8" "mh_next_hdr (map_header d)" "mh_pkt_len (map_header d) = 0"
proof -
  let ?h = "map_header d"
  have i: "unat (rx_mux ?h) < unat (q_qmap_mode q)" using decode_one_mux [of q a d] assms(2) by simp
  let ?net = "slot_net q (slot_at q (unat (rx_mux ?h)))"
  have "\<not> nd_mtu ?net < rx_skb_len q ?h" and le: "unat (mh_pkt_len ?h) + map_hdr_size ?h \<le> length d"
    and c: "length d \<le> map_hdr_size ?h \<or> length d < map_hdr_size ?h + unat (rx_skb_len q ?h)"
    using assms(2) by (auto simp: decode_one_def Let_def split: if_splits)
  then have "unat (rx_skb_len q ?h) \<le> unat (mh_pkt_len ?h)"
    using assms(1) i by (intro rx_skb_len_le [of _ "nd_mtu ?net"]) (auto simp: rx_ready_def)
  with c le have l: "length d \<le> map_hdr_size ?h" by linarith
  with assms(3) show "length d = 8" "mh_next_hdr ?h" "mh_pkt_len ?h = 0"
    using le hdr_size_cases [of ?h] by (auto simp: word_unat_eq_iff)
qed

subsection \<open>Walking over a buffer\<close>

text \<open>
  The interface of the receive loops: a round either ends the walk or says how many bytes were used up. When
  rounds use up something that is there, the walk returns, and what holds at the start and is kept by every
  round holds at the end.
\<close>

locale skb_walk =
  fixes walk :: "'s \<Rightarrow> bytes \<Rightarrow> 'r option"
    and round :: "'s \<Rightarrow> bytes \<Rightarrow> 'r + ('s \<times> nat)"
    and finish :: "'s \<Rightarrow> 'r"
    and ready :: "'s \<Rightarrow> bool"
  assumes walk_unfold: "walk s d =
      (if length d \<le> 4 then Some (finish s)
       else case round s d of Inl r \<Rightarrow> Some r | Inr cn \<Rightarrow> walk (fst cn) (rx_pull (snd cn) d))"
    and progress: "ready s \<Longrightarrow> 4 < length d \<Longrightarrow> round s d = Inr (s', n) \<Longrightarrow> ready s' \<and> 0 < n \<and> n \<le> length d"
begin

lemma walk_invariant:
  assumes "ready s" and "P s d"
    and "\<And>s d s' n. ready s \<Longrightarrow> P s d \<Longrightarrow> 4 < length d \<Longrightarrow> round s d = Inr (s', n) \<Longrightarrow> P s' (drop n d)"
    and "\<And>s d. ready s \<Longrightarrow> P s d \<Longrightarrow> length d \<le> 4 \<Longrightarrow> Q (finish s)"
    and "\<And>s d r. ready s \<Longrightarrow> P s d \<Longrightarrow> 4 < length d \<Longrightarrow> round s d = Inl r \<Longrightarrow> Q r"
  shows "\<exists>r. walk s d = Some r \<and> Q r"
  using assms(1,2)
proof (induction d arbitrary: s rule: length_induct)
  case (1 d)
  show ?case
  proof (cases "length d \<le> 4")
    case True
    then show ?thesis using assms(4) 1 by (subst walk_unfold) auto
  next
    case False
    show ?thesis
    proof (cases "round s d")
      case (Inl r)
      then show ?thesis using assms(5) 1 False by (subst walk_unfold) auto
    next
      case (Inr cn)
      then have r: "round s d = Inr (fst cn, snd cn)" by simp
      note pr = progress [OF 1(2) _ r]
      have "\<exists>r. walk (fst cn) (drop (snd cn) d) = Some r \<and> Q r"
        using 1 pr assms(3) [OF 1(2,3) _ r] False by auto
      then show ?thesis using False pr Inr by (subst walk_unfold) (simp add: rx_pull_def)
    qed
  qed
qed

end

text \<open>
  Two walks whose rounds agree: related rounds use up the same number of bytes or both end the walk with related
  results. Then the walks have related results.
\<close>

locale skb_walk_pair =
  one: skb_walk walk1 round1 finish1 ready1 + two: skb_walk walk2 round2 finish2 ready2
  for walk1 :: "'s \<Rightarrow> bytes \<Rightarrow> 'r option" and round1 finish1 ready1
    and walk2 :: "'t \<Rightarrow> bytes \<Rightarrow> 'q option" and round2 finish2 ready2 +
  fixes rel :: "'s \<Rightarrow> 't \<Rightarrow> bool" and result :: "'r \<Rightarrow> 'q \<Rightarrow> bool"
  assumes round_agree: "rel s t \<Longrightarrow> 4 < length d \<Longrightarrow>
      rel_sum result (\<lambda>x y. rel (fst x) (fst y) \<and> snd x = snd y) (round1 s d) (round2 t d)"
    and finish_agree: "rel s t \<Longrightarrow> result (finish1 s) (finish2 t)"
    and related_ready: "rel s t \<Longrightarrow> ready1 s"
begin

lemma walks_agree: "rel s t \<Longrightarrow> \<exists>x y. walk1 s d = Some x \<and> walk2 t d = Some y \<and> result x y"
proof (induction d arbitrary: s t rule: length_induct)
  case (1 d)
  show ?case
  proof (cases "length d \<le> 4")
    case True
    then show ?thesis using finish_agree [OF 1(2)] by (simp add: one.walk_unfold [of s] two.walk_unfold [of t])
  next
    case False
    then have "rel_sum result (\<lambda>x y. rel (fst x) (fst y) \<and> snd x = snd y) (round1 s d) (round2 t d)"
      using round_agree [OF 1(2)] by simp
    then show ?thesis
    proof cases
      case (1 x y)
      then show ?thesis using False by (simp add: one.walk_unfold [of s] two.walk_unfold [of t])
    next
      case (2 x y)
      have n: "0 < snd x" "snd x \<le> length d"
        using one.progress [OF related_ready [OF 1(2)], of d "fst x" "snd x"] False 2(1) by simp_all
      have "\<exists>a b. walk1 (fst x) (drop (snd x) d) = Some a \<and> walk2 (fst y) (drop (snd x) d) = Some b \<and> result a b"
        using 1(1) n 2(3) False by simp
      then show ?thesis using 2 n False by (simp add: one.walk_unfold [of s] two.walk_unfold [of t] rx_pull_def)
    qed
  qed
qed

end

subsection \<open>The loop returns and stays inside the aggregate\<close>

lemma decode_round_progress:
  "rx_ready q \<Longrightarrow> 4 < length d \<Longrightarrow> decode_round q alloc chain d = Inr (chain', n) \<Longrightarrow> rx_ready q \<and> 0 < n \<and> n \<le> length d"
  using decode_one_skip [of q "alloc (length chain)" d n] decode_one_pkt(1,2) [of q "alloc (length chain)" d _ n]
  by (fastforce simp: decode_round_def split: rx_step.splits)

interpretation usb_rx: skb_walk "decode_loop q alloc" "decode_round q alloc" "\<lambda>chain. (RxEnd, chain)" "\<lambda>chain. rx_ready q"
  for q alloc
  by unfold_locales (rule decode_loop.simps, rule decode_round_progress)

text \<open>
  A delivered packet is a piece of the aggregate no longer than the MTU of its channel, behind an Ethernet
  header for an Ethernet channel; \<open>rx_short d\<close> says that \<open>d\<close> ends in a long header of an empty packet.
\<close>

definition rx_piece :: "sQmiWwanQmap \<Rightarrow> rx_pkt \<Rightarrow> bytes \<Rightarrow> bool" where
  "rx_piece q p pl \<longleftrightarrow>
     (let net = slot_net q (slot_at q (rx_chan p))
      in rx_chan p < unat (q_qmap_mode q) \<and> length pl \<le> unat (nd_mtu net) \<and>
         (\<exists>eth. rx_data p = eth @ pl \<and> (\<not> nd_ether net \<longrightarrow> eth = [])))"

definition rx_short :: "bytes \<Rightarrow> bool" where
  "rx_short d \<longleftrightarrow> (\<exists>pre h. d = pre @ h \<and> length h = 8 \<and> mh_next_hdr (map_header h) \<and> mh_pkt_len (map_header h) = 0)"

text \<open>The queued packets lie in order in the part of the aggregate that was used up.\<close>

definition rx_taken :: "sQmiWwanQmap \<Rightarrow> bytes \<Rightarrow> rx_pkt list \<Rightarrow> bytes \<Rightarrow> bool" where
  "rx_taken q d0 chain d \<longleftrightarrow> (\<exists>pre pls. d0 = pre @ d \<and> list_all2 (rx_piece q) chain pls \<and> subseq (concat pls) pre)"

lemma rx_taken_round:
  assumes "rx_ready q" and "rx_taken q d0 chain d" and "4 < length d" and "decode_round q alloc chain d = Inr (chain', n)"
  shows "rx_taken q d0 chain' (drop n d)"
proof -
  from assms(2) obtain pre pls where t: "d0 = pre @ d" "list_all2 (rx_piece q) chain pls" "subseq (concat pls) pre"
    by (auto simp: rx_taken_def)
  consider "chain' = chain" | p where "decode_one q (alloc (length chain)) d = RxPkt p n" "chain' = chain @ [p]"
    using assms(4) by (auto simp: decode_round_def split: rx_step.splits)
  then show ?thesis
  proof cases
    case 1
    have "subseq (concat pls) (pre @ take n d)" using t(3) by (rule list_emb_prefix)
    then show ?thesis using 1 t unfolding rx_taken_def by (metis append.assoc append_take_drop_id)
  next
    case (2 p)
    note n = decode_one_pkt [OF assms(1) 2(1)]
    from n(4) obtain eth pl a b where pl: "d = (a @ pl @ b) @ drop n d" "rx_data p = eth @ pl"
      "length pl \<le> unat (nd_mtu (slot_net q (slot_at q (rx_chan p))))"
      "\<not> nd_ether (slot_net q (slot_at q (rx_chan p))) \<longrightarrow> eth = []" by blast
    have "subseq pl (a @ pl @ b)" by (simp add: list_emb_append2 list_emb_prefix)
    then have "subseq (concat (pls @ [pl])) (pre @ (a @ pl @ b))" using t(3) by (simp add: list_emb_append_mono)
    moreover have "list_all2 (rx_piece q) chain' (pls @ [pl])"
      using pl n(3) t(2) 2(2) by (auto simp: rx_piece_def Let_def list_all2_appendI)
    ultimately show ?thesis using t(1) pl(1) unfolding rx_taken_def by (metis append.assoc)
  qed
qed

lemma decode_loop_outcome:
  assumes "rx_ready q"
  shows "\<exists>r. decode_loop q alloc [] d = Some r \<and> (\<exists>pls. list_all2 (rx_piece q) (snd r) pls \<and> subseq (concat pls) d \<and>
     (fst r = RxOver \<longrightarrow> rx_short d))"
proof (rule usb_rx.walk_invariant [where P = "rx_taken q d"])
  show "rx_taken q d [] d" by (auto simp: rx_taken_def)
next
  fix chain e assume "rx_taken q d chain e"
  then show "\<exists>pls. list_all2 (rx_piece q) (snd (RxEnd, chain)) pls \<and> subseq (concat pls) d \<and>
      (fst (RxEnd, chain) = RxOver \<longrightarrow> rx_short d)"
    by (auto simp: rx_taken_def intro: list_emb_append2 list_emb_prefix)
next
  fix chain e r assume t: "rx_taken q d chain e" "4 < length e" "decode_round q alloc chain e = Inl r"
  from t(1) obtain pre pls where p: "d = pre @ e" "list_all2 (rx_piece q) chain pls" "subseq (concat pls) pre"
    by (auto simp: rx_taken_def)
  have "snd r = chain" using t(3) by (auto simp: decode_round_def split: rx_step.splits)
  moreover have "rx_short d" if "fst r = RxOver"
  proof -
    have "decode_one q (alloc (length chain)) e = RxBeyond"
      using t(3) that by (auto simp: decode_round_def split: rx_step.splits)
    from decode_one_beyond [OF assms this t(2)] show ?thesis using p(1) unfolding rx_short_def by blast
  qed
  ultimately show "\<exists>pls. list_all2 (rx_piece q) (snd r) pls \<and> subseq (concat pls) d \<and> (fst r = RxOver \<longrightarrow> rx_short d)"
    using p by (auto intro: list_emb_prefix)
qed (use assms rx_taken_round in auto)


text \<open>
  A packet for a channel of the mode that has no device is skipped before its length is compared with
  what was received. When it is truncated the skip fails, the data stay as they are, and the loop never ends.
\<close>

theorem qmap_packet_decode_hangs:
  assumes "rx_mux (map_header d) < q_qmap_mode q" and "slot_at q (unat (rx_mux (map_header d))) = NoNet"
    and "4 < length d" and "length d < unat (mh_pkt_len (map_header d)) + map_hdr_size (map_header d)"
  shows "qmap_packet_decode q alloc d = None"
proof -
  have one: "decode_one q a d = RxSkip (unat (mh_pkt_len (map_header d)) + map_hdr_size (map_header d))" for a
    using assms(1,2) by (simp add: decode_one_def Let_def not_le [symmetric])
  have "q' = q \<longrightarrow> a = alloc \<longrightarrow> d' \<noteq> d" if "decode_loop q' a k d' = Some r" for q' a k d' r
    using that
    by (rule decode_loop.raw_induct [where P = "\<lambda>q' a k d' r. q' = q \<longrightarrow> a = alloc \<longrightarrow> d' \<noteq> d", rotated])
      (use assms(3,4) one in \<open>force simp: rx_pull_def decode_round_def\<close>)
  then show ?thesis unfolding qmap_packet_decode_def by (cases "decode_loop q alloc [] d") blast+
qed

subsection \<open>Round trip with the sender's framing\<close>

record rx_frame =
  rf_v5 :: bool
  rf_chan :: nat
  rf_payload :: bytes
  rf_padding :: bytes

definition frame_bytes :: "rx_frame \<Rightarrow> bytes" where
  "frame_bytes f = qmap_frame (rf_v5 f) (QUECTEL_QMAP_MUX_ID + word_of_nat (rf_chan f)) (rf_payload f) (rf_padding f)"

definition frame_protocol :: "rx_frame \<Rightarrow> u16" where
  "frame_protocol f = (if (rf_payload f ! 0) AND 0xF0 = 0x40 then ETH_P_IP else ETH_P_IPV6)"

text \<open>An IP packet for a channel that has a device, within its MTU, with at most three bytes of padding.\<close>

definition frame_ok :: "sQmiWwanQmap \<Rightarrow> rx_frame \<Rightarrow> bool" where
  "frame_ok q f \<longleftrightarrow> rf_chan f < unat (q_qmap_mode q) \<and> slot_at q (rf_chan f) \<noteq> NoNet \<and>
     rf_payload f \<noteq> [] \<and> (rf_payload f ! 0) AND 0xF0 \<in> {0x40, 0x60} \<and>
     length (rf_payload f) \<le> unat (nd_mtu (slot_net q (slot_at q (rf_chan f)))) \<and>
     length (rf_payload f) + 3 < 2 ^ 16 \<and> length (rf_padding f) \<le> 3"

definition frame_pkt :: "sQmiWwanQmap \<Rightarrow> rx_frame \<Rightarrow> rx_pkt" where
  "frame_pkt q f =
     (let s = slot_at q (rf_chan f)
      in \<lparr>rx_chan = rf_chan f,
          rx_data = (if nd_ether (slot_net q s)
                     then eth_header (bridge_mode_rx_fixup q s) default_modem_addr (frame_protocol f) else []) @ rf_payload f,
          rx_protocol = frame_protocol f\<rparr>)"

lemma frame_header:
  assumes "length pd \<le> 3" and "length pl + length pd < 2 ^ 16"
  shows "map_header (qmap_frame v5 mux pl pd @ rest) =
    \<lparr>mh_pad_len = word_of_nat (length pd), mh_next_hdr = v5, mh_cd_bit = False, mh_mux_id = mux,
     mh_pkt_len = word_of_nat (length pl + length pd)\<rparr>"
  using map_header_byte0_fields [OF pad_byte_small [OF assms(1)], of v5 False] assms
  by (simp add: map_header_def qmap_frame_def htons_bytes_def del: of_nat_add)

lemma frame_rx_mux: "i < 4 \<Longrightarrow> rx_mux \<lparr>mh_pad_len = p, mh_next_hdr = n, mh_cd_bit = c,
    mh_mux_id = QUECTEL_QMAP_MUX_ID + word_of_nat i, mh_pkt_len = l\<rparr> = word_of_nat i"
proof -
  assume "i < 4"
  then consider "i = 0" | "i = 1" | "i = 2" | "i = 3" by linarith
  then show ?thesis by cases (simp_all add: rx_mux_def QUECTEL_QMAP_MUX_ID_def)
qed

lemma frame_skb_len:
  assumes "q_qmap_version q \<noteq> 9 \<or> q_dl_minimum_padding q = 0" and "pd \<le> 3" and "pl + pd < 2 ^ 16"
  shows "rx_skb_len q \<lparr>mh_pad_len = word_of_nat pd, mh_next_hdr = n, mh_cd_bit = c, mh_mux_id = m,
    mh_pkt_len = word_of_nat (pl + pd)\<rparr> = word_of_nat pl"
proof -
  have 1: "(ucast (word_of_nat (pl + pd) :: u16) :: u32) = word_of_nat (pl + pd)"
    using assms(3) by (simp add: word_unat_eq_iff unsigned_ucast_eq unsigned_of_nat take_bit_nat_eq_self
        del: of_nat_add)
  have 2: "(ucast (word_of_nat pd :: u8) :: u32) = word_of_nat pd"
    using assms(2) by (simp add: word_unat_eq_iff unsigned_ucast_eq unsigned_of_nat take_bit_nat_eq_self)
  show ?thesis using assms(1) by (auto simp: rx_skb_len_def map_skb_len_def 1 2 simp del: of_nat_add) (simp_all add: of_nat_add)
qed

lemma decode_one_frame:
  assumes "frame_ok q f" and "qmap_wf q" and "q_qmap_version q \<noteq> 9 \<or> q_dl_minimum_padding q = 0"
  shows "decode_one q True (frame_bytes f @ rest) = RxPkt (frame_pkt q f) (length (frame_bytes f))"
proof -
  let ?i = "rf_chan f" and ?pl = "rf_payload f" and ?pd = "rf_padding f"
  note ok = assms(1) [unfolded frame_ok_def]
  have mode: "unat (q_qmap_mode q) \<le> 4" using assms(2) by (simp add: qmap_wf_def QUECTEL_WWAN_QMAP_def word_le_nat_alt)
  then have i: "?i < 4" using ok by linarith
  then have ui: "unat (word_of_nat ?i :: u32) = ?i" by (simp add: unsigned_of_nat take_bit_nat_eq_self)
  have len: "length ?pl + length ?pd < 2 ^ 16" using ok by linarith
  have upk: "unat (word_of_nat (length ?pl + length ?pd) :: u16) = length ?pl + length ?pd"
    using len by (simp add: unsigned_of_nat take_bit_nat_eq_self del: of_nat_add)
  have ul: "unat (word_of_nat (length ?pl) :: u32) = length ?pl"
    using ok by (simp add: unsigned_of_nat take_bit_nat_eq_self)
  have mux: "\<not> q_qmap_mode q \<le> word_of_nat ?i" using ok ui by (simp add: word_le_nat_alt)
  have mtu: "\<not> nd_mtu n < word_of_nat (length ?pl)" if "length ?pl \<le> unat (nd_mtu n)" for n
    using that ul by (simp add: word_less_nat_alt)
  note hdr = frame_header [of ?pd ?pl "rf_v5 f" "QUECTEL_QMAP_MUX_ID + word_of_nat ?i" rest]
  note skb = frame_skb_len [OF assms(3), of "length ?pd" "length ?pl"]
  have size: "length (frame_bytes f) = length ?pl + length ?pd + (if rf_v5 f then 8 else 4)"
    by (simp add: frame_bytes_def qmap_frame_def htons_bytes_def v5_csum_header_def)
  have drp: "drop (if rf_v5 f then 8 else 4) (frame_bytes f @ rest) = ?pl @ ?pd @ rest"
    by (simp add: frame_bytes_def qmap_frame_def htons_bytes_def v5_csum_header_def)
  then have at: "(frame_bytes f @ rest) ! (if rf_v5 f then 8 else 4) = ?pl ! 0"
    using ok by (metis append_is_Nil_conv drop_eq_Nil hd_append hd_conv_nth hd_drop_conv_nth leI length_greater_0_conv nth_append)
  have mh: "map_header (frame_bytes f @ rest) = \<lparr>mh_pad_len = word_of_nat (length ?pd), mh_next_hdr = rf_v5 f,
     mh_cd_bit = False, mh_mux_id = QUECTEL_QMAP_MUX_ID + word_of_nat ?i,
     mh_pkt_len = word_of_nat (length ?pl + length ?pd)\<rparr>"
    using hdr ok len by (simp add: frame_bytes_def)
  show ?thesis
    unfolding decode_one_def Let_def mh frame_rx_mux [OF i]
    using ok skb len mux mtu ui ul at drp size upk
    by (auto simp: map_hdr_size_def frame_pkt_def frame_protocol_def Let_def simp del: of_nat_add)
qed

lemma decode_frames:
  assumes "qmap_wf q" and "q_qmap_version q \<noteq> 9 \<or> q_dl_minimum_padding q = 0" and "\<forall>f \<in> set fs. frame_ok q f"
  shows "qmap_packet_decode q (\<lambda>k. True) (concat (map frame_bytes fs)) = Some (RxEnd, map (frame_pkt q) fs)"
proof -
  have "decode_loop q (\<lambda>k. True) chain (concat (map frame_bytes fs)) = Some (RxEnd, chain @ map (frame_pkt q) fs)" for chain
    using assms(3)
  proof (induction fs arbitrary: chain)
    case Nil
    then show ?case by (simp add: decode_loop.simps)
  next
    case (Cons f fs)
    have "4 < length (frame_bytes f)" using Cons.prems
      by (auto simp: frame_bytes_def qmap_frame_def htons_bytes_def frame_ok_def)
    then show ?case using Cons decode_one_frame [of q f, OF _ assms(1,2)]
      by (subst decode_loop.simps) (simp add: rx_pull_def decode_round_def)
  qed
  then show ?thesis by (simp add: qmap_packet_decode_def)
qed

lemma rx_strip_frame:
  "length (bridge_mode_rx_fixup q (slot_at q (rf_chan f))) = 6 \<Longrightarrow>
     rx_strip q (frame_pkt q f) = \<lparr>rx_chan = rf_chan f, rx_data = rf_payload f, rx_protocol = frame_protocol f\<rparr>"
  by (simp add: rx_strip_def frame_pkt_def Let_def eth_header_def htons_bytes_def default_modem_addr_def ETH_HLEN_def)

text \<open>
  (C8) Round trip: an aggregate of packets framed the way the driver itself frames them, for channels that have
  a device and with either kind of header, reaches the network stack as exactly these packets, in order, each on
  its channel and with the protocol of its first byte; Ethernet channels get a header with the bridged or the
  own address in between.
\<close>

theorem rmnet_usb_rx_roundtrip:
  assumes "qmap_wf q" and "q_qmap_version q \<noteq> 9 \<or> q_dl_minimum_padding q = 0" and "\<forall>f \<in> set fs. frame_ok q f"
    and "\<forall>f \<in> set fs. length (bridge_mode_rx_fixup q (slot_at q (rf_chan f))) = 6"
    and "sk_protocol skb = ETH_P_MAP" and "sk_data skb = concat (map frame_bytes fs)"
  shows "qmap_packet_decode q (\<lambda>k. True) (sk_data skb) = Some (RxEnd, map (frame_pkt q) fs) \<and>
    rmnet_usb_rx_handler q (\<lambda>k. True) False skb =
      Some (Some (map (\<lambda>f. \<lparr>rx_chan = rf_chan f, rx_data = rf_payload f, rx_protocol = frame_protocol f\<rparr>) fs))"
  using decode_frames [OF assms(1,2,3)] assms(4,5,6) by (simp add: rmnet_usb_rx_handler_def rx_strip_frame)

end
