(* ===== verification/Qmap_Tx.thy ===== *)
theory Qmap_Tx
  imports Qmap_Rx
begin

text \<open>
  Sending over USB (\<^verbatim>\<open>qmi_wwan_q/src/qmi_wwan_q.c\<close>): the uplink aggregation \<^verbatim>\<open>rmnet_usb_tx_agg\<close> with its timer
  and worker, the transmit function of a channel, bridge mode with its ARP answers, and the transmit hooks of
  the USB device. The lemmas show that aggregation is a queue of whole frames: what was sent followed by what
  is pending is the sequence of frames put in, no aggregate exceeds the limits, and pending frames have a timer.

  \<^verbatim>\<open>alloc_skb(n)\<close> gives room for exactly \<open>n\<close> bytes here (the kernel may round up); running out of it is
  \<open>None\<close>. \<^verbatim>\<open>dev_queue_xmit\<close> is the list of buffers handed to the USB device. Time is seconds and nanoseconds.
\<close>

subsection \<open>Bridge mode\<close>

text \<open>The network header stands behind the Ethernet header.\<close>

definition skb_byte :: "sk_buff \<Rightarrow> nat \<Rightarrow> u8" where
  "skb_byte skb i = (sk_data skb @ sk_tail skb) ! i"

definition skb_bytes :: "sk_buff \<Rightarrow> nat \<Rightarrow> nat \<Rightarrow> bytes" where
  "skb_bytes skb i n = take n (drop i (sk_data skb @ sk_tail skb))"

definition h_proto :: "sk_buff \<Rightarrow> u16" where
  "h_proto skb = ntohs_bytes (skb_byte skb 12) (skb_byte skb 13)"

definition h_source :: "sk_buff \<Rightarrow> bytes" where
  "h_source skb = skb_bytes skb 6 ETH_ALEN"

record arp_reply =
  ar_dest_ip :: bytes
  ar_src_ip :: bytes
  ar_dest_hw :: bytes
  ar_src_hw :: bytes

definition ipv4_bytes :: "u32 \<Rightarrow> bytes" where
  "ipv4_bytes a = [ucast (drop_bit 24 a), ucast (drop_bit 16 a), ucast (drop_bit 8 a), ucast a]"

text \<open>
  \<^verbatim>\<open>bridge_arp_reply\<close>: the answer sent back, if any; \<open>ok\<close> says whether \<^verbatim>\<open>arp_create\<close> succeeds. The request is
  an Ethernet/IPv4 ARP request, the answer claims every other address of the /22 network.
\<close>

definition bridge_arp_reply :: "bool \<Rightarrow> sk_buff \<Rightarrow> u32 \<Rightarrow> bool \<times> arp_reply option" where
  "bridge_arp_reply ok skb bridge_ipv4 =
     (let ipv4 = ipv4_bytes bridge_ipv4; a = ETH_HLEN;
          sha = skb_bytes skb (a + 8) 6; sip = skb_bytes skb (a + 14) 4; tip = skb_bytes skb (a + 24) 4
      in if skb_bytes skb a 2 = [0, 1] \<and> skb_bytes skb (a + 2) 2 = htons_bytes ETH_P_IP \<and>
            skb_bytes skb (a + 6) 2 = [0, 1] \<and> skb_byte skb (a + 4) = 6 \<and> skb_byte skb (a + 5) = 4
         then (True, if tip ! 0 = ipv4 ! 0 \<and> tip ! 1 = ipv4 ! 1 \<and> (tip ! 2) AND 0xFC = (ipv4 ! 2) AND 0xFC \<and>
                        tip ! 3 \<noteq> ipv4 ! 3 \<and> ok
                     then Some \<lparr>ar_dest_ip = sip, ar_src_ip = tip, ar_dest_hw = sha, ar_src_hw = default_modem_addr\<rparr>
                     else None)
         else (False, None))"

text \<open>\<^verbatim>\<open>bridge_mode_tx_fixup\<close>: whether the packet goes on, the learned address and the ARP answer.\<close>

definition dhcp_request :: "sk_buff \<Rightarrow> bool" where
  "dhcp_request skb \<longleftrightarrow> h_proto skb = ETH_P_IP \<and> skb_byte skb (ETH_HLEN + 9) = 17 \<and>
     skb_bytes skb (ETH_HLEN + 12) 4 = [0, 0, 0, 0] \<and> skb_bytes skb (ETH_HLEN + 16) 4 = [0xFF, 0xFF, 0xFF, 0xFF]"

definition bridge_mode_tx_fixup ::
  "bool \<Rightarrow> sk_buff \<Rightarrow> u32 \<Rightarrow> bytes \<Rightarrow> bool \<times> bytes \<times> arp_reply option" where
  "bridge_mode_tx_fixup ok skb bridge_ipv4 bridge_mac =
     (if h_proto skb = ETH_P_ARP
      then (False, bridge_mac, if bridge_ipv4 \<noteq> 0 then snd (bridge_arp_reply ok skb bridge_ipv4) else None)
      else (let mac = if dhcp_request skb then h_source skb else bridge_mac
            in (h_source skb = mac, mac, None)))"

subsection \<open>Uplink aggregation\<close>

definition IPPROTO_ICMP :: u8 where "IPPROTO_ICMP = 1"
definition IPPROTO_TCP :: u8 where "IPPROTO_TCP = 6"
definition IPPROTO_ICMPV6 :: u8 where "IPPROTO_ICMPV6 = 58"
definition NEXTHDR_FRAGMENT :: u8 where "NEXTHDR_FRAGMENT = 44"

definition rmnet_usb_tx_agg_skip :: "sk_buff \<Rightarrow> nat \<Rightarrow> bool" where
  "rmnet_usb_tx_agg_skip skb offset =
     (if sk_protocol skb = ETH_P_IP
      then (let proto = skb_byte skb (offset + 9)
            in if proto = IPPROTO_TCP then bit (skb_byte skb (offset + 20 + 13)) 3 else proto = IPPROTO_ICMP)
      else if sk_protocol skb = ETH_P_IPV6
      then (let nexthdr = skb_byte skb (offset + 6)
            in if nexthdr = IPPROTO_TCP then bit (skb_byte skb (offset + 40 + 13)) 3
               else if nexthdr = IPPROTO_ICMPV6 then True
               else if nexthdr = NEXTHDR_FRAGMENT then skb_byte skb (offset + 40) = IPPROTO_ICMPV6
               else False)
      else False)"

definition timespec64_sub :: "int \<times> int \<Rightarrow> int \<times> int \<Rightarrow> int \<times> int" where
  "timespec64_sub a b =
     (let s = fst a - fst b; n = snd a - snd b in if n < 0 then (s - 1, n + 1000000000) else (s, n))"

text \<open>
  What a call depends on: the clock and the two allocations of each round (for the aggregate and for a single
  packet), \<^verbatim>\<open>netdev_xmit_more\<close> and the module parameters.
\<close>

record tx_env =
  te_now :: "nat \<Rightarrow> int \<times> int"
  te_agg_alloc :: "nat \<Rightarrow> bool"
  te_one_alloc :: "nat \<Rightarrow> bool"
  te_xmit_more :: bool
  te_agg_time_limit :: int
  te_agg_bypass_time :: int

definition alloc_skb :: "nat \<Rightarrow> sk_buff" where
  "alloc_skb n = \<lparr>sk_head = [], sk_data = [], sk_tail = replicate n 0, sk_protocol = 0\<rparr>"

definition agg_put :: "bytes \<Rightarrow> bytes \<Rightarrow> sk_buff \<Rightarrow> sk_buff option" where
  "agg_put hdr body agg = Option.bind (skb_put_data hdr agg) (skb_put_data body)"

definition late :: "int \<times> int \<Rightarrow> int \<Rightarrow> bool" where
  "late diff lim \<longleftrightarrow> 0 < fst diff \<or> lim < snd diff"

definition tx_skip :: "tx_env \<Rightarrow> sk_buff \<Rightarrow> bytes \<Rightarrow> bool" where
  "tx_skip env skb hdr \<longleftrightarrow> \<not> te_xmit_more env \<and>
     rmnet_usb_tx_agg_skip skb (if mh_next_hdr (map_header hdr) then 8 else 4)"

text \<open>
  The two branches of a round from the label \<^verbatim>\<open>new_packet\<close> on: \<open>Some agg\<close> is pending, or nothing. The result is
  the channel, the buffer to send, and whether the packet was taken.
\<close>

definition tx_pending ::
  "tx_env \<Rightarrow> nat \<Rightarrow> u32 \<Rightarrow> u32 \<Rightarrow> sk_buff \<Rightarrow> bytes \<Rightarrow> nat \<Rightarrow> sk_buff \<Rightarrow> qmap_priv \<Rightarrow> (qmap_priv \<times> sk_buff option \<times> bool) option" where
  "tx_pending env k max_datagrams max_size skb hdr ip_offset agg p =
     (let now = te_now env k; diff = timespec64_sub now (qp_agg_time p)
      in if (word_of_nat (length (sk_data agg) + length (sk_data skb) + length hdr) :: u32) < max_size
         then (case agg_put hdr (drop ip_offset (sk_data skb)) agg of
                 None \<Rightarrow> None
               | Some agg' \<Rightarrow>
                   (let count = qp_agg_count p + 1;
                        ready = (late diff (te_agg_time_limit env) \<or> count = max_datagrams \<or> tx_skip env skb hdr)
                    in Some (if ready then (p\<lparr>qp_agg_skb := None, qp_agg_count := 0, qp_agg_time := now\<rparr>, Some agg', True)
                             else (p\<lparr>qp_agg_skb := Some agg', qp_agg_count := count\<rparr>, None, True))))
         else Some (p\<lparr>qp_agg_skb := None, qp_agg_count := 0, qp_agg_time := now\<rparr>, Some agg, False))"

definition tx_fresh ::
  "tx_env \<Rightarrow> nat \<Rightarrow> u32 \<Rightarrow> sk_buff \<Rightarrow> bytes \<Rightarrow> nat \<Rightarrow> qmap_priv \<Rightarrow> (qmap_priv \<times> sk_buff option \<times> bool) option" where
  "tx_fresh env k max_size skb hdr ip_offset p =
     (let now = te_now env k; diff = timespec64_sub now (qp_agg_time p);
          ready = (late diff (te_agg_bypass_time env) \<or> tx_skip env skb hdr)
      in if \<not> ready \<and> te_agg_alloc env k
         then map_option (\<lambda>agg. (p\<lparr>qp_agg_skb := Some agg, qp_agg_count := qp_agg_count p + 1\<rparr>, None, True))
                (agg_put hdr (drop ip_offset (sk_data skb)) (alloc_skb (unat max_size)))
         else if te_one_alloc env k
         then map_option (\<lambda>one. (p\<lparr>qp_agg_time := now\<rparr>, Some one, True))
                (agg_put hdr (drop ip_offset (sk_data skb)) (alloc_skb (length (sk_data skb) + length hdr)))
         else Some (p\<lparr>qp_agg_time := now\<rparr>, None, True))"

definition tx_round ::
  "tx_env \<Rightarrow> nat \<Rightarrow> u32 \<Rightarrow> u32 \<Rightarrow> sk_buff \<Rightarrow> bytes \<Rightarrow> nat \<Rightarrow> qmap_priv \<Rightarrow> (qmap_priv \<times> sk_buff option \<times> bool) option" where
  "tx_round env k max_datagrams max_size skb hdr ip_offset p =
     (case qp_agg_skb p of
        Some agg \<Rightarrow> tx_pending env k max_datagrams max_size skb hdr ip_offset agg p
      | None \<Rightarrow> tx_fresh env k max_size skb hdr ip_offset p)"

definition to_map :: "sk_buff \<Rightarrow> sk_buff" where
  "to_map skb = skb\<lparr>sk_protocol := ETH_P_MAP\<rparr>"

lemma tx_round_again:
  assumes "tx_round env k md ms skb hdr off p = Some (p', sent, False)"
  shows "qp_agg_skb p' = None" "qp_agg_skb p \<noteq> None"
  using assms by (auto simp: tx_round_def tx_pending_def tx_fresh_def Let_def split: option.splits if_splits)

function tx_rounds ::
  "tx_env \<Rightarrow> nat \<Rightarrow> u32 \<Rightarrow> u32 \<Rightarrow> sk_buff \<Rightarrow> bytes \<Rightarrow> nat \<Rightarrow> qmap_priv \<Rightarrow> (qmap_priv \<times> sk_buff list) option" where
  "tx_rounds env k md ms skb hdr off p =
     (case tx_round env k md ms skb hdr off p of
        None \<Rightarrow> None
      | Some (p', sent, taken) \<Rightarrow>
          (let out = (case sent of None \<Rightarrow> [] | Some s \<Rightarrow> [to_map s])
           in if taken then Some (p', out)
              else (case tx_rounds env (Suc k) md ms skb hdr off p' of
                      None \<Rightarrow> None
                    | Some (p2, out2) \<Rightarrow> Some (p2, out @ out2))))"
  by pat_completeness auto
termination
  by (relation "measure (\<lambda>(env, k, md, ms, skb, hdr, off, p). if qp_agg_skb p = None then 0 else 1)")
    (auto dest: tx_round_again)

text \<open>
  \<^verbatim>\<open>rmnet_usb_tx_agg\<close>: without aggregation (\<^verbatim>\<open>ul_data_aggregation_max_datagrams\<close> is 1) each packet is copied
  behind its header; otherwise the rounds, and the timer for what is pending.
\<close>

definition rmnet_usb_tx_agg ::
  "tx_env \<Rightarrow> u32 \<Rightarrow> u32 \<Rightarrow> sk_buff \<Rightarrow> bytes \<Rightarrow> nat \<Rightarrow> qmap_priv \<Rightarrow> (qmap_priv \<times> sk_buff list) option" where
  "rmnet_usb_tx_agg env max_datagrams max_size skb hdr ip_offset p =
     (if max_datagrams = 1
      then (if te_one_alloc env 0
            then map_option (\<lambda>one. (p, [to_map one]))
                   (agg_put hdr (drop ip_offset (sk_data skb)) (alloc_skb (length (sk_data skb) + length hdr)))
            else Some (p, []))
      else map_option (\<lambda>(p', out). (if qp_agg_skb p' \<noteq> None then p'\<lparr>qp_timer := True\<rparr> else p', out))
             (tx_rounds env 0 max_datagrams max_size skb hdr ip_offset p))"

definition rmnet_usb_tx_agg_work :: "int \<times> int \<Rightarrow> qmap_priv \<Rightarrow> qmap_priv \<times> sk_buff list" where
  "rmnet_usb_tx_agg_work now p =
     (case qp_agg_skb p of
        None \<Rightarrow> (p, [])
      | Some agg \<Rightarrow> (p\<lparr>qp_agg_skb := None, qp_agg_count := 0, qp_agg_time := now\<rparr>, [to_map agg]))"

text \<open>The timer runs once and schedules the worker.\<close>

definition rmnet_usb_tx_agg_timer_cb :: "qmap_priv \<Rightarrow> qmap_priv \<times> bool" where
  "rmnet_usb_tx_agg_timer_cb p = (p\<lparr>qp_timer := False\<rparr>, True)"

subsection \<open>The transmit function of a channel and the transmit hooks\<close>

datatype tx_result = TxBusy | TxOk

text \<open>
  \<open>real_stopped\<close>: the queue of the USB device; the result also has the ARP answer of bridge mode. A header is
  built in a separate buffer, for the version the channel was created with.
\<close>

definition rmnet_vnd_start_xmit ::
  "tx_env \<Rightarrow> bool \<Rightarrow> u32 \<Rightarrow> u32 \<Rightarrow> bool \<Rightarrow> sk_buff \<Rightarrow> qmap_priv \<Rightarrow>
   (tx_result \<times> qmap_priv \<times> sk_buff list \<times> arp_reply option) option" where
  "rmnet_vnd_start_xmit env arp_ok max_datagrams max_size real_stopped skb p =
     (if real_stopped then Some (TxBusy, p\<lparr>qp_net := (qp_net p)\<lparr>nd_stopped := True\<rparr>\<rparr>, [], None)
      else
        (let ether = nd_ether (qp_net p);
             (go, mac, arp) = (if ether \<and> qp_bridge_mode p \<noteq> 0
                               then bridge_mode_tx_fixup arp_ok skb (qp_bridge_ipv4 p) (qp_bridge_mac p)
                               else (True, qp_bridge_mac p, None));
             p1 = p\<lparr>qp_bridge_mac := mac\<rparr>;
             ip_offset = if ether then ETH_HLEN else 0
         in if \<not> go then Some (TxOk, p1, [], arp)
            else if qp_qmap_version p1 \<noteq> 5 \<and> qp_qmap_version p1 \<noteq> 9 then Some (TxOk, p1, [], None)
            else (case (if qp_qmap_version p1 = 5 then add_qhdr skb (qp_mux_id p1) (Some ip_offset)
                        else add_qhdr_v5 skb (qp_mux_id p1) (Some ip_offset)) of
                    None \<Rightarrow> None
                  | Some (skb1, hdr) \<Rightarrow>
                      map_option (\<lambda>(p2, out). (TxOk, p2, out, None))
                        (rmnet_usb_tx_agg env max_datagrams max_size skb1 hdr ip_offset p1))))"

text \<open>
  The hooks of the USB device: a missing buffer is a dropped packet. With several channels the hook only warns and
  passes the packet on; the outer \<open>None\<close> is a header that does not fit in front of the packet.
\<close>

definition qmi_wwan_tx_fixup ::
  "bool \<Rightarrow> sk_buff \<Rightarrow> sQmiWwanQmap \<Rightarrow> sk_buff option \<times> sQmiWwanQmap \<times> arp_reply option" where
  "qmi_wwan_tx_fixup arp_ok skb q =
     (if \<not> q_noarp q \<or> nd_hard_header_len (q_real q) = 0 then (Some skb, q, None)
      else (let (go, mac, arp) = (if q_bridge_mode q \<noteq> 0
                                  then bridge_mode_tx_fixup arp_ok skb (q_bridge_ipv4 q) (q_bridge_mac q)
                                  else (True, q_bridge_mac q, None));
                q1 = q\<lparr>q_bridge_mac := mac\<rparr>
            in if \<not> go then (None, q1, arp) else (skb_pull ETH_HLEN skb, q1, None)))"

definition qmap_qmi_wwan_tx_fixup ::
  "bool \<Rightarrow> sk_buff \<Rightarrow> sQmiWwanQmap \<Rightarrow> (sk_buff option \<times> sQmiWwanQmap \<times> arp_reply option) option" where
  "qmap_qmi_wwan_tx_fixup arp_ok skb q =
     (if q_qmap_mode q \<noteq> 0 \<and> q_link_state q = 0 then Some (None, q, None)
      else if q_qmap_mode q = 0 then Some (qmi_wwan_tx_fixup arp_ok skb q)
      else if 1 < q_qmap_mode q then Some (Some skb, q, None)
      else (case qmi_wwan_tx_fixup arp_ok skb q of
              (None, q1, arp) \<Rightarrow> Some (None, q1, arp)
            | (Some skb1, q1, arp) \<Rightarrow>
                map_option (\<lambda>(skb2, _). (Some skb2, q1, arp))
                  (if q_qmap_version q = 5 then add_qhdr skb1 QUECTEL_QMAP_MUX_ID None
                   else add_qhdr_v5 skb1 QUECTEL_QMAP_MUX_ID None)))"

definition rmnet_usb_tx_fixup :: "sk_buff \<Rightarrow> sk_buff option" where
  "rmnet_usb_tx_fixup skb = (if sk_protocol skb = ETH_P_MAP then Some skb else None)"

subsection \<open>Aggregation as a queue of frames\<close>

text \<open>
  The frames a channel holds back: their concatenation is the data of the pending buffer, which has room for
  the maximal size, and there are fewer than the maximal number.
\<close>

definition tx_rel :: "u32 \<Rightarrow> u32 \<Rightarrow> qmap_priv \<Rightarrow> bytes list \<Rightarrow> bool" where
  "tx_rel md ms p fs =
     (case qp_agg_skb p of
        None \<Rightarrow> fs = [] \<and> qp_agg_count p = 0
      | Some agg \<Rightarrow> fs \<noteq> [] \<and> sk_data agg = concat fs \<and> unat (qp_agg_count p) = length fs \<and>
                    length (sk_data agg) + length (sk_tail agg) = unat ms \<and> length fs < unat md)"

text \<open>What a call sends: aggregates of whole frames within the limits.\<close>

definition tx_groups :: "u32 \<Rightarrow> u32 \<Rightarrow> sk_buff list \<Rightarrow> bytes list list \<Rightarrow> bool" where
  "tx_groups md ms out gss \<longleftrightarrow> map sk_data out = map concat gss \<and> (\<forall>s \<in> set out. sk_protocol s = ETH_P_MAP) \<and>
     (\<forall>g \<in> set gss. g \<noteq> [] \<and> length g \<le> unat md \<and> length (concat g) \<le> unat ms)"

lemma tx_groups_Nil [simp]: "tx_groups md ms [] gss \<longleftrightarrow> gss = []"
  by (auto simp: tx_groups_def)

lemma tx_groups_append:
  "tx_groups md ms out gss \<Longrightarrow> tx_groups md ms out' gss' \<Longrightarrow> tx_groups md ms (out @ out') (gss @ gss')"
  by (auto simp: tx_groups_def)

lemma tx_groups_one:
  "tx_groups md ms [to_map s] [g] \<longleftrightarrow> sk_data s = concat g \<and> g \<noteq> [] \<and> length g \<le> unat md \<and> length (concat g) \<le> unat ms"
  by (auto simp: tx_groups_def to_map_def)

lemma agg_put_ok:
  "length hdr + length body \<le> length (sk_tail agg) \<Longrightarrow> \<exists>agg'. agg_put hdr body agg = Some agg' \<and>
     sk_data agg' = sk_data agg @ hdr @ body \<and>
     length (sk_data agg') + length (sk_tail agg') = length (sk_data agg) + length (sk_tail agg)"
  by (simp add: agg_put_def skb_put_data_def)

text \<open>The channel's fields a call leaves alone.\<close>

definition tx_same :: "qmap_priv \<Rightarrow> qmap_priv \<Rightarrow> bool" where
  "tx_same p p' \<longleftrightarrow> qp_mux_id p' = qp_mux_id p \<and> qp_qmap_version p' = qp_qmap_version p \<and> qp_net p' = qp_net p \<and>
     qp_bridge_mode p' = qp_bridge_mode p \<and> qp_bridge_mac p' = qp_bridge_mac p"

lemma tx_same_trans: "tx_same p p' \<Longrightarrow> tx_same p' p'' \<Longrightarrow> tx_same p p''"
  by (simp add: tx_same_def)

text \<open>What one step from the pending frames \<open>fs\<close> with the frames \<open>new\<close> put in yields.\<close>

definition tx_step_ok ::
  "u32 \<Rightarrow> u32 \<Rightarrow> qmap_priv \<Rightarrow> bytes list \<Rightarrow> (qmap_priv \<times> sk_buff list) option \<Rightarrow> bool" where
  "tx_step_ok md ms p fs r \<longleftrightarrow> (\<exists>p' out gss fs'. r = Some (p', out) \<and> tx_groups md ms out gss \<and>
     concat gss @ fs' = fs \<and> tx_rel md ms p' fs' \<and> tx_same p p')"

lemma tx_step_okI:
  "tx_groups md ms out gss \<Longrightarrow> tx_rel md ms p' fs' \<Longrightarrow> tx_same p p' \<Longrightarrow> concat gss @ fs' = fs \<Longrightarrow>
     tx_step_ok md ms p fs (Some (p', out))"
  by (auto simp: tx_step_ok_def)

lemma tx_fresh_ok:
  assumes "1 < md" and "qp_agg_skb p = None" and "qp_agg_count p = 0"
    and "off \<le> length (sk_data skb)" and "length (sk_data skb) + length hdr \<le> unat ms" and "te_one_alloc env k"
  shows "\<exists>p' sent. tx_fresh env k ms skb hdr off p = Some (p', sent, True) \<and>
    tx_step_ok md ms p [hdr @ drop off (sk_data skb)] (Some (p', case sent of None \<Rightarrow> [] | Some s \<Rightarrow> [to_map s]))"
proof -
  let ?f = "hdr @ drop off (sk_data skb)"
  have md: "1 < unat md" using assms(1) by (simp add: word_less_nat_alt)
  have fit: "length hdr + length (drop off (sk_data skb)) \<le> length (sk_tail (alloc_skb n))"
    if "length (sk_data skb) + length hdr \<le> n" for n
    using that by (simp add: alloc_skb_def)
  obtain agg where agg: "agg_put hdr (drop off (sk_data skb)) (alloc_skb (unat ms)) = Some agg" "sk_data agg = ?f"
    "length (sk_data agg) + length (sk_tail agg) = unat ms"
    using agg_put_ok [OF fit [OF assms(5)]] by (auto simp: alloc_skb_def)
  obtain one where one: "agg_put hdr (drop off (sk_data skb)) (alloc_skb (length (sk_data skb) + length hdr)) = Some one"
    "sk_data one = ?f" using agg_put_ok [OF fit [OF order_refl]] by (auto simp: alloc_skb_def)
  have held: "tx_step_ok md ms p [?f] (Some (p\<lparr>qp_agg_skb := Some agg, qp_agg_count := qp_agg_count p + 1\<rparr>, []))"
    using agg md assms(3)
    by (intro tx_step_okI [where gss = "[]" and fs' = "[?f]"]) (simp_all add: tx_rel_def tx_same_def)
  have sent: "tx_step_ok md ms p [?f] (Some (p\<lparr>qp_agg_time := t\<rparr>, [to_map one]))" for t
    using one md assms(2,3,4,5)
    by (intro tx_step_okI [where gss = "[[?f]]" and fs' = "[]"]) (simp_all add: tx_rel_def tx_same_def tx_groups_one)
  show ?thesis using held sent agg(1) one(1) assms(6) by (auto simp: tx_fresh_def Let_def)
qed

lemma tx_pending_ok:
  assumes "1 < md" and "ms < 2 ^ 31" and "qp_agg_skb p = Some agg" and "tx_rel md ms p fs"
    and "off \<le> length (sk_data skb)" and "length (sk_data skb) + length hdr \<le> unat ms"
  shows "\<exists>p' sent taken. tx_pending env k md ms skb hdr off agg p = Some (p', sent, taken) \<and>
    tx_step_ok md ms p (fs @ (if taken then [hdr @ drop off (sk_data skb)] else []))
      (Some (p', case sent of None \<Rightarrow> [] | Some s \<Rightarrow> [to_map s]))"
proof -
  let ?f = "hdr @ drop off (sk_data skb)"
  let ?n = "length (sk_data agg) + length (sk_data skb) + length hdr"
  note rel = assms(4) [unfolded tx_rel_def assms(3), simplified]
  have "unat ms < 2 ^ 31" using assms(2) by (simp add: word_less_nat_alt)
  moreover have "?n \<le> unat ms + unat ms" using rel assms(6) by linarith
  ultimately have "?n < 2 ^ 32" by simp
  then have n: "(word_of_nat ?n :: u32) < ms \<longleftrightarrow> ?n < unat ms"
    by (simp add: word_less_nat_alt unsigned_of_nat take_bit_nat_eq_self del: of_nat_add)
  show ?thesis
  proof (cases "?n < unat ms")
    case False
    have "tx_step_ok md ms p fs (Some (p\<lparr>qp_agg_skb := None, qp_agg_count := 0, qp_agg_time := t\<rparr>, [to_map agg]))" for t
      using rel
      by (intro tx_step_okI [where gss = "[fs]" and fs' = "[]"]) (auto simp: tx_rel_def tx_same_def tx_groups_one)
    then show ?thesis using False n by (auto simp: tx_pending_def Let_def simp del: of_nat_add)
  next
    case True
    have fit: "length hdr + length (drop off (sk_data skb)) \<le> length (sk_tail agg)"
      using rel True by (metis (no_types, lifting) add.commute add_le_cancel_left add_mono diff_le_self group_cancel.add2
          le_trans length_drop less_imp_le_nat order_refl)
    obtain agg' where agg': "agg_put hdr (drop off (sk_data skb)) agg = Some agg'" "sk_data agg' = concat (fs @ [?f])"
      "length (sk_data agg') + length (sk_tail agg') = unat ms"
      using agg_put_ok [OF fit] rel by auto
    have len: "length (concat (fs @ [?f])) \<le> unat ms" using agg'(2,3) by (metis le_add1)
    have cnt: "unat (qp_agg_count p + 1) = length fs + 1"
      using rel unsigned_less [where w = md and 'a = nat] by (simp add: unat_word_ariths(1))
    have held: "tx_step_ok md ms p (fs @ [?f]) (Some (p\<lparr>qp_agg_skb := Some agg', qp_agg_count := qp_agg_count p + 1\<rparr>, []))"
      if "qp_agg_count p + 1 \<noteq> md"
    proof -
      have "length fs + 1 \<noteq> unat md" using that cnt by (auto simp: word_unat_eq_iff)
      then show ?thesis using agg' cnt rel
        by (intro tx_step_okI [where gss = "[]" and fs' = "fs @ [?f]"]) (simp_all add: tx_rel_def tx_same_def)
    qed
    have sent: "tx_step_ok md ms p (fs @ [?f]) (Some (p\<lparr>qp_agg_skb := None, qp_agg_count := 0, qp_agg_time := t\<rparr>, [to_map agg']))" for t
      using agg' rel len
      by (intro tx_step_okI [where gss = "[fs @ [?f]]" and fs' = "[]"]) (simp_all add: tx_rel_def tx_same_def tx_groups_one)
    show ?thesis using True n agg'(1) held sent by (auto simp: tx_pending_def Let_def simp del: of_nat_add)
  qed
qed

text \<open>The rounds of a call put the packet in as one frame behind the pending ones.\<close>

lemma tx_step_ok_chain:
  assumes "tx_step_ok md ms p fs (Some (p', out))" and "\<And>fs'. tx_rel md ms p' fs' \<Longrightarrow> tx_step_ok md ms p' (fs' @ new) (Some (p'', out'))"
  shows "tx_step_ok md ms p (fs @ new) (Some (p'', out @ out'))"
proof -
  from assms(1) obtain gss fs' where 1: "tx_groups md ms out gss" "concat gss @ fs' = fs" "tx_rel md ms p' fs'" "tx_same p p'"
    by (auto simp: tx_step_ok_def)
  from assms(2) [OF 1(3)] obtain gss' fs'' where 2: "tx_groups md ms out' gss'" "concat gss' @ fs'' = fs' @ new"
    "tx_rel md ms p'' fs''" "tx_same p' p''" by (auto simp: tx_step_ok_def)
  have "concat (gss @ gss') @ fs'' = fs @ new" using 1(2) 2(2) by auto
  then show ?thesis using tx_groups_append [OF 1(1) 2(1)] 2(3) tx_same_trans [OF 1(4) 2(4)] by (blast intro: tx_step_okI)
qed

lemma tx_rounds_ok:
  assumes "1 < md" and "ms < 2 ^ 31" and "tx_rel md ms p fs" and "\<And>k. te_one_alloc env k"
    and "off \<le> length (sk_data skb)" and "length (sk_data skb) + length hdr \<le> unat ms"
  shows "tx_step_ok md ms p (fs @ [hdr @ drop off (sk_data skb)]) (tx_rounds env k md ms skb hdr off p)"
proof -
  let ?f = "hdr @ drop off (sk_data skb)"
  have fresh: "tx_step_ok md ms p ([] @ [?f]) (tx_rounds env k md ms skb hdr off p)"
    if p: "qp_agg_skb p = None" "qp_agg_count p = 0" for p k
    using tx_fresh_ok [OF assms(1) p assms(5,6,4), of k] p by (auto simp: tx_round_def)
  show ?thesis
  proof (cases "qp_agg_skb p")
    case None
    then show ?thesis using fresh [OF None] assms(3) by (simp add: tx_rel_def del: tx_rounds.simps)
  next
    case (Some agg)
    from tx_pending_ok [OF assms(1,2) Some assms(3,5,6), of env k] obtain p' sent taken where
      r: "tx_pending env k md ms skb hdr off agg p = Some (p', sent, taken)" and
      ok: "tx_step_ok md ms p (fs @ (if taken then [?f] else [])) (Some (p', case sent of None \<Rightarrow> [] | Some s \<Rightarrow> [to_map s]))"
      by blast
    have rd: "tx_round env k md ms skb hdr off p = Some (p', sent, taken)" using Some r by (simp add: tx_round_def)
    show ?thesis
    proof (cases taken)
      case True
      then show ?thesis using ok rd by simp
    next
      case False
      then have none: "qp_agg_skb p' = None" using tx_round_again(1) rd by simp
      have nil: "fs' = [] \<and> qp_agg_count p' = 0" if "tx_rel md ms p' fs'" for fs' using that none by (simp add: tx_rel_def)
      obtain p2 out2 where 2: "tx_rounds env (Suc k) md ms skb hdr off p' = Some (p2, out2)"
        "tx_step_ok md ms p' [?f] (Some (p2, out2))"
        using fresh [OF none, of "Suc k"] nil ok unfolding tx_step_ok_def by fastforce
      have "tx_step_ok md ms p (fs @ [?f]) (Some (p2, (case sent of None \<Rightarrow> [] | Some s \<Rightarrow> [to_map s]) @ out2))"
      proof (rule tx_step_ok_chain [where p' = p'])
        show "tx_step_ok md ms p fs (Some (p', case sent of None \<Rightarrow> [] | Some s \<Rightarrow> [to_map s]))" using ok False by simp
        show "tx_step_ok md ms p' (fs' @ [?f]) (Some (p2, out2))" if "tx_rel md ms p' fs'" for fs'
          using 2(2) nil [OF that] by simp
      qed
      then show ?thesis using False rd 2(1) by (subst tx_rounds.simps) (simp del: tx_rounds.simps split: option.splits)
    qed
  qed
qed

lemma rmnet_usb_tx_agg_ok:
  assumes "1 < md" and "ms < 2 ^ 31" and "tx_rel md ms p fs" and "\<And>k. te_one_alloc env k"
    and "off \<le> length (sk_data skb)" and "length (sk_data skb) + length hdr \<le> unat ms"
  shows "tx_step_ok md ms p (fs @ [hdr @ drop off (sk_data skb)]) (rmnet_usb_tx_agg env md ms skb hdr off p)"
    "\<And>p' out. rmnet_usb_tx_agg env md ms skb hdr off p = Some (p', out) \<Longrightarrow> qp_agg_skb p' \<noteq> None \<longrightarrow> qp_timer p'"
proof -
  have md: "md \<noteq> 1" using assms(1) by auto
  from tx_rounds_ok [OF assms, of 0] obtain p' out gss fs' where
    r: "tx_rounds env 0 md ms skb hdr off p = Some (p', out)" "tx_groups md ms out gss"
      "concat gss @ fs' = fs @ [hdr @ drop off (sk_data skb)]" "tx_rel md ms p' fs'" "tx_same p p'"
    unfolding tx_step_ok_def by blast
  have "tx_rel md ms (p'\<lparr>qp_timer := True\<rparr>) fs'" "tx_same p (p'\<lparr>qp_timer := True\<rparr>)"
    using r(4,5) by (auto simp: tx_rel_def tx_same_def split: option.splits)
  then show "tx_step_ok md ms p (fs @ [hdr @ drop off (sk_data skb)]) (rmnet_usb_tx_agg env md ms skb hdr off p)"
    using md r by (auto simp: rmnet_usb_tx_agg_def simp del: tx_rounds.simps intro: tx_step_okI)
  show "\<And>p' out. rmnet_usb_tx_agg env md ms skb hdr off p = Some (p', out) \<Longrightarrow> qp_agg_skb p' \<noteq> None \<longrightarrow> qp_timer p'"
    using md r(1) by (auto simp: rmnet_usb_tx_agg_def simp del: tx_rounds.simps)
qed

subsection \<open>Sequences of transmissions, timer and worker\<close>

datatype tx_ev = EvXmit tx_env sk_buff | EvTimer | EvWork "int \<times> int"

definition tx_event :: "u32 \<Rightarrow> u32 \<Rightarrow> tx_ev \<Rightarrow> qmap_priv \<Rightarrow> (qmap_priv \<times> sk_buff list) option" where
  "tx_event md ms ev p =
     (case ev of
        EvXmit env skb \<Rightarrow> map_option (\<lambda>(_, p', out, _). (p', out)) (rmnet_vnd_start_xmit env True md ms False skb p)
      | EvTimer \<Rightarrow> Some (fst (rmnet_usb_tx_agg_timer_cb p), [])
      | EvWork now \<Rightarrow> Some (rmnet_usb_tx_agg_work now p))"

fun tx_run :: "u32 \<Rightarrow> u32 \<Rightarrow> tx_ev list \<Rightarrow> qmap_priv \<Rightarrow> (qmap_priv \<times> sk_buff list) option" where
  "tx_run md ms [] p = Some (p, [])"
| "tx_run md ms (ev # evs) p =
     (case tx_event md ms ev p of
        None \<Rightarrow> None
      | Some (p', out) \<Rightarrow> map_option (\<lambda>(p'', out'). (p'', out @ out')) (tx_run md ms evs p'))"

text \<open>
  The packets put in, without the Ethernet header of an Ethernet channel, and what a transmission must satisfy:
  the packet fits an aggregate, and allocations of single buffers succeed.
\<close>

definition ip_off :: "qmap_priv \<Rightarrow> nat" where
  "ip_off p = (if nd_ether (qp_net p) then ETH_HLEN else 0)"

definition tx_payloads :: "nat \<Rightarrow> tx_ev list \<Rightarrow> bytes list" where
  "tx_payloads off evs = concat (map (\<lambda>ev. case ev of EvXmit env skb \<Rightarrow> [drop off (sk_data skb)] | _ \<Rightarrow> []) evs)"

definition tx_fits :: "nat \<Rightarrow> u32 \<Rightarrow> tx_ev \<Rightarrow> bool" where
  "tx_fits off ms ev =
     (case ev of
        EvXmit env skb \<Rightarrow> off \<le> length (sk_data skb) \<and> length (sk_data skb) + 11 \<le> unat ms \<and>
                          length (sk_data skb) + 3 < 2 ^ 16 \<and> (\<forall>k. te_one_alloc env k)
      | _ \<Rightarrow> True)"

text \<open>The frames of a channel: its version's header with its mux id, the payload and at most three bytes of padding.\<close>

definition chan_frame :: "qmap_priv \<Rightarrow> bytes \<times> bytes \<Rightarrow> bytes" where
  "chan_frame p pp = qmap_frame (qp_qmap_version p = 9) (qp_mux_id p) (fst pp) (snd pp)"

definition tx_sendable :: "qmap_priv \<Rightarrow> bool" where
  "tx_sendable p \<longleftrightarrow> qp_qmap_version p \<in> {5, 9} \<and> (nd_ether (qp_net p) \<longrightarrow> qp_bridge_mode p = 0)"

lemma rmnet_vnd_start_xmit_ok:
  assumes "1 < md" and "ms < 2 ^ 31" and "tx_rel md ms p fs" and "tx_sendable p" and "tx_fits (ip_off p) ms (EvXmit env skb)"
  shows "\<exists>pad p' out. length pad \<le> 3 \<and> rmnet_vnd_start_xmit env True md ms False skb p = Some (TxOk, p', out, None) \<and>
    tx_step_ok md ms p (fs @ [chan_frame p (drop (ip_off p) (sk_data skb), pad)]) (Some (p', out)) \<and>
    (qp_agg_skb p' \<noteq> None \<longrightarrow> qp_timer p')"
proof -
  note fit = assms(5) [unfolded tx_fits_def, simplified]
  obtain skb' hdr pad where h: "(if qp_qmap_version p = 5 then add_qhdr skb (qp_mux_id p) (Some (ip_off p))
      else add_qhdr_v5 skb (qp_mux_id p) (Some (ip_off p))) = Some (skb', hdr)" "length pad \<le> 3" "length hdr \<le> 8"
    "sk_data skb' = sk_data skb @ pad"
    "hdr @ drop (ip_off p) (sk_data skb') = chan_frame p (drop (ip_off p) (sk_data skb), pad)"
    using add_qhdr_separate [of "ip_off p" skb "qp_mux_id p"] add_qhdr_v5_separate [of "ip_off p" skb "qp_mux_id p"] fit assms(4)
    by (auto simp: tx_sendable_def chan_frame_def)
  have len: "ip_off p \<le> length (sk_data skb')" "length (sk_data skb') + length hdr \<le> unat ms"
    using h(2,3,4) fit by simp_all
  have alloc: "te_one_alloc env k" for k using fit by simp
  note agg = rmnet_usb_tx_agg_ok [OF assms(1,2,3) alloc len, unfolded h(5)]
  from agg(1) obtain p' out where r: "rmnet_usb_tx_agg env md ms skb' hdr (ip_off p) p = Some (p', out)"
    by (auto simp: tx_step_ok_def)
  have "rmnet_vnd_start_xmit env True md ms False skb p = Some (TxOk, p', out, None)"
    using assms(4) h(1) r by (auto simp: rmnet_vnd_start_xmit_def Let_def tx_sendable_def ip_off_def)
  then show ?thesis using agg r h(2) by auto
qed

lemma rmnet_usb_tx_agg_work_ok:
  assumes "tx_rel md ms p fs"
  shows "tx_step_ok md ms p fs (Some (rmnet_usb_tx_agg_work now p))"
proof (cases "qp_agg_skb p")
  case None
  then show ?thesis using assms
    by (simp add: rmnet_usb_tx_agg_work_def)
      (intro tx_step_okI [where gss = "[]" and fs' = fs]; simp add: tx_same_def)
next
  case (Some agg)
  then show ?thesis using assms
    by (simp add: rmnet_usb_tx_agg_work_def)
      (intro tx_step_okI [where gss = "[fs]" and fs' = "[]"]; auto simp: tx_rel_def tx_same_def tx_groups_one)
qed

lemma tx_event_ok:
  assumes "1 < md" and "ms < 2 ^ 31" and "tx_rel md ms p fs" and "tx_sendable p" and "tx_fits (ip_off p) ms ev"
  shows "\<exists>pps. map fst pps = tx_payloads (ip_off p) [ev] \<and> (\<forall>pp \<in> set pps. length (snd pp) \<le> 3) \<and>
      tx_step_ok md ms p (fs @ map (chan_frame p) pps) (tx_event md ms ev p)"
proof (cases ev)
  case (EvXmit env skb)
  from rmnet_vnd_start_xmit_ok [OF assms(1,2,3,4) assms(5) [unfolded EvXmit]] obtain pad where "length pad \<le> 3"
    "tx_step_ok md ms p (fs @ [chan_frame p (drop (ip_off p) (sk_data skb), pad)]) (tx_event md ms ev p)"
    using EvXmit by (fastforce simp: tx_event_def)
  then show ?thesis using EvXmit
    by (intro exI [of _ "[(drop (ip_off p) (sk_data skb), pad)]"]) (simp add: tx_payloads_def)
next
  case EvTimer
  have "tx_rel md ms (p\<lparr>qp_timer := False\<rparr>) fs" using assms(3) by (auto simp: tx_rel_def split: option.splits)
  then have "tx_step_ok md ms p fs (Some (p\<lparr>qp_timer := False\<rparr>, []))"
    by (intro tx_step_okI [where gss = "[]" and fs' = fs]) (simp_all add: tx_same_def)
  then show ?thesis using EvTimer by (simp add: tx_payloads_def rmnet_usb_tx_agg_timer_cb_def tx_event_def)
next
  case (EvWork now)
  then show ?thesis using rmnet_usb_tx_agg_work_ok [OF assms(3), of now] by (simp add: tx_payloads_def tx_event_def)
qed

lemma tx_run_ok:
  assumes "1 < md" and "ms < 2 ^ 31"
  shows "tx_rel md ms p fs \<Longrightarrow> tx_sendable p \<Longrightarrow> \<forall>ev \<in> set evs. tx_fits (ip_off p) ms ev \<Longrightarrow>
    \<exists>pps. map fst pps = tx_payloads (ip_off p) evs \<and> (\<forall>pp \<in> set pps. length (snd pp) \<le> 3) \<and>
      tx_step_ok md ms p (fs @ map (chan_frame p) pps) (tx_run md ms evs p)"
proof (induction evs arbitrary: p fs)
  case Nil
  then show ?case
    by (intro exI [of _ "[]"]) (simp add: tx_payloads_def, intro tx_step_okI [where gss = "[]"]; simp add: tx_same_def)
next
  case (Cons ev evs)
  from tx_event_ok [OF assms Cons.prems(1,2), of ev] Cons.prems(3) obtain pps where
    pps: "map fst pps = tx_payloads (ip_off p) [ev]" "\<forall>pp \<in> set pps. length (snd pp) \<le> 3"
    and ok: "tx_step_ok md ms p (fs @ map (chan_frame p) pps) (tx_event md ms ev p)" by auto
  from ok obtain p' out gss fs' where st: "tx_event md ms ev p = Some (p', out)" "tx_groups md ms out gss"
    "concat gss @ fs' = fs @ map (chan_frame p) pps" "tx_rel md ms p' fs'" "tx_same p p'"
    unfolding tx_step_ok_def by blast
  have same: "tx_sendable p'" "ip_off p' = ip_off p" "chan_frame p' = chan_frame p"
    using Cons.prems(2) st(5) by (auto simp: tx_sendable_def ip_off_def chan_frame_def tx_same_def)
  from Cons.IH [OF st(4) same(1)] Cons.prems(3) obtain pps' where 2: "map fst pps' = tx_payloads (ip_off p) evs"
    "\<forall>pp \<in> set pps'. length (snd pp) \<le> 3" "tx_step_ok md ms p' (fs' @ map (chan_frame p) pps') (tx_run md ms evs p')"
    by (auto simp: same)
  from 2(3) obtain p'' out' gss' fs'' where st': "tx_run md ms evs p' = Some (p'', out')" "tx_groups md ms out' gss'"
    "concat gss' @ fs'' = fs' @ map (chan_frame p) pps'" "tx_rel md ms p'' fs''" "tx_same p' p''"
    unfolding tx_step_ok_def by blast
  have eq: "concat (gss @ gss') @ fs'' = fs @ map (chan_frame p) (pps @ pps')"
    using st(3) st'(3) by simp
  have "tx_step_ok md ms p (fs @ map (chan_frame p) (pps @ pps')) (tx_run md ms (ev # evs) p)"
    using tx_step_okI [OF tx_groups_append [OF st(2) st'(2)] st'(4) tx_same_trans [OF st(5) st'(5)] eq] st(1) st'(1) by simp
  moreover have "map fst (pps @ pps') = tx_payloads (ip_off p) (ev # evs)" using pps(1) 2(1) by (simp add: tx_payloads_def)
  ultimately show ?case using pps(2) 2(2) by (intro exI [of _ "pps @ pps'"]) auto
qed

lemma split_frames:
  "concat gss @ fs = map f xs \<Longrightarrow> \<exists>pss rest. gss = map (map f) pss \<and> fs = map f rest \<and> xs = concat pss @ rest"
proof (induction gss arbitrary: xs)
  case Nil
  then show ?case by (intro exI [of _ "[]"] exI [of _ xs]) simp
next
  case (Cons g gss)
  then obtain us vs where uv: "xs = us @ vs" "g = map f us" "concat gss @ fs = map f vs"
    by (auto simp: append_eq_map_conv)
  from Cons.IH [OF uv(3)] obtain pss rest where "gss = map (map f) pss" "fs = map f rest" "vs = concat pss @ rest"
    by blast
  then show ?case using uv(1,2) by (intro exI [of _ "us # pss"] exI [of _ rest]) simp
qed

text \<open>
  (C3) Uplink aggregation is a queue of frames. For every sequence of transmissions on a channel, timer expiries
  and runs of the worker, with any clock, and whether or not aggregates can be allocated: the buffers sent are
  aggregates of whole frames with the channel's header and mux id, at most the maximal number and within the
  maximal size; the payloads in what was sent followed by those still pending are the packets put in, in order;
  and the loop of every call ends.
\<close>

theorem uplink_aggregation_stream:
  assumes "1 < md" and "ms < 2 ^ 31" and "qp_agg_skb p = None" and "qp_agg_count p = 0" and "tx_sendable p"
    and "\<forall>ev \<in> set evs. tx_fits (ip_off p) ms ev"
  shows "\<exists>p' out pss rest. tx_run md ms evs p = Some (p', out) \<and>
    map sk_data out = map (\<lambda>ps. concat (map (chan_frame p) ps)) pss \<and> (\<forall>s \<in> set out. sk_protocol s = ETH_P_MAP) \<and>
    map fst (concat pss @ rest) = tx_payloads (ip_off p) evs \<and>
    (\<forall>ps \<in> set pss. ps \<noteq> [] \<and> length ps \<le> unat md \<and> length (concat (map (chan_frame p) ps)) \<le> unat ms) \<and>
    (case qp_agg_skb p' of None \<Rightarrow> rest = [] | Some agg \<Rightarrow> sk_data agg = concat (map (chan_frame p) rest))"
proof -
  have rel: "tx_rel md ms p []" using assms(3,4) by (simp add: tx_rel_def)
  from tx_run_ok [OF assms(1,2) rel assms(5,6)] obtain pps p' out gss fs' where
    pay: "map fst pps = tx_payloads (ip_off p) evs" and run: "tx_run md ms evs p = Some (p', out)"
    and g: "tx_groups md ms out gss" and eq: "concat gss @ fs' = map (chan_frame p) pps" and rel': "tx_rel md ms p' fs'"
    unfolding tx_step_ok_def by auto
  from split_frames [OF eq] obtain pss rest where s: "gss = map (map (chan_frame p)) pss"
    "fs' = map (chan_frame p) rest" "pps = concat pss @ rest" by blast
  have "map sk_data out = map (\<lambda>ps. concat (map (chan_frame p) ps)) pss" "\<forall>s \<in> set out. sk_protocol s = ETH_P_MAP"
    "\<forall>ps \<in> set pss. ps \<noteq> [] \<and> length ps \<le> unat md \<and> length (concat (map (chan_frame p) ps)) \<le> unat ms"
    using g by (auto simp: tx_groups_def s(1) comp_def)
  moreover have "case qp_agg_skb p' of None \<Rightarrow> rest = [] | Some agg \<Rightarrow> sk_data agg = concat (map (chan_frame p) rest)"
    using rel' s(2) by (auto simp: tx_rel_def split: option.splits)
  ultimately show ?thesis using run pay s(3) by blast
qed

end
