(* ===== verification/Net_Dev.thy ===== *)
theory Net_Dev
  imports Qmap_Tx
begin

text \<open>
  The network driver over MHI (\<^verbatim>\<open>pcie_mhi/src/devices/mhi_netdev_quectel.c\<close>): its state and the operations that
  set it up and control it, from \<^verbatim>\<open>mhi_netdev_probe\<close> with the channel devices \<^verbatim>\<open>rmnet_mhi0.N\<close> to
  \<^verbatim>\<open>mhi_netdev_remove\<close>, the link state, the ioctls, the bridge attributes and the MTU.

  The driver is built as OpenWrt builds it: no NSS hooks (\<^verbatim>\<open>nss_cb\<close> is null), one device per channel (no
  \<^verbatim>\<open>MHI_NETDEV_ONE_CARD_MODE\<close>), socket buffers (no \<^verbatim>\<open>CONFIG_USE_RMNET_DATA_FOR_SKIP_MEMCPY\<close>), bridge mode.

  An entry of \<^verbatim>\<open>mpQmapNetDev\<close> may point to a device that was freed again, \<open>DanglingVnd\<close>. The array has eight
  entries; an operation that leaves it has the result \<open>None\<close>.
\<close>

subsection \<open>State\<close>

datatype mhi_net_type = MHI_NET_UNKNOW | MHI_NET_RMNET | MHI_NET_MBIM | MHI_NET_ETHER

record MHI_MBIM_CTX =
  mb_tx_seq :: u16
  mb_rx_seq :: u16
  mb_rx_max :: u32

text \<open>The counters of \<^verbatim>\<open>stats64\<close>, summed over the processors, and \<^verbatim>\<open>tx_errors\<close> of the network device.\<close>

record netstats =
  st_rx_packets :: u64
  st_rx_bytes :: u64
  st_tx_packets :: u64
  st_tx_bytes :: u64
  st_tx_errors :: u64

definition zero_stats :: netstats where
  "zero_stats = \<lparr>st_rx_packets = 0, st_rx_bytes = 0, st_tx_packets = 0, st_tx_bytes = 0, st_tx_errors = 0\<rparr>"

record vnd_priv =
  vp_net :: net_device
  vp_offset_id :: u8
  vp_mux_id :: u8
  vp_qmap_version :: u8
  vp_agg_skb :: "sk_buff option"
  vp_bridge_mode :: u32
  vp_bridge_ipv4 :: u32
  vp_bridge_mac :: bytes
  vp_stats :: netstats

datatype vnd_slot = NoVnd | RealVnd | Vnd vnd_priv | DanglingVnd

record mhi_netdev =
  nn_ndev :: "net_device option"
  nn_enabled :: bool
  nn_rx_allocated :: "u64 list"
  nn_qmap_chain :: "u64 list"
  nn_alloc_work :: bool
  nn_mbim_ctx :: MHI_MBIM_CTX
  nn_mbim_mux_id :: u32
  nn_mru :: u32
  nn_max_mtu :: u32
  nn_net_type :: mhi_net_type
  nn_nets :: "vnd_slot list"
  nn_qmap_mode :: u32
  nn_qmap_version :: u32
  nn_qmap_size :: u32
  nn_link_state :: u32
  nn_flow_control :: u32
  nn_dl_minimum_padding :: u32
  nn_bridge_mode :: u32
  nn_bridge_ipv4 :: u32
  nn_bridge_mac :: bytes
  nn_use_rmnet_usb :: bool
  nn_rmnet_info :: RMNET_INFO
  nn_command_stats :: "u32 list"
  nn_alloc_failed :: u32
  nn_rx_int :: u32
  nn_rx_allocs :: u32
  nn_stats :: netstats

definition node_id :: bytes where
  "node_id = [0x02, 0x50, 0xF4, 0x00, 0x00, 0x00]"

definition MBIM_MUX_ID_SDX7X :: u32 where "MBIM_MUX_ID_SDX7X = 112"
definition QCUSB_MRECEIVE_MAX_BUFFER_SIZE :: u32 where "QCUSB_MRECEIVE_MAX_BUFFER_SIZE = 1024 * 32"
definition sizeof_mbim_hdr :: nat where "sizeof_mbim_hdr = 28"

text \<open>\<^verbatim>\<open>devm_kzalloc\<close>.\<close>

definition zero_netdev :: mhi_netdev where
  "zero_netdev =
     \<lparr>nn_ndev = None, nn_enabled = False, nn_rx_allocated = [], nn_qmap_chain = [], nn_alloc_work = False,
      nn_mbim_ctx = \<lparr>mb_tx_seq = 0, mb_rx_seq = 0, mb_rx_max = 0\<rparr>, nn_mbim_mux_id = 0, nn_mru = 0, nn_max_mtu = 0,
      nn_net_type = MHI_NET_UNKNOW, nn_nets = replicate 8 NoVnd, nn_qmap_mode = 0, nn_qmap_version = 0,
      nn_qmap_size = 0, nn_link_state = 0, nn_flow_control = 0, nn_dl_minimum_padding = 0, nn_bridge_mode = 0,
      nn_bridge_ipv4 = 0, nn_bridge_mac = replicate ETH_ALEN 0, nn_use_rmnet_usb = False,
      nn_rmnet_info = zero_rmnet_info, nn_command_stats = replicate 10 0, nn_alloc_failed = 0,
      nn_rx_int = 0, nn_rx_allocs = 0, nn_stats = zero_stats\<rparr>"

subsection \<open>Devices of the channels\<close>

definition vnd_name :: "string \<Rightarrow> u8 \<Rightarrow> string" where
  "vnd_name nm offset_id = take 12 nm @ ''.'' @ dec (unat offset_id + 1)"

text \<open>
  \<^verbatim>\<open>rmnet_vnd_register_device\<close>: the pointer it returns. \<open>alloc\<close>: whether \<^verbatim>\<open>alloc_etherdev\<close> succeeds; \<open>reg\<close>: whether the
  statistics can be allocated and the device registered. When not, the device is freed and returned.
\<close>

definition rmnet_vnd_register_device :: "bool \<Rightarrow> bool \<Rightarrow> net_device \<Rightarrow> u8 \<Rightarrow> u8 \<Rightarrow> mhi_netdev \<Rightarrow> vnd_slot" where
  "rmnet_vnd_register_device alloc reg real offset_id mux_id d =
     (if \<not> alloc then NoVnd
      else if \<not> reg then DanglingVnd
      else Vnd \<lparr>vp_net = \<lparr>nd_name = vnd_name (nd_name real) offset_id, nd_mtu = 1500, nd_ether = True,
                          nd_hard_header_len = 14, nd_addr = (nd_addr real)[5 := offset_id + 1], nd_up = False,
                          nd_carrier = False, nd_stopped = False\<rparr>,
               vp_offset_id = offset_id, vp_mux_id = mux_id, vp_qmap_version = ucast (nn_qmap_version d),
               vp_agg_skb = None, vp_bridge_mode = (if bit (nn_bridge_mode d) (unat offset_id) then 1 else 0),
               vp_bridge_ipv4 = 0, vp_bridge_mac = replicate ETH_ALEN 0, vp_stats = zero_stats\<rparr>)"

text \<open>The device entry \<open>i\<close> points to; behind the end of the array there is no valid pointer.\<close>

definition vnd_at :: "mhi_netdev \<Rightarrow> nat \<Rightarrow> vnd_slot" where
  "vnd_at d i = (if i < length (nn_nets d) then nn_nets d ! i else DanglingVnd)"

definition vnd_put :: "nat \<Rightarrow> vnd_priv \<Rightarrow> mhi_netdev \<Rightarrow> mhi_netdev" where
  "vnd_put i p d = d\<lparr>nn_nets := (nn_nets d)[i := Vnd p]\<rparr>"

definition rx_stats :: "u32 \<Rightarrow> u32 \<Rightarrow> netstats \<Rightarrow> netstats" where
  "rx_stats packets bytes s =
     s\<lparr>st_rx_packets := st_rx_packets s + ucast packets, st_rx_bytes := st_rx_bytes s + ucast bytes\<rparr>"

definition tx_stats :: "u32 \<Rightarrow> u32 \<Rightarrow> netstats \<Rightarrow> netstats" where
  "tx_stats packets bytes s =
     s\<lparr>st_tx_packets := st_tx_packets s + ucast packets, st_tx_bytes := st_tx_bytes s + ucast bytes\<rparr>"

definition rmnet_vnd_upate_rx_stats :: "u32 \<Rightarrow> u32 \<Rightarrow> vnd_priv \<Rightarrow> vnd_priv" where
  "rmnet_vnd_upate_rx_stats packets bytes p = p\<lparr>vp_stats := rx_stats packets bytes (vp_stats p)\<rparr>"

definition rmnet_vnd_upate_tx_stats :: "u32 \<Rightarrow> u32 \<Rightarrow> vnd_priv \<Rightarrow> vnd_priv" where
  "rmnet_vnd_upate_tx_stats packets bytes p = p\<lparr>vp_stats := tx_stats packets bytes (vp_stats p)\<rparr>"

definition rmnet_vnd_open :: "net_device \<Rightarrow> vnd_priv \<Rightarrow> unit res \<times> vnd_priv" where
  "rmnet_vnd_open real p =
     (if \<not> nd_up real then (Inl ENETDOWN, p)
      else (Inr (), if nd_carrier real then p\<lparr>vp_net := (vp_net p)\<lparr>nd_carrier := True\<rparr>\<rparr> else p))"

definition rmnet_vnd_stop :: "vnd_priv \<Rightarrow> vnd_priv" where
  "rmnet_vnd_stop p = p\<lparr>vp_net := (vp_net p)\<lparr>nd_carrier := False\<rparr>\<rparr>"

definition vnd_change_mtu :: "u32 \<Rightarrow> int \<Rightarrow> net_device \<Rightarrow> unit res \<times> net_device" where
  "vnd_change_mtu max_mtu new_mtu n =
     (if new_mtu < 0 \<or> max_mtu < word_of_int new_mtu then (Inl EINVAL, n)
      else (Inr (), n\<lparr>nd_mtu := word_of_int new_mtu\<rparr>))"

text \<open>\<open>dev_mtu\<close> is the MTU of the MHI device (a \<^verbatim>\<open>size_t\<close>).\<close>

definition mhi_netdev_change_mtu :: "u64 \<Rightarrow> int \<Rightarrow> net_device \<Rightarrow> unit res \<times> net_device" where
  "mhi_netdev_change_mtu dev_mtu new_mtu n =
     (if new_mtu < 0 \<or> uint dev_mtu < new_mtu then (Inl EINVAL, n)
      else (Inr (), n\<lparr>nd_mtu := word_of_int new_mtu\<rparr>))"

definition mhi_netdev_open :: "bool \<Rightarrow> net_device \<Rightarrow> net_device" where
  "mhi_netdev_open ul_chan n = n\<lparr>nd_stopped := \<not> ul_chan\<rparr>"

subsection \<open>Set-up and removal\<close>

definition rmnet_info_set :: "mhi_netdev \<Rightarrow> RMNET_INFO \<Rightarrow> RMNET_INFO" where
  "rmnet_info_set d info =
     info\<lparr>ri_rx_urb_size := nn_qmap_size d, ri_ep_type := 3, ri_iface_id := 4, ri_qmap_mode := nn_qmap_mode d,
          ri_qmap_version := nn_qmap_version d, ri_dl_minimum_padding := 0\<rparr>"

definition mhi_netdev_setup :: "string \<Rightarrow> net_device" where
  "mhi_netdev_setup nm =
     \<lparr>nd_name = nm, nd_mtu = 1500, nd_ether = False, nd_hard_header_len = 0, nd_addr = node_id, nd_up = False,
      nd_carrier = True, nd_stopped = False\<rparr>"

text \<open>
  \<^verbatim>\<open>mhi_netdev_enable_iface\<close>: \<open>prep\<close> is the result of \<^verbatim>\<open>mhi_prepare_for_transfer\<close>, \<open>alloc\<close> and \<open>reg\<close> those of
  allocating and registering the network device, \<open>rx\<close> that of \<^verbatim>\<open>mhi_netdev_alloc_skb\<close>. The last result says
  whether the channels were closed again (\<^verbatim>\<open>mhi_unprepare_from_transfer\<close>).
\<close>

definition enable_ndev :: "string \<Rightarrow> u32 \<Rightarrow> mhi_netdev \<Rightarrow> mhi_netdev" where
  "enable_ndev ifname bridge_mode d =
     (let n = mhi_netdev_setup ifname
      in if nn_net_type d = MHI_NET_RMNET \<or> nn_net_type d = MHI_NET_MBIM
         then d\<lparr>nn_ndev := Some n, nn_bridge_mode := bridge_mode\<rparr>
         else if nn_net_type d = MHI_NET_ETHER then d\<lparr>nn_ndev := Some (n\<lparr>nd_mtu := nn_mru d\<rparr>)\<rparr>
         else d\<lparr>nn_ndev := Some n\<rparr>)"

definition mhi_netdev_enable_iface ::
  "string \<Rightarrow> u32 \<Rightarrow> unit res \<Rightarrow> bool \<Rightarrow> unit res \<Rightarrow> unit res \<Rightarrow> mhi_netdev \<Rightarrow> unit res \<times> mhi_netdev \<times> bool" where
  "mhi_netdev_enable_iface ifname bridge_mode prep alloc reg rx d =
     (case prep of
        Inl e \<Rightarrow> (Inl e, d, False)
      | Inr _ \<Rightarrow>
          (let finish = (\<lambda>d1. (Inr (), d1\<lparr>nn_enabled := True, nn_alloc_work := nn_alloc_work d1 \<or> isl rx\<rparr>, False))
           in if nn_ndev d \<noteq> None then finish d
              else if \<not> alloc then (Inl ENOMEM, d, True)
              else (let d1 = enable_ndev ifname bridge_mode d
                    in case reg of
                         Inl e \<Rightarrow> (Inl e, d1\<lparr>nn_ndev := None\<rparr>, True)
                       | Inr _ \<Rightarrow> finish (d1\<lparr>nn_ndev := map_option (\<lambda>n. n\<lparr>nd_carrier := False\<rparr>) (nn_ndev d1)\<rparr>))))"

definition qmap9_device :: "u32 \<Rightarrow> u32 \<Rightarrow> bool" where
  "qmap9_device vendor dev_id \<longleftrightarrow> (vendor, dev_id) \<in>
     {(0x17cb, 0x0306), (0x17cb, 0x0308), (0x1eac, 0x1004), (0x17cb, 0x011a), (0x1eac, 0x100b), (0x17cb, 0x0309),
      (0x1eac, 0x1012), (0x1eac, 0x1013), (0x1eac, 0x1014), (0x1eac, 0x1015)}"

definition sdx7x_device :: "u32 \<Rightarrow> u32 \<Rightarrow> bool" where
  "sdx7x_device vendor dev_id \<longleftrightarrow> (vendor, dev_id) \<in>
     {(0x17cb, 0x0309), (0x17cb, 0x011a), (0x1eac, 0x100b), (0x1eac, 0x1012), (0x1eac, 0x1013), (0x1eac, 0x1014), (0x1eac, 0x1015)}"

text \<open>The part of \<^verbatim>\<open>mhi_netdev_probe\<close> before the interface is enabled.\<close>

definition config_netdev :: "mhi_net_type \<Rightarrow> u32 \<Rightarrow> u32 \<Rightarrow> u32 \<Rightarrow> mhi_netdev" where
  "config_netdev ty qmap_mode vendor dev_id =
     (let mru = if ty = MHI_NET_MBIM then QCUSB_MRECEIVE_MAX_BUFFER_SIZE
                else if ty = MHI_NET_ETHER then 8 * 1024 else 15 * 1024;
          max_mtu = if ty = MHI_NET_MBIM then mru - word_of_nat sizeof_mbim_hdr
                    else if ty = MHI_NET_ETHER then mru else mru - (4 + 4);
          ctx = nn_mbim_ctx zero_netdev;
          d = zero_netdev\<lparr>nn_net_type := ty, nn_mru := mru, nn_max_mtu := max_mtu,
                nn_mbim_ctx := (if ty = MHI_NET_MBIM then ctx\<lparr>mb_rx_max := mru\<rparr> else ctx),
                nn_qmap_size := mru,
                nn_qmap_mode := (if ty = MHI_NET_ETHER then 1 else qmap_mode),
                nn_qmap_version := (if ty = MHI_NET_ETHER then 0 else if qmap9_device vendor dev_id then 9 else 5),
                nn_use_rmnet_usb := (ty \<noteq> MHI_NET_ETHER),
                nn_mbim_mux_id := (if sdx7x_device vendor dev_id then MBIM_MUX_ID_SDX7X else 0)\<rparr>
      in d\<lparr>nn_rmnet_info := rmnet_info_set d (nn_rmnet_info d)\<rparr>)"

definition probe_config :: "bool \<Rightarrow> u32 \<Rightarrow> string \<Rightarrow> u32 \<Rightarrow> u32 \<Rightarrow> mhi_netdev res" where
  "probe_config mbim_enabled qmap_mode chan vendor dev_id =
     (if chan = ''IP_HW0'' then Inr (config_netdev (if mbim_enabled then MHI_NET_MBIM else MHI_NET_RMNET) qmap_mode vendor dev_id)
      else if chan = ''IP_SW0'' then Inr (config_netdev MHI_NET_ETHER qmap_mode vendor dev_id)
      else Inl EINVAL)"

text \<open>
  The loop over the channels. \<open>allocs\<close> and \<open>regs\<close> are the results per channel. The name of a freed device is read
  from memory that was given back; here it is the empty string.
\<close>

definition vnd_slot_name :: "vnd_slot \<Rightarrow> string" where
  "vnd_slot_name s = (case s of Vnd p \<Rightarrow> nd_name (vp_net p) | _ \<Rightarrow> [])"

definition probe_vnd ::
  "bool \<Rightarrow> (nat \<Rightarrow> bool) \<Rightarrow> (nat \<Rightarrow> bool) \<Rightarrow> net_device \<Rightarrow> nat \<Rightarrow> mhi_netdev \<Rightarrow> mhi_netdev" where
  "probe_vnd mbim_enabled allocs regs real i d =
     (let mux_id = (if mbim_enabled then ucast (nn_mbim_mux_id d) else QUECTEL_QMAP_MUX_ID) + word_of_nat i;
          s = rmnet_vnd_register_device (allocs i) (regs i) real (word_of_nat i) mux_id d;
          d1 = d\<lparr>nn_nets := (nn_nets d)[i := s]\<rparr>; info = nn_rmnet_info d1
      in if s = NoVnd then d1
         else d1\<lparr>nn_rmnet_info := info\<lparr>ri_ifname := (ri_ifname info)[i := vnd_slot_name s],
                                       ri_mux_id := (ri_mux_id info)[i := mux_id]\<rparr>\<rparr>)"

definition probe_channels ::
  "bool \<Rightarrow> (nat \<Rightarrow> bool) \<Rightarrow> (nat \<Rightarrow> bool) \<Rightarrow> mhi_netdev \<Rightarrow> mhi_netdev option" where
  "probe_channels mbim_enabled allocs regs d =
     (case nn_ndev d of
        None \<Rightarrow> None
      | Some real \<Rightarrow>
          if nn_net_type d = MHI_NET_ETHER
          then Some (d\<lparr>nn_nets := (nn_nets d)[0 := RealVnd], nn_ndev := Some (real\<lparr>nd_carrier := True\<rparr>)\<rparr>)
          else if \<not> nn_use_rmnet_usb d then Some d
          else if 8 < nn_qmap_mode d then None
          else Some (fold (probe_vnd mbim_enabled allocs regs real) [0..<unat (nn_qmap_mode d)] d))"

text \<open>\<open>e\<close>: the results of the calls of \<^verbatim>\<open>mhi_netdev_enable_iface\<close>; \<open>mem\<close>: whether the two allocations succeed.\<close>

record probe_env =
  pb_mem :: bool
  pb_prep :: "unit res"
  pb_alloc :: bool
  pb_reg :: "unit res"
  pb_rx :: "unit res"

definition mhi_netdev_probe ::
  "probe_env \<Rightarrow> bool \<Rightarrow> u32 \<Rightarrow> u32 \<Rightarrow> (nat \<Rightarrow> bool) \<Rightarrow> (nat \<Rightarrow> bool) \<Rightarrow> string \<Rightarrow> u32 \<Rightarrow> u32 \<Rightarrow> u32 \<Rightarrow> mhi_netdev res option" where
  "mhi_netdev_probe e mbim_enabled qmap_mode bridge_mode allocs regs chan cntrl_idx vendor dev_id =
     (case probe_config mbim_enabled qmap_mode chan vendor dev_id of
        Inl err \<Rightarrow> Some (Inl (if pb_mem e then err else ENOMEM))
      | Inr d \<Rightarrow>
          if \<not> pb_mem e then Some (Inl ENOMEM)
          else (let nm = (if chan = ''IP_HW0'' then ''rmnet_mhi'' else ''mhi_swip'') @ dec (unat cntrl_idx)
                in case mhi_netdev_enable_iface nm bridge_mode (pb_prep e) (pb_alloc e) (pb_reg e) (pb_rx e) d of
                     (Inl err, _, _) \<Rightarrow> Some (Inl err)
                   | (Inr _, d1, _) \<Rightarrow> map_option Inr (probe_channels mbim_enabled allocs regs d1)))"

text \<open>
  Removal: every channel's device is unregistered; the result has the accesses to devices that were already
  freed. The queues are emptied.
\<close>

definition mhi_netdev_remove :: "mhi_netdev \<Rightarrow> nat \<times> mhi_netdev" where
  "mhi_netdev_remove d =
     (let n = unat (nn_qmap_mode d); used = take n (nn_nets d)
      in (length (filter (\<lambda>s. s = DanglingVnd) used),
          d\<lparr>nn_enabled := False, nn_nets := replicate (min n (length (nn_nets d))) NoVnd @ drop n (nn_nets d),
            nn_rx_allocated := [], nn_qmap_chain := [], nn_ndev := None, nn_alloc_work := False\<rparr>))"

subsection \<open>Attributes and ioctls\<close>

definition vnd_carrier :: "bool \<Rightarrow> vnd_slot \<Rightarrow> vnd_slot" where
  "vnd_carrier on s = (case s of Vnd p \<Rightarrow> Vnd (p\<lparr>vp_net := (vp_net p)\<lparr>nd_carrier := on\<rparr>\<rparr>) | _ \<Rightarrow> s)"

definition net_carrier :: "bool \<Rightarrow> mhi_netdev \<Rightarrow> mhi_netdev" where
  "net_carrier on d = d\<lparr>nn_ndev := map_option (\<lambda>n. n\<lparr>nd_carrier := on\<rparr>) (nn_ndev d)\<rparr>"

definition net_link_state_store :: "u32 \<Rightarrow> mhi_netdev \<Rightarrow> mhi_netdev" where
  "net_link_state_store link_state d =
     (let offset_id = (if 1 < nn_qmap_mode d then (link_state AND 0xF) - 1 else 0) :: u32;
          b = push_bit (unat offset_id) 1 :: u32;
          l = (if 1 < nn_qmap_mode d
               then (if 0 < link_state \<and> link_state \<le> nn_qmap_mode d then nn_link_state d OR b
                     else if 0x80 < link_state \<and> link_state \<le> 0x80 + nn_qmap_mode d then nn_link_state d AND NOT b
                     else nn_link_state d)
               else if link_state \<noteq> 0 then 1 else 0);
          d1 = d\<lparr>nn_link_state := l\<rparr>
      in if l = nn_link_state d then d1
         else (let d2 = net_carrier (l \<noteq> 0) d1; i = unat offset_id; s = nn_nets d2 ! i
               in if s = RealVnd then net_carrier (bit l i) d2
                  else d2\<lparr>nn_nets := (nn_nets d2)[i := vnd_carrier (bit l i) s]\<rparr>))"

definition qmap_setting_store :: "QMAP_SETTING \<Rightarrow> u32 \<Rightarrow> mhi_netdev \<Rightarrow> unit res \<times> mhi_netdev" where
  "qmap_setting_store st sz d =
     (if set_size st \<noteq> sz then (Inl EOPNOTSUPP, d)
      else (Inr (), d\<lparr>nn_dl_minimum_padding := set_dl_minimum_padding st\<rparr>))"

definition net_do_ioctl ::
  "int \<Rightarrow> ioctl_arg option \<Rightarrow> bool \<Rightarrow> u32 \<Rightarrow> mhi_netdev \<Rightarrow> ioctl_rc \<times> mhi_netdev" where
  "net_do_ioctl cmd arg copy_ok sz d =
     (if cmd = 0x89F1
      then (case arg of Some (IoLink v) \<Rightarrow> (IoRc (Inr ()), net_link_state_store v d) | _ \<Rightarrow> (IoCopyFault, d))
      else if cmd = 0x89F2
      then (case arg of Some (IoSetting st) \<Rightarrow> (let (r, d') = qmap_setting_store st sz d in (IoRc r, d')) | _ \<Rightarrow> (IoCopyFault, d))
      else if cmd = 0x89F3 \<and> nn_use_rmnet_usb d
      then (if copy_ok then IoInfo (nn_rmnet_info d) else IoCopyFault, d)
      else (IoRc (Inl EOPNOTSUPP), d))"

definition net_bridge_mode_store :: "nat option \<Rightarrow> u32 \<Rightarrow> mhi_netdev \<Rightarrow> mhi_netdev" where
  "net_bridge_mode_store chan v d =
     (case chan of
        Some i \<Rightarrow> (case nn_nets d ! i of
                     Vnd p \<Rightarrow> if nd_ether (vp_net p) then d\<lparr>nn_nets := (nn_nets d)[i := Vnd (p\<lparr>vp_bridge_mode := v\<rparr>)]\<rparr> else d
                   | _ \<Rightarrow> d)
      | None \<Rightarrow> if (case nn_ndev d of None \<Rightarrow> False | Some n \<Rightarrow> nd_ether n) then d\<lparr>nn_bridge_mode := v\<rparr> else d)"

definition net_bridge_ipv4_store :: "nat option \<Rightarrow> u32 \<Rightarrow> mhi_netdev \<Rightarrow> mhi_netdev" where
  "net_bridge_ipv4_store chan v d =
     (case chan of
        Some i \<Rightarrow> (case nn_nets d ! i of Vnd p \<Rightarrow> d\<lparr>nn_nets := (nn_nets d)[i := Vnd (p\<lparr>vp_bridge_ipv4 := v\<rparr>)]\<rparr> | _ \<Rightarrow> d)
      | None \<Rightarrow> d\<lparr>nn_bridge_ipv4 := v\<rparr>)"

subsection \<open>What probing yields\<close>

lemma probe_vnd_fields [simp]:
  "nn_qmap_mode (probe_vnd m al rg real i d) = nn_qmap_mode d" "nn_mbim_mux_id (probe_vnd m al rg real i d) = nn_mbim_mux_id d"
  "nn_qmap_version (probe_vnd m al rg real i d) = nn_qmap_version d" "nn_bridge_mode (probe_vnd m al rg real i d) = nn_bridge_mode d"
  "length (nn_nets (probe_vnd m al rg real i d)) = length (nn_nets d)" "nn_ndev (probe_vnd m al rg real i d) = nn_ndev d"
  "nn_net_type (probe_vnd m al rg real i d) = nn_net_type d" "nn_enabled (probe_vnd m al rg real i d) = nn_enabled d"
  by (simp_all add: probe_vnd_def Let_def)

definition vnd_mux :: "bool \<Rightarrow> mhi_netdev \<Rightarrow> nat \<Rightarrow> u8" where
  "vnd_mux m d i = (if m then ucast (nn_mbim_mux_id d) else QUECTEL_QMAP_MUX_ID) + word_of_nat i"

lemma probe_vnd_slot:
  "j < length (nn_nets d) \<Longrightarrow> nn_nets (probe_vnd m al rg real i d) ! j =
     (if j = i then rmnet_vnd_register_device (al i) (rg i) real (word_of_nat i) (vnd_mux m d i) d else nn_nets d ! j)"
  by (auto simp: probe_vnd_def Let_def vnd_mux_def)

lemma register_device_cong:
  "nn_qmap_version d' = nn_qmap_version d \<Longrightarrow> nn_bridge_mode d' = nn_bridge_mode d \<Longrightarrow>
     rmnet_vnd_register_device al rg real o' mux d' = rmnet_vnd_register_device al rg real o' mux d"
  by (simp add: rmnet_vnd_register_device_def)

lemma probe_vnd_loop:
  fixes al rg :: "nat \<Rightarrow> bool" and m :: bool and real :: net_device
  assumes "n \<le> length (nn_nets d)"
  defines "d' \<equiv> fold (probe_vnd m al rg real) [0..<n] d"
  shows "length (nn_nets d') = length (nn_nets d) \<and> nn_qmap_mode d' = nn_qmap_mode d \<and> nn_mbim_mux_id d' = nn_mbim_mux_id d \<and>
    nn_qmap_version d' = nn_qmap_version d \<and> nn_bridge_mode d' = nn_bridge_mode d \<and> nn_net_type d' = nn_net_type d \<and>
    nn_ndev d' = nn_ndev d \<and> nn_enabled d' = nn_enabled d \<and>
    (\<forall>j < length (nn_nets d). nn_nets d' ! j =
      (if j < n then rmnet_vnd_register_device (al j) (rg j) real (word_of_nat j) (vnd_mux m d j) d else nn_nets d ! j))"
  using assms(1) unfolding d'_def
proof (induction n)
  case (Suc n)
  let ?d = "fold (probe_vnd m al rg real) [0..<n] d"
  have ih: "nn_qmap_version ?d = nn_qmap_version d" "nn_bridge_mode ?d = nn_bridge_mode d" "nn_mbim_mux_id ?d = nn_mbim_mux_id d"
    using Suc by simp_all
  have "vnd_mux m ?d n = vnd_mux m d n" by (simp only: vnd_mux_def ih(3))
  then show ?case using Suc ih by (auto simp: probe_vnd_slot less_Suc_eq register_device_cong [OF ih(1,2)])
qed simp

text \<open>
  Probing the IP hardware channel, when the set-up of the interface succeeds: more than eight channels
  leave the array of devices. Otherwise entry \<open>i\<close> below the module parameter is a device of its own, with
  its number, its mux id and a hardware address ending in its number; it is empty when no device could be
  allocated, and it points to freed memory when the device could not be registered.
\<close>

theorem mhi_netdev_probe_result:
  assumes "pb_mem e" and "pb_prep e = Inr ()" and "pb_alloc e" and "pb_reg e = Inr ()"
    and "r = mhi_netdev_probe e mbim mode bm allocs regs ''IP_HW0'' idx vendor dev_id"
  shows "if 8 < mode then r = None
    else \<exists>d. r = Some (Inr d) \<and> length (nn_nets d) = 8 \<and> nn_enabled d \<and> nn_qmap_mode d = mode \<and>
      (\<forall>i < 8. if unat mode \<le> i \<or> \<not> allocs i then nn_nets d ! i = NoVnd
        else if \<not> regs i then nn_nets d ! i = DanglingVnd
        else \<exists>p. nn_nets d ! i = Vnd p \<and> vp_offset_id p = word_of_nat i \<and>
          vp_mux_id p = (if mbim then ucast (nn_mbim_mux_id d) else 0x81) + word_of_nat i \<and>
          nd_addr (vp_net p) = node_id[5 := word_of_nat i + 1] \<and> vp_qmap_version p = ucast (nn_qmap_version d))"
proof -
  define d0 where "d0 = config_netdev (if mbim then MHI_NET_MBIM else MHI_NET_RMNET) mode vendor dev_id"
  have d0: "probe_config mbim mode ''IP_HW0'' vendor dev_id = Inr d0" "nn_ndev d0 = None" "nn_nets d0 = replicate 8 NoVnd"
    "nn_qmap_mode d0 = mode" "nn_use_rmnet_usb d0" "nn_net_type d0 = (if mbim then MHI_NET_MBIM else MHI_NET_RMNET)"
    by (simp_all add: d0_def probe_config_def config_netdev_def zero_netdev_def Let_def)
  let ?real = "(mhi_netdev_setup (''rmnet_mhi'' @ dec (unat idx)))\<lparr>nd_carrier := False\<rparr>"
  define d1 where "d1 = d0\<lparr>nn_ndev := Some ?real, nn_bridge_mode := bm, nn_enabled := True,
    nn_alloc_work := nn_alloc_work d0 \<or> isl (pb_rx e)\<rparr>"
  have en: "mhi_netdev_enable_iface (''rmnet_mhi'' @ dec (unat idx)) bm (pb_prep e) (pb_alloc e) (pb_reg e) (pb_rx e) d0 = (Inr (), d1, False)"
    using assms(2,3,4) d0 by (simp add: mhi_netdev_enable_iface_def enable_ndev_def Let_def d1_def)
  have r: "r = map_option Inr (probe_channels mbim allocs regs d1)"
    using assms(1,5) d0(1) en by (simp add: mhi_netdev_probe_def Let_def )
  have d1: "nn_ndev d1 = Some ?real" "nn_net_type d1 \<noteq> MHI_NET_ETHER" "nn_use_rmnet_usb d1" "nn_qmap_mode d1 = mode"
    "nn_nets d1 = replicate 8 NoVnd" "nn_enabled d1" using d0 by (simp_all add: d1_def)
  show ?thesis
  proof (cases "8 < mode")
    case True
    then show ?thesis using r d1 by (simp add: probe_channels_def)
  next
    case False
    then have m: "unat mode \<le> length (nn_nets d1)" using d1(5) by (simp add: not_less word_le_nat_alt)
    let ?d = "fold (probe_vnd mbim allocs regs ?real) [0..<unat mode] d1"
    note loop = probe_vnd_loop [OF m, of mbim allocs regs ?real]
    have rd: "r = Some (Inr ?d)" using r d1 False by (simp add: probe_channels_def)
    have f: "length (nn_nets ?d) = 8" "nn_enabled ?d" "nn_qmap_mode ?d = mode" using loop d1(4,5,6) by simp_all
    have slots: "if unat mode \<le> i \<or> \<not> allocs i then nn_nets ?d ! i = NoVnd
        else if \<not> regs i then nn_nets ?d ! i = DanglingVnd
        else \<exists>p. nn_nets ?d ! i = Vnd p \<and> vp_offset_id p = word_of_nat i \<and>
          vp_mux_id p = (if mbim then ucast (nn_mbim_mux_id ?d) else 0x81) + word_of_nat i \<and>
          nd_addr (vp_net p) = node_id[5 := word_of_nat i + 1] \<and> vp_qmap_version p = ucast (nn_qmap_version ?d)" if "i < 8" for i
      using loop that d1(5)
      by (auto simp: rmnet_vnd_register_device_def vnd_mux_def QUECTEL_QMAP_MUX_ID_def mhi_netdev_setup_def)
    show ?thesis unfolding if_not_P [OF False] using rd f slots by blast
  qed
qed

end
