(* ===== verification/Net_Rx.thy ===== *)
theory Net_Rx
  imports Net_Dev
begin

text \<open>
  Receiving over MHI (\<^verbatim>\<open>pcie_mhi/src/devices/mhi_netdev_quectel.c\<close>): \<^verbatim>\<open>rmnet_qmi_rx_handler\<close>, which cuts a QMAP
  aggregate into packets and answers the flow control commands of the modem. The lemmas show that it returns and
  stays inside the aggregate, what a command does, and that it delivers the packets the USB driver delivers.

  A walk ends as \<open>NrEnd\<close> when the data are used up, as \<open>NrDrop\<close> at \<^verbatim>\<open>error_pkt\<close>, as \<open>NrBeyond\<close> at a read behind the
  data that the driver has no memory for, and as \<open>NrBad\<close> when the entry of the channel is not a valid device of a
  channel.
\<close>

subsection \<open>Commands of the modem\<close>

definition RMNET_MAP_COMMAND_FLOW_DISABLE :: u8 where "RMNET_MAP_COMMAND_FLOW_DISABLE = 1"
definition RMNET_MAP_COMMAND_FLOW_ENABLE :: u8 where "RMNET_MAP_COMMAND_FLOW_ENABLE = 2"
definition RMNET_MAP_COMMAND_UNKNOWN :: u8 where "RMNET_MAP_COMMAND_UNKNOWN = 9"
definition RMNET_MAP_COMMAND_ENUM_LENGTH :: u8 where "RMNET_MAP_COMMAND_ENUM_LENGTH = 10"
definition RMNET_MAP_COMMAND_ACK :: u8 where "RMNET_MAP_COMMAND_ACK = 1"
definition RMNET_MAP_COMMAND_UNSUPPORTED :: u8 where "RMNET_MAP_COMMAND_UNSUPPORTED = 2"

lemmas map_command_defs = RMNET_MAP_COMMAND_FLOW_DISABLE_def RMNET_MAP_COMMAND_FLOW_ENABLE_def
  RMNET_MAP_COMMAND_UNKNOWN_def RMNET_MAP_COMMAND_ENUM_LENGTH_def RMNET_MAP_COMMAND_ACK_def
  RMNET_MAP_COMMAND_UNSUPPORTED_def

record net_pkt =
  np_chan :: nat
  np_mac :: bytes
  np_data :: bytes
  np_protocol :: u16

record nrx =
  nr_dev :: mhi_netdev
  nr_acks :: "bytes list"
  nr_allocs :: nat
  nr_chain :: "net_pkt list"

text \<open>
  The acknowledgement copies the header and the command, 20 bytes, and sets the two bits of \<^verbatim>\<open>cmd_type\<close>. \<open>mem\<close> is the
  rest of the buffer from the header on, also behind the received data.
\<close>

definition map_ack :: "u8 \<Rightarrow> bytes \<Rightarrow> bytes" where
  "map_ack type mem = (take 20 mem)[5 := (mem ! 5 AND 0xFC) OR (type AND 3)]"

definition rmnet_map_send_ack :: "(nat \<Rightarrow> bool) \<Rightarrow> u8 \<Rightarrow> bytes \<Rightarrow> nrx \<Rightarrow> nrx option" where
  "rmnet_map_send_ack alloc type mem s =
     (let s1 = s\<lparr>nr_allocs := Suc (nr_allocs s)\<rparr>
      in if \<not> alloc (nr_allocs s) then Some s1
         else if length mem < 20 then None
         else Some (s1\<lparr>nr_acks := nr_acks s1 @ [map_ack type mem]\<rparr>))"

definition rmnet_map_do_flow_control :: "u8 \<Rightarrow> bool \<Rightarrow> mhi_netdev \<Rightarrow> u8 \<times> mhi_netdev" where
  "rmnet_map_do_flow_control mux enable d =
     (let mux_id = mux - QUECTEL_QMAP_MUX_ID
      in if nn_qmap_mode d \<le> ucast mux_id \<or> vnd_at d (unat mux_id) = NoVnd then (RMNET_MAP_COMMAND_UNSUPPORTED, d)
         else (RMNET_MAP_COMMAND_ACK,
               d\<lparr>nn_flow_control := (if enable then nn_flow_control d OR push_bit (unat mux_id) 1
                                     else nn_flow_control d AND NOT (push_bit (unat mux_id) 1))\<rparr>))"

definition count_command :: "u8 \<Rightarrow> mhi_netdev \<Rightarrow> mhi_netdev" where
  "count_command k d = d\<lparr>nn_command_stats := (nn_command_stats d)[unat k := nn_command_stats d ! unat k + 1]\<rparr>"

definition rmnet_data_map_command :: "(nat \<Rightarrow> bool) \<Rightarrow> bytes \<Rightarrow> nrx \<Rightarrow> nrx option" where
  "rmnet_data_map_command alloc mem s =
     (let command_name = mem ! 4; mux = mem ! 1; d = nr_dev s;
          d1 = if command_name < RMNET_MAP_COMMAND_ENUM_LENGTH then count_command command_name d else d;
          (rc, d2) = if command_name = RMNET_MAP_COMMAND_FLOW_ENABLE then rmnet_map_do_flow_control mux True d1
                     else if command_name = RMNET_MAP_COMMAND_FLOW_DISABLE then rmnet_map_do_flow_control mux False d1
                     else (RMNET_MAP_COMMAND_UNSUPPORTED, count_command RMNET_MAP_COMMAND_UNKNOWN d1)
      in if rc = RMNET_MAP_COMMAND_ACK then rmnet_map_send_ack alloc rc mem (s\<lparr>nr_dev := d2\<rparr>)
         else Some (s\<lparr>nr_dev := d2\<rparr>))"

subsection \<open>Cutting an aggregate into packets\<close>

datatype net_end = NrEnd | NrDrop | NrBeyond | NrBad

text \<open>The destination address \<^verbatim>\<open>bridge_mode_rx_fixup\<close> leaves in the header of a packet for \<open>p\<close>.\<close>

definition net_bridge_rx_fixup :: "mhi_netdev \<Rightarrow> vnd_priv \<Rightarrow> bytes" where
  "net_bridge_rx_fixup d p =
     (let (bm, mac) = if 0 < nn_qmap_mode d then (vp_bridge_mode p, vp_bridge_mac p)
                      else (nn_bridge_mode d, nn_bridge_mac d)
      in if bm \<noteq> 0 then mac else nd_addr (vp_net p))"

definition net_mac_header :: "mhi_netdev \<Rightarrow> vnd_priv \<Rightarrow> u16 \<Rightarrow> bytes" where
  "net_mac_header d p protocol =
     (if nd_ether (vp_net p) then eth_header (net_bridge_rx_fixup d p) default_modem_addr protocol else [])"

definition net_skb_len :: "mhi_netdev \<Rightarrow> rmnet_map_header \<Rightarrow> u32" where
  "net_skb_len d h = map_skb_len (if nn_qmap_version d = 9 then nn_dl_minimum_padding d else 0) h"

text \<open>What is done with a data packet that passed the checks of its header: the part behind \<^verbatim>\<open>cd_bit\<close>.\<close>

definition qmi_deliver ::
  "(nat \<Rightarrow> bool) \<Rightarrow> nrx \<Rightarrow> nat \<Rightarrow> vnd_priv \<Rightarrow> u32 \<Rightarrow> nat \<Rightarrow> bytes \<Rightarrow> (net_end \<times> nrx) + nrx" where
  "qmi_deliver alloc s i p skb_len hdr_size b =
     (let d = nr_dev s; s1 = s\<lparr>nr_allocs := Suc (nr_allocs s)\<rparr>
      in if length b \<le> hdr_size then Inl (NrBeyond, s)
         else (let nib = (b ! hdr_size) AND 0xF0; protocol = if nib = 0x40 then ETH_P_IP else ETH_P_IPV6
               in if nib \<noteq> 0x40 \<and> nib \<noteq> 0x60 then Inl (NrDrop, s)
                  else if \<not> alloc (nr_allocs s)
                  then Inl (NrDrop, s1\<lparr>nr_dev := d\<lparr>nn_alloc_failed := nn_alloc_failed d + 1\<rparr>\<rparr>)
                  else if length b < hdr_size + unat skb_len then Inl (NrBeyond, s1)
                  else Inr (s1\<lparr>nr_dev := vnd_put i (rmnet_vnd_upate_rx_stats 1 skb_len p) d,
                               nr_chain := nr_chain s @
                                 [\<lparr>np_chan = i, np_mac = net_mac_header d p protocol,
                                   np_data = take (unat skb_len) (drop hdr_size b), np_protocol = protocol\<rparr>]\<rparr>)))"

definition qmi_round ::
  "(nat \<Rightarrow> bool) \<Rightarrow> bytes \<Rightarrow> nrx \<Rightarrow> bytes \<Rightarrow> (net_end \<times> nrx) + (nrx \<times> nat)" where
  "qmi_round alloc tail s b =
     (let h = map_header b; hdr_size = map_hdr_size h; pkt_len = unat (mh_pkt_len h); d = nr_dev s;
          skb_len = net_skb_len d h; mux_id = rx_mux h; i = unat mux_id; n = pkt_len + hdr_size
      in if nn_qmap_mode d \<le> mux_id then Inl (NrDrop, s)
         else case vnd_at d i of
                NoVnd \<Rightarrow> Inr (s, n)
              | Vnd p \<Rightarrow>
                  if nd_mtu (vp_net p) < skb_len then Inl (NrDrop, s)
                  else if length b < n then Inl (NrDrop, s)
                  else if mh_cd_bit h
                  then (case rmnet_data_map_command alloc (b @ tail) s of None \<Rightarrow> Inl (NrBeyond, s) | Some s' \<Rightarrow> Inr (s', n))
                  else map_sum id (\<lambda>s'. (s', n)) (qmi_deliver alloc s i p skb_len hdr_size b)
              | _ \<Rightarrow> Inl (NrBad, s))"

partial_function (option) qmi_loop :: "(nat \<Rightarrow> bool) \<Rightarrow> bytes \<Rightarrow> nrx \<Rightarrow> bytes \<Rightarrow> (net_end \<times> nrx) option" where
  "qmi_loop alloc tail s b =
     (if length b \<le> 4 then Some (NrEnd, s)
      else case qmi_round alloc tail s b of
             Inl r \<Rightarrow> Some r
           | Inr cn \<Rightarrow> qmi_loop alloc tail (fst cn) (rx_pull (snd cn) b))"

declare qmi_loop.simps [code]

text \<open>The packets of \<open>nr_chain\<close> go to \<^verbatim>\<open>netif_receive_skb\<close> and those of \<open>nr_acks\<close> to \<^verbatim>\<open>dev_queue_xmit\<close> of the device.\<close>

definition rmnet_qmi_rx_handler :: "(nat \<Rightarrow> bool) \<Rightarrow> mhi_netdev \<Rightarrow> sk_buff \<Rightarrow> (net_end \<times> nrx) option" where
  "rmnet_qmi_rx_handler alloc d skb_in =
     qmi_loop alloc (sk_tail skb_in) \<lparr>nr_dev = d, nr_acks = [], nr_allocs = 0, nr_chain = []\<rparr> (sk_data skb_in)"

subsection \<open>What a round keeps\<close>

text \<open>The counters aside, the devices and the settings stay as they are.\<close>

definition slot_conf :: "vnd_slot \<Rightarrow> vnd_slot" where
  "slot_conf s = (case s of Vnd p \<Rightarrow> Vnd (p\<lparr>vp_stats := zero_stats\<rparr>) | _ \<Rightarrow> s)"

definition same_conf :: "mhi_netdev \<Rightarrow> mhi_netdev \<Rightarrow> bool" where
  "same_conf d d' \<longleftrightarrow> map slot_conf (nn_nets d) = map slot_conf (nn_nets d') \<and> nn_qmap_mode d = nn_qmap_mode d' \<and>
     nn_qmap_version d = nn_qmap_version d' \<and> nn_dl_minimum_padding d = nn_dl_minimum_padding d' \<and>
     nn_bridge_mode d = nn_bridge_mode d' \<and> nn_bridge_mac d = nn_bridge_mac d'"

lemma same_conf_refl [simp]: "same_conf d d"
  by (simp add: same_conf_def)

lemma same_conf_trans: "same_conf d1 d2 \<Longrightarrow> same_conf d2 d3 \<Longrightarrow> same_conf d1 d3"
  by (simp add: same_conf_def)

lemma same_conf_len: "same_conf d d' \<Longrightarrow> length (nn_nets d') = length (nn_nets d)"
  unfolding same_conf_def by (metis length_map)

lemma same_conf_vnd:
  assumes "same_conf d d'" and "vnd_at d i = Vnd p"
  obtains p' where "vnd_at d' i = Vnd p'" "p'\<lparr>vp_stats := zero_stats\<rparr> = p\<lparr>vp_stats := zero_stats\<rparr>"
proof -
  have i: "i < length (nn_nets d)" "nn_nets d ! i = Vnd p" using assms(2) by (simp_all add: vnd_at_def split: if_splits)
  have l: "length (nn_nets d') = length (nn_nets d)" using assms(1) by (rule same_conf_len)
  have "map slot_conf (nn_nets d') ! i = map slot_conf (nn_nets d) ! i" using assms(1) by (simp add: same_conf_def)
  then have "slot_conf (nn_nets d' ! i) = slot_conf (Vnd p)" using i l by simp
  then show thesis using that i(1) l by (auto simp: slot_conf_def vnd_at_def split: vnd_slot.splits)
qed

lemma count_command_conf [simp]: "same_conf d (count_command k d')= same_conf d d'"
  by (simp add: count_command_def same_conf_def)

lemma flow_control_conf [simp]: "same_conf d (snd (rmnet_map_do_flow_control m e d')) = same_conf d d'"
  by (simp add: rmnet_map_do_flow_control_def same_conf_def Let_def)

lemma map_command_conf: "rmnet_data_map_command alloc mem s = Some s' \<Longrightarrow> same_conf (nr_dev s) (nr_dev s') \<and> nr_chain s' = nr_chain s"
  by (auto simp: rmnet_data_map_command_def rmnet_map_send_ack_def Let_def case_prod_beta split: if_splits)

lemma upd_stats_conf: "vnd_at d i = Vnd p \<Longrightarrow> same_conf d (vnd_put i (rmnet_vnd_upate_rx_stats a b p) d)"
  by (auto simp: same_conf_def vnd_put_def vnd_at_def map_update slot_conf_def rmnet_vnd_upate_rx_stats_def list_eq_iff_nth_eq
      nth_list_update split: if_splits)

definition net_ready :: "mhi_netdev \<Rightarrow> bool" where
  "net_ready d \<longleftrightarrow> nn_dl_minimum_padding d \<le> 0xFFFF \<and>
     (\<forall>i < unat (nn_qmap_mode d). case vnd_at d i of Vnd p \<Rightarrow> nd_mtu (vp_net p) \<le> 0xFFFF | _ \<Rightarrow> False)"

lemma net_ready_vnd:
  assumes "net_ready d" and "i < unat (nn_qmap_mode d)"
  obtains p where "vnd_at d i = Vnd p" "nd_mtu (vp_net p) \<le> 0xFFFF"
proof -
  have "case vnd_at d i of Vnd p \<Rightarrow> nd_mtu (vp_net p) \<le> 0xFFFF | _ \<Rightarrow> False" using assms by (simp add: net_ready_def)
  then show thesis using that by (simp split: vnd_slot.splits)
qed

lemma net_ready_conf:
  assumes "same_conf d d'" and "net_ready d"
  shows "net_ready d'"
  unfolding net_ready_def
proof (intro conjI allI impI)
  show "nn_dl_minimum_padding d' \<le> 0xFFFF" using assms by (simp add: same_conf_def net_ready_def)
  fix i assume "i < unat (nn_qmap_mode d')"
  then have "i < unat (nn_qmap_mode d)" using assms(1) by (simp add: same_conf_def)
  with assms(2) obtain p where p: "vnd_at d i = Vnd p" "nd_mtu (vp_net p) \<le> 0xFFFF" by (rule net_ready_vnd)
  from same_conf_vnd [OF assms(1) p(1)] obtain p' where p': "vnd_at d' i = Vnd p'"
    "p'\<lparr>vp_stats := zero_stats\<rparr> = p\<lparr>vp_stats := zero_stats\<rparr>" .
  from arg_cong [OF p'(2), of vp_net] have "vp_net p' = vp_net p" by simp
  then show "case vnd_at d' i of Vnd p \<Rightarrow> nd_mtu (vp_net p) \<le> 0xFFFF | _ \<Rightarrow> False" using p' p(2) by simp
qed

subsection \<open>One round\<close>

lemma qmi_round_ready:
  assumes "net_ready (nr_dev s)"
  shows "qmi_round alloc tail s b =
    (let h = map_header b; hdr_size = map_hdr_size h; d = nr_dev s; skb_len = net_skb_len d h; mux_id = rx_mux h;
         i = unat mux_id; n = unat (mh_pkt_len h) + hdr_size; p = (case vnd_at d i of Vnd p \<Rightarrow> p)
     in if nn_qmap_mode d \<le> mux_id \<or> nd_mtu (vp_net p) < skb_len \<or> length b < n then Inl (NrDrop, s)
        else if mh_cd_bit h
        then (case rmnet_data_map_command alloc (b @ tail) s of None \<Rightarrow> Inl (NrBeyond, s) | Some s' \<Rightarrow> Inr (s', n))
        else map_sum id (\<lambda>s'. (s', n)) (qmi_deliver alloc s i p skb_len hdr_size b))"
proof (cases "nn_qmap_mode (nr_dev s) \<le> rx_mux (map_header b)")
  case False
  then have "unat (rx_mux (map_header b)) < unat (nn_qmap_mode (nr_dev s))" by (simp add: word_le_nat_alt)
  with assms obtain p where "vnd_at (nr_dev s) (unat (rx_mux (map_header b))) = Vnd p" by (rule net_ready_vnd)
  with False show ?thesis by (simp add: qmi_round_def Let_def)
qed (simp add: qmi_round_def Let_def)

lemma qmi_deliver_conf:
  assumes "vnd_at (nr_dev s) i = Vnd p"
  shows "qmi_deliver alloc s i p l hs b = Inr s' \<Longrightarrow> same_conf (nr_dev s) (nr_dev s')"
    "qmi_deliver alloc s i p l hs b = Inl (e, s') \<Longrightarrow> same_conf (nr_dev s) (nr_dev s') \<and> nr_chain s' = nr_chain s \<and> e \<noteq> NrBad"
  using upd_stats_conf [OF assms]
  by (auto simp: qmi_deliver_def Let_def same_conf_def split: if_splits)

lemma qmi_round_vnd:
  assumes "net_ready (nr_dev s)" and "\<not> nn_qmap_mode (nr_dev s) \<le> rx_mux (map_header b)"
  shows "vnd_at (nr_dev s) (unat (rx_mux (map_header b))) =
    Vnd (case vnd_at (nr_dev s) (unat (rx_mux (map_header b))) of Vnd p \<Rightarrow> p)"
  using assms net_ready_vnd [of "nr_dev s" "unat (rx_mux (map_header b))"]
  by (force simp: word_le_nat_alt)

lemma qmi_round_conf:
  assumes "net_ready (nr_dev s)"
  shows "qmi_round alloc tail s b = Inr (s', n) \<Longrightarrow> same_conf (nr_dev s) (nr_dev s')"
    "qmi_round alloc tail s b = Inl (e, s') \<Longrightarrow> same_conf (nr_dev s) (nr_dev s') \<and> nr_chain s' = nr_chain s \<and> e \<noteq> NrBad"
proof -
  note q = qmi_round_ready [OF assms, of alloc tail b, unfolded Let_def]
  show "same_conf (nr_dev s) (nr_dev s')" if "qmi_round alloc tail s b = Inr (s', n)"
    using that map_command_conf [of alloc "b @ tail" s s'] qmi_round_vnd [OF assms, of b] unfolding q
    by (auto split: if_splits option.splits simp: map_sum_def dest: qmi_deliver_conf(1) split: sum.splits)
  show "same_conf (nr_dev s) (nr_dev s') \<and> nr_chain s' = nr_chain s \<and> e \<noteq> NrBad" if "qmi_round alloc tail s b = Inl (e, s')"
    using that qmi_round_vnd [OF assms, of b] unfolding q
    by (auto split: if_splits option.splits simp: map_sum_def dest: qmi_deliver_conf(2) split: sum.splits)
qed

lemma qmi_round_progress:
  assumes "net_ready (nr_dev s)" and "4 < length b" and "qmi_round alloc tail s b = Inr (s', n)"
  shows "net_ready (nr_dev s') \<and> 0 < n \<and> n \<le> length b"
  using net_ready_conf [OF qmi_round_conf(1) [OF assms(1,3)] assms(1)] assms(3) hdr_size_cases [of "map_header b"]
  unfolding qmi_round_ready [OF assms(1)]
  by (auto simp: Let_def map_sum_def split: if_splits option.splits sum.splits)

interpretation mhi_rx: skb_walk "qmi_loop alloc tail" "qmi_round alloc tail" "\<lambda>s. (NrEnd, s)" "\<lambda>s. net_ready (nr_dev s)"
  for alloc tail
  by unfold_locales (rule qmi_loop.simps, rule qmi_round_progress)

subsection \<open>The handler returns and stays inside the aggregate\<close>

definition net_piece :: "mhi_netdev \<Rightarrow> net_pkt \<Rightarrow> bool" where
  "net_piece d p \<longleftrightarrow> np_chan p < unat (nn_qmap_mode d) \<and>
     (case vnd_at d (np_chan p) of Vnd v \<Rightarrow> length (np_data p) \<le> unat (nd_mtu (vp_net v)) | _ \<Rightarrow> False)"

definition net_taken :: "mhi_netdev \<Rightarrow> bytes \<Rightarrow> nrx \<Rightarrow> bytes \<Rightarrow> bool" where
  "net_taken d b0 s b \<longleftrightarrow> same_conf d (nr_dev s) \<and> (\<forall>p \<in> set (nr_chain s). net_piece d p) \<and>
     (\<exists>pre. b0 = pre @ b \<and> subseq (concat (map np_data (nr_chain s))) pre)"

lemma qmi_deliver_pkt:
  assumes "qmi_deliver alloc s i p l hs b = Inr s'"
  obtains np where "nr_chain s' = nr_chain s @ [np]" "np_chan np = i" "np_data np = take (unat l) (drop hs b)" "hs + unat l \<le> length b"
  using assms by (auto simp: qmi_deliver_def Let_def split: if_splits)

lemma net_taken_round:
  assumes r: "net_ready (nr_dev s)" and t: "net_taken d b0 s b" and q: "qmi_round alloc tail s b = Inr (s', n)"
  shows "net_taken d b0 s' (drop n b)"
proof -
  let ?h = "map_header b" and ?d = "nr_dev s"
  let ?i = "unat (rx_mux ?h)" and ?l = "net_skb_len ?d ?h"
  let ?p = "case vnd_at ?d ?i of Vnd p \<Rightarrow> p"
  note c = same_conf_trans [OF _ qmi_round_conf(1) [OF r q]]
  from t obtain pre where pre: "b0 = pre @ b" "subseq (concat (map np_data (nr_chain s))) pre" "same_conf d ?d"
    "\<forall>p \<in> set (nr_chain s). net_piece d p" by (auto simp: net_taken_def)
  have b: "b0 = (pre @ take n b) @ drop n b" using pre(1) by simp
  have f: "\<not> nn_qmap_mode ?d \<le> rx_mux ?h" "\<not> nd_mtu (vp_net ?p) < ?l" "\<not> length b < unat (mh_pkt_len ?h) + map_hdr_size ?h"
    "n = unat (mh_pkt_len ?h) + map_hdr_size ?h"
    and "rmnet_data_map_command alloc (b @ tail) s = Some s' \<or> qmi_deliver alloc s ?i ?p ?l (map_hdr_size ?h) b = Inr s'"
    using q unfolding qmi_round_ready [OF r] by (auto simp: Let_def map_sum_def split: if_splits option.splits sum.splits)
  then consider "rmnet_data_map_command alloc (b @ tail) s = Some s'"
    | "qmi_deliver alloc s ?i ?p ?l (map_hdr_size ?h) b = Inr s'" by blast
  then show ?thesis
  proof cases
    case 1
    then have "nr_chain s' = nr_chain s" using map_command_conf by blast
    then show ?thesis using b pre c unfolding net_taken_def by (metis list_emb_prefix)
  next
    case 2
    from qmi_deliver_pkt [OF this] obtain np where np: "nr_chain s' = nr_chain s @ [np]" "np_chan np = ?i"
      "np_data np = take (unat ?l) (drop (map_hdr_size ?h) b)" .
    have i: "?i < unat (nn_qmap_mode ?d)" using f(1) by (simp add: word_le_nat_alt)
    note vp = qmi_round_vnd [OF r f(1)]
    from i pre(3) have i': "?i < unat (nn_qmap_mode d)" by (simp add: same_conf_def)
    have "vnd_at ?d ?i = Vnd ?p" by (rule vp)
    then obtain p0 where p0: "vnd_at d ?i = Vnd p0" "vp_net p0 = vp_net ?p"
    proof -
      have "same_conf ?d d" using pre(3) by (simp add: same_conf_def)
      from same_conf_vnd [OF this vp] obtain p' where p': "vnd_at d ?i = Vnd p'"
        "p'\<lparr>vp_stats := zero_stats\<rparr> = ?p\<lparr>vp_stats := zero_stats\<rparr>" .
      from arg_cong [OF p'(2), of vp_net] show thesis using p'(1) that by simp
    qed
    have len: "unat ?l \<le> unat (nd_mtu (vp_net ?p))" using f(2) by (simp add: not_less word_le_nat_alt)
    have piece: "net_piece d np" using np i' p0 len by (simp add: net_piece_def)
    have "nd_mtu (vp_net ?p) \<le> 0xFFFF" using net_ready_vnd [OF r i] vp by (metis vnd_slot.inject)
    then have "unat ?l \<le> unat (mh_pkt_len ?h)"
      using r f(2) unfolding net_skb_len_def by (intro map_skb_len_le [of _ "nd_mtu (vp_net ?p)"]) (auto simp: net_ready_def)
    then obtain k where k: "n = map_hdr_size ?h + (unat ?l + k)" using f(4) by (metis add.assoc add.commute le_add_diff_inverse)
    have "subseq (np_data np) (take n b)" unfolding k take_add np(3)
      by (simp add: list_emb_append2 list_emb_prefix)
    then have "subseq (concat (map np_data (nr_chain s'))) (pre @ take n b)"
      using pre(2) np(1) by (simp add: list_emb_append_mono)
    moreover have "\<forall>p \<in> set (nr_chain s'). net_piece d p" using pre(4) np(1) piece by simp
    ultimately show ?thesis unfolding net_taken_def using b c [OF pre(3)] by blast
  qed
qed

lemma ack_beyond: "rmnet_data_map_command alloc mem s = None \<Longrightarrow> length mem < 20"
  by (auto simp: rmnet_data_map_command_def rmnet_map_send_ack_def Let_def case_prod_beta split: if_splits)

lemma qmi_round_beyond:
  assumes r: "net_ready (nr_dev s)" and "4 < length b" and q: "qmi_round alloc tail s b = Inl (NrBeyond, s')"
    and "15 \<le> length tail"
  shows "length b = 8 \<and> mh_next_hdr (map_header b) \<and> mh_pkt_len (map_header b) = 0"
proof -
  let ?h = "map_header b" and ?d = "nr_dev s"
  let ?i = "unat (rx_mux ?h)" and ?l = "net_skb_len ?d ?h"
  let ?p = "case vnd_at ?d ?i of Vnd p \<Rightarrow> p"
  have "\<not> length (b @ tail) < 20" using assms(2,4) by simp
  then have nc: "rmnet_data_map_command alloc (b @ tail) s \<noteq> None" using ack_beyond by metis
  have f: "\<not> nn_qmap_mode ?d \<le> rx_mux ?h" "\<not> nd_mtu (vp_net ?p) < ?l" "unat (mh_pkt_len ?h) + map_hdr_size ?h \<le> length b"
    and "qmi_deliver alloc s ?i ?p ?l (map_hdr_size ?h) b = Inl (NrBeyond, s')"
    using q nc unfolding qmi_round_ready [OF r] by (auto simp: Let_def map_sum_def split: if_splits option.splits sum.splits)
  then have c: "length b \<le> map_hdr_size ?h \<or> length b < map_hdr_size ?h + unat ?l"
    by (auto simp: qmi_deliver_def Let_def split: if_splits)
  have i: "?i < unat (nn_qmap_mode ?d)" using f(1) by (simp add: word_le_nat_alt)
  have "nd_mtu (vp_net ?p) \<le> 0xFFFF" using net_ready_vnd [OF r i] qmi_round_vnd [OF r f(1)] by (metis vnd_slot.inject)
  then have "unat ?l \<le> unat (mh_pkt_len ?h)"
    using r f(2) unfolding net_skb_len_def by (intro map_skb_len_le [of _ "nd_mtu (vp_net ?p)"]) (auto simp: net_ready_def)
  then have l: "length b \<le> map_hdr_size ?h" using c f(3) by linarith
  then show ?thesis using assms(2) f(3) hdr_size_cases [of ?h] by (auto simp: word_unat_eq_iff)
qed

text \<open>
  (C14) Whatever the modem sends and whichever allocations fail, the handler returns when each channel of the mode
  has a device: the packets it delivers lie in the aggregate one behind the other, each on a channel of the mode
  and within its MTU, and the devices keep their settings. With 15 bytes of memory behind the data it reads behind
  the buffer in one case only, the byte after a long header of an empty packet that ends the aggregate.
\<close>

theorem rmnet_qmi_rx_safe:
  assumes "net_ready d"
  shows "\<exists>e s. rmnet_qmi_rx_handler alloc d skb = Some (e, s) \<and> e \<noteq> NrBad \<and> same_conf d (nr_dev s) \<and>
    subseq (concat (map np_data (nr_chain s))) (sk_data skb) \<and>
    (\<forall>p \<in> set (nr_chain s). net_piece d p) \<and>
    (e = NrBeyond \<longrightarrow> 15 \<le> length (sk_tail skb) \<longrightarrow> rx_short (sk_data skb))"
proof -
  let ?b = "sk_data skb" and ?s = "\<lparr>nr_dev = d, nr_acks = [], nr_allocs = 0, nr_chain = []\<rparr>"
  let ?Q = "\<lambda>r. net_taken d ?b (snd r) [] \<and> fst r \<noteq> NrBad \<and> (fst r = NrBeyond \<longrightarrow> 15 \<le> length (sk_tail skb) \<longrightarrow> rx_short ?b)"
  have cut: "net_taken d ?b s []" if "net_taken d ?b s b" for s b
    using that unfolding net_taken_def by (metis append.right_neutral list_emb_prefix)
  have "\<exists>r. qmi_loop alloc (sk_tail skb) ?s ?b = Some r \<and> ?Q r"
  proof (rule mhi_rx.walk_invariant [where P = "net_taken d ?b"])
    show "net_taken d ?b ?s ?b" by (simp add: net_taken_def)
  next
    fix s b assume "net_taken d ?b s b"
    then show "?Q (NrEnd, s)" using cut by simp
  next
    fix s b r assume r: "net_ready (nr_dev s)" and t: "net_taken d ?b s b" and l: "4 < length b"
      and q: "qmi_round alloc (sk_tail skb) s b = Inl r"
    obtain e s' where e: "r = (e, s')" by (cases r)
    note c = qmi_round_conf(2) [OF r q [unfolded e]]
    have "net_taken d ?b s' b" using t c same_conf_trans by (auto simp: net_taken_def)
    then have "net_taken d ?b s' []" by (rule cut)
    moreover have "rx_short ?b" if "e = NrBeyond" "15 \<le> length (sk_tail skb)"
      using qmi_round_beyond [OF r l q [unfolded e that(1)] that(2)] t unfolding rx_short_def net_taken_def by blast
    ultimately show "?Q r" using e c by simp
  qed (use assms net_taken_round in auto)
  then obtain e s where "qmi_loop alloc (sk_tail skb) ?s ?b = Some (e, s)" "?Q (e, s)" by auto
  then show ?thesis by (auto simp: rmnet_qmi_rx_handler_def net_taken_def)
qed

lemma mux_u8:
  fixes x :: u8
  assumes a: "unat (ucast x - 0x81 :: u32) < 127"
  shows "uint (x - 0x81) = uint (ucast x - 0x81 :: u32)"
proof -
  have x: "uint x < 256" "0 \<le> uint x" using uint_lt2p [of x] by simp_all
  have m: "uint (ucast x - 0x81 :: u32) = (uint x - 0x81) mod 4294967296"
    by (simp add: uint_word_ariths uint_ucast_up)
  have "uint (ucast x - 0x81 :: u32) < 127" using a unfolding unat_eq_nat_uint by linarith
  moreover have "(uint x - 0x81) mod 4294967296 = uint x - 0x81 + 4294967296" if "uint x < 0x81"
    using that x by (subst mod_add_self2 [symmetric], intro mod_pos_pos_trivial) simp_all
  ultimately have "0x81 \<le> uint x" using m x(2) by linarith
  then show ?thesis using m x by (simp add: uint_word_ariths)
qed

lemma rx_mux_u8:
  assumes "unat (rx_mux (map_header b)) < 127"
  shows "ucast (b ! 1 - QUECTEL_QMAP_MUX_ID) = rx_mux (map_header b) \<and>
    unat (b ! 1 - QUECTEL_QMAP_MUX_ID) = unat (rx_mux (map_header b))"
proof -
  have r: "rx_mux (map_header b) = ucast (b ! 1) - 0x81"
    by (simp add: rx_mux_def map_header_def QUECTEL_QMAP_MUX_ID_def)
  note u = mux_u8 [OF assms [unfolded r]]
  have "ucast (b ! 1 - QUECTEL_QMAP_MUX_ID) = rx_mux (map_header b)"
    unfolding r QUECTEL_QMAP_MUX_ID_def using u by (simp only: word_uint_eq_iff uint_ucast_up)
  moreover have "unat (b ! 1 - QUECTEL_QMAP_MUX_ID) = unat (rx_mux (map_header b))"
    unfolding r QUECTEL_QMAP_MUX_ID_def using u by (simp only: unat_eq_nat_uint)
  ultimately show ?thesis ..
qed


subsection \<open>Flow control\<close>

lemma bit_push_one: "i < 32 \<Longrightarrow> bit (push_bit i 1 :: u32) j \<longleftrightarrow> j = i"
  by (simp add: bit_exp_iff possible_bit_word) auto

text \<open>
  (C25) A flow control command of the modem for channel \<open>i\<close>, alone in an aggregate: exactly the bit of this channel in
  \<^verbatim>\<open>flow_control\<close> is set or cleared, the command is counted, no packet is delivered, and the answer is the header and
  the command as received with the command type set to an acknowledgement.
\<close>

theorem rmnet_map_flow_control:
  assumes r: "net_ready d" and i: "rx_mux (map_header b) < nn_qmap_mode d" "nn_qmap_mode d \<le> 8"
    and v: "vnd_at d (unat (rx_mux (map_header b))) = Vnd p" "net_skb_len d (map_header b) \<le> nd_mtu (vp_net p)"
    and h: "mh_cd_bit (map_header b)" "length b = unat (mh_pkt_len (map_header b)) + map_hdr_size (map_header b)"
    and k: "b ! 4 = 1 \<or> b ! 4 = 2" and m: "4 < length b" "20 \<le> length (b @ sk_tail skb)" "sk_data skb = b"
  shows "\<exists>fc ack. (\<forall>j < 32. bit fc j = (if j = unat (rx_mux (map_header b)) then b ! 4 = 2 else bit (nn_flow_control d) j)) \<and>
    length ack = 20 \<and> ack ! 5 AND 3 = 1 \<and> (\<forall>j < 20. j \<noteq> 5 \<longrightarrow> ack ! j = (b @ sk_tail skb) ! j) \<and>
    rmnet_qmi_rx_handler (\<lambda>k. True) d skb =
      Some (NrEnd, \<lparr>nr_dev = d\<lparr>nn_flow_control := fc,
                      nn_command_stats := (nn_command_stats d)[unat (b ! 4) := nn_command_stats d ! unat (b ! 4) + 1]\<rparr>,
                    nr_acks = [ack], nr_allocs = 1, nr_chain = []\<rparr>)"
proof -
  let ?h = "map_header b" and ?mem = "b @ sk_tail skb" and ?s = "\<lparr>nr_dev = d, nr_acks = [], nr_allocs = 0, nr_chain = []\<rparr>"
  let ?i = "unat (rx_mux ?h)" and ?one = "push_bit (unat (rx_mux ?h)) 1 :: u32"
  define fc where "fc = (if b ! 4 = 2 then nn_flow_control d OR ?one else nn_flow_control d AND NOT ?one)"
  define d' where "d' = d\<lparr>nn_flow_control := fc,
    nn_command_stats := (nn_command_stats d)[unat (b ! 4) := nn_command_stats d ! unat (b ! 4) + 1]\<rparr>"
  have i8: "?i < 8" "?i < 32" using i by (simp_all add: word_le_nat_alt word_less_nat_alt)
  have mux: "unat (b ! 1 - QUECTEL_QMAP_MUX_ID) = ?i" "ucast (b ! 1 - QUECTEL_QMAP_MUX_ID) = rx_mux ?h"
    using rx_mux_u8 [of b] i8 by simp_all
  have cmd: "rmnet_data_map_command (\<lambda>k. True) ?mem ?s =
      Some (?s\<lparr>nr_dev := d', nr_acks := [map_ack 1 ?mem], nr_allocs := 1\<rparr>)"
    using k m i v(1) mux
    by (auto simp: rmnet_data_map_command_def rmnet_map_do_flow_control_def rmnet_map_send_ack_def map_command_defs Let_def
        nth_append count_command_def vnd_at_def d'_def fc_def not_le)
  have "qmi_round (\<lambda>k. True) (sk_tail skb) ?s b = Inr (?s\<lparr>nr_dev := d', nr_acks := [map_ack 1 ?mem], nr_allocs := 1\<rparr>, length b)"
    using i v h cmd by (simp add: qmi_round_def Let_def not_le not_less)
  then have run: "rmnet_qmi_rx_handler (\<lambda>k. True) d skb = Some (NrEnd, ?s\<lparr>nr_dev := d', nr_acks := [map_ack 1 ?mem], nr_allocs := 1\<rparr>)"
    using m by (simp add: rmnet_qmi_rx_handler_def qmi_loop.simps rx_pull_def)
  have bits: "bit fc j = (if j = ?i then b ! 4 = 2 else bit (nn_flow_control d) j)" if "j < 32" for j
    using that bit_push_one [OF i8(2), of j]
    by (cases "j = ?i") (simp_all add: fc_def bit_or_iff bit_and_iff bit_not_iff del: push_bit_of_1)
  have "map_ack 1 ?mem ! 5 AND 3 = 1"
  proof -
    have "(((w AND 0xFC) OR 1) AND 3 :: u8) = 1" for w
      by (simp add: bit.conj_disj_distrib2 and.assoc)
    then show ?thesis using m by (simp add: map_ack_def)
  qed
  moreover have "map_ack 1 ?mem ! j = ?mem ! j" if "j < 20" "j \<noteq> 5" for j using that m by (simp add: map_ack_def del: take_append)
  moreover have "length (map_ack 1 ?mem) = 20" using m by (simp add: map_ack_def)
  ultimately show ?thesis using run bits unfolding d'_def by (intro exI [of _ fc] exI [of _ "map_ack 1 ?mem"]) simp
qed

subsection \<open>Agreement with the USB driver\<close>

text \<open>The two drivers have the same channels: mode, version and padding, and per channel the device and its bridge.\<close>

definition slot_match :: "qmap_slot \<Rightarrow> vnd_slot \<Rightarrow> bool" where
  "slot_match s v =
     (case s of
        QmapNet p \<Rightarrow> (case v of
           Vnd v \<Rightarrow> nd_mtu (qp_net p) = nd_mtu (vp_net v) \<and> nd_ether (qp_net p) = nd_ether (vp_net v) \<and>
                    nd_addr (qp_net p) = nd_addr (vp_net v) \<and> qp_bridge_mode p = vp_bridge_mode v \<and>
                    qp_bridge_mac p = vp_bridge_mac v
         | _ \<Rightarrow> False)
      | _ \<Rightarrow> False)"

definition dev_match :: "sQmiWwanQmap \<Rightarrow> mhi_netdev \<Rightarrow> bool" where
  "dev_match q d \<longleftrightarrow> rx_ready q \<and> q_use_rmnet_usb q \<and> q_qmap_mode q = nn_qmap_mode d \<and>
     q_qmap_version q = nn_qmap_version d \<and> q_dl_minimum_padding q = nn_dl_minimum_padding d \<and>
     (\<forall>i < unat (nn_qmap_mode d). slot_match (slot_at q i) (vnd_at d i))"

definition pkt_match :: "rx_pkt \<Rightarrow> net_pkt \<Rightarrow> bool" where
  "pkt_match p n \<longleftrightarrow> rx_chan p = np_chan n \<and> rx_data p = np_mac n @ np_data n \<and> rx_protocol p = np_protocol n"

definition end_match :: "rx_end \<Rightarrow> net_end \<Rightarrow> bool" where
  "end_match e n \<longleftrightarrow> (e, n) \<in> {(RxEnd, NrEnd), (RxDrop, NrDrop), (RxOver, NrBeyond)}"

definition result_match :: "rx_end \<times> rx_pkt list \<Rightarrow> net_end \<times> nrx \<Rightarrow> bool" where
  "result_match x y \<longleftrightarrow> end_match (fst x) (fst y) \<and> list_all2 pkt_match (snd x) (nr_chain (snd y))"

definition rx_match :: "sQmiWwanQmap \<Rightarrow> bytes \<Rightarrow> rx_pkt list \<Rightarrow> nrx \<Rightarrow> bool" where
  "rx_match q tail chain s \<longleftrightarrow> 15 \<le> length tail \<and> dev_match q (nr_dev s) \<and> list_all2 pkt_match chain (nr_chain s)"

lemma slot_match_Vnd:
  assumes "dev_match q d" and "i < unat (nn_qmap_mode d)"
  obtains p v where "slot_at q i = QmapNet p" "vnd_at d i = Vnd v" "slot_match (QmapNet p) (Vnd v)"
proof -
  have "slot_match (slot_at q i) (vnd_at d i)" using assms by (simp add: dev_match_def)
  then show thesis using that by (auto simp: slot_match_def split: qmap_slot.splits vnd_slot.splits)
qed

lemma dev_match_ready: "dev_match q d \<Longrightarrow> net_ready d"
  unfolding net_ready_def
proof (intro conjI allI impI)
  assume m: "dev_match q d"
  then show "nn_dl_minimum_padding d \<le> 0xFFFF" unfolding dev_match_def rx_ready_def by metis
  fix i assume i: "i < unat (nn_qmap_mode d)"
  from slot_match_Vnd [OF m i] obtain p v where pv: "slot_at q i = QmapNet p" "vnd_at d i = Vnd v" "slot_match (QmapNet p) (Vnd v)" .
  have "nd_mtu (slot_net q (slot_at q i)) \<le> 0xFFFF" using m i unfolding dev_match_def rx_ready_def by metis
  then show "case vnd_at d i of Vnd p \<Rightarrow> nd_mtu (vp_net p) \<le> 0xFFFF | _ \<Rightarrow> False"
    using pv by (simp add: slot_net_def slot_match_def)
qed

lemma dev_match_conf:
  assumes "dev_match q d" and "same_conf d d'"
  shows "dev_match q d'"
proof -
  have "slot_match (slot_at q i) (vnd_at d' i)" if "i < unat (nn_qmap_mode d)" for i
  proof -
    from slot_match_Vnd [OF assms(1) that] obtain p v where
      pv: "slot_at q i = QmapNet p" "vnd_at d i = Vnd v" "slot_match (QmapNet p) (Vnd v)" .
    from same_conf_vnd [OF assms(2) pv(2)] obtain v' where v': "vnd_at d' i = Vnd v'"
      "v'\<lparr>vp_stats := zero_stats\<rparr> = v\<lparr>vp_stats := zero_stats\<rparr>" .
    from arg_cong [OF v'(2), of vp_net] arg_cong [OF v'(2), of vp_bridge_mode] arg_cong [OF v'(2), of vp_bridge_mac]
    show ?thesis using pv v'(1) by (simp add: slot_match_def)
  qed
  then show ?thesis using assms by (simp add: dev_match_def same_conf_def)
qed

lemma mac_match:
  assumes "slot_match (QmapNet p) (Vnd v)" and "q_use_rmnet_usb q" and "0 < nn_qmap_mode d"
  shows "(if nd_ether (slot_net q (QmapNet p)) then eth_header (bridge_mode_rx_fixup q (QmapNet p)) default_modem_addr pr else []) =
    net_mac_header d v pr"
  using assms
  by (simp add: net_mac_header_def bridge_mode_rx_fixup_def net_bridge_rx_fixup_def slot_match_def slot_net_def)

lemma round_match:
  assumes m: "rx_match q tail chain s" and l: "4 < length b"
  shows "rel_sum result_match (\<lambda>x y. rx_match q tail (fst x) (fst y) \<and> snd x = snd y)
    (decode_round q (\<lambda>k. True) chain b) (qmi_round (\<lambda>k. True) tail s b)"
proof -
  let ?h = "map_header b" and ?d = "nr_dev s"
  let ?i = "unat (rx_mux ?h)"
  have dm: "dev_match q ?d" and ch: "list_all2 pkt_match chain (nr_chain s)" and tl: "15 \<le> length tail"
    using m by (simp_all add: rx_match_def)
  have e: "q_qmap_mode q = nn_qmap_mode ?d" "rx_skb_len q ?h = net_skb_len ?d ?h" "q_use_rmnet_usb q"
    using dm by (simp_all add: dev_match_def rx_skb_len_def net_skb_len_def)
  show ?thesis
  proof (cases "nn_qmap_mode ?d \<le> rx_mux ?h")
    case True
    then show ?thesis using e ch by (simp add: decode_round_def decode_one_def qmi_round_def Let_def result_match_def end_match_def)
  next
    case False
    then have "?i < unat (nn_qmap_mode ?d)" and pos: "0 < nn_qmap_mode ?d"
      by (auto simp: word_le_nat_alt word_gt_0)
    from slot_match_Vnd [OF dm this(1)] obtain p v where
      pv: "slot_at q ?i = QmapNet p" "vnd_at ?d ?i = Vnd v" "slot_match (QmapNet p) (Vnd v)" .
    then have mtu: "nd_mtu (qp_net p) = nd_mtu (vp_net v)" by (simp add: slot_match_def)
    note mac = mac_match [OF pv(3) e(3) pos, unfolded slot_net_def, simplified]
    note conf = dev_match_conf [OF dm]
    obtain s' where cmd: "rmnet_data_map_command (\<lambda>k. True) (b @ tail) s = Some s'"
      using ack_beyond [of "\<lambda>k. True" "b @ tail" s] l tl by fastforce
    note cs = map_command_conf [OF cmd] and us = upd_stats_conf [OF pv(2)]
    have c1: "rx_match q tail chain s'" using cs conf m by (auto simp: rx_match_def)
    have c2: "dev_match q (vnd_put ?i (rmnet_vnd_upate_rx_stats 1 k v) ?d)" for k using us conf by blast
    show ?thesis using False e pv(1,2) mtu mac cmd c1 c2 ch tl
      by (auto simp: decode_round_def decode_one_def qmi_round_def qmi_deliver_def Let_def result_match_def end_match_def
          slot_net_def rx_match_def pkt_match_def list_all2_appendI)
  qed
qed

interpretation usb_mhi: skb_walk_pair "decode_loop q (\<lambda>k. True)" "decode_round q (\<lambda>k. True)" "\<lambda>chain. (RxEnd, chain)"
  "\<lambda>chain. rx_ready q" "qmi_loop (\<lambda>k. True) tail" "qmi_round (\<lambda>k. True) tail" "\<lambda>s. (NrEnd, s)" "\<lambda>s. net_ready (nr_dev s)"
  "rx_match q tail" result_match
  for q tail
  by unfold_locales (simp_all add: round_match, simp_all add: result_match_def end_match_def rx_match_def dev_match_def)

text \<open>
  (C11) The two drivers agree: on the same aggregate and with the same channels, the MHI driver delivers the packets
  the USB driver delivers, in the same order, on the same channels, with the same headers and contents, and both
  give up at the same place; the commands, which the USB driver skips, change nothing of this.
\<close>

theorem rmnet_rx_agree:
  assumes "dev_match q d" and "15 \<le> length (sk_tail skb)"
  shows "\<exists>x y. qmap_packet_decode q (\<lambda>k. True) (sk_data skb) = Some x \<and>
    rmnet_qmi_rx_handler (\<lambda>k. True) d skb = Some y \<and> end_match (fst x) (fst y) \<and>
    list_all2 pkt_match (snd x) (nr_chain (snd y))"
proof -
  have "rx_match q (sk_tail skb) [] \<lparr>nr_dev = d, nr_acks = [], nr_allocs = 0, nr_chain = []\<rparr>"
    using assms by (simp add: rx_match_def)
  from usb_mhi.walks_agree [OF this, of "sk_data skb"] show ?thesis
    unfolding qmap_packet_decode_def rmnet_qmi_rx_handler_def result_match_def by blast
qed

end
