(* ===== verification/Net_Mbim.thy ===== *)
theory Net_Mbim
  imports Net_Rx
begin

text \<open>
  MBIM over MHI (\<^verbatim>\<open>pcie_mhi/src/devices/mhi_netdev_quectel.c\<close>): \<^verbatim>\<open>add_mbim_hdr\<close>, which puts one packet into a transfer
  block, \<^verbatim>\<open>rmnet_mbim_rx_handler\<close>, which takes the packets out of a block, and \<^verbatim>\<open>rmnet_rx_handler\<close>, which chooses
  between it and the QMAP handler and keeps the buffer for the next transfer. The lemmas show that a packet comes
  back out of its block, that the handler stays inside the block and returns when the table of the block does not
  lead back to itself, and that it does not return when it does.

  The processor is little-endian, as the driver assumes (\<^verbatim>\<open>wNdpIndex\<close> is read and the datagram entries are written
  without conversion). \<open>qmap_mode\<close> is the module parameter. The memory a handler can read is the data and what lies
  behind them in the buffer; the outcomes are those of the QMAP handler.
\<close>

subsection \<open>Transfer blocks\<close>

definition le16_bytes :: "u16 \<Rightarrow> bytes" where
  "le16_bytes w = [ucast w, ucast (drop_bit 8 w)]"

definition rd16 :: "bytes \<Rightarrow> nat \<Rightarrow> u16" where
  "rd16 b i = ucast (b ! i) OR push_bit 8 (ucast (b ! (i + 1)))"

definition nth16_sign :: bytes where "nth16_sign = [0x4E, 0x43, 0x4D, 0x48]"
definition ips_sign :: bytes where "ips_sign = [0x49, 0x50, 0x53]"
definition dss_sign :: bytes where "dss_sign = [0x44, 0x53, 0x53]"

text \<open>
  The header leaves \<^verbatim>\<open>wSequence\<close> as it is in the headroom, \<open>old\<close>: \<^verbatim>\<open>mhi_netdev_xmit\<close> writes it. The lengths are cut to
  16 bits and the session to 8.
\<close>

definition mbim_hdr :: "bytes \<Rightarrow> u8 \<Rightarrow> nat \<Rightarrow> bytes" where
  "mbim_hdr old tci skb_len =
     nth16_sign @ le16_bytes 12 @ take 2 (drop 6 old) @ le16_bytes (word_of_nat (skb_len + 28)) @ le16_bytes 12 @
     ips_sign @ [tci] @ le16_bytes 16 @ le16_bytes 0 @
     le16_bytes 28 @ le16_bytes (word_of_nat skb_len) @ le16_bytes 0 @ le16_bytes 0"

definition add_mbim_hdr :: "u32 \<Rightarrow> sk_buff \<Rightarrow> u8 \<Rightarrow> sk_buff option" where
  "add_mbim_hdr qmap_mode skb mux_id =
     (let tci = (ucast mux_id :: u16) + (if 1 < qmap_mode then 1 else 0)
      in if length (sk_head skb) < sizeof_mbim_hdr then None
         else skb_push_data (mbim_hdr (drop (length (sk_head skb) - sizeof_mbim_hdr) (sk_head skb)) (ucast tci)
                               (length (sk_data skb))) skb)"

definition mbim_set_seq :: "u16 \<Rightarrow> bytes \<Rightarrow> bytes" where
  "mbim_set_seq s b = b[6 := ucast s, 7 := ucast (drop_bit 8 s)]"

subsection \<open>Taking packets out of a block\<close>

text \<open>One datagram that passed the checks of its entry.\<close>

definition mbim_deliver ::
  "(nat \<Rightarrow> bool) \<Rightarrow> nat \<Rightarrow> bytes \<Rightarrow> nat \<Rightarrow> nat \<Rightarrow> nrx \<Rightarrow> (net_end \<times> nrx) + nrx" where
  "mbim_deliver alloc i b offset skb_len s =
     (let d = nr_dev s; s1 = s\<lparr>nr_allocs := Suc (nr_allocs s)\<rparr>;
          nib = (b ! offset) AND 0xF0; protocol = if nib = 0x40 then ETH_P_IP else ETH_P_IPV6
      in if \<not> alloc (nr_allocs s) then Inl (NrDrop, s1\<lparr>nr_dev := d\<lparr>nn_alloc_failed := nn_alloc_failed d + 1\<rparr>\<rparr>)
         else if nib \<noteq> 0x40 \<and> nib \<noteq> 0x60 then Inl (NrDrop, s1)
         else case vnd_at d i of
                Vnd p \<Rightarrow> Inr (s1\<lparr>nr_dev := vnd_put i (rmnet_vnd_upate_rx_stats 1 (word_of_nat skb_len) p) d,
                                 nr_chain := nr_chain s @
                                   [\<lparr>np_chan = i, np_mac = net_mac_header d p protocol,
                                     np_data = take skb_len (drop offset b), np_protocol = protocol\<rparr>]\<rparr>)
              | _ \<Rightarrow> Inl (NrBad, s1))"

text \<open>The loop over the entries of a table; \<open>at\<close> is where the next one lies, \<open>k\<close> how many there are.\<close>

fun mbim_frames ::
  "(nat \<Rightarrow> bool) \<Rightarrow> nat \<Rightarrow> bytes \<Rightarrow> bytes \<Rightarrow> nat \<Rightarrow> nat \<Rightarrow> nrx \<Rightarrow> (net_end \<times> nrx) + nrx" where
  "mbim_frames alloc i b mem at 0 s = Inr s"
| "mbim_frames alloc i b mem at (Suc k) s =
     (if length mem < at + 4 then Inl (NrBeyond, s)
      else (let offset = unat (rd16 mem at); skb_len = unat (rd16 mem (at + 2))
            in if offset = 0 \<or> skb_len = 0 then Inr s
               else if length b < offset + skb_len \<or> unat (mb_rx_max (nn_mbim_ctx (nr_dev s))) < skb_len then Inl (NrDrop, s)
               else case mbim_deliver alloc i b offset skb_len s of
                      Inl r \<Rightarrow> Inl r
                    | Inr s' \<Rightarrow> mbim_frames alloc i b mem (at + 4) k s'))"

text \<open>The session a table is for, from its signature; \<open>None\<close> for another signature.\<close>

definition ndp_tci :: "bytes \<Rightarrow> nat \<Rightarrow> u16 option" where
  "ndp_tci b o' =
     (let sig = take 3 (drop o' b); c3 = ucast (b ! (o' + 3))
      in if sig = ips_sign then Some c3 else if sig = dss_sign then Some (c3 + 256) else None)"

definition mbim_slot :: "u32 \<Rightarrow> u32 \<Rightarrow> u16 \<Rightarrow> u32 option" where
  "mbim_slot qmap_mode mux tci =
     (if qmap_mode = 1 \<and> ucast tci \<noteq> mux \<or> 1 < qmap_mode \<and> qmap_mode < ucast tci - mux then None
      else Some (if qmap_mode = 1 then 0 else ucast tci - 1 - mux))"

text \<open>One table. A channel number outside of the array of devices is \<open>NrBad\<close>.\<close>

definition mbim_ndp ::
  "u32 \<Rightarrow> (nat \<Rightarrow> bool) \<Rightarrow> bytes \<Rightarrow> bytes \<Rightarrow> nrx \<Rightarrow> nat \<Rightarrow> (net_end \<times> nrx) + (nrx \<times> nat)" where
  "mbim_ndp qmap_mode alloc b tail s ndpoffset =
     (if length b < ndpoffset + 8 then Inl (NrDrop, s)
      else (let wLength = unat (rd16 b (ndpoffset + 4)); nframes = (wLength - 8) div 4
            in if wLength < 0x10 then Inl (NrDrop, s)
               else if length b < 8 + nframes * 4 then Inl (NrDrop, s)
               else case ndp_tci b ndpoffset of
                      None \<Rightarrow> Inl (NrDrop, s)
                    | Some tci \<Rightarrow>
                        (case mbim_slot qmap_mode (nn_mbim_mux_id (nr_dev s)) tci of
                           None \<Rightarrow> Inl (NrDrop, s)
                         | Some i \<Rightarrow>
                             if length (nn_nets (nr_dev s)) \<le> unat i then Inl (NrBad, s)
                             else (case mbim_frames alloc (unat i) b (b @ tail) (ndpoffset + 8) nframes s of
                                     Inl r \<Rightarrow> Inl r
                                   | Inr s' \<Rightarrow> Inr (s', unat (rd16 b (ndpoffset + 6)))))))"

partial_function (option) mbim_ndp_loop ::
  "u32 \<Rightarrow> (nat \<Rightarrow> bool) \<Rightarrow> bytes \<Rightarrow> bytes \<Rightarrow> nrx \<Rightarrow> nat \<Rightarrow> (net_end \<times> nrx) option" where
  "mbim_ndp_loop qmap_mode alloc b tail s ndpoffset =
     (if ndpoffset = 0 then Some (NrEnd, s)
      else case mbim_ndp qmap_mode alloc b tail s ndpoffset of
             Inl r \<Rightarrow> Some r
           | Inr cn \<Rightarrow> mbim_ndp_loop qmap_mode alloc b tail (fst cn) (snd cn))"

declare mbim_ndp_loop.simps [code]

definition set_rx_seq :: "u16 \<Rightarrow> mhi_netdev \<Rightarrow> mhi_netdev" where
  "set_rx_seq q d = d\<lparr>nn_mbim_ctx := (nn_mbim_ctx d)\<lparr>mb_rx_seq := q\<rparr>\<rparr>"

definition rmnet_mbim_rx_handler ::
  "u32 \<Rightarrow> (nat \<Rightarrow> bool) \<Rightarrow> mhi_netdev \<Rightarrow> sk_buff \<Rightarrow> (net_end \<times> nrx) option" where
  "rmnet_mbim_rx_handler qmap_mode alloc d skb_in =
     (let b = sk_data skb_in; s = \<lparr>nr_dev = d, nr_acks = [], nr_allocs = 0, nr_chain = []\<rparr>
      in if length b < 12 + 8 then Some (NrDrop, s)
         else if take 4 b \<noteq> nth16_sign then Some (NrDrop, s)
         else if mb_rx_max (nn_mbim_ctx d) < ucast (rd16 b 8) then Some (NrDrop, s)
         else mbim_ndp_loop qmap_mode alloc b (sk_tail skb_in) (s\<lparr>nr_dev := set_rx_seq (rd16 b 6 + 1) d\<rparr>) (unat (rd16 b 10)))"

subsection \<open>The receive handler\<close>

text \<open>
  \<open>cloned\<close>: whether someone else holds the buffer. The buffer at address \<open>addr\<close> is kept, emptied, as one of at most
  128; the result says whether it is freed instead. A loop-back packet or one with another protocol is passed on.
\<close>

definition rmnet_rx_handler ::
  "u32 \<Rightarrow> (nat \<Rightarrow> bool) \<Rightarrow> bool \<Rightarrow> bool \<Rightarrow> u64 \<Rightarrow> mhi_netdev \<Rightarrow> sk_buff \<Rightarrow> (net_end \<times> nrx \<times> bool) option option" where
  "rmnet_rx_handler qmap_mode alloc loopback cloned addr d skb =
     (if loopback \<or> sk_protocol skb \<noteq> ETH_P_MAP then Some None
      else Option.bind (if nn_net_type d = MHI_NET_MBIM then rmnet_mbim_rx_handler qmap_mode alloc d skb
                        else rmnet_qmi_rx_handler alloc d skb)
        (\<lambda>(e, s). if \<not> cloned \<and> length (nn_rx_allocated (nr_dev s)) < 128
                  then Some (Some (e, s\<lparr>nr_dev := (nr_dev s)\<lparr>nn_rx_allocated := nn_rx_allocated (nr_dev s) @ [addr]\<rparr>\<rparr>, False))
                  else Some (Some (e, s, True))))"

subsection \<open>Reading what was written\<close>

lemma rd16_le16 [simp]: "(ucast (ucast w :: u8) :: u16) OR push_bit 8 (ucast (ucast (drop_bit 8 w) :: u8)) = w"
  by (rule bit_word_eqI) (auto simp: bit_or_iff bit_push_bit_iff bit_unsigned_iff bit_drop_bit_eq)

lemma length_2: "length xs = 2 \<Longrightarrow> \<exists>x y. xs = [x, y]"
  by (auto simp: numeral_2_eq_2 length_Suc_conv)

lemma mbim_hdr_bytes:
  assumes "length old = 28"
  shows "mbim_set_seq q (mbim_hdr old tci n @ pl) =
    [0x4E, 0x43, 0x4D, 0x48, 12, 0, ucast q, ucast (drop_bit 8 q), ucast (word_of_nat (n + 28) :: u16),
     ucast (drop_bit 8 (word_of_nat (n + 28) :: u16)), 12, 0, 0x49, 0x50, 0x53, tci, 16, 0, 0, 0, 28, 0,
     ucast (word_of_nat n :: u16), ucast (drop_bit 8 (word_of_nat n :: u16)), 0, 0, 0, 0] @ pl"
proof -
  have "length (take 2 (drop 6 old)) = 2" using assms by simp
  from length_2 [OF this] obtain x y where "take 2 (drop 6 old) = [x, y]" by blast
  then show ?thesis
    by (simp add: mbim_set_seq_def mbim_hdr_def nth16_sign_def ips_sign_def le16_bytes_def del: of_nat_add)
qed

lemma add_mbim_hdr_data:
  assumes "add_mbim_hdr qm skb mux = Some skb1"
  shows "mbim_set_seq q (sk_data skb1) =
    [0x4E, 0x43, 0x4D, 0x48, 12, 0, ucast q, ucast (drop_bit 8 q), ucast (word_of_nat (length (sk_data skb) + 28) :: u16),
     ucast (drop_bit 8 (word_of_nat (length (sk_data skb) + 28) :: u16)), 12, 0, 0x49, 0x50, 0x53,
     ucast ((ucast mux :: u16) + (if 1 < qm then 1 else 0)), 16, 0, 0, 0, 28, 0,
     ucast (word_of_nat (length (sk_data skb)) :: u16), ucast (drop_bit 8 (word_of_nat (length (sk_data skb)) :: u16)),
     0, 0, 0, 0] @ sk_data skb"
proof -
  have l: "28 \<le> length (sk_head skb)" and
    "sk_data skb1 = mbim_hdr (drop (length (sk_head skb) - 28) (sk_head skb))
       (ucast ((ucast mux :: u16) + (if 1 < qm then 1 else 0))) (length (sk_data skb)) @ sk_data skb"
    using assms by (auto simp: add_mbim_hdr_def skb_push_data_def sizeof_mbim_hdr_def Let_def split: if_splits)
  then show ?thesis using mbim_hdr_bytes by (simp del: of_nat_add)
qed

lemma mbim_session:
  fixes base :: u32 and i :: nat
  assumes "base = 0 \<or> base = 112" and "i < 8" and "qm = 1 \<and> i = 0 \<or> 1 < qm \<and> i < unat qm"
  defines "mux \<equiv> ucast base + word_of_nat i :: u8"
  shows "mbim_slot qm base (ucast (ucast ((ucast mux :: u16) + (if 1 < qm then 1 else 0)) :: u8)) = Some (word_of_nat i)"
proof -
  have i: "i = 0 \<or> i = 1 \<or> i = 2 \<or> i = 3 \<or> i = 4 \<or> i = 5 \<or> i = 6 \<or> i = 7" using assms(2) by linarith
  have "(word_of_nat i :: u32) + 1 \<le> qm" if "1 < qm"
    using i that assms(3) by (auto simp: word_le_nat_alt word_less_nat_alt)
  then show ?thesis using assms(1,3) i unfolding mux_def
    by (auto simp: mbim_slot_def not_less dest: leD)
qed

text \<open>
  (C12) MBIM round trip: a packet the driver puts into a block for channel \<open>i\<close>, with any sequence number, is what
  the receive handler takes out of the block: one packet, on that channel, with the same bytes and the protocol of
  its first byte, and the sequence number expected next is one higher.
\<close>

theorem mbim_roundtrip:
  assumes "add_mbim_hdr qm skb (ucast (nn_mbim_mux_id d) + word_of_nat i) = Some skb1"
    and "nn_mbim_mux_id d = 0 \<or> nn_mbim_mux_id d = 112" and "qm = 1 \<and> i = 0 \<or> 1 < qm \<and> i < unat qm"
    and "vnd_at d i = Vnd p" and "length (nn_nets d) = 8"
    and "pl = sk_data skb" and "pl \<noteq> []" and "(pl ! 0) AND 0xF0 = 0x40 \<or> (pl ! 0) AND 0xF0 = 0x60"
    and "length pl + 28 < 2 ^ 16" and "length pl + 28 \<le> unat (mb_rx_max (nn_mbim_ctx d))"
    and "sk_data skb2 = mbim_set_seq q (sk_data skb1)"
  shows "rmnet_mbim_rx_handler qm (\<lambda>k. True) d skb2 =
    Some (NrEnd, \<lparr>nr_dev = vnd_put i (rmnet_vnd_upate_rx_stats 1 (word_of_nat (length pl)) p) (set_rx_seq (q + 1) d),
      nr_acks = [], nr_allocs = 1,
      nr_chain = (let pr = if (pl ! 0) AND 0xF0 = 0x40 then ETH_P_IP else ETH_P_IPV6
                  in [\<lparr>np_chan = i, np_mac = net_mac_header (set_rx_seq (q + 1) d) p pr, np_data = pl, np_protocol = pr\<rparr>])\<rparr>)"
proof -
  let ?n = "length pl" and ?base = "nn_mbim_mux_id d"
  let ?tci = "ucast ((ucast (ucast ?base + word_of_nat i :: u8) :: u16) + (if 1 < qm then 1 else 0)) :: u8"
  define b where "b = sk_data skb2"
  have bd: "b = [0x4E, 0x43, 0x4D, 0x48, 12, 0, ucast q, ucast (drop_bit 8 q), ucast (word_of_nat (?n + 28) :: u16),
     ucast (drop_bit 8 (word_of_nat (?n + 28) :: u16)), 12, 0, 0x49, 0x50, 0x53, ?tci, 16, 0, 0, 0, 28, 0,
     ucast (word_of_nat ?n :: u16), ucast (drop_bit 8 (word_of_nat ?n :: u16)), 0, 0, 0, 0] @ pl"
    using add_mbim_hdr_data [OF assms(1), of q] assms(6,11) unfolding b_def by (simp del: of_nat_add)
  have i8: "i < 8" using assms(4,5) by (simp add: vnd_at_def split: if_splits)
  then have ui: "unat (word_of_nat i :: u32) = i" by (simp add: unsigned_of_nat take_bit_nat_eq_self)
  have un: "unat (word_of_nat ?n :: u16) = ?n" "unat (word_of_nat (?n + 28) :: u16) = ?n + 28"
    using assms(9) by (simp_all add: unsigned_of_nat take_bit_nat_eq_self del: of_nat_add)
  have len: "length b = ?n + 28" by (simp add: bd)
  have rd: "rd16 b 6 = q" "rd16 b 8 = word_of_nat (?n + 28)" "rd16 b 10 = 12" "rd16 b 16 = 16" "rd16 b 18 = 0"
    by (simp_all add: rd16_def bd del: of_nat_add)
  have rm: "rd16 (b @ t) 20 = 28" "rd16 (b @ t) 22 = word_of_nat ?n" "rd16 (b @ t) 24 = 0" for t
    by (simp_all add: rd16_def bd del: of_nat_add)
  have tci: "ndp_tci b 12 = Some (ucast ?tci)" by (simp add: ndp_tci_def bd ips_sign_def)
  have slot: "mbim_slot qm ?base (ucast ?tci) = Some (word_of_nat i)" by (rule mbim_session [OF assms(2) i8 assms(3)])
  have blk: "\<not> mb_rx_max (nn_mbim_ctx d) < ucast (rd16 b 8)"
    unfolding rd(2) using assms(9,10) un(2) by (simp add: word_less_nat_alt unsigned_ucast_eq take_bit_nat_eq_self del: of_nat_add)
  let ?d = "set_rx_seq (q + 1) d"
  let ?s = "\<lparr>nr_dev = ?d, nr_acks = [], nr_allocs = 0, nr_chain = []\<rparr>"
  let ?r = "?s\<lparr>nr_dev := vnd_put i (rmnet_vnd_upate_rx_stats 1 (word_of_nat ?n) p) ?d, nr_allocs := 1,
      nr_chain := (let pr = if (pl ! 0) AND 0xF0 = 0x40 then ETH_P_IP else ETH_P_IPV6
                  in [\<lparr>np_chan = i, np_mac = net_mac_header ?d p pr, np_data = pl, np_protocol = pr\<rparr>])\<rparr>"
  have v: "vnd_at ?d i = Vnd p" "length (nn_nets ?d) = 8" "nn_mbim_mux_id ?d = ?base"
    "mb_rx_max (nn_mbim_ctx ?d) = mb_rx_max (nn_mbim_ctx d)"
    using assms(4,5) i8 by (simp_all add: set_rx_seq_def vnd_at_def)
  have pl0: "b ! 28 = pl ! 0" "drop 28 b = pl" using assms(7) by (simp_all add: bd)
  have dl: "mbim_deliver (\<lambda>k. True) i b 28 ?n ?s = Inr ?r"
    using assms(8) pl0 v(1) by (auto simp: mbim_deliver_def Let_def)
  have "mbim_frames (\<lambda>k. True) i b (b @ t) 20 (Suc (Suc 0)) ?s = Inr ?r" for t
    using dl rm un len v(4) assms(7,10) by (simp add: Let_def)
  then have fr: "mbim_frames (\<lambda>k. True) i b (b @ t) 20 2 ?s = Inr ?r" for t
    by (simp only: numeral_2_eq_2)
  have "mbim_ndp qm (\<lambda>k. True) b t ?s 12 = Inr (?r, 0)" for t
    using fr rd len tci slot ui v(2,3) i8 by (simp add: mbim_ndp_def Let_def)
  then have "mbim_ndp_loop qm (\<lambda>k. True) b t ?s 12 = Some (NrEnd, ?r)" for t
    by (simp add: mbim_ndp_loop.simps)
  then show ?thesis using blk len rd
    by (simp add: rmnet_mbim_rx_handler_def b_def [symmetric] bd nth16_sign_def Let_def)
qed

subsection \<open>The handler stays inside the block\<close>

text \<open>\<open>ndp_path b o os\<close>: following the tables of the block from offset \<open>o\<close> leads through \<open>os\<close> to the end.\<close>

fun ndp_path :: "bytes \<Rightarrow> nat \<Rightarrow> nat list \<Rightarrow> bool" where
  "ndp_path b at [] \<longleftrightarrow> at = 0"
| "ndp_path b at (x # xs) \<longleftrightarrow> at = x \<and> at \<noteq> 0 \<and> ndp_path b (unat (rd16 b (at + 6))) xs"

definition mbim_piece :: "mhi_netdev \<Rightarrow> bytes \<Rightarrow> net_pkt \<Rightarrow> bool" where
  "mbim_piece d b p \<longleftrightarrow> np_chan p < length (nn_nets d) \<and> sublist (np_data p) b \<and> np_data p \<noteq> [] \<and>
     length (np_data p) \<le> unat (mb_rx_max (nn_mbim_ctx d))"

definition mbim_inv :: "mhi_netdev \<Rightarrow> bytes \<Rightarrow> nrx \<Rightarrow> bool" where
  "mbim_inv d b s \<longleftrightarrow> length (nn_nets (nr_dev s)) = length (nn_nets d) \<and>
     mb_rx_max (nn_mbim_ctx (nr_dev s)) = mb_rx_max (nn_mbim_ctx d) \<and> (\<forall>p \<in> set (nr_chain s). mbim_piece d b p)"

lemma mbim_deliver_inv:
  assumes "mbim_inv d b s" and "i < length (nn_nets d)" and "0 < n" and "off + n \<le> length b"
    and "n \<le> unat (mb_rx_max (nn_mbim_ctx d))"
  shows "mbim_deliver alloc i b off n s = Inr s' \<Longrightarrow> mbim_inv d b s'"
    "mbim_deliver alloc i b off n s = Inl (e, s') \<Longrightarrow> mbim_inv d b s'"
proof -
  have "sublist (take n (drop off b)) b"
    by (meson sublist_drop sublist_order.order_trans sublist_take)
  then show "mbim_deliver alloc i b off n s = Inr s' \<Longrightarrow> mbim_inv d b s'"
    "mbim_deliver alloc i b off n s = Inl (e, s') \<Longrightarrow> mbim_inv d b s'"
    using assms
    by (auto simp: mbim_deliver_def mbim_inv_def mbim_piece_def Let_def vnd_put_def split: if_splits vnd_slot.splits)
qed

lemma mbim_frames_inv:
  assumes "mbim_inv d b s" and "i < length (nn_nets d)"
  shows "case mbim_frames alloc i b mem at k s of Inl r \<Rightarrow> mbim_inv d b (snd r) | Inr s' \<Rightarrow> mbim_inv d b s'"
  using assms(1)
proof (induction k arbitrary: at s)
  case (Suc k)
  let ?o = "unat (rd16 mem at)" and ?n = "unat (rd16 mem (at + 2))"
  show ?case
  proof (cases "length mem < at + 4 \<or> ?o = 0 \<or> ?n = 0 \<or> length b < ?o + ?n \<or> unat (mb_rx_max (nn_mbim_ctx (nr_dev s))) < ?n")
    case True
    then show ?thesis using Suc.prems by (auto simp: Let_def)
  next
    case False
    then have "?o + ?n \<le> length b" "0 < ?n" "?n \<le> unat (mb_rx_max (nn_mbim_ctx d))"
      using Suc.prems by (simp_all add: mbim_inv_def)
    note d = mbim_deliver_inv [OF Suc.prems assms(2) this(2,1,3), of alloc]
    show ?thesis using False d Suc.IH
      by (cases "mbim_deliver alloc i b ?o ?n s") (auto simp: Let_def)
  qed
qed simp

lemma mbim_ndp_inv:
  assumes "mbim_inv d b s"
  shows "case mbim_ndp qm alloc b tail s at of
      Inl r \<Rightarrow> mbim_inv d b (snd r) | Inr cn \<Rightarrow> mbim_inv d b (fst cn) \<and> snd cn = unat (rd16 b (at + 6))"
proof -
  let ?n = "(unat (rd16 b (at + 4)) - 8) div 4"
  have f: "mbim_frames alloc (unat i) b (b @ tail) (at + 8) ?n s = Inl (e, s') \<Longrightarrow> mbim_inv d b s'"
    "mbim_frames alloc (unat i) b (b @ tail) (at + 8) ?n s = Inr s' \<Longrightarrow> mbim_inv d b s'"
    if "unat i < length (nn_nets (nr_dev s))" for i :: u32 and e s'
    using mbim_frames_inv [OF assms, of "unat i" alloc "b @ tail" "at + 8" ?n] that assms
    by (auto simp: mbim_inv_def split: sum.splits)
  show ?thesis using assms
    by (auto simp: mbim_ndp_def Let_def not_le f split: option.splits sum.splits)
qed

lemma mbim_loop_inv:
  assumes "mbim_inv d b s" and "ndp_path b at os"
  shows "\<exists>e s'. mbim_ndp_loop qm alloc b tail s at = Some (e, s') \<and> mbim_inv d b s'"
  using assms
proof (induction os arbitrary: s at)
  case Nil
  then show ?case by (simp add: mbim_ndp_loop.simps)
next
  case (Cons x xs)
  note i = mbim_ndp_inv [OF Cons.prems(1), where qm = qm and alloc = alloc and tail = tail and at = at]
  show ?case
  proof (cases "mbim_ndp qm alloc b tail s at")
    case (Inl r)
    then show ?thesis using i Cons.prems(2) by (cases r) (simp add: mbim_ndp_loop.simps)
  next
    case (Inr cn)
    then have "mbim_inv d b (fst cn)" "ndp_path b (snd cn) xs" using i Cons.prems(2) by auto
    from Cons.IH [OF this] show ?thesis using Inr Cons.prems(2) by (simp add: mbim_ndp_loop.simps)
  qed
qed


subsection \<open>Blocks that the handler does not get through\<close>

text \<open>A block whose first table is for a session of the channels.\<close>

definition mbim_block :: "mhi_netdev \<Rightarrow> bytes \<Rightarrow> nat \<Rightarrow> u16 \<Rightarrow> bool" where
  "mbim_block d b at tci \<longleftrightarrow> 20 \<le> length b \<and> take 4 b = nth16_sign \<and> ucast (rd16 b 8) \<le> mb_rx_max (nn_mbim_ctx d) \<and>
     at = unat (rd16 b 10) \<and> 0 < at \<and> at + 16 \<le> length b \<and> rd16 b (at + 4) = 16 \<and> ndp_tci b at = Some tci"

lemma mbim_block_loop:
  assumes "mbim_block d (sk_data skb) at tci"
  shows "rmnet_mbim_rx_handler qm alloc d skb = mbim_ndp_loop qm alloc (sk_data skb) (sk_tail skb)
    \<lparr>nr_dev = set_rx_seq (rd16 (sk_data skb) 6 + 1) d, nr_acks = [], nr_allocs = 0, nr_chain = []\<rparr> at"
  using assms by (auto simp: mbim_block_def rmnet_mbim_rx_handler_def Let_def not_less [symmetric])

text \<open>
  A table that names itself as the next one and has no datagrams: the handler never returns.
\<close>

theorem mbim_rx_hangs:
  assumes "mbim_block d (sk_data skb) at tci" and "mbim_slot qm (nn_mbim_mux_id d) tci = Some i"
    and "unat i < length (nn_nets d)" and "rd16 (sk_data skb) (at + 6) = word_of_nat at" and "rd16 (sk_data skb) (at + 8) = 0"
  shows "rmnet_mbim_rx_handler qm alloc d skb = None"
proof -
  let ?b = "sk_data skb"
  let ?s = "\<lparr>nr_dev = set_rx_seq (rd16 ?b 6 + 1) d, nr_acks = [], nr_allocs = 0, nr_chain = []\<rparr>"
  have at: "unat (rd16 ?b (at + 6)) = at" using assms(1,4) by (auto simp: mbim_block_def)
  have b: "0 < at" "at + 16 \<le> length ?b" "rd16 ?b (at + 4) = 16" "ndp_tci ?b at = Some tci" using assms(1) unfolding mbim_block_def by blast+
  have r: "rd16 (?b @ sk_tail skb) (at + 8) = 0" using assms(5) b(2) by (simp add: rd16_def nth_append)
  have "mbim_frames alloc j ?b (?b @ sk_tail skb) (at + 8) (Suc k) s = Inr s" for j k s using r b(2) by simp
  from this [of _ 1] have fr: "mbim_frames alloc j ?b (?b @ sk_tail skb) (at + 8) 2 s = Inr s" for j s
    by (simp only: numeral_2_eq_2 One_nat_def)
  have step: "mbim_ndp qm alloc ?b (sk_tail skb) ?s at = Inr (?s, at)"
    using b(2,3,4) fr at assms(2,3) by (simp add: mbim_ndp_def Let_def set_rx_seq_def)
  have "b' = ?b \<longrightarrow> t' = sk_tail skb \<longrightarrow> s' = ?s \<longrightarrow> q' = qm \<longrightarrow> a' = alloc \<longrightarrow> at' \<noteq> at"
    if "mbim_ndp_loop q' a' b' t' s' at' = Some r" for q' a' b' t' s' at' r
    using that
    by (rule mbim_ndp_loop.raw_induct [where P = "\<lambda>q' a' b' t' s' at' r. b' = ?b \<longrightarrow> t' = sk_tail skb \<longrightarrow> s' = ?s \<longrightarrow>
          q' = qm \<longrightarrow> a' = alloc \<longrightarrow> at' \<noteq> at", rotated])
      (use b(1) step in force)
  then show ?thesis unfolding mbim_block_loop [OF assms(1)]
    by (cases "mbim_ndp_loop qm alloc ?b (sk_tail skb) ?s at") blast+
qed

text \<open>
  With more than one channel, a block for the session one below the first channel passes the check of the
  session and makes the handler read in front of the array of devices.
\<close>

theorem mbim_session_below_first:
  assumes "mbim_block d (sk_data skb) at tci" and "1 < qm" and "ucast tci = nn_mbim_mux_id d" and "length (nn_nets d) = 8"
  shows "\<exists>s. rmnet_mbim_rx_handler qm alloc d skb = Some (NrBad, s) \<and>
    mbim_slot qm (nn_mbim_mux_id d) tci = Some 0xFFFFFFFF"
proof -
  have sl: "mbim_slot qm (nn_mbim_mux_id d) tci = Some 0xFFFFFFFF"
    using assms(2,3) by (auto simp: mbim_slot_def)
  have b: "0 < at" "at + 16 \<le> length (sk_data skb)" "rd16 (sk_data skb) (at + 4) = 16" "ndp_tci (sk_data skb) at = Some tci"
    using assms(1) unfolding mbim_block_def by blast+
  let ?s = "\<lparr>nr_dev = set_rx_seq (rd16 (sk_data skb) 6 + 1) d, nr_acks = [], nr_allocs = 0, nr_chain = []\<rparr>"
  have "mbim_ndp qm alloc (sk_data skb) (sk_tail skb) ?s at = Inl (NrBad, ?s)"
    using b sl assms(4) by (simp add: mbim_ndp_def Let_def set_rx_seq_def)
  then show ?thesis using sl b(1) unfolding mbim_block_loop [OF assms(1)] by (simp add: mbim_ndp_loop.simps)
qed

end
