(* ===== verification/Net_Xfer.thy ===== *)
theory Net_Xfer
  imports Net_Mbim MHI_Event
begin

text \<open>
  The data path of the network driver over MHI (\<^verbatim>\<open>pcie_mhi/src/devices/mhi_netdev_quectel.c\<close>): sending a packet of a
  channel down to the transfer ring of the uplink, the completion of a transfer, giving buffers to the downlink,
  and the poll function, which runs the event ring, cuts the received buffers into packets and refills the ring.
  It composes the driver with the transfers of the MHI core (\<open>mhi_queue_skb\<close>, \<open>mhi_poll\<close>).

  The lemmas show the flow control of the uplink: the queue is stopped in time, so that a packet is never dropped
  because of a full ring, and that refilling either fills the ring or reports an error.

  The state is that of the driver, that of the MHI controller and the socket buffers the driver has given away, by
  address; \<open>sb_data\<close> is the address of the data and \<open>sb_bound\<close> says that \<^verbatim>\<open>bind_netdev\<close> is the driver. Freeing a
  buffer removes it. \<open>ul\<close> and \<open>dl\<close> are the indices of the two channels. A result \<open>None\<close> is a loop that does not end
  or data that do not fit in their buffer. The rate control of \<^verbatim>\<open>CONFIG_IPQ5018_RATE_CONTROL\<close> is not compiled in.
\<close>

subsection \<open>State\<close>

record net_skb =
  sb_skb :: sk_buff
  sb_data :: u64
  sb_bound :: bool
  sb_length :: u32

record net_sys =
  ns_dev :: mhi_netdev
  ns_ctl :: mhi_controller
  ns_skbs :: "u64 \<Rightarrow> net_skb option"
  ns_napi :: bool
  ns_allocs :: nat
  ns_packets :: "net_pkt list"
  ns_raw :: "sk_buff list"
  ns_acks :: "bytes list"

definition skb_free :: "u64 \<Rightarrow> net_sys \<Rightarrow> net_sys" where
  "skb_free a st = st\<lparr>ns_skbs := (ns_skbs st)(a := None)\<rparr>"

subsection \<open>Queues of the network devices\<close>

definition vnd_stop :: "bool \<Rightarrow> vnd_priv \<Rightarrow> vnd_priv" where
  "vnd_stop b p = p\<lparr>vp_net := (vp_net p)\<lparr>nd_stopped := b\<rparr>\<rparr>"

definition real_stop :: "bool \<Rightarrow> mhi_netdev \<Rightarrow> mhi_netdev" where
  "real_stop b d = d\<lparr>nn_ndev := map_option (\<lambda>n. n\<lparr>nd_stopped := b\<rparr>) (nn_ndev d)\<rparr>"

definition real_stopped :: "mhi_netdev \<Rightarrow> bool" where
  "real_stopped d = (case nn_ndev d of None \<Rightarrow> True | Some n \<Rightarrow> nd_stopped n)"

text \<open>The loops over the channels that stop or wake the queues, then that of the device itself.\<close>

definition queues_set :: "bool \<Rightarrow> mhi_netdev \<Rightarrow> mhi_netdev" where
  "queues_set b d =
     (let n = unat (nn_qmap_mode d);
          f = (\<lambda>s. case s of Vnd p \<Rightarrow> Vnd (vnd_stop b p) | _ \<Rightarrow> s)
      in real_stop b (d\<lparr>nn_nets := map f (take n (nn_nets d)) @ drop n (nn_nets d)\<rparr>))"

definition mhi_netdev_upate_rx_stats :: "u32 \<Rightarrow> u32 \<Rightarrow> mhi_netdev \<Rightarrow> mhi_netdev" where
  "mhi_netdev_upate_rx_stats packets bytes d = d\<lparr>nn_stats := rx_stats packets bytes (nn_stats d)\<rparr>"

definition mhi_netdev_upate_tx_stats :: "u32 \<Rightarrow> u32 \<Rightarrow> mhi_netdev \<Rightarrow> mhi_netdev" where
  "mhi_netdev_upate_tx_stats packets bytes d = d\<lparr>nn_stats := tx_stats packets bytes (nn_stats d)\<rparr>"

definition tx_error :: "netstats \<Rightarrow> netstats" where
  "tx_error s = s\<lparr>st_tx_errors := st_tx_errors s + 1\<rparr>"

subsection \<open>Sending\<close>

text \<open>\<^verbatim>\<open>mhi_queue_transfer\<close> on the channel with index \<open>n\<close>, a channel for socket buffers.\<close>

definition queue_transfer ::
  "dma_map_fn \<Rightarrow> nat \<Rightarrow> u64 \<Rightarrow> u64 \<Rightarrow> u64 \<Rightarrow> mhi_controller \<Rightarrow> unit res \<times> mhi_controller" where
  "queue_transfer dma_map n skb skb_data len c =
     (let (r, ch, c') = mhi_queue_skb dma_map skb skb_data len (chan_at c n) c in (r, chan_put n ch c'))"

definition xmit_seq :: "sk_buff \<Rightarrow> mhi_netdev \<Rightarrow> sk_buff \<times> mhi_netdev" where
  "xmit_seq skb d =
     (if nn_net_type d = MHI_NET_MBIM
      then (skb\<lparr>sk_data := mbim_set_seq (mb_tx_seq (nn_mbim_ctx d)) (sk_data skb)\<rparr>,
            d\<lparr>nn_mbim_ctx := (nn_mbim_ctx d)\<lparr>mb_tx_seq := mb_tx_seq (nn_mbim_ctx d) + 1\<rparr>\<rparr>)
      else (skb, d))"

definition mhi_netdev_xmit :: "dma_map_fn \<Rightarrow> nat \<Rightarrow> u64 \<Rightarrow> net_skb \<Rightarrow> net_sys \<Rightarrow> net_sys" where
  "mhi_netdev_xmit dma_map ul a sb st =
     (let d = ns_dev st
      in if (nn_net_type d = MHI_NET_RMNET \<or> nn_net_type d = MHI_NET_MBIM) \<and> sk_protocol (sb_skb sb) \<noteq> ETH_P_MAP then st
         else (let (skb, d1) = xmit_seq (sb_skb sb) d; len = length (sk_data skb);
                   d2 = if mhi_get_no_free_descriptors (chan_at (ns_ctl st) ul) < 16 then queues_set True d1 else d1;
                   (res, c) = queue_transfer dma_map ul a (sb_data sb) (word_of_nat len) (ns_ctl st)
               in case res of
                    Inl _ \<Rightarrow> st\<lparr>ns_dev := d2\<lparr>nn_stats := tx_error (nn_stats d2)\<rparr>, ns_ctl := c\<rparr>
                  | Inr _ \<Rightarrow> st\<lparr>ns_dev := d2, ns_ctl := c,
                      ns_skbs := (ns_skbs st)(a \<mapsto> sb\<lparr>sb_skb := skb, sb_bound := True, sb_length := word_of_nat len\<rparr>)\<rparr>))"

text \<open>
  The transmit function of a channel, \<^verbatim>\<open>rmnet_vnd_start_xmit\<close>: \<open>xmit\<close> is \<^verbatim>\<open>dev_queue_xmit\<close> to the device below, with
  whether it succeeds. The result has the ARP answer of bridge mode.
\<close>

datatype vnd_tx = VndBusy | VndDone | VndError

text \<open>
  The driver has its own copies of the header builders, which push the header onto the packet, and of bridge mode;
  their text is that of the USB driver.
\<close>

definition net_add_qhdr :: "sk_buff \<Rightarrow> u8 \<Rightarrow> sk_buff option" where
  "net_add_qhdr skb mux_id = map_option fst (add_qhdr skb mux_id None)"

definition net_add_qhdr_v5 :: "sk_buff \<Rightarrow> u8 \<Rightarrow> sk_buff option" where
  "net_add_qhdr_v5 skb mux_id = map_option fst (add_qhdr_v5 skb mux_id None)"

definition net_bridge_arp_reply :: "bool \<Rightarrow> sk_buff \<Rightarrow> u32 \<Rightarrow> bool \<times> arp_reply option" where
  "net_bridge_arp_reply ok skb bridge_ipv4 = bridge_arp_reply ok skb bridge_ipv4"

definition net_bridge_tx_fixup :: "bool \<Rightarrow> sk_buff \<Rightarrow> u32 \<Rightarrow> bytes \<Rightarrow> bool \<times> bytes \<times> arp_reply option" where
  "net_bridge_tx_fixup ok skb bridge_ipv4 bridge_mac =
     (if h_proto skb = ETH_P_ARP
      then (False, bridge_mac, if bridge_ipv4 \<noteq> 0 then snd (net_bridge_arp_reply ok skb bridge_ipv4) else None)
      else (let mac = if dhcp_request skb then h_source skb else bridge_mac
            in (h_source skb = mac, mac, None)))"

definition vnd_frame :: "u32 \<Rightarrow> mhi_netdev \<Rightarrow> vnd_priv \<Rightarrow> sk_buff \<Rightarrow> sk_buff option option" where
  "vnd_frame qmap_mode d p skb =
     (if nn_net_type d = MHI_NET_MBIM then Some (add_mbim_hdr qmap_mode skb (vp_mux_id p))
      else if vp_qmap_version p = 5 then map_option Some (net_add_qhdr skb (vp_mux_id p))
      else if vp_qmap_version p = 9 then map_option Some (net_add_qhdr_v5 skb (vp_mux_id p))
      else Some None)"

definition rmnet_vnd_tx_agg :: "sk_buff \<Rightarrow> sk_buff" where
  "rmnet_vnd_tx_agg skb = skb\<lparr>sk_protocol := ETH_P_MAP\<rparr>"

definition rmnet_vnd_tx_agg_work :: "vnd_priv \<Rightarrow> vnd_priv \<times> sk_buff option" where
  "rmnet_vnd_tx_agg_work p =
     (case vp_agg_skb p of None \<Rightarrow> (p, None) | Some s \<Rightarrow> (p\<lparr>vp_agg_skb := None\<rparr>, Some (s\<lparr>sk_protocol := ETH_P_MAP\<rparr>)))"

definition vnd_sent :: "bool \<Rightarrow> nat \<Rightarrow> u32 \<Rightarrow> mhi_netdev \<Rightarrow> mhi_netdev" where
  "vnd_sent ok i len d =
     (case vnd_at d i of
        Vnd p \<Rightarrow> vnd_put i (if ok then rmnet_vnd_upate_tx_stats 1 len p else p\<lparr>vp_stats := tx_error (vp_stats p)\<rparr>) d
      | _ \<Rightarrow> d)"

definition vnd_start_xmit ::
  "(u64 \<Rightarrow> net_skb \<Rightarrow> net_sys \<Rightarrow> bool \<times> net_sys) \<Rightarrow> bool \<Rightarrow> u32 \<Rightarrow> nat \<Rightarrow> vnd_priv \<Rightarrow> u64 \<Rightarrow> net_skb \<Rightarrow> net_sys \<Rightarrow>
   (vnd_tx \<times> arp_reply option \<times> net_sys) option" where
  "vnd_start_xmit xmit arp_ok qmap_mode i p a sb st =
     (let d = ns_dev st; skb = sb_skb sb; ether = nd_ether (vp_net p); skb_len = word_of_nat (length (sk_data skb))
      in if real_stopped d then Some (VndBusy, None, st\<lparr>ns_dev := vnd_put i (vnd_stop True p) d\<rparr>)
         else (let (go, mac, arp) = (if ether \<and> vp_bridge_mode p \<noteq> 0
                                     then net_bridge_tx_fixup arp_ok skb (vp_bridge_ipv4 p) (vp_bridge_mac p)
                                     else (True, vp_bridge_mac p, None));
                   p1 = p\<lparr>vp_bridge_mac := mac\<rparr>; st1 = st\<lparr>ns_dev := vnd_put i p1 d\<rparr>
               in if \<not> go then Some (VndDone, arp, st1)
                  else (case (if ether then skb_pull ETH_HLEN skb else Some skb) of
                          None \<Rightarrow> Some (VndDone, None, st1)
                        | Some skb1 \<Rightarrow>
                            (case vnd_frame qmap_mode d p1 skb1 of
                               None \<Rightarrow> None
                             | Some None \<Rightarrow> Some (VndDone, None, st1)
                             | Some (Some skb2) \<Rightarrow>
                                 (let (ok, st2) = xmit a (sb\<lparr>sb_skb := rmnet_vnd_tx_agg skb2\<rparr>) st1
                                  in Some (if ok then VndDone else VndError, None,
                                           st2\<lparr>ns_dev := vnd_sent ok i skb_len (ns_dev st2)\<rparr>))))))"

text \<open>The completion of an uplink transfer.\<close>

definition mhi_netdev_xfer_ul_cb :: "nat \<Rightarrow> mhi_result \<Rightarrow> net_sys \<Rightarrow> net_sys" where
  "mhi_netdev_xfer_ul_cb ul res st =
     (case ns_skbs st (res_buf_addr res) of
        None \<Rightarrow> st
      | Some sb \<Rightarrow>
          if \<not> sb_bound sb then st
          else (let d = ns_dev st;
                    d1 = if res_transaction_status res \<noteq> None then d
                         else (let d' = mhi_netdev_upate_tx_stats 1 (sb_length sb) d
                               in if real_stopped d \<and> nn_enabled d \<and>
                                     32 < mhi_get_no_free_descriptors (chan_at (ns_ctl st) ul)
                                  then queues_set False d' else d')
                in skb_free (res_buf_addr res) (st\<lparr>ns_dev := d1\<rparr>)))"

subsection \<open>Receiving\<close>

text \<open>The completion of a downlink transfer: \<open>mem a\<close> are the bytes of the buffer \<open>a\<close> as the device has written them.\<close>

definition mhi_netdev_xfer_dl_cb :: "(u64 \<Rightarrow> bytes) \<Rightarrow> mhi_result \<Rightarrow> net_sys \<Rightarrow> net_sys option" where
  "mhi_netdev_xfer_dl_cb mem res st =
     (let a = res_buf_addr res
      in case ns_skbs st a of
           None \<Rightarrow> Some st
         | Some sb \<Rightarrow>
             if \<not> sb_bound sb then Some st
             else if res_transaction_status res \<noteq> None then Some (skb_free a st)
             else (case skb_put (unat (res_bytes_xferd res)) ((sb_skb sb)\<lparr>sk_tail := mem a\<rparr>) of
                     None \<Rightarrow> None
                   | Some skb \<Rightarrow>
                       Some (st\<lparr>ns_skbs := (ns_skbs st)(a \<mapsto> sb\<lparr>sb_skb := skb, sb_bound := False\<rparr>),
                                ns_dev := (ns_dev st)\<lparr>nn_qmap_chain := nn_qmap_chain (ns_dev st) @ [a]\<rparr>\<rparr>)))"

text \<open>\<open>alloc k\<close>: the address of the buffer and of its data that the \<open>k\<close>-th allocation returns.\<close>

definition rx_get :: "(nat \<Rightarrow> (u64 \<times> u64) option) \<Rightarrow> net_sys \<Rightarrow> u64 option \<times> net_sys" where
  "rx_get alloc st =
     (let d = ns_dev st
      in case nn_rx_allocated d of
           a # as \<Rightarrow> (Some a, st\<lparr>ns_dev := d\<lparr>nn_rx_allocated := as\<rparr>\<rparr>)
         | [] \<Rightarrow>
             (let st1 = st\<lparr>ns_allocs := Suc (ns_allocs st)\<rparr>
              in case alloc (ns_allocs st) of
                   None \<Rightarrow> (None, st1)
                 | Some (a, da) \<Rightarrow>
                     (Some a, st1\<lparr>ns_dev := d\<lparr>nn_rx_allocs := nn_rx_allocs d + 1\<rparr>,
                                  ns_skbs := (ns_skbs st)(a \<mapsto> \<lparr>sb_skb = alloc_skb (unat (nn_mru d)), sb_data = da,
                                                                sb_bound = False, sb_length = 0\<rparr>)\<rparr>)))"

definition rx_bind :: "bool \<Rightarrow> u64 \<Rightarrow> net_sys \<Rightarrow> net_sys" where
  "rx_bind b a st = st\<lparr>ns_skbs := (ns_skbs st)(a := map_option (\<lambda>sb. sb\<lparr>sb_bound := b\<rparr>) (ns_skbs st a))\<rparr>"

definition rx_data_at :: "u64 \<Rightarrow> net_sys \<Rightarrow> u64" where
  "rx_data_at a st = (case ns_skbs st a of None \<Rightarrow> 0 | Some sb \<Rightarrow> sb_data sb)"

fun alloc_skb_loop ::
  "dma_map_fn \<Rightarrow> nat \<Rightarrow> (nat \<Rightarrow> (u64 \<times> u64) option) \<Rightarrow> nat \<Rightarrow> net_sys \<Rightarrow> unit res \<times> net_sys" where
  "alloc_skb_loop dma_map dl alloc 0 st = (Inr (), st)"
| "alloc_skb_loop dma_map dl alloc (Suc k) st =
     (case rx_get alloc st of
        (None, st1) \<Rightarrow> (Inl ENOMEM, st1)
      | (Some a, st1) \<Rightarrow>
          if \<not> nn_enabled (ns_dev st1) then (Inl EIO, skb_free a st1)
          else (let st2 = rx_bind True a st1;
                    (res, c) = queue_transfer dma_map dl a (rx_data_at a st2) (ucast (nn_mru (ns_dev st2))) (ns_ctl st2);
                    st3 = st2\<lparr>ns_ctl := c\<rparr>
                in case res of
                     Inl _ \<Rightarrow> (Inl EIO, skb_free a st3)
                   | Inr _ \<Rightarrow> alloc_skb_loop dma_map dl alloc k st3))"

definition mhi_netdev_alloc_skb ::
  "dma_map_fn \<Rightarrow> nat \<Rightarrow> (nat \<Rightarrow> (u64 \<times> u64) option) \<Rightarrow> net_sys \<Rightarrow> unit res \<times> net_sys" where
  "mhi_netdev_alloc_skb dma_map dl alloc st =
     alloc_skb_loop dma_map dl alloc (nat (mhi_get_no_free_descriptors (chan_at (ns_ctl st) dl))) st"

definition set_alloc_work :: "bool \<Rightarrow> net_sys \<Rightarrow> net_sys" where
  "set_alloc_work b st = st\<lparr>ns_dev := (ns_dev st)\<lparr>nn_alloc_work := b\<rparr>\<rparr>"

text \<open>The worker: when there is no memory it schedules itself again.\<close>

definition mhi_netdev_alloc_work ::
  "dma_map_fn \<Rightarrow> nat \<Rightarrow> (nat \<Rightarrow> (u64 \<times> u64) option) \<Rightarrow> net_sys \<Rightarrow> net_sys" where
  "mhi_netdev_alloc_work dma_map dl alloc st =
     (let (r, st1) = mhi_netdev_alloc_skb dma_map dl alloc (set_alloc_work False st)
      in if r = Inl ENOMEM then set_alloc_work True st1 else st1)"

text \<open>A received buffer in the network stack: to the receive handler, or as it is for an Ethernet interface.\<close>

definition mhi_netdev_ip_type_trans :: "u8 \<Rightarrow> u16" where
  "mhi_netdev_ip_type_trans b =
     (let nib = b AND 0xF0 in if nib = 0x40 then ETH_P_IP else if nib = 0x60 then ETH_P_IPV6 else ETH_P_MAP)"

definition skb_empty :: "sk_buff \<Rightarrow> sk_buff" where
  "skb_empty skb = skb\<lparr>sk_head := [], sk_data := [], sk_tail := sk_head skb @ sk_data skb @ sk_tail skb\<rparr>"

definition rx_deliver ::
  "u32 \<Rightarrow> (nat \<Rightarrow> bool) \<Rightarrow> (u64 \<Rightarrow> bool) \<Rightarrow> u64 \<Rightarrow> net_sys \<Rightarrow> net_sys option" where
  "rx_deliver qmap_mode alloc cloned a st =
     (case ns_skbs st a of
        None \<Rightarrow> Some st
      | Some sb \<Rightarrow>
          (let skb = sb_skb sb;
               d = mhi_netdev_upate_rx_stats 1 (word_of_nat (length (sk_data skb))) (ns_dev st)
           in if nn_net_type d = MHI_NET_ETHER
              then Some (skb_free a (st\<lparr>ns_dev := d,
                     ns_raw := ns_raw st @ [skb\<lparr>sk_protocol := mhi_netdev_ip_type_trans (skb_byte skb 0)\<rparr>]\<rparr>))
              else (case rmnet_rx_handler qmap_mode (\<lambda>k. alloc (ns_allocs st + k)) False (cloned a) a d
                           (skb\<lparr>sk_protocol := ETH_P_MAP\<rparr>) of
                      Some (Some (e, s, freed)) \<Rightarrow>
                        Some (st\<lparr>ns_dev := nr_dev s, ns_allocs := ns_allocs st + nr_allocs s,
                                 ns_packets := ns_packets st @ nr_chain s, ns_acks := ns_acks st @ nr_acks s,
                                 ns_skbs := (ns_skbs st)(a := if freed then None
                                   else Some (sb\<lparr>sb_skb := skb_empty skb\<rparr>))\<rparr>)
                    | _ \<Rightarrow> None)))"

fun rx_chain ::
  "u32 \<Rightarrow> (nat \<Rightarrow> bool) \<Rightarrow> (u64 \<Rightarrow> bool) \<Rightarrow> u64 list \<Rightarrow> net_sys \<Rightarrow> net_sys option" where
  "rx_chain qmap_mode alloc cloned [] st = Some st"
| "rx_chain qmap_mode alloc cloned (a # as) st =
     Option.bind (rx_deliver qmap_mode alloc cloned a (st\<lparr>ns_dev := (ns_dev st)\<lparr>nn_qmap_chain := as\<rparr>\<rparr>))
       (rx_chain qmap_mode alloc cloned as)"

text \<open>
  The poll function. \<open>mhi_poll\<close> calls back for each completed transfer, here in order after it; the callbacks only
  touch the driver and its buffers. An interface of an unknown type receives nothing.
\<close>

definition dl_results :: "u32 \<Rightarrow> effect list \<Rightarrow> mhi_result list" where
  "dl_results n es = concat (map (\<lambda>e. case e of XferCb m r \<Rightarrow> if m = n then [r] else [] | _ \<Rightarrow> []) es)"

fun dl_callbacks :: "(u64 \<Rightarrow> bytes) \<Rightarrow> mhi_result list \<Rightarrow> net_sys \<Rightarrow> net_sys option" where
  "dl_callbacks mem [] st = Some st"
| "dl_callbacks mem (r # rs) st = Option.bind (mhi_netdev_xfer_dl_cb mem r st) (dl_callbacks mem rs)"

record poll_env =
  pl_dma :: dma_map_fn
  pl_ev_alloc :: bool
  pl_devs :: env
  pl_mem :: "u64 \<Rightarrow> bytes"
  pl_skb :: "nat \<Rightarrow> bool"
  pl_buf :: "nat \<Rightarrow> (u64 \<times> u64) option"
  pl_cloned :: "u64 \<Rightarrow> bool"

definition poll_refill :: "poll_env \<Rightarrow> nat \<Rightarrow> net_sys \<Rightarrow> net_sys" where
  "poll_refill e dl st =
     (if nn_alloc_work (ns_dev st) then st
      else (let (r, st1) = mhi_netdev_alloc_skb (pl_dma e) dl (pl_buf e) st; d = ns_dev st1
            in if r = Inl ENOMEM
               then st1\<lparr>ns_dev := d\<lparr>nn_alloc_failed := nn_alloc_failed d + 1, nn_alloc_work := True\<rparr>\<rparr> else st1))"

definition mhi_netdev_poll ::
  "poll_env \<Rightarrow> u32 \<Rightarrow> mhi_device \<Rightarrow> nat \<Rightarrow> u32 \<Rightarrow> net_sys \<Rightarrow> (int \<times> net_sys) option" where
  "mhi_netdev_poll e qmap_mode dev dl budget st =
     (case mhi_poll (pl_dma e) (pl_ev_alloc e) (pl_devs e) dev budget (ns_ctl st) of
        None \<Rightarrow> None
      | Some (r, c) \<Rightarrow>
          (let rs = dl_results (chan (chan_at (ns_ctl st) dl)) (drop (length (trace (ns_ctl st))) (trace c))
           in case dl_callbacks (pl_mem e) rs (st\<lparr>ns_ctl := c\<rparr>) of
                None \<Rightarrow> None
              | Some st1 \<Rightarrow>
                  (case r of
                     Inl _ \<Rightarrow> Some (0, st1\<lparr>ns_napi := False\<rparr>)
                   | Inr rx_work \<Rightarrow>
                       (case (if nn_net_type (ns_dev st1) = MHI_NET_UNKNOW then Some st1
                              else rx_chain qmap_mode (pl_skb e) (pl_cloned e) (nn_qmap_chain (ns_dev st1)) st1) of
                          None \<Rightarrow> None
                        | Some st2 \<Rightarrow>
                            (let st3 = poll_refill e dl st2
                             in Some (rx_work, if rx_work < sint budget then st3\<lparr>ns_napi := False\<rparr> else st3))))))"

definition mhi_netdev_status_cb :: "MHI_CB \<Rightarrow> net_sys \<Rightarrow> net_sys" where
  "mhi_netdev_status_cb mhi_cb st =
     (if mhi_cb \<noteq> MHI_CB_PENDING_DATA \<or> ns_napi st then st
      else st\<lparr>ns_napi := True, ns_dev := (ns_dev st)\<lparr>nn_rx_int := nn_rx_int (ns_dev st) + 1\<rparr>\<rparr>)"

subsection \<open>Queueing on a channel\<close>

text \<open>What queueing keeps of a channel and of the controller.\<close>

lemma queue_skb_fit:
  assumes "chan_fit ch" and run: "mhi_queue_skb dma_map a da len ch c = (r, ch', c')"
  shows "chan_fit ch'" "mhi_get_no_free_descriptors ch' = mhi_get_no_free_descriptors ch - (if isl r then 0 else 1)"
    "r = (if mhi_is_ring_full (tre_ring ch) then Inl ENOMEM else if MHI_PM_IN_ERROR_STATE (pm_state c) then Inl EIO
          else if snd (dma_map da len (ch_dir ch)) then Inl ENOMEM else Inr ())"
proof -
  have s: "chan_sync ch" using assms(1) by (simp add: chan_fit_def)
  note o = mhi_queue_skb_outcome [OF s run] and k = mhi_queue_skb_keeps [OF run]
  show "chan_fit ch'" "mhi_get_no_free_descriptors ch' = mhi_get_no_free_descriptors ch - (if isl r then 0 else 1)"
    using queue_fit [OF assms(1)] o k by blast+
  show "r = (if mhi_is_ring_full (tre_ring ch) then Inl ENOMEM else if MHI_PM_IN_ERROR_STATE (pm_state c) then Inl EIO
          else if snd (dma_map da len (ch_dir ch)) then Inl ENOMEM else Inr ())" using o by blast
qed

lemma queue_transfer_fit:
  assumes n: "n < length (mhi_chans c)" and f: "chan_fit (chan_at c n)" and run: "queue_transfer dma_map n a da len c = (r, c')"
  shows "length (mhi_chans c') = length (mhi_chans c)" "chan_fit (chan_at c' n)" "pm_state c' = pm_state c"
    "mhi_get_no_free_descriptors (chan_at c' n) = mhi_get_no_free_descriptors (chan_at c n) - (if isl r then 0 else 1)"
    "m \<noteq> n \<Longrightarrow> chan_at c' m = chan_at c m"
    "r = (if mhi_is_ring_full (tre_ring (chan_at c n)) then Inl ENOMEM else if MHI_PM_IN_ERROR_STATE (pm_state c) then Inl EIO
          else if snd (dma_map da len (ch_dir (chan_at c n))) then Inl ENOMEM else Inr ())"
proof -
  obtain ch c1 where q: "mhi_queue_skb dma_map a da len (chan_at c n) c = (r, ch, c1)" and c': "c' = chan_put n ch c1"
    using run by (auto simp: queue_transfer_def case_prod_beta prod_eq_iff)
  note s = queue_skb_fit [OF f q] and k = mhi_queue_skb_keeps [OF q]
  have at: "chan_at c' n = ch" using n k by (simp add: c')
  show "length (mhi_chans c') = length (mhi_chans c)" "pm_state c' = pm_state c" using k by (simp_all add: c')
  show "chan_fit (chan_at c' n)"
    "mhi_get_no_free_descriptors (chan_at c' n) = mhi_get_no_free_descriptors (chan_at c n) - (if isl r then 0 else 1)"
    unfolding at by (rule s)+
  show "m \<noteq> n \<Longrightarrow> chan_at c' m = chan_at c m" using k by (simp add: c' chan_put_def chan_at_def)
  show "r = (if mhi_is_ring_full (tre_ring (chan_at c n)) then Inl ENOMEM else if MHI_PM_IN_ERROR_STATE (pm_state c) then Inl EIO
          else if snd (dma_map da len (ch_dir (chan_at c n))) then Inl ENOMEM else Inr ())" by (rule s)
qed

subsection \<open>Flow control of the uplink\<close>

definition ul_free :: "nat \<Rightarrow> net_sys \<Rightarrow> int" where
  "ul_free n st = mhi_get_no_free_descriptors (chan_at (ns_ctl st) n)"

definition chans_ok :: "nat \<Rightarrow> nat \<Rightarrow> net_sys \<Rightarrow> bool" where
  "chans_ok ul dl st \<longleftrightarrow> ul \<noteq> dl \<and> ul < length (mhi_chans (ns_ctl st)) \<and> dl < length (mhi_chans (ns_ctl st)) \<and>
     chan_fit (chan_at (ns_ctl st) ul) \<and> chan_fit (chan_at (ns_ctl st) dl)"

definition ul_inv :: "nat \<Rightarrow> nat \<Rightarrow> net_sys \<Rightarrow> bool" where
  "ul_inv ul dl st \<longleftrightarrow> chans_ok ul dl st \<and> (real_stopped (ns_dev st) \<or> 15 \<le> ul_free ul st)"

lemma real_stopped_set [simp]: "real_stopped (queues_set True d)"
  by (simp add: real_stopped_def queues_set_def real_stop_def Let_def split: option.splits)

lemma real_stopped_cong: "nn_ndev d' = nn_ndev d \<Longrightarrow> real_stopped d' = real_stopped d"
  by (simp add: real_stopped_def)

lemma xmit_seq_ndev [simp]: "nn_ndev (snd (xmit_seq skb d)) = nn_ndev d"
  by (simp add: xmit_seq_def)

lemma xmit_inv:
  assumes "ul_inv ul dl st"
  shows "ul_inv ul dl (mhi_netdev_xmit dma ul a sb st)"
proof -
  let ?skb = "fst (xmit_seq (sb_skb sb) (ns_dev st))" and ?d1 = "snd (xmit_seq (sb_skb sb) (ns_dev st))"
  let ?low = "mhi_get_no_free_descriptors (chan_at (ns_ctl st) ul) < 16"
  obtain r c where q: "queue_transfer dma ul a (sb_data sb) (word_of_nat (length (sk_data ?skb))) (ns_ctl st) = (r, c)"
    by fastforce
  have ok: "ul < length (mhi_chans (ns_ctl st))" "chan_fit (chan_at (ns_ctl st) ul)" "chans_ok ul dl st"
    using assms by (simp_all add: ul_inv_def chans_ok_def)
  note t = queue_transfer_fit [OF ok(1,2) q]
  have c: "chans_ok ul dl s" if "ns_ctl s = c" for s
    using that ok(3) t(1,2) t(5) [of dl] by (auto simp: chans_ok_def)
  have st': "real_stopped (if ?low then queues_set True ?d1 else ?d1) \<or> 15 \<le> mhi_get_no_free_descriptors (chan_at c ul)"
    using t(4) by (auto split: if_splits)
  show ?thesis
  proof (cases "(nn_net_type (ns_dev st) = MHI_NET_RMNET \<or> nn_net_type (ns_dev st) = MHI_NET_MBIM) \<and> sk_protocol (sb_skb sb) \<noteq> ETH_P_MAP")
    case True
    then show ?thesis using assms by (simp add: mhi_netdev_xmit_def Let_def)
  next
    case False
    have stats: "real_stopped (d\<lparr>nn_stats := x\<rparr>) = real_stopped d" for d x by (simp add: real_stopped_def)
    show ?thesis using c st' False q stats
      by (auto simp: mhi_netdev_xmit_def Let_def ul_inv_def ul_free_def case_prod_beta split: sum.splits)
  qed
qed

lemma ul_cb_inv:
  assumes "ul_inv ul dl st"
  shows "ul_inv ul dl (mhi_netdev_xfer_ul_cb ul res st)"
proof -
  have stats: "real_stopped (mhi_netdev_upate_tx_stats a b d) = real_stopped d" for a b d
    by (simp add: real_stopped_def mhi_netdev_upate_tx_stats_def)
  show ?thesis using assms stats
    by (auto simp: mhi_netdev_xfer_ul_cb_def ul_inv_def ul_free_def chans_ok_def skb_free_def Let_def split: option.splits)
qed

lemma alloc_loop_inv:
  assumes "chans_ok ul dl st" and "alloc_skb_loop dma dl alloc k st = (r, st')"
  shows "chans_ok ul dl st' \<and> chan_at (ns_ctl st') ul = chan_at (ns_ctl st) ul \<and> nn_ndev (ns_dev st') = nn_ndev (ns_dev st) \<and>
    (r = Inr () \<longrightarrow> ul_free dl st' = ul_free dl st - int k)"
  using assms
proof (induction k arbitrary: st)
  case (Suc k)
  obtain g st1 where g: "rx_get alloc st = (g, st1)" by fastforce
  have g1: "ns_ctl st1 = ns_ctl st" "nn_ndev (ns_dev st1) = nn_ndev (ns_dev st)"
    using g by (auto simp: rx_get_def Let_def split: list.splits option.splits)
  have same: "chans_ok ul dl s = chans_ok ul dl st" if "ns_ctl s = ns_ctl st" for s using that by (simp add: chans_ok_def)
  show ?case
  proof (cases "g = None \<or> \<not> nn_enabled (ns_dev st1)")
    case True
    then have "isl r \<and> ns_ctl st' = ns_ctl st1 \<and> ns_dev st' = ns_dev st1"
      using Suc.prems(2) g by (cases g) (auto simp: skb_free_def)
    then show ?thesis using Suc.prems(1) g1 same [of st'] by auto
  next
    case False
    then obtain a where a: "g = Some a" by auto
    let ?st2 = "rx_bind True a st1"
    obtain rr c where q: "queue_transfer dma dl a (rx_data_at a ?st2) (ucast (nn_mru (ns_dev ?st2))) (ns_ctl ?st2) = (rr, c)"
      by fastforce
    have st2: "ns_ctl ?st2 = ns_ctl st" "ns_dev ?st2 = ns_dev st1" using g1 by (simp_all add: rx_bind_def)
    have ok: "dl < length (mhi_chans (ns_ctl st))" "chan_fit (chan_at (ns_ctl st) dl)" using Suc.prems(1) by (simp_all add: chans_ok_def)
    note t = queue_transfer_fit [OF ok q [unfolded st2(1)]]
    let ?st3 = "?st2\<lparr>ns_ctl := c\<rparr>"
    have ne: "ul \<noteq> dl" using Suc.prems(1) by (simp add: chans_ok_def)
    have c3: "chans_ok ul dl ?st3" "chan_at c ul = chan_at (ns_ctl st) ul"
      using Suc.prems(1) t(1,2) t(5) [OF ne] by (auto simp: chans_ok_def)
    have free: "ul_free dl ?st3 = ul_free dl st - (if isl rr then 0 else 1)" using t(4) by (simp add: ul_free_def)
    show ?thesis
    proof (cases rr)
      case (Inl e)
      then have r: "r = Inl EIO" "st' = skb_free a ?st3" using Suc.prems(2) False g a q by (simp_all add: Let_def)
      then show ?thesis using c3 g1(2) st2(2) by (simp add: skb_free_def chans_ok_def)
    next
      case (Inr u)
      then have "alloc_skb_loop dma dl alloc k ?st3 = (r, st')" using Suc.prems(2) False g a q by (simp add: Let_def)
      from Suc.IH [OF c3(1) this] show ?thesis using c3(2) g1(2) st2(2) free Inr by simp
    qed
  qed
qed simp

text \<open>
  What can happen: a packet comes down while the queue is not stopped, a transfer completes, the MHI core gives
  descriptors back, the receive ring is refilled, or data are announced.
\<close>

inductive net_step :: "dma_map_fn \<Rightarrow> nat \<Rightarrow> nat \<Rightarrow> net_sys \<Rightarrow> net_sys \<Rightarrow> bool" for dma ul dl where
  step_xmit: "\<not> real_stopped (ns_dev st) \<Longrightarrow> net_step dma ul dl st (mhi_netdev_xmit dma ul a sb st)"
| step_complete: "net_step dma ul dl st (mhi_netdev_xfer_ul_cb ul res st)"
| step_core: "length (mhi_chans c) = length (mhi_chans (ns_ctl st)) \<Longrightarrow> chan_fit (chan_at c ul) \<Longrightarrow> chan_fit (chan_at c dl) \<Longrightarrow>
    mhi_get_no_free_descriptors (chan_at (ns_ctl st) ul) \<le> mhi_get_no_free_descriptors (chan_at c ul) \<Longrightarrow>
    net_step dma ul dl st (st\<lparr>ns_ctl := c\<rparr>)"
| step_received: "mhi_netdev_xfer_dl_cb mem res st = Some st' \<Longrightarrow> net_step dma ul dl st st'"
| step_refill: "mhi_netdev_alloc_skb dma dl alloc st = (r, st') \<Longrightarrow> net_step dma ul dl st st'"
| step_work: "net_step dma ul dl st (mhi_netdev_alloc_work dma dl alloc st)"
| step_status: "net_step dma ul dl st (mhi_netdev_status_cb mhi_cb st)"

inductive net_run :: "dma_map_fn \<Rightarrow> nat \<Rightarrow> nat \<Rightarrow> net_sys \<Rightarrow> net_sys \<Rightarrow> bool" for dma ul dl where
  run_none: "net_run dma ul dl st st"
| run_step: "net_run dma ul dl st st' \<Longrightarrow> net_step dma ul dl st' st'' \<Longrightarrow> net_run dma ul dl st st''"

lemma ul_inv_cong:
  assumes "ul_inv ul dl st" and "ns_ctl st' = ns_ctl st" and "nn_ndev (ns_dev st') = nn_ndev (ns_dev st)"
  shows "ul_inv ul dl st'"
  using assms real_stopped_cong [OF assms(3)] by (simp add: ul_inv_def ul_free_def chans_ok_def)

lemma refill_inv:
  assumes "ul_inv ul dl st" and "mhi_netdev_alloc_skb dma dl alloc st = (r, st')"
  shows "ul_inv ul dl st'"
proof -
  have ok: "chans_ok ul dl st" using assms(1) by (simp add: ul_inv_def)
  note l = alloc_loop_inv [OF ok assms(2) [unfolded mhi_netdev_alloc_skb_def]]
  then have "real_stopped (ns_dev st') = real_stopped (ns_dev st)" by (intro real_stopped_cong) simp
  then show ?thesis using l assms(1) by (simp add: ul_inv_def ul_free_def)
qed

lemma set_alloc_work_inv: "ul_inv ul dl st \<Longrightarrow> ul_inv ul dl (set_alloc_work b st)"
  by (erule ul_inv_cong) (simp_all add: set_alloc_work_def)

lemma step_inv:
  assumes "net_step dma ul dl st st'" and "ul_inv ul dl st"
  shows "ul_inv ul dl st'"
  using assms
proof cases
  case (step_xmit a sb)
  then show ?thesis using xmit_inv [OF assms(2)] by simp
next
  case (step_complete res)
  then show ?thesis using ul_cb_inv [OF assms(2)] by simp
next
  case (step_core c)
  then show ?thesis using assms(2) by (auto simp: ul_inv_def ul_free_def chans_ok_def)
next
  case (step_received mem res)
  then show ?thesis using assms(2)
    by (elim ul_inv_cong) (auto simp: mhi_netdev_xfer_dl_cb_def skb_free_def Let_def split: option.splits if_splits)
next
  case (step_refill alloc r)
  then show ?thesis using refill_inv [OF assms(2)] by blast
next
  case (step_work alloc)
  obtain r st1 where a: "mhi_netdev_alloc_skb dma dl alloc (set_alloc_work False st) = (r, st1)" by fastforce
  have "ul_inv ul dl st1" by (rule refill_inv [OF set_alloc_work_inv [OF assms(2)] a])
  then show ?thesis using a step_work set_alloc_work_inv by (simp add: mhi_netdev_alloc_work_def)
next
  case (step_status mhi_cb)
  then show ?thesis using assms(2) by (elim ul_inv_cong) (auto simp: mhi_netdev_status_cb_def)
qed

lemma run_inv: "net_run dma ul dl st st' \<Longrightarrow> ul_inv ul dl st \<Longrightarrow> ul_inv ul dl st'"
  by (induction rule: net_run.induct) (blast intro: step_inv)+

text \<open>
  (C10) The queue of the uplink is stopped in time. However packets, completions, returned descriptors and refills
  follow each other, when the stack may hand over a packet (the queue is not stopped) there are at least 15 free
  descriptors, so that a packet is never lost because the transfer ring is full: when it cannot be queued, the
  device is in an error state or the buffer could not be mapped.
\<close>

theorem uplink_never_full:
  assumes "ul_inv ul dl st" and "net_run dma ul dl st st'" and "\<not> real_stopped (ns_dev st')"
  shows "15 \<le> ul_free ul st' \<and> \<not> mhi_is_ring_full (tre_ring (chan_at (ns_ctl st') ul)) \<and>
    (\<forall>a da len. fst (queue_transfer dma ul a da len (ns_ctl st')) =
       (if MHI_PM_IN_ERROR_STATE (pm_state (ns_ctl st')) then Inl EIO
        else if snd (dma da len (ch_dir (chan_at (ns_ctl st') ul))) then Inl ENOMEM else Inr ()))"
proof -
  have i: "ul_inv ul dl st'" by (rule run_inv [OF assms(2,1)])
  then have f: "15 \<le> ul_free ul st'" using assms(3) by (simp add: ul_inv_def)
  have ok: "ul < length (mhi_chans (ns_ctl st'))" "chan_fit (chan_at (ns_ctl st') ul)" using i by (simp_all add: ul_inv_def chans_ok_def)
  have nf: "\<not> mhi_is_ring_full (tre_ring (chan_at (ns_ctl st') ul))" using f free_full [OF ok(2)] by (simp add: ul_free_def)
  have "fst (queue_transfer dma ul a da len (ns_ctl st')) =
       (if MHI_PM_IN_ERROR_STATE (pm_state (ns_ctl st')) then Inl EIO
        else if snd (dma da len (ch_dir (chan_at (ns_ctl st') ul))) then Inl ENOMEM else Inr ())" for a da len
    using queue_transfer_fit(6) [OF ok, of dma a da len "fst (queue_transfer dma ul a da len (ns_ctl st'))"
        "snd (queue_transfer dma ul a da len (ns_ctl st'))"] nf by simp
  then show ?thesis using f nf by blast
qed

text \<open>
  A completed transfer wakes the queue of the device and of every channel when more than 32 descriptors are
  free again and the driver is enabled; below that nothing is woken. The buffer is freed in either case.
\<close>

theorem completion_wakes:
  assumes "ns_skbs st (res_buf_addr res) = Some sb" and "sb_bound sb" and "res_transaction_status res = None"
    and "nn_ndev (ns_dev st) = Some n" and "nd_stopped n" and "nn_enabled (ns_dev st)"
  shows "let st' = mhi_netdev_xfer_ul_cb ul res st; d' = ns_dev st' in
    ns_skbs st' (res_buf_addr res) = None \<and> real_stopped d' = (ul_free ul st \<le> 32) \<and>
    st_tx_packets (nn_stats d') = st_tx_packets (nn_stats (ns_dev st)) + 1 \<and>
    (32 < ul_free ul st \<longrightarrow> (\<forall>i < unat (nn_qmap_mode (ns_dev st)). \<forall>p. vnd_at d' i = Vnd p \<longrightarrow> \<not> nd_stopped (vp_net p)))"
proof (cases "32 < ul_free ul st")
  case True
  let ?d = "queues_set False (mhi_netdev_upate_tx_stats 1 (sb_length sb) (ns_dev st))"
  have e: "mhi_netdev_xfer_ul_cb ul res st = skb_free (res_buf_addr res) (st\<lparr>ns_dev := ?d\<rparr>)"
    using assms True by (simp add: mhi_netdev_xfer_ul_cb_def ul_free_def real_stopped_def Let_def)
  have v: "\<not> nd_stopped (vp_net p)" if "i < unat (nn_qmap_mode (ns_dev st))" "vnd_at ?d i = Vnd p" for i p
    using that
    by (auto simp: queues_set_def real_stop_def vnd_at_def Let_def mhi_netdev_upate_tx_stats_def nth_append vnd_stop_def
        split: if_splits vnd_slot.splits)
  show ?thesis using True assms(4) v
    by (simp add: e skb_free_def real_stopped_def queues_set_def real_stop_def mhi_netdev_upate_tx_stats_def tx_stats_def Let_def)
next
  case False
  have "mhi_netdev_xfer_ul_cb ul res st =
      skb_free (res_buf_addr res) (st\<lparr>ns_dev := mhi_netdev_upate_tx_stats 1 (sb_length sb) (ns_dev st)\<rparr>)"
    using assms False by (simp add: mhi_netdev_xfer_ul_cb_def ul_free_def real_stopped_def Let_def)
  then show ?thesis using False assms(4,5)
    by (simp add: skb_free_def real_stopped_def mhi_netdev_upate_tx_stats_def tx_stats_def Let_def)
qed

subsection \<open>Refilling the receive ring\<close>

lemma alloc_loop_ok:
  assumes "chans_ok ul dl st" and "nn_enabled (ns_dev st)" and "\<not> MHI_PM_IN_ERROR_STATE (pm_state (ns_ctl st))"
    and "\<forall>a len dir. \<not> snd (dma a len dir)" and "\<forall>k. alloc k \<noteq> None" and "int k \<le> ul_free dl st"
  shows "\<exists>st'. alloc_skb_loop dma dl alloc k st = (Inr (), st')"
  using assms
proof (induction k arbitrary: st)
  case (Suc k)
  obtain x where x: "alloc (ns_allocs st) = Some x" using Suc.prems(5) by blast
  obtain a st1 where g: "rx_get alloc st = (Some a, st1)"
    using x by (cases "nn_rx_allocated (ns_dev st)"; cases x) (simp_all add: rx_get_def Let_def)
  then have g1: "ns_ctl st1 = ns_ctl st" "nn_enabled (ns_dev st1)"
    using Suc.prems(2) by (auto simp: rx_get_def Let_def split: list.splits option.splits)
  let ?st2 = "rx_bind True a st1"
  obtain r c where q: "queue_transfer dma dl a (rx_data_at a ?st2) (ucast (nn_mru (ns_dev ?st2))) (ns_ctl ?st2) = (r, c)" by fastforce
  have st2: "ns_ctl ?st2 = ns_ctl st" "ns_dev ?st2 = ns_dev st1" using g1 by (simp_all add: rx_bind_def)
  have ok: "dl < length (mhi_chans (ns_ctl st))" "chan_fit (chan_at (ns_ctl st) dl)" "ul \<noteq> dl"
    using Suc.prems(1) by (simp_all add: chans_ok_def)
  note t = queue_transfer_fit [OF ok(1,2) q [unfolded st2(1)]]
  have "\<not> mhi_is_ring_full (tre_ring (chan_at (ns_ctl st) dl))" using free_full [OF ok(2)] Suc.prems(6) by (simp add: ul_free_def)
  then have r: "r = Inr ()" using t(6) Suc.prems(3,4) by simp
  let ?st3 = "?st2\<lparr>ns_ctl := c\<rparr>"
  have "chans_ok ul dl ?st3" using Suc.prems(1) t(1,2) t(5) [OF ok(3)] by (auto simp: chans_ok_def)
  moreover have "int k \<le> ul_free dl ?st3" using t(4) r Suc.prems(6) by (simp add: ul_free_def)
  ultimately have "\<exists>st'. alloc_skb_loop dma dl alloc k ?st3 = (Inr (), st')"
    using Suc.prems(3,4,5) t(3) g1(2) st2 by (intro Suc.IH) simp_all
  then show ?case using g g1(2) q r by (simp add: Let_def)
qed simp

text \<open>
  Refilling the receive ring: when buffers can be allocated and mapped, the driver is enabled and the device is
  not in an error state, every free descriptor of the downlink gets a buffer, so that none is left; the uplink is
  not touched.
\<close>

theorem rx_ring_refilled:
  assumes "chans_ok ul dl st" and "nn_enabled (ns_dev st)" and "\<not> MHI_PM_IN_ERROR_STATE (pm_state (ns_ctl st))"
    and "\<forall>a len dir. \<not> snd (dma a len dir)" and "\<forall>k. alloc k \<noteq> None"
  shows "\<exists>st'. mhi_netdev_alloc_skb dma dl alloc st = (Inr (), st') \<and> ul_free dl st' = 0 \<and>
    mhi_is_ring_full (tre_ring (chan_at (ns_ctl st') dl)) \<and> chan_at (ns_ctl st') ul = chan_at (ns_ctl st) ul"
proof -
  let ?k = "nat (ul_free dl st)"
  have fit: "chan_fit (chan_at (ns_ctl st) dl)" using assms(1) by (simp add: chans_ok_def)
  have k: "int ?k = ul_free dl st" using free_nonneg [OF fit] by (simp add: ul_free_def)
  obtain st' where run: "alloc_skb_loop dma dl alloc ?k st = (Inr (), st')"
    using alloc_loop_ok [OF assms, of ?k] k by auto
  note i = alloc_loop_inv [OF assms(1) run]
  have "ul_free dl st' = 0" using i k by simp
  moreover have "chan_fit (chan_at (ns_ctl st') dl)" using i by (simp add: chans_ok_def)
  ultimately show ?thesis using run i free_full by (auto simp: mhi_netdev_alloc_skb_def ul_free_def)
qed

end
