(* ===== verification/Qmap_Examples.thy ===== *)
theory Qmap_Examples
  imports Qmap_Tx
begin

text \<open>
  Concrete devices and packets for the USB driver: a fast module with two channels (QMAP version 9), an older
  module with two channels (version 5), IP packets and aggregates. The theorems of the driver are applied to them.
\<close>

definition demo_net :: net_device where
  "demo_net = (rmnet_usb_ether_setup ''wwan0'')\<lparr>nd_addr := [0x02, 0, 0, 0, 0, 0xFE]\<rparr>"

definition demo_bound :: "sQmiWwanQmap \<times> u32 \<times> u32" where
  "demo_bound = qmi_wwan_bind default_modem_addr 2 0x0920 0x0800 True True 2 demo_net"

definition demo_old_bound :: "sQmiWwanQmap \<times> u32 \<times> u32" where
  "demo_old_bound = qmi_wwan_bind default_modem_addr 2 0x0504 0x0125 False True 0 demo_net"

definition demo_dev :: sQmiWwanQmap where
  "demo_dev = qmap_qmi_wwan_probe (\<lambda>i. None) (\<lambda>i. (0, 0)) (fst demo_bound)"

text \<open>The second channel could not be registered.\<close>

definition demo_half :: sQmiWwanQmap where
  "demo_half = qmap_qmi_wwan_probe (\<lambda>i. if i = 1 then Some ENOMEM else None) (\<lambda>i. (0, 0)) (fst demo_bound)"

definition demo_skb :: sk_buff where
  "demo_skb = \<lparr>sk_head = replicate 16 0, sk_data = [0x45, 0, 0, 9, 1], sk_tail = [0xAA, 0xBB, 0xCC, 0xDD], sk_protocol = 0x0800\<rparr>"

definition demo_frames :: "rx_frame list" where
  "demo_frames =
     [\<lparr>rf_v5 = True, rf_chan = 0, rf_payload = [0x45, 1, 2], rf_padding = [0]\<rparr>,
      \<lparr>rf_v5 = False, rf_chan = 1, rf_payload = [0x60, 7], rf_padding = [0, 0]\<rparr>]"

definition demo_chan :: qmap_priv where
  "demo_chan = channel_priv (0, 0) 0 (fst demo_bound)"

definition demo_env :: tx_env where
  "demo_env = \<lparr>te_now = (\<lambda>k. (0, 5)), te_agg_alloc = (\<lambda>k. True), te_one_alloc = (\<lambda>k. True), te_xmit_more = True,
     te_agg_time_limit = 1000000, te_agg_bypass_time = 10000000\<rparr>"

lemma demo_dev_eval: "rx_ready demo_dev" "q_qmap_mode demo_dev = 2" "q_qmap_version demo_dev = 9"
  "q_dl_minimum_padding demo_dev = 0"
  by code_simp+

theorem add_qhdr_frames_witness:
  "(\<exists>skb' p. add_qhdr demo_skb 0x81 None = Some (skb', []) \<and> length p \<le> 3 \<and>
      sk_data skb' = qmap_frame False 0x81 (sk_data demo_skb) p) \<and>
    (\<exists>skb' p. add_qhdr_v5 demo_skb 0x81 None = Some (skb', []) \<and> length p \<le> 3 \<and>
      sk_data skb' = qmap_frame True 0x81 (sk_data demo_skb) p) \<and>
    (\<exists>skb' hdr p. add_qhdr demo_skb 0x81 (Some 1) = Some (skb', hdr) \<and> length p \<le> 3 \<and>
      hdr @ drop 1 (sk_data skb') = qmap_frame False 0x81 (drop 1 (sk_data demo_skb)) p) \<and>
    (\<exists>skb' hdr p. add_qhdr_v5 demo_skb 0x81 (Some 1) = Some (skb', hdr) \<and> length p \<le> 3 \<and>
      hdr @ drop 1 (sk_data skb') = qmap_frame True 0x81 (drop 1 (sk_data demo_skb)) p)"
  by (rule add_qhdr_frames) (simp_all add: demo_skb_def)


theorem probe_registers_channels_witness:
  "\<exists>ps. q_nets demo_dev = map QmapNet ps @ replicate 2 NoNet \<and> length ps = 2 \<and> distinct (map qp_mux_id ps) \<and>
    distinct (nd_addr (q_real demo_dev) # map (\<lambda>p. nd_addr (qp_net p)) ps)"
proof -
  obtain q m u where b: "demo_bound = (q, m, u)" by (cases demo_bound)
  have f: "fst demo_bound = q" using arg_cong [OF b, of fst] by simp
  have d: "demo_dev = qmap_qmi_wwan_probe (\<lambda>i. None) (\<lambda>i. (0, 0)) q" "fst demo_bound = q" unfolding demo_dev_def f by (rule refl)+
  have "q_use_rmnet_usb (fst demo_bound)" "2 = unat (q_qmap_mode (fst demo_bound))"
    "length (nd_addr demo_net) = 6" "length default_modem_addr = 6" by code_simp+
  from probe_registers_channels [OF b [unfolded demo_bound_def] this(1) [unfolded d(2)] this(3,4) d(1) this(2) [unfolded d(2)]]
  show ?thesis by auto
qed

theorem first_link_up_lost_witness:
  "let q = qmap_qmi_wwan_probe (\<lambda>i. None) (\<lambda>i. (0, 0)) (fst demo_old_bound)
   in link_state_store 1 q = q \<and> (\<exists>p. slot_at q 0 = QmapNet p \<and> \<not> qp_link_state p \<and> \<not> nd_carrier (qp_net p))"
proof -
  obtain q m u where b: "demo_old_bound = (q, m, u)" by (cases demo_old_bound)
  have d: "fst demo_old_bound = q" using arg_cong [OF b, of fst] by simp
  have "1 < q_qmap_mode (fst demo_old_bound)" "\<not> lte_a_product 0x0125" "\<not> False" by code_simp+
  from first_link_up_lost [OF b [unfolded demo_old_bound_def] this(2,3,1) [unfolded d] refl, of "\<lambda>i. (0, 0)"]
  show ?thesis unfolding Let_def d .
qed


theorem qmap_packet_decode_hangs_witness:
  "qmap_packet_decode demo_half (\<lambda>k. True) [0, 0x82, 0x01, 0, 0x45] = None"
  by (rule qmap_packet_decode_hangs) code_simp+

theorem rmnet_usb_rx_roundtrip_witness:
  "rmnet_usb_rx_handler demo_dev (\<lambda>k. True) False
      \<lparr>sk_head = [], sk_data = concat (map frame_bytes demo_frames), sk_tail = [], sk_protocol = ETH_P_MAP\<rparr> =
     Some (Some [\<lparr>rx_chan = 0, rx_data = [0x45, 1, 2], rx_protocol = ETH_P_IP\<rparr>,
                 \<lparr>rx_chan = 1, rx_data = [0x60, 7], rx_protocol = ETH_P_IPV6\<rparr>])"
proof -
  have e: "slot_at demo_dev 0 \<noteq> NoNet" "slot_at demo_dev 1 \<noteq> NoNet"
    "nd_mtu (slot_net demo_dev (slot_at demo_dev 0)) = 1500" "nd_mtu (slot_net demo_dev (slot_at demo_dev 1)) = 1500"
    "length (bridge_mode_rx_fixup demo_dev (slot_at demo_dev 0)) = 6"
    "length (bridge_mode_rx_fixup demo_dev (slot_at demo_dev 1)) = 6" by code_simp+
  then have "\<forall>f \<in> set demo_frames. frame_ok demo_dev f"
    "\<forall>f \<in> set demo_frames. length (bridge_mode_rx_fixup demo_dev (slot_at demo_dev (rf_chan f))) = 6"
    by (simp_all add: demo_frames_def frame_ok_def demo_dev_eval)
  moreover have "qmap_wf demo_dev" using demo_dev_eval(1) by (simp add: rx_ready_def)
  moreover have "map (\<lambda>f. \<lparr>rx_chan = rf_chan f, rx_data = rf_payload f, rx_protocol = frame_protocol f\<rparr>) demo_frames =
      [\<lparr>rx_chan = 0, rx_data = [0x45, 1, 2], rx_protocol = ETH_P_IP\<rparr>,
       \<lparr>rx_chan = 1, rx_data = [0x60, 7], rx_protocol = ETH_P_IPV6\<rparr>]"
    by (simp add: demo_frames_def frame_protocol_def)
  ultimately show ?thesis
    using rmnet_usb_rx_roundtrip [of demo_dev demo_frames
    "\<lparr>sk_head = [], sk_data = concat (map frame_bytes demo_frames), sk_tail = [], sk_protocol = ETH_P_MAP\<rparr>"] demo_dev_eval(4)
    by simp
qed

theorem uplink_aggregation_stream_witness:
  "\<exists>p' out pss rest. tx_run 2 100 [EvXmit demo_env demo_skb, EvTimer, EvXmit demo_env demo_skb, EvXmit demo_env demo_skb] demo_chan = Some (p', out) \<and>
    map sk_data out = map (\<lambda>ps. concat (map (chan_frame demo_chan) ps)) pss \<and>
    map fst (concat pss @ rest) = [sk_data demo_skb, sk_data demo_skb, sk_data demo_skb]"
proof -
  let ?evs = "[EvXmit demo_env demo_skb, EvTimer, EvXmit demo_env demo_skb, EvXmit demo_env demo_skb]"
  have c: "qp_agg_skb demo_chan = None" "qp_agg_count demo_chan = 0" "tx_sendable demo_chan" "ip_off demo_chan = 0" by code_simp+
  have f: "\<forall>ev \<in> set ?evs. tx_fits (ip_off demo_chan) 100 ev"
    by (simp add: tx_fits_def c(4) demo_skb_def demo_env_def)
  have p: "tx_payloads (ip_off demo_chan) ?evs = [sk_data demo_skb, sk_data demo_skb, sk_data demo_skb]"
    by (simp add: tx_payloads_def c(4))
  show ?thesis using uplink_aggregation_stream [of 2 100 demo_chan ?evs, OF _ _ c(1,2,3) f] p by auto
qed

end
