(* ===== verification/Net_Examples.thy ===== *)
theory Net_Examples
  imports Net_Xfer Qmap_Examples
begin

text \<open>
  A probed network interface with two QMAP channels, one with an MBIM channel, an interface on two open MHI
  channels of 64 descriptors, and the properties of the network driver applied to them.
\<close>

subsection \<open>Interfaces\<close>

definition probe_ok :: probe_env where
  "probe_ok = \<lparr>pb_mem = True, pb_prep = Inr (), pb_alloc = True, pb_reg = Inr (), pb_rx = Inr ()\<rparr>"

definition probed :: "bool \<Rightarrow> u32 \<Rightarrow> mhi_netdev" where
  "probed mbim mode =
     (case mhi_netdev_probe probe_ok mbim mode 0 (\<lambda>i. True) (\<lambda>i. True) ''IP_HW0'' 0 0x17cb 0x0306 of
        Some (Inr d) \<Rightarrow> d | _ \<Rightarrow> zero_netdev)"

definition demo_if :: mhi_netdev where "demo_if = probed False 2"
definition demo_mbim :: mhi_netdev where "demo_mbim = probed True 2"

text \<open>The channels of the USB example on the MHI interface.\<close>

definition twin_vnd :: "nat \<Rightarrow> vnd_slot" where
  "twin_vnd i =
     (case (slot_at demo_dev i, vnd_at demo_if i) of
        (QmapNet q, Vnd p) \<Rightarrow> Vnd (p\<lparr>vp_net := qp_net q, vp_bridge_mode := qp_bridge_mode q, vp_bridge_mac := qp_bridge_mac q\<rparr>)
      | _ \<Rightarrow> NoVnd)"

definition demo_twin :: mhi_netdev where
  "demo_twin = demo_if\<lparr>nn_nets := [twin_vnd 0, twin_vnd 1] @ replicate 6 NoVnd\<rparr>"

lemma demo_if_eval: "net_ready demo_if" "nn_qmap_mode demo_if = 2" "nn_flow_control demo_if = 0"
  by code_simp+

theorem mhi_netdev_probe_result_witness:
  "\<exists>d. mhi_netdev_probe probe_ok False 2 0 (\<lambda>i. True) (\<lambda>i. i \<noteq> 1) ''IP_HW0'' 0 0x17cb 0x0306 = Some (Inr d) \<and>
    nn_nets d ! 1 = DanglingVnd \<and> nn_nets d ! 2 = NoVnd \<and> (\<exists>p. nn_nets d ! 0 = Vnd p \<and> vp_mux_id p = 0x81)"
proof -
  have "\<not> (8::u32) < 2" by simp
  then show ?thesis
    using mhi_netdev_probe_result [of probe_ok _ False 2 0 "\<lambda>i. True" "\<lambda>i. i \<noteq> 1" 0 "0x17cb" "0x0306", OF _ _ _ _ refl]
    by (fastforce simp: probe_ok_def)
qed

subsection \<open>Receiving\<close>

definition rx_buf :: "bytes \<Rightarrow> sk_buff" where
  "rx_buf b = \<lparr>sk_head = [], sk_data = b, sk_tail = replicate 32 0, sk_protocol = ETH_P_MAP\<rparr>"

theorem rmnet_qmi_rx_safe_witness:
  "\<exists>e s. rmnet_qmi_rx_handler (\<lambda>k. k \<noteq> 1) demo_if (rx_buf [0, 0x81, 0, 3, 0x45, 1, 2, 0, 0x82, 0, 1, 0x60]) = Some (e, s) \<and>
    e \<noteq> NrBad \<and> subseq (concat (map np_data (nr_chain s))) [0, 0x81, 0, 3, 0x45, 1, 2, 0, 0x82, 0, 1, 0x60]"
  using rmnet_qmi_rx_safe [OF demo_if_eval(1), of "\<lambda>k. k \<noteq> 1" "rx_buf [0, 0x81, 0, 3, 0x45, 1, 2, 0, 0x82, 0, 1, 0x60]"]
  by (auto simp: rx_buf_def)

definition flow_cmd :: bytes where
  "flow_cmd = [0x80, 0x82, 0, 16, 2, 0, 0, 0, 0, 0, 0, 7, 0, 1, 0, 0, 0, 0, 0, 0]"

theorem rmnet_map_flow_control_witness:
  "\<exists>s. rmnet_qmi_rx_handler (\<lambda>k. True) demo_if (rx_buf flow_cmd) = Some (NrEnd, s) \<and>
    bit (nn_flow_control (nr_dev s)) 1 \<and> \<not> bit (nn_flow_control (nr_dev s)) 0 \<and> length (nr_acks s) = 1"
proof -
  have h: "rx_mux (map_header flow_cmd) = 1" "mh_cd_bit (map_header flow_cmd)" "flow_cmd ! 4 = 2"
    "length flow_cmd = unat (mh_pkt_len (map_header flow_cmd)) + map_hdr_size (map_header flow_cmd)" "length flow_cmd = 20"
    "net_skb_len demo_if (map_header flow_cmd) = 16" by code_simp+
  have d: "rx_mux (map_header flow_cmd) < nn_qmap_mode demo_if" "nn_qmap_mode demo_if \<le> 8" by (simp_all add: h demo_if_eval)
  have "unat (rx_mux (map_header flow_cmd)) = 1" using h(1) by simp
  have "case vnd_at demo_if 1 of Vnd p \<Rightarrow> 16 \<le> nd_mtu (vp_net p) | _ \<Rightarrow> False" by code_simp
  then obtain p where p: "vnd_at demo_if 1 = Vnd p" "16 \<le> nd_mtu (vp_net p)" by (auto split: vnd_slot.splits)
  have v: "vnd_at demo_if (unat (rx_mux (map_header flow_cmd))) = Vnd p" "net_skb_len demo_if (map_header flow_cmd) \<le> nd_mtu (vp_net p)"
    using p h by simp_all
  have m: "4 < length flow_cmd" "20 \<le> length (flow_cmd @ sk_tail (rx_buf flow_cmd))" "sk_data (rx_buf flow_cmd) = flow_cmd"
    using h(5) by (simp_all add: rx_buf_def)
  from rmnet_map_flow_control [OF demo_if_eval(1) d v h(2,4) disjI2 [OF h(3)] m] show ?thesis
    using h(1,3) demo_if_eval(3) by fastforce
qed

theorem rmnet_rx_agree_witness:
  "\<exists>x y. qmap_packet_decode demo_dev (\<lambda>k. True) [0, 0x81, 0, 3, 0x45, 1, 2] = Some x \<and>
    rmnet_qmi_rx_handler (\<lambda>k. True) demo_twin (rx_buf [0, 0x81, 0, 3, 0x45, 1, 2]) = Some y \<and>
    end_match (fst x) (fst y) \<and> list_all2 pkt_match (snd x) (nr_chain (snd y))"
proof -
  have "dev_match demo_dev demo_twin" by code_simp
  from rmnet_rx_agree [OF this, of "rx_buf [0, 0x81, 0, 3, 0x45, 1, 2]"] show ?thesis by (simp add: rx_buf_def)
qed

subsection \<open>MBIM\<close>

lemma demo_mbim_eval: "nn_mbim_mux_id demo_mbim = 0" "length (nn_nets demo_mbim) = 8" "mb_rx_max (nn_mbim_ctx demo_mbim) = 32768"
  by code_simp+

definition tx_buf :: sk_buff where
  "tx_buf = \<lparr>sk_head = replicate 32 0, sk_data = [0x45, 1, 2], sk_tail = [], sk_protocol = ETH_P_IP\<rparr>"

theorem mbim_roundtrip_witness:
  "\<exists>skb1 s. add_mbim_hdr 2 tx_buf 1 = Some skb1 \<and>
    rmnet_mbim_rx_handler 2 (\<lambda>k. True) demo_mbim (rx_buf (mbim_set_seq 7 (sk_data skb1))) = Some (NrEnd, s) \<and>
    map np_data (nr_chain s) = [[0x45, 1, 2]] \<and> map np_chan (nr_chain s) = [1]"
proof -
  obtain skb1 where a: "add_mbim_hdr 2 tx_buf 1 = Some skb1"
    by (simp add: add_mbim_hdr_def tx_buf_def sizeof_mbim_hdr_def skb_push_data_def mbim_hdr_def nth16_sign_def
        ips_sign_def le16_bytes_def)
  have "case vnd_at demo_mbim 1 of Vnd p \<Rightarrow> True | _ \<Rightarrow> False" by code_simp
  then obtain p where p: "vnd_at demo_mbim 1 = Vnd p" by (auto split: vnd_slot.splits)
  have m: "(2::u32) = 1 \<and> (1::nat) = 0 \<or> (1::u32) < 2 \<and> 1 < unat (2::u32)" by simp
  from a have a': "add_mbim_hdr 2 tx_buf (ucast (nn_mbim_mux_id demo_mbim) + word_of_nat 1) = Some skb1" by (simp add: demo_mbim_eval)
  have "rmnet_mbim_rx_handler 2 (\<lambda>k. True) demo_mbim (rx_buf (mbim_set_seq 7 (sk_data skb1))) =
    Some (NrEnd, \<lparr>nr_dev = vnd_put 1 (rmnet_vnd_upate_rx_stats 1 (word_of_nat (length (sk_data tx_buf))) p) (set_rx_seq (7 + 1) demo_mbim),
      nr_acks = [], nr_allocs = 1,
      nr_chain = (let pr = if (sk_data tx_buf ! 0) AND 0xF0 = 0x40 then ETH_P_IP else ETH_P_IPV6
                  in [\<lparr>np_chan = 1, np_mac = net_mac_header (set_rx_seq (7 + 1) demo_mbim) p pr, np_data = sk_data tx_buf, np_protocol = pr\<rparr>])\<rparr>)"
    by (rule mbim_roundtrip [OF a' _ m p]) (simp_all add: demo_mbim_eval tx_buf_def rx_buf_def)
  then show ?thesis using a by (simp add: tx_buf_def)
qed

text \<open>A block with one table, for session \<open>tci\<close>, without datagrams; \<open>next\<close> is the offset of the next table.\<close>

definition ndp_block :: "u8 \<Rightarrow> u8 \<Rightarrow> bytes" where
  "ndp_block tci next = [0x4E, 0x43, 0x4D, 0x48, 12, 0, 0, 0, 28, 0, 12, 0, 0x49, 0x50, 0x53, tci, 16, 0, next, 0, 0, 0, 0, 0, 0, 0, 0, 0]"


lemma ndp_block_ok: "mbim_block demo_mbim (ndp_block t n) 12 (ucast t)"
  using demo_mbim_eval(3) by (simp add: mbim_block_def ndp_block_def nth16_sign_def rd16_def ndp_tci_def ips_sign_def)

theorem mbim_rx_hangs_witness: "rmnet_mbim_rx_handler 2 (\<lambda>k. True) demo_mbim (rx_buf (ndp_block 1 12)) = None"
proof (rule mbim_rx_hangs)
  show "mbim_block demo_mbim (sk_data (rx_buf (ndp_block 1 12))) 12 (ucast (1 :: u8))"
    using ndp_block_ok [of 1 12] by (simp add: rx_buf_def)
  show "mbim_slot 2 (nn_mbim_mux_id demo_mbim) (ucast (1 :: u8)) = Some 0" by (simp add: demo_mbim_eval mbim_slot_def)
qed (simp_all add: demo_mbim_eval rx_buf_def ndp_block_def rd16_def)

theorem mbim_session_below_first_witness:
  "\<exists>s. rmnet_mbim_rx_handler 2 (\<lambda>k. True) demo_mbim (rx_buf (ndp_block 0 0)) = Some (NrBad, s)"
  using mbim_session_below_first [of demo_mbim "rx_buf (ndp_block 0 0)" 12 "ucast (0 :: u8)" 2 "\<lambda>k. True"] ndp_block_ok [of 0 0]
  by (simp add: rx_buf_def demo_mbim_eval)

subsection \<open>The data path\<close>

definition ring64 :: "u64 \<Rightarrow> 'e \<Rightarrow> 'e mhi_ring" where
  "ring64 b e = (zero_ring e)\<lparr>ring_base := b, ring_iommu_base := b, ring_el_size := 16, ring_len := 1024,
     ring_elements := 64, ring_rp := b, ring_wp := b, ring_ctxt_rp := b, ring_ctxt_rbase := b\<rparr>"

lemma ring64_sel [simp]:
  "ring_base (ring64 b e) = b" "ring_el_size (ring64 b e) = 16" "ring_len (ring64 b e) = 1024"
  "ring_elements (ring64 b e) = 64" "ring_rp (ring64 b e) = b" "ring_wp (ring64 b e) = b"
  by (simp_all add: ring64_def zero_ring_def)

lemma ring64_wf [simp]: "ring_wf (ring64 0x1000 e)" "ring_wf (ring64 0x2000 e)" "ring_used (ring64 b e) = 0"
  by (simp_all add: ring_wf_def ring_geom_def valid_ptr_def ring_used_def ring64_def zero_ring_def)

definition chan64 :: mhi_chan where
  "chan64 = zero_chan\<lparr>ch_dir := DMA_TO_DEVICE, tre_ring := ring64 0x1000 zero_tre, buf_ring := ring64 0x2000 zero_buf_info\<rparr>"

lemma chan64_fit: "chan_fit chan64" "mhi_get_no_free_descriptors chan64 = 63"
proof -
  show f: "chan_fit chan64" by (simp add: chan_fit_def chan_sync_def chan64_def zero_chan_def)
  show "mhi_get_no_free_descriptors chan64 = 63" using free_descriptors [OF f] by (simp add: chan64_def)
qed

definition map_all :: dma_map_fn where "map_all a len dir = (a, False)"

definition demo_ctl :: mhi_controller where
  "demo_ctl = (zero_controller (\<lambda>_. 0))\<lparr>mhi_chans := [chan64, chan64], pm_state := MHI_PM_M0\<rparr>"

definition demo_sys :: net_sys where
  "demo_sys = \<lparr>ns_dev = demo_if, ns_ctl = demo_ctl, ns_skbs = (\<lambda>a. None), ns_napi = False, ns_allocs = 0,
     ns_packets = [], ns_raw = [], ns_acks = []\<rparr>"

definition demo_sb :: net_skb where
  "demo_sb = \<lparr>sb_skb = rx_buf [0, 0x81, 0, 4, 0x45, 0, 0, 0], sb_data = 0x8100, sb_bound = False, sb_length = 0\<rparr>"

lemma demo_sys_sel [simp]: "mhi_chans (ns_ctl demo_sys) = [chan64, chan64]" "pm_state (ns_ctl demo_sys) = MHI_PM_M0"
  "ns_dev demo_sys = demo_if" "chan_at (ns_ctl demo_sys) 0 = chan64" "chan_at (ns_ctl demo_sys) 1 = chan64"
  "chan_at (ns_ctl demo_sys) (Suc 0) = chan64"
  by (simp_all add: demo_sys_def demo_ctl_def chan_at_def)

lemma demo_sys_inv: "ul_inv 0 1 demo_sys" "chans_ok 0 1 demo_sys"
  by (simp_all add: ul_inv_def chans_ok_def chan64_fit ul_free_def)

lemma demo_if_running: "\<not> real_stopped demo_if" "nn_net_type demo_if = MHI_NET_RMNET" "nn_enabled demo_if"
  by code_simp+

lemma not_m0_error: "\<not> MHI_PM_IN_ERROR_STATE MHI_PM_M0"
  by (simp add: pm_classes pm_consts)

theorem uplink_never_full_witness:
  "let st = mhi_netdev_xmit map_all 0 0x8000 demo_sb demo_sys
   in 15 \<le> ul_free 0 st \<and> \<not> mhi_is_ring_full (tre_ring (chan_at (ns_ctl st) 0))"
proof -
  let ?st = "mhi_netdev_xmit map_all 0 0x8000 demo_sb demo_sys"
  have "\<not> real_stopped (d\<lparr>nn_stats := x\<rparr>) \<longleftrightarrow> \<not> real_stopped d" for d x by (simp add: real_stopped_def)
  then have s: "\<not> real_stopped (ns_dev ?st)"
    using demo_if_running
    by (auto simp: mhi_netdev_xmit_def xmit_seq_def chan64_fit demo_sb_def rx_buf_def Let_def case_prod_beta split: sum.splits)
  have "net_run map_all 0 1 demo_sys ?st"
    by (intro run_step [OF run_none] step_xmit) (simp add: demo_if_running)
  from uplink_never_full [OF demo_sys_inv(1) this s] show ?thesis by (simp add: Let_def)
qed

theorem rx_ring_refilled_witness:
  "\<exists>st. mhi_netdev_alloc_skb map_all 1 (\<lambda>k. Some (word_of_nat k, word_of_nat k)) demo_sys = (Inr (), st) \<and> ul_free 1 st = 0"
proof -
  have "\<exists>st'. mhi_netdev_alloc_skb map_all 1 (\<lambda>k. Some (word_of_nat k, word_of_nat k)) demo_sys = (Inr (), st') \<and> ul_free 1 st' = 0 \<and>
    mhi_is_ring_full (tre_ring (chan_at (ns_ctl st') 1)) \<and> chan_at (ns_ctl st') 0 = chan_at (ns_ctl demo_sys) 0"
    by (rule rx_ring_refilled [OF demo_sys_inv(2)]) (simp_all add: demo_if_running not_m0_error map_all_def)
  then show ?thesis by blast
qed

definition done_res :: mhi_result where
  "done_res = \<lparr>res_buf_addr = 0x8000, res_bytes_xferd = 8, res_dir = DMA_TO_DEVICE, res_transaction_status = None\<rparr>"

theorem completion_wakes_witness:
  "let st = demo_sys\<lparr>ns_dev := queues_set True demo_if, ns_skbs := [0x8000 \<mapsto> demo_sb\<lparr>sb_bound := True\<rparr>]\<rparr>
   in \<not> real_stopped (ns_dev (mhi_netdev_xfer_ul_cb 0 done_res st))"
proof -
  let ?st = "demo_sys\<lparr>ns_dev := queues_set True demo_if, ns_skbs := [0x8000 \<mapsto> demo_sb\<lparr>sb_bound := True\<rparr>]\<rparr>"
  obtain n where n: "nn_ndev demo_if = Some n" using demo_if_running(1) by (auto simp: real_stopped_def split: option.splits)
  have "let st' = mhi_netdev_xfer_ul_cb 0 done_res ?st; d' = ns_dev st' in
    ns_skbs st' (res_buf_addr done_res) = None \<and> real_stopped d' = (ul_free 0 ?st \<le> 32) \<and>
    st_tx_packets (nn_stats d') = st_tx_packets (nn_stats (ns_dev ?st)) + 1 \<and>
    (32 < ul_free 0 ?st \<longrightarrow> (\<forall>i < unat (nn_qmap_mode (ns_dev ?st)). \<forall>p. vnd_at d' i = Vnd p \<longrightarrow> \<not> nd_stopped (vp_net p)))"
    by (rule completion_wakes [where sb = "demo_sb\<lparr>sb_bound := True\<rparr>" and n = "n\<lparr>nd_stopped := True\<rparr>"])
      (simp_all add: done_res_def queues_set_def real_stop_def Let_def n demo_if_running)
  then show ?thesis using chan64_fit(2) by (simp add: Let_def ul_free_def)
qed

end
