(* ===== verification/Rmnet_Nss.thy ===== *)
theory Rmnet_Nss
  imports Qmap_Rx
begin

text \<open>
  The bridge to the network accelerator (\<^verbatim>\<open>rmnet-nss/src/rmnet_nss.c\<close>) and the receive hook of the USB driver that uses
  it (\<^verbatim>\<open>qca_nss_rx_handler\<close> of \<^verbatim>\<open>qmi_wwan_q/src/qmi_wwan_q.c\<close>): a packet of a channel gets an Ethernet header and goes to
  the accelerator, and what the accelerator cannot handle comes back and goes to the network stack without it.

  The lemmas show that the contexts in the hash table behave as a stack per device, that moving the headers of a
  packet into its linear part keeps the packet, that the packet the stack gets back is the one that was handed over,
  and that each packet is consumed once, but for the one case in which the caller ignores that it was not.

  A socket buffer has a linear part (\<^const>\<open>sk_data\<close> between headroom and tailroom), fragments, and the two counters
  \<^verbatim>\<open>len\<close> and \<^verbatim>\<open>data_len\<close>, which the code updates by hand. Leaving the headroom and a negative linear length stop the
  kernel: \<open>None\<close>. \<open>mem\<close> is what is read behind the end of a packet. The calls of the accelerator and of the stack are
  effects; the hash function, the results of the accelerator and of allocations are arguments.
\<close>

subsection \<open>Packets\<close>

record nss_skb = sk_buff +
  nk_frags :: "bytes list"
  nk_len :: u32
  nk_data_len :: u32
  nk_dev :: nat
  nk_cb0 :: u8
  nk_loopback :: bool

definition ETH_HLEN :: nat where "ETH_HLEN = 14"
definition ETH_P_802_3 :: u16 where "ETH_P_802_3 = 0x0001"
definition IPPROTO_TCP :: u8 where "IPPROTO_TCP = 6"
definition IPPROTO_UDP :: u8 where "IPPROTO_UDP = 17"

text \<open>\<^verbatim>\<open>skb_headlen\<close>, \<^verbatim>\<open>skb_is_nonlinear\<close>, \<^verbatim>\<open>skb_push\<close>, \<^verbatim>\<open>skb_pull\<close> and \<^verbatim>\<open>skb_linearize\<close> of the kernel.\<close>

definition nss_headlen :: "nss_skb \<Rightarrow> u32" where "nss_headlen skb = nk_len skb - nk_data_len skb"

definition nss_push :: "bytes \<Rightarrow> nss_skb \<Rightarrow> nss_skb option" where
  "nss_push bs skb =
     (if length (sk_head skb) < length bs then None
      else Some (skb\<lparr>sk_head := take (length (sk_head skb) - length bs) (sk_head skb), sk_data := bs @ sk_data skb,
                     nk_len := nk_len skb + of_nat (length bs)\<rparr>))"

datatype nss_pull_result = PullNull | PullBug | Pulled nss_skb

definition nss_pull :: "nat \<Rightarrow> nss_skb \<Rightarrow> nss_pull_result" where
  "nss_pull n skb =
     (if nk_len skb < of_nat n then PullNull
      else if nk_len skb - of_nat n < nk_data_len skb then PullBug
      else Pulled (skb\<lparr>sk_head := sk_head skb @ take n (sk_data skb), sk_data := drop n (sk_data skb), nk_len := nk_len skb - of_nat n\<rparr>))"

definition nss_linearize :: "nss_skb \<Rightarrow> nss_skb" where
  "nss_linearize skb = skb\<lparr>sk_data := sk_data skb @ concat (nk_frags skb), nk_frags := [], nk_data_len := 0\<rparr>"

definition nss_byte :: "(nat \<Rightarrow> u8) \<Rightarrow> bytes \<Rightarrow> nat \<Rightarrow> u8" where
  "nss_byte mem bs i = (if i < length bs then bs ! i else mem i)"

definition ip_version :: "(nat \<Rightarrow> u8) \<Rightarrow> bytes \<Rightarrow> u8" where "ip_version mem bs = drop_bit 4 (nss_byte mem bs 0)"
definition ip_ihl :: "(nat \<Rightarrow> u8) \<Rightarrow> bytes \<Rightarrow> nat" where "ip_ihl mem bs = unat (nss_byte mem bs 0 AND 0x0F)"
definition tcp_doff :: "(nat \<Rightarrow> u8) \<Rightarrow> bytes \<Rightarrow> nat \<Rightarrow> nat" where "tcp_doff mem bs off = unat (drop_bit 4 (nss_byte mem bs (off + 12)))"

subsection \<open>State\<close>

datatype rmnet_nss_stat = RMNET_NSS_RX_ETH | RMNET_NSS_RX_FAIL | RMNET_NSS_RX_NON_ETH | RMNET_NSS_RX_BUSY | RMNET_NSS_TX_NO_CTX
  | RMNET_NSS_TX_SUCCESS | RMNET_NSS_TX_FAIL | RMNET_NSS_TX_NONLINEAR | RMNET_NSS_TX_BAD_IP | RMNET_NSS_EXCEPTIONS
  | RMNET_NSS_EX_BAD_HDR | RMNET_NSS_EX_BAD_IP | RMNET_NSS_EX_SUCCESS | RMNET_NSS_TX_BAD_FRAGS | RMNET_NSS_TX_LINEARIZE_FAILS
  | RMNET_NSS_TX_NON_ZERO_HEADLEN_FRAGS | RMNET_NSS_TX_BUSY_LOOP | RMNET_NSS_NUM_STATS

record rmnet_nss_ctx =
  nc_rmnet_dev :: nat
  nc_nss_ctx :: nat

text \<open>What reaches the accelerator (\<open>n\<close> is the handle of a context), the network stack and the allocator.\<close>

datatype nss_effect = NssTxBuf nat nss_skb | NetifReceive nss_skb | DevQueueXmit nss_skb | KfreeSkb
  | NssCreate nat | NssRegister nat nat | NssXmitRegister nat | NssXmitUnregister nat | NssDestroy nat

record nss_sys =
  nx_stats :: "rmnet_nss_stat \<Rightarrow> u64"
  nx_table :: "nat \<Rightarrow> rmnet_nss_ctx list"
  nx_rx_packets :: "nat \<Rightarrow> u64"
  nx_rx_bytes :: "nat \<Rightarrow> u64"
  nx_callbacks :: bool
  nx_log :: "nss_effect list"

definition nss_emit :: "nss_effect \<Rightarrow> nss_sys \<Rightarrow> nss_sys" where "nss_emit e s = s\<lparr>nx_log := nx_log s @ [e]\<rparr>"

definition rmnet_nss_inc_stat :: "rmnet_nss_stat \<Rightarrow> nss_sys \<Rightarrow> nss_sys" where
  "rmnet_nss_inc_stat k s = (if k = RMNET_NSS_NUM_STATS then s else s\<lparr>nx_stats := (nx_stats s)(k := nx_stats s k + 1)\<rparr>)"

subsection \<open>Contexts\<close>

text \<open>\<open>hash\<close> is \<^verbatim>\<open>hash_ptr\<close> for the bits of the table.\<close>

definition rmnet_nss_find_ctx :: "(nat \<Rightarrow> nat) \<Rightarrow> nat \<Rightarrow> nss_sys \<Rightarrow> rmnet_nss_ctx option" where
  "rmnet_nss_find_ctx hash dev s = find (\<lambda>ctx. nc_rmnet_dev ctx = dev) (nx_table s (hash dev))"

text \<open>\<^verbatim>\<open>hash_del\<close> takes out the node itself, the first of the bucket that is this context.\<close>

definition rmnet_nss_free_ctx :: "(nat \<Rightarrow> nat) \<Rightarrow> rmnet_nss_ctx option \<Rightarrow> nss_sys \<Rightarrow> nss_sys" where
  "rmnet_nss_free_ctx hash octx s =
     (case octx of
        None \<Rightarrow> s
      | Some ctx \<Rightarrow>
          (let b = hash (nc_rmnet_dev ctx)
           in nss_emit (NssDestroy (nc_nss_ctx ctx)) (nss_emit (NssXmitUnregister (nc_nss_ctx ctx))
                (s\<lparr>nx_table := (nx_table s)(b := remove1 ctx (nx_table s b))\<rparr>))))"

text \<open>\<open>alloc\<close>: the structure can be allocated; \<open>handle\<close>: what \<^verbatim>\<open>nss_rmnet_rx_create\<close> returns. The result \<open>None\<close> is -1.\<close>

definition rmnet_nss_create_vnd :: "(nat \<Rightarrow> nat) \<Rightarrow> bool \<Rightarrow> nat option \<Rightarrow> nat \<Rightarrow> nss_sys \<Rightarrow> (errno option + unit) \<times> nss_sys" where
  "rmnet_nss_create_vnd hash alloc handle dev s =
     (if \<not> alloc then (Inl (Some ENOMEM), s)
      else case handle of
             None \<Rightarrow> (Inl None, s)
           | Some h \<Rightarrow>
               (let s1 = nss_emit (NssXmitRegister h) (nss_emit (NssRegister h dev) (nss_emit (NssCreate h) s));
                    b = hash dev
                in (Inr (), s1\<lparr>nx_table := (nx_table s1)(b := \<lparr>nc_rmnet_dev = dev, nc_nss_ctx = h\<rparr> # nx_table s1 b)\<rparr>)))"

definition rmnet_nss_free_vnd :: "(nat \<Rightarrow> nat) \<Rightarrow> nat \<Rightarrow> nss_sys \<Rightarrow> nss_sys" where
  "rmnet_nss_free_vnd hash dev s = rmnet_nss_free_ctx hash (rmnet_nss_find_ctx hash dev s) s"

definition rmnet_nss_init :: "nss_sys \<Rightarrow> nss_sys" where
  "rmnet_nss_init s = s\<lparr>nx_callbacks := True\<rparr>"

text \<open>Unloading frees every context of every bucket.\<close>

definition RMNET_NSS_HASH_BITS :: nat where "RMNET_NSS_HASH_BITS = 8"

definition rmnet_nss_exit :: "(nat \<Rightarrow> nat) \<Rightarrow> nss_sys \<Rightarrow> nss_sys" where
  "rmnet_nss_exit hash s =
     fold (\<lambda>b s. fold (\<lambda>ctx. rmnet_nss_free_ctx hash (Some ctx)) (nx_table s b) s) [0..<2 ^ RMNET_NSS_HASH_BITS] (s\<lparr>nx_callbacks := False\<rparr>)"

subsection \<open>Non-linear packets\<close>

text \<open>\<open>lin\<close>: \<^verbatim>\<open>skb_linearize\<close> finds memory.\<close>

definition nss_try_linearize :: "bool \<Rightarrow> nss_skb \<Rightarrow> nss_sys \<Rightarrow> unit res \<times> nss_skb \<times> nss_sys" where
  "nss_try_linearize lin skb s =
     (if lin then (Inr (), nss_linearize skb, s) else (Inl EINVAL, skb, rmnet_nss_inc_stat RMNET_NSS_TX_LINEARIZE_FAILS s))"

definition rmnet_nss_handle_non_zero_headlen :: "bool \<Rightarrow> (nat \<Rightarrow> u8) \<Rightarrow> nss_skb \<Rightarrow> nss_sys \<Rightarrow> unit res \<times> nss_skb \<times> nss_sys" where
  "rmnet_nss_handle_non_zero_headlen lin mem skb s =
     (let bad = (Inl EINVAL, skb, rmnet_nss_inc_stat RMNET_NSS_TX_BAD_IP s); v = ip_version mem (sk_data skb)
      in if nss_headlen skb < 20 then bad
         else if v \<noteq> 4 \<and> v \<noteq> 6 then bad
         else (let transport = nss_byte mem (sk_data skb) (if v = 4 then 9 else 6)
               in if transport \<noteq> IPPROTO_TCP \<and> transport \<noteq> IPPROTO_UDP then nss_try_linearize lin skb s
                  else if (transport = IPPROTO_TCP \<and> nss_headlen skb < 40) \<or> (transport = IPPROTO_UDP \<and> nss_headlen skb < 28)
                  then (Inl EINVAL, skb, s)
                  else (Inr (), skb, s)))"

text \<open>The length of the headers at the start of the fragment, for TCP and UDP; \<open>None\<close> for other protocols.\<close>

definition nss_hdr_bytes :: "(nat \<Rightarrow> u8) \<Rightarrow> bytes \<Rightarrow> nat option" where
  "nss_hdr_bytes mem f =
     (let v = ip_version mem f;
          bytes = if v = 4 then ip_ihl mem f * 4 else 40;
          transport = nss_byte mem f (if v = 4 then 9 else 6)
      in if transport = IPPROTO_TCP then Some (bytes + tcp_doff mem f bytes * 4)
         else if transport = IPPROTO_UDP then Some (bytes + 8) else None)"

definition rmnet_nss_adjust_header ::
  "bool \<Rightarrow> (nat \<Rightarrow> u8) \<Rightarrow> nss_skb \<Rightarrow> nss_sys \<Rightarrow> (unit res \<times> nss_skb \<times> nss_sys) option" where
  "rmnet_nss_adjust_header lin mem skb s =
     (case nk_frags skb of
        [f] \<Rightarrow>
          if nss_headlen skb \<noteq> 0
          then Some (rmnet_nss_handle_non_zero_headlen lin mem skb (rmnet_nss_inc_stat RMNET_NSS_TX_NON_ZERO_HEADLEN_FRAGS s))
          else if ip_version mem f \<noteq> 4 \<and> ip_version mem f \<noteq> 6
          then Some (Inl EINVAL, skb, rmnet_nss_inc_stat RMNET_NSS_TX_BAD_IP s)
          else (case nss_hdr_bytes mem f of
                  None \<Rightarrow> Some (nss_try_linearize lin skb s)
                | Some bytes \<Rightarrow>
                    if length f < bytes then Some (Inl EINVAL, skb, rmnet_nss_inc_stat RMNET_NSS_TX_BAD_FRAGS s)
                    else (case nss_push (take bytes f) skb of
                            None \<Rightarrow> None
                          | Some skb1 \<Rightarrow>
                              Some (Inr (), skb1\<lparr>nk_len := nk_len skb1 - of_nat bytes, nk_frags := [drop bytes f],
                                                nk_data_len := nk_data_len skb1 - of_nat bytes\<rparr>, s)))
      | _ \<Rightarrow> Some (Inl EINVAL, skb, rmnet_nss_inc_stat RMNET_NSS_TX_BAD_FRAGS s))"

subsection \<open>Handing over and getting back\<close>

text \<open>\<^verbatim>\<open>rmnet_nss_ethhdr_pull\<close>: whether the header was removed.\<close>

definition rmnet_nss_ethhdr_pull :: "nss_skb \<Rightarrow> nss_sys \<Rightarrow> (bool \<times> nss_skb \<times> nss_sys) option" where
  "rmnet_nss_ethhdr_pull skb s =
     (if sk_protocol skb = 0 \<or> sk_protocol skb = ETH_P_802_3
      then (case nss_pull ETH_HLEN skb of
              PullBug \<Rightarrow> None
            | PullNull \<Rightarrow> Some (False, skb, rmnet_nss_inc_stat RMNET_NSS_RX_FAIL s)
            | Pulled skb' \<Rightarrow> Some (True, skb', rmnet_nss_inc_stat RMNET_NSS_RX_ETH s))
      else Some (False, skb, rmnet_nss_inc_stat RMNET_NSS_RX_NON_ETH s))"

definition rmnet_nss_receive :: "(nat \<Rightarrow> u8) \<Rightarrow> nat \<Rightarrow> nss_skb option \<Rightarrow> nss_sys \<Rightarrow> nss_sys option" where
  "rmnet_nss_receive mem dev oskb s =
     (let s1 = rmnet_nss_inc_stat RMNET_NSS_EXCEPTIONS s
      in case oskb of
           None \<Rightarrow> Some s1
         | Some skb \<Rightarrow>
             (case rmnet_nss_ethhdr_pull skb s1 of
                None \<Rightarrow> None
              | Some (False, _, s2) \<Rightarrow> Some (nss_emit KfreeSkb (rmnet_nss_inc_stat RMNET_NSS_EX_BAD_HDR s2))
              | Some (True, skb1, s2) \<Rightarrow>
                  (let nib = nss_byte mem (sk_data skb1) 0 AND 0xF0; skb2 = skb1\<lparr>nk_dev := dev, nk_loopback := False\<rparr>
                   in if nib \<noteq> 0x40 \<and> nib \<noteq> 0x60 then Some (nss_emit KfreeSkb (rmnet_nss_inc_stat RMNET_NSS_EX_BAD_IP s2))
                      else Some (nss_emit (NetifReceive (skb2\<lparr>sk_protocol := if nib = 0x40 then ETH_P_IP else ETH_P_IPV6, nk_cb0 := 1\<rparr>))
                                  (rmnet_nss_inc_stat RMNET_NSS_EX_SUCCESS s2)))))"

datatype nss_tx_status = NSS_TX_SUCCESS | NSS_TX_FAILURE_QUEUE | NSS_TX_FAILURE_NOT_ENABLED | NSS_TX_FAILURE_OTHER

datatype nss_ret = NssOk | NssErr errno | NssOne

definition nss_fail :: "nss_sys \<Rightarrow> nss_ret \<times> nss_sys" where
  "nss_fail s = (NssOne, nss_emit KfreeSkb (rmnet_nss_inc_stat RMNET_NSS_TX_FAIL s))"

text \<open>The loop at the label \<^verbatim>\<open>transmit\<close>, on the answers of the accelerator; it does not end while the queue stays full.\<close>

fun nss_transmit :: "(nat \<Rightarrow> u8) \<Rightarrow> nat \<Rightarrow> nss_skb \<Rightarrow> nss_tx_status list \<Rightarrow> nss_sys \<Rightarrow> (nss_ret \<times> nss_sys) option" where
  "nss_transmit mem h skb [] s = None"
| "nss_transmit mem h skb (rc # rcs) s =
     (let dev = nk_dev skb
      in case rc of
           NSS_TX_SUCCESS \<Rightarrow>
             Some (NssOk, rmnet_nss_inc_stat RMNET_NSS_TX_SUCCESS
               ((nss_emit (NssTxBuf h skb) s)\<lparr>nx_rx_packets := (nx_rx_packets s)(dev := nx_rx_packets s dev + 1),
                  nx_rx_bytes := (nx_rx_bytes s)(dev := nx_rx_bytes s dev + ucast (nk_len skb))\<rparr>))
         | NSS_TX_FAILURE_QUEUE \<Rightarrow> nss_transmit mem h skb rcs (rmnet_nss_inc_stat RMNET_NSS_TX_BUSY_LOOP s)
         | NSS_TX_FAILURE_NOT_ENABLED \<Rightarrow> map_option (Pair NssOk) (rmnet_nss_receive mem dev (Some skb) s)
         | NSS_TX_FAILURE_OTHER \<Rightarrow> Some (nss_fail s))"

definition nss_eth_header :: "u16 \<Rightarrow> bytes" where
  "nss_eth_header proto = replicate 12 0 @ htons_bytes proto"

text \<open>The part of \<^verbatim>\<open>rmnet_nss_tx\<close> after the fragments. A packet whose version is wrong is freed with a header without protocol.\<close>

definition nss_tx_linear ::
  "(nat \<Rightarrow> nat) \<Rightarrow> (nat \<Rightarrow> u8) \<Rightarrow> nss_tx_status list \<Rightarrow> nss_skb \<Rightarrow> nss_sys \<Rightarrow> (nss_ret \<times> nss_sys) option" where
  "nss_tx_linear hash mem rcs skb s =
     (let version = ip_version mem (sk_data skb)
      in case rmnet_nss_find_ctx hash (nk_dev skb) s of
           None \<Rightarrow> Some (NssErr EINVAL, rmnet_nss_inc_stat RMNET_NSS_TX_NO_CTX s)
         | Some ctx \<Rightarrow>
             (case nss_push (nss_eth_header (if version = 4 then ETH_P_IP else ETH_P_IPV6)) skb of
                None \<Rightarrow> None
              | Some skb1 \<Rightarrow>
                  if version \<noteq> 4 \<and> version \<noteq> 6 then Some (nss_fail (rmnet_nss_inc_stat RMNET_NSS_TX_BAD_IP s))
                  else nss_transmit mem (nc_nss_ctx ctx) (skb1\<lparr>sk_protocol := ETH_P_802_3\<rparr>) rcs s))"

definition rmnet_nss_tx ::
  "(nat \<Rightarrow> nat) \<Rightarrow> bool \<Rightarrow> (nat \<Rightarrow> u8) \<Rightarrow> nss_tx_status list \<Rightarrow> nss_skb \<Rightarrow> nss_sys \<Rightarrow> (nss_ret \<times> nss_sys) option" where
  "rmnet_nss_tx hash lin mem rcs skb s =
     (if nk_data_len skb = 0 then nss_tx_linear hash mem rcs skb s
      else case rmnet_nss_adjust_header lin mem skb s of
             None \<Rightarrow> None
           | Some (Inl _, _, s1) \<Rightarrow> Some (nss_fail s1)
           | Some (Inr _, skb1, s1) \<Rightarrow> nss_tx_linear hash mem rcs skb1 (rmnet_nss_inc_stat RMNET_NSS_TX_NONLINEAR s1))"

text \<open>\<open>rc\<close>: what \<^verbatim>\<open>dev_queue_xmit\<close> returns. The optional marking of the packet is not in the state.\<close>

definition rmnet_nss_xmit :: "(nat \<Rightarrow> u8) \<Rightarrow> int \<Rightarrow> nat \<Rightarrow> nss_skb \<Rightarrow> nss_sys \<Rightarrow> nss_sys option" where
  "rmnet_nss_xmit mem rc dev skb s =
     (case (case nss_pull ETH_HLEN skb of PullBug \<Rightarrow> None | PullNull \<Rightarrow> Some skb | Pulled skb' \<Rightarrow> Some skb') of
        None \<Rightarrow> None
      | Some skb1 \<Rightarrow>
          (let s1 = rmnet_nss_inc_stat RMNET_NSS_RX_ETH s; nib = nss_byte mem (sk_data skb1) 0 AND 0xF0;
               skb2 = skb1\<lparr>nk_dev := dev, sk_protocol := if nib = 0x40 then ETH_P_IP else if nib = 0x60 then ETH_P_IPV6 else sk_protocol skb1\<rparr>;
               s2 = nss_emit (DevQueueXmit skb2) s1
           in Some (if rc \<noteq> 0 then rmnet_nss_inc_stat RMNET_NSS_RX_BUSY s2 else s2)))"

text \<open>The receive hook of a channel with a context, in both drivers.\<close>

datatype rx_handler_result = RX_HANDLER_CONSUMED | RX_HANDLER_PASS

definition qca_nss_rx_handler ::
  "(nat \<Rightarrow> nat) \<Rightarrow> bool \<Rightarrow> (nat \<Rightarrow> u8) \<Rightarrow> nss_tx_status list \<Rightarrow> nss_skb option \<Rightarrow> nss_sys \<Rightarrow> (rx_handler_result \<times> nss_skb option \<times> nss_sys) option" where
  "qca_nss_rx_handler hash lin mem rcs oskb s =
     (case oskb of
        None \<Rightarrow> Some (RX_HANDLER_CONSUMED, None, s)
      | Some skb \<Rightarrow>
          if nk_loopback skb then Some (RX_HANDLER_PASS, Some skb, s)
          else if nk_cb0 skb = 1 then Some (RX_HANDLER_PASS, Some (skb\<lparr>nk_cb0 := 0\<rparr>), s)
          else if nx_callbacks s
          then (case rmnet_nss_tx hash lin mem rcs skb s of None \<Rightarrow> None | Some (_, s1) \<Rightarrow> Some (RX_HANDLER_CONSUMED, None, s1))
          else Some (RX_HANDLER_PASS, Some skb, s))"

subsection \<open>Well-formed packets\<close>

definition nss_payload :: "nss_skb \<Rightarrow> bytes" where "nss_payload skb = sk_data skb @ concat (nk_frags skb)"

definition nss_ok :: "nss_skb \<Rightarrow> bool" where
  "nss_ok skb \<longleftrightarrow> nk_len skb = of_nat (length (nss_payload skb)) \<and> nk_data_len skb = of_nat (length (concat (nk_frags skb))) \<and>
     length (nss_payload skb) + 14 < 2 ^ 32"

lemma nss_okD:
  assumes "nss_ok skb"
  shows "unat (nk_len skb) = length (nss_payload skb)" "unat (nk_data_len skb) = length (concat (nk_frags skb))"
    "nss_headlen skb = of_nat (length (sk_data skb))" "unat (nss_headlen skb) = length (sk_data skb)"
proof -
  have l: "length (sk_data skb) + length (concat (nk_frags skb)) + 14 < 2 ^ 32" using assms by (simp add: nss_ok_def nss_payload_def)
  show "unat (nk_len skb) = length (nss_payload skb)"
    using assms unat_of_nat_small [of "length (nss_payload skb)", where 'a = 32] by (simp add: nss_ok_def)
  show "unat (nk_data_len skb) = length (concat (nk_frags skb))"
    using assms l unat_of_nat_small [of "length (concat (nk_frags skb))", where 'a = 32] by (simp add: nss_ok_def)
  show h: "nss_headlen skb = of_nat (length (sk_data skb))"
    using assms by (simp add: nss_ok_def nss_headlen_def nss_payload_def)
  show "unat (nss_headlen skb) = length (sk_data skb)" unfolding h by (rule unat_of_nat_small) (use l in simp)
qed

lemma nss_stats_frame [simp]:
  "nx_log (rmnet_nss_inc_stat k s) = nx_log s" "nx_table (rmnet_nss_inc_stat k s) = nx_table s"
  "nx_callbacks (rmnet_nss_inc_stat k s) = nx_callbacks s" "nx_table (nss_emit e s) = nx_table s" "nx_log (nss_emit e s) = nx_log s @ [e]"
  "rmnet_nss_find_ctx hash dev (rmnet_nss_inc_stat k s) = rmnet_nss_find_ctx hash dev s"
  by (simp_all add: rmnet_nss_inc_stat_def nss_emit_def rmnet_nss_find_ctx_def)

lemma nss_push_ok:
  assumes "nss_push bs skb = Some skb'"
  shows "nss_payload skb' = bs @ nss_payload skb \<and> nk_len skb' = nk_len skb + of_nat (length bs) \<and> nk_data_len skb' = nk_data_len skb \<and>
    nk_frags skb' = nk_frags skb \<and> sk_data skb' = bs @ sk_data skb \<and> nk_dev skb' = nk_dev skb \<and> nk_loopback skb' = nk_loopback skb"
  using assms by (auto simp: nss_push_def nss_payload_def split: if_splits)

lemma nss_linearize_ok:
  "nss_ok skb \<Longrightarrow> nss_ok (nss_linearize skb) \<and> nss_payload (nss_linearize skb) = nss_payload skb \<and> nk_dev (nss_linearize skb) = nk_dev skb \<and>
     sk_head (nss_linearize skb) = sk_head skb"
  by (simp add: nss_ok_def nss_linearize_def nss_payload_def)

text \<open>
  Moving the headers of a non-linear packet into its linear part: the packet, the device and the counters of the
  length stay right; on an error nothing is changed but the statistics. At most 120 bytes of headroom are used.
\<close>

lemma nss_hdr_bytes_bound: "nss_hdr_bytes mem f = Some k \<Longrightarrow> k \<le> 120"
proof -
  assume k: "nss_hdr_bytes mem f = Some k"
  have "ip_ihl mem f \<le> 15" unfolding ip_ihl_def using word_and_le1 [of "nss_byte mem f 0" "0x0F :: u8"]
    by (simp add: word_le_nat_alt)
  moreover have "tcp_doff mem f b \<le> 15" for b
  proof -
    have "tcp_doff mem f b = unat (nss_byte mem f (b + 12)) div 16" by (simp add: tcp_doff_def drop_bit_eq_div unat_div)
    then show ?thesis using unsigned_less [where w = "nss_byte mem f (b + 12)" and 'a = nat] by simp
  qed
  ultimately have b: "(if ip_version mem f = 4 then ip_ihl mem f * 4 else 40) \<le> 60" and d: "tcp_doff mem f b * 4 \<le> 60" for b
    using mult_le_mono1 [of "ip_ihl mem f" 15 4] mult_le_mono1 [of "tcp_doff mem f b" 15 4] by simp_all
  let ?b = "if ip_version mem f = 4 then ip_ihl mem f * 4 else 40"
  have "k = ?b + tcp_doff mem f ?b * 4 \<or> k = ?b + 8" using k by (auto simp: nss_hdr_bytes_def Let_def split: if_splits)
  then show ?thesis using b d [of ?b] by linarith
qed

lemma adjust_header_cases:
  assumes "rmnet_nss_adjust_header lin mem skb s = Some (r, skb', s')"
  obtains (same) "skb' = skb" "nx_log s' = nx_log s" "nx_table s' = nx_table s"
  | (linear) "r = Inr ()" "skb' = nss_linearize skb" "nx_log s' = nx_log s" "nx_table s' = nx_table s"
  | (moved) f k skb1 where "r = Inr ()" "s' = s" "nk_frags skb = [f]" "nss_headlen skb = 0" "nss_hdr_bytes mem f = Some k" "k \<le> length f"
      "nss_push (take k f) skb = Some skb1"
      "skb' = skb1\<lparr>nk_len := nk_len skb1 - of_nat k, nk_frags := [drop k f], nk_data_len := nk_data_len skb1 - of_nat k\<rparr>"
proof -
  have lin: "skb2 = skb \<and> nx_log s2 = nx_log s0 \<and> nx_table s2 = nx_table s0 \<or>
      q = Inr () \<and> skb2 = nss_linearize skb \<and> nx_log s2 = nx_log s0 \<and> nx_table s2 = nx_table s0"
    if "nss_try_linearize lin skb s0 = (q, skb2, s2)" for q skb2 s0 s2
    using that by (auto simp: nss_try_linearize_def split: if_splits)
  show thesis
  proof (cases "\<exists>f. nk_frags skb = [f] \<and> nss_headlen skb = 0")
    case True
    then obtain f where f: "nk_frags skb = [f]" "nss_headlen skb = 0" by blast
    show thesis
    proof (cases "(ip_version mem f = 4 \<or> ip_version mem f = 6) \<and> (\<exists>k. nss_hdr_bytes mem f = Some k \<and> k \<le> length f)")
      case True
      then show thesis using assms f by (auto simp: rmnet_nss_adjust_header_def split: option.splits intro: moved)
    next
      case False
      then show thesis using assms f lin same linear
        by (fastforce simp: rmnet_nss_adjust_header_def split: option.splits if_splits)
    qed
  next
    case False
    then show thesis using assms lin same linear
      by (fastforce simp: rmnet_nss_adjust_header_def rmnet_nss_handle_non_zero_headlen_def Let_def split: list.splits if_splits)
  qed
qed

lemma adjust_header_keeps:
  assumes run: "rmnet_nss_adjust_header lin mem skb s = Some (r, skb', s')" and ok: "nss_ok skb"
  shows "nss_ok skb' \<and> nss_payload skb' = nss_payload skb \<and> nk_dev skb' = nk_dev skb \<and> nx_log s' = nx_log s \<and> nx_table s' = nx_table s \<and>
    length (sk_head skb) \<le> length (sk_head skb') + 120"
  using run
proof (cases rule: adjust_header_cases)
  case same
  then show ?thesis using ok by simp
next
  case linear
  then show ?thesis using nss_linearize_ok [OF ok] by simp
next
  case (moved f k skb1)
  have d: "sk_data skb = []" using nss_okD(4) [OF ok] moved(4) by simp
  have fd: "of_nat (length f) - of_nat k = (of_nat (length f - k) :: u32)" using moved(6) by (simp add: of_nat_diff)
  show ?thesis using moved d ok fd nss_hdr_bytes_bound [OF moved(5)]
    by (auto simp: nss_push_def nss_ok_def nss_payload_def min_absorb2 split: if_splits)
qed

lemma rmnet_nss_adjust_header_returns:
  assumes "120 \<le> length (sk_head skb)"
  obtains r skb' s' where "rmnet_nss_adjust_header lin mem skb s = Some (r, skb', s')"
proof -
  have "rmnet_nss_adjust_header lin mem skb s \<noteq> None"
    using assms by (auto simp: rmnet_nss_adjust_header_def nss_push_def simp del: not_None_eq split: list.splits option.splits dest!: nss_hdr_bytes_bound)
  then show thesis using that by (cases "rmnet_nss_adjust_header lin mem skb s") auto
qed

subsection \<open>Handing over and getting back\<close>

lemma nib_version: "(b AND 0xF0 = 0x40) = (drop_bit 4 b = 4)" "(b AND 0xF0 = 0x60) = (drop_bit 4 b = 6)" for b :: u8
proof -
  have m: "(0xF0 :: u8) = push_bit 4 (mask 4)" by (simp add: mask_eq_exp_minus_1 push_bit_eq_mult)
  have p: "b AND 0xF0 = push_bit 4 (drop_bit 4 b)"
    unfolding m by (rule bit_word_eqI) (auto simp: bit_simps)
  have d: "drop_bit 4 (push_bit 4 (drop_bit 4 b)) = drop_bit 4 b"
    by (rule bit_word_eqI) (auto simp: bit_simps dest: bit_imp_le_length)
  have i: "push_bit 4 (drop_bit 4 b) = push_bit 4 v \<longleftrightarrow> drop_bit 4 b = v" if "drop_bit 4 (push_bit 4 v) = v" for v
    using d that by metis
  show "(b AND 0xF0 = 0x40) = (drop_bit 4 b = 4)" using i [of 4] p by simp
  show "(b AND 0xF0 = 0x60) = (drop_bit 4 b = 6)" using i [of 6] p by simp
qed

lemma nss_eth_header_length [simp]: "length (nss_eth_header p) = 14"
  by (simp add: nss_eth_header_def htons_bytes_def)

lemma nss_pull_pushed:
  assumes ok: "nss_ok skb" and p: "nss_push (nss_eth_header proto) skb = Some skb1"
  shows "\<exists>skb2. nss_pull ETH_HLEN (skb1\<lparr>sk_protocol := q\<rparr>) = Pulled skb2 \<and> sk_data skb2 = sk_data skb \<and> nk_frags skb2 = nk_frags skb \<and>
    nk_dev skb2 = nk_dev skb \<and> nk_len skb2 = nk_len skb \<and> nk_data_len skb2 = nk_data_len skb"
proof -
  note d = nss_okD [OF ok]
  have l: "length (nss_payload skb) + 14 < 2 ^ 32" using ok by (simp add: nss_ok_def)
  have s: "nk_len skb1 = nk_len skb + 14" "nk_data_len skb1 = nk_data_len skb" "sk_data skb1 = nss_eth_header proto @ sk_data skb"
    "nk_frags skb1 = nk_frags skb" "nk_dev skb1 = nk_dev skb"
    using p by (auto simp: nss_push_def split: if_splits)
  have "unat (nk_len skb + 14) = unat (nk_len skb) + 14" using l d(1) by (subst unat_add_no_wrap) simp_all
  then have "\<not> nk_len skb + 14 < 14" by (simp add: word_less_nat_alt)
  moreover have "\<not> nk_len skb < nk_data_len skb" using d(1,2) by (simp add: word_less_nat_alt nss_payload_def)
  ultimately show ?thesis using s by (simp add: nss_pull_def ETH_HLEN_def)
qed

lemma nss_receive_back:
  assumes ok: "nss_ok skb" and p: "nss_push (nss_eth_header proto) skb = Some skb1"
    and v: "ip_version mem (sk_data skb) = 4 \<or> ip_version mem (sk_data skb) = 6"
  shows "\<exists>s' skb'. rmnet_nss_receive mem dev (Some (skb1\<lparr>sk_protocol := ETH_P_802_3\<rparr>)) s = Some s' \<and> nx_log s' = nx_log s @ [NetifReceive skb'] \<and>
    nss_payload skb' = nss_payload skb \<and> nss_ok skb' \<and> nk_dev skb' = dev \<and> nk_cb0 skb' = 1 \<and> \<not> nk_loopback skb' \<and>
    sk_protocol skb' = (if ip_version mem (sk_data skb) = 4 then ETH_P_IP else ETH_P_IPV6)"
proof -
  obtain skb2 where q: "nss_pull ETH_HLEN (skb1\<lparr>sk_protocol := ETH_P_802_3\<rparr>) = Pulled skb2" "sk_data skb2 = sk_data skb" "nk_frags skb2 = nk_frags skb"
    "nk_len skb2 = nk_len skb" "nk_data_len skb2 = nk_data_len skb"
    using nss_pull_pushed [OF ok p, of ETH_P_802_3] by blast
  show ?thesis using q v ok by (auto simp: rmnet_nss_receive_def rmnet_nss_ethhdr_pull_def Let_def nib_version ip_version_def nss_payload_def nss_ok_def)
qed

lemma nss_transmit_busy:
  "\<exists>s1. nss_transmit mem h skb (replicate k NSS_TX_FAILURE_QUEUE @ [rc]) s = nss_transmit mem h skb [rc] s1 \<and> nx_log s1 = nx_log s"
proof (induction k arbitrary: s)
  case 0
  then show ?case by auto
next
  case (Suc k)
  show ?case using Suc.IH [of "rmnet_nss_inc_stat RMNET_NSS_TX_BUSY_LOOP s"] by simp
qed

text \<open>What a packet handed to the accelerator becomes: \<open>es\<close> are the effects, \<open>rc\<close> the last answer of the accelerator.\<close>

definition nss_outcome :: "rmnet_nss_ctx option \<Rightarrow> nss_tx_status \<Rightarrow> nss_skb \<Rightarrow> nss_ret \<Rightarrow> nss_effect list \<Rightarrow> bool" where
  "nss_outcome octx rc skb r es \<longleftrightarrow>
     (case r of
        NssErr e \<Rightarrow> e = EINVAL \<and> es = [] \<and> octx = None
      | NssOne \<Rightarrow> es = [KfreeSkb]
      | NssOk \<Rightarrow>
          (\<exists>ctx skb' p. octx = Some ctx \<and> p \<in> {ETH_P_IP, ETH_P_IPV6} \<and>
             (rc = NSS_TX_SUCCESS \<and> es = [NssTxBuf (nc_nss_ctx ctx) skb'] \<and> nss_payload skb' = nss_eth_header p @ nss_payload skb \<or>
              rc = NSS_TX_FAILURE_NOT_ENABLED \<and> es = [NetifReceive skb'] \<and> nss_payload skb' = nss_payload skb \<and> sk_protocol skb' = p \<and>
                nk_dev skb' = nk_dev skb \<and> nk_cb0 skb' = 1 \<and> \<not> nk_loopback skb')))"

lemma nss_tx_linear_outcome:
  assumes ok: "nss_ok skb" and hr: "14 \<le> length (sk_head skb)" and rc: "rc \<noteq> NSS_TX_FAILURE_QUEUE"
  shows "\<exists>r s' es. nss_tx_linear hash mem (replicate k NSS_TX_FAILURE_QUEUE @ [rc]) skb s = Some (r, s') \<and> nx_log s' = nx_log s @ es \<and>
    nss_outcome (rmnet_nss_find_ctx hash (nk_dev skb) s) rc skb r es"
proof (cases "rmnet_nss_find_ctx hash (nk_dev skb) s")
  case None
  then show ?thesis by (simp add: nss_tx_linear_def nss_outcome_def Let_def)
next
  case (Some ctx)
  let ?v = "ip_version mem (sk_data skb)" and ?p = "if ip_version mem (sk_data skb) = 4 then ETH_P_IP else ETH_P_IPV6"
  obtain skb1 where p: "nss_push (nss_eth_header ?p) skb = Some skb1" using hr by (auto simp: nss_push_def)
  have s1: "nss_payload skb1 = nss_eth_header ?p @ nss_payload skb" "nk_dev skb1 = nk_dev skb" using nss_push_ok [OF p] by simp_all
  show ?thesis
  proof (cases "?v = 4 \<or> ?v = 6")
    case False
    then show ?thesis using Some p by (auto simp: nss_tx_linear_def nss_outcome_def nss_fail_def Let_def)
  next
    case v: True
    let ?skb = "skb1\<lparr>sk_protocol := ETH_P_802_3\<rparr>"
    obtain s2 where t: "nss_transmit mem (nc_nss_ctx ctx) ?skb (replicate k NSS_TX_FAILURE_QUEUE @ [rc]) s = nss_transmit mem (nc_nss_ctx ctx) ?skb [rc] s2"
      and l: "nx_log s2 = nx_log s" using nss_transmit_busy by blast
    have e: "nss_tx_linear hash mem (replicate k NSS_TX_FAILURE_QUEUE @ [rc]) skb s = nss_transmit mem (nc_nss_ctx ctx) ?skb [rc] s2"
      using Some p v t by (auto simp: nss_tx_linear_def Let_def)
    obtain s3 skb' where b: "rmnet_nss_receive mem (nk_dev skb) (Some ?skb) s2 = Some s3" "nx_log s3 = nx_log s @ [NetifReceive skb']"
      "nss_payload skb' = nss_payload skb" "nk_dev skb' = nk_dev skb" "nk_cb0 skb' = 1" "\<not> nk_loopback skb'" "sk_protocol skb' = ?p"
      using nss_receive_back [OF ok p v, of "nk_dev skb" s2] l by auto
    have pl: "nss_payload ?skb = nss_eth_header ?p @ nss_payload skb" using s1 by (simp add: nss_payload_def)
    show ?thesis unfolding e using rc Some b l s1 pl by (cases rc) (auto simp: nss_outcome_def nss_fail_def Let_def)
  qed
qed

text \<open>
  (C22) A packet handed to the accelerator is consumed exactly once: it goes to the accelerator behind an Ethernet header,
  comes back to the network stack as it was when the accelerator is not enabled, or is freed. Only without a context is
  it not consumed, and the result says so. The loop ends as soon as the accelerator no longer reports a full queue.
\<close>

theorem rmnet_nss_tx_consumes:
  assumes ok: "nss_ok skb" and hr: "134 \<le> length (sk_head skb)" and rc: "rc \<noteq> NSS_TX_FAILURE_QUEUE"
  shows "\<exists>r s' es. rmnet_nss_tx hash lin mem (replicate k NSS_TX_FAILURE_QUEUE @ [rc]) skb s = Some (r, s') \<and> nx_log s' = nx_log s @ es \<and>
    nss_outcome (rmnet_nss_find_ctx hash (nk_dev skb) s) rc skb r es"
proof (cases "nk_data_len skb = 0")
  case True
  then show ?thesis using nss_tx_linear_outcome [OF ok _ rc] hr by (simp add: rmnet_nss_tx_def)
next
  case False
  obtain r skb1 s1 where a: "rmnet_nss_adjust_header lin mem skb s = Some (r, skb1, s1)"
    by (rule rmnet_nss_adjust_header_returns [of skb lin mem s]) (use hr in auto)
  note k = adjust_header_keeps [OF a ok]
  show ?thesis
  proof (cases r)
    case (Inl e)
    then show ?thesis using False a k by (auto simp: rmnet_nss_tx_def nss_fail_def nss_outcome_def)
  next
    case (Inr u)
    have f: "rmnet_nss_find_ctx hash (nk_dev skb1) (rmnet_nss_inc_stat RMNET_NSS_TX_NONLINEAR s1) = rmnet_nss_find_ctx hash (nk_dev skb) s"
      using k by (simp add: rmnet_nss_find_ctx_def)
    have "nss_ok skb1" "14 \<le> length (sk_head skb1)" using k hr by auto
    from nss_tx_linear_outcome [OF this rc, of hash mem k "rmnet_nss_inc_stat RMNET_NSS_TX_NONLINEAR s1"] show ?thesis
      using False a Inr k unfolding f by (auto simp: rmnet_nss_tx_def nss_outcome_def split: nss_ret.splits)
  qed
qed

text \<open>
  The receive hook and the stack do not send a packet round in circles: what the accelerator gives back is passed on,
  with the mark removed. Without a context the hook reports a packet as consumed that nobody has taken.
\<close>

theorem qca_nss_rx_handler_leak:
  assumes "rmnet_nss_find_ctx hash (nk_dev skb) s = None" "nx_callbacks s" "\<not> nk_loopback skb" "nk_cb0 skb \<noteq> 1" "nk_data_len skb = 0"
  shows "qca_nss_rx_handler hash lin mem rcs (Some skb) s = Some (RX_HANDLER_CONSUMED, None, rmnet_nss_inc_stat RMNET_NSS_TX_NO_CTX s)"
  using assms by (simp add: qca_nss_rx_handler_def rmnet_nss_tx_def nss_tx_linear_def Let_def)

theorem qca_nss_rx_handler_returned:
  assumes "nss_outcome octx rc skb NssOk [NetifReceive skb']"
  shows "qca_nss_rx_handler hash lin mem rcs (Some skb') s = Some (RX_HANDLER_PASS, Some (skb'\<lparr>nk_cb0 := 0\<rparr>), s)"
  using assms by (auto simp: nss_outcome_def qca_nss_rx_handler_def)

subsection \<open>The contexts of a device\<close>

definition nss_table_ok :: "(nat \<Rightarrow> nat) \<Rightarrow> nss_sys \<Rightarrow> bool" where
  "nss_table_ok hash s \<longleftrightarrow> (\<forall>b. \<forall>ctx \<in> set (nx_table s b). hash (nc_rmnet_dev ctx) = b)"

definition nss_stack :: "(nat \<Rightarrow> nat) \<Rightarrow> nss_sys \<Rightarrow> nat \<Rightarrow> nat list" where
  "nss_stack hash s dev = map nc_nss_ctx (filter (\<lambda>ctx. nc_rmnet_dev ctx = dev) (nx_table s (hash dev)))"

lemma find_filter: "find P xs = (case filter P xs of [] \<Rightarrow> None | x # _ \<Rightarrow> Some x)"
  by (induction xs) auto

lemma filter_remove1_hd:
  assumes "filter P xs = x # ys"
  shows "filter P (remove1 x xs) = ys"
proof -
  have "P x" using assms by (metis filter_eq_ConsD)
  then show ?thesis using assms by (induction xs) (auto split: if_splits)
qed

lemma filter_remove1_other: "\<not> P x \<Longrightarrow> filter P (remove1 x xs) = filter P xs"
  by (induction xs) auto

text \<open>
  (C36) The hash table holds a stack of contexts for each device, whatever the hash function: looking up gives the latest,
  creating puts one on top, freeing takes the top one off and unregisters it, and no other device is affected.
\<close>

theorem nss_contexts_stack:
  assumes "nss_table_ok hash s"
  shows "map_option nc_nss_ctx (rmnet_nss_find_ctx hash dev s) = (case nss_stack hash s dev of [] \<Rightarrow> None | h # _ \<Rightarrow> Some h) \<and>
    (let s' = snd (rmnet_nss_create_vnd hash True (Some h) dev s)
     in nss_table_ok hash s' \<and> nss_stack hash s' = (nss_stack hash s)(dev := h # nss_stack hash s dev)) \<and>
    (let s' = rmnet_nss_free_vnd hash dev s
     in nss_table_ok hash s' \<and> nss_stack hash s' = (nss_stack hash s)(dev := tl (nss_stack hash s dev)) \<and>
        nx_log s' = nx_log s @ (case nss_stack hash s dev of [] \<Rightarrow> [] | g # _ \<Rightarrow> [NssXmitUnregister g, NssDestroy g]))"
proof (intro conjI)
  show "map_option nc_nss_ctx (rmnet_nss_find_ctx hash dev s) = (case nss_stack hash s dev of [] \<Rightarrow> None | h # _ \<Rightarrow> Some h)"
    by (simp add: rmnet_nss_find_ctx_def find_filter nss_stack_def split: list.splits)
  show "let s' = snd (rmnet_nss_create_vnd hash True (Some h) dev s)
     in nss_table_ok hash s' \<and> nss_stack hash s' = (nss_stack hash s)(dev := h # nss_stack hash s dev)"
    using assms by (auto simp: rmnet_nss_create_vnd_def Let_def nss_table_ok_def nss_stack_def fun_eq_iff)
  show "let s' = rmnet_nss_free_vnd hash dev s
     in nss_table_ok hash s' \<and> nss_stack hash s' = (nss_stack hash s)(dev := tl (nss_stack hash s dev)) \<and>
        nx_log s' = nx_log s @ (case nss_stack hash s dev of [] \<Rightarrow> [] | g # _ \<Rightarrow> [NssXmitUnregister g, NssDestroy g])"
  proof (cases "filter (\<lambda>ctx. nc_rmnet_dev ctx = dev) (nx_table s (hash dev))")
    case Nil
    then show ?thesis using assms
      by (auto simp: rmnet_nss_free_vnd_def rmnet_nss_free_ctx_def rmnet_nss_find_ctx_def find_filter nss_stack_def fun_eq_iff)
  next
    case (Cons ctx rest)
    then have d: "nc_rmnet_dev ctx = dev" by (metis (mono_tags) filter_eq_ConsD)
    have t: "set (remove1 ctx xs) \<subseteq> set xs" for xs by (rule set_remove1_subset)
    show ?thesis using assms Cons d filter_remove1_hd [OF Cons] t
      by (auto simp: rmnet_nss_free_vnd_def rmnet_nss_free_ctx_def rmnet_nss_find_ctx_def find_filter nss_stack_def fun_eq_iff
          nss_table_ok_def Let_def filter_remove1_other)
  qed
qed

text \<open>Unloading the module takes every context out of the table.\<close>

lemma free_bucket:
  assumes "\<forall>ctx \<in> set l. hash (nc_rmnet_dev ctx) = b" "nx_table s b = l"
  shows "nx_table (fold (\<lambda>ctx. rmnet_nss_free_ctx hash (Some ctx)) l s) = (nx_table s)(b := [])"
  using assms
proof (induction l arbitrary: s)
  case Nil
  then show ?case by auto
next
  case (Cons ctx l)
  let ?s = "rmnet_nss_free_ctx hash (Some ctx) s"
  have e: "nx_table ?s = (nx_table s)(b := l)" using Cons.prems by (simp add: rmnet_nss_free_ctx_def Let_def)
  then show ?case using Cons.IH [of ?s] Cons.prems by (simp add: fun_eq_iff)
qed

lemma rmnet_nss_exit_empty:
  assumes "nss_table_ok hash s" "\<And>d. hash d < 2 ^ RMNET_NSS_HASH_BITS"
  shows "nx_table (rmnet_nss_exit hash s) b = [] \<and> \<not> nx_callbacks (rmnet_nss_exit hash s)"
proof -
  let ?f = "\<lambda>b s. fold (\<lambda>ctx. rmnet_nss_free_ctx hash (Some ctx)) (nx_table s b) s"
  have t: "nx_table (fold ?f bs s) = (\<lambda>b. if b \<in> set bs then [] else nx_table s b)" if "nss_table_ok hash s" for bs s
    using that
  proof (induction bs arbitrary: s)
    case Nil
    then show ?case by simp
  next
    case (Cons c bs)
    have e: "nx_table (?f c s) = (nx_table s)(c := [])" using Cons.prems by (intro free_bucket) (auto simp: nss_table_ok_def)
    then have "nss_table_ok hash (?f c s)" using Cons.prems by (auto simp: nss_table_ok_def)
    from Cons.IH [OF this] show ?case unfolding fold_simps e by (auto simp: fun_eq_iff)
  qed
  have cb: "nx_callbacks (fold (\<lambda>ctx. rmnet_nss_free_ctx hash (Some ctx)) l s) = nx_callbacks s" for l s
    by (induction l arbitrary: s) (auto simp: rmnet_nss_free_ctx_def nss_emit_def Let_def)
  have "nx_callbacks (fold ?f bs s) = nx_callbacks s" for bs s
    by (induction bs arbitrary: s) (simp_all add: cb)
  moreover have "nx_table s b = []" if "\<not> b < 2 ^ RMNET_NSS_HASH_BITS"
  proof (cases "nx_table s b")
    case (Cons ctx l)
    then have "hash (nc_rmnet_dev ctx) = b" using assms(1) by (auto simp: nss_table_ok_def)
    then show ?thesis using assms(2) that by blast
  qed simp
  ultimately show ?thesis using t [of "s\<lparr>nx_callbacks := False\<rparr>"] assms(1) by (auto simp: rmnet_nss_exit_def nss_table_ok_def)
qed

end

