(* ===== verification/Nss_Examples.thy ===== *)
theory Nss_Examples
  imports Rmnet_Nss
begin

text \<open>A packet in one fragment and a context for its device: the properties of \<open>Rmnet_Nss\<close> applied to them.\<close>

definition demo_udp :: bytes where
  "demo_udp = [0x45, 0, 0, 29, 0, 0, 0, 0, 64, 17, 0, 0, 10, 0, 0, 1, 10, 0, 0, 2, 0, 53, 0, 53, 0, 9, 0, 0, 0xAB]"

definition demo_skb :: nss_skb where
  "demo_skb = \<lparr>sk_head = replicate 160 0, sk_data = [], sk_tail = [], sk_protocol = 0x0800, nk_frags = [demo_udp], nk_len = 29, nk_data_len = 29,
     nk_dev = 7, nk_cb0 = 0, nk_loopback = False\<rparr>"

definition demo_nss :: nss_sys where
  "demo_nss = \<lparr>nx_stats = (\<lambda>_. 0), nx_table = (\<lambda>b. if b = 7 then [\<lparr>nc_rmnet_dev = 7, nc_nss_ctx = 3\<rparr>] else []), nx_rx_packets = (\<lambda>_. 0),
     nx_rx_bytes = (\<lambda>_. 0), nx_callbacks = True, nx_log = []\<rparr>"

definition demo_hash :: "nat \<Rightarrow> nat" where "demo_hash d = d mod 256"

lemma demo_skb_ok: "nss_ok demo_skb"
  by (simp add: nss_ok_def demo_skb_def nss_payload_def demo_udp_def)

theorem rmnet_nss_tx_consumes_witness:
  "\<exists>r s' es. rmnet_nss_tx demo_hash True (\<lambda>_. 0) [NSS_TX_FAILURE_QUEUE, NSS_TX_FAILURE_NOT_ENABLED] demo_skb demo_nss = Some (r, s') \<and> nx_log s' = es \<and>
     nss_outcome (Some \<lparr>nc_rmnet_dev = 7, nc_nss_ctx = 3\<rparr>) NSS_TX_FAILURE_NOT_ENABLED demo_skb r es"
proof -
  have f: "rmnet_nss_find_ctx demo_hash (nk_dev demo_skb) demo_nss = Some \<lparr>nc_rmnet_dev = 7, nc_nss_ctx = 3\<rparr>"
    by (simp add: rmnet_nss_find_ctx_def demo_hash_def demo_skb_def demo_nss_def)
  have "\<exists>r s' es. rmnet_nss_tx demo_hash True (\<lambda>_. 0) (replicate 1 NSS_TX_FAILURE_QUEUE @ [NSS_TX_FAILURE_NOT_ENABLED]) demo_skb demo_nss = Some (r, s') \<and>
      nx_log s' = nx_log demo_nss @ es \<and> nss_outcome (rmnet_nss_find_ctx demo_hash (nk_dev demo_skb) demo_nss) NSS_TX_FAILURE_NOT_ENABLED demo_skb r es"
    by (rule rmnet_nss_tx_consumes [OF demo_skb_ok]) (simp_all add: demo_skb_def)
  then show ?thesis unfolding f by (simp add: demo_nss_def)
qed

theorem nss_contexts_stack_witness:
  "nss_stack demo_hash (snd (rmnet_nss_create_vnd demo_hash True (Some 4) 7 demo_nss)) 7 = [4, 3] \<and>
   nss_stack demo_hash (rmnet_nss_free_vnd demo_hash 7 demo_nss) 7 = []"
proof -
  have t: "nss_table_ok demo_hash demo_nss" by (simp add: nss_table_ok_def demo_nss_def demo_hash_def)
  have "nss_stack demo_hash demo_nss 7 = [3]" by (simp add: nss_stack_def demo_nss_def demo_hash_def)
  then show ?thesis using nss_contexts_stack [OF t, of 7 4] by (simp add: Let_def)
qed

end
