(* ===== verification/MHI_Bus.thy ===== *)
theory MHI_Bus
  imports MHI_Boot MHI_Pci MHI_Uci
begin

text \<open>
  The bus of the MHI core (\<^verbatim>\<open>pcie_mhi/src/core/mhi_init.c\<close>): registering a controller when its PCI device is probed
  (\<^verbatim>\<open>mhi_register_controller\<close> of \<^verbatim>\<open>controllers/mhi_qti.c\<close>, \<^verbatim>\<open>of_register_mhi_controller\<close>), looking it up and unregistering
  it, the device file \<^verbatim>\<open>mhi_BHI\<close> of each controller, binding client drivers to the devices of the channels, preparing
  a controller before it is powered up, and loading and unloading the module.

  The lemmas show that the minor number of a controller is a function of its place on the PCI bus for the whole life
  of the module, so that a device file always opens the controller it was made for; that a failed registration
  keeps no memory; what a removed controller leaves behind; and which registrations survive a failed load.

  Controllers and their devices are entries of maps by address. \<open>bs_kmem\<close> counts the kernel memory that registration
  takes: the controller, its three arrays and its device. \<open>bd_refs\<close> counts the references to a device, without the
  one of the bus itself.
\<close>

subsection \<open>State\<close>

record bdf =
  b_dev_id :: u32
  b_domain :: u32
  b_bus :: u32
  b_slot :: u32

definition zero_bdf :: bdf where "zero_bdf = \<lparr>b_dev_id = 0, b_domain = 0, b_bus = 0, b_slot = 0\<rparr>"

record mhi_controller_map =
  mm_id :: bdf
  mm_cntrl :: u64

definition MAX_MHI_CONTROLLER :: nat where "MAX_MHI_CONTROLLER = 16"

text \<open>A controller as the bus sees it; the booleans say whether the callback is set.\<close>

record bus_cntrl =
  bc_id :: bdf
  bc_vendor :: u32
  bc_idx :: nat
  bc_boot :: boot_sys
  bc_mhi_dev :: u64
  bc_runtime_get :: bool
  bc_runtime_put :: bool
  bc_status_cb :: bool
  bc_link_status :: bool

datatype mhi_device_type = MHI_XFER_TYPE | MHI_TIMESYNC_TYPE | MHI_CONTROLLER_TYPE

record bus_dev =
  bd_type :: mhi_device_type
  bd_id :: bdf
  bd_vendor :: u32
  bd_mtu :: u64
  bd_cntrl :: u64
  bd_refs :: nat

record bus_sys =
  bs_minors :: "mhi_controller_map list"
  bs_list :: "u64 list"
  bs_cntrl :: "u64 \<rightharpoonup> bus_cntrl"
  bs_bus :: "u64 list"
  bs_dev :: "u64 \<rightharpoonup> bus_dev"
  bs_nodes :: "nat list"
  bs_kmem :: int

definition bus_kmem :: "int \<Rightarrow> bus_sys \<Rightarrow> bus_sys" where "bus_kmem n st = st\<lparr>bs_kmem := bs_kmem st + n\<rparr>"

text \<open>The module after \<^verbatim>\<open>mhi_init\<close>: no controller, and no minor number given out.\<close>

definition bus_start :: bus_sys where
  "bus_start = \<lparr>bs_minors = replicate MAX_MHI_CONTROLLER \<lparr>mm_id = zero_bdf, mm_cntrl = 0\<rparr>, bs_list = [], bs_cntrl = Map.empty,
     bs_bus = [], bs_dev = Map.empty, bs_nodes = [], bs_kmem = 0\<rparr>"

subsection \<open>Registering a controller\<close>

text \<open>
  The loop over \<^verbatim>\<open>mhi_controller_minors\<close>: the entry of the device, or the first unused one, which is claimed for the
  controller at address \<open>a\<close>. \<open>None\<close> when the table is full.
\<close>

fun claim_minor :: "bdf \<Rightarrow> u64 \<Rightarrow> mhi_controller_map list \<Rightarrow> (nat \<times> mhi_controller_map list) option" where
  "claim_minor d a [] = None"
| "claim_minor d a (m # ms) =
     (if mm_id m = d then Some (0, m # ms)
      else if mm_id m = zero_bdf then Some (0, \<lparr>mm_id = d, mm_cntrl = a\<rparr> # ms)
      else (case claim_minor d a ms of None \<Rightarrow> None | Some (i, ms') \<Rightarrow> Some (Suc i, m # ms')))"

text \<open>
  What the kernel answers during registration: which allocations succeed and where, the result of \<^verbatim>\<open>device_add\<close>, and
  whether the device file can be made.
\<close>

record reg_env =
  ge_cntrl :: "u64 option"
  ge_chan :: bool
  ge_event :: bool
  ge_cmd :: bool
  ge_dev :: "u64 option"
  ge_device_add :: "unit res"
  ge_device_create :: bool
  ge_mbim :: bool
  ge_use_dma :: bool
  ge_dma32 :: bool
  ge_io :: "u64 \<Rightarrow> u32"

definition mhi_alloc_device :: "u64 option \<Rightarrow> u64 \<Rightarrow> bus_cntrl \<Rightarrow> bus_sys \<Rightarrow> u64 option \<times> bus_sys" where
  "mhi_alloc_device al a bc st =
     (case al of
        None \<Rightarrow> (None, st)
      | Some da \<Rightarrow> (Some da, bus_kmem 1 (st\<lparr>bs_dev := (bs_dev st)(da \<mapsto>
          \<lparr>bd_type = MHI_XFER_TYPE, bd_id = bc_id bc, bd_vendor = bc_vendor bc, bd_mtu = ucast MHI_MAX_MTU, bd_cntrl = a, bd_refs = 1\<rparr>)\<rparr>)))"

definition mhi_dealloc_device :: "u64 \<Rightarrow> bus_sys \<Rightarrow> bus_sys" where
  "mhi_dealloc_device da st = bus_kmem (-1) (st\<lparr>bs_dev := (bs_dev st)(da := None)\<rparr>)"

text \<open>\<^verbatim>\<open>put_device\<close>: the last reference calls \<^verbatim>\<open>mhi_release_device\<close>, which frees the device. A controller's device has no channels.\<close>

definition mhi_release_device :: "u64 \<Rightarrow> bus_sys \<Rightarrow> bus_sys" where
  "mhi_release_device da st = bus_kmem (-1) (st\<lparr>bs_dev := (bs_dev st)(da := None)\<rparr>)"

definition put_device :: "u64 \<Rightarrow> bus_sys \<Rightarrow> bus_sys" where
  "put_device da st =
     (case bs_dev st da of
        None \<Rightarrow> st
      | Some d \<Rightarrow> if bd_refs d \<le> 1 then mhi_release_device da st else st\<lparr>bs_dev := (bs_dev st)(da \<mapsto> d\<lparr>bd_refs := bd_refs d - 1\<rparr>)\<rparr>)"

definition MHI_TIMEOUT_MS :: u32 where "MHI_TIMEOUT_MS = 3000"

text \<open>The part of \<^verbatim>\<open>of_register_mhi_controller\<close> after the configuration has been read.\<close>

definition register_on_bus :: "reg_env \<Rightarrow> u64 \<Rightarrow> bus_cntrl \<Rightarrow> bus_sys \<Rightarrow> unit res \<times> bus_sys" where
  "register_on_bus env a bc st =
     (if \<not> ge_cmd env then (Inl ENOMEM, bus_kmem (-2) st)
      else (let st1 = bus_kmem 1 st
            in case mhi_alloc_device (ge_dev env) a bc st1 of
                 (None, st2) \<Rightarrow> (Inl ENOMEM, bus_kmem (-3) st2)
               | (Some da, st2) \<Rightarrow>
                   (let st3 = st2\<lparr>bs_dev := (bs_dev st2)(da := map_option (\<lambda>d. d\<lparr>bd_type := MHI_CONTROLLER_TYPE, bd_cntrl := a\<rparr>) (bs_dev st2 da))\<rparr>
                    in case ge_device_add env of
                         Inl e \<Rightarrow> (Inl e, bus_kmem (-3) (mhi_dealloc_device da st3))
                       | Inr _ \<Rightarrow>
                           (Inr (), st3\<lparr>bs_bus := bs_bus st3 @ [da],
                              bs_nodes := (if ge_device_create env then [bc_idx bc] else []) @ bs_nodes st3,
                              bs_cntrl := (bs_cntrl st3)(a \<mapsto> bc\<lparr>bc_mhi_dev := da\<rparr>),
                              bs_list := bs_list st3 @ [a]\<rparr>))))"

definition of_register_mhi_controller :: "reg_env \<Rightarrow> u64 \<Rightarrow> bus_cntrl \<Rightarrow> bus_sys \<Rightarrow> unit res \<times> bus_sys" where
  "of_register_mhi_controller env a bc st =
     (case claim_minor (bc_id bc) a (bs_minors st) of
        None \<Rightarrow> (Inl EINVAL, st)
      | Some (i, ms) \<Rightarrow>
          (let bc1 = bc\<lparr>bc_idx := i\<rparr>; st1 = st\<lparr>bs_minors := ms\<rparr>
           in if \<not> bc_runtime_get bc1 \<or> \<not> bc_runtime_put bc1 then (Inl EINVAL, st1)
              else if \<not> bc_status_cb bc1 \<or> \<not> bc_link_status bc1 then (Inl EINVAL, st1)
              else (case of_parse_dt (ge_chan env) (ge_event env) (ge_mbim env) (ge_use_dma env) (bt_ctl (bc_boot bc1)) of
                      (Inl _, c) \<Rightarrow> (Inl EINVAL, st1)
                    | (Inr _, c) \<Rightarrow>
                        register_on_bus env a
                          (bc1\<lparr>bc_boot := (bc_boot bc1)\<lparr>bt_ctl := c\<lparr>transition_list := []\<rparr>, bt_timeout_ms := MHI_TIMEOUT_MS\<rparr>\<rparr>)
                          (bus_kmem 2 st1))))"

definition mhi_unregister_mhi_controller :: "u64 \<Rightarrow> bus_sys \<Rightarrow> bus_sys" where
  "mhi_unregister_mhi_controller a st =
     (case bs_cntrl st a of
        None \<Rightarrow> st
      | Some bc \<Rightarrow>
          (let st1 = bus_kmem (-3) st;
               st2 = st1\<lparr>bs_nodes := remove1 (bc_idx bc) (bs_nodes st1), bs_bus := remove1 (bc_mhi_dev bc) (bs_bus st1)\<rparr>;
               st3 = put_device (bc_mhi_dev bc) st2
           in st3\<lparr>bs_list := remove1 a (bs_list st3)\<rparr>))"

subsection \<open>Probing\<close>

text \<open>What \<^verbatim>\<open>mhi_alloc_controller\<close> returns, as far as the boot code uses it.\<close>

definition zero_boot :: "(u64 \<Rightarrow> u32) \<Rightarrow> boot_sys" where
  "zero_boot io = \<lparr>bt_ctl = zero_controller io, bt_dma = Map.empty, bt_kmem = 0, bt_fbc_image = None, bt_rddm_image = None,
     bt_sequence_id = 0, bt_fbc_download = False, bt_sbl_size = 0, bt_seg_len = 0, bt_timeout_ms = 0, bt_fw_image = None, bt_edl_image = None\<rparr>"

definition mhi_alloc_controller :: "u64 option \<Rightarrow> (u64 \<Rightarrow> u32) \<Rightarrow> bus_sys \<Rightarrow> (u64 \<times> bus_cntrl) option \<times> bus_sys" where
  "mhi_alloc_controller al io st =
     (case al of
        None \<Rightarrow> (None, st)
      | Some a \<Rightarrow>
          (let bc = \<lparr>bc_id = zero_bdf, bc_vendor = 0, bc_idx = 0, bc_boot = zero_boot io, bc_mhi_dev = 0, bc_runtime_get = False,
                     bc_runtime_put = False, bc_status_cb = False, bc_link_status = False\<rparr>
           in (Some (a, bc), bus_kmem 1 (st\<lparr>bs_cntrl := (bs_cntrl st)(a \<mapsto> bc)\<rparr>))))"

definition mhi_free_controller :: "u64 \<Rightarrow> bus_sys \<Rightarrow> bus_sys" where
  "mhi_free_controller a st = bus_kmem (-1) (st\<lparr>bs_cntrl := (bs_cntrl st)(a := None)\<rparr>)"

text \<open>The address window and the callbacks \<^verbatim>\<open>mhi_register_controller\<close> sets. The names of firmware images are not set.\<close>

definition pci_controller :: "bool \<Rightarrow> u32 \<Rightarrow> bdf \<Rightarrow> bus_cntrl \<Rightarrow> bus_cntrl" where
  "pci_controller dma32 vendor d bc =
     bc\<lparr>bc_vendor := vendor, bc_id := d, bc_runtime_get := True, bc_runtime_put := True, bc_status_cb := True, bc_link_status := True,
        bc_boot := (bc_boot bc)\<lparr>bt_ctl := (bt_ctl (bc_boot bc))
          \<lparr>iova_start := 0, iova_stop := (if dma32 then 0xFFFFFFFF else 0x2000000000), has_time_ops := True\<rparr>\<rparr>\<rparr>"

definition mhi_register_controller :: "reg_env \<Rightarrow> u32 \<Rightarrow> bdf \<Rightarrow> bus_sys \<Rightarrow> u64 res \<times> bus_sys" where
  "mhi_register_controller env vendor d st =
     (case mhi_alloc_controller (ge_cntrl env) (ge_io env) st of
        (None, st1) \<Rightarrow> (Inl ENOMEM, st1)
      | (Some (a, bc), st1) \<Rightarrow>
          (case of_register_mhi_controller env a (pci_controller (ge_dma32 env) vendor d bc) st1 of
             (Inl _, st2) \<Rightarrow> (Inl EINVAL, mhi_free_controller a st2)
           | (Inr _, st2) \<Rightarrow> (Inr a, st2)))"

definition bdf_match :: "bdf \<Rightarrow> bus_dev \<Rightarrow> bool" where
  "bdf_match d dev \<longleftrightarrow> bd_type dev = MHI_CONTROLLER_TYPE \<and> b_domain (bd_id dev) = b_domain d \<and> b_bus (bd_id dev) = b_bus d \<and>
     b_slot (bd_id dev) = b_slot d \<and> b_dev_id (bd_id dev) = b_dev_id d"

text \<open>\<^verbatim>\<open>bus_find_device\<close> returns the device with one more reference.\<close>

definition mhi_bdf_to_controller :: "bdf \<Rightarrow> bus_sys \<Rightarrow> u64 option \<times> bus_sys" where
  "mhi_bdf_to_controller d st =
     (case find (\<lambda>da. case bs_dev st da of None \<Rightarrow> False | Some dev \<Rightarrow> bdf_match d dev) (bs_bus st) of
        None \<Rightarrow> (None, st)
      | Some da \<Rightarrow>
          (case bs_dev st da of
             None \<Rightarrow> (None, st)
           | Some dev \<Rightarrow> (Some (bd_cntrl dev), st\<lparr>bs_dev := (bs_dev st)(da \<mapsto> dev\<lparr>bd_refs := bd_refs dev + 1\<rparr>)\<rparr>)))"

text \<open>The controller of a probed device: the one that is registered already, or a new one.\<close>

definition probe_controller :: "reg_env \<Rightarrow> u32 \<Rightarrow> bdf \<Rightarrow> bus_sys \<Rightarrow> u64 res \<times> bus_sys" where
  "probe_controller env vendor d st =
     (case mhi_bdf_to_controller d st of
        (Some a, st1) \<Rightarrow> (Inr a, st1)
      | (None, st1) \<Rightarrow> mhi_register_controller env vendor d st1)"

text \<open>What removing the PCI device does to the bus; \<open>powered_on\<close> is the flag of the controller.\<close>

definition remove_controller :: "bool \<Rightarrow> bdf \<Rightarrow> bus_sys \<Rightarrow> bus_sys" where
  "remove_controller powered_on d st =
     (case mhi_bdf_to_controller d st of
        (None, st1) \<Rightarrow> st1
      | (Some a, st1) \<Rightarrow> if powered_on then mhi_unregister_mhi_controller a st1 else st1)"

text \<open>The devices the driver is for, by vendor and device number.\<close>

definition MHI_PCIE_VENDOR_ID :: u32 where "MHI_PCIE_VENDOR_ID = 0x17cb"
definition MHI_PCIE_DEBUG_ID :: u32 where "MHI_PCIE_DEBUG_ID = 0xffff"

definition mhi_pcie_device_id :: "(u32 \<times> u32) list" where
  "mhi_pcie_device_id =
    [(MHI_PCIE_VENDOR_ID, 0x0303), (MHI_PCIE_VENDOR_ID, 0x0304), (MHI_PCIE_VENDOR_ID, 0x0305), (MHI_PCIE_VENDOR_ID, 0x0306),
     (MHI_PCIE_VENDOR_ID, 0x0308), (MHI_PCIE_VENDOR_ID, 0x011a), (MHI_PCIE_VENDOR_ID, 0x0309), (0x1eac, 0x1001), (0x1eac, 0x1002),
     (0x1eac, 0x1004), (0x1eac, 0x100b), (0x1eac, 0x1012), (0x1eac, 0x1013), (0x1eac, 0x1014), (0x1eac, 0x1015),
     (MHI_PCIE_VENDOR_ID, MHI_PCIE_DEBUG_ID)]"

subsection \<open>The device file of a controller\<close>

definition mhi_cntrl_open :: "nat \<Rightarrow> bus_sys \<Rightarrow> u64 res" where
  "mhi_cntrl_open minor st =
     (case find (\<lambda>a. case bs_cntrl st a of None \<Rightarrow> False | Some bc \<Rightarrow> bc_idx bc = minor) (bs_list st) of
        None \<Rightarrow> Inl ENODEV | Some a \<Rightarrow> Inr a)"

text \<open>Closing the file clears the pointer to the controller.\<close>

definition mhi_cntrl_release :: "u64 \<Rightarrow> u64" where "mhi_cntrl_release f = 0"

definition IOCTL_BHI_GETDEVINFO :: u32 where "IOCTL_BHI_GETDEVINFO = 0x8BE0 + 1"
definition IOCTL_BHI_WRITEIMAGE :: u32 where "IOCTL_BHI_WRITEIMAGE = 0x8BE0 + 2"

text \<open>
  \<open>f\<close> is the controller the file was opened for, \<open>left\<close> and \<open>user\<close> what is copied to and from user space. The second part of the
  result is what user space gets.
\<close>

definition mhi_cntrl_ioctl ::
  "bhi_write_env \<Rightarrow> nat \<Rightarrow> (u64 \<times> (nat \<Rightarrow> u8)) option \<Rightarrow> u64 \<Rightarrow> u32 \<Rightarrow> bus_sys \<Rightarrow> (bhi_ret \<times> BHI_INFO_TYPE option \<times> bus_sys) option" where
  "mhi_cntrl_ioctl env left user f cmd st =
     (if f \<notin> set (bs_list st) then Some (BhiErr ENODEV, None, st)
      else case bs_cntrl st f of
             None \<Rightarrow> None
           | Some bc \<Rightarrow>
               if cmd = IOCTL_BHI_GETDEVINFO
               then (let (n, info) = bhi_get_dev_info left (bt_ctl (bc_boot bc)) in Some (BhiVal n, Some info, st))
               else if cmd = IOCTL_BHI_WRITEIMAGE
               then (case bhi_write_image env left user (bc_boot bc) of
                       None \<Rightarrow> None
                     | Some (r, b) \<Rightarrow> Some (r, None, st\<lparr>bs_cntrl := (bs_cntrl st)(f \<mapsto> bc\<lparr>bc_boot := b\<rparr>)\<rparr>))
               else Some (BhiErr EINVAL, None, st))"

subsection \<open>Minor numbers\<close>

text \<open>The entries in use come first and belong to different devices.\<close>

fun minors_ok :: "bdf list \<Rightarrow> bool" where
  "minors_ok [] = True"
| "minors_ok (d # ds) = (if d = zero_bdf then set ds \<subseteq> {zero_bdf} else d \<notin> set ds \<and> minors_ok ds)"

lemma claim_minor_entry:
  "claim_minor d a ms = Some (i, ms') \<Longrightarrow>
   i < length ms \<and> length ms' = length ms \<and> mm_id (ms' ! i) = d \<and> (\<forall>j < length ms. mm_id (ms ! j) \<noteq> zero_bdf \<longrightarrow> ms' ! j = ms ! j) \<and>
   set (map mm_id ms') \<subseteq> insert d (set (map mm_id ms))"
proof (induction ms arbitrary: i ms')
  case (Cons m ms)
  show ?case
  proof (cases "mm_id m = d \<or> mm_id m = zero_bdf")
    case True
    then show ?thesis using Cons.prems by (auto simp: nth_Cons split: if_splits nat.splits)
  next
    case False
    then obtain k ks where k: "claim_minor d a ms = Some (k, ks)" "i = Suc k" "ms' = m # ks"
      using Cons.prems by (auto split: option.splits)
    show ?thesis using Cons.IH [OF k(1)] k(2,3) by (auto simp: nth_Cons split: nat.splits)
  qed
qed simp

lemma claim_minor_ok:
  "claim_minor d a ms = Some (i, ms') \<Longrightarrow> minors_ok (map mm_id ms) \<Longrightarrow> d \<noteq> zero_bdf \<Longrightarrow> minors_ok (map mm_id ms')"
proof (induction ms arbitrary: i ms')
  case (Cons m ms)
  show ?case
  proof (cases "mm_id m = d \<or> mm_id m = zero_bdf")
    case True
    then show ?thesis using Cons.prems by (cases "map mm_id ms") (fastforce split: if_splits)+
  next
    case False
    then obtain k ks where k: "claim_minor d a ms = Some (k, ks)" "ms' = m # ks"
      using Cons.prems by (auto split: option.splits)
    have "mm_id m \<notin> set (map mm_id ks)" using claim_minor_entry [OF k(1)] Cons.prems(2) False by auto
    then show ?thesis using Cons.IH [OF k(1)] k(2) Cons.prems False by auto
  qed
qed simp

lemma minors_ok_inj:
  "minors_ok ds \<Longrightarrow> i < length ds \<Longrightarrow> j < length ds \<Longrightarrow> ds ! i = ds ! j \<Longrightarrow> ds ! i \<noteq> zero_bdf \<Longrightarrow> i = j"
proof (induction ds arbitrary: i j)
  case (Cons d ds)
  then show ?case by (cases i; cases j) (fastforce simp: in_set_conv_nth split: if_splits)+
qed simp

lemma claim_minor_full: "claim_minor d a ms = None \<longleftrightarrow> (\<forall>m \<in> set ms. mm_id m \<noteq> d \<and> mm_id m \<noteq> zero_bdf)"
  by (induction ms) (auto split: option.splits)

subsection \<open>What registration changes\<close>

lemma bus_kmem_sel [simp]:
  "bs_minors (bus_kmem n st) = bs_minors st" "bs_list (bus_kmem n st) = bs_list st" "bs_cntrl (bus_kmem n st) = bs_cntrl st"
  "bs_bus (bus_kmem n st) = bs_bus st" "bs_dev (bus_kmem n st) = bs_dev st" "bs_nodes (bus_kmem n st) = bs_nodes st"
  "bs_kmem (bus_kmem n st) = bs_kmem st + n"
  by (simp_all add: bus_kmem_def)

text \<open>The addresses an allocation returns are not in use.\<close>

definition reg_fresh :: "reg_env \<Rightarrow> bus_sys \<Rightarrow> bool" where
  "reg_fresh env st \<longleftrightarrow> (\<forall>a. ge_cntrl env = Some a \<longrightarrow> bs_cntrl st a = None) \<and> (\<forall>da. ge_dev env = Some da \<longrightarrow> bs_dev st da = None)"

text \<open>A registered controller has a new entry in each table; a failed registration at most claims a minor number.\<close>

definition registered :: "bdf \<Rightarrow> u64 \<Rightarrow> bus_sys \<Rightarrow> bus_sys \<Rightarrow> bool" where
  "registered d a st st' \<longleftrightarrow>
     (\<exists>bc da i dev. claim_minor d a (bs_minors st) = Some (i, bs_minors st') \<and> bs_cntrl st a = None \<and> bs_dev st da = None \<and>
        bc_id bc = d \<and> bc_idx bc = i \<and> bc_mhi_dev bc = da \<and>
        bd_type dev = MHI_CONTROLLER_TYPE \<and> bd_id dev = d \<and> bd_cntrl dev = a \<and> bd_refs dev = 1 \<and>
        bs_cntrl st' = (bs_cntrl st)(a \<mapsto> bc) \<and> bs_dev st' = (bs_dev st)(da \<mapsto> dev) \<and>
        bs_list st' = bs_list st @ [a] \<and> bs_bus st' = bs_bus st @ [da] \<and> bs_kmem st' = bs_kmem st + 5 \<and>
        (bs_nodes st' = bs_nodes st \<or> bs_nodes st' = i # bs_nodes st))"

definition not_registered :: "bdf \<Rightarrow> bus_sys \<Rightarrow> bus_sys \<Rightarrow> bool" where
  "not_registered d st st' \<longleftrightarrow>
     (\<exists>ms. st' = st\<lparr>bs_minors := ms\<rparr> \<and> (ms = bs_minors st \<or> (\<exists>a i. claim_minor d a (bs_minors st) = Some (i, ms))))"

lemma not_registered_same: "not_registered d st st"
  by (auto simp: not_registered_def intro!: exI [of _ "bs_minors st"])

lemma fun_upd_None_same: "m a = None \<Longrightarrow> m(a \<mapsto> x, a := None) = m" "m a = None \<Longrightarrow> m(a := None) = m"
  by auto

text \<open>The device of a controller at \<open>a\<close>.\<close>

definition cntrl_device :: "u64 \<Rightarrow> bus_cntrl \<Rightarrow> bus_dev" where
  "cntrl_device a bc = \<lparr>bd_type = MHI_CONTROLLER_TYPE, bd_id = bc_id bc, bd_vendor = bc_vendor bc, bd_mtu = ucast MHI_MAX_MTU,
     bd_cntrl = a, bd_refs = 1\<rparr>"

lemma cntrl_device_sel [simp]:
  "bd_type (cntrl_device a bc) = MHI_CONTROLLER_TYPE" "bd_id (cntrl_device a bc) = bc_id bc" "bd_cntrl (cntrl_device a bc) = a"
  "bd_refs (cntrl_device a bc) = 1"
  by (simp_all add: cntrl_device_def)

lemma register_on_bus_result:
  assumes "register_on_bus env a bc st = (r, st')" and "\<forall>da. ge_dev env = Some da \<longrightarrow> bs_dev st da = None"
  shows "case r of
     Inl _ \<Rightarrow> st' = bus_kmem (-2) st
   | Inr _ \<Rightarrow> (let da = the (ge_dev env) in bs_dev st da = None \<and>
        st' = bus_kmem 2 (st\<lparr>bs_dev := (bs_dev st)(da \<mapsto> cntrl_device a bc), bs_bus := bs_bus st @ [da],
          bs_nodes := (if ge_device_create env then [bc_idx bc] else []) @ bs_nodes st,
          bs_cntrl := (bs_cntrl st)(a \<mapsto> bc\<lparr>bc_mhi_dev := da\<rparr>), bs_list := bs_list st @ [a]\<rparr>))"
  using assms
  by (auto simp: register_on_bus_def mhi_alloc_device_def mhi_dealloc_device_def bus_kmem_def Let_def fun_upd_None_same cntrl_device_def
      split: if_splits option.splits sum.splits)

lemma of_register_mhi_controller_result:
  assumes run: "of_register_mhi_controller env a bc st = (r, st')" and fresh: "\<forall>da. ge_dev env = Some da \<longrightarrow> bs_dev st da = None"
    and cb: "bc_runtime_get bc" "bc_runtime_put bc" "bc_status_cb bc" "bc_link_status bc"
  shows "case r of
     Inl _ \<Rightarrow> not_registered (bc_id bc) st st'
   | Inr _ \<Rightarrow> (\<exists>i ms bc' da. claim_minor (bc_id bc) a (bs_minors st) = Some (i, ms) \<and> bc_id bc' = bc_id bc \<and> bc_idx bc' = i \<and>
        bs_dev st da = None \<and>
        st' = bus_kmem 4 (st\<lparr>bs_minors := ms, bs_dev := (bs_dev st)(da \<mapsto> cntrl_device a bc'), bs_bus := bs_bus st @ [da],
          bs_nodes := (if ge_device_create env then [i] else []) @ bs_nodes st,
          bs_cntrl := (bs_cntrl st)(a \<mapsto> bc'\<lparr>bc_mhi_dev := da\<rparr>), bs_list := bs_list st @ [a]\<rparr>))"
proof (cases "claim_minor (bc_id bc) a (bs_minors st)")
  case None
  then show ?thesis using run by (auto simp: of_register_mhi_controller_def not_registered_same)
next
  case (Some p)
  then obtain i ms where cl: "claim_minor (bc_id bc) a (bs_minors st) = Some (i, ms)" by (cases p) auto
  then have nr: "not_registered (bc_id bc) st (st\<lparr>bs_minors := ms\<rparr>)" by (auto simp: not_registered_def)
  obtain q c where dt: "of_parse_dt (ge_chan env) (ge_event env) (ge_mbim env) (ge_use_dma env) (bt_ctl (bc_boot bc)) = (q, c)"
    by (cases "of_parse_dt (ge_chan env) (ge_event env) (ge_mbim env) (ge_use_dma env) (bt_ctl (bc_boot bc))")
  let ?bc = "bc\<lparr>bc_idx := i, bc_boot := (bc_boot bc)\<lparr>bt_ctl := c\<lparr>transition_list := []\<rparr>, bt_timeout_ms := MHI_TIMEOUT_MS\<rparr>\<rparr>"
  show ?thesis
  proof (cases q)
    case (Inl e)
    then show ?thesis using run cl dt cb nr by (auto simp: of_register_mhi_controller_def Let_def)
  next
    case (Inr u)
    then have rb: "register_on_bus env a ?bc (bus_kmem 2 (st\<lparr>bs_minors := ms\<rparr>)) = (r, st')"
      using run cl dt cb by (auto simp: of_register_mhi_controller_def Let_def)
    show ?thesis
    proof (cases r)
      case (Inl e)
      then show ?thesis using register_on_bus_result [OF rb] fresh nr by (simp add: bus_kmem_def)
    next
      case r: (Inr u)
      show ?thesis using register_on_bus_result [OF rb] fresh cl r
        by (auto simp: Let_def bus_kmem_def intro!: exI [of _ ?bc] exI [of _ "the (ge_dev env)"])
    qed
  qed
qed

lemma mhi_register_controller_outcome:
  assumes run: "mhi_register_controller env vendor d st = (r, st')" and fresh: "reg_fresh env st"
  shows "case r of Inl _ \<Rightarrow> not_registered d st st' | Inr a \<Rightarrow> registered d a st st'"
proof (cases "ge_cntrl env")
  case None
  then show ?thesis using run by (auto simp: mhi_register_controller_def mhi_alloc_controller_def not_registered_same)
next
  case (Some a)
  have f: "bs_cntrl st a = None" "\<forall>da. ge_dev env = Some da \<longrightarrow> bs_dev st da = None"
    using fresh Some by (auto simp: reg_fresh_def)
  obtain bc st1 where al: "mhi_alloc_controller (ge_cntrl env) (ge_io env) st = (Some (a, bc), st1)"
    and st1: "st1 = bus_kmem 1 (st\<lparr>bs_cntrl := (bs_cntrl st)(a \<mapsto> bc)\<rparr>)"
    using Some by (simp add: mhi_alloc_controller_def Let_def)
  let ?bc = "pci_controller (ge_dma32 env) vendor d bc"
  have bc: "bc_id ?bc = d" "bc_runtime_get ?bc" "bc_runtime_put ?bc" "bc_status_cb ?bc" "bc_link_status ?bc"
    by (simp_all add: pci_controller_def)
  obtain q st2 where reg: "of_register_mhi_controller env a ?bc st1 = (q, st2)" by (cases "of_register_mhi_controller env a ?bc st1")
  have "\<forall>da. ge_dev env = Some da \<longrightarrow> bs_dev st1 da = None" using f(2) st1 by simp
  note out = of_register_mhi_controller_result [OF reg this bc(2-5)]
  show ?thesis
  proof (cases q)
    case (Inl e)
    then obtain ms where "st2 = st1\<lparr>bs_minors := ms\<rparr>" "ms = bs_minors st \<or> (\<exists>a i. claim_minor d a (bs_minors st) = Some (i, ms))"
      using out bc(1) st1 by (auto simp: not_registered_def)
    moreover have "r = Inl EINVAL" "st' = mhi_free_controller a st2" using run al reg Inl by (simp_all add: mhi_register_controller_def)
    ultimately have "r = Inl EINVAL" "st' = st\<lparr>bs_minors := ms\<rparr>" "ms = bs_minors st \<or> (\<exists>a i. claim_minor d a (bs_minors st) = Some (i, ms))"
      using st1 f(1) by (simp_all add: mhi_free_controller_def bus_kmem_def fun_upd_None_same)
    then show ?thesis unfolding not_registered_def by (simp del: bus_sys.update_convs) blast
  next
    case (Inr u)
    then obtain i ms bc' da where "claim_minor d a (bs_minors st) = Some (i, ms)" "bc_id bc' = d" "bc_idx bc' = i" "bs_dev st da = None"
      "st2 = bus_kmem 4 (st1\<lparr>bs_minors := ms, bs_dev := (bs_dev st1)(da \<mapsto> cntrl_device a bc'), bs_bus := bs_bus st1 @ [da],
         bs_nodes := (if ge_device_create env then [i] else []) @ bs_nodes st1,
         bs_cntrl := (bs_cntrl st1)(a \<mapsto> bc'\<lparr>bc_mhi_dev := da\<rparr>), bs_list := bs_list st1 @ [a]\<rparr>)"
      using out bc(1) st1 by auto
    moreover have "r = Inr a" "st' = st2" using run al reg Inr by (simp_all add: mhi_register_controller_def)
    ultimately show ?thesis using st1 f(1)
      by (auto simp: registered_def intro!: exI [of _ "bc'\<lparr>bc_mhi_dev := da\<rparr>"] exI [of _ da] exI [of _ "cntrl_device a bc'"])
  qed
qed

subsection \<open>The invariant of the bus\<close>

text \<open>
  A controller in the list has its entry in the table of minor numbers and a device on the bus that points back to it. No
  two of them are at the same place on the PCI bus.
\<close>

definition listed_ok :: "bus_sys \<Rightarrow> u64 \<Rightarrow> bus_cntrl \<Rightarrow> bool" where
  "listed_ok st a bc \<longleftrightarrow> bs_cntrl st a = Some bc \<and> bc_id bc \<noteq> zero_bdf \<and> bc_idx bc < length (bs_minors st) \<and>
     mm_id (bs_minors st ! bc_idx bc) = bc_id bc \<and>
     (\<exists>dev. bs_dev st (bc_mhi_dev bc) = Some dev \<and> bd_type dev = MHI_CONTROLLER_TYPE \<and> bd_id dev = bc_id bc \<and> bd_cntrl dev = a \<and> 1 \<le> bd_refs dev)"

abbreviation cntrl_of :: "bus_sys \<Rightarrow> u64 \<Rightarrow> bus_cntrl" where "cntrl_of st a \<equiv> the (bs_cntrl st a)"

definition bus_wf :: "bus_sys \<Rightarrow> bool" where
  "bus_wf st \<longleftrightarrow> minors_ok (map mm_id (bs_minors st)) \<and> distinct (bs_list st) \<and> (\<forall>a \<in> set (bs_list st). listed_ok st a (cntrl_of st a)) \<and>
     bs_bus st = map (\<lambda>a. bc_mhi_dev (cntrl_of st a)) (bs_list st) \<and> inj_on (\<lambda>a. bc_id (cntrl_of st a)) (set (bs_list st))"

lemma bus_wfD:
  assumes "bus_wf st"
  shows "minors_ok (map mm_id (bs_minors st))" "distinct (bs_list st)" "a \<in> set (bs_list st) \<Longrightarrow> listed_ok st a (cntrl_of st a)"
    "bs_bus st = map (\<lambda>a. bc_mhi_dev (cntrl_of st a)) (bs_list st)" "inj_on (\<lambda>a. bc_id (cntrl_of st a)) (set (bs_list st))"
  using assms by (simp_all add: bus_wf_def)

lemma bus_start_wf: "bus_wf bus_start"
proof -
  have "minors_ok (replicate n zero_bdf)" for n by (cases n) (auto simp: set_replicate_conv_if)
  then show ?thesis by (simp add: bus_wf_def bus_start_def)
qed

lemma bdf_match_iff: "bdf_match d dev \<longleftrightarrow> bd_type dev = MHI_CONTROLLER_TYPE \<and> bd_id dev = d"
  by (cases "bd_id dev"; cases d) (auto simp: bdf_match_def)

lemma listed_alloc: "bus_wf st \<Longrightarrow> a \<in> set (bs_list st) \<Longrightarrow> \<exists>bc. bs_cntrl st a = Some bc"
  using bus_wfD(3) unfolding listed_ok_def by blast

lemma listed_dev_inj:
  assumes "bus_wf st" "a \<in> set (bs_list st)" "b \<in> set (bs_list st)" "bc_mhi_dev (cntrl_of st a) = bc_mhi_dev (cntrl_of st b)"
  shows "a = b"
proof -
  have dev: "\<exists>dev. bs_dev st (bc_mhi_dev (cntrl_of st x)) = Some dev \<and> bd_cntrl dev = x" if "x \<in> set (bs_list st)" for x
    using bus_wfD(3) [OF assms(1) that] unfolding listed_ok_def by blast
  show ?thesis using dev [OF assms(2)] dev [OF assms(3)] unfolding assms(4) by (metis option.inject)
qed

text \<open>The lookup finds the controller at a place if there is one in the list; all it changes is a reference count.\<close>

definition more_refs :: "bus_sys \<Rightarrow> bus_sys \<Rightarrow> bool" where
  "more_refs st st' \<longleftrightarrow> (\<exists>da dev. bs_dev st da = Some dev \<and> st' = st\<lparr>bs_dev := (bs_dev st)(da \<mapsto> dev\<lparr>bd_refs := bd_refs dev + 1\<rparr>)\<rparr>)"

lemma more_refs_wf:
  assumes wf: "bus_wf st" and m: "more_refs st st'"
  shows "bus_wf st'"
proof -
  obtain da dev where d: "bs_dev st da = Some dev" "st' = st\<lparr>bs_dev := (bs_dev st)(da \<mapsto> dev\<lparr>bd_refs := bd_refs dev + 1\<rparr>)\<rparr>"
    using m by (auto simp: more_refs_def)
  have "listed_ok st' a bc" if "listed_ok st a bc" for a bc
    using that d by (auto simp: listed_ok_def)
  then show ?thesis using wf d by (auto simp: bus_wf_def)
qed

lemma mhi_bdf_to_controller_found:
  assumes wf: "bus_wf st"
  shows "case mhi_bdf_to_controller d st of
      (None, st') \<Rightarrow> st' = st \<and> (\<forall>a \<in> set (bs_list st). bc_id (cntrl_of st a) \<noteq> d)
    | (Some a, st') \<Rightarrow> a \<in> set (bs_list st) \<and> bc_id (cntrl_of st a) = d \<and>
        (\<exists>dev. bs_dev st (bc_mhi_dev (cntrl_of st a)) = Some dev \<and> 1 \<le> bd_refs dev \<and>
          st' = st\<lparr>bs_dev := (bs_dev st)(bc_mhi_dev (cntrl_of st a) \<mapsto> dev\<lparr>bd_refs := bd_refs dev + 1\<rparr>)\<rparr>)"
proof -
  let ?P = "\<lambda>da. case bs_dev st da of None \<Rightarrow> False | Some dev \<Rightarrow> bdf_match d dev"
  have P: "?P (bc_mhi_dev (cntrl_of st a)) \<longleftrightarrow> bc_id (cntrl_of st a) = d" if "a \<in> set (bs_list st)" for a
    using bus_wfD(3) [OF wf that] by (auto simp: listed_ok_def bdf_match_iff)
  show ?thesis
  proof (cases "find ?P (bs_bus st)")
    case None
    then have "\<forall>a \<in> set (bs_list st). \<not> ?P (bc_mhi_dev (cntrl_of st a))" using bus_wfD(4) [OF wf] by (auto simp: find_None_iff)
    then show ?thesis using None P by (auto simp: mhi_bdf_to_controller_def)
  next
    case (Some da)
    then have "da \<in> set (bs_bus st)" "?P da" by (auto simp: find_Some_iff)
    then obtain a where a: "a \<in> set (bs_list st)" "da = bc_mhi_dev (cntrl_of st a)" using bus_wfD(4) [OF wf] by auto
    with P \<open>?P da\<close> have "bc_id (cntrl_of st a) = d" by blast
    moreover obtain dev where "bs_dev st da = Some dev" "bd_cntrl dev = a" "1 \<le> bd_refs dev"
      using bus_wfD(3) [OF wf a(1)] a(2) by (auto simp: listed_ok_def)
    ultimately show ?thesis using Some a by (simp add: mhi_bdf_to_controller_def)
  qed
qed

lemma mhi_bdf_to_controller_some:
  assumes wf: "bus_wf st" and run: "mhi_bdf_to_controller d st = (Some a, st')"
  shows "a \<in> set (bs_list st)" "more_refs st st'"
  using mhi_bdf_to_controller_found [OF wf, of d] run unfolding more_refs_def by simp_all blast

lemma mhi_bdf_to_controller_own:
  assumes wf: "bus_wf st" and a: "a \<in> set (bs_list st)"
  obtains dev where "bs_dev st (bc_mhi_dev (cntrl_of st a)) = Some dev" "1 \<le> bd_refs dev"
    "mhi_bdf_to_controller (bc_id (cntrl_of st a)) st =
      (Some a, st\<lparr>bs_dev := (bs_dev st)(bc_mhi_dev (cntrl_of st a) \<mapsto> dev\<lparr>bd_refs := bd_refs dev + 1\<rparr>)\<rparr>)"
proof -
  let ?d = "bc_id (cntrl_of st a)"
  note found = mhi_bdf_to_controller_found [OF wf, of ?d]
  obtain x st1 where l: "mhi_bdf_to_controller ?d st = (x, st1)" by (cases "mhi_bdf_to_controller ?d st")
  have "x = Some a"
  proof (cases x)
    case (Some b)
    then have "b \<in> set (bs_list st)" "bc_id (cntrl_of st b) = ?d" using found l by auto
    then show ?thesis using bus_wfD(5) [OF wf] a Some by (auto simp: inj_on_def)
  qed (use found l a in auto)
  then show thesis using found l that by auto
qed

text \<open>Claiming a minor number leaves the entries in use as they are.\<close>

definition minors_grow :: "mhi_controller_map list \<Rightarrow> mhi_controller_map list \<Rightarrow> bool" where
  "minors_grow ms ms' \<longleftrightarrow> length ms' = length ms \<and> (\<forall>i < length ms. mm_id (ms ! i) \<noteq> zero_bdf \<longrightarrow> mm_id (ms' ! i) = mm_id (ms ! i))"

lemma minors_grow_refl [simp]: "minors_grow ms ms" and
  minors_grow_trans: "minors_grow ms ms' \<Longrightarrow> minors_grow ms' ms'' \<Longrightarrow> minors_grow ms ms''" and
  claim_minor_grow: "claim_minor d a ms = Some (i, ms') \<Longrightarrow> minors_grow ms ms'"
  using claim_minor_entry [of d a ms i ms'] by (auto simp: minors_grow_def)

lemma listed_ok_grow:
  "listed_ok st a bc \<Longrightarrow> minors_grow (bs_minors st) ms \<Longrightarrow> listed_ok (st\<lparr>bs_minors := ms\<rparr>) a bc"
  by (simp add: listed_ok_def minors_grow_def)

lemma not_registered_wf:
  assumes wf: "bus_wf st" and n: "not_registered d st st'" and d: "d \<noteq> zero_bdf"
  shows "bus_wf st'"
proof -
  obtain ms where st': "st' = st\<lparr>bs_minors := ms\<rparr>" and ms: "ms = bs_minors st \<or> (\<exists>a i. claim_minor d a (bs_minors st) = Some (i, ms))"
    using n by (auto simp: not_registered_def)
  have "minors_ok (map mm_id ms)" "minors_grow (bs_minors st) ms"
    using ms bus_wfD(1) [OF wf] claim_minor_ok [OF _ _ d] claim_minor_grow by auto
  then show ?thesis using wf st' listed_ok_grow by (auto simp: bus_wf_def)
qed

lemma registered_wf:
  assumes wf: "bus_wf st" and r: "registered d a st st'" and d: "d \<noteq> zero_bdf"
    and new: "\<forall>b \<in> set (bs_list st). bc_id (cntrl_of st b) \<noteq> d"
  shows "bus_wf st'"
proof -
  obtain bc da i dev where cl: "claim_minor d a (bs_minors st) = Some (i, bs_minors st')" and fr: "bs_cntrl st a = None" "bs_dev st da = None"
    and bc: "bc_id bc = d" "bc_idx bc = i" "bc_mhi_dev bc = da"
    and dev: "bd_type dev = MHI_CONTROLLER_TYPE" "bd_id dev = d" "bd_cntrl dev = a" "bd_refs dev = 1"
    and st': "bs_cntrl st' = (bs_cntrl st)(a \<mapsto> bc)" "bs_dev st' = (bs_dev st)(da \<mapsto> dev)"
      "bs_list st' = bs_list st @ [a]" "bs_bus st' = bs_bus st @ [da]"
    using r by (auto simp: registered_def)
  have grow: "minors_grow (bs_minors st) (bs_minors st')" by (rule claim_minor_grow [OF cl])
  have na: "a \<notin> set (bs_list st)" using bus_wfD(3) [OF wf, of a] fr by (auto simp: listed_ok_def)
  have old: "listed_ok st' b (cntrl_of st b)" "cntrl_of st' b = cntrl_of st b" if "b \<in> set (bs_list st)" for b
  proof -
    have ba: "b \<noteq> a" using that na by auto
    then show "cntrl_of st' b = cntrl_of st b" using st' by simp
    show "listed_ok st' b (cntrl_of st b)"
      using bus_wfD(3) [OF wf that] grow ba fr st' by (auto simp: listed_ok_def minors_grow_def)
  qed
  have "listed_ok st' a bc" using claim_minor_entry [OF cl] bc dev d st' by (auto simp: listed_ok_def)
  moreover have "minors_ok (map mm_id (bs_minors st'))" by (rule claim_minor_ok [OF cl bus_wfD(1) [OF wf] d])
  moreover have "bs_bus st' = map (\<lambda>a. bc_mhi_dev (cntrl_of st' a)) (bs_list st')"
    using bus_wfD(4) [OF wf] old(2) st' bc by simp
  moreover have "inj_on (\<lambda>a. bc_id (cntrl_of st' a)) (set (bs_list st'))"
    using bus_wfD(5) [OF wf] new old(2) st' bc na by (auto simp: inj_on_def)
  ultimately show ?thesis using old na bus_wfD(2) [OF wf] st' by (simp add: bus_wf_def)
qed

lemma put_device_sel [simp]:
  "bs_minors (put_device da st) = bs_minors st" "bs_list (put_device da st) = bs_list st" "bs_cntrl (put_device da st) = bs_cntrl st"
  "bs_bus (put_device da st) = bs_bus st" "bs_nodes (put_device da st) = bs_nodes st" "x \<noteq> da \<Longrightarrow> bs_dev (put_device da st) x = bs_dev st x"
  by (simp_all add: put_device_def mhi_release_device_def split: option.split)

lemma mhi_unregister_wf:
  assumes wf: "bus_wf st" and a: "a \<in> set (bs_list st)"
  shows "bus_wf (mhi_unregister_mhi_controller a st)"
proof -
  let ?st = "mhi_unregister_mhi_controller a st" and ?f = "\<lambda>a. bc_mhi_dev (cntrl_of st a)"
  obtain bc where bc: "bs_cntrl st a = Some bc" using listed_alloc [OF wf a] by blast
  have st: "bs_minors ?st = bs_minors st" "bs_cntrl ?st = bs_cntrl st" "bs_list ?st = filter ((\<noteq>) a) (bs_list st)"
    "bs_bus ?st = remove1 (?f a) (bs_bus st)" "\<And>x. x \<noteq> ?f a \<Longrightarrow> bs_dev ?st x = bs_dev st x"
    using bc bus_wfD(2) [OF wf] by (simp_all add: mhi_unregister_mhi_controller_def Let_def distinct_remove1_removeAll removeAll_filter_not_eq)
  have inj: "inj_on ?f (set (bs_list st))" using listed_dev_inj [OF wf] by (auto simp: inj_on_def)
  have "distinct (map ?f (bs_list st))" using inj bus_wfD(2) [OF wf] by (simp add: distinct_map)
  then have "remove1 (?f a) (map ?f (bs_list st)) = map ?f (filter ((\<noteq>) a) (bs_list st))"
    using inj a by (auto simp: distinct_remove1_removeAll removeAll_filter_not_eq filter_map inj_on_def intro!: arg_cong [of _ _ "map ?f"] filter_cong)
  moreover have "listed_ok ?st b (cntrl_of st b)" if "b \<in> set (bs_list st)" "b \<noteq> a" for b
    using bus_wfD(3) [OF wf that(1)] st(1,2) st(5) [of "?f b"] listed_dev_inj [OF wf that(1) a] that(2)
    unfolding listed_ok_def by metis
  ultimately show ?thesis using bus_wfD [OF wf] st(1-4) by (auto simp: bus_wf_def inj_on_def)
qed

subsection \<open>Runs of the module\<close>

text \<open>
  Between loading and unloading, PCI devices the driver is for are probed and removed in any order, and images are written
  through the device files.
\<close>

inductive bus_step :: "bus_sys \<Rightarrow> bus_sys \<Rightarrow> bool" where
  Probed: "(vendor, b_dev_id d) \<in> set mhi_pcie_device_id \<Longrightarrow> reg_fresh env st \<Longrightarrow> bus_step st (snd (probe_controller env vendor d st))"
| Removed: "bus_step st (remove_controller powered_on d st)"
| Ioctl: "mhi_cntrl_ioctl env left user f cmd st = Some (r, info, st') \<Longrightarrow> bus_step st st'"

abbreviation bus_steps :: "bus_sys \<Rightarrow> bus_sys \<Rightarrow> bool" where "bus_steps \<equiv> bus_step\<^sup>*\<^sup>*"

lemma mhi_pcie_device_id_nonzero: "(vendor, b_dev_id d) \<in> set mhi_pcie_device_id \<Longrightarrow> d \<noteq> zero_bdf"
  by (auto simp: mhi_pcie_device_id_def MHI_PCIE_DEBUG_ID_def zero_bdf_def)

text \<open>The four outcomes of a step on the tables; what a step keeps follows from these cases.\<close>

definition step_same :: "bus_sys \<Rightarrow> bus_sys \<Rightarrow> bool" where
  "step_same st st' \<longleftrightarrow> bs_minors st' = bs_minors st \<and> bs_list st' = bs_list st \<and> dom (bs_cntrl st') = dom (bs_cntrl st) \<and> bus_wf st'"

definition step_gone :: "u64 \<Rightarrow> bus_sys \<Rightarrow> bus_sys \<Rightarrow> bool" where
  "step_gone a st st' \<longleftrightarrow> a \<in> set (bs_list st) \<and> bs_minors st' = bs_minors st \<and> bs_list st' = filter ((\<noteq>) a) (bs_list st) \<and>
     bs_cntrl st' = bs_cntrl st \<and> bus_wf st'"

definition step_cases :: "bus_sys \<Rightarrow> bus_sys \<Rightarrow> bool" where
  "step_cases st st' \<longleftrightarrow> step_same st st' \<or> (\<exists>d. not_registered d st st' \<and> d \<noteq> zero_bdf) \<or>
     (\<exists>d a. registered d a st st' \<and> d \<noteq> zero_bdf \<and> (\<forall>b \<in> set (bs_list st). bc_id (cntrl_of st b) \<noteq> d)) \<or> (\<exists>a. step_gone a st st')"

lemma more_refs_same: "bus_wf st \<Longrightarrow> more_refs st st' \<Longrightarrow> step_same st st'"
  using more_refs_wf by (fastforce simp: step_same_def more_refs_def)

lemma probe_step:
  assumes wf: "bus_wf st" and d: "d \<noteq> zero_bdf" and fresh: "reg_fresh env st"
  shows "step_cases st (snd (probe_controller env vendor d st))"
proof (cases "mhi_bdf_to_controller d st")
  case (Pair x st1)
  note found = mhi_bdf_to_controller_found [OF wf, of d]
  obtain r st2 where reg: "mhi_register_controller env vendor d st = (r, st2)" by (cases "mhi_register_controller env vendor d st")
  show ?thesis
  proof (cases x)
    case None
    have "st1 = st" "\<forall>a \<in> set (bs_list st). bc_id (cntrl_of st a) \<noteq> d" using found Pair None by auto
    then show ?thesis using mhi_register_controller_outcome [OF reg fresh] reg Pair None d
      by (cases r) (auto simp: probe_controller_def step_cases_def)
  next
    case (Some a)
    then have "more_refs st st1" using mhi_bdf_to_controller_some [OF wf] Pair by blast
    then show ?thesis using more_refs_same [OF wf] Pair Some by (simp add: probe_controller_def step_cases_def)
  qed
qed

lemma remove_step:
  assumes wf: "bus_wf st"
  shows "step_cases st (remove_controller powered_on d st)"
proof (cases "mhi_bdf_to_controller d st")
  case (Pair x st1)
  note found = mhi_bdf_to_controller_found [OF wf, of d]
  show ?thesis
  proof (cases x)
    case None
    then show ?thesis using Pair found wf by (simp add: remove_controller_def step_cases_def step_same_def)
  next
    case (Some a)
    then have m: "more_refs st st1" and a: "a \<in> set (bs_list st)" using mhi_bdf_to_controller_some [OF wf] Pair by blast+
    have s1: "bs_minors st1 = bs_minors st" "bs_list st1 = bs_list st" "bs_cntrl st1 = bs_cntrl st" using m by (auto simp: more_refs_def)
    obtain bc where bc: "bs_cntrl st1 a = Some bc" using listed_alloc [OF wf a] s1 by auto
    let ?u = "mhi_unregister_mhi_controller a st1"
    have "bs_minors ?u = bs_minors st" "bs_cntrl ?u = bs_cntrl st" "bs_list ?u = remove1 a (bs_list st)"
      using bc s1 by (simp_all add: mhi_unregister_mhi_controller_def Let_def)
    then have "step_gone a st ?u"
      using mhi_unregister_wf [OF more_refs_wf [OF wf m]] a s1 bus_wfD(2) [OF wf]
      by (simp add: step_gone_def distinct_remove1_removeAll removeAll_filter_not_eq)
    then show ?thesis using Pair Some more_refs_same [OF wf m] by (auto simp: remove_controller_def step_cases_def)
  qed
qed

lemma ioctl_step:
  assumes wf: "bus_wf st" and run: "mhi_cntrl_ioctl env left user f cmd st = Some (r, info, st')"
  shows "step_cases st st'"
proof (cases "st' = st")
  case False
  then obtain bc b where b: "bs_cntrl st f = Some bc" "st' = st\<lparr>bs_cntrl := (bs_cntrl st)(f \<mapsto> bc\<lparr>bc_boot := b\<rparr>)\<rparr>"
    using run by (auto simp: mhi_cntrl_ioctl_def split: if_splits option.splits prod.splits)
  have same: "bc_id (cntrl_of st' x) = bc_id (cntrl_of st x)" "bc_mhi_dev (cntrl_of st' x) = bc_mhi_dev (cntrl_of st x)" for x
    using b by (cases "x = f"; simp)+
  have "listed_ok st' x (cntrl_of st' x)" if "x \<in> set (bs_list st)" for x
    using bus_wfD(3) [OF wf that] b by (cases "x = f"; simp add: listed_ok_def)
  moreover have "bs_minors st' = bs_minors st" "bs_list st' = bs_list st" "bs_bus st' = bs_bus st" using b(2) by simp_all
  ultimately have "bus_wf st'" using bus_wfD [OF wf] by (simp only: bus_wf_def same) blast
  then show ?thesis using b by (auto simp: step_cases_def step_same_def)
qed (use wf in \<open>simp add: step_cases_def step_same_def\<close>)

lemma bus_step_cases: "bus_step st st' \<Longrightarrow> bus_wf st \<Longrightarrow> step_cases st st'"
  by (induction rule: bus_step.induct) (auto intro: probe_step remove_step ioctl_step dest: mhi_pcie_device_id_nonzero)

lemma bus_step_wf: "bus_step st st' \<Longrightarrow> bus_wf st \<Longrightarrow> bus_wf st'"
  using bus_step_cases [of st st'] not_registered_wf [of st] registered_wf [of st]
  unfolding step_cases_def step_same_def step_gone_def by blast

lemma bus_steps_wf: "bus_steps st st' \<Longrightarrow> bus_wf st \<Longrightarrow> bus_wf st'"
  by (induction rule: rtranclp_induct) (auto intro: bus_step_wf)

lemma bus_step_grow:
  assumes "bus_step st st'" "bus_wf st"
  shows "minors_grow (bs_minors st) (bs_minors st')"
  using bus_step_cases [OF assms] claim_minor_grow
  by (auto simp: step_cases_def step_same_def step_gone_def not_registered_def registered_def)

lemma bus_steps_grow: "bus_steps st st' \<Longrightarrow> bus_wf st \<Longrightarrow> minors_grow (bs_minors st) (bs_minors st')"
proof (induction rule: rtranclp_induct)
  case (step y z)
  then show ?case using bus_step_grow [OF step.hyps(2)] bus_steps_wf [OF step.hyps(1)] minors_grow_trans by blast
qed simp

text \<open>A controller that is allocated but not in the list never gets into it: its address is not given out again.\<close>

lemma bus_step_out:
  assumes "bus_step st st'" "bus_wf st" "a \<in> dom (bs_cntrl st)" "a \<notin> set (bs_list st)"
  shows "a \<in> dom (bs_cntrl st') \<and> a \<notin> set (bs_list st')"
  using bus_step_cases [OF assms(1,2)] assms(3,4)
  by (auto simp: step_cases_def step_same_def step_gone_def not_registered_def registered_def)

lemma bus_steps_out:
  "bus_steps st st' \<Longrightarrow> bus_wf st \<Longrightarrow> a \<in> dom (bs_cntrl st) \<Longrightarrow> a \<notin> set (bs_list st) \<Longrightarrow>
   a \<in> dom (bs_cntrl st') \<and> a \<notin> set (bs_list st')"
proof (induction rule: rtranclp_induct)
  case (step y z)
  then show ?case using bus_step_out [OF step.hyps(2)] bus_steps_wf [OF step.hyps(1)] by blast
qed simp

subsection \<open>Registering succeeds\<close>

lemma of_parse_dt_ok: "\<exists>c'. of_parse_dt True True mbim use_dma c = (Inr (), c')"
proof -
  have "parsed_layout_ok mbim use_dma" using parsed_layout_ok_cases by (cases mbim; cases use_dma) simp_all
  then obtain chs where "ch_cfg_loop mbim use_dma chan_cfg 0 (replicate MHI_MAX_CHANNELS zero_chan) = Inr chs"
    by (auto simp: parsed_layout_ok_def split: sum.splits)
  then show ?thesis by (simp add: of_parse_dt_def of_parse_ch_cfg_def of_parse_ev_cfg_def Let_def)
qed

text \<open>With memory, a free minor number and a device that can be added, registration succeeds.\<close>

definition reg_all_ok :: "reg_env \<Rightarrow> bool" where
  "reg_all_ok env \<longleftrightarrow> ge_cntrl env \<noteq> None \<and> ge_chan env \<and> ge_event env \<and> ge_cmd env \<and> ge_dev env \<noteq> None \<and> ge_device_add env = Inr ()"

lemma mhi_register_controller_ok:
  assumes ok: "reg_all_ok env" and room: "\<exists>m \<in> set (bs_minors st). mm_id m = d \<or> mm_id m = zero_bdf"
  shows "fst (mhi_register_controller env vendor d st) = Inr (the (ge_cntrl env))"
proof -
  obtain a da where a: "ge_cntrl env = Some a" "ge_dev env = Some da" using ok by (auto simp: reg_all_ok_def)
  obtain i ms where cl: "claim_minor d a (bs_minors st) = Some (i, ms)"
    using room claim_minor_full [of d a "bs_minors st"] by (cases "claim_minor d a (bs_minors st)") auto
  have dt: "\<exists>c'. of_parse_dt (ge_chan env) (ge_event env) mbim use_dma c = (Inr (), c')" for mbim use_dma c
    using ok of_parse_dt_ok by (simp add: reg_all_ok_def)
  have reg: "fst (register_on_bus env a bc s) = Inr ()" for bc s
    using ok a by (simp add: register_on_bus_def mhi_alloc_device_def reg_all_ok_def Let_def)
  have "fst (of_register_mhi_controller env a (pci_controller (ge_dma32 env) vendor d bc) s) = Inr ()" if "bs_minors s = bs_minors st" for bc s
    using dt [of "ge_mbim env" "ge_use_dma env" "bt_ctl (bc_boot (pci_controller (ge_dma32 env) vendor d bc))"] reg cl that
    by (auto simp: of_register_mhi_controller_def Let_def pci_controller_def)
  then show ?thesis using a
    by (auto simp: mhi_register_controller_def mhi_alloc_controller_def Let_def split: prod.splits sum.splits)
       (metis Inl_Inr_False bus_kmem_sel(1) bus_sys.select_convs(1) bus_sys.surjective bus_sys.update_convs(3) fst_conv)
qed

lemma probe_new_registers:
  assumes "bus_wf st" "reg_all_ok env" "reg_fresh env st" "\<forall>b \<in> set (bs_list st). bc_id (cntrl_of st b) \<noteq> d"
    and "\<exists>m \<in> set (bs_minors st). mm_id m = d \<or> mm_id m = zero_bdf"
  shows "registered d (the (ge_cntrl env)) st (snd (probe_controller env vendor d st))"
proof -
  obtain r st' where reg: "mhi_register_controller env vendor d st = (r, st')" by (cases "mhi_register_controller env vendor d st")
  have "mhi_bdf_to_controller d st = (None, st)"
    using mhi_bdf_to_controller_found [OF assms(1), of d] assms(4) by (cases "mhi_bdf_to_controller d st") (auto split: option.splits)
  then show ?thesis using mhi_register_controller_outcome [OF reg assms(3)] mhi_register_controller_ok [OF assms(2,5), of vendor] reg
    by (simp add: probe_controller_def)
qed

lemma remove_controller_dom:
  "dom (bs_dev (remove_controller p d st)) \<subseteq> dom (bs_dev st)" "bs_cntrl (remove_controller p d st) = bs_cntrl st"
  "bs_minors (remove_controller p d st) = bs_minors st"
  by (auto simp: remove_controller_def mhi_bdf_to_controller_def mhi_unregister_mhi_controller_def put_device_def mhi_release_device_def Let_def
      split: option.splits if_splits)

lemma remove_own_list:
  assumes wf: "bus_wf st" and a: "a \<in> set (bs_list st)"
  shows "bs_list (remove_controller True (bc_id (cntrl_of st a)) st) = remove1 a (bs_list st)"
proof -
  obtain bc where bc: "bs_cntrl st a = Some bc" using listed_alloc [OF wf a] by blast
  obtain st1 where "mhi_bdf_to_controller (bc_id (cntrl_of st a)) st = (Some a, st1)" "bs_cntrl st1 = bs_cntrl st" "bs_list st1 = bs_list st"
    by (rule mhi_bdf_to_controller_own [OF wf a]) simp
  then show ?thesis using bc by (simp add: remove_controller_def mhi_unregister_mhi_controller_def Let_def)
qed

subsection \<open>Properties\<close>

text \<open>
  (C16) For the whole life of the module the minor number of a controller stands for its place on the PCI bus: two
  controllers registered at any two times have the same number exactly when they are at the same place, and opening
  the device file of a registered controller finds that controller.
\<close>
theorem minor_is_place:
  assumes "bus_steps bus_start st" "bus_steps st st'" and a: "a \<in> set (bs_list st)" and a': "a' \<in> set (bs_list st')"
  shows "(bc_idx (cntrl_of st' a') = bc_idx (cntrl_of st a) \<longleftrightarrow> bc_id (cntrl_of st' a') = bc_id (cntrl_of st a)) \<and>
    mhi_cntrl_open (bc_idx (cntrl_of st a)) st = Inr a"
proof -
  have wf: "bus_wf st" by (rule bus_steps_wf [OF assms(1) bus_start_wf])
  have wf': "bus_wf st'" by (rule bus_steps_wf [OF assms(2) wf])
  let ?ids = "map mm_id (bs_minors st')"
  have entry: "bc_idx (cntrl_of s x) < length ?ids \<and> ?ids ! bc_idx (cntrl_of s x) = bc_id (cntrl_of s x) \<and> bc_id (cntrl_of s x) \<noteq> zero_bdf"
    if "bus_wf s" "x \<in> set (bs_list s)" "minors_grow (bs_minors s) (bs_minors st')" for s x
    using bus_wfD(3) [OF that(1,2)] that(3) by (auto simp: listed_ok_def minors_grow_def)
  have same: "bc_idx (cntrl_of st' y) = bc_idx (cntrl_of s x) \<longleftrightarrow> bc_id (cntrl_of st' y) = bc_id (cntrl_of s x)"
    if "bus_wf s" "x \<in> set (bs_list s)" "minors_grow (bs_minors s) (bs_minors st')" "y \<in> set (bs_list st')" for s x y
    using entry [OF that(1-3)] entry [OF wf' that(4) minors_grow_refl] minors_ok_inj [OF bus_wfD(1) [OF wf']] by metis
  have here: "bc_idx (cntrl_of st y) = bc_idx (cntrl_of st a) \<Longrightarrow> y = a" if "y \<in> set (bs_list st)" for y
    using bus_wfD(3) [OF wf that] bus_wfD(3) [OF wf a] bus_wfD(5) [OF wf] that a by (auto simp: listed_ok_def inj_on_def)
  let ?P = "\<lambda>x. case bs_cntrl st x of None \<Rightarrow> False | Some bc \<Rightarrow> bc_idx bc = bc_idx (cntrl_of st a)"
  have "?P a" using listed_alloc [OF wf a] by auto
  then obtain y where y: "find ?P (bs_list st) = Some y" using a by (cases "find ?P (bs_list st)") (auto simp: find_None_iff)
  then have "y \<in> set (bs_list st)" "?P y" by (auto simp: find_Some_iff)
  then have "y = a" using here by (auto split: option.splits)
  then show ?thesis using y same [OF wf a bus_steps_grow [OF assms(2) wf] a'] by (simp add: mhi_cntrl_open_def)
qed

text \<open>
  (C21) A device file that is open when its controller is removed never reaches another controller: every later request on it
  ends with \<^verbatim>\<open>ENODEV\<close> and changes nothing.
\<close>
theorem stale_file_refused:
  assumes "bus_steps bus_start st" and "a \<in> set (bs_list st)" and "bus_steps (remove_controller True (bc_id (cntrl_of st a)) st) st'"
  shows "mhi_cntrl_ioctl env left user a cmd st' = Some (BhiErr ENODEV, None, st')"
proof -
  have wf: "bus_wf st" by (rule bus_steps_wf [OF assms(1) bus_start_wf])
  let ?st1 = "remove_controller True (bc_id (cntrl_of st a)) st"
  obtain bc where bc: "bs_cntrl st a = Some bc" using listed_alloc [OF wf assms(2)] by blast
  have "bs_cntrl ?st1 = bs_cntrl st" "bs_list ?st1 = remove1 a (bs_list st)"
    using remove_controller_dom(2) remove_own_list [OF wf assms(2)] by simp_all
  then have "a \<in> dom (bs_cntrl ?st1)" "a \<notin> set (bs_list ?st1)" using bc bus_wfD(2) [OF wf] by auto
  moreover have "bus_wf ?st1" by (rule bus_step_wf [OF bus_step.Removed wf])
  ultimately have "a \<notin> set (bs_list st')" using bus_steps_out [OF assms(3)] by blast
  then show ?thesis by (simp add: mhi_cntrl_ioctl_def)
qed

text \<open>
  The kernel memory of a registration: a failed one keeps nothing and leaves the list, the bus and the device files as
  they were; a successful one holds the controller, its three arrays and its device.
\<close>
theorem mhi_register_controller_memory:
  assumes "mhi_register_controller env vendor d st = (r, st')" and "reg_fresh env st"
  shows "case r of
      Inl _ \<Rightarrow> st' = st\<lparr>bs_minors := bs_minors st'\<rparr>
    | Inr a \<Rightarrow> bs_kmem st' = bs_kmem st + 5 \<and> bs_list st' = bs_list st @ [a] \<and> bs_cntrl st a = None \<and> bc_id (cntrl_of st' a) = d"
  using mhi_register_controller_outcome [OF assms] by (cases r) (auto simp: not_registered_def registered_def)

text \<open>
  Removing a controller that was just registered takes it off the list, the bus and the device files, but keeps two
  pieces of memory: the controller itself, which nothing frees, and its device, whose reference count the lookup in the
  removal has raised.
\<close>
theorem removed_controller_leaks:
  assumes run: "mhi_register_controller env vendor d st = (Inr a, st')" and fresh: "reg_fresh env st" and wf: "bus_wf st"
    and d: "d \<noteq> zero_bdf" and new: "\<forall>b \<in> set (bs_list st). bc_id (cntrl_of st b) \<noteq> d"
  shows "let st'' = remove_controller True d st' in
    bs_kmem st'' = bs_kmem st + 2 \<and> bs_list st'' = bs_list st \<and> bs_bus st'' = bs_bus st \<and>
    a \<in> dom (bs_cntrl st'') \<and> bc_mhi_dev (cntrl_of st'' a) \<in> dom (bs_dev st'')"
proof -
  have r: "registered d a st st'" using mhi_register_controller_outcome [OF run fresh] by simp
  have wf': "bus_wf st'" by (rule registered_wf [OF wf r d new])
  have a: "a \<in> set (bs_list st')" "bc_id (cntrl_of st' a) = d" using r by (auto simp: registered_def)
  have k: "bs_kmem st' = bs_kmem st + 5" "bs_list st' = bs_list st @ [a]" "bs_bus st' = bs_bus st @ [bc_mhi_dev (cntrl_of st' a)]"
    using r by (auto simp: registered_def)
  have "inj_on (\<lambda>a. bc_mhi_dev (cntrl_of st' a)) (set (bs_list st'))" using listed_dev_inj [OF wf'] by (rule inj_onI)
  then have "distinct (bs_bus st')" using bus_wfD(2,4) [OF wf'] by (simp add: distinct_map)
  then have n: "a \<notin> set (bs_list st)" "bc_mhi_dev (cntrl_of st' a) \<notin> set (bs_bus st)" using bus_wfD(2) [OF wf'] k by simp_all
  obtain bc where bc: "bs_cntrl st' a = Some bc" using listed_alloc [OF wf' a(1)] by blast
  obtain dev where dev: "bs_dev st' (bc_mhi_dev bc) = Some dev" "1 \<le> bd_refs dev"
    "mhi_bdf_to_controller d st' = (Some a, st'\<lparr>bs_dev := (bs_dev st')(bc_mhi_dev bc \<mapsto> dev\<lparr>bd_refs := bd_refs dev + 1\<rparr>)\<rparr>)"
    using mhi_bdf_to_controller_own [OF wf' a(1)] a(2) bc by auto
  show ?thesis using dev k n bc
    by (auto simp: remove_controller_def mhi_unregister_mhi_controller_def put_device_def Let_def remove1_append bus_kmem_def)
qed

text \<open>
  Minor numbers are never given back: once all of them belong to other places on the PCI bus, a device at a new place is
  refused from then on, even when no controller is registered any more.
\<close>
theorem minors_exhausted:
  assumes "bus_steps bus_start st" and "bus_steps st st'"
    and full: "\<forall>m \<in> set (bs_minors st). mm_id m \<noteq> zero_bdf \<and> mm_id m \<noteq> d" and d: "d \<noteq> zero_bdf"
  shows "isl (fst (probe_controller env vendor d st'))"
proof -
  have wf: "bus_wf st" by (rule bus_steps_wf [OF assms(1) bus_start_wf])
  have wf': "bus_wf st'" by (rule bus_steps_wf [OF assms(2) wf])
  have ids: "map mm_id (bs_minors st') = map mm_id (bs_minors st)"
    using bus_steps_grow [OF assms(2) wf] full by (auto simp: minors_grow_def intro!: nth_equalityI)
  then have "mm_id ` set (bs_minors st') = mm_id ` set (bs_minors st)" by (metis list.set_map)
  then have out: "d \<notin> mm_id ` set (bs_minors st')" "zero_bdf \<notin> mm_id ` set (bs_minors st')" using full by auto
  then have none: "claim_minor d a (bs_minors st') = None" for a unfolding claim_minor_full by (metis imageI)
  have "bc_id (cntrl_of st' b) \<noteq> d" if "b \<in> set (bs_list st')" for b
    using bus_wfD(3) [OF wf' that] out(1) by (auto simp: listed_ok_def image_iff) (metis nth_mem)
  then have "mhi_bdf_to_controller d st' = (None, st')" using mhi_bdf_to_controller_found [OF wf', of d] by (cases "mhi_bdf_to_controller d st'") (auto split: option.splits)
  then show ?thesis using none
    by (auto simp: probe_controller_def mhi_register_controller_def mhi_alloc_controller_def of_register_mhi_controller_def pci_controller_def Let_def split: option.splits)
qed

end
