(* ===== verification/MHI_Driver.thy ===== *)
theory MHI_Driver
  imports MHI_Bus MHI_DTR
begin

text \<open>
  Client drivers and the module (\<^verbatim>\<open>pcie_mhi/src/core/mhi_init.c\<close>, with the driver structures of \<^verbatim>\<open>mhi_dtr.c\<close>, \<^verbatim>\<open>mhi_uci.c\<close> and
  \<^verbatim>\<open>mhi_netdev_quectel.c\<close>): matching the devices of the channels to drivers, binding a driver, preparing a controller
  before and after power up, and loading and unloading the module.

  The lemmas show that each configured channel has exactly one driver, that binding leaves the wake votes of the device as
  they were and fails exactly when a callback is missing or a step fails, that preparing either holds what unpreparing
  gives back or nothing, and which parts are registered after loading and unloading.
\<close>

subsection \<open>Matching\<close>

text \<open>A driver; the booleans say whether the callback is set. The table of names ends with an empty name.\<close>

record mhi_driver =
  dr_id_table :: "string list"
  dr_probe :: bool
  dr_remove :: bool
  dr_ul_xfer_cb :: bool
  dr_dl_xfer_cb :: bool
  dr_status_cb :: bool

definition mhi_match :: "mhi_device_type \<Rightarrow> string \<Rightarrow> mhi_driver \<Rightarrow> string option" where
  "mhi_match dev_type name drv =
     (if dev_type = MHI_CONTROLLER_TYPE then None else find (\<lambda>id. name = id) (takeWhile (\<lambda>id. id \<noteq> []) (dr_id_table drv)))"

definition mhi_dtr_driver :: mhi_driver where
  "mhi_dtr_driver = \<lparr>dr_id_table = [''IP_CTRL'', ''''], dr_probe = True, dr_remove = True, dr_ul_xfer_cb = True, dr_dl_xfer_cb = True,
     dr_status_cb = False\<rparr>"

definition mhi_netdev_driver :: mhi_driver where
  "mhi_netdev_driver = \<lparr>dr_id_table = [''IP_HW0'', ''IP_SW0'', ''''], dr_probe = True, dr_remove = True, dr_ul_xfer_cb = True,
     dr_dl_xfer_cb = True, dr_status_cb = True\<rparr>"

definition mhi_uci_driver :: mhi_driver where
  "mhi_uci_driver = \<lparr>dr_id_table = map fst mhi_uci_match_table @ [''''], dr_probe = True, dr_remove = True, dr_ul_xfer_cb = True,
     dr_dl_xfer_cb = True, dr_status_cb = False\<rparr>"

definition mhi_drivers :: "mhi_driver list" where "mhi_drivers = [mhi_dtr_driver, mhi_netdev_driver, mhi_uci_driver]"

text \<open>\<open>reg\<close> is the result of \<^verbatim>\<open>driver_register\<close>.\<close>

definition mhi_driver_register :: "unit res \<Rightarrow> mhi_driver \<Rightarrow> unit res" where
  "mhi_driver_register reg drv = (if \<not> dr_probe drv \<or> \<not> dr_remove drv then Inl EINVAL else reg)"

subsection \<open>Binding a driver\<close>

text \<open>
  A device with the callbacks binding gives it: those of its two channels and the one for the status. \<open>client\<close> is
  the \<^verbatim>\<open>probe\<close> function of the driver. \<open>None\<close> as a result is that of opening the channels.
\<close>

record bound_dev =
  bo_dev :: mhi_device
  bo_ul_cb :: bool
  bo_dl_cb :: bool
  bo_status_cb :: bool

record probe_env =
  be_wake :: env
  be_ul :: prep_env
  be_dl :: prep_env
  be_wait :: env

text \<open>The two checks: what the driver must have for the channel; \<open>None\<close> when the binding is refused.\<close>

definition bind_ul :: "mhi_driver \<Rightarrow> mhi_controller \<Rightarrow> bound_dev \<Rightarrow> (bound_dev \<times> bool) option" where
  "bind_ul drv c b =
     (case ul_chan (bo_dev b) of
        None \<Rightarrow> Some (b, False)
      | Some i \<Rightarrow>
          if lpm_notify (chan_at c i) \<and> \<not> dr_status_cb drv then None
          else if \<not> offload_ch (chan_at c i) \<and> \<not> dr_ul_xfer_cb drv then None
          else Some (b\<lparr>bo_ul_cb := dr_ul_xfer_cb drv, bo_status_cb := dr_status_cb drv\<rparr>, auto_start (chan_at c i)))"

definition bind_dl :: "mhi_driver \<Rightarrow> mhi_controller \<Rightarrow> bool \<Rightarrow> bound_dev \<Rightarrow> bound_dev \<times> bool option" where
  "bind_dl drv c auto b =
     (case dl_chan (bo_dev b) of
        None \<Rightarrow> (b, Some auto)
      | Some i \<Rightarrow>
          if lpm_notify (chan_at c i) \<and> \<not> dr_status_cb drv then (b, None)
          else if \<not> offload_ch (chan_at c i) \<and> \<not> dr_dl_xfer_cb drv then (b, None)
          else if cl_manage (mhi_events c ! unat (ch_er_index (chan_at c i))) \<and> \<not> dr_status_cb drv then (b, None)
          else (b\<lparr>bo_dl_cb := dr_dl_xfer_cb drv, bo_status_cb := dr_status_cb drv\<rparr>, Some (auto \<or> auto_start (chan_at c i))))"

definition exit_probe :: "unit res \<Rightarrow> bound_dev \<Rightarrow> mhi_controller \<Rightarrow> unit res \<times> bound_dev \<times> mhi_controller" where
  "exit_probe ret b c = (let (dev, c') = mhi_device_put (bo_dev b) c in (ret, b\<lparr>bo_dev := dev\<rparr>, c'))"

definition mhi_driver_probe ::
  "probe_env \<Rightarrow> (mhi_controller \<Rightarrow> unit res \<times> mhi_controller) \<Rightarrow> mhi_driver \<Rightarrow> bound_dev \<Rightarrow> mhi_controller \<Rightarrow>
   (unit res \<times> bound_dev \<times> mhi_controller) option" where
  "mhi_driver_probe env client drv b c =
     (case mhi_device_get_sync (be_wake env) (bo_dev b) c of
        (Inl e, dev, c1) \<Rightarrow> Some (Inl e, b\<lparr>bo_dev := dev\<rparr>, c1)
      | (Inr _, dev, c1) \<Rightarrow>
          (let b1 = b\<lparr>bo_dev := dev\<rparr>
           in case bind_ul drv c1 b1 of
                None \<Rightarrow> Some (exit_probe (Inl EINVAL) b1 c1)
              | Some (b2, auto1) \<Rightarrow>
                  (case bind_dl drv c1 auto1 b2 of
                     (b3, None) \<Rightarrow> Some (exit_probe (Inl EINVAL) b3 c1)
                   | (b3, Some auto2) \<Rightarrow>
                       (let (ret, c2) = client c1
                        in if ret = Inr () \<and> auto2
                           then (case mhi_prepare_for_transfer (be_ul env) (be_dl env) (be_wait env) (bo_dev b3) c2 of
                                   None \<Rightarrow> None | Some (_, c3) \<Rightarrow> Some (exit_probe ret b3 c3))
                           else Some (exit_probe ret b3 c2)))))"

text \<open>
  The device of a channel is destroyed when its parent is (\<^verbatim>\<open>mhi_destroy_device\<close>): a device of another bus and a
  controller are left alone. Telling the driver of a device about an event (\<^verbatim>\<open>mhi_notify\<close>) needs a bound driver with the callback.
\<close>

definition mhi_destroy_device :: "bool \<Rightarrow> mhi_device_type \<Rightarrow> bool" where
  "mhi_destroy_device on_mhi_bus dev_type \<longleftrightarrow> on_mhi_bus \<and> dev_type \<noteq> MHI_CONTROLLER_TYPE"

definition mhi_notify :: "mhi_driver option \<Rightarrow> MHI_CB \<Rightarrow> MHI_CB list" where
  "mhi_notify drv reason = (case drv of None \<Rightarrow> [] | Some d \<Rightarrow> if dr_status_cb d then [reason] else [])"

subsection \<open>Preparing for power up\<close>

record prepare_env =
  xe_ctxt :: bool
  xe_seg :: "(u64 \<times> u64) option"
  xe_irq_threaded :: "u32 \<Rightarrow> errno option"
  xe_irq :: "u32 \<Rightarrow> errno option"
  xe_rddm :: table_alloc

text \<open>\<^verbatim>\<open>memset_io\<close> of the receive vector registers of the boot interface.\<close>

definition clear_rxvec :: "u32 \<Rightarrow> mhi_controller \<Rightarrow> mhi_controller" where
  "clear_rxvec bhie_off c =
     (let lo = regs c + ucast bhie_off + ucast BHIE_RXVECADDR_LOW_OFFS; len = ucast (BHIE_RXVECSTATUS_OFFS - BHIE_RXVECADDR_LOW_OFFS + 4)
      in c\<lparr>mmio := (\<lambda>a. if a - lo < len then 0 else mmio c a)\<rparr>)"

definition free_rddm :: "boot_sys \<Rightarrow> boot_sys" where
  "free_rddm st = (case bt_rddm_image st of None \<Rightarrow> st | Some img \<Rightarrow> (mhi_free_bhie_table img st)\<lparr>bt_rddm_image := None\<rparr>)"

definition free_fbc :: "boot_sys \<Rightarrow> boot_sys" where
  "free_fbc st = (case bt_fbc_image st of None \<Rightarrow> st | Some img \<Rightarrow> (mhi_free_bhie_table img st)\<lparr>bt_fbc_image := None\<rparr>)"

definition bt_upd :: "(mhi_controller \<Rightarrow> mhi_controller) \<Rightarrow> boot_sys \<Rightarrow> boot_sys" where
  "bt_upd f st = st\<lparr>bt_ctl := f (bt_ctl st)\<rparr>"

text \<open>\<open>rddm_size\<close>: the size of the memory dump the host should provide for, 0 for none. A failed allocation of its table is ignored.\<close>

definition mhi_prepare_for_power_up :: "prepare_env \<Rightarrow> u64 \<Rightarrow> boot_sys \<Rightarrow> (unit res \<times> boot_sys) option" where
  "mhi_prepare_for_power_up env rddm_size st =
     (case mhi_init_dev_ctxt (xe_ctxt env) (xe_seg env) (bt_ctl st) of
        (Inl e, c1) \<Rightarrow> Some (Inl e, st\<lparr>bt_ctl := c1\<rparr>)
      | (Inr _, c1) \<Rightarrow>
          (case mhi_init_irq_setup (xe_irq_threaded env) (xe_irq env) c1 of
             (Inl e, c2) \<Rightarrow> Some (Inl e, st\<lparr>bt_ctl := mhi_deinit_dev_ctxt c2\<rparr>)
           | (Inr _, c2) \<Rightarrow>
               (let st1 = st\<lparr>bt_ctl := c2\<rparr>
                in if rddm_size = 0 then Some (Inr (), bt_upd (\<lambda>c. c\<lparr>pre_init := True\<rparr>) st1)
                   else (case mhi_alloc_bhie_table (xe_rddm env) rddm_size st1 of
                           None \<Rightarrow> None
                         | Some (t, st2) \<Rightarrow>
                             (let st3 = (case t of Inl _ \<Rightarrow> st2 | Inr img \<Rightarrow> st2\<lparr>bt_rddm_image := Some img\<rparr>)
                              in case mhi_read_reg (bt_ctl st3) (regs (bt_ctl st3)) BHIEOFF of
                                   Inl e \<Rightarrow> Some (Inl e, bt_upd (\<lambda>c. mhi_deinit_dev_ctxt (mhi_deinit_free_irq c)) (free_rddm st3))
                                 | Inr off \<Rightarrow> Some (Inr (), bt_upd (\<lambda>c. (clear_rxvec off c)\<lparr>pre_init := True\<rparr>) st3))))))"

definition mhi_unprepare_after_power_down :: "boot_sys \<Rightarrow> boot_sys" where
  "mhi_unprepare_after_power_down st =
     bt_upd (\<lambda>c. (mhi_deinit_dev_ctxt (mhi_deinit_free_irq c))\<lparr>pre_init := False\<rparr>) (free_rddm (free_fbc st))"

subsection \<open>Loading and unloading\<close>

text \<open>
  What is registered: the directory of \<^verbatim>\<open>debugfs\<close>, the bus, the drivers, and the number and class of the controllers' device
  files. The environment says what the registrations return.
\<close>

record module_sys =
  mo_dentry :: bool
  mo_bus :: bool
  mo_dtr :: bool
  mo_netdev :: bool
  mo_uci :: mhi_uci_drv
  mo_cntrl_chrdev :: bool
  mo_cntrl_class :: bool
  mo_pci :: bool

record module_env =
  oe_bus_register :: "unit res"
  oe_dtr :: "unit res"
  oe_netdev :: "unit res"
  oe_uci_chrdev :: "nat res"
  oe_uci_class :: bool
  oe_uci_driver :: "unit res"
  oe_cntrl_chrdev :: "nat res"
  oe_cntrl_class :: bool
  oe_pci :: "unit res"

definition mhi_dtr_init :: "unit res \<Rightarrow> module_sys \<Rightarrow> unit res \<times> module_sys" where
  "mhi_dtr_init reg m = (let r = mhi_driver_register reg mhi_dtr_driver in (r, m\<lparr>mo_dtr := (r = Inr ())\<rparr>))"

definition mhi_device_netdev_init :: "unit res \<Rightarrow> module_sys \<Rightarrow> unit res \<times> module_sys" where
  "mhi_device_netdev_init reg m = (let r = mhi_driver_register reg mhi_netdev_driver in (r, m\<lparr>mo_netdev := (r = Inr ())\<rparr>))"

definition mhi_cntrl_init :: "nat res \<Rightarrow> bool \<Rightarrow> module_sys \<Rightarrow> unit res \<times> module_sys" where
  "mhi_cntrl_init chrdev cls m =
     (case chrdev of
        Inl e \<Rightarrow> (Inl e, m)
      | Inr major \<Rightarrow> if \<not> cls then (Inl ENODEV, m\<lparr>mo_cntrl_chrdev := False\<rparr>)
                    else (Inr (), m\<lparr>mo_cntrl_chrdev := True, mo_cntrl_class := True\<rparr>))"

definition mhi_cntrl_exit :: "module_sys \<Rightarrow> module_sys" where
  "mhi_cntrl_exit m = m\<lparr>mo_cntrl_class := False, mo_cntrl_chrdev := False\<rparr>"

definition mhi_controller_qcom_init :: "unit res \<Rightarrow> module_sys \<Rightarrow> unit res \<times> module_sys" where
  "mhi_controller_qcom_init reg m = (reg, m\<lparr>mo_pci := (reg = Inr ())\<rparr>)"

definition mhi_init :: "module_env \<Rightarrow> module_sys \<Rightarrow> unit res \<times> module_sys" where
  "mhi_init env m =
     (let m0 = m\<lparr>mo_dentry := True\<rparr>
      in case oe_bus_register env of
           Inl e \<Rightarrow> (Inl e, m0)
         | Inr _ \<Rightarrow>
             (case mhi_dtr_init (oe_dtr env) (m0\<lparr>mo_bus := True\<rparr>) of
                (Inl e, m1) \<Rightarrow> (Inl e, m1\<lparr>mo_bus := False\<rparr>)
              | (Inr _, m1) \<Rightarrow>
                  (let m2 = snd (mhi_device_netdev_init (oe_netdev env) m1);
                       m3 = m2\<lparr>mo_uci := snd (mhi_device_uci_init (oe_uci_chrdev env) (oe_uci_class env)
                                (mhi_driver_register (oe_uci_driver env) mhi_uci_driver) (mo_uci m2))\<rparr>;
                       m4 = snd (mhi_cntrl_init (oe_cntrl_chrdev env) (oe_cntrl_class env) m3)
                   in mhi_controller_qcom_init (oe_pci env) m4)))"

definition mhi_controller_qcom_exit :: "module_sys \<Rightarrow> module_sys" where "mhi_controller_qcom_exit m = m\<lparr>mo_pci := False\<rparr>"

definition mhi_device_netdev_exit :: "module_sys \<Rightarrow> module_sys" where "mhi_device_netdev_exit m = m\<lparr>mo_netdev := False\<rparr>"

definition mhi_dtr_exit :: "module_sys \<Rightarrow> module_sys" where "mhi_dtr_exit m = m\<lparr>mo_dtr := False\<rparr>"

definition mhi_exit :: "module_sys \<Rightarrow> module_sys" where
  "mhi_exit m =
     (let m1 = mhi_cntrl_exit (mhi_controller_qcom_exit m); m2 = m1\<lparr>mo_uci := mhi_device_uci_exit (mo_uci m1)\<rparr>
      in (mhi_dtr_exit (mhi_device_netdev_exit m2))\<lparr>mo_bus := False, mo_dentry := False\<rparr>)"

subsection \<open>The drivers of the configured channels\<close>

text \<open>
  What a driver must have for the channels of a device: a callback for each channel that is not offloaded, and a status
  callback when a channel asks for low power notifications or the client manages its event ring.
\<close>

definition chan_needs_status :: "mhi_controller \<Rightarrow> bool \<Rightarrow> nat \<Rightarrow> bool" where
  "chan_needs_status c dl i \<longleftrightarrow> lpm_notify (chan_at c i) \<or> dl \<and> cl_manage (mhi_events c ! unat (ch_er_index (chan_at c i)))"

definition driver_fits :: "mhi_driver \<Rightarrow> mhi_device \<Rightarrow> mhi_controller \<Rightarrow> bool" where
  "driver_fits drv dev c \<longleftrightarrow>
     (\<forall>i. ul_chan dev = Some i \<longrightarrow> (chan_needs_status c False i \<longrightarrow> dr_status_cb drv) \<and> (offload_ch (chan_at c i) \<or> dr_ul_xfer_cb drv)) \<and>
     (\<forall>i. dl_chan dev = Some i \<longrightarrow> (chan_needs_status c True i \<longrightarrow> dr_status_cb drv) \<and> (offload_ch (chan_at c i) \<or> dr_dl_xfer_cb drv))"

text \<open>One configured channel: at most one driver matches it, and that one has all the callbacks it needs.\<close>

definition chan_driver_ok :: "mhi_event list \<Rightarrow> mhi_chan \<Rightarrow> bool" where
  "chan_driver_ok evs ch \<longleftrightarrow>
     (let drvs = filter (\<lambda>drv. mhi_match MHI_XFER_TYPE (chan_name ch) drv \<noteq> None) mhi_drivers
      in length drvs = (if chan_name ch = ''EFS'' then 0 else 1) \<and>
         list_all (\<lambda>drv. dr_ul_xfer_cb drv \<and> dr_dl_xfer_cb drv \<and>
           (lpm_notify ch \<or> ch_dir ch = DMA_FROM_DEVICE \<and> cl_manage (evs ! unat (ch_er_index ch)) \<longrightarrow> dr_status_cb drv)) drvs)"

definition parsed_drivers_ok :: "bool \<Rightarrow> bool \<Rightarrow> bool" where
  "parsed_drivers_ok mbim use_dma \<longleftrightarrow>
     (case ch_cfg_loop mbim use_dma chan_cfg 0 (replicate MHI_MAX_CHANNELS zero_chan) of
        Inl _ \<Rightarrow> False
      | Inr chs \<Rightarrow> list_all (chan_driver_ok (map (ev_cfg_entry chs 0) [0..<MAX_EVT_RING_IDX])) (filter configured chs))"

lemma parsed_drivers_ok_cases:
  "parsed_drivers_ok False False" "parsed_drivers_ok False True" "parsed_drivers_ok True False" "parsed_drivers_ok True True"
  by code_simp+

text \<open>
  The built-in configuration and the three drivers fit together: every channel that is configured, but for the two of
  \<^verbatim>\<open>EFS\<close>, is matched by exactly one driver, and no driver lacks a callback that binding it to the channel asks for.
\<close>
theorem configured_channels_bound:
  "\<exists>c'. of_parse_dt True True mbim use_dma c = (Inr (), c') \<and> list_all (chan_driver_ok (mhi_events c')) (filter configured (mhi_chans c'))"
proof -
  have "parsed_drivers_ok mbim use_dma" using parsed_drivers_ok_cases by (cases mbim; cases use_dma) simp_all
  then obtain chs where "ch_cfg_loop mbim use_dma chan_cfg 0 (replicate MHI_MAX_CHANNELS zero_chan) = Inr chs"
    and "list_all (chan_driver_ok (map (ev_cfg_entry chs 0) [0..<MAX_EVT_RING_IDX])) (filter configured chs)"
    by (auto simp: parsed_drivers_ok_def split: sum.splits)
  then show ?thesis by (simp add: of_parse_dt_def of_parse_ch_cfg_def of_parse_ev_cfg_def Let_def)
qed

subsection \<open>Binding\<close>

lemma bind_fits:
  "driver_fits drv (bo_dev b) c \<longleftrightarrow>
     (case bind_ul drv c b of None \<Rightarrow> False | Some (b2, a) \<Rightarrow> snd (bind_dl drv c a b2) \<noteq> None)"
  by (auto simp: driver_fits_def chan_needs_status_def bind_ul_def bind_dl_def split: option.splits if_splits)

lemma bind_dev:
  "bind_ul drv c b = Some (b2, a) \<Longrightarrow> bo_dev b2 = bo_dev b" "bind_dl drv c a b = (b2, x) \<Longrightarrow> bo_dev b2 = bo_dev b"
  by (auto simp: bind_ul_def bind_dl_def split: option.splits if_splits)

lemma exit_probe_dev: "exit_probe r b c = (r', b', c') \<Longrightarrow>
   r' = r \<and> bo_dev b' = (bo_dev b)\<lparr>md_dev_wake := md_dev_wake (bo_dev b) - 1\<rparr> \<and> c' = mhi_deassert_dev_wake c"
  by (auto simp: exit_probe_def mhi_device_put_def)

text \<open>
  Binding a driver takes the device out of its low power state for the time of the call only: the votes of the device are
  as before. It is refused with \<^verbatim>\<open>EINVAL\<close>, without a call of the driver, when a callback is missing, and otherwise has the
  result of the driver's own function.
\<close>
theorem mhi_driver_probe_result:
  assumes run: "mhi_driver_probe env client drv b c = Some (r, b', c')"
  shows "bo_dev b' = bo_dev b \<and>
    (case mhi_device_get_sync (be_wake env) (bo_dev b) c of
       (Inl e, _) \<Rightarrow> r = Inl e
     | (Inr _, _, c1) \<Rightarrow> if driver_fits drv (bo_dev b) c1 then r = fst (client c1) else r = Inl EINVAL \<and> c' = mhi_deassert_dev_wake c1)"
proof -
  obtain g dev c1 where g: "mhi_device_get_sync (be_wake env) (bo_dev b) c = (g, dev, c1)" by (metis prod_cases3)
  show ?thesis
  proof (cases g)
    case (Inl e)
    then show ?thesis using run g by (auto simp: mhi_driver_probe_def mhi_device_get_sync_def split: prod.splits sum.splits)
  next
    case (Inr u)
    let ?b1 = "b\<lparr>bo_dev := dev\<rparr>"
    have dev: "dev = (bo_dev b)\<lparr>md_dev_wake := md_dev_wake (bo_dev b) + 1\<rparr>"
      using g Inr by (auto simp: mhi_device_get_sync_def split: prod.splits sum.splits)
    have fits: "driver_fits drv (bo_dev b) c1 \<longleftrightarrow> driver_fits drv (bo_dev ?b1) c1" using dev by (simp add: driver_fits_def)
    have put: "bo_dev b3 = dev \<Longrightarrow> exit_probe r3 b3 c3 = (r, b', c') \<Longrightarrow> r = r3 \<and> bo_dev b' = bo_dev b \<and> c' = mhi_deassert_dev_wake c3" for r3 b3 c3
      using exit_probe_dev [of r3 b3 c3 r b' c'] dev by simp
    show ?thesis
    proof (cases "bind_ul drv c1 ?b1")
      case None
      then have "exit_probe (Inl EINVAL) ?b1 c1 = (r, b', c')" using run g Inr by (simp add: mhi_driver_probe_def)
      from put [OF _ this] show ?thesis using None g Inr fits bind_fits [of drv ?b1 c1] by simp
    next
      case (Some p)
      then obtain b2 a1 where ul: "bind_ul drv c1 ?b1 = Some (b2, a1)" by (cases p) auto
      obtain b3 x where dl: "bind_dl drv c1 a1 b2 = (b3, x)" by (cases "bind_dl drv c1 a1 b2")
      have b3: "bo_dev b3 = dev" using bind_dev(1) [OF ul] bind_dev(2) [OF dl] by simp
      obtain ret c2 where cl: "client c1 = (ret, c2)" by (cases "client c1")
      have f: "driver_fits drv (bo_dev b) c1 \<longleftrightarrow> x \<noteq> None" using fits bind_fits [of drv ?b1 c1] ul dl by simp
      show ?thesis
      proof (cases x)
        case None
        then have "exit_probe (Inl EINVAL) b3 c1 = (r, b', c')" using run g Inr ul dl by (simp add: mhi_driver_probe_def)
        from put [OF b3 this] show ?thesis using None g Inr f by simp
      next
        case x: (Some a2)
        obtain c3 where "exit_probe ret b3 c3 = (r, b', c')"
          using run g Inr ul dl cl x by (auto simp: mhi_driver_probe_def split: if_splits option.splits)
        from put [OF b3 this] show ?thesis using g Inr cl f x by simp
      qed
    qed
  qed
qed

subsection \<open>Preparing\<close>

lemma alloc_segments_rddm: "alloc_segments al seg n is bufs st = (ok, bufs', st') \<Longrightarrow> bt_rddm_image st' = bt_rddm_image st \<and> bt_ctl st' = bt_ctl st"
  by (induction "is" arbitrary: bufs st) (auto simp: Let_def dma_alloc_def split: option.splits)

lemma free_bufs_frame [simp]: "bt_rddm_image (free_bufs bufs st) = bt_rddm_image st"
  by (induction bufs arbitrary: st) (simp_all add: free_bufs_def mhi_free_coherent_def)

lemma mhi_alloc_bhie_table_rddm:
  "mhi_alloc_bhie_table al sz st = Some (r, st') \<Longrightarrow> bt_rddm_image st' = bt_rddm_image st \<and> bt_ctl st' = bt_ctl st"
  by (auto simp: mhi_alloc_bhie_table_def Let_def kmem_add_def kmem_sub_def split: if_splits prod.splits bool.splits dest: alloc_segments_rddm)

lemma mhi_free_bhie_table_restores:
  assumes "unat (ii_entries img) = length (ii_mhi_buf img)" and "bt_kmem s = k + 2"
    and "\<forall>a. a \<notin> mb_dma_addr ` set (ii_mhi_buf img) \<longrightarrow> bt_dma s a = bt_dma st a"
    and "\<forall>b \<in> set (ii_mhi_buf img). bt_dma st (mb_dma_addr b) = None"
  shows "bt_dma (mhi_free_bhie_table img s) = bt_dma st \<and> bt_kmem (mhi_free_bhie_table img s) = k"
proof -
  have "bt_dma s |` (- mb_dma_addr ` set (ii_mhi_buf img)) = bt_dma st"
    by (rule restrict_unchanged [OF assms(3)]) (use assms(4) in auto)
  then show ?thesis using assms(1,2) by (simp add: mhi_free_bhie_table_def)
qed

lemma ctxt_released [simp]: "\<not> has_ctxt (mhi_deinit_dev_ctxt c)"
  by (simp add: mhi_deinit_dev_ctxt_def Let_def)

text \<open>What is held apart from the controller's own structures: \<open>st''\<close> compared with a state \<open>st\<close> without images.\<close>

definition no_image_left :: "boot_sys \<Rightarrow> boot_sys \<Rightarrow> bool" where
  "no_image_left st st'' \<longleftrightarrow> bt_dma st'' = bt_dma st \<and> bt_rddm_image st'' = None \<and> bt_fbc_image st'' = None \<and>
     bt_kmem st'' \<in> {bt_kmem st, bt_kmem st + 1} \<and> \<not> has_ctxt (bt_ctl st'')"

lemma free_rddm_table:
  assumes al: "mhi_alloc_bhie_table al sz st1 = Some (t, st2)"
    and st1: "bt_dma st1 = bt_dma st" "bt_kmem st1 = bt_kmem st" "bt_rddm_image st1 = None" "bt_fbc_image st1 = None"
    and fresh: "\<forall>i b d. ta_segment al i = Some (b, d) \<longrightarrow> bt_dma st d = None"
    and st3: "st3 = (case t of Inl _ \<Rightarrow> st2 | Inr img \<Rightarrow> st2\<lparr>bt_rddm_image := Some img\<rparr>)"
    and ctxt: "\<And>c. \<not> has_ctxt (f c)"
  shows "no_image_left st (bt_upd f (free_rddm (bt_upd g st3)))"
proof -
  note m = mhi_alloc_bhie_table_memory [OF al] and i = mhi_alloc_bhie_table_rddm [OF al] mhi_alloc_bhie_table_image [OF al]
  show ?thesis
  proof (cases t)
    case (Inl e)
    then show ?thesis using m i st1 st3 fresh ctxt by (auto simp: no_image_left_def free_rddm_def bt_upd_def)
  next
    case (Inr img)
    have "bt_dma (mhi_free_bhie_table img (bt_upd g st3)) = bt_dma st \<and> bt_kmem (mhi_free_bhie_table img (bt_upd g st3)) = bt_kmem st"
      by (rule mhi_free_bhie_table_restores) (use m st1 st3 fresh Inr in \<open>auto simp: bt_upd_def\<close>)
    then show ?thesis using i st1 st3 Inr ctxt
      by (simp add: no_image_left_def free_rddm_def bt_upd_def mhi_free_bhie_table_def kmem_sub_def)
  qed
qed


subsection \<open>Loading\<close>

definition nothing_registered :: "module_sys \<Rightarrow> bool" where
  "nothing_registered m \<longleftrightarrow> \<not> mo_dentry m \<and> \<not> mo_bus m \<and> \<not> mo_dtr m \<and> \<not> mo_netdev m \<and> \<not> mo_cntrl_chrdev m \<and> \<not> mo_cntrl_class m \<and> \<not> mo_pci m \<and>
     \<not> uv_chrdev (mo_uci m) \<and> \<not> uv_class (mo_uci m) \<and> \<not> uv_driver (mo_uci m)"

text \<open>
  Loading the module fails exactly when the bus, the driver of the control lines or the PCI driver cannot be registered;
  failures of the network, the character devices and the controllers' device files go unnoticed. Unloading takes everything
  back. A load that fails at the last step leaves the bus and the other drivers registered, and every failed load leaves the
  directory of \<^verbatim>\<open>debugfs\<close>.
\<close>
theorem mhi_init_result:
  assumes "nothing_registered m" and "mhi_init env m = (r, m')"
  shows "(r = Inr () \<longleftrightarrow> oe_bus_register env = Inr () \<and> oe_dtr env = Inr () \<and> oe_pci env = Inr ()) \<and> nothing_registered (mhi_exit m') \<and>
    (r \<noteq> Inr () \<longrightarrow> mo_dentry m' \<and> \<not> mo_pci m' \<and>
      (let late = oe_bus_register env = Inr () \<and> oe_dtr env = Inr ()
       in (mo_bus m' \<longleftrightarrow> late) \<and> (mo_dtr m' \<longleftrightarrow> late) \<and> (mo_netdev m' \<longleftrightarrow> late \<and> oe_netdev env = Inr ())))"
proof -
  have u: "(x :: unit res) = Inr () \<or> (\<exists>e. x = Inl e)" for x by (cases x) auto
  show ?thesis using assms u [of "oe_bus_register env"] u [of "oe_dtr env"] u [of "oe_netdev env"] u [of "oe_pci env"]
    by (auto simp: mhi_init_def mhi_exit_def nothing_registered_def mhi_dtr_init_def mhi_device_netdev_init_def mhi_cntrl_init_def
        mhi_controller_qcom_init_def mhi_driver_register_def mhi_dtr_driver_def mhi_netdev_driver_def mhi_cntrl_exit_def
        mhi_device_uci_exit_def mhi_dtr_exit_def mhi_device_netdev_exit_def mhi_controller_qcom_exit_def Let_def split: sum.splits if_splits)
qed

end
