(* ===== verification/MHI_Mon.thy ===== *)
theory MHI_Mon
  imports MHI_TRE
begin

text \<open>
  The monitor of the rings (\<^verbatim>\<open>pcie_mhi/src/core/mhi_init.c\<close> and \<^verbatim>\<open>core/mhi_main.c\<close>, under \<^verbatim>\<open>ENABLE_MHI_MON\<close>): each
  open file of \<^verbatim>\<open>mhimon\<close> is a reader with a queue of events, filled when an element is submitted, received or
  completed, and read as lines of text.

  The lemmas show that a line always fits in the buffer it is printed into, that a reader gets the lines of the events it
  was given, complete and in order, however large or small its reads are, that events are counted as lost exactly when the
  queue is full or memory is short, and what starting the controller again does to an open reader.

  Readers are numbered. The time stamp, the success of allocations and of \<^verbatim>\<open>copy_to_user\<close>, and what happens while a
  reader sleeps are arguments. \<open>None\<close> as a result is a sleep that does not end, or the removal of a reader from a list it is
  not in.
\<close>

subsection \<open>State\<close>

record mon_event_text =
  me_type :: char
  me_tstamp :: u32
  me_chan :: u32
  me_wp :: u64
  me_tre :: mhi_tre
  me_data :: "u8 list"

text \<open>\<open>mr_left_pos\<close> and \<open>mr_left_size\<close>: the part of the printed line that has not been read.\<close>

record mon_reader_text =
  mr_nevents :: int
  mr_e_list :: "mon_event_text list"
  mr_printf_buf :: string
  mr_left_size :: nat
  mr_left_pos :: nat

record mon_bus =
  mn_nreaders :: int
  mn_ref :: int
  mn_r_list :: "nat list"
  mn_readers :: "nat \<rightharpoonup> mon_reader_text"
  mn_cnt_events :: u32
  mn_cnt_text_lost :: u32

text \<open>\<^verbatim>\<open>sizeof(struct mon_event_text)\<close> is 96, and a page has 4096 bytes.\<close>

definition EVENT_MAX :: int where "EVENT_MAX = 16 * 4096 div 96"
definition PRINTF_DFL :: nat where "PRINTF_DFL = 250"
definition MON_DATA_MAX :: nat where "MON_DATA_MAX = 32"

subsection \<open>Recording events\<close>

definition mon_text_event ::
  "bool \<Rightarrow> u32 \<Rightarrow> u32 \<Rightarrow> u64 \<Rightarrow> mhi_tre \<Rightarrow> u8 list \<Rightarrow> char \<Rightarrow> nat \<Rightarrow> mon_bus \<Rightarrow> mon_bus" where
  "mon_text_event alloc stamp ch wp tre bytes ev_type k m =
     (case mn_readers m k of
        None \<Rightarrow> m
      | Some rp \<Rightarrow>
          if EVENT_MAX \<le> mr_nevents rp \<or> \<not> alloc then m\<lparr>mn_cnt_text_lost := mn_cnt_text_lost m + 1\<rparr>
          else (let ep = \<lparr>me_type = ev_type, me_tstamp = stamp, me_chan = ch, me_wp = wp, me_tre = tre, me_data = take MON_DATA_MAX bytes\<rparr>
                in m\<lparr>mn_readers := (mn_readers m)(k \<mapsto> rp\<lparr>mr_nevents := mr_nevents rp + 1, mr_e_list := mr_e_list rp @ [ep]\<rparr>)\<rparr>))"

definition mon_text_submit :: "bool \<Rightarrow> u32 \<Rightarrow> u32 \<Rightarrow> u64 \<Rightarrow> mhi_tre \<Rightarrow> u8 list \<Rightarrow> nat \<Rightarrow> mon_bus \<Rightarrow> mon_bus" where
  "mon_text_submit alloc stamp ch wp tre bytes = mon_text_event alloc stamp ch wp tre bytes (CHR ''W'')"

definition mon_text_receive :: "bool \<Rightarrow> u32 \<Rightarrow> u32 \<Rightarrow> u64 \<Rightarrow> mhi_tre \<Rightarrow> u8 list \<Rightarrow> nat \<Rightarrow> mon_bus \<Rightarrow> mon_bus" where
  "mon_text_receive alloc stamp ch wp tre bytes = mon_text_event alloc stamp ch wp tre bytes (CHR ''R'')"

definition mon_text_complete :: "bool \<Rightarrow> u32 \<Rightarrow> u32 \<Rightarrow> u64 \<Rightarrow> mhi_tre \<Rightarrow> nat \<Rightarrow> mon_bus \<Rightarrow> mon_bus" where
  "mon_text_complete alloc stamp ch wp tre = mon_text_event alloc stamp ch wp tre [] (CHR ''E'')"

text \<open>The loops over all readers; \<open>alloc\<close> says for each reader whether its event can be allocated.\<close>

definition mon_bus_submit :: "(nat \<Rightarrow> bool) \<Rightarrow> u32 \<Rightarrow> u32 \<Rightarrow> u64 \<Rightarrow> mhi_tre \<Rightarrow> u8 list \<Rightarrow> mon_bus \<Rightarrow> mon_bus" where
  "mon_bus_submit alloc stamp ch wp tre bytes m =
     fold (\<lambda>k. mon_text_submit (alloc k) stamp ch wp tre bytes k) (mn_r_list m) (m\<lparr>mn_cnt_events := mn_cnt_events m + 1\<rparr>)"

definition mon_bus_receive :: "(nat \<Rightarrow> bool) \<Rightarrow> u32 \<Rightarrow> u32 \<Rightarrow> u64 \<Rightarrow> mhi_tre \<Rightarrow> u8 list \<Rightarrow> mon_bus \<Rightarrow> mon_bus" where
  "mon_bus_receive alloc stamp ch wp tre bytes m =
     fold (\<lambda>k. mon_text_receive (alloc k) stamp ch wp tre bytes k) (mn_r_list m) (m\<lparr>mn_cnt_events := mn_cnt_events m + 1\<rparr>)"

definition mon_bus_complete :: "(nat \<Rightarrow> bool) \<Rightarrow> u32 \<Rightarrow> u32 \<Rightarrow> u64 \<Rightarrow> mhi_tre \<Rightarrow> mon_bus \<Rightarrow> mon_bus" where
  "mon_bus_complete alloc stamp ch wp tre m =
     fold (\<lambda>k. mon_text_complete (alloc k) stamp ch wp tre k) (mn_r_list m) (m\<lparr>mn_cnt_events := mn_cnt_events m + 1\<rparr>)"

subsection \<open>Opening and closing\<close>

definition mon_reader_add :: "nat \<Rightarrow> mon_bus \<Rightarrow> mon_bus" where
  "mon_reader_add k m = m\<lparr>mn_nreaders := mn_nreaders m + 1, mn_r_list := mn_r_list m @ [k], mn_ref := mn_ref m + 1\<rparr>"

definition zero_reader :: mon_reader_text where
  "zero_reader = \<lparr>mr_nevents = 0, mr_e_list = [], mr_printf_buf = [], mr_left_size = 0, mr_left_pos = 0\<rparr>"

text \<open>\<open>k\<close>: the reader, a number not in use; the booleans: whether the reader, its buffer and its cache of events can be allocated.\<close>

definition mon_text_open :: "bool \<Rightarrow> bool \<Rightarrow> bool \<Rightarrow> nat \<Rightarrow> mon_bus \<Rightarrow> unit res \<times> mon_bus" where
  "mon_text_open alloc_rp alloc_buf alloc_slab k m =
     (if \<not> alloc_rp \<or> \<not> alloc_buf \<or> \<not> alloc_slab then (Inl ENOMEM, m)
      else (Inr (), mon_reader_add k (m\<lparr>mn_readers := (mn_readers m)(k \<mapsto> zero_reader)\<rparr>)))"

text \<open>Dropping the last reference would free the controller (\<^verbatim>\<open>mon_bus_drop\<close>).\<close>

definition mon_reader_del :: "nat \<Rightarrow> mon_bus \<Rightarrow> mon_bus option" where
  "mon_reader_del k m =
     (if k \<notin> set (mn_r_list m) \<or> mn_ref m \<le> 1 then None
      else Some (m\<lparr>mn_r_list := remove1 k (mn_r_list m), mn_nreaders := mn_nreaders m - 1, mn_ref := mn_ref m - 1\<rparr>))"

definition mon_text_release :: "nat \<Rightarrow> mon_bus \<Rightarrow> mon_bus option" where
  "mon_text_release k m =
     (if mn_nreaders m \<le> 0 then Some m
      else (case mon_reader_del k m of None \<Rightarrow> None | Some m1 \<Rightarrow> Some (m1\<lparr>mn_readers := (mn_readers m1)(k := None)\<rparr>)))"

text \<open>The part of \<^verbatim>\<open>mhi_init_debugfs\<close> for the monitor, called whenever the controller is powered up.\<close>

definition mon_init :: "mon_bus \<Rightarrow> mon_bus" where
  "mon_init m = m\<lparr>mn_nreaders := 0, mn_ref := 1, mn_r_list := []\<rparr>"

subsection \<open>Printing\<close>

definition digit :: "nat \<Rightarrow> char" where
  "digit n = char_of (if n < 10 then 48 + n else 87 + n)"

fun digits_from :: "nat \<Rightarrow> nat \<Rightarrow> nat \<Rightarrow> string \<Rightarrow> string" where
  "digits_from 0 b n s = s"
| "digits_from (Suc f) b n s = (if n < b then digit n # s else digits_from f b (n div b) (digit (n mod b) # s))"

text \<open>Twenty digits are enough for a 64-bit number in base 10 or 16.\<close>

definition digits :: "nat \<Rightarrow> nat \<Rightarrow> string" where "digits b n = digits_from 20 b n []"

definition zero_pad :: "nat \<Rightarrow> string \<Rightarrow> string" where "zero_pad w s = replicate (w - length s) (CHR ''0'') @ s"

definition fmt_u :: "u32 \<Rightarrow> string" where "fmt_u w = digits 10 (unat w)"
definition fmt_x :: "nat \<Rightarrow> nat \<Rightarrow> string" where "fmt_x width n = zero_pad width (digits 16 n)"

text \<open>\<^verbatim>\<open>%03d\<close> of an unsigned number: its bits are taken for a signed one.\<close>

definition fmt_03d :: "u32 \<Rightarrow> string" where
  "fmt_03d w = (if 0 \<le> sint w then zero_pad 3 (digits 10 (nat (sint w))) else CHR ''-'' # zero_pad 2 (digits 10 (nat (- sint w))))"

text \<open>
  \<^verbatim>\<open>snprintf\<close> at position \<open>cnt\<close> of a buffer of \<open>limit\<close> bytes: the count grows by the full length, the text is cut so
  that it ends with a zero byte inside the buffer.
\<close>

record mon_text_ptr =
  tp_cnt :: nat
  tp_buf :: string

definition mon_print :: "nat \<Rightarrow> string \<Rightarrow> mon_text_ptr \<Rightarrow> mon_text_ptr" where
  "mon_print limit s p = \<lparr>tp_cnt = tp_cnt p + length s, tp_buf = tp_buf p @ take (limit - 1 - tp_cnt p) s\<rparr>"

fun mon_print_data :: "nat \<Rightarrow> nat \<Rightarrow> u8 list \<Rightarrow> mon_text_ptr \<Rightarrow> mon_text_ptr" where
  "mon_print_data limit i [] p = p"
| "mon_print_data limit i (b # bs) p =
     mon_print_data limit (Suc i) bs (mon_print limit (fmt_x 2 (unat b)) (if i mod 4 = 0 then mon_print limit '' '' p else p))"

definition mon_head :: "mon_event_text \<Rightarrow> string" where
  "mon_head ep = fmt_u (me_tstamp ep) @ '' '' @ [me_type ep] @ '' '' @ fmt_03d (me_chan ep) @ '' WP:'' @ fmt_x 0 (unat (me_wp ep)) @
     '' TRE: '' @ fmt_x 0 (unat (tre_ptr (me_tre ep))) @ '' '' @ fmt_x 8 (unat (tre_dword0 (me_tre ep))) @ '' '' @ fmt_x 8 (unat (tre_dword1 (me_tre ep)))"

definition mon_print_event :: "nat \<Rightarrow> mon_event_text \<Rightarrow> mon_text_ptr" where
  "mon_print_event limit ep =
     mon_print limit ''\<newline>'' (mon_print_data limit 0 (me_data ep) (mon_print limit (mon_head ep) \<lparr>tp_cnt = 0, tp_buf = []\<rparr>))"

subsection \<open>Reading\<close>

definition mon_text_fetch :: "mon_reader_text \<Rightarrow> (mon_event_text \<times> mon_reader_text) option" where
  "mon_text_fetch rp =
     (case mr_e_list rp of [] \<Rightarrow> None | ep # eps \<Rightarrow> Some (ep, rp\<lparr>mr_e_list := eps, mr_nevents := mr_nevents rp - 1\<rparr>))"

text \<open>Each sleep: what happens to the reader meanwhile, and whether a signal ends the wait.\<close>

fun mon_text_read_wait ::
  "bool \<Rightarrow> ((mon_reader_text \<Rightarrow> mon_reader_text) \<times> bool) list \<Rightarrow> mon_reader_text \<Rightarrow> (mon_event_text res \<times> mon_reader_text) option" where
  "mon_text_read_wait nonblock sleeps rp =
     (case mon_text_fetch rp of
        Some (ep, rp') \<Rightarrow> Some (Inr ep, rp')
      | None \<Rightarrow>
          if nonblock then Some (Inl EAGAIN, rp)
          else (case sleeps of
                  [] \<Rightarrow> None
                | (f, sig) # ss \<Rightarrow> if sig then Some (Inl EINTR, f rp) else mon_text_read_wait nonblock ss (f rp)))"

text \<open>The bytes that user space gets, or the error. \<open>copied\<close>: whether \<^verbatim>\<open>copy_to_user\<close> succeeds.\<close>

definition mon_text_read_u ::
  "bool \<Rightarrow> bool \<Rightarrow> ((mon_reader_text \<Rightarrow> mon_reader_text) \<times> bool) list \<Rightarrow> nat \<Rightarrow> mon_reader_text \<Rightarrow> (string res \<times> mon_reader_text) option" where
  "mon_text_read_u copied nonblock sleeps nbytes rp =
     (if mr_left_size rp \<noteq> 0
      then (let cnt = min (mr_left_size rp) nbytes
            in if \<not> copied then Some (Inl EFAULT, rp)
               else Some (Inr (take cnt (drop (mr_left_pos rp) (mr_printf_buf rp))),
                          rp\<lparr>mr_left_pos := mr_left_pos rp + cnt, mr_left_size := mr_left_size rp - cnt\<rparr>))
      else (case mon_text_read_wait nonblock sleeps rp of
              None \<Rightarrow> None
            | Some (Inl e, rp1) \<Rightarrow> Some (Inl e, rp1)
            | Some (Inr ep, rp1) \<Rightarrow>
                (let p = mon_print_event PRINTF_DFL ep;
                     rp2 = rp1\<lparr>mr_printf_buf := tp_buf p\<rparr>;
                     rp3 = if nbytes < tp_cnt p then rp2\<lparr>mr_left_pos := nbytes, mr_left_size := tp_cnt p - nbytes\<rparr> else rp2;
                     cnt = min (tp_cnt p) nbytes
                 in Some (if copied then Inr (take cnt (mr_printf_buf rp3)) else Inl EFAULT, rp3))))"

subsection \<open>A line fits in the buffer\<close>

lemma digits_from_length: "n < b ^ Suc k \<Longrightarrow> length (digits_from f b n s) \<le> Suc k + length s"
proof (induction k arbitrary: f n s)
  case 0
  then show ?case by (cases f) simp_all
next
  case (Suc k)
  show ?case
  proof (cases f)
    case (Suc f')
    have "n div b < b ^ Suc k" using Suc.prems by (simp add: less_mult_imp_div_less mult.commute)
    from Suc.IH [OF this] show ?thesis using Suc by (simp add: le_SucI) (metis add_Suc_right length_Cons)
  qed simp
qed

lemma digits_length: "n < b ^ Suc k \<Longrightarrow> length (digits b n) \<le> Suc k"
  using digits_from_length [of n b k 20 "[]"] by (simp add: digits_def)

lemma zero_pad_length: "length (zero_pad w s) = max w (length s)"
  by (simp add: zero_pad_def)

lemma unat_lt: "unat x < 2 ^ LENGTH('a)" for x :: "'a::len word"
  by (rule unsigned_less)

lemma unat_below: "unat (x :: u64) < 2 ^ 64" "unat (y :: u32) < 2 ^ 32" "unat (z :: u8) < 2 ^ 8"
  using unat_lt [of x] unat_lt [of y] unat_lt [of z] by simp_all

lemma fmt_u_length: "length (fmt_u w) \<le> 10"
  using digits_length [of "unat w" 10 9] unat_below(2) [of w] by (simp add: fmt_u_def)

lemma fmt_x_length:
  "length (fmt_x w (unat (x :: u64))) \<le> max w 16" "length (fmt_x w (unat (y :: u32))) \<le> max w 8" "length (fmt_x w (unat (z :: u8))) \<le> max w 2"
  using digits_length [of "unat x" 16 15] digits_length [of "unat y" 16 7] digits_length [of "unat z" 16 1] unat_below(1) [of x] unat_below(2) [of y] unat_below(3) [of z]
  by (simp_all add: fmt_x_def zero_pad_length max_def)

lemma fmt_03d_length: "length (fmt_03d w) \<le> 11"
proof -
  have "sint w < 2 ^ 31" "- (2 ^ 31) \<le> sint w" using sint_lt [of w] sint_ge [of w] by simp_all
  then have "nat (sint w) < 10 ^ Suc 9" "nat (- sint w) < 10 ^ Suc 9" by simp_all
  from digits_length [OF this(1)] digits_length [OF this(2)] show ?thesis by (simp add: fmt_03d_def zero_pad_length)
qed

text \<open>The line of an event, as text of any length.\<close>

fun mon_data_text :: "nat \<Rightarrow> u8 list \<Rightarrow> string" where
  "mon_data_text i [] = []"
| "mon_data_text i (b # bs) = (if i mod 4 = 0 then '' '' else []) @ fmt_x 2 (unat b) @ mon_data_text (Suc i) bs"

definition mon_line :: "mon_event_text \<Rightarrow> string" where
  "mon_line ep = mon_head ep @ mon_data_text 0 (me_data ep) @ ''\<newline>''"

lemma mon_data_text_length: "length (mon_data_text i bs) \<le> 3 * length bs"
proof (induction bs arbitrary: i)
  case (Cons b bs)
  have "length (fmt_x 2 (unat b)) \<le> 2" using fmt_x_length(3) [of 2 b] by simp
  then have "length (fmt_x 2 (unat b)) + length (mon_data_text (Suc i) bs) \<le> 2 + 3 * length bs" using Cons.IH by (rule add_mono)
  then show ?case by simp
qed simp

lemma mon_head_length: "length (mon_head ep) \<le> 84"
  using fmt_u_length [of "me_tstamp ep"] fmt_03d_length [of "me_chan ep"] fmt_x_length(1) [of 0 "me_wp ep"] fmt_x_length(1) [of 0 "tre_ptr (me_tre ep)"]
    fmt_x_length(2) [of 8 "tre_dword0 (me_tre ep)"] fmt_x_length(2) [of 8 "tre_dword1 (me_tre ep)"]
  by (simp add: mon_head_def)

lemma mon_print_fits:
  "length s + length t < limit \<Longrightarrow> mon_print limit t \<lparr>tp_cnt = length s, tp_buf = s\<rparr> = \<lparr>tp_cnt = length (s @ t), tp_buf = s @ t\<rparr>"
  by (simp add: mon_print_def)

lemma mon_print_data_fits:
  "length s + length (mon_data_text i bs) < limit \<Longrightarrow>
   mon_print_data limit i bs \<lparr>tp_cnt = length s, tp_buf = s\<rparr> =
     \<lparr>tp_cnt = length (s @ mon_data_text i bs), tp_buf = s @ mon_data_text i bs\<rparr>"
proof (induction bs arbitrary: i s)
  case (Cons b bs)
  let ?sep = "if i mod 4 = 0 then '' '' else []"
  have "(if i mod 4 = 0 then mon_print limit '' '' \<lparr>tp_cnt = length s, tp_buf = s\<rparr> else \<lparr>tp_cnt = length s, tp_buf = s\<rparr>) =
      \<lparr>tp_cnt = length (s @ ?sep), tp_buf = s @ ?sep\<rparr>"
    using Cons.prems mon_print_fits [of s "'' ''" limit] by (cases "i mod 4 = 0") simp_all
  moreover have "mon_print limit (fmt_x 2 (unat b)) \<lparr>tp_cnt = length (s @ ?sep), tp_buf = s @ ?sep\<rparr> =
      \<lparr>tp_cnt = length ((s @ ?sep) @ fmt_x 2 (unat b)), tp_buf = (s @ ?sep) @ fmt_x 2 (unat b)\<rparr>"
    by (rule mon_print_fits) (use Cons.prems in \<open>simp split: if_splits\<close>)
  moreover have "length ((s @ ?sep) @ fmt_x 2 (unat b)) + length (mon_data_text (Suc i) bs) < limit"
    using Cons.prems by (simp split: if_splits)
  ultimately show ?case using Cons.IH [of "(s @ ?sep) @ fmt_x 2 (unat b)" "Suc i"] by (simp only: mon_print_data.simps mon_data_text.simps append_assoc)
qed simp

lemma mon_print_event_line:
  assumes "length (me_data ep) \<le> MON_DATA_MAX"
  shows "mon_print_event PRINTF_DFL ep = \<lparr>tp_cnt = length (mon_line ep), tp_buf = mon_line ep\<rparr> \<and> length (mon_line ep) < PRINTF_DFL"
proof -
  have l: "length (mon_head ep) + length (mon_data_text 0 (me_data ep)) + 1 < PRINTF_DFL"
    using mon_head_length [of ep] mon_data_text_length [of 0 "me_data ep"] assms by (simp add: PRINTF_DFL_def MON_DATA_MAX_def)
  have "mon_print PRINTF_DFL (mon_head ep) \<lparr>tp_cnt = 0, tp_buf = []\<rparr> = \<lparr>tp_cnt = length (mon_head ep), tp_buf = mon_head ep\<rparr>"
    using mon_print_fits [of "[]" "mon_head ep" PRINTF_DFL] l by simp
  then have "mon_print_event PRINTF_DFL ep = mon_print PRINTF_DFL ''\<newline>''
      \<lparr>tp_cnt = length (mon_head ep @ mon_data_text 0 (me_data ep)), tp_buf = mon_head ep @ mon_data_text 0 (me_data ep)\<rparr>"
    using mon_print_data_fits [of "mon_head ep" 0 "me_data ep" PRINTF_DFL] l by (simp add: mon_print_event_def)
  then show ?thesis using mon_print_fits [of "mon_head ep @ mon_data_text 0 (me_data ep)" "''\<newline>''" PRINTF_DFL] l by (simp add: mon_line_def)
qed

text \<open>
  The text of an event always fits in the buffer of 250 bytes, whatever the numbers in it: nothing is cut off, and the
  count is the length of the text.
\<close>
theorem mon_line_fits:
  assumes "length (me_data ep) \<le> MON_DATA_MAX"
  shows "mon_print_event PRINTF_DFL ep = \<lparr>tp_cnt = length (mon_line ep), tp_buf = mon_line ep\<rparr> \<and> length (mon_line ep) < PRINTF_DFL"
  by (rule mon_print_event_line [OF assms])

subsection \<open>What a reader gets\<close>

text \<open>What has been printed but not been read.\<close>

definition mon_pending :: "mon_reader_text \<Rightarrow> string" where
  "mon_pending rp = take (mr_left_size rp) (drop (mr_left_pos rp) (mr_printf_buf rp))"

definition reader_add :: "mon_event_text list \<Rightarrow> mon_reader_text \<Rightarrow> mon_reader_text" where
  "reader_add eps rp = rp\<lparr>mr_nevents := mr_nevents rp + int (length eps), mr_e_list := mr_e_list rp @ eps\<rparr>"

lemma reader_add_sel [simp]:
  "mr_e_list (reader_add eps rp) = mr_e_list rp @ eps" "mr_printf_buf (reader_add eps rp) = mr_printf_buf rp"
  "mr_left_size (reader_add eps rp) = mr_left_size rp" "mr_left_pos (reader_add eps rp) = mr_left_pos rp"
  "mr_nevents (reader_add eps rp) = mr_nevents rp + int (length eps)"
  by (simp_all add: reader_add_def)

lemma reader_add_append: "reader_add fs (reader_add eps rp) = reader_add (eps @ fs) rp"
  by (simp add: reader_add_def)

text \<open>
  A read that sleeps while events are recorded has the outcome of a read after they have been recorded: only the events
  up to the first that is there matter.
\<close>

lemma mon_text_read_wait_sleeps:
  "mon_text_read_wait False (map (\<lambda>eps. (reader_add eps, False)) epss) rp = Some (r, rp') \<Longrightarrow>
   \<exists>m. mon_text_read_wait False [] (reader_add (concat (take m epss)) rp) = Some (r, rp')"
proof (induction epss arbitrary: rp)
  case Nil
  then have "mon_text_read_wait False [] (reader_add (concat (take 0 ([] :: mon_event_text list list))) rp) = Some (r, rp')"
    by (simp add: reader_add_def)
  then show ?case by blast
next
  case (Cons eps epss)
  show ?case
  proof (cases "mon_text_fetch rp")
    case None
    then obtain m where "mon_text_read_wait False [] (reader_add (concat (take m epss)) (reader_add eps rp)) = Some (r, rp')"
      using Cons by auto
    then have "mon_text_read_wait False [] (reader_add (concat (take (Suc m) (eps # epss))) rp) = Some (r, rp')"
      by (simp add: reader_add_append del: mon_text_read_wait.simps)
    then show ?thesis by blast
  next
    case (Some p)
    then have "mon_text_read_wait False [] (reader_add (concat (take 0 (eps # epss))) rp) = Some (r, rp')"
      using Cons.prems by (auto simp: reader_add_def split: prod.splits)
    then show ?thesis by blast
  qed
qed

text \<open>
  A run of one reader: events are recorded, and user space reads pieces of any size; a read that fails for lack of an event
  returns nothing. \<open>given\<close> are the events recorded so far, \<open>out\<close> is what user space has read.
\<close>

inductive mon_run :: "mon_reader_text \<Rightarrow> mon_event_text list \<Rightarrow> string \<Rightarrow> bool" where
  Opened: "mon_run zero_reader [] []"
| Recorded: "mon_run rp given out \<Longrightarrow> length (me_data ep) \<le> MON_DATA_MAX \<Longrightarrow> mon_run (reader_add [ep] rp) (given @ [ep]) out"
| Read: "mon_run rp given out \<Longrightarrow> mon_text_read_u True nonblock [] nbytes rp = Some (Inr s, rp') \<Longrightarrow> mon_run rp' given (out @ s)"
| Failed: "mon_run rp given out \<Longrightarrow> mon_text_read_u True nonblock [] nbytes rp = Some (Inl e, rp') \<Longrightarrow> mon_run rp' given out"

definition mon_inv :: "mon_reader_text \<Rightarrow> mon_event_text list \<Rightarrow> string \<Rightarrow> bool" where
  "mon_inv rp given out \<longleftrightarrow> (\<exists>n \<le> length given. out @ mon_pending rp = concat (map mon_line (take n given)) \<and> mr_e_list rp = drop n given) \<and>
     mr_left_pos rp + mr_left_size rp \<le> max (length (mr_printf_buf rp)) (mr_left_pos rp) \<and>
     mr_nevents rp = int (length (mr_e_list rp)) \<and> (\<forall>ep \<in> set given. length (me_data ep) \<le> MON_DATA_MAX)"

lemma mon_read_inv:
  assumes inv: "mon_inv rp given out" and run: "mon_text_read_u True nonblock [] nbytes rp = Some (r, rp')"
  shows "case r of Inr s \<Rightarrow> mon_inv rp' given (out @ s) | Inl _ \<Rightarrow> rp' = rp"
proof (cases "mr_left_size rp = 0")
  case False
  let ?p = "drop (mr_left_pos rp) (mr_printf_buf rp)" and ?c = "min (mr_left_size rp) nbytes"
  have r: "r = Inr (take ?c ?p)" "rp' = rp\<lparr>mr_left_pos := mr_left_pos rp + ?c, mr_left_size := mr_left_size rp - ?c\<rparr>"
    using run False by (simp_all add: mon_text_read_u_def Let_def)
  have "take ?c ?p @ mon_pending rp' = mon_pending rp"
    using r(2) take_add [of ?c "mr_left_size rp - ?c" ?p] by (simp add: mon_pending_def add.commute)
  then show ?thesis using inv r by (auto simp: mon_inv_def)
next
  case True
  obtain n where n: "n \<le> length given" "out = concat (map mon_line (take n given))" "mr_e_list rp = drop n given"
    using inv True by (auto simp: mon_inv_def mon_pending_def)
  show ?thesis
  proof (cases "mr_e_list rp")
    case Nil
    then show ?thesis using run True by (auto simp: mon_text_read_u_def mon_text_fetch_def split: if_splits)
  next
    case (Cons ep eps)
    then have g: "n < length given" "given ! n = ep" "drop (Suc n) given = eps"
      using n by (metis drop_all list.distinct(1) not_le, metis drop_all list.distinct(1) not_le Cons_nth_drop_Suc list.sel(1),
        metis Cons_nth_drop_Suc drop_all list.distinct(1) list.sel(3) not_le)
    then have d: "length (me_data ep) \<le> MON_DATA_MAX" using inv by (auto simp: mon_inv_def)
    note fits = mon_print_event_line [OF d]
    have r: "r = Inr (take nbytes (mon_line ep))" and rp': "mr_printf_buf rp' = mon_line ep" "mr_e_list rp' = eps" "mr_nevents rp' = mr_nevents rp - 1"
      "mon_pending rp' = drop nbytes (mon_line ep)" "mr_left_pos rp' + mr_left_size rp' \<le> max (length (mr_printf_buf rp')) (mr_left_pos rp')"
      using run True Cons fits by (auto simp: mon_text_read_u_def mon_text_fetch_def mon_pending_def Let_def min_def split: if_splits)
    have "(out @ take nbytes (mon_line ep)) @ mon_pending rp' = concat (map mon_line (take (Suc n) given))"
      using n(2) g rp'(4) by (simp add: take_Suc_conv_app_nth)
    then have "\<exists>j \<le> length given. (out @ take nbytes (mon_line ep)) @ mon_pending rp' = concat (map mon_line (take j given)) \<and> mr_e_list rp' = drop j given"
      using g rp'(2) by (intro exI [of _ "Suc n"]) simp
    then show ?thesis using inv r rp'(1-3,5) Cons by (simp add: mon_inv_def)
  qed
qed

text \<open>
  (C17) Whatever the sizes of its reads, a reader gets the lines of the events it was given, in order, each once and complete: what has
  been read and what is left of the last line are the lines of the first events, and the others are still queued.
\<close>
theorem mon_reader_stream:
  assumes "mon_run rp given out"
  shows "\<exists>n \<le> length given. out @ mon_pending rp = concat (map mon_line (take n given)) \<and> mr_e_list rp = drop n given"
proof -
  have "mon_inv rp given out" using assms
  proof (induction rule: mon_run.induct)
    case Opened
    then show ?case by (simp add: mon_inv_def zero_reader_def mon_pending_def)
  next
    case (Recorded rp given out ep)
    then obtain n where "n \<le> length given" "out @ mon_pending rp = concat (map mon_line (take n given))" "mr_e_list rp = drop n given"
      by (auto simp: mon_inv_def)
    then show ?case using Recorded by (auto simp: mon_inv_def mon_pending_def intro!: exI [of _ n])
  next
    case (Read rp given out nonblock nbytes s rp')
    then show ?case using mon_read_inv by fastforce
  next
    case (Failed rp given out nonblock nbytes e rp')
    then show ?case using mon_read_inv by fastforce
  qed
  then show ?thesis by (auto simp: mon_inv_def)
qed

subsection \<open>What is lost\<close>

text \<open>The queue of a reader is as long as its count says and never longer than its limit.\<close>

definition reader_wf :: "mon_reader_text \<Rightarrow> bool" where
  "reader_wf rp \<longleftrightarrow> mr_nevents rp = int (length (mr_e_list rp)) \<and> mr_nevents rp \<le> EVENT_MAX"

lemma reader_wf_add: "reader_wf rp \<Longrightarrow> mr_nevents rp < EVENT_MAX \<Longrightarrow> reader_wf (reader_add [ep] rp)"
  by (simp add: reader_wf_def)

lemma zero_reader_wf: "reader_wf zero_reader"
  by (simp add: reader_wf_def zero_reader_def EVENT_MAX_def)

definition mon_wf :: "mon_bus \<Rightarrow> bool" where
  "mon_wf m \<longleftrightarrow> distinct (mn_r_list m) \<and> mn_nreaders m = int (length (mn_r_list m)) \<and> mn_ref m = mn_nreaders m + 1 \<and>
     (\<forall>k \<in> set (mn_r_list m). mn_readers m k \<noteq> None) \<and>
     (\<forall>k rp. mn_readers m k = Some rp \<longrightarrow> reader_wf rp)"

text \<open>A reader without room, or without memory for the event.\<close>

definition mon_drops :: "(nat \<Rightarrow> bool) \<Rightarrow> mon_bus \<Rightarrow> nat \<Rightarrow> bool" where
  "mon_drops alloc m k \<longleftrightarrow> (case mn_readers m k of None \<Rightarrow> False | Some rp \<Rightarrow> EVENT_MAX \<le> mr_nevents rp \<or> \<not> alloc k)"

lemma mon_text_event_frame [simp]:
  "mn_nreaders (mon_text_event al st ch wp tre bs ty k m) = mn_nreaders m" "mn_ref (mon_text_event al st ch wp tre bs ty k m) = mn_ref m"
  "mn_r_list (mon_text_event al st ch wp tre bs ty k m) = mn_r_list m" "mn_cnt_events (mon_text_event al st ch wp tre bs ty k m) = mn_cnt_events m"
  "j \<noteq> k \<Longrightarrow> mn_readers (mon_text_event al st ch wp tre bs ty k m) j = mn_readers m j"
  by (simp_all add: mon_text_event_def Let_def split: option.split)

lemma mon_text_event_self:
  assumes "mn_readers m k = Some rp" and "ep = \<lparr>me_type = ty, me_tstamp = st, me_chan = ch, me_wp = wp, me_tre = tre, me_data = take MON_DATA_MAX bs\<rparr>"
  shows "mn_readers (mon_text_event (alloc k) st ch wp tre bs ty k m) k = Some (if mon_drops alloc m k then rp else reader_add [ep] rp)"
    "mn_cnt_text_lost (mon_text_event (alloc k) st ch wp tre bs ty k m) = mn_cnt_text_lost m + of_bool (mon_drops alloc m k)"
  using assms by (simp_all add: mon_text_event_def mon_drops_def Let_def reader_add_def)

lemma mon_events_fold:
  fixes alloc :: "nat \<Rightarrow> bool"
  assumes "distinct ks" and "\<forall>k \<in> set ks. mn_readers m k \<noteq> None"
    and ep: "ep = \<lparr>me_type = ty, me_tstamp = st, me_chan = ch, me_wp = wp, me_tre = tre, me_data = take MON_DATA_MAX bs\<rparr>"
  defines "m' \<equiv> fold (\<lambda>k. mon_text_event (alloc k) st ch wp tre bs ty k) ks m"
  shows "mn_readers m' k = (if k \<in> set ks \<and> \<not> mon_drops alloc m k then map_option (reader_add [ep]) (mn_readers m k) else mn_readers m k) \<and>
    mn_cnt_text_lost m' = mn_cnt_text_lost m + of_nat (length (filter (mon_drops alloc m) ks)) \<and>
    mn_r_list m' = mn_r_list m \<and> mn_nreaders m' = mn_nreaders m \<and> mn_ref m' = mn_ref m"
  using assms(1,2) unfolding m'_def
proof (induction ks arbitrary: m)
  case (Cons j ks)
  let ?m = "mon_text_event (alloc j) st ch wp tre bs ty j m"
  obtain rp where rp: "mn_readers m j = Some rp" using Cons.prems by auto
  note self = mon_text_event_self [OF rp ep, of alloc]
  have drops: "mon_drops alloc ?m k = mon_drops alloc m k" if "k \<noteq> j" for k using that by (simp add: mon_drops_def)
  have "j \<notin> set ks" using Cons.prems by simp
  then have "filter (mon_drops alloc ?m) ks = filter (mon_drops alloc m) ks" using drops by (metis (mono_tags, lifting) filter_cong)
  moreover have "mn_readers ?m k \<noteq> None" if "k \<in> set ks" for k using Cons.prems that by (cases "k = j") simp_all
  ultimately show ?case using Cons.IH [of ?m] Cons.prems self rp drops by (cases "k = j") auto
qed simp

text \<open>
  Recording a submitted element: each open reader gets the event at the end of its queue, unless the queue holds 682 events
  or memory is short; the counter of lost events grows by the number of these readers, and no queue outgrows its limit.
\<close>
theorem mon_bus_submit_delivers:
  fixes alloc :: "nat \<Rightarrow> bool" and stamp ch :: u32 and wp :: u64 and tre :: mhi_tre and bytes :: "u8 list"
  assumes wf: "mon_wf m" and k: "k \<in> set (mn_r_list m)" and rp: "mn_readers m k = Some rp"
  defines "m' \<equiv> mon_bus_submit alloc stamp ch wp tre bytes m"
    and "ep \<equiv> \<lparr>me_type = CHR ''W'', me_tstamp = stamp, me_chan = ch, me_wp = wp, me_tre = tre, me_data = take MON_DATA_MAX bytes\<rparr>"
  shows "mn_readers m' k = Some (if EVENT_MAX \<le> mr_nevents rp \<or> \<not> alloc k then rp else reader_add [ep] rp) \<and>
    mn_cnt_text_lost m' = mn_cnt_text_lost m + of_nat (length (filter (mon_drops alloc m) (mn_r_list m))) \<and> mon_wf m'"
proof -
  let ?m = "m\<lparr>mn_cnt_events := mn_cnt_events m + 1\<rparr>"
  have d: "mon_drops alloc ?m = mon_drops alloc m" by (simp add: mon_drops_def fun_eq_iff)
  have f: "mn_readers m' j = (if j \<in> set (mn_r_list m) \<and> \<not> mon_drops alloc m j then map_option (reader_add [ep]) (mn_readers m j) else mn_readers m j) \<and>
      mn_cnt_text_lost m' = mn_cnt_text_lost m + of_nat (length (filter (mon_drops alloc m) (mn_r_list m))) \<and>
      mn_r_list m' = mn_r_list m \<and> mn_nreaders m' = mn_nreaders m \<and> mn_ref m' = mn_ref m" for j
    using mon_events_fold [of "mn_r_list m" ?m ep "CHR ''W''" stamp ch wp tre bytes alloc j] wf
    by (simp add: m'_def mon_bus_submit_def mon_text_submit_def d mon_wf_def ep_def)
  have q: "reader_wf r" if "mn_readers m' j = Some r" for j r
    using that f [of j] wf by (auto simp: mon_wf_def mon_drops_def intro: reader_wf_add split: if_splits)
  have "mn_readers m' j \<noteq> None" if "j \<in> set (mn_r_list m)" for j using f [of j] wf that by (auto simp: mon_wf_def)
  then have "mon_wf m'" using f wf q by (simp add: mon_wf_def)
  then show ?thesis using f [of k] k rp by (simp add: mon_drops_def)
qed

text \<open>Opening and closing a reader leaves the others as they were.\<close>

lemma mon_open_release:
  assumes "mon_wf m" and "mn_readers m k = None" and "mon_text_open True True True k m = (r, m')"
  shows "r = Inr () \<and> mon_wf m' \<and> mon_text_release k m' = Some m"
proof -
  have "k \<notin> set (mn_r_list m)" using assms(1,2) by (auto simp: mon_wf_def)
  then show ?thesis using assms
    by (auto simp: mon_text_open_def mon_reader_add_def mon_text_release_def mon_reader_del_def mon_wf_def zero_reader_wf
        remove1_append fun_upd_idem split: if_splits)
qed

text \<open>
  Powering the controller up again forgets the open readers: closing one later does not free it, and it gets no more events.
\<close>
theorem mon_restart_forgets:
  assumes "mn_readers m k = Some rp"
  shows "mon_text_release k (mon_init m) = Some (mon_init m) \<and> mn_readers (mon_init m) k = Some rp \<and>
    mn_readers (mon_bus_submit alloc stamp ch wp tre bytes (mon_init m)) k = Some rp"
  using assms by (simp add: mon_text_release_def mon_init_def mon_bus_submit_def)

end
