(* ===== verification/Bus_Examples.thy ===== *)
theory Bus_Examples
  imports MHI_Driver MHI_Mon MHI_Examples
begin

text \<open>
  A modem that is probed, removed and probed again, a driver bound to the example controller, and a reader of the
  monitor: the properties of \<open>MHI_Bus\<close>, \<open>MHI_Driver\<close> and \<open>MHI_Mon\<close> applied to them.
\<close>

subsection \<open>The bus\<close>

definition demo_bdf :: bdf where "demo_bdf = \<lparr>b_dev_id = 0x0306, b_domain = 0, b_bus = 1, b_slot = 0\<rparr>"

definition demo_reg :: "u64 \<Rightarrow> u64 \<Rightarrow> reg_env" where
  "demo_reg a da = \<lparr>ge_cntrl = Some a, ge_chan = True, ge_event = True, ge_cmd = True, ge_dev = Some da, ge_device_add = Inr (),
     ge_device_create = True, ge_mbim = False, ge_use_dma = False, ge_dma32 = False, ge_io = (\<lambda>_. 0)\<rparr>"

definition demo_probe :: "u64 \<Rightarrow> u64 \<Rightarrow> bus_sys \<Rightarrow> bus_sys" where
  "demo_probe a da st = snd (probe_controller (demo_reg a da) MHI_PCIE_VENDOR_ID demo_bdf st)"

definition demo_bus1 :: bus_sys where "demo_bus1 = demo_probe 0x1000 0x2000 bus_start"
definition demo_bus2 :: bus_sys where "demo_bus2 = remove_controller True demo_bdf demo_bus1"
definition demo_bus3 :: bus_sys where "demo_bus3 = demo_probe 0x3000 0x4000 demo_bus2"

lemma demo_probe_step: "reg_fresh (demo_reg a da) st \<Longrightarrow> bus_step st (demo_probe a da st)"
  unfolding demo_probe_def by (rule bus_step.Probed) (simp_all add: mhi_pcie_device_id_def demo_bdf_def)

lemma demo_probe_registers:
  assumes "bus_wf st" "reg_fresh (demo_reg a da) st" "bs_list st = []" "\<exists>m \<in> set (bs_minors st). mm_id m = demo_bdf \<or> mm_id m = zero_bdf"
  shows "registered demo_bdf a st (demo_probe a da st)"
  using probe_new_registers [OF assms(1) _ assms(2), of demo_bdf MHI_PCIE_VENDOR_ID] assms
  by (simp add: demo_probe_def reg_all_ok_def demo_reg_def)

lemma demo_bdf_nonzero: "demo_bdf \<noteq> zero_bdf"
  by (simp add: demo_bdf_def zero_bdf_def)

lemma demo_fresh1: "reg_fresh (demo_reg 0x1000 0x2000) bus_start"
  by (simp add: reg_fresh_def demo_reg_def bus_start_def)

lemma demo_bus1_registered: "registered demo_bdf 0x1000 bus_start demo_bus1"
  unfolding demo_bus1_def
  by (rule demo_probe_registers [OF bus_start_wf demo_fresh1]) (simp_all add: bus_start_def MAX_MHI_CONTROLLER_def)

lemma demo_bus1:
  "bs_list demo_bus1 = [0x1000]" "bc_id (cntrl_of demo_bus1 0x1000) = demo_bdf" "bs_cntrl demo_bus1 0x3000 = None" "bs_dev demo_bus1 0x4000 = None"
  "bus_wf demo_bus1"
proof -
  have "ge_dev (demo_reg 0x1000 0x2000) = Some 0x2000" by (simp add: demo_reg_def)
  then have "bs_dev demo_bus1 0x4000 = None"
    using demo_bus1_registered
    by (auto simp: demo_bus1_def demo_probe_def probe_controller_def mhi_bdf_to_controller_def mhi_register_controller_def mhi_alloc_controller_def
        of_register_mhi_controller_def register_on_bus_def mhi_alloc_device_def mhi_dealloc_device_def mhi_free_controller_def bus_start_def Let_def
        split: option.splits prod.splits sum.splits if_splits)
  then show "bs_dev demo_bus1 0x4000 = None" .
  show "bs_list demo_bus1 = [0x1000]" "bc_id (cntrl_of demo_bus1 0x1000) = demo_bdf" "bs_cntrl demo_bus1 0x3000 = None"
    using demo_bus1_registered by (auto simp: registered_def bus_start_def)
  show "bus_wf demo_bus1"
    by (rule registered_wf [OF bus_start_wf demo_bus1_registered demo_bdf_nonzero]) (simp add: bus_start_def)
qed

lemma demo_bus2: "bs_list demo_bus2 = []" "bus_wf demo_bus2" "reg_fresh (demo_reg 0x3000 0x4000) demo_bus2" "bs_minors demo_bus2 = bs_minors demo_bus1"
proof -
  show "bs_list demo_bus2 = []" using remove_own_list [OF demo_bus1(5), of "0x1000"] demo_bus1 by (simp add: demo_bus2_def)
  show "bus_wf demo_bus2" unfolding demo_bus2_def by (rule bus_step_wf [OF bus_step.Removed demo_bus1(5)])
  have "bs_dev demo_bus2 0x4000 = None" "bs_cntrl demo_bus2 0x3000 = None"
    using remove_controller_dom [of True demo_bdf demo_bus1] demo_bus1(3,4) by (auto simp: demo_bus2_def)
  then show "reg_fresh (demo_reg 0x3000 0x4000) demo_bus2" by (simp add: reg_fresh_def demo_reg_def)
  show "bs_minors demo_bus2 = bs_minors demo_bus1" by (simp add: demo_bus2_def remove_controller_dom)
qed

lemma demo_bus3: "registered demo_bdf 0x3000 demo_bus2 demo_bus3"
proof -
  have "\<exists>m \<in> set (bs_minors demo_bus1). mm_id m = demo_bdf"
    using demo_bus1_registered claim_minor_entry [of demo_bdf "0x1000" "bs_minors bus_start"] unfolding registered_def by (metis nth_mem)
  then show ?thesis unfolding demo_bus3_def by (intro demo_probe_registers demo_bus2) (auto simp: demo_bus2(4))
qed

lemma demo_steps: "bus_steps bus_start demo_bus1" "bus_steps demo_bus1 demo_bus2" "bus_steps demo_bus2 demo_bus3"
  using demo_probe_step [OF demo_fresh1] demo_probe_step [OF demo_bus2(3)] bus_step.Removed [of demo_bus1 True demo_bdf]
  by (auto simp: demo_bus1_def demo_bus2_def demo_bus3_def)

theorem minor_is_place_witness:
  "bc_idx (cntrl_of demo_bus3 0x3000) = bc_idx (cntrl_of demo_bus1 0x1000) \<and>
   mhi_cntrl_open (bc_idx (cntrl_of demo_bus1 0x1000)) demo_bus1 = Inr 0x1000"
proof -
  have r: "bs_list demo_bus3 = [0x3000]" "bc_id (cntrl_of demo_bus3 0x3000) = demo_bdf"
    using demo_bus3 demo_bus2(1) by (auto simp: registered_def)
  show ?thesis
    using minor_is_place [OF demo_steps(1) rtranclp_trans [OF demo_steps(2,3)], of "0x1000" "0x3000"] demo_bus1(1,2) r by simp
qed

theorem stale_file_refused_witness:
  "mhi_cntrl_ioctl demo_write_env 0 None 0x1000 IOCTL_BHI_GETDEVINFO demo_bus3 = Some (BhiErr ENODEV, None, demo_bus3)"
  by (rule stale_file_refused [OF demo_steps(1)]) (use demo_bus1(1,2) demo_steps(3) in \<open>simp_all add: demo_bus2_def\<close>)

theorem removed_controller_leaks_witness: "bs_kmem demo_bus2 = 2 \<and> bs_list demo_bus2 = []"
proof -
  obtain st' where "mhi_register_controller (demo_reg 0x1000 0x2000) MHI_PCIE_VENDOR_ID demo_bdf bus_start = (Inr 0x1000, st')"
    using mhi_register_controller_ok [of "demo_reg 0x1000 0x2000" bus_start demo_bdf MHI_PCIE_VENDOR_ID]
    by (cases "mhi_register_controller (demo_reg 0x1000 0x2000) MHI_PCIE_VENDOR_ID demo_bdf bus_start")
       (simp add: reg_all_ok_def demo_reg_def bus_start_def MAX_MHI_CONTROLLER_def)
  moreover from this have "st' = demo_bus1"
    by (simp add: demo_bus1_def demo_probe_def probe_controller_def mhi_bdf_to_controller_def bus_start_def)
  ultimately show ?thesis
    using removed_controller_leaks [OF _ demo_fresh1 bus_start_wf demo_bdf_nonzero, of MHI_PCIE_VENDOR_ID "0x1000" demo_bus1]
    by (simp add: demo_bus2_def bus_start_def Let_def)
qed

subsection \<open>Drivers\<close>

text \<open>A driver without the callback for sending, on a device with a sending channel, with the example controller awake.\<close>

definition demo_bound :: bound_dev where
  "demo_bound = \<lparr>bo_dev = \<lparr>ul_chan = Some 0, dl_chan = None, md_dev_wake = 0\<rparr>, bo_ul_cb = False, bo_dl_cb = False, bo_status_cb = False\<rparr>"

definition demo_probe_env :: probe_env where
  "demo_probe_env = \<lparr>be_wake = [], be_ul = demo_prep, be_dl = demo_prep, be_wait = []\<rparr>"

lemma demo_awake: "mhi_device_get_sync [] dev demo_ctrl = (Inr (), dev\<lparr>md_dev_wake := md_dev_wake dev + 1\<rparr>, demo_ctrl)"
  by (simp add: mhi_device_get_sync_def mhi_device_get_sync_ctrl_def Let_def mhi_assert_dev_wake_def mhi_consts pm_classes)

theorem mhi_driver_probe_result_witness:
  "\<exists>b' c'. mhi_driver_probe demo_probe_env (\<lambda>c. (Inr (), c)) (mhi_dtr_driver\<lparr>dr_ul_xfer_cb := False\<rparr>) demo_bound demo_ctrl = Some (Inl EINVAL, b', c') \<and>
     bo_dev b' = bo_dev demo_bound"
proof -
  let ?drv = "mhi_dtr_driver\<lparr>dr_ul_xfer_cb := False\<rparr>"
  have ch: "\<not> offload_ch (chan_at demo_ctrl 0)" by (simp add: chan_at_def zero_chan_def)
  then have "bind_ul ?drv demo_ctrl b = None" if "ul_chan (bo_dev b) = Some 0" for b using that by (simp add: bind_ul_def)
  then obtain r b' c' where run: "mhi_driver_probe demo_probe_env (\<lambda>c. (Inr (), c)) ?drv demo_bound demo_ctrl = Some (r, b', c')"
    by (simp add: mhi_driver_probe_def demo_probe_env_def demo_bound_def demo_awake exit_probe_def mhi_device_put_def Let_def)
  have "\<not> driver_fits ?drv (bo_dev demo_bound) demo_ctrl" using ch by (simp add: driver_fits_def demo_bound_def)
  then show ?thesis using mhi_driver_probe_result [OF run] run by (simp add: demo_probe_env_def demo_bound_def demo_awake)
qed

definition demo_prepare :: prepare_env where
  "demo_prepare = \<lparr>xe_ctxt = True, xe_seg = Some (0x100000, 0x200000), xe_irq_threaded = (\<lambda>_. None), xe_irq = (\<lambda>_. None), xe_rddm = demo_table\<rparr>"

definition demo_off :: boot_sys where "demo_off = demo_boot\<lparr>bt_ctl := (bt_ctl demo_boot)\<lparr>has_ctxt := False\<rparr>\<rparr>"


definition demo_module :: module_sys where
  "demo_module = \<lparr>mo_dentry = False, mo_bus = False, mo_dtr = False, mo_netdev = False,
     mo_uci = \<lparr>uv_major = 0, uv_chrdev = False, uv_class = False, uv_driver = False\<rparr>, mo_cntrl_chrdev = False, mo_cntrl_class = False, mo_pci = False\<rparr>"

definition demo_module_env :: module_env where
  "demo_module_env = \<lparr>oe_bus_register = Inr (), oe_dtr = Inr (), oe_netdev = Inr (), oe_uci_chrdev = Inr 240, oe_uci_class = True, oe_uci_driver = Inr (),
     oe_cntrl_chrdev = Inr 241, oe_cntrl_class = True, oe_pci = Inl ENODEV\<rparr>"

theorem mhi_init_result_witness: "\<exists>e m'. mhi_init demo_module_env demo_module = (Inl e, m') \<and> mo_bus m' \<and> mo_dtr m' \<and> mo_netdev m'"
proof -
  obtain r m' where run: "mhi_init demo_module_env demo_module = (r, m')" by (cases "mhi_init demo_module_env demo_module")
  have "nothing_registered demo_module" by (simp add: nothing_registered_def demo_module_def)
  from mhi_init_result [OF this run] show ?thesis using run by (cases r) (auto simp: demo_module_env_def)
qed

subsection \<open>The monitor\<close>

definition demo_mon_event :: mon_event_text where
  "demo_mon_event = \<lparr>me_type = CHR ''W'', me_tstamp = 17, me_chan = 4, me_wp = 0x1000, me_tre = \<lparr>tre_ptr = 0x2000, tre_dword0 = 5, tre_dword1 = 6\<rparr>,
     me_data = [1, 2, 3, 4, 255]\<rparr>"

lemma demo_mon_data: "length (me_data demo_mon_event) \<le> MON_DATA_MAX"
  by (simp add: demo_mon_event_def MON_DATA_MAX_def)

lemma demo_mon_line: "take 4 (mon_line demo_mon_event) = ''17 W''" "4 < length (mon_line demo_mon_event)"
proof -
  have "fmt_u 17 = ''17''" by code_simp
  then obtain rest where "mon_line demo_mon_event = ''17 W '' @ rest" by (simp add: mon_line_def mon_head_def demo_mon_event_def)
  then show "take 4 (mon_line demo_mon_event) = ''17 W''" "4 < length (mon_line demo_mon_event)" by simp_all
qed

theorem mon_line_fits_witness: "length (mon_line demo_mon_event) < PRINTF_DFL"
  using mon_line_fits [OF demo_mon_data] by simp

theorem mon_reader_stream_witness:
  "\<exists>rp n. n \<le> length [demo_mon_event] \<and>
     ''17 W'' @ mon_pending rp = concat (map mon_line (take n [demo_mon_event])) \<and> mr_e_list rp = drop n [demo_mon_event]"
proof -
  have ev: "mon_run (reader_add [demo_mon_event] zero_reader) ([] @ [demo_mon_event]) []"
    by (rule mon_run.Recorded [OF mon_run.Opened demo_mon_data])
  obtain rp' where "mon_text_read_u True True [] 4 (reader_add [demo_mon_event] zero_reader) = Some (Inr ''17 W'', rp')"
    using mon_print_event_line [OF demo_mon_data] demo_mon_line
    by (simp add: mon_text_read_u_def mon_text_fetch_def reader_add_def zero_reader_def Let_def)
  from mon_reader_stream [OF mon_run.Read [OF ev this]] show ?thesis by auto
qed

end
