(* ===== verification/Qmap_Usb.thy ===== *)
theory Qmap_Usb
  imports Qmap_Dev
begin

text \<open>
  The USB side of the driver (\<^verbatim>\<open>qmi_wwan_q/src/qmi_wwan_q.c\<close>): the table of products, the control channel
  (the \<^verbatim>\<open>cdc-wdm\<close> subdriver), binding and unbinding as usbnet calls them, the entry points of the USB core and
  the counter of users that want remote wakeup.

  usbnet itself is kernel code: \<^verbatim>\<open>usbnet_probe\<close> and \<^verbatim>\<open>usbnet_disconnect\<close> are parameters, and \<open>usbnet_probe_law\<close> and
  \<open>usbnet_disconnect_law\<close> say which of the driver's callbacks they call. The calls the driver makes are
  recorded in order, so that what a connection leaves behind can be counted.
\<close>

subsection \<open>The table of products\<close>

datatype driver_flag = FLAG_WWAN | FLAG_RX_ASSEMBLE | FLAG_NOARP | FLAG_SEND_ZLP

record driver_info =
  di_flags :: "driver_flag list"
  di_data :: u32

definition qmi_wwan_info :: driver_info where
  "qmi_wwan_info = \<lparr>di_flags = [FLAG_WWAN], di_data = 0\<rparr>"

definition qmi_wwan_raw_ip_info :: "u32 \<Rightarrow> driver_info" where
  "qmi_wwan_raw_ip_info data =
     \<lparr>di_flags = [FLAG_WWAN, FLAG_RX_ASSEMBLE, FLAG_NOARP, FLAG_SEND_ZLP], di_data = data\<rparr>"

definition qmi_wwan_raw_ip_info_mdm9x07 :: driver_info where
  "qmi_wwan_raw_ip_info_mdm9x07 = qmi_wwan_raw_ip_info (push_bit 8 5 OR 4)"

definition qmi_wwan_raw_ip_info_mdm9x40 :: driver_info where
  "qmi_wwan_raw_ip_info_mdm9x40 = qmi_wwan_raw_ip_info (push_bit 8 5 OR 16)"

definition qmi_wwan_raw_ip_info_sdx55 :: driver_info where
  "qmi_wwan_raw_ip_info_sdx55 = qmi_wwan_raw_ip_info (push_bit 8 9 OR 31)"

text \<open>Vendor, product and interface number, and the driver's description; \<open>None\<close> for an id added at run time.\<close>

record usb_device_id =
  id_vendor :: u16
  id_product :: u16
  id_number :: u8
  id_driver_info :: "driver_info option"

definition QMI_FIXED_INTF :: "u16 \<Rightarrow> u16 \<Rightarrow> u8 \<Rightarrow> usb_device_id" where
  "QMI_FIXED_INTF vend pid num =
     \<lparr>id_vendor = vend, id_product = pid, id_number = num, id_driver_info = Some qmi_wwan_info\<rparr>"

definition QMI_FIXED_RAWIP_INTF :: "u16 \<Rightarrow> u16 \<Rightarrow> u8 \<Rightarrow> driver_info \<Rightarrow> usb_device_id" where
  "QMI_FIXED_RAWIP_INTF vend pid num chip =
     \<lparr>id_vendor = vend, id_product = pid, id_number = num, id_driver_info = Some chip\<rparr>"

definition products :: "usb_device_id list" where
  "products =
    [QMI_FIXED_INTF 0x05C6 0x9003 4,
     QMI_FIXED_INTF 0x05C6 0x9215 4,
     QMI_FIXED_RAWIP_INTF 0x2C7C 0x0125 4 qmi_wwan_raw_ip_info_mdm9x07,
     QMI_FIXED_RAWIP_INTF 0x2C7C 0x0121 4 qmi_wwan_raw_ip_info_mdm9x07,
     QMI_FIXED_RAWIP_INTF 0x2C7C 0x030E 4 qmi_wwan_raw_ip_info_mdm9x07,
     QMI_FIXED_RAWIP_INTF 0x2C7C 0x0191 4 qmi_wwan_raw_ip_info_mdm9x07,
     QMI_FIXED_RAWIP_INTF 0x2C7C 0x0195 4 qmi_wwan_raw_ip_info_mdm9x07,
     QMI_FIXED_RAWIP_INTF 0x2C7C 0x0700 3 qmi_wwan_raw_ip_info_mdm9x07,
     QMI_FIXED_RAWIP_INTF 0x2C7C 0x0306 4 qmi_wwan_raw_ip_info_mdm9x40,
     QMI_FIXED_RAWIP_INTF 0x2C7C 0x030B 4 qmi_wwan_raw_ip_info_mdm9x40,
     QMI_FIXED_RAWIP_INTF 0x2C7C 0x0512 4 qmi_wwan_raw_ip_info_mdm9x40,
     QMI_FIXED_RAWIP_INTF 0x2C7C 0x0296 4 qmi_wwan_raw_ip_info_mdm9x07,
     QMI_FIXED_RAWIP_INTF 0x2C7C 0x0435 4 qmi_wwan_raw_ip_info_mdm9x07,
     QMI_FIXED_RAWIP_INTF 0x2C7C 0x0455 2 qmi_wwan_raw_ip_info_mdm9x40,
     QMI_FIXED_RAWIP_INTF 0x2C7C 0x0457 2 qmi_wwan_raw_ip_info_mdm9x40,
     QMI_FIXED_RAWIP_INTF 0x2C7C 0x0620 4 qmi_wwan_raw_ip_info_mdm9x40,
     QMI_FIXED_RAWIP_INTF 0x2C7C 0x0316 3 qmi_wwan_raw_ip_info_mdm9x40,
     QMI_FIXED_RAWIP_INTF 0x2C7C 0x0800 4 qmi_wwan_raw_ip_info_sdx55,
     QMI_FIXED_RAWIP_INTF 0x2C7C 0x0801 4 qmi_wwan_raw_ip_info_sdx55,
     QMI_FIXED_RAWIP_INTF 0x2C7C 0x0122 4 qmi_wwan_raw_ip_info_sdx55,
     QMI_FIXED_RAWIP_INTF 0x2C7C 0x013D 4 qmi_wwan_raw_ip_info_sdx55,
     QMI_FIXED_RAWIP_INTF 0x05C6 0x90D5 3 qmi_wwan_raw_ip_info_sdx55,
     QMI_FIXED_RAWIP_INTF 0x05C6 0x90DB 2 qmi_wwan_raw_ip_info_sdx55,
     QMI_FIXED_RAWIP_INTF 0x2DEE 0x4D22 5 qmi_wwan_raw_ip_info_sdx55,
     QMI_FIXED_RAWIP_INTF 0x305A 0x1421 3 qmi_wwan_raw_ip_info_sdx55,
     QMI_FIXED_RAWIP_INTF 0x305A 0x1403 3 qmi_wwan_raw_ip_info_sdx55,
     QMI_FIXED_RAWIP_INTF 0x05C6 0x9025 4 qmi_wwan_raw_ip_info_sdx55,
     QMI_FIXED_RAWIP_INTF 0x05C6 0x9091 2 qmi_wwan_raw_ip_info_sdx55,
     QMI_FIXED_RAWIP_INTF 0x1BC7 0x1070 2 qmi_wwan_raw_ip_info_sdx55]"

subsection \<open>The interface and what the kernel answers\<close>

text \<open>
  \<^verbatim>\<open>struct qmi_wwan_state\<close> and the parts of \<^verbatim>\<open>struct usbnet\<close> it is kept in. An interface is a number;
  \<open>wd_status\<close> says whether usbnet has a status endpoint, \<open>wd_unused\<close> is \<^verbatim>\<open>info->unused\<close>, \<open>wd_calls\<close> the calls made.
\<close>

datatype usb_call =
    WdmRegister | WdmDisconnect | ControlLineState bool | ClearHaltIn | ClearHaltOut
  | ReleaseInterface nat | AllocQmap | FreeQmap | RxHandlerRegister | RxHandlerUnregister | KillTxq

record wwan_dev =
  wd_control :: "nat option"
  wd_data :: "nat option"
  wd_subdriver :: bool
  wd_pmcount :: int
  wd_wakeup :: bool
  wd_status :: bool
  wd_unused :: "sQmiWwanQmap option"
  wd_info :: driver_info
  wd_net :: net_device
  wd_calls :: "usb_call list"

definition wd_call :: "usb_call \<Rightarrow> wwan_dev \<Rightarrow> wwan_dev" where
  "wd_call c d = d\<lparr>wd_calls := wd_calls d @ [c]\<rparr>"

text \<open>
  What the kernel answers: \<open>ue_endpoints\<close> the result of \<^verbatim>\<open>usbnet_get_endpoints\<close> and whether it found a status
  endpoint, \<open>ue_wdm\<close> that of \<^verbatim>\<open>usb_cdc_wdm_register\<close>, \<open>ue_kzalloc\<close> whether the allocation succeeds; the
  interface class, the product and speed of the device, whether it is still configured, a random address.
\<close>

record usb_env =
  ue_endpoints :: "unit res \<times> bool"
  ue_wdm :: "unit res"
  ue_kzalloc :: bool
  ue_class :: u8
  ue_idProduct :: u32
  ue_superspeed :: bool
  ue_configured :: bool
  ue_random :: bytes

subsection \<open>The control channel\<close>

definition qmi_wwan_cdc_wdm_manage_power :: "wwan_dev option \<Rightarrow> bool \<Rightarrow> unit res \<times> wwan_dev option" where
  "qmi_wwan_cdc_wdm_manage_power intfdata on =
     (case intfdata of
        None \<Rightarrow> (Inr (), None)
      | Some d \<Rightarrow>
          (let (told, (cnt, wake)) = qmi_wwan_manage_power on (wd_pmcount d, wd_wakeup d)
           in (Inr (), Some (d\<lparr>wd_pmcount := cnt, wd_wakeup := wake\<rparr>))))"

definition qmi_wwan_register_subdriver :: "usb_env \<Rightarrow> wwan_dev \<Rightarrow> unit res \<times> wwan_dev" where
  "qmi_wwan_register_subdriver env d =
     (case ue_endpoints env of
        (Inl e, _) \<Rightarrow> (Inl e, d)
      | (Inr _, st) \<Rightarrow>
          (let d1 = d\<lparr>wd_status := (wd_control d \<noteq> wd_data d \<or> st)\<rparr>
           in if \<not> wd_status d1 then (Inl EINVAL, d1)
              else (let d2 = d1\<lparr>wd_pmcount := 0\<rparr>
                    in case ue_wdm env of
                         Inl e \<Rightarrow> (Inl e, d2)
                       | Inr _ \<Rightarrow> (Inr (), wd_call WdmRegister (d2\<lparr>wd_status := False, wd_subdriver := True\<rparr>)))))"

subsection \<open>Binding and unbinding\<close>

text \<open>
  The whole of \<^verbatim>\<open>qmi_wwan_bind\<close>: the state of the device is set up in \<open>qmi_wwan_bind\<close>, for a registered
  subdriver and a successful allocation. \<open>mode\<close> and \<open>bridge_mode\<close> are the module parameters; the third result
  is the parameter \<^verbatim>\<open>qmap_mode\<close> afterwards, the fourth \<^verbatim>\<open>rx_urb_size\<close>. The operation tables installed are the
  ones whose functions are modelled, and the flag \<^verbatim>\<open>IFF_NOARP\<close> follows the driver's description; the branch that
  releases a separate data interface is dead, as both interfaces are the same.
\<close>

definition qmi_wwan_bind_dev ::
  "usb_env \<Rightarrow> u32 \<Rightarrow> u32 \<Rightarrow> nat \<Rightarrow> wwan_dev \<Rightarrow> (unit res \<times> wwan_dev) \<times> u32 \<times> u32" where
  "qmi_wwan_bind_dev env mode bridge_mode intf d =
     (let (status, d1) = qmi_wwan_register_subdriver env (d\<lparr>wd_control := Some intf, wd_data := Some intf\<rparr>);
          noarp = FLAG_NOARP \<in> set (di_flags (wd_info d1));
          d2 = d1\<lparr>wd_net := (wd_net d1)\<lparr>nd_addr := bind_addr (ue_random env) (nd_addr (wd_net d1))\<rparr>\<rparr>;
          d3 = if noarp then wd_call (ControlLineState True) d2 else d2;
          d4 = wd_call ClearHaltOut (wd_call ClearHaltIn d3);
          cut = if QUECTEL_WWAN_QMAP < mode then QUECTEL_WWAN_QMAP else mode
      in case status of
           Inl e \<Rightarrow> ((Inl e, d4), cut, 1500 + 14 + 6)
         | Inr _ \<Rightarrow>
             if \<not> ue_kzalloc env then ((Inl ENODEV, d4), cut, 1500 + 14 + 6)
             else (let (q, mode', urb) = qmi_wwan_bind (ue_random env) mode (di_data (wd_info d)) (ue_idProduct env)
                                           (ue_superspeed env) noarp bridge_mode (wd_net d)
                   in ((Inr (), (wd_call AllocQmap d4)\<lparr>wd_unused := Some q\<rparr>), mode', urb)))"

definition qmi_wwan_unbind :: "usb_env \<Rightarrow> nat \<Rightarrow> wwan_dev \<Rightarrow> wwan_dev" where
  "qmi_wwan_unbind env intf d =
     (let d1 = if ue_configured env then wd_call (ControlLineState False) d else d;
          d2 = if wd_subdriver d1 then wd_call WdmDisconnect d1 else d1;
          other = if Some intf = wd_control d2 then wd_data d2 else wd_control d2;
          d3 = (case other of
                  Some i \<Rightarrow> if i \<noteq> intf then wd_call (ReleaseInterface i) d2 else d2
                | None \<Rightarrow> d2)
      in d3\<lparr>wd_subdriver := False, wd_data := None, wd_control := None\<rparr>)"

subsection \<open>Probing and disconnecting\<close>

text \<open>
  \<^verbatim>\<open>qmi_wwan_probe\<close>: \<open>usbnet_probe\<close> gets the two callbacks of the driver. An id added at run time has no
  description and gets the default one.
\<close>

definition id_info :: "usb_device_id \<Rightarrow> driver_info" where
  "id_info ident = (case id_driver_info ident of Some i \<Rightarrow> i | None \<Rightarrow> qmi_wwan_info)"

definition qmi_wwan_probe ::
  "((wwan_dev \<Rightarrow> unit res \<times> wwan_dev) \<Rightarrow> (wwan_dev \<Rightarrow> wwan_dev) \<Rightarrow> wwan_dev \<Rightarrow> unit res \<times> wwan_dev) \<Rightarrow>
   usb_env \<Rightarrow> u32 \<Rightarrow> u32 \<Rightarrow> nat \<Rightarrow> usb_device_id \<Rightarrow> wwan_dev \<Rightarrow> unit res \<times> wwan_dev" where
  "qmi_wwan_probe usbnet_probe env mode bridge_mode intf ident d =
     (if ue_class env \<noteq> 0xFF then (Inl ENODEV, d)
      else usbnet_probe (\<lambda>x. fst (qmi_wwan_bind_dev env mode bridge_mode intf x)) (qmi_wwan_unbind env intf)
             (d\<lparr>wd_info := id_info ident\<rparr>))"

text \<open>The whole of \<^verbatim>\<open>qmap_qmi_wwan_probe\<close> and \<^verbatim>\<open>qmap_qmi_wwan_disconnect\<close>; \<open>None\<close> stands for a missing \<^verbatim>\<open>intfdata\<close>.\<close>

definition qmap_usb_probe ::
  "((wwan_dev \<Rightarrow> unit res \<times> wwan_dev) \<Rightarrow> (wwan_dev \<Rightarrow> wwan_dev) \<Rightarrow> wwan_dev \<Rightarrow> unit res \<times> wwan_dev) \<Rightarrow>
   usb_env \<Rightarrow> (nat \<Rightarrow> errno option) \<Rightarrow> (nat \<Rightarrow> int \<times> int) \<Rightarrow> u32 \<Rightarrow> u32 \<Rightarrow> nat \<Rightarrow> usb_device_id \<Rightarrow> wwan_dev \<Rightarrow>
   unit res \<times> wwan_dev" where
  "qmap_usb_probe usbnet_probe env errs nows mode bridge_mode intf ident d =
     (case qmi_wwan_probe usbnet_probe env mode bridge_mode intf ident d of
        (Inl e, d') \<Rightarrow> (Inl e, d')
      | (Inr _, d') \<Rightarrow>
          (case wd_unused d' of
             None \<Rightarrow> (Inr (), d')
           | Some q \<Rightarrow>
               (let q' = qmap_qmi_wwan_probe errs nows q;
                    d1 = d'\<lparr>wd_unused := Some q'\<rparr>
                in (Inr (), if q_use_rmnet_usb q' then wd_call RxHandlerRegister d1 else d1))))"

definition qmap_usb_disconnect ::
  "((wwan_dev \<Rightarrow> wwan_dev) \<Rightarrow> wwan_dev \<Rightarrow> wwan_dev) \<Rightarrow> usb_env \<Rightarrow> nat \<Rightarrow> wwan_dev option \<Rightarrow> wwan_dev option" where
  "qmap_usb_disconnect usbnet_disconnect env intf intfdata =
     (case intfdata of
        None \<Rightarrow> None
      | Some d \<Rightarrow>
          (case wd_unused d of
             None \<Rightarrow> Some (usbnet_disconnect (qmi_wwan_unbind env intf) d)
           | Some q \<Rightarrow>
               (let q' = qmap_qmi_wwan_disconnect q;
                    d1 = d\<lparr>wd_unused := Some q'\<rparr>;
                    d2 = if q_use_rmnet_usb q' then wd_call RxHandlerUnregister d1 else d1;
                    d3 = usbnet_disconnect (qmi_wwan_unbind env intf) (wd_call KillTxq d2)
                in Some (wd_call FreeQmap d3))))"

text \<open>
  What usbnet does with the callbacks: it binds once; a failed bind is the result, and the driver's \<^verbatim>\<open>unbind\<close> is
  called exactly when a later step of a bound device fails. Disconnecting calls \<^verbatim>\<open>unbind\<close>.
\<close>

definition usbnet_probe_law ::
  "(('d \<Rightarrow> unit res \<times> 'd) \<Rightarrow> ('d \<Rightarrow> 'd) \<Rightarrow> 'd \<Rightarrow> unit res \<times> 'd) \<Rightarrow> bool" where
  "usbnet_probe_law probe \<longleftrightarrow>
     (\<forall>bnd unbnd d. case bnd d of
        (Inl e, d') \<Rightarrow> probe bnd unbnd d = (Inl e, d')
      | (Inr _, d') \<Rightarrow> probe bnd unbnd d = (Inr (), d') \<or> (\<exists>e. probe bnd unbnd d = (Inl e, unbnd d')))"

definition usbnet_disconnect_law :: "(('d \<Rightarrow> 'd) \<Rightarrow> 'd \<Rightarrow> 'd) \<Rightarrow> bool" where
  "usbnet_disconnect_law disc \<longleftrightarrow> (\<forall>unbnd d. disc unbnd d = unbnd d)"

subsection \<open>What a connection holds\<close>

text \<open>The subdrivers registered and not disconnected, the states allocated and not freed, the receive hooks set.\<close>

definition calls_held :: "usb_call \<Rightarrow> usb_call \<Rightarrow> wwan_dev \<Rightarrow> int" where
  "calls_held a b d = int (count_list (wd_calls d) a) - int (count_list (wd_calls d) b)"

definition wdm_held :: "wwan_dev \<Rightarrow> int" where
  "wdm_held = calls_held WdmRegister WdmDisconnect"

definition qmap_held :: "wwan_dev \<Rightarrow> int" where
  "qmap_held = calls_held AllocQmap FreeQmap"

definition rx_held :: "wwan_dev \<Rightarrow> int" where
  "rx_held = calls_held RxHandlerRegister RxHandlerUnregister"

lemmas held_defs = wdm_held_def qmap_held_def rx_held_def calls_held_def

lemma wd_call_sel [simp]:
  "wd_calls (wd_call c d) = wd_calls d @ [c]"
  "wd_control (wd_call c d) = wd_control d" "wd_data (wd_call c d) = wd_data d"
  "wd_subdriver (wd_call c d) = wd_subdriver d" "wd_unused (wd_call c d) = wd_unused d"
  "wd_info (wd_call c d) = wd_info d" "wd_net (wd_call c d) = wd_net d"
  "wd_pmcount (wd_call c d) = wd_pmcount d" "wd_wakeup (wd_call c d) = wd_wakeup d"
  by (simp_all add: wd_call_def)

text \<open>A device as usbnet allocates it: no state of the driver, nothing called yet.\<close>

definition fresh_dev :: "wwan_dev \<Rightarrow> bool" where
  "fresh_dev d \<longleftrightarrow> wd_unused d = None \<and> \<not> wd_subdriver d \<and> wd_calls d = []"

text \<open>The subdriver is registered exactly when the call succeeds.\<close>

lemma register_subdriver_result:
  assumes "qmi_wwan_register_subdriver env d = (r, d')" and "\<not> wd_subdriver d"
  shows "wd_subdriver d' \<longleftrightarrow> r = Inr ()"
    and "wd_calls d' = (if r = Inr () then wd_calls d @ [WdmRegister] else wd_calls d)"
    and "wd_unused d' = wd_unused d" and "wd_control d' = wd_control d" and "wd_data d' = wd_data d"
    and "wd_info d' = wd_info d" and "wd_net d' = wd_net d"
proof -
  obtain x st where ep: "ue_endpoints env = (x, st)"
    by fastforce
  have sub: "wd_call WdmRegister x = x\<lparr>wd_calls := wd_calls x @ [WdmRegister]\<rparr>" for x
    by (simp add: wd_call_def)
  note * = assms(1) [symmetric, unfolded qmi_wwan_register_subdriver_def ep Let_def prod.case]
  show "wd_subdriver d' \<longleftrightarrow> r = Inr ()"
    and "wd_calls d' = (if r = Inr () then wd_calls d @ [WdmRegister] else wd_calls d)"
    and "wd_unused d' = wd_unused d" and "wd_control d' = wd_control d" and "wd_data d' = wd_data d"
    and "wd_info d' = wd_info d" and "wd_net d' = wd_net d"
    using * assms(2) by (cases x; cases "ue_wdm env"; simp add: sub split: if_splits)+
qed

text \<open>The calls of a bind after the registration.\<close>

definition bind_calls :: "driver_info \<Rightarrow> usb_call list" where
  "bind_calls info = (if FLAG_NOARP \<in> set (di_flags info) then [ControlLineState True] else []) @
     [ClearHaltIn, ClearHaltOut]"

lemma bind_dev_cases:
  assumes "qmi_wwan_register_subdriver env (d\<lparr>wd_control := Some intf, wd_data := Some intf\<rparr>) = (s, d1)"
    and "\<not> wd_subdriver d" and "fst (qmi_wwan_bind_dev env mode bm intf d) = (r, d')"
  shows "r = (case s of Inl e \<Rightarrow> Inl e | Inr _ \<Rightarrow> if ue_kzalloc env then Inr () else Inl ENODEV)"
    and "wd_calls d' = wd_calls d1 @ bind_calls (wd_info d) @ (if r = Inr () then [AllocQmap] else [])"
    and "wd_subdriver d' = wd_subdriver d1" and "wd_control d' = Some intf" and "wd_data d' = Some intf"
    and "wd_unused d' = (if r = Inr () then Some (fst (qmi_wwan_bind (ue_random env) mode (di_data (wd_info d))
           (ue_idProduct env) (ue_superspeed env) (FLAG_NOARP \<in> set (di_flags (wd_info d))) bm (wd_net d)))
         else wd_unused d)"
proof -
  note reg = register_subdriver_result [OF assms(1)]
  have sel: "wd_info d1 = wd_info d" "wd_control d1 = Some intf" "wd_data d1 = Some intf" "wd_unused d1 = wd_unused d"
    using reg assms(2) by simp_all
  note * = assms(3) [symmetric, unfolded qmi_wwan_bind_dev_def assms(1) Let_def prod.case sel]
  show "r = (case s of Inl e \<Rightarrow> Inl e | Inr _ \<Rightarrow> if ue_kzalloc env then Inr () else Inl ENODEV)"
    and "wd_calls d' = wd_calls d1 @ bind_calls (wd_info d) @ (if r = Inr () then [AllocQmap] else [])"
    and "wd_subdriver d' = wd_subdriver d1" and "wd_control d' = Some intf" and "wd_data d' = Some intf"
    and "wd_unused d' = (if r = Inr () then Some (fst (qmi_wwan_bind (ue_random env) mode (di_data (wd_info d))
           (ue_idProduct env) (ue_superspeed env) (FLAG_NOARP \<in> set (di_flags (wd_info d))) bm (wd_net d)))
         else wd_unused d)"
    using * sel by (cases s; cases "ue_kzalloc env"; simp add: bind_calls_def split: prod.splits)+
qed

text \<open>The interface has the endpoints of the control channel, and the channel can be registered.\<close>

definition control_ok :: "usb_env \<Rightarrow> bool" where
  "control_ok env \<longleftrightarrow> ue_endpoints env = (Inr (), True) \<and> ue_wdm env = Inr ()"

lemma register_subdriver_ok:
  assumes "qmi_wwan_register_subdriver env d = (r, d')" and "wd_control d = wd_data d"
  shows "r = Inr () \<longleftrightarrow> control_ok env"
proof -
  obtain x st where ep: "ue_endpoints env = (x, st)"
    by fastforce
  show ?thesis
    using assms(1) [symmetric, unfolded qmi_wwan_register_subdriver_def ep Let_def prod.case] assms(2) ep
    by (cases x; cases "ue_wdm env"; simp add: control_ok_def split: if_splits)
qed

lemma bind_dev_result:
  assumes "fresh_dev d" and "fst (qmi_wwan_bind_dev env mode bm intf d) = (r, d')"
  shows "r = Inr () \<longleftrightarrow> control_ok env \<and> ue_kzalloc env"
    and "wdm_held d' = (if control_ok env then 1 else 0)"
    and "qmap_held d' = (if control_ok env \<and> ue_kzalloc env then 1 else 0)"
    and "rx_held d' = 0" and "wd_subdriver d' \<longleftrightarrow> control_ok env"
    and "wd_control d' = Some intf" and "wd_data d' = Some intf"
proof -
  obtain s d1 where s: "qmi_wwan_register_subdriver env (d\<lparr>wd_control := Some intf, wd_data := Some intf\<rparr>) = (s, d1)"
    by fastforce
  have d: "\<not> wd_subdriver d" "wd_calls d = []"
    using assms(1) by (simp_all add: fresh_dev_def)
  note b = bind_dev_cases [OF s d(1) assms(2)]
  have s_ok: "s = Inr () \<longleftrightarrow> control_ok env"
    using register_subdriver_ok [OF s] by simp
  have g: "wd_subdriver d1 \<longleftrightarrow> control_ok env" "wd_calls d1 = (if control_ok env then [WdmRegister] else [])"
    using register_subdriver_result(1,2) [OF s] d s_ok by simp_all
  show r: "r = Inr () \<longleftrightarrow> control_ok env \<and> ue_kzalloc env"
    using b(1) s_ok by (cases s) auto
  show "wdm_held d' = (if control_ok env then 1 else 0)"
    and "qmap_held d' = (if control_ok env \<and> ue_kzalloc env then 1 else 0)" and "rx_held d' = 0"
    by (simp_all add: held_defs b(2) g(2) r bind_calls_def)
  show "wd_subdriver d' \<longleftrightarrow> control_ok env" "wd_control d' = Some intf" "wd_data d' = Some intf"
    by (simp_all add: b(3-5) g(1))
qed

text \<open>Unbinding an interface that is both control and data interface.\<close>

lemma unbind_calls:
  assumes "wd_control d = Some intf" and "wd_data d = Some intf"
  shows "wd_calls (qmi_wwan_unbind env intf d) = wd_calls d @ (if ue_configured env then [ControlLineState False] else []) @
           (if wd_subdriver d then [WdmDisconnect] else [])"
    and "wd_unused (qmi_wwan_unbind env intf d) = wd_unused d"
    and "\<not> wd_subdriver (qmi_wwan_unbind env intf d)"
  using assms by (cases "ue_configured env"; cases "wd_subdriver d"; simp add: qmi_wwan_unbind_def)+

lemma unbind_result:
  assumes "wd_control d = Some intf" and "wd_data d = Some intf"
  shows "wdm_held (qmi_wwan_unbind env intf d) = wdm_held d - (if wd_subdriver d then 1 else 0)"
    and "qmap_held (qmi_wwan_unbind env intf d) = qmap_held d"
    and "rx_held (qmi_wwan_unbind env intf d) = rx_held d"
  by (simp_all add: held_defs unbind_calls(1) [OF assms])

text \<open>What \<^verbatim>\<open>qmi_wwan_probe\<close> leaves, for every usbnet that calls the callbacks as documented.\<close>

lemma qmi_wwan_probe_cases:
  assumes law: "usbnet_probe_law usbnet_probe" and fresh: "fresh_dev d" and cls: "ue_class env = 0xFF"
    and run: "qmi_wwan_probe usbnet_probe env mode bm intf ident d = (r, d')"
    and b: "fst (qmi_wwan_bind_dev env mode bm intf (d\<lparr>wd_info := id_info ident\<rparr>)) = (rb, d1)"
  shows "(r = Inr () \<and> rb = Inr () \<and> d' = d1) \<or> (r \<noteq> Inr () \<and> rb \<noteq> Inr () \<and> d' = d1) \<or>
         (r \<noteq> Inr () \<and> rb = Inr () \<and> d' = qmi_wwan_unbind env intf d1)"
  using run cls b
    law [unfolded usbnet_probe_law_def, rule_format, of "\<lambda>x. fst (qmi_wwan_bind_dev env mode bm intf x)"
      "qmi_wwan_unbind env intf" "d\<lparr>wd_info := id_info ident\<rparr>"]
  by (cases rb) (auto simp: qmi_wwan_probe_def)

text \<open>
  (C38) A probe that fails. For every usbnet that calls the callbacks as documented, no receive hook is left. The
  control channel stays registered exactly when the allocation of the driver's state failed after the
  registration, and the state is never freed when usbnet gives up on a bound device.
\<close>

theorem usb_probe_failure:
  assumes law: "usbnet_probe_law usbnet_probe" and fresh: "fresh_dev d"
    and run: "qmap_usb_probe usbnet_probe env errs nows mode bm intf ident d = (Inl e, d')"
  shows "rx_held d' = 0 \<and> wdm_held d' = (if ue_class env = 0xFF \<and> control_ok env \<and> \<not> ue_kzalloc env then 1 else 0) \<and>
    qmap_held d' = (if ue_class env = 0xFF \<and> control_ok env \<and> ue_kzalloc env then 1 else 0)"
proof -
  obtain rb d1 where b: "fst (qmi_wwan_bind_dev env mode bm intf (d\<lparr>wd_info := id_info ident\<rparr>)) = (rb, d1)"
    by fastforce
  have "fresh_dev (d\<lparr>wd_info := id_info ident\<rparr>)"
    using fresh by (simp add: fresh_dev_def)
  note br = bind_dev_result [OF this b]
  have p: "qmi_wwan_probe usbnet_probe env mode bm intf ident d = (Inl e, d')"
    using run by (auto simp: qmap_usb_probe_def Let_def split: prod.splits sum.splits option.splits)
  show ?thesis
  proof (cases "ue_class env = 0xFF")
    case False
    then show ?thesis
      using p fresh by (auto simp: qmi_wwan_probe_def fresh_dev_def held_defs)
  next
    case True
    then show ?thesis
      using qmi_wwan_probe_cases [OF law fresh True p b] br unbind_result [OF br(6,7), of env] by auto
  qed
qed

subsection \<open>A whole connection\<close>

text \<open>What no operation changes: the mode, the use of channel devices; and no operation adds a channel's device.\<close>

definition is_channel :: "sQmiWwanQmap \<Rightarrow> nat \<Rightarrow> bool" where
  "is_channel q i \<longleftrightarrow> (case slot_at q i of QmapNet _ \<Rightarrow> True | _ \<Rightarrow> False)"

definition no_new_channel :: "sQmiWwanQmap \<Rightarrow> sQmiWwanQmap \<Rightarrow> bool" where
  "no_new_channel q q' \<longleftrightarrow> q_qmap_mode q' = q_qmap_mode q \<and> q_use_rmnet_usb q' = q_use_rmnet_usb q \<and>
     length (q_nets q') = length (q_nets q) \<and> (\<forall>i < length (q_nets q). is_channel q' i \<longrightarrow> is_channel q i)"

lemma no_new_other:
  assumes "q_nets q' = q_nets q" and "q_qmap_mode q' = q_qmap_mode q" and "q_use_rmnet_usb q' = q_use_rmnet_usb q"
  shows "no_new_channel q q'"
  using assms by (simp add: no_new_channel_def is_channel_def slot_at_def)

lemma no_new_trans: "no_new_channel q q' \<Longrightarrow> no_new_channel q' q'' \<Longrightarrow> no_new_channel q q''"
  by (simp add: no_new_channel_def)

lemma no_new_put:
  "slot_at q i = QmapNet p \<Longrightarrow> no_new_channel q (slot_put i (QmapNet p') q)"
  by (simp add: no_new_channel_def is_channel_def)

lemma no_new_map: "no_new_channel q (map_channels f q)"
  by (simp add: no_new_channel_def is_channel_def map_channels_slot split: qmap_slot.splits)

lemma no_new_wake: "no_new_channel q (qmap_wake_queue q)"
proof -
  have "no_new_channel q ((map_channels f q)\<lparr>q_real := r\<rparr>)" for f r
    by (rule no_new_trans [OF no_new_map no_new_other]) simp_all
  then show ?thesis
    by (simp add: qmap_wake_queue_def Let_def no_new_map no_new_other)
qed

lemma no_new_link_apply: "no_new_channel q (link_apply i (q\<lparr>q_link_state := l\<rparr>))"
proof -
  have "no_new_channel (q\<lparr>q_link_state := l\<rparr>) (link_apply i (q\<lparr>q_link_state := l\<rparr>))"
    by (simp add: no_new_channel_def is_channel_def link_apply_slot split: qmap_slot.splits)
  then show ?thesis
    by (rule no_new_trans [rotated]) (rule no_new_other, simp_all)
qed

lemma no_new_link_store: "no_new_channel q (link_state_store v q)"
  by (auto simp: link_state_store_def Let_def intro: no_new_link_apply no_new_other)

lemma no_new_ioctl: "no_new_channel q (snd (qmap_ndo_do_ioctl cmd arg ok sz q))"
  by (auto simp: qmap_ndo_do_ioctl_def qma_setting_store_def Let_def split: option.splits ioctl_arg.splits
      intro: no_new_other no_new_link_store)

lemma no_new_disconnect:
  assumes "length (q_nets q) = 4" and "q_qmap_mode q \<le> QUECTEL_WWAN_QMAP"
  shows "no_new_channel q (qmap_qmi_wwan_disconnect q)"
proof -
  have mode: "unat (q_qmap_mode q) \<le> 4"
    using assms(2) by (simp add: QUECTEL_WWAN_QMAP_def word_le_nat_alt)
  have at: "slot_at (q\<lparr>q_link_state := 0\<rparr>) k = slot_at q k" for k
    by (simp add: slot_at_def)
  note loop = unregister_loop [where q = "q\<lparr>q_link_state := 0\<rparr>" and n = "unat (q_qmap_mode q)", OF mode]
  show ?thesis
    using loop [of 0] loop assms(1)
    by (auto simp: no_new_channel_def is_channel_def qmap_qmi_wwan_disconnect_def Let_def unregister_slot at
        split: qmap_slot.splits if_splits)
qed

lemma no_new_step:
  assumes "qmap_step q q'" and "qmap_wf q"
  shows "no_new_channel q q'"
  using assms
proof (induction rule: qmap_step.induct)
  case (step_open i q p r p' real)
  have "slot_at (q\<lparr>q_real := real\<rparr>) i = QmapNet p"
    using step_open(2) by (simp add: slot_at_def)
  then show ?case
    using no_new_trans [OF no_new_other no_new_put] by simp
next
  case (step_xmit q f)
  have "no_new_channel q (q\<lparr>q_real := r\<rparr>)" for r
    by (rule no_new_other) simp_all
  then show ?case
    using no_new_trans [OF _ no_new_map] by (auto simp: qmi_wwan_start_xmit_def Let_def)
next
  case (step_disconnect q)
  then show ?case
    by (intro no_new_disconnect) (simp_all add: qmap_wf_def)
next
  case (step_resume q un sub)
  then show ?case
    by (auto simp: qmi_wwan_resume_def Let_def split: option.splits sum.splits intro: no_new_wake no_new_other)
next
  case (step_usb_open q f)
  then show ?case
    by (auto simp: qmi_wwan_open_def Let_def split: prod.splits sum.splits intro: no_new_other)
qed (auto simp: bridge_mode_store_def bridge_ipv4_store_def no_new_link_store no_new_ioctl no_new_wake
      split: qmap_slot.splits intro: no_new_put no_new_other)

lemma no_new_steps:
  assumes "qmap_step\<^sup>*\<^sup>* q q'" and "qmap_wf q"
  shows "no_new_channel q q' \<and> qmap_wf q'"
  using assms
proof (induction rule: rtranclp_induct)
  case base
  then show ?case
    by (simp add: no_new_other)
next
  case (step y z)
  then have "no_new_channel y z" "no_new_channel q y" "qmap_wf y"
    using no_new_step by blast+
  then show ?case
    using no_new_trans by (auto simp: no_new_channel_def qmap_wf_def)
qed

text \<open>The state that a successful probe leaves: the one binding made, with the devices of the channels.\<close>

lemma usb_probe_success:
  assumes law: "usbnet_probe_law usbnet_probe" and fresh: "fresh_dev d"
    and run: "qmap_usb_probe usbnet_probe env errs nows mode bm intf ident d = (Inr (), d')"
  obtains q where "wd_unused d' = Some q" and "qmap_wf q" and "wd_subdriver d'" and "wd_control d' = Some intf"
    and "wd_data d' = Some intf" and "wdm_held d' = 1" and "qmap_held d' = 1"
    and "rx_held d' = (if q_use_rmnet_usb q then 1 else 0)"
    and "\<And>i. i < 4 \<Longrightarrow> is_channel q i \<Longrightarrow> i < unat (q_qmap_mode q) \<and> q_use_rmnet_usb q"
proof -
  let ?d = "d\<lparr>wd_info := id_info ident\<rparr>"
  obtain rb d1 where b: "fst (qmi_wwan_bind_dev env mode bm intf ?d) = (rb, d1)"
    by fastforce
  obtain r d2 where p: "qmi_wwan_probe usbnet_probe env mode bm intf ident d = (r, d2)"
    by fastforce
  have r: "r = Inr ()"
    using run p by (cases r) (simp_all add: qmap_usb_probe_def)
  then have cls: "ue_class env = 0xFF"
    using p by (auto simp: qmi_wwan_probe_def split: if_splits)
  have same: "rb = Inr ()" "d2 = d1"
    using qmi_wwan_probe_cases [OF law fresh cls p b] r by auto
  have f: "fresh_dev ?d"
    using fresh by (simp add: fresh_dev_def)
  note br = bind_dev_result [OF f b]
  have ok: "control_ok env" "ue_kzalloc env"
    using br(1) same(1) by simp_all
  obtain s d0 where reg: "qmi_wwan_register_subdriver env (?d\<lparr>wd_control := Some intf, wd_data := Some intf\<rparr>) = (s, d0)"
    by fastforce
  obtain q0 m u where bq: "qmi_wwan_bind (ue_random env) mode (di_data (id_info ident)) (ue_idProduct env)
      (ue_superspeed env) (FLAG_NOARP \<in> set (di_flags (id_info ident))) bm (wd_net d) = (q0, m, u)"
    using prod_cases3 by blast
  have q0: "wd_unused d1 = Some q0"
    using bind_dev_cases(6) [OF reg _ b] f same(1) bq by (simp add: fresh_dev_def)
  let ?q = "qmap_qmi_wwan_probe errs nows q0"
  have st: "qmap_wf q0" "\<And>i. i < 4 \<Longrightarrow> slot_at q0 i = NoNet" "1 < q_qmap_mode q0 \<Longrightarrow> q_use_rmnet_usb q0"
    using bind_state(1-3) [OF bq] by blast+
  note pr = probe_slots [OF st, of errs nows]
  have d': "d' = (if q_use_rmnet_usb ?q then wd_call RxHandlerRegister (d1\<lparr>wd_unused := Some ?q\<rparr>)
      else d1\<lparr>wd_unused := Some ?q\<rparr>)"
    using run p r same(2) q0 by (simp add: qmap_usb_probe_def Let_def)
  show ?thesis
  proof (rule that [of ?q])
    show "qmap_wf ?q"
      by (rule pr(6)) simp_all
    show "i < unat (q_qmap_mode ?q) \<and> q_use_rmnet_usb ?q" if "i < 4" "is_channel ?q i" for i
      using that pr(1,2,5) by (auto simp: is_channel_def split: if_splits)
    show "wdm_held d' = 1" "qmap_held d' = 1" "rx_held d' = (if q_use_rmnet_usb ?q then 1 else 0)"
      using br(2-4) ok by (auto simp: d' held_defs)
  qed (use br(5-7) ok in \<open>simp_all add: d'\<close>)
qed

text \<open>
  Disconnecting empties every channel of a well-formed device.
\<close>

lemma disconnect_no_channel:
  assumes "qmap_wf q" and "\<And>i. i < 4 \<Longrightarrow> is_channel q i \<Longrightarrow> i < unat (q_qmap_mode q) \<and> q_use_rmnet_usb q" and "i < 4"
  shows "\<not> is_channel (qmap_qmi_wwan_disconnect q) i"
proof -
  have len: "length (q_nets q) = 4" and mode: "unat (q_qmap_mode q) \<le> 4"
    using assms(1) by (auto simp: qmap_wf_def QUECTEL_WWAN_QMAP_def word_le_nat_alt)
  have at: "slot_at (q\<lparr>q_link_state := 0\<rparr>) k = slot_at q k" for k
    by (simp add: slot_at_def)
  note loop = unregister_loop [where q = "q\<lparr>q_link_state := 0\<rparr>" and n = "unat (q_qmap_mode q)" and j = i,
      OF mode _ assms(3)]
  have one: "0 < i \<Longrightarrow> i < unat (q_qmap_mode q) \<Longrightarrow> 1 < q_qmap_mode q"
    by (simp add: word_less_nat_alt)
  show ?thesis
    using assms(2) [OF assms(3)] loop len assms(3) one
    by (cases "slot_at q i")
      (auto simp: qmap_qmi_wwan_disconnect_def Let_def unregister_slot at is_channel_def split: qmap_slot.splits)
qed

text \<open>
  (C24) A whole connection. Whatever happens to the device between a successful probe and the disconnection, with
  any usbnet that calls the callbacks as documented: afterwards the control channel is disconnected, the receive
  hook is gone, the driver's state was freed exactly once, as the last call, and no device of a channel is left.
\<close>

theorem usb_connection_balance:
  assumes law: "usbnet_probe_law usbnet_probe" and dlaw: "usbnet_disconnect_law usbnet_disconnect"
    and fresh: "fresh_dev d"
    and run: "qmap_usb_probe usbnet_probe env errs nows mode bm intf ident d = (Inr (), d1)"
    and steps: "qmap_step\<^sup>*\<^sup>* (the (wd_unused d1)) q2"
    and dis: "qmap_usb_disconnect usbnet_disconnect env' intf (Some (d1\<lparr>wd_unused := Some q2\<rparr>)) = Some d3"
  shows "wdm_held d3 = 0 \<and> rx_held d3 = 0 \<and> qmap_held d3 = 0 \<and> last (wd_calls d3) = FreeQmap \<and>
    (\<forall>i < 4. \<not> is_channel (the (wd_unused d3)) i)"
proof -
  obtain q1 where u: "wd_unused d1 = Some q1" and wf: "qmap_wf q1"
    and d1: "wd_subdriver d1" "wd_control d1 = Some intf" "wd_data d1 = Some intf" "wdm_held d1 = 1" "qmap_held d1 = 1"
      "rx_held d1 = (if q_use_rmnet_usb q1 then 1 else 0)"
    and ch: "\<And>i. i < 4 \<Longrightarrow> is_channel q1 i \<Longrightarrow> i < unat (q_qmap_mode q1) \<and> q_use_rmnet_usb q1"
    using usb_probe_success [OF law fresh run] by blast
  have st: "no_new_channel q1 q2" "qmap_wf q2"
    using no_new_steps [of q1 q2] steps u wf by simp_all
  let ?q = "qmap_qmi_wwan_disconnect q2"
  have nn: "no_new_channel q2 ?q"
    using st(2) by (intro no_new_disconnect) (simp_all add: qmap_wf_def)
  have use: "q_use_rmnet_usb ?q = q_use_rmnet_usb q1"
    using st(1) nn by (simp add: no_new_channel_def)
  let ?d = "wd_call KillTxq (if q_use_rmnet_usb ?q then wd_call RxHandlerUnregister (d1\<lparr>wd_unused := Some ?q\<rparr>)
      else d1\<lparr>wd_unused := Some ?q\<rparr>)"
  have d3: "d3 = wd_call FreeQmap (qmi_wwan_unbind env' intf ?d)"
    using dis dlaw by (simp add: qmap_usb_disconnect_def Let_def usbnet_disconnect_law_def)
  have sel: "wd_control ?d = Some intf" "wd_data ?d = Some intf" "wd_subdriver ?d" "wd_unused ?d = Some ?q"
    using d1 by simp_all
  note ub = unbind_result [OF sel(1,2), of env'] unbind_calls(2) [OF sel(1,2), of env']
  have "wdm_held ?d = 1" "qmap_held ?d = 1" "rx_held ?d = 0"
    using d1(4-6) use by (auto simp: held_defs)
  then have "wdm_held (qmi_wwan_unbind env' intf ?d) = 0" "qmap_held (qmi_wwan_unbind env' intf ?d) = 1"
    "rx_held (qmi_wwan_unbind env' intf ?d) = 0"
    using ub sel(3) by simp_all
  then have "wdm_held d3 = 0" "rx_held d3 = 0" "qmap_held d3 = 0"
    by (simp_all add: d3 held_defs)
  moreover have "last (wd_calls d3) = FreeQmap"
    by (simp add: d3)
  moreover have "\<not> is_channel (the (wd_unused d3)) i" if "i < 4" for i
    using disconnect_no_channel [OF st(2) _ that] ch st(1) wf ub(4) sel(4)
    by (simp add: d3 no_new_channel_def qmap_wf_def)
  ultimately show ?thesis
    by blast
qed

subsection \<open>Remote wakeup\<close>

text \<open>A sequence of requests of usbnet and of the control channel; each user asks once and gives up once.\<close>

definition wakeup_run :: "bool list \<Rightarrow> int \<times> bool \<Rightarrow> int \<times> bool" where
  "wakeup_run ons st = foldl (\<lambda>s on. snd (qmi_wwan_manage_power on s)) st ons"

text \<open>
  (C40) The flag \<^verbatim>\<open>needs_remote_wakeup\<close> after any sequence of requests in which no prefix has given up more often than
  asked, from a registered subdriver on: it is set exactly while a user is left, and the counter is their number.
\<close>

theorem remote_wakeup_counts_users:
  assumes "\<And>n. n \<le> length ons \<Longrightarrow> count_list (take n ons) False \<le> count_list (take n ons) True"
  shows "wakeup_run ons (0, False) =
    (int (count_list ons True) - int (count_list ons False), count_list ons False < count_list ons True)"
  using assms
proof (induction ons rule: rev_induct)
  case (snoc on ons)
  have IH: "wakeup_run ons (0, False) =
      (int (count_list ons True) - int (count_list ons False), count_list ons False < count_list ons True)"
  proof (rule snoc.IH)
    show "count_list (take n ons) False \<le> count_list (take n ons) True" if "n \<le> length ons" for n
      using snoc.prems [of n] that by simp
  qed
  have le: "count_list (ons @ [on]) False \<le> count_list (ons @ [on]) True"
    using snoc.prems [of "length (ons @ [on])"] by simp
  have "wakeup_run (ons @ [on]) (0, False) = snd (qmi_wwan_manage_power on (wakeup_run ons (0, False)))"
    by (simp add: wakeup_run_def)
  also have "\<dots> = (int (count_list (ons @ [on]) True) - int (count_list (ons @ [on]) False),
      count_list (ons @ [on]) False < count_list (ons @ [on]) True)"
    unfolding IH using le snoc.prems [of "length ons"] by (auto simp: qmi_wwan_manage_power_def Let_def)
  finally show ?case .
qed (simp add: wakeup_run_def)

subsection \<open>The products\<close>

definition id_key :: "usb_device_id \<Rightarrow> u16 \<times> u16 \<times> u8" where
  "id_key ident = (id_vendor ident, id_product ident, id_number ident)"

lemma raw_ip_data:
  "di_data qmi_wwan_raw_ip_info_mdm9x07 = 0x504" "di_data qmi_wwan_raw_ip_info_mdm9x40 = 0x510"
  "di_data qmi_wwan_raw_ip_info_sdx55 = 0x91F"
  by (simp_all add: qmi_wwan_raw_ip_info_mdm9x07_def qmi_wwan_raw_ip_info_mdm9x40_def qmi_wwan_raw_ip_info_sdx55_def
      qmi_wwan_raw_ip_info_def)

lemma products_distinct: "distinct (map id_key products)"
  by (simp add: products_def id_key_def QMI_FIXED_INTF_def QMI_FIXED_RAWIP_INTF_def)

text \<open>The products with the description of a 5G chip that \<^verbatim>\<open>qmi_wwan_bind\<close> does not list as LTE-A products.\<close>

definition unlisted_5g :: "u16 list" where
  "unlisted_5g = [0x90D5, 0x90DB, 0x4D22, 0x1421, 0x1403, 0x9025, 0x9091, 0x1070]"

lemma info_distinct:
  "qmi_wwan_info \<noteq> qmi_wwan_raw_ip_info_sdx55" "qmi_wwan_raw_ip_info_mdm9x07 \<noteq> qmi_wwan_raw_ip_info_sdx55"
  "qmi_wwan_raw_ip_info_mdm9x40 \<noteq> qmi_wwan_raw_ip_info_sdx55"
  by (auto dest!: arg_cong [where f = di_data] simp: raw_ip_data qmi_wwan_info_def)

lemma products_5g:
  "map id_product (filter (\<lambda>i. id_driver_info i = Some qmi_wwan_raw_ip_info_sdx55) products) =
     [0x0800, 0x0801, 0x0122, 0x013D] @ unlisted_5g"
  by (simp add: products_def unlisted_5g_def QMI_FIXED_INTF_def QMI_FIXED_RAWIP_INTF_def info_distinct)

text \<open>
  Binding a product of the table with the default module parameter \<^verbatim>\<open>qmap_mode\<close> 0 on a bus slower than
  SuperSpeed: QMAP is forced on for the listed products only, so that the other 5G modules, whose table entry asks
  for QMAP version 5 with aggregates of 31 KB, come up without QMAP and with receive buffers of one packet. The
  test of the size, meant to catch them, compares kilobytes with 4096.
\<close>

theorem unlisted_5g_without_qmap:
  assumes "ident \<in> set products" and "id_driver_info ident = Some qmi_wwan_raw_ip_info_sdx55"
    and "qmi_wwan_bind rnd 0 (di_data (id_info ident)) (ucast (id_product ident)) False True bm net = (q, mode', urb)"
  shows "id_product ident \<in> set unlisted_5g \<longleftrightarrow> q_qmap_mode q = 0"
    and "id_product ident \<in> set unlisted_5g \<Longrightarrow> urb = 1520"
    and "id_product ident \<notin> set unlisted_5g \<Longrightarrow> q_qmap_version q = 9 \<and> urb = 31 * 1024"
proof -
  let ?b = "qmi_wwan_bind rnd 0 0x91F (ucast (id_product ident)) False True bm net"
  have data: "di_data (id_info ident) = 0x91F"
    using assms(2) by (simp add: id_info_def raw_ip_data)
  have "id_product ident \<in> set (map id_product (filter (\<lambda>i. id_driver_info i = Some qmi_wwan_raw_ip_info_sdx55) products))"
    using assms(1,2) by auto
  then have "id_product ident \<in> set ([0x0800, 0x0801, 0x0122, 0x013D] @ unlisted_5g)"
    unfolding products_5g .
  then have lte: "lte_a_product (ucast (id_product ident)) \<longleftrightarrow> id_product ident \<notin> set unlisted_5g"
    unfolding unlisted_5g_def append.simps set_simps insert_iff empty_iff
    by (elim disjE FalseE) (simp_all add: lte_a_product_def)
  have r: "q = fst ?b" "urb = snd (snd ?b)"
    using assms(3) by (simp_all add: data)
  have "q_qmap_mode q = (if id_product ident \<in> set unlisted_5g then 0 else 1) \<and>
      urb = (if id_product ident \<in> set unlisted_5g then 1520 else 31 * 1024) \<and>
      (id_product ident \<in> set unlisted_5g \<or> q_qmap_version q = 9)"
    unfolding r qmi_wwan_bind_def lte Let_def
    by (cases "id_product ident \<in> set unlisted_5g") (simp_all add: QUECTEL_WWAN_QMAP_def bind_alloc_def)
  then show "id_product ident \<in> set unlisted_5g \<longleftrightarrow> q_qmap_mode q = 0"
    and "id_product ident \<in> set unlisted_5g \<Longrightarrow> urb = 1520"
    and "id_product ident \<notin> set unlisted_5g \<Longrightarrow> q_qmap_version q = 9 \<and> urb = 31 * 1024"
    by auto
qed

end
