(* ===== verification/Net_Stats.thy ===== *)
theory Net_Stats
  imports Net_Dev
begin

text \<open>
  The per-processor packet counters of both drivers and the functions that add them up for the kernel
  (\<^verbatim>\<open>qmi_wwan_q.c\<close>, \<^verbatim>\<open>mhi_netdev_quectel.c\<close>). The device models keep one counter per device
  (\<open>netstats\<close>); this theory shows that what the kernel is told is that counter, wherever the packets were
  handled.

  A counter block carries the sequence number of \<^verbatim>\<open>struct u64_stats_sync\<close>, as kernels for 32-bit processors keep
  it: a reader starts over while the number is odd or when it has changed.
\<close>

subsection \<open>Counters of one processor\<close>

text \<open>\<open>cs_sections\<close> counts the sections begun and not ended.\<close>

record pcpu_sw_netstats =
  cs_rx_packets :: u64
  cs_rx_bytes :: u64
  cs_tx_packets :: u64
  cs_tx_bytes :: u64
  cs_seq :: u32
  cs_sections :: int

definition u64_stats_update_begin :: "pcpu_sw_netstats \<Rightarrow> pcpu_sw_netstats" where
  "u64_stats_update_begin s = s\<lparr>cs_seq := cs_seq s + 1, cs_sections := cs_sections s + 1\<rparr>"

definition u64_stats_update_end :: "pcpu_sw_netstats \<Rightarrow> pcpu_sw_netstats" where
  "u64_stats_update_end s = s\<lparr>cs_seq := cs_seq s + 1, cs_sections := cs_sections s - 1\<rparr>"

definition cs_add_rx :: "u32 \<Rightarrow> u32 \<Rightarrow> pcpu_sw_netstats \<Rightarrow> pcpu_sw_netstats" where
  "cs_add_rx packets bytes s =
     s\<lparr>cs_rx_packets := cs_rx_packets s + ucast packets, cs_rx_bytes := cs_rx_bytes s + ucast bytes\<rparr>"

definition cs_add_tx :: "u32 \<Rightarrow> u32 \<Rightarrow> pcpu_sw_netstats \<Rightarrow> pcpu_sw_netstats" where
  "cs_add_tx packets bytes s =
     s\<lparr>cs_tx_packets := cs_tx_packets s + ucast packets, cs_tx_bytes := cs_tx_bytes s + ucast bytes\<rparr>"

text \<open>A reader with no writer beside it: \<open>None\<close> when it would start over forever.\<close>

definition u64_stats_fetch :: "pcpu_sw_netstats \<Rightarrow> (u64 \<times> u64 \<times> u64 \<times> u64) option" where
  "u64_stats_fetch s =
     (if bit (cs_seq s) 0 then None else Some (cs_rx_packets s, cs_rx_bytes s, cs_tx_packets s, cs_tx_bytes s))"

subsection \<open>Updating\<close>

text \<open>
  \<open>cpu\<close> is the processor that runs. The USB driver and the channels of the PCIe driver:
\<close>

definition usb_vnd_update_rx_stats :: "nat \<Rightarrow> u32 \<Rightarrow> u32 \<Rightarrow> pcpu_sw_netstats list \<Rightarrow> pcpu_sw_netstats list" where
  "usb_vnd_update_rx_stats cpu packets bytes st =
     st[cpu := u64_stats_update_end (cs_add_rx packets bytes (u64_stats_update_begin (st ! cpu)))]"

definition usb_vnd_update_tx_stats :: "nat \<Rightarrow> u32 \<Rightarrow> u32 \<Rightarrow> pcpu_sw_netstats list \<Rightarrow> pcpu_sw_netstats list" where
  "usb_vnd_update_tx_stats cpu packets bytes st =
     st[cpu := u64_stats_update_end (cs_add_tx packets bytes (u64_stats_update_begin (st ! cpu)))]"

definition mhi_vnd_upate_rx_stats :: "nat \<Rightarrow> u32 \<Rightarrow> u32 \<Rightarrow> pcpu_sw_netstats list \<Rightarrow> pcpu_sw_netstats list" where
  "mhi_vnd_upate_rx_stats cpu packets bytes st =
     st[cpu := u64_stats_update_end (cs_add_rx packets bytes (u64_stats_update_begin (st ! cpu)))]"

definition mhi_vnd_upate_tx_stats :: "nat \<Rightarrow> u32 \<Rightarrow> u32 \<Rightarrow> pcpu_sw_netstats list \<Rightarrow> pcpu_sw_netstats list" where
  "mhi_vnd_upate_tx_stats cpu packets bytes st =
     st[cpu := u64_stats_update_end (cs_add_tx packets bytes (u64_stats_update_begin (st ! cpu)))]"

text \<open>The network device of the PCIe driver begins a second section where it should end the first.\<close>

definition mhi_netdev_cpu_rx_stats :: "nat \<Rightarrow> u32 \<Rightarrow> u32 \<Rightarrow> pcpu_sw_netstats list \<Rightarrow> pcpu_sw_netstats list" where
  "mhi_netdev_cpu_rx_stats cpu packets bytes st =
     st[cpu := u64_stats_update_begin (cs_add_rx packets bytes (u64_stats_update_begin (st ! cpu)))]"

definition mhi_netdev_cpu_tx_stats :: "nat \<Rightarrow> u32 \<Rightarrow> u32 \<Rightarrow> pcpu_sw_netstats list \<Rightarrow> pcpu_sw_netstats list" where
  "mhi_netdev_cpu_tx_stats cpu packets bytes st =
     st[cpu := u64_stats_update_begin (cs_add_tx packets bytes (u64_stats_update_begin (st ! cpu)))]"

subsection \<open>Adding up\<close>

text \<open>
  The loop over the processors, from the counters \<^verbatim>\<open>net->stats\<close>. With the NSS offload in use, the received
  packets of \<^verbatim>\<open>net->stats\<close> are not counted.
\<close>

definition add_cpu :: "netstats \<Rightarrow> u64 \<times> u64 \<times> u64 \<times> u64 \<Rightarrow> netstats" where
  "add_cpu stats v =
     (case v of (rxp, rxb, txp, txb) \<Rightarrow>
        stats\<lparr>st_rx_packets := st_rx_packets stats + rxp, st_rx_bytes := st_rx_bytes stats + rxb,
              st_tx_packets := st_tx_packets stats + txp, st_tx_bytes := st_tx_bytes stats + txb\<rparr>)"

fun add_cpus :: "netstats \<Rightarrow> pcpu_sw_netstats list \<Rightarrow> netstats option" where
  "add_cpus stats [] = Some stats"
| "add_cpus stats (s # st) =
     (case u64_stats_fetch s of None \<Rightarrow> None | Some v \<Rightarrow> add_cpus (add_cpu stats v) st)"

definition usb_vnd_get_stats64 :: "bool \<Rightarrow> netstats \<Rightarrow> pcpu_sw_netstats list \<Rightarrow> netstats option" where
  "usb_vnd_get_stats64 nss net st =
     add_cpus (if nss then net\<lparr>st_rx_packets := 0, st_rx_bytes := 0\<rparr> else net) st"

definition mhi_vnd_get_stats64 :: "bool \<Rightarrow> netstats \<Rightarrow> pcpu_sw_netstats list \<Rightarrow> netstats option" where
  "mhi_vnd_get_stats64 nss net st =
     add_cpus (if nss then net\<lparr>st_rx_packets := 0, st_rx_bytes := 0\<rparr> else net) st"

definition mhi_netdev_get_stats64 :: "netstats \<Rightarrow> pcpu_sw_netstats list \<Rightarrow> netstats option" where
  "mhi_netdev_get_stats64 net st = add_cpus net st"

text \<open>\<^verbatim>\<open>qmi_wwan_get_stats64\<close>: usbnet's own function when it has one.\<close>

definition qmi_wwan_get_stats64 :: "(netstats \<Rightarrow> netstats) option \<Rightarrow> netstats \<Rightarrow> netstats" where
  "qmi_wwan_get_stats64 usbnet_get net = (case usbnet_get of Some f \<Rightarrow> f net | None \<Rightarrow> net)"

subsection \<open>The contract of a set of counters\<close>

text \<open>
  What the device models rely on: counting on a processor is counting in the sum, and blocks stay readable.
\<close>

datatype stat_event = StatRx nat u32 u32 | StatTx nat u32 u32

fun stat_cpu :: "stat_event \<Rightarrow> nat" where
  "stat_cpu (StatRx cpu _ _) = cpu"
| "stat_cpu (StatTx cpu _ _) = cpu"

fun stat_spec :: "stat_event \<Rightarrow> netstats \<Rightarrow> netstats" where
  "stat_spec (StatRx _ p b) = rx_stats p b"
| "stat_spec (StatTx _ p b) = tx_stats p b"

fun stat_count ::
  "(nat \<Rightarrow> u32 \<Rightarrow> u32 \<Rightarrow> pcpu_sw_netstats list \<Rightarrow> pcpu_sw_netstats list) \<Rightarrow>
   (nat \<Rightarrow> u32 \<Rightarrow> u32 \<Rightarrow> pcpu_sw_netstats list \<Rightarrow> pcpu_sw_netstats list) \<Rightarrow>
   stat_event \<Rightarrow> pcpu_sw_netstats list \<Rightarrow> pcpu_sw_netstats list" where
  "stat_count upd_rx upd_tx (StatRx cpu p b) st = upd_rx cpu p b st"
| "stat_count upd_rx upd_tx (StatTx cpu p b) st = upd_tx cpu p b st"

locale pcpu_counters =
  fixes upd_rx upd_tx :: "nat \<Rightarrow> u32 \<Rightarrow> u32 \<Rightarrow> pcpu_sw_netstats list \<Rightarrow> pcpu_sw_netstats list"
    and total :: "pcpu_sw_netstats list \<Rightarrow> netstats option"
  assumes upd_length: "length (upd_rx cpu p b st) = length st" "length (upd_tx cpu p b st) = length st"
    and total_rx: "cpu < length st \<Longrightarrow> total (upd_rx cpu p b st) = map_option (rx_stats p b) (total st)"
    and total_tx: "cpu < length st \<Longrightarrow> total (upd_tx cpu p b st) = map_option (tx_stats p b) (total st)"
begin

lemma count_length [simp]: "length (stat_count upd_rx upd_tx e st) = length st"
  by (cases e) (simp_all add: upd_length)

lemma count_total:
  "stat_cpu e < length st \<Longrightarrow> total (stat_count upd_rx upd_tx e st) = map_option (stat_spec e) (total st)"
  by (cases e) (simp_all add: total_rx total_tx)

lemma counts_total:
  "(\<And>e. e \<in> set es \<Longrightarrow> stat_cpu e < length st) \<Longrightarrow> total st = Some t \<Longrightarrow>
     total (fold (stat_count upd_rx upd_tx) es st) = Some (fold stat_spec es t)"
  by (induction es arbitrary: st t) (simp_all add: count_total)

end

text \<open>An update adds to one block and leaves its sequence number as readable as it was.\<close>

lemma add_cpu_stats:
  "add_cpu (rx_stats p b t) v = rx_stats p b (add_cpu t v)" "add_cpu (tx_stats p b t) v = tx_stats p b (add_cpu t v)"
  "add_cpu t (rp + ucast p, rb + ucast b, tp, tb) = rx_stats p b (add_cpu t (rp, rb, tp, tb))"
  "add_cpu t (rp, rb, tp + ucast p, tb + ucast b) = tx_stats p b (add_cpu t (rp, rb, tp, tb))"
  by (cases v; simp add: add_cpu_def rx_stats_def tx_stats_def)+

lemma add_cpus_shift:
  "add_cpus (rx_stats p b t) st = map_option (rx_stats p b) (add_cpus t st)"
  "add_cpus (tx_stats p b t) st = map_option (tx_stats p b) (add_cpus t st)"
  by (induction st arbitrary: t) (simp_all add: add_cpu_stats split: option.splits)

lemma bit0_add_two: "bit (2 + x :: u32) 0 = bit x 0"
  by (simp add: bit_0)

definition adds_rx :: "(pcpu_sw_netstats \<Rightarrow> pcpu_sw_netstats) \<Rightarrow> u32 \<Rightarrow> u32 \<Rightarrow> bool" where
  "adds_rx f p b \<longleftrightarrow> (\<forall>s. u64_stats_fetch (f s) =
     map_option (\<lambda>(rp, rb, tp, tb). (rp + ucast p, rb + ucast b, tp, tb)) (u64_stats_fetch s))"

definition adds_tx :: "(pcpu_sw_netstats \<Rightarrow> pcpu_sw_netstats) \<Rightarrow> u32 \<Rightarrow> u32 \<Rightarrow> bool" where
  "adds_tx f p b \<longleftrightarrow> (\<forall>s. u64_stats_fetch (f s) =
     map_option (\<lambda>(rp, rb, tp, tb). (rp, rb, tp + ucast p, tb + ucast b)) (u64_stats_fetch s))"

lemma add_cpus_update_rx:
  assumes "adds_rx f p b"
  shows "cpu < length st \<Longrightarrow> add_cpus t (st[cpu := f (st ! cpu)]) = map_option (rx_stats p b) (add_cpus t st)"
proof (induction st arbitrary: t cpu)
  case (Cons s st)
  then show ?case
    using assms
    by (cases cpu) (auto simp: adds_rx_def add_cpu_stats add_cpus_shift split: option.splits)
qed simp

lemma add_cpus_update_tx:
  assumes "adds_tx f p b"
  shows "cpu < length st \<Longrightarrow> add_cpus t (st[cpu := f (st ! cpu)]) = map_option (tx_stats p b) (add_cpus t st)"
proof (induction st arbitrary: t cpu)
  case (Cons s st)
  then show ?case
    using assms
    by (cases cpu) (auto simp: adds_tx_def add_cpu_stats add_cpus_shift split: option.splits)
qed simp

lemmas section_defs = u64_stats_update_begin_def u64_stats_update_end_def cs_add_rx_def cs_add_tx_def
  u64_stats_fetch_def

lemma sections_add:
  "adds_rx (\<lambda>s. u64_stats_update_end (cs_add_rx p b (u64_stats_update_begin s))) p b"
  "adds_tx (\<lambda>s. u64_stats_update_end (cs_add_tx p b (u64_stats_update_begin s))) p b"
  "adds_rx (\<lambda>s. u64_stats_update_begin (cs_add_rx p b (u64_stats_update_begin s))) p b"
  "adds_tx (\<lambda>s. u64_stats_update_begin (cs_add_tx p b (u64_stats_update_begin s))) p b"
  by (simp_all add: adds_rx_def adds_tx_def section_defs bit0_add_two)

interpretation usb_counters: pcpu_counters usb_vnd_update_rx_stats usb_vnd_update_tx_stats "usb_vnd_get_stats64 nss net"
  by unfold_locales
    (simp_all add: usb_vnd_update_rx_stats_def usb_vnd_update_tx_stats_def usb_vnd_get_stats64_def
      add_cpus_update_rx [OF sections_add(1)] add_cpus_update_tx [OF sections_add(2)])

interpretation mhi_vnd_counters: pcpu_counters mhi_vnd_upate_rx_stats mhi_vnd_upate_tx_stats "mhi_vnd_get_stats64 nss net"
  by unfold_locales
    (simp_all add: mhi_vnd_upate_rx_stats_def mhi_vnd_upate_tx_stats_def mhi_vnd_get_stats64_def
      add_cpus_update_rx [OF sections_add(1)] add_cpus_update_tx [OF sections_add(2)])

interpretation mhi_counters: pcpu_counters mhi_netdev_cpu_rx_stats mhi_netdev_cpu_tx_stats "mhi_netdev_get_stats64 net"
  by unfold_locales
    (simp_all add: mhi_netdev_cpu_rx_stats_def mhi_netdev_cpu_tx_stats_def mhi_netdev_get_stats64_def
      add_cpus_update_rx [OF sections_add(3)] add_cpus_update_tx [OF sections_add(4)])

subsection \<open>What the kernel is told\<close>

text \<open>\<^verbatim>\<open>netdev_alloc_pcpu_stats\<close>: zeroed blocks, one per processor.\<close>

definition alloc_pcpu_stats :: "nat \<Rightarrow> pcpu_sw_netstats list" where
  "alloc_pcpu_stats n =
     replicate n \<lparr>cs_rx_packets = 0, cs_rx_bytes = 0, cs_tx_packets = 0, cs_tx_bytes = 0, cs_seq = 0, cs_sections = 0\<rparr>"

definition usb_count :: "stat_event \<Rightarrow> pcpu_sw_netstats list \<Rightarrow> pcpu_sw_netstats list" where
  "usb_count = stat_count usb_vnd_update_rx_stats usb_vnd_update_tx_stats"

definition mhi_count :: "stat_event \<Rightarrow> pcpu_sw_netstats list \<Rightarrow> pcpu_sw_netstats list" where
  "mhi_count = stat_count mhi_netdev_cpu_rx_stats mhi_netdev_cpu_tx_stats"

lemma add_cpus_alloc: "add_cpus net (alloc_pcpu_stats n) = Some net"
  by (induction n) (simp_all add: alloc_pcpu_stats_def u64_stats_fetch_def add_cpu_def)

text \<open>The sections left open on a processor change by \<open>k\<close> with every update there.\<close>

lemma sections_left:
  assumes "\<And>e st. length (f e st) = length st"
    and "\<And>e st. stat_cpu e < length st \<Longrightarrow>
      cs_sections (f e st ! cpu) = cs_sections (st ! cpu) + (if stat_cpu e = cpu then k else 0)"
  shows "(\<And>e. e \<in> set es \<Longrightarrow> stat_cpu e < length st) \<Longrightarrow>
    cs_sections (fold f es st ! cpu) = cs_sections (st ! cpu) + k * int (length (filter (\<lambda>e. stat_cpu e = cpu) es))"
  by (induction es arbitrary: st) (simp_all add: assms algebra_simps)

lemma usb_count_sections:
  "stat_cpu e < length st \<Longrightarrow> cs_sections (usb_count e st ! cpu) = cs_sections (st ! cpu)"
  by (cases e; cases "stat_cpu e = cpu")
    (simp_all add: usb_count_def usb_vnd_update_rx_stats_def usb_vnd_update_tx_stats_def section_defs)

lemma mhi_count_sections:
  "stat_cpu e < length st \<Longrightarrow> cs_sections (mhi_count e st ! cpu) = cs_sections (st ! cpu) + (if stat_cpu e = cpu then 2 else 0)"
  by (cases e; cases "stat_cpu e = cpu")
    (simp_all add: mhi_count_def mhi_netdev_cpu_rx_stats_def mhi_netdev_cpu_tx_stats_def section_defs)

text \<open>
  For every sequence of packets counted on any processors, the statistics of a USB channel's device are exactly
  what one counter of the device would show, also across the wrap-around of the 64-bit counters, and no
  section is left open.
\<close>

theorem usb_stats_exact:
  assumes "\<And>e. e \<in> set es \<Longrightarrow> stat_cpu e < n"
  defines "st \<equiv> fold usb_count es (alloc_pcpu_stats n)"
  shows "usb_vnd_get_stats64 False net st = Some (fold stat_spec es net)"
    and "cpu < n \<Longrightarrow> cs_sections (st ! cpu) = 0"
proof -
  have len: "length (alloc_pcpu_stats n) = n"
    by (simp add: alloc_pcpu_stats_def)
  show "usb_vnd_get_stats64 False net st = Some (fold stat_spec es net)"
    using usb_counters.counts_total [of es "alloc_pcpu_stats n" False net net] assms(1)
    by (simp add: st_def usb_count_def len add_cpus_alloc usb_vnd_get_stats64_def)
  show "cs_sections (st ! cpu) = 0" if "cpu < n"
    using sections_left [of usb_count cpu 0 es "alloc_pcpu_stats n"] usb_count_sections assms(1) that
    by (simp add: st_def usb_count_def usb_counters.count_length len) (simp add: alloc_pcpu_stats_def)
qed

text \<open>
  (C39) The PCIe network device tells the kernel the exact sums too, although every update begins a section twice
  and ends none: the sequence number is even again, but on each processor two more sections are open after
  each update there.
\<close>

theorem mhi_stats_exact_sections_open:
  assumes "\<And>e. e \<in> set es \<Longrightarrow> stat_cpu e < n"
  defines "st \<equiv> fold mhi_count es (alloc_pcpu_stats n)"
  shows "mhi_netdev_get_stats64 net st = Some (fold stat_spec es net) \<and>
    (\<forall>cpu < n. cs_sections (st ! cpu) = 2 * int (length (filter (\<lambda>e. stat_cpu e = cpu) es)))"
proof -
  have len: "length (alloc_pcpu_stats n) = n"
    by (simp add: alloc_pcpu_stats_def)
  have "mhi_netdev_get_stats64 net st = Some (fold stat_spec es net)"
    using mhi_counters.counts_total [of es "alloc_pcpu_stats n" net net] assms(1)
    by (simp add: st_def mhi_count_def len add_cpus_alloc mhi_netdev_get_stats64_def)
  moreover have l: "length (mhi_count e st) = length st" for e st
    by (simp add: mhi_count_def mhi_counters.count_length)
  have "cs_sections (st ! cpu) = 2 * int (length (filter (\<lambda>e. stat_cpu e = cpu) es))" if "cpu < n" for cpu
    using sections_left [of mhi_count cpu 2 es "alloc_pcpu_stats n"] mhi_count_sections assms(1) that len l
    by (simp add: st_def) (simp add: alloc_pcpu_stats_def)
  ultimately show ?thesis
    by blast
qed

subsection \<open>The life of the counters\<close>

text \<open>
  The calls that take down a network device, in their order. \<^verbatim>\<open>ndo_get_stats64\<close> may run on another processor
  whenever the device is registered, so it may run after each of them.
\<close>

datatype teardown_call =
    CarrierOff | StopQueue | CancelAggregation | DropAggregate | RemoveNss | FreeStats | UnregisterNetdev | FreeNetdev

record netdev_life =
  dl_registered :: bool
  dl_carrier :: bool
  dl_stopped :: bool
  dl_agg :: bool
  dl_nss :: bool
  dl_stats :: "pcpu_sw_netstats list option"
  dl_memory :: bool

fun teardown :: "teardown_call \<Rightarrow> netdev_life \<Rightarrow> netdev_life" where
  "teardown CarrierOff d = d\<lparr>dl_carrier := False\<rparr>"
| "teardown StopQueue d = d\<lparr>dl_stopped := True\<rparr>"
| "teardown CancelAggregation d = d"
| "teardown DropAggregate d = d\<lparr>dl_agg := False\<rparr>"
| "teardown RemoveNss d = d\<lparr>dl_nss := False\<rparr>"
| "teardown FreeStats d = d\<lparr>dl_stats := None\<rparr>"
| "teardown UnregisterNetdev d = d\<lparr>dl_registered := False\<rparr>"
| "teardown FreeNetdev d = d\<lparr>dl_memory := False\<rparr>"

definition qmap_unregister_calls :: "bool \<Rightarrow> teardown_call list" where
  "qmap_unregister_calls nss =
     [CarrierOff, StopQueue, CancelAggregation, DropAggregate] @ (if nss then [RemoveNss] else []) @
     [FreeStats, UnregisterNetdev, FreeNetdev]"

definition rmnet_vnd_unregister_device :: "bool \<Rightarrow> teardown_call list" where
  "rmnet_vnd_unregister_device nss =
     [CarrierOff, CancelAggregation, DropAggregate] @ (if nss then [RemoveNss] else []) @
     [FreeStats, UnregisterNetdev, FreeNetdev]"

definition mhi_netdev_remove_calls :: "teardown_call list" where
  "mhi_netdev_remove_calls = [UnregisterNetdev, FreeStats, FreeNetdev]"

text \<open>The states a reader on another processor can meet.\<close>

fun teardown_states :: "teardown_call list \<Rightarrow> netdev_life \<Rightarrow> netdev_life list" where
  "teardown_states [] d = [d]"
| "teardown_states (c # cs) d = d # teardown_states cs (teardown c d)"

definition stats_readable :: "netdev_life \<Rightarrow> bool" where
  "stats_readable d \<longleftrightarrow> \<not> dl_registered d \<or> dl_stats d \<noteq> None"

definition live_netdev :: "netdev_life \<Rightarrow> bool" where
  "live_netdev d \<longleftrightarrow> dl_registered d \<and> dl_stats d \<noteq> None \<and> dl_memory d"

text \<open>
  Taking down a device. The network device of the PCIe driver unregisters before it frees its counters, so a
  reader never meets freed ones. The devices of the channels of both drivers free the counters first: there
  is a moment at which the device is still registered and its counters are gone. All of them end unregistered
  with everything freed.
\<close>

theorem counters_freed_while_registered:
  assumes "live_netdev d"
  shows "list_all stats_readable (teardown_states mhi_netdev_remove_calls d)"
    and "\<not> list_all stats_readable (teardown_states (rmnet_vnd_unregister_device nss) d)"
    and "\<not> list_all stats_readable (teardown_states (qmap_unregister_calls nss) d)"
    and "cs \<in> {mhi_netdev_remove_calls, rmnet_vnd_unregister_device nss, qmap_unregister_calls nss} \<Longrightarrow>
      \<not> dl_registered (fold teardown cs d) \<and> dl_stats (fold teardown cs d) = None \<and> \<not> dl_memory (fold teardown cs d)"
  using assms
  by (auto simp: live_netdev_def stats_readable_def mhi_netdev_remove_calls_def rmnet_vnd_unregister_device_def
      qmap_unregister_calls_def)

end
