(* ===== verification/Usb_Examples.thy ===== *)
theory Usb_Examples
  imports Qmap_Usb Net_Stats
begin

text \<open>
  Concrete connections of the USB driver: the theorems of \<open>Qmap_Usb\<close> applied to a RG500 module. usbnet is
  instantiated by functions that bind and either succeed or give up on the bound device. The statistics of
  \<open>Net_Stats\<close> are those of three packets on two processors.
\<close>

definition demo_usbnet_probe ::
  "errno option \<Rightarrow> ('d \<Rightarrow> unit res \<times> 'd) \<Rightarrow> ('d \<Rightarrow> 'd) \<Rightarrow> 'd \<Rightarrow> unit res \<times> 'd" where
  "demo_usbnet_probe err bnd unbnd d =
     (case bnd d of
        (Inl e, d') \<Rightarrow> (Inl e, d')
      | (Inr _, d') \<Rightarrow> (case err of None \<Rightarrow> (Inr (), d') | Some e \<Rightarrow> (Inl e, unbnd d')))"

definition demo_usbnet_disconnect :: "('d \<Rightarrow> 'd) \<Rightarrow> 'd \<Rightarrow> 'd" where
  "demo_usbnet_disconnect unbnd d = unbnd d"

definition usb_net :: net_device where
  "usb_net =
     \<lparr>nd_name = ''wwan0'', nd_mtu = 1500, nd_ether = True, nd_hard_header_len = 14,
      nd_addr = [0x02, 0x11, 0x22, 0x33, 0x44, 0x55], nd_up = False, nd_carrier = False, nd_stopped = False\<rparr>"

definition usb_fresh :: wwan_dev where
  "usb_fresh =
     \<lparr>wd_control = None, wd_data = None, wd_subdriver = False, wd_pmcount = 0, wd_wakeup = False, wd_status = False,
      wd_unused = None, wd_info = qmi_wwan_info, wd_net = usb_net, wd_calls = []\<rparr>"

definition rg500_env :: "bool \<Rightarrow> usb_env" where
  "rg500_env mem =
     \<lparr>ue_endpoints = (Inr (), True), ue_wdm = Inr (), ue_kzalloc = mem, ue_class = 0xFF, ue_idProduct = 0x0800,
      ue_superspeed = True, ue_configured = True, ue_random = [0x02, 1, 2, 3, 4, 5]\<rparr>"

definition rg500 :: usb_device_id where
  "rg500 = QMI_FIXED_RAWIP_INTF 0x2C7C 0x0800 4 qmi_wwan_raw_ip_info_sdx55"

lemma demo_usbnet_laws:
  "usbnet_probe_law (demo_usbnet_probe err)" "usbnet_disconnect_law demo_usbnet_disconnect"
  by (simp_all add: usbnet_probe_law_def demo_usbnet_probe_def usbnet_disconnect_law_def demo_usbnet_disconnect_def
      split: prod.splits sum.splits option.splits)

lemma usb_fresh_ok: "fresh_dev usb_fresh"
  by (simp add: fresh_dev_def usb_fresh_def)

lemma rg500_control_ok: "control_ok (rg500_env mem)" "ue_class (rg500_env mem) = 0xFF" "ue_kzalloc (rg500_env mem) = mem"
  by (simp_all add: control_ok_def rg500_env_def)

lemma rg500_bind:
  "\<exists>d'. fst (qmi_wwan_bind_dev (rg500_env mem) 0 0 4 (usb_fresh\<lparr>wd_info := id_info rg500\<rparr>)) =
     (if mem then Inr () else Inl ENODEV, d')"
  by (cases mem)
    (simp_all add: qmi_wwan_bind_dev_def qmi_wwan_register_subdriver_def rg500_env_def usb_fresh_def Let_def
      split: prod.splits)

lemma rg500_probe:
  "\<exists>d'. qmap_usb_probe (demo_usbnet_probe err) (rg500_env mem) (\<lambda>i. None) (\<lambda>i. (0, 0)) 0 0 4 rg500 usb_fresh =
     (if \<not> mem then Inl ENODEV else case err of None \<Rightarrow> Inr () | Some e \<Rightarrow> Inl e, d')"
proof -
  obtain d' where b: "fst (qmi_wwan_bind_dev (rg500_env mem) 0 0 4 (usb_fresh\<lparr>wd_info := id_info rg500\<rparr>)) =
     (if mem then Inr () else Inl ENODEV, d')"
    using rg500_bind by blast
  show ?thesis
    using b by (cases mem; cases err; cases "wd_unused d'")
      (simp_all add: qmap_usb_probe_def qmi_wwan_probe_def demo_usbnet_probe_def rg500_control_ok Let_def)
qed

text \<open>Out of memory after the control channel was registered, and usbnet giving up on a bound device.\<close>

theorem usb_probe_failure_witness:
  "\<exists>d1 d2.
     qmap_usb_probe (demo_usbnet_probe None) (rg500_env False) (\<lambda>i. None) (\<lambda>i. (0, 0)) 0 0 4 rg500 usb_fresh =
       (Inl ENODEV, d1) \<and> wdm_held d1 = 1 \<and> qmap_held d1 = 0 \<and>
     qmap_usb_probe (demo_usbnet_probe (Some ENOMEM)) (rg500_env True) (\<lambda>i. None) (\<lambda>i. (0, 0)) 0 0 4 rg500 usb_fresh =
       (Inl ENOMEM, d2) \<and> wdm_held d2 = 0 \<and> qmap_held d2 = 1"
proof -
  obtain d1 d2 where
    1: "qmap_usb_probe (demo_usbnet_probe None) (rg500_env False) (\<lambda>i. None) (\<lambda>i. (0, 0)) 0 0 4 rg500 usb_fresh =
      (Inl ENODEV, d1)" and
    2: "qmap_usb_probe (demo_usbnet_probe (Some ENOMEM)) (rg500_env True) (\<lambda>i. None) (\<lambda>i. (0, 0)) 0 0 4 rg500 usb_fresh =
      (Inl ENOMEM, d2)"
    using rg500_probe [of None False] rg500_probe [of "Some ENOMEM" True] by auto
  show ?thesis
    using usb_probe_failure [OF demo_usbnet_laws(1) usb_fresh_ok 1] 1
      usb_probe_failure [OF demo_usbnet_laws(1) usb_fresh_ok 2] 2
    by (intro exI [of _ d1] exI [of _ d2]) (simp add: rg500_control_ok)
qed

text \<open>Connected, the link set up, disconnected.\<close>

theorem usb_connection_balance_witness:
  "\<exists>d1 d3.
     qmap_usb_probe (demo_usbnet_probe None) (rg500_env True) (\<lambda>i. None) (\<lambda>i. (0, 0)) 0 0 4 rg500 usb_fresh =
       (Inr (), d1) \<and>
     qmap_usb_disconnect demo_usbnet_disconnect (rg500_env True) 4
       (Some (d1\<lparr>wd_unused := Some (link_state_store 1 (the (wd_unused d1)))\<rparr>)) = Some d3 \<and>
     wdm_held d3 = 0 \<and> rx_held d3 = 0 \<and> qmap_held d3 = 0 \<and> last (wd_calls d3) = FreeQmap \<and>
     \<not> is_channel (the (wd_unused d3)) 0"
proof -
  obtain d1 where
    1: "qmap_usb_probe (demo_usbnet_probe None) (rg500_env True) (\<lambda>i. None) (\<lambda>i. (0, 0)) 0 0 4 rg500 usb_fresh =
      (Inr (), d1)"
    using rg500_probe [of None True] by auto
  let ?q = "link_state_store 1 (the (wd_unused d1))"
  have s: "qmap_step\<^sup>*\<^sup>* (the (wd_unused d1)) ?q"
    by (rule r_into_rtranclp) (rule step_link)
  obtain d3 where
    3: "qmap_usb_disconnect demo_usbnet_disconnect (rg500_env True) 4 (Some (d1\<lparr>wd_unused := Some ?q\<rparr>)) = Some d3"
    by (simp add: qmap_usb_disconnect_def Let_def)
  show ?thesis
    using usb_connection_balance [OF demo_usbnet_laws usb_fresh_ok 1 s 3] 1 3
    by (intro exI [of _ d1] exI [of _ d3]) simp
qed

text \<open>usbnet and the control channel ask, one of them gives up.\<close>

theorem remote_wakeup_counts_users_witness: "wakeup_run [True, True, False] (0, False) = (1, True)"
proof -
  have "count_list (take n [True, True, False]) False \<le> count_list (take n [True, True, False]) True"
    if "n \<le> length [True, True, False]" for n
    using that by (auto simp: le_Suc_eq numeral_3_eq_3)
  from remote_wakeup_counts_users [OF this] show ?thesis
    by simp
qed

text \<open>The SIM8200 (05c6:90db) on a high-speed port.\<close>

theorem unlisted_5g_without_qmap_witness:
  "q_qmap_mode (fst (qmi_wwan_bind [0x02, 1, 2, 3, 4, 5] 0 0x91F 0x90DB False True 0 usb_net)) = 0"
proof -
  let ?id = "QMI_FIXED_RAWIP_INTF 0x05C6 0x90DB 2 qmi_wwan_raw_ip_info_sdx55"
  have mem: "?id \<in> set products"
    by (simp add: products_def)
  have info: "id_driver_info ?id = Some qmi_wwan_raw_ip_info_sdx55"
    by (simp add: QMI_FIXED_RAWIP_INTF_def)
  have data: "di_data (id_info ?id) = 0x91F" "ucast (id_product ?id) = (0x90DB :: u32)"
    by (simp_all add: id_info_def info raw_ip_data) (simp add: QMI_FIXED_RAWIP_INTF_def)
  obtain q m u where b: "qmi_wwan_bind [0x02, 1, 2, 3, 4, 5] 0 0x91F 0x90DB False True 0 usb_net = (q, m, u)"
    using prod_cases3 by blast
  have "id_product ?id \<in> set unlisted_5g"
    by (simp add: QMI_FIXED_RAWIP_INTF_def unlisted_5g_def)
  then show ?thesis
    using unlisted_5g_without_qmap(1) [OF mem info, of "[0x02, 1, 2, 3, 4, 5]" 0 usb_net q m u] b by (simp add: data)
qed

text \<open>Two packets received on the first processor, one sent on the second.\<close>

definition demo_stats :: "stat_event list" where
  "demo_stats = [StatRx 0 1 1500, StatTx 1 1 60, StatRx 0 1 40]"

lemma demo_stats_cpu: "e \<in> set demo_stats \<Longrightarrow> stat_cpu e < 2"
  by (auto simp: demo_stats_def)

theorem usb_stats_exact_witness:
  "usb_vnd_get_stats64 False zero_stats (fold usb_count demo_stats (alloc_pcpu_stats 2)) =
     Some \<lparr>st_rx_packets = 2, st_rx_bytes = 1540, st_tx_packets = 1, st_tx_bytes = 60, st_tx_errors = 0\<rparr>"
  using usb_stats_exact(1) [OF demo_stats_cpu, of demo_stats zero_stats]
  by (simp add: demo_stats_def rx_stats_def tx_stats_def zero_stats_def)

theorem mhi_stats_exact_sections_open_witness:
  "mhi_netdev_get_stats64 zero_stats (fold mhi_count demo_stats (alloc_pcpu_stats 2)) =
     Some \<lparr>st_rx_packets = 2, st_rx_bytes = 1540, st_tx_packets = 1, st_tx_bytes = 60, st_tx_errors = 0\<rparr> \<and>
   cs_sections (fold mhi_count demo_stats (alloc_pcpu_stats 2) ! 0) = 4"
  using mhi_stats_exact_sections_open [OF demo_stats_cpu, of demo_stats zero_stats]
  by (simp add: demo_stats_def rx_stats_def tx_stats_def zero_stats_def)

definition demo_life :: netdev_life where
  "demo_life =
     \<lparr>dl_registered = True, dl_carrier = True, dl_stopped = False, dl_agg = False, dl_nss = False, dl_stats = Some (alloc_pcpu_stats 2),
      dl_memory = True\<rparr>"

theorem counters_freed_while_registered_witness:
  "list_all stats_readable (teardown_states mhi_netdev_remove_calls demo_life) \<and>
   \<not> list_all stats_readable (teardown_states (rmnet_vnd_unregister_device False) demo_life)"
proof -
  have "live_netdev demo_life"
    by (simp add: live_netdev_def demo_life_def)
  from counters_freed_while_registered(1,2) [OF this] show ?thesis
    by blast
qed

end
